(* ===== verification/Mesh_Prelude.thy ===== *)
theory Mesh_Prelude
  imports Main "HOL-Library.Word"
begin

text \<open>
  Shared vocabulary of the development: the machine integers of the C code as
  words, byte buffers as lists of 8-bit words, the unaligned big- and
  little-endian accessors of \<^verbatim>\<open>src/shared/util.h\<close>, and the list searches of GLib
  (\<^verbatim>\<open>g_list_find_custom\<close>, \<^verbatim>\<open>g_list_delete_link\<close>, \<^verbatim>\<open>g_list_insert_sorted\<close>) that
  every component of \<^verbatim>\<open>mesh/\<close> is written with.

  A read past the end of a buffer is undefined in C. The accessor \<open>byte_at\<close>
  returns 0 there so that every definition computes; wherever the code can
  really read or write out of bounds, the model of that function says so with
  an explicit result, and the theorems about it state the bound they need.
\<close>

unbundle bit_operations_syntax

type_synonym u8 = "8 word"
type_synonym u16 = "16 word"
type_synonym u32 = "32 word"
type_synonym u64 = "64 word"
type_synonym bytes = "u8 list"

named_theorems buf_simps \<open>reading a byte or a field of a buffer after a write\<close>
named_theorems mesh_defs \<open>definitions of constants and address classes\<close>

section \<open>Words read as natural numbers\<close>

named_theorems unat_simps \<open>the value of a word operation as arithmetic on nat\<close>

lemma unat_ucast_mod [unat_simps]:
  "unat (ucast w :: 'b::len word) = unat w mod 2 ^ LENGTH('b)" for w :: "'a::len word"
  by (simp add: unsigned_ucast_eq take_bit_eq_mod)

lemma unat_drop [unat_simps]: "unat (drop_bit n w) = unat w div 2 ^ n" for w :: "'a::len word"
  by (simp add: unat_drop_bit_eq) (simp add: drop_bit_eq_div)

lemma unat_push [unat_simps]:
  "unat (push_bit n w) = 2 ^ n * unat w mod 2 ^ LENGTH('a)" for w :: "'a::len word"
  by (simp add: unsigned_push_bit_eq) (simp add: push_bit_eq_mult take_bit_eq_mod mult.commute)

lemma unat_and_mask [unat_simps]: "unat (w AND mask n) = unat w mod 2 ^ n" for w :: "'a::len word"
  by (simp add: unsigned_take_bit_eq flip: take_bit_eq_mask) (simp add: take_bit_eq_mod)

lemma unat_u8_less: "unat (w :: u8) < 256"
  using unsigned_less [of w, where 'a = nat] by simp

lemma unat_u16_less: "unat (w :: u16) < 65536"
  using unsigned_less [of w, where 'a = nat] by simp

lemma unat_u32_less: "unat (w :: u32) < 4294967296"
  using unsigned_less [of w, where 'a = nat] by simp

lemma unat_of_nat_u16: "n < 65536 \<Longrightarrow> unat (of_nat n :: u16) = n"
  by (simp add: unat_of_nat)

section \<open>Byte buffers\<close>

definition byte_at :: "bytes \<Rightarrow> nat \<Rightarrow> u8" where
  "byte_at b i = (if i < length b then b ! i else 0)"

text \<open>\<^verbatim>\<open>memcpy(b + i, src, n)\<close> with \<open>n = length src\<close>.\<close>

definition memcpy :: "bytes \<Rightarrow> nat \<Rightarrow> bytes \<Rightarrow> bytes" where
  "memcpy b i src = take i b @ take (length b - i) src @ drop (i + length src) b"

definition sub_bytes :: "bytes \<Rightarrow> nat \<Rightarrow> nat \<Rightarrow> bytes" where
  "sub_bytes b i n = map (\<lambda>k. byte_at b (i + k)) [0..<n]"

lemma length_memcpy [simp, buf_simps]: "i \<le> length b \<Longrightarrow> length (memcpy b i src) = length b"
  by (simp add: memcpy_def)

lemma byte_at_memcpy [buf_simps]:
  "i \<le> length b \<Longrightarrow>
   byte_at (memcpy b i src) k =
     (if i \<le> k \<and> k < i + length src \<and> k < length b then src ! (k - i) else byte_at b k)"
  by (auto simp: byte_at_def memcpy_def nth_append)

lemma byte_at_update [buf_simps]:
  "byte_at (b[i := v]) k = (if k = i \<and> i < length b then v else byte_at b k)"
  by (auto simp: byte_at_def)

lemma byte_at_nth [buf_simps]: "i < length b \<Longrightarrow> byte_at b i = b ! i"
  by (simp add: byte_at_def)

lemma byte_at_append_left: "i < length a \<Longrightarrow> byte_at (a @ b) i = byte_at a i"
  by (simp add: byte_at_def nth_append)

lemma byte_at_append_right: "byte_at (a @ b) (length a + i) = byte_at b i"
  by (simp add: byte_at_def)

lemma byte_at_take: "i < n \<Longrightarrow> byte_at (take n b) i = byte_at b i"
  by (simp add: byte_at_def)

lemma byte_at_drop: "byte_at (drop n b) i = byte_at b (n + i)"
  by (auto simp: byte_at_def)

lemma byte_at_eqI: "length a = length b \<Longrightarrow> (\<And>i. i < length a \<Longrightarrow> byte_at a i = byte_at b i) \<Longrightarrow> a = b"
  by (rule nth_equalityI) (auto simp: byte_at_def)

lemma length_sub_bytes [simp]: "length (sub_bytes b i n) = n"
  by (simp add: sub_bytes_def)

lemma byte_at_sub_bytes: "k < n \<Longrightarrow> byte_at (sub_bytes b i n) k = byte_at b (i + k)"
  by (simp add: sub_bytes_def byte_at_def)

lemma nth_sub_bytes [simp]: "k < n \<Longrightarrow> sub_bytes b i n ! k = byte_at b (i + k)"
  by (simp add: sub_bytes_def)

lemma sub_bytes_eq_take_drop: "i + n \<le> length b \<Longrightarrow> sub_bytes b i n = take n (drop i b)"
  by (rule nth_equalityI) (auto simp: byte_at_def)

section \<open>Endian accessors (src/shared/util.h)\<close>

definition be16 :: "u8 \<Rightarrow> u8 \<Rightarrow> u16" where
  "be16 h l = push_bit 8 (ucast h) OR ucast l"

definition be16_hi :: "u16 \<Rightarrow> u8" where
  "be16_hi v = ucast (drop_bit 8 v)"

definition be16_lo :: "u16 \<Rightarrow> u8" where
  "be16_lo v = ucast v"

definition get_be16 :: "bytes \<Rightarrow> nat \<Rightarrow> u16" where
  "get_be16 b i = be16 (byte_at b i) (byte_at b (i + 1))"

definition get_le16 :: "bytes \<Rightarrow> nat \<Rightarrow> u16" where
  "get_le16 b i = be16 (byte_at b (i + 1)) (byte_at b i)"

definition put_be16 :: "u16 \<Rightarrow> bytes \<Rightarrow> nat \<Rightarrow> bytes" where
  "put_be16 v b i = b[i := be16_hi v, i + 1 := be16_lo v]"

definition put_le16 :: "u16 \<Rightarrow> bytes \<Rightarrow> nat \<Rightarrow> bytes" where
  "put_le16 v b i = b[i := be16_lo v, i + 1 := be16_hi v]"

definition get_be32 :: "bytes \<Rightarrow> nat \<Rightarrow> u32" where
  "get_be32 b i = push_bit 16 (ucast (get_be16 b i)) OR ucast (get_be16 b (i + 2))"

definition put_be32 :: "u32 \<Rightarrow> bytes \<Rightarrow> nat \<Rightarrow> bytes" where
  "put_be32 v b i = put_be16 (ucast v) (put_be16 (ucast (drop_bit 16 v)) b i) (i + 2)"

definition get_be64 :: "bytes \<Rightarrow> nat \<Rightarrow> u64" where
  "get_be64 b i = push_bit 32 (ucast (get_be32 b i)) OR ucast (get_be32 b (i + 4))"

definition put_be64 :: "u64 \<Rightarrow> bytes \<Rightarrow> nat \<Rightarrow> bytes" where
  "put_be64 v b i = put_be32 (ucast v) (put_be32 (ucast (drop_bit 32 v)) b i) (i + 4)"

lemma be16_parts [simp, buf_simps]: "be16 (be16_hi v) (be16_lo v) = v"
  unfolding be16_def be16_hi_def be16_lo_def
  by (rule bit_word_eqI) (auto simp: bit_simps)

lemma be16_hi_be16 [simp, buf_simps]: "be16_hi (be16 h l) = h"
  unfolding be16_def be16_hi_def
  by (rule bit_word_eqI) (auto simp: bit_simps dest: bit_imp_le_length)

lemma be16_lo_be16 [simp, buf_simps]: "be16_lo (be16 h l) = l"
  unfolding be16_def be16_lo_def
  by (rule bit_word_eqI) (auto simp: bit_simps)

lemma word32_halves: "push_bit 16 (ucast (ucast (drop_bit 16 v) :: u16)) OR ucast (ucast v :: u16) = (v :: u32)"
  by (rule bit_word_eqI) (auto simp: bit_simps)

lemma word64_halves: "push_bit 32 (ucast (ucast (drop_bit 32 v) :: u32)) OR ucast (ucast v :: u32) = (v :: u64)"
  by (rule bit_word_eqI) (auto simp: bit_simps)


lemma word32_hi_half: "(ucast (drop_bit 16 (push_bit 16 (ucast (h::u16)) OR ucast (l::u16) :: u32)) :: u16) = h"
  by (rule bit_word_eqI) (auto simp: bit_simps dest: bit_imp_le_length)

lemma word32_lo_half: "(ucast (push_bit 16 (ucast (h::u16)) OR ucast (l::u16) :: u32) :: u16) = l"
  by (rule bit_word_eqI) (auto simp: bit_simps)

lemma be16_inject: "be16 a b = be16 c d \<longleftrightarrow> a = c \<and> b = d"
  by (metis be16_hi_be16 be16_lo_be16)

lemma be16_bytes_inject: "be16_hi v = be16_hi w \<Longrightarrow> be16_lo v = be16_lo w \<Longrightarrow> v = w"
  by (metis be16_parts)

lemma get_be32_bytes:
  assumes "get_be32 a i = get_be32 b j" "k < 4"
  shows "byte_at a (i + k) = byte_at b (j + k)"
proof -
  from assms(1) have "get_be16 a i = get_be16 b j" "get_be16 a (i + 2) = get_be16 b (j + 2)"
    unfolding get_be32_def by (metis word32_hi_half, metis word32_lo_half)
  then have "byte_at a i = byte_at b j \<and> byte_at a (i + 1) = byte_at b (j + 1) \<and>
      byte_at a (i + 2) = byte_at b (j + 2) \<and> byte_at a (i + 3) = byte_at b (j + 3)"
    by (simp add: get_be16_def be16_inject numeral_3_eq_3)
  moreover have "k = 0 \<or> k = 1 \<or> k = 2 \<or> k = 3" using assms(2) by arith
  ultimately show ?thesis by auto
qed

lemma get_be64_bytes:
  assumes "get_be64 a i = get_be64 b j" "k < 8"
  shows "byte_at a (i + k) = byte_at b (j + k)"
proof -
  have hi: "(ucast (drop_bit 32 (push_bit 32 (ucast (h::u32)) OR ucast (l::u32) :: u64)) :: u32) = h" for h l
    by (rule bit_word_eqI) (auto simp: bit_simps dest: bit_imp_le_length)
  have lo: "(ucast (push_bit 32 (ucast (h::u32)) OR ucast (l::u32) :: u64) :: u32) = l" for h l
    by (rule bit_word_eqI) (auto simp: bit_simps)
  from assms(1) have e: "get_be32 a i = get_be32 b j" "get_be32 a (i + 4) = get_be32 b (j + 4)"
    unfolding get_be64_def by (metis hi, metis lo)
  show ?thesis
  proof (cases "k < 4")
    case True
    with e(1) show ?thesis by (rule get_be32_bytes)
  next
    case False
    with get_be32_bytes [OF e(2), of "k - 4"] assms(2) show ?thesis by simp
  qed
qed

lemma length_put_be16 [simp, buf_simps]: "length (put_be16 v b i) = length b"
  by (simp add: put_be16_def)

lemma length_put_le16 [simp, buf_simps]: "length (put_le16 v b i) = length b"
  by (simp add: put_le16_def)

lemma length_put_be32 [simp, buf_simps]: "length (put_be32 v b i) = length b"
  by (simp add: put_be32_def)

lemma length_put_be64 [simp, buf_simps]: "length (put_be64 v b i) = length b"
  by (simp add: put_be64_def)

lemma byte_at_put_be16 [buf_simps]:
  "i + 1 < length b \<Longrightarrow>
   byte_at (put_be16 v b i) k =
     (if k = i then be16_hi v else if k = i + 1 then be16_lo v else byte_at b k)"
  by (simp add: put_be16_def byte_at_update)

lemma byte_at_put_le16 [buf_simps]:
  "i + 1 < length b \<Longrightarrow>
   byte_at (put_le16 v b i) k =
     (if k = i then be16_lo v else if k = i + 1 then be16_hi v else byte_at b k)"
  by (simp add: put_le16_def byte_at_update)

lemma byte_at_put_be32 [buf_simps]:
  "i + 3 < length b \<Longrightarrow>
   byte_at (put_be32 v b i) k =
     (if k = i then be16_hi (ucast (drop_bit 16 v))
      else if k = i + 1 then be16_lo (ucast (drop_bit 16 v))
      else if k = i + 2 then be16_hi (ucast v)
      else if k = i + 3 then be16_lo (ucast v) else byte_at b k)"
  by (simp add: put_be32_def byte_at_put_be16)

lemma byte_at_put_be64_other:
  "i + 7 < length b \<Longrightarrow> k < i \<or> i + 7 < k \<Longrightarrow> byte_at (put_be64 v b i) k = byte_at b k"
  by (auto simp: put_be64_def byte_at_put_be32)

lemma put_be16_append: "put_be16 v (a @ t) (length a + k) = a @ put_be16 v t k"
  by (simp add: put_be16_def list_update_append)

lemma put_be32_append: "put_be32 v (a @ t) (length a + k) = a @ put_be32 v t k"
  unfolding put_be32_def put_be16_append add.assoc ..

lemma put_be64_append: "put_be64 v (a @ t) (length a + k) = a @ put_be64 v t k"
  unfolding put_be64_def put_be32_append add.assoc ..

lemma put_0_replicate:
  "length t = 4 \<Longrightarrow> put_be32 0 t 0 = replicate 4 0"
  "length t = 8 \<Longrightarrow> put_be64 0 t 0 = replicate 8 0"
  by (auto simp: put_be64_def put_be32_def put_be16_def be16_hi_def be16_lo_def numeral_eq_Suc length_Suc_conv)

text \<open>
  The law every accessor pair obeys: a field of \<open>w\<close> bytes written at \<open>i\<close> reads
  back, keeps the buffer's length, and touches no other byte.
\<close>

locale field_codec =
  fixes put :: "'a \<Rightarrow> bytes \<Rightarrow> nat \<Rightarrow> bytes"
    and get :: "bytes \<Rightarrow> nat \<Rightarrow> 'a"
    and w :: nat
  assumes put_length: "length (put v b i) = length b"
    and get_put: "i + w \<le> length b \<Longrightarrow> get (put v b i) i = v"
    and put_other: "i + w \<le> length b \<Longrightarrow> k < i \<or> i + w \<le> k \<Longrightarrow> byte_at (put v b i) k = byte_at b k"
    and get_local: "(\<And>k. k < w \<Longrightarrow> byte_at b (i + k) = byte_at b' (j + k)) \<Longrightarrow> get b i = get b' j"
begin

lemma get_put_disjoint:
  assumes "i + w \<le> length b" and "j + w \<le> i \<or> i + w \<le> j"
  shows "get (put v b i) j = get b j"
  using assms by (intro get_local put_other) auto

lemma put_inject:
  assumes "put v b i = put v' b i" and "i + w \<le> length b"
  shows "v = v'"
  using assms get_put by metis

lemma get_append: "i + w \<le> length b \<Longrightarrow> get (b @ c) i = get b i"
  by (rule get_local) (simp add: byte_at_append_left)

lemma get_shift: "get (drop n b) i = get b (n + i)"
  by (rule get_local) (simp add: byte_at_drop add.assoc)

lemma get_take: "i + w \<le> n \<Longrightarrow> get (take n b) i = get b i"
  by (rule get_local) (simp add: byte_at_take)

end

lemma less_four: "(\<And>k. k < 4 \<Longrightarrow> P k) \<Longrightarrow> P 0 \<and> P (Suc 0) \<and> P 2 \<and> P (3::nat)"
  by simp

interpretation be16f: field_codec put_be16 get_be16 2
proof
  fix b i b' j assume "\<And>k. k < 2 \<Longrightarrow> byte_at b (i + k) = byte_at b' (j + k)"
  from this [of 0] this [of 1] show "get_be16 b i = get_be16 b' j" by (simp add: get_be16_def)
qed (auto simp: get_be16_def byte_at_put_be16)

interpretation le16f: field_codec put_le16 get_le16 2
proof
  fix b i b' j assume "\<And>k. k < 2 \<Longrightarrow> byte_at b (i + k) = byte_at b' (j + k)"
  from this [of 0] this [of 1] show "get_le16 b i = get_le16 b' j" by (simp add: get_le16_def)
qed (auto simp: get_le16_def byte_at_put_le16)

interpretation be32f: field_codec put_be32 get_be32 4
proof
  fix b i b' j assume "\<And>k. k < 4 \<Longrightarrow> byte_at b (i + k) = byte_at b' (j + k)"
  from less_four [of "\<lambda>k. byte_at b (i + k) = byte_at b' (j + k)", OF this]
  show "get_be32 b i = get_be32 b' j"
    by (simp add: get_be32_def get_be16_def numeral_3_eq_3)
qed (auto simp: get_be32_def get_be16_def byte_at_put_be32 word32_halves)

interpretation be64f: field_codec put_be64 get_be64 8
proof
  fix v :: u64 and b :: bytes and i assume "i + 8 \<le> length b"
  then show "get_be64 (put_be64 v b i) i = v"
    by (simp add: get_be64_def put_be64_def be32f.get_put be32f.get_put_disjoint word64_halves)
next
  fix b i b' j assume *: "\<And>k. k < 8 \<Longrightarrow> byte_at b (i + k) = byte_at b' (j + k)"
  have "get_be32 b i = get_be32 b' j" by (rule be32f.get_local) (simp add: *)
  moreover have "get_be32 b (i + 4) = get_be32 b' (j + 4)"
    by (rule be32f.get_local) (use * [of "4 + _"] in \<open>simp add: add.assoc\<close>)
  ultimately show "get_be64 b i = get_be64 b' j" by (simp add: get_be64_def)
qed (auto simp: byte_at_put_be64_other)

lemmas [buf_simps] =
  be16f.get_put be16f.get_put_disjoint le16f.get_put le16f.get_put_disjoint
  be32f.get_put be32f.get_put_disjoint be64f.get_put

section \<open>Results of fallible C functions\<close>

text \<open>
  \<open>Ret x\<close>: the function returned success with result \<open>x\<close>. \<open>Fail\<close>: it returned
  \<^verbatim>\<open>false\<close>, a negative number or \<^verbatim>\<open>NULL\<close>. \<open>Fault\<close>: it read or wrote outside a
  buffer, or dereferenced a null or freed pointer, which C leaves undefined.
\<close>

datatype 'a cres = Ret 'a | Fail | Fault

fun cbind :: "'a cres \<Rightarrow> ('a \<Rightarrow> 'b cres) \<Rightarrow> 'b cres" where
  "cbind (Ret x) f = f x"
| "cbind Fail f = Fail"
| "cbind Fault f = Fault"

fun of_option :: "'a option \<Rightarrow> 'a cres" where
  "of_option None = Fail"
| "of_option (Some x) = Ret x"

definition cguard :: "bool \<Rightarrow> 'a cres \<Rightarrow> 'a cres" where
  "cguard ok m = (if ok then m else Fault)"

lemma cbind_Ret_iff: "cbind m f = Ret y \<longleftrightarrow> (\<exists>x. m = Ret x \<and> f x = Ret y)"
  by (cases m) auto

lemma of_option_Ret_iff [simp]: "of_option m = Ret x \<longleftrightarrow> m = Some x"
  by (cases m) auto

lemma of_option_not_Fault [simp]: "of_option m \<noteq> Fault"
  by (cases m) auto

lemma cguard_Ret_iff [simp]: "cguard ok m = Ret x \<longleftrightarrow> ok \<and> m = Ret x"
  by (simp add: cguard_def)

lemma cguard_True [simp]: "cguard True m = m"
  by (simp add: cguard_def)

lemma cbind_not_Fault: "m \<noteq> Fault \<Longrightarrow> (\<And>x. m = Ret x \<Longrightarrow> f x \<noteq> Fault) \<Longrightarrow> cbind m f \<noteq> Fault"
  by (cases m) auto

section \<open>Exclusive or of byte strings\<close>

definition xor_bytes :: "bytes \<Rightarrow> bytes \<Rightarrow> bytes" where
  "xor_bytes a b = map2 (XOR) a b"

lemma length_xor_bytes [simp]: "length (xor_bytes a b) = min (length a) (length b)"
  by (simp add: xor_bytes_def)

lemma byte_at_xor_bytes: "i < length a \<Longrightarrow> i < length b \<Longrightarrow> byte_at (xor_bytes a b) i = byte_at a i XOR byte_at b i"
  by (simp add: xor_bytes_def byte_at_def)

lemma xor_cancel [simp]: "(x XOR y) XOR y = x" for x y :: "'a::len word"
  by (simp add: xor.assoc)

lemma xor_bytes_cancel: "length a \<le> length b \<Longrightarrow> xor_bytes (xor_bytes a b) b = a"
  by (rule nth_equalityI) (auto simp: xor_bytes_def)

section \<open>GLib lists\<close>

text \<open>
  \<^verbatim>\<open>g_list_find_custom\<close> is the library's \<^const>\<open>find\<close>. \<^verbatim>\<open>g_list_delete_link\<close> on the
  link it returned, and an in-place change of that link's data, act on the
  first element that matches.
\<close>

fun delete_first :: "('a \<Rightarrow> bool) \<Rightarrow> 'a list \<Rightarrow> 'a list" where
  "delete_first P [] = []"
| "delete_first P (x # xs) = (if P x then xs else x # delete_first P xs)"

fun update_first :: "('a \<Rightarrow> bool) \<Rightarrow> ('a \<Rightarrow> 'a) \<Rightarrow> 'a list \<Rightarrow> 'a list" where
  "update_first P f [] = []"
| "update_first P f (x # xs) = (if P x then f x # xs else x # update_first P f xs)"

text \<open>
  \<^verbatim>\<open>g_list_insert_sorted(list, data, cmp)\<close>: in front of the first element \<open>e\<close>
  with \<open>cmp data e \<le> 0\<close>.
\<close>

fun g_list_insert_sorted :: "('a \<Rightarrow> 'a \<Rightarrow> int) \<Rightarrow> 'a \<Rightarrow> 'a list \<Rightarrow> 'a list" where
  "g_list_insert_sorted cmp x [] = [x]"
| "g_list_insert_sorted cmp x (e # es) =
     (if cmp x e > 0 then e # g_list_insert_sorted cmp x es else x # e # es)"

lemma set_delete_first: "set (delete_first P xs) \<subseteq> set xs"
  by (induction xs) auto

lemma delete_first_id: "find P xs = None \<Longrightarrow> delete_first P xs = xs"
  by (induction xs) (auto split: if_splits)

lemma update_first_id: "find P xs = None \<Longrightarrow> update_first P f xs = xs"
  by (induction xs) (auto split: if_splits)

lemma find_SomeD: "find P xs = Some x \<Longrightarrow> P x \<and> x \<in> set xs"
  by (auto simp: find_Some_iff)

lemma find_append: "find P (xs @ ys) = (case find P xs of None \<Rightarrow> find P ys | Some x \<Rightarrow> Some x)"
  by (induction xs) auto

lemma find_update_first:
  "(\<And>x. P x \<Longrightarrow> P (f x)) \<Longrightarrow> find P (update_first P f xs) = map_option f (find P xs)"
  by (induction xs) auto

lemma find_update_first_other:
  "(\<And>x. P x \<Longrightarrow> \<not> Q x \<and> \<not> Q (f x)) \<Longrightarrow> find Q (update_first P f xs) = find Q xs"
  by (induction xs) auto

lemma find_delete_first_other:
  "(\<And>x. P x \<Longrightarrow> \<not> Q x) \<Longrightarrow> find Q (delete_first P xs) = find Q xs"
  by (induction xs) auto

lemma map_update_first: "(\<And>x. P x \<Longrightarrow> g (f x) = g x) \<Longrightarrow> map g (update_first P f xs) = map g xs"
  by (induction xs) auto

lemma length_update_first [simp]: "length (update_first P f xs) = length xs"
  by (induction xs) auto

lemma distinct_map_delete_first: "distinct (map g xs) \<Longrightarrow> distinct (map g (delete_first P xs))"
  by (induction xs) (use set_delete_first in fastforce)+

lemma find_delete_first_same:
  "distinct (map g xs) \<Longrightarrow> find (\<lambda>x. g x = k) (delete_first (\<lambda>x. g x = k) xs) = None"
  by (induction xs) (auto simp: find_None_iff image_iff)

lemma set_g_list_insert_sorted [simp]: "set (g_list_insert_sorted cmp x xs) = insert x (set xs)"
  by (induction xs) auto

section \<open>Step systems and their invariants\<close>

text \<open>States reachable by steps of an event-driven component from its start states.\<close>

inductive reach :: "('s \<Rightarrow> bool) \<Rightarrow> ('s \<Rightarrow> 's \<Rightarrow> bool) \<Rightarrow> 's \<Rightarrow> bool" for init step where
  reach_init: "init s \<Longrightarrow> reach init step s"
| reach_step: "reach init step s \<Longrightarrow> step s t \<Longrightarrow> reach init step t"

locale invariant_system =
  fixes init :: "'s \<Rightarrow> bool" and step :: "'s \<Rightarrow> 's \<Rightarrow> bool" and inv :: "'s \<Rightarrow> bool"
  assumes inv_init: "init s \<Longrightarrow> inv s"
    and inv_step: "inv s \<Longrightarrow> step s t \<Longrightarrow> inv t"
begin

lemma reach_inv: "reach init step s \<Longrightarrow> inv s"
  by (induction rule: reach.induct) (auto intro: inv_init inv_step)

end

end
