(* ===== verification/Mesh_Util.thy ===== *)
theory Mesh_Util
  imports Mesh_Prelude
begin

text \<open>
  \<^verbatim>\<open>mesh/util.c\<close> (opcode coding, hexadecimal text, byte-order reversal, status
  names) and the address and segment macros of \<^verbatim>\<open>mesh/mesh-net.h\<close>.

  A function that fills a caller's buffer and returns how many bytes it wrote
  is modelled by the list of the bytes it wrote.
\<close>

section \<open>Address classes and segment counts (mesh-net.h)\<close>

definition UNASSIGNED_ADDRESS :: u16 where [mesh_defs]: "UNASSIGNED_ADDRESS = 0"
definition NET_IDX_INVALID :: u16 where [mesh_defs]: "NET_IDX_INVALID = 0xffff"
definition APP_IDX_INVALID :: u16 where [mesh_defs]: "APP_IDX_INVALID = 0xffff"
definition APP_IDX_DEV :: u16 where [mesh_defs]: "APP_IDX_DEV = 0x7fff"
definition DEFAULT_TTL :: u8 where [mesh_defs]: "DEFAULT_TTL = 0xff"

definition IS_UNASSIGNED :: "'a::len word \<Rightarrow> bool" where [mesh_defs]:
  "IS_UNASSIGNED x \<longleftrightarrow> x = 0"

definition IS_UNICAST :: "'a::len word \<Rightarrow> bool" where [mesh_defs]:
  "IS_UNICAST x \<longleftrightarrow> x > 0 \<and> x < 0x8000"

definition IS_VIRTUAL :: "'a::len word \<Rightarrow> bool" where [mesh_defs]:
  "IS_VIRTUAL x \<longleftrightarrow> x \<ge> 0x8000 \<and> x \<le> 0xbfff"

definition IS_GROUP :: "'a::len word \<Rightarrow> bool" where [mesh_defs]:
  "IS_GROUP x \<longleftrightarrow> x \<ge> 0xc000 \<and> x \<le> 0xff00"

definition IS_ALL_NODES :: "'a::len word \<Rightarrow> bool" where [mesh_defs]:
  "IS_ALL_NODES x \<longleftrightarrow> x = 0xffff"

definition SEG_MAX :: "nat \<Rightarrow> nat" where
  "SEG_MAX len = (if len \<le> 15 then 0 else (len - 1) div 12)"

lemma address_classes_disjoint:
  fixes x :: u16
  shows "IS_UNICAST x \<Longrightarrow> \<not> IS_VIRTUAL x" "IS_UNICAST x \<Longrightarrow> \<not> IS_GROUP x"
    "IS_VIRTUAL x \<Longrightarrow> \<not> IS_GROUP x" "IS_UNICAST x \<Longrightarrow> \<not> IS_UNASSIGNED x"
  by (auto simp: mesh_defs word_less_nat_alt word_le_nat_alt)

section \<open>Opcodes\<close>

definition mesh_opcode_set :: "u32 \<Rightarrow> bytes" where
  "mesh_opcode_set opcode =
     (if opcode \<le> 0x7e then [ucast opcode]
      else if opcode \<ge> 0x8000 \<and> opcode \<le> 0xbfff then
        [be16_hi (ucast opcode), be16_lo (ucast opcode)]
      else if opcode \<ge> 0xc00000 \<and> opcode \<le> 0xffffff then
        [ucast (drop_bit 16 opcode AND 0xff), be16_hi (ucast opcode), be16_lo (ucast opcode)]
      else [])"

definition mesh_opcode_get :: "bytes \<Rightarrow> nat \<Rightarrow> (u32 \<times> nat) option" where
  "mesh_opcode_get buf sz =
     (if sz < 1 then None
      else let b0 = byte_at buf 0; sel = b0 AND 0xc0 in
        if sel = 0x00 \<or> sel = 0x40 then
          (if b0 = 0x7f then None else Some (ucast b0, 1))
        else if sel = 0x80 then
          (if sz < 2 then None else Some (ucast (get_be16 buf 0), 2))
        else if sel = 0xc0 then
          (if sz < 3 then None
           else Some (ucast (get_be16 buf 1) OR push_bit 16 (ucast b0), 3))
        else None)"

section \<open>Hexadecimal text\<close>

definition hexdigit :: "nat \<Rightarrow> char" where
  "hexdigit n = ''0123456789abcdef'' ! n"

definition hexval :: "char \<Rightarrow> nat option" where
  "hexval c =
     (let n = of_char c :: nat in
      if 48 \<le> n \<and> n \<le> 57 then Some (n - 48)
      else if 97 \<le> n \<and> n \<le> 102 then Some (n - 87)
      else if 65 \<le> n \<and> n \<le> 70 then Some (n - 55)
      else None)"

definition is_xdigit :: "char \<Rightarrow> bool" where
  "is_xdigit c \<longleftrightarrow> hexval c \<noteq> None"

definition is_space :: "char \<Rightarrow> bool" where
  "is_space c \<longleftrightarrow> (let n = of_char c :: nat in n = 32 \<or> (9 \<le> n \<and> n \<le> 13))"

definition hexnum :: "string \<Rightarrow> nat" where
  "hexnum ds = foldl (\<lambda>a c. 16 * a + (case hexval c of None \<Rightarrow> 0 | Some d \<Rightarrow> d)) 0 ds"

text \<open>
  \<^verbatim>\<open>sscanf(s, "%02hhx", &out)\<close>: skips white space, then reads at most two
  characters, a sign among them; the value is stored modulo 256.
\<close>

definition sscanf_02hhx :: "string \<Rightarrow> u8 option" where
  "sscanf_02hhx s =
     (case dropWhile is_space s of
        [] \<Rightarrow> None
      | c # r \<Rightarrow>
          let sign = (c = CHR ''-'' \<or> c = CHR ''+'');
              ds = takeWhile is_xdigit (if sign then take 1 r else take 2 (c # r))
          in if ds = [] then None
             else Some (if c = CHR ''-'' then - of_nat (hexnum ds) else of_nat (hexnum ds)))"

fun str2hex_loop :: "string \<Rightarrow> nat \<Rightarrow> nat \<Rightarrow> bytes option" where
  "str2hex_loop str i 0 = Some []"
| "str2hex_loop str i (Suc n) =
     (case sscanf_02hhx (drop (i * 2) str) of
        None \<Rightarrow> None
      | Some v \<Rightarrow> map_option ((#) v) (str2hex_loop str (i + 1) n))"

definition str2hex :: "string \<Rightarrow> nat \<Rightarrow> nat \<Rightarrow> bytes option" where
  "str2hex str in_len out_len =
     (if in_len < out_len * 2 then None else str2hex_loop str 0 out_len)"

definition hex_byte :: "u8 \<Rightarrow> string" where
  "hex_byte v = [hexdigit (unat (drop_bit 4 v)), hexdigit (unat (v AND 0xf))]"

text \<open>The \<^verbatim>\<open>size_t\<close> subtraction \<^verbatim>\<open>out_len - 1\<close> wraps at an empty output buffer.\<close>

definition hex2str :: "bytes \<Rightarrow> nat \<Rightarrow> string option" where
  "hex2str inp out_len =
     (if length inp * 2 > (out_len + 2 ^ 64 - 1) mod 2 ^ 64 then None
      else Some (concat (map hex_byte inp)))"

section \<open>Byte-order reversal of a 256-bit number\<close>

definition xor_swap :: "nat \<Rightarrow> bytes \<Rightarrow> bytes" where
  "xor_swap i b =
     (let b1 = b[i := byte_at b i XOR byte_at b (31 - i)];
          b2 = b1[31 - i := byte_at b1 (31 - i) XOR byte_at b1 i]
      in b2[i := byte_at b2 i XOR byte_at b2 (31 - i)])"

definition swap_u256_bytes :: "bytes \<Rightarrow> bytes" where
  "swap_u256_bytes b = fold xor_swap [0..<16] b"

section \<open>Status names\<close>

definition mesh_status_str :: "u8 \<Rightarrow> string" where
  "mesh_status_str status =
     (if status = 0x00 then ''Success''
      else if status = 0x01 then ''Invalid Address''
      else if status = 0x02 then ''Invalid Model''
      else if status = 0x03 then ''Invalid AppKey''
      else if status = 0x04 then ''Invalid NetKey''
      else if status = 0x05 then ''Insufficient Resources''
      else if status = 0x06 then ''Key Idx Already Stored''
      else if status = 0x07 then ''Invalid Publish Parameters''
      else if status = 0x08 then ''Not a Subscribe Model''
      else if status = 0x09 then ''Storage Failure''
      else if status = 0x0a then ''Feature Not Supported''
      else if status = 0x0b then ''Cannot Update''
      else if status = 0x0c then ''Cannot Remove''
      else if status = 0x0d then ''Cannot bind''
      else if status = 0x0e then ''Unable to change state''
      else if status = 0x0f then ''Cannot set''
      else if status = 0x10 then ''Unspecified error''
      else if status = 0x11 then ''Invalid Binding''
      else ''Unknown'')"

section \<open>Opcode coding: lemmas\<close>

text \<open>The opcodes of the three lengths.\<close>

definition opcode_valid :: "u32 \<Rightarrow> bool" where
  "opcode_valid op \<longleftrightarrow> op \<le> 0x7e \<or> (0x8000 \<le> op \<and> op \<le> 0xbfff) \<or> (0xc00000 \<le> op \<and> op \<le> 0xffffff)"

lemma unat_be16: "unat (be16 h l) = 256 * unat h + unat l"
proof -
  have "push_bit 8 (ucast h) AND ucast l = (0 :: u16)"
    by (rule bit_word_eqI) (auto simp: bit_simps dest: bit_imp_le_length)
  then have "be16 h l = push_bit 8 (ucast h) + ucast l"
    unfolding be16_def by (rule disjunctive_add_eq_or [symmetric])
  then show ?thesis
    using unat_u8_less [of h] unat_u8_less [of l] by (simp add: unat_simps unat_word_ariths)
qed

lemma unat_be16_hi: "unat (be16_hi v) = unat v div 256"
  using unat_u16_less [of v] by (simp add: be16_hi_def unat_simps)

lemma unat_be16_lo: "unat (be16_lo v) = unat v mod 256"
  by (simp add: be16_lo_def unat_simps)

lemma unat_byte_sel: "unat ((b :: u8) AND 0xc0) = unat b div 64 * 64"
proof -
  have m: "(0xc0 :: u8) = push_bit 6 (mask 2)" by (simp add: push_bit_eq_mult mask_eq_exp_minus_1)
  have "b AND 0xc0 = push_bit 6 (drop_bit 6 b)"
    unfolding m by (rule bit_word_eqI) (auto simp: bit_simps)
  then show ?thesis
    using unat_u8_less [of b] by (simp add: unat_simps)
qed

lemma byte_sel_cases:
  fixes b :: u8
  shows "b AND 0xc0 = 0x00 \<longleftrightarrow> unat b < 64" "b AND 0xc0 = 0x40 \<longleftrightarrow> 64 \<le> unat b \<and> unat b < 128"
    "b AND 0xc0 = 0x80 \<longleftrightarrow> 128 \<le> unat b \<and> unat b < 192" "b AND 0xc0 = 0xc0 \<longleftrightarrow> 192 \<le> unat b"
  using unat_u8_less [of b] by (auto simp: unat_byte_sel word_unat_eq_iff)

lemma opcode3_value:
  "unat (ucast (w :: u16) OR push_bit 16 (ucast (b0 :: u8)) :: u32) = 65536 * unat b0 + unat w"
proof -
  have "ucast w AND push_bit 16 (ucast b0) = (0 :: u32)"
    by (rule bit_word_eqI) (auto simp: bit_simps dest: bit_imp_le_length)
  then have "ucast w OR push_bit 16 (ucast b0) = ucast w + (push_bit 16 (ucast b0) :: u32)"
    by (rule disjunctive_add_eq_or [symmetric])
  then show ?thesis
    using unat_u8_less [of b0] unat_u16_less [of w] by (simp add: unat_simps unat_word_ariths)
qed

lemma unat_opcode3_top: "unat (ucast (drop_bit 16 (op :: u32) AND 0xff) :: u8) = unat op div 65536 mod 256"
proof -
  have "(0xff :: u32) = mask 8" by (simp add: mask_eq_exp_minus_1)
  then show ?thesis using unat_and_mask [of "drop_bit 16 op" 8] by (simp add: unat_simps)
qed

lemma mesh_opcode_set_length:
  "length (mesh_opcode_set op) = (if op \<le> 0x7e then 1 else if 0x8000 \<le> op \<and> op \<le> 0xbfff then 2
     else if 0xc00000 \<le> op \<and> op \<le> 0xffffff then 3 else 0)"
  by (simp add: mesh_opcode_set_def)

lemma mesh_opcode_get_set:
  assumes "opcode_valid op" and "length (mesh_opcode_set op) \<le> sz"
  shows "mesh_opcode_get (mesh_opcode_set op @ rest) sz = Some (op, length (mesh_opcode_set op))"
proof -
  consider "unat op \<le> 126" | "0x8000 \<le> unat op" "unat op \<le> 0xbfff" | "0xc00000 \<le> unat op" "unat op \<le> 0xffffff"
    using assms(1) by (auto simp: opcode_valid_def word_le_nat_alt)
  then show ?thesis
  proof cases
    case 1
    then show ?thesis using assms(2)
      by (auto simp: mesh_opcode_set_def mesh_opcode_get_def word_le_nat_alt byte_at_def
          byte_sel_cases unat_simps Let_def)
        (auto simp: word_unat_eq_iff unat_simps)
  next
    case 2
    then show ?thesis using assms(2)
      by (auto simp: mesh_opcode_set_def mesh_opcode_get_def word_le_nat_alt byte_at_def get_be16_def
          byte_sel_cases unat_simps Let_def unat_be16_hi)
        (auto simp: word_unat_eq_iff unat_simps)
  next
    case 3
    then show ?thesis using assms(2)
      by (auto simp: mesh_opcode_set_def mesh_opcode_get_def word_le_nat_alt byte_at_def get_be16_def
          byte_sel_cases Let_def unat_opcode3_top)
        (auto simp: word_unat_eq_iff opcode3_value unat_opcode3_top unat_ucast_mod [of op])
  qed
qed

lemma mesh_opcode_set_get:
  assumes "mesh_opcode_get buf sz = Some (op, n)" and "sz \<le> length buf"
  shows "mesh_opcode_set op = take n buf \<and> opcode_valid op \<and> n \<le> sz"
proof -
  from assms obtain b0 bs where buf: "buf = b0 # bs" "1 \<le> sz"
    by (cases buf; cases "sz = 0") (auto simp: mesh_opcode_get_def)
  note U = unat_u8_less [of b0]
  consider (one) "unat b0 < 127" "op = ucast b0" "n = 1"
    | (two) "128 \<le> unat b0" "unat b0 < 192" "op = ucast (get_be16 buf 0)" "n = 2" "2 \<le> sz"
    | (three) "192 \<le> unat b0" "op = ucast (get_be16 buf 1) OR push_bit 16 (ucast b0)" "n = 3" "3 \<le> sz"
    using assms U word_unat_eq_iff [of b0 127] unfolding buf
    by (auto simp: mesh_opcode_get_def Let_def byte_at_def byte_sel_cases split: if_splits)
  then show ?thesis
  proof cases
    case one
    then have "op \<le> 0x7e" using U by (simp add: word_le_nat_alt unat_simps)
    with one buf show ?thesis
      by (simp add: mesh_opcode_set_def opcode_valid_def word_unat_eq_iff unat_simps U)
  next
    case two
    then obtain b1 cs where bs: "bs = b1 # cs" using assms(2) buf by (cases bs) auto
    have v: "unat op = 256 * unat b0 + unat b1"
      using two buf bs by (simp add: get_be16_def byte_at_def unat_simps unat_be16 flip: unat_be16)
        (use unat_u16_less [of "be16 b0 b1"] in \<open>simp add: unat_be16\<close>)
    have "(ucast op :: u16) = be16 b0 b1"
      using two buf bs unat_u16_less [of "be16 b0 b1"]
      by (simp add: get_be16_def byte_at_def word_unat_eq_iff unat_simps)
    then show ?thesis
      using two buf bs v unat_u8_less [of b1]
      by (simp add: mesh_opcode_set_def opcode_valid_def word_le_nat_alt)
  next
    case three
    then obtain b1 b2 cs where bs: "bs = b1 # b2 # cs" using assms(2) buf by (cases bs; cases "tl bs") auto
    have v: "unat op = 65536 * unat b0 + unat (be16 b1 b2)"
      using three buf bs by (simp add: get_be16_def byte_at_def opcode3_value)
    have lo: "(ucast op :: u16) = be16 b1 b2"
      using v unat_u16_less [of "be16 b1 b2"] by (simp add: word_unat_eq_iff unat_simps)
    have top: "ucast (drop_bit 16 op AND 0xff) = b0"
      using v U unat_u16_less [of "be16 b1 b2"] by (simp add: word_unat_eq_iff unat_opcode3_top)
    show ?thesis
      using three buf bs v lo top U unat_u16_less [of "be16 b1 b2"]
      by (simp add: mesh_opcode_set_def opcode_valid_def word_le_nat_alt)
  qed
qed

section \<open>Hexadecimal text: lemmas\<close>

lemma hexdigit_props:
  assumes "n < 16"
  shows "hexval (hexdigit n) = Some n \<and> \<not> is_space (hexdigit n) \<and>
    hexdigit n \<noteq> CHR ''-'' \<and> hexdigit n \<noteq> CHR ''+''"
proof -
  have "\<forall>n \<in> set [0..<16]. hexval (hexdigit n) = Some n \<and> \<not> is_space (hexdigit n) \<and>
    hexdigit n \<noteq> CHR ''-'' \<and> hexdigit n \<noteq> CHR ''+''"
    by code_simp
  with assms show ?thesis by simp
qed

lemma hex_byte_nibbles: "unat (drop_bit 4 (v::u8)) < 16" "unat (v AND 0xf) < 16"
  "16 * unat (drop_bit 4 v) + unat (v AND 0xf) = unat v"
proof -
  have "(0xf :: u8) = mask 4" by (simp add: mask_eq_exp_minus_1)
  then have m: "unat (v AND 0xf) = unat v mod 16" using unat_and_mask [of v 4] by simp
  show "unat (drop_bit 4 v) < 16" "unat (v AND 0xf) < 16"
    "16 * unat (drop_bit 4 v) + unat (v AND 0xf) = unat v"
    using unat_u8_less [of v] by (auto simp: m unat_simps)
qed

lemma sscanf_hex_byte: "sscanf_02hhx (hex_byte v @ rest) = Some v"
  using hexdigit_props [OF hex_byte_nibbles(1)[of v]] hexdigit_props [OF hex_byte_nibbles(2)[of v]]
  by (simp add: sscanf_02hhx_def hex_byte_def Let_def is_xdigit_def hexnum_def word_unat_eq_iff
      unat_of_nat hex_byte_nibbles(3) mod_less unat_u8_less)

lemma length_hex_byte [simp]: "length (hex_byte v) = 2"
  by (simp add: hex_byte_def)

lemma length_hex_bytes [simp]: "length (concat (map hex_byte b)) = 2 * length b"
  by (induction b) simp_all

lemma str2hex_loop_hex2str:
  "str2hex_loop (p @ concat (map hex_byte b) @ rest) (length p div 2) (length b) = Some b"
  if "even (length p)"
  using that
proof (induction b arbitrary: p)
  case (Cons v b)
  have "str2hex_loop (p @ hex_byte v @ concat (map hex_byte b) @ rest) (length p div 2 + 1) (length b) = Some b"
    using Cons.IH [of "p @ hex_byte v"] Cons.prems by simp
  with Cons.prems show ?case by (simp add: sscanf_hex_byte)
qed simp

section \<open>Byte reversal: lemmas\<close>

lemma xor_swap_swaps:
  assumes "length b = 32" and "i < 16"
  shows "xor_swap i b = b[i := b ! (31 - i), 31 - i := b ! i]"
proof -
  have "i \<noteq> 31 - i" using assms(2) by simp
  then show ?thesis
    using assms by (intro nth_equalityI) (auto simp: xor_swap_def Let_def byte_at_def nth_list_update xor.assoc xor.left_commute xor.commute)
qed

lemma fold_xor_swap:
  "length b = 32 \<Longrightarrow> k \<le> 16 \<Longrightarrow>
   length (fold xor_swap [0..<k] b) = 32 \<and>
   (\<forall>j<32. fold xor_swap [0..<k] b ! j = (if j < k \<or> 32 - k \<le> j then b ! (31 - j) else b ! j))"
proof (induction k)
  case (Suc k)
  define c where "c = fold xor_swap [0..<k] b"
  from Suc have c: "length c = 32"
    and nth: "j < 32 \<Longrightarrow> c ! j = (if j < k \<or> 32 - k \<le> j then b ! (31 - j) else b ! j)" for j
    by (auto simp: c_def)
  have "fold xor_swap [0..<Suc k] b = c[k := c ! (31 - k), 31 - k := c ! k]"
    using xor_swap_swaps [OF c, of k] Suc.prems by (simp add: c_def)
  moreover have "c ! (31 - k) = b ! (31 - k)" "c ! k = b ! k"
    using nth Suc.prems by auto
  ultimately show ?case
    using c Suc.prems nth by (auto simp: nth_list_update)
qed simp

lemma length_swap_u256_bytes [simp]: "length b = 32 \<Longrightarrow> length (swap_u256_bytes b) = 32"
  using fold_xor_swap [of b 16] by (simp add: swap_u256_bytes_def)

section \<open>Properties\<close>

text \<open>
  Opcode coding. For an opcode of the one-, two- or three-octet range the
  bytes \<^verbatim>\<open>mesh_opcode_set\<close> writes are read back by \<^verbatim>\<open>mesh_opcode_get\<close> as the same
  opcode and the same length, whatever follows them; and every opcode
  \<^verbatim>\<open>mesh_opcode_get\<close> accepts from a buffer is in range and encodes to exactly the
  bytes it was read from.
\<close>

lemma opcode_round_trip:
  "(opcode_valid op \<and> length (mesh_opcode_set op) \<le> sz \<longrightarrow>
      mesh_opcode_get (mesh_opcode_set op @ rest) sz = Some (op, length (mesh_opcode_set op))) \<and>
   (mesh_opcode_get buf bsz = Some (op', n) \<and> bsz \<le> length buf \<longrightarrow>
      mesh_opcode_set op' = take n buf \<and> opcode_valid op' \<and> n \<le> bsz)"
  using mesh_opcode_get_set mesh_opcode_set_get by blast

lemma opcode_round_trip_witness:
  "mesh_opcode_get (mesh_opcode_set 0x8202 @ [1, 2]) 4 = Some (0x8202, 2) \<and>
   mesh_opcode_set 0xc10102 = take 3 [0xc1, 1, 2, 9]"
proof -
  have a: "opcode_valid 0x8202" "length (mesh_opcode_set 0x8202) = 2"
    by (simp_all add: opcode_valid_def mesh_opcode_set_length)
  have b: "mesh_opcode_get [0xc1, 1, 2, 9] 4 = Some (0xc10102, 3)" by code_simp
  show ?thesis
    using opcode_round_trip [of "0x8202" 4 "[1, 2]" "[0xc1, 1, 2, 9]" 4 "0xc10102" 3] a b by simp
qed

text \<open>
  Hexadecimal text. The text \<^verbatim>\<open>hex2str\<close> writes for a byte string, given a
  buffer with room for it and its terminator, is read back by \<^verbatim>\<open>str2hex\<close> as the
  same bytes; with less room \<^verbatim>\<open>hex2str\<close> writes nothing.
\<close>

lemma hex_round_trip:
  assumes "0 < out_len" "out_len < 2 ^ 64"
  shows "case hex2str b out_len of
           Some str \<Rightarrow> length str = 2 * length b \<and> str2hex str (length str) (length b) = Some b
         | None \<Rightarrow> out_len < 2 * length b + 1"
proof -
  have "(out_len + 2 ^ 64 - 1) mod 2 ^ 64 = out_len - 1"
    using assms by (simp add: mod_if)
  moreover have "str2hex_loop (concat (map hex_byte b)) 0 (length b) = Some b"
    using str2hex_loop_hex2str [of "[]" b "[]"] by simp
  ultimately show ?thesis
    by (auto simp: hex2str_def str2hex_def)
qed

lemma hex_round_trip_witness:
  "hex2str [0x0a, 0xff] 5 = Some ''0aff'' \<and>
   str2hex ''0aff'' (length ''0aff'') (length [0x0a, 0xff :: u8]) = Some [0x0a, 0xff]"
proof -
  have "concat (map hex_byte [0x0a, 0xff]) = ''0aff''" by code_simp
  then have h: "hex2str [0x0a, 0xff] 5 = Some ''0aff''" by (simp add: hex2str_def)
  have "(0::nat) < 5" "(5::nat) < 2 ^ 64" by simp_all
  from hex_round_trip [OF this, of "[0x0a, 0xff]"] show ?thesis
    unfolding h option.case by (rule conjI [OF refl conjunct2])
qed

text \<open>
  The three exclusive-or assignments of \<^verbatim>\<open>swap_u256_bytes\<close>, run over the
  first sixteen positions, reverse a 32-byte buffer in place.
\<close>

lemma swap_u256_is_rev:
  assumes "length b = 32"
  shows "swap_u256_bytes b = rev b"
  using fold_xor_swap [OF assms, of 16] assms
  by (intro nth_equalityI) (auto simp: swap_u256_bytes_def rev_nth)

lemma swap_u256_is_rev_witness:
  "swap_u256_bytes (1 # replicate 30 0 @ [2]) = rev (1 # replicate 30 0 @ [2])"
  by (rule swap_u256_is_rev) simp

end
