(* ===== verification/Mesh_Gatt.thy ===== *)
theory Mesh_Gatt
  imports Mesh_Util
begin

text \<open>
  \<^verbatim>\<open>mesh/gatt.c\<close>: the proxy protocol over GATT. \<^verbatim>\<open>pipe_write\<close> cuts a PDU into
  segments no longer than the connection's MTU allows, \<^verbatim>\<open>mesh_gatt_sar\<close> joins the
  segments of the other side in a static buffer of 67 octets, and the remaining
  functions open and close the two pipes.

  The file's static variables are the record \<open>gatt_state\<close>. D-Bus and the
  sockets are outside the program: whether a method call or an \<^verbatim>\<open>io_send\<close>
  succeeds is an argument, and what the code asks of them is the list of
  \<open>gatt_out\<close> it produces.
\<close>

section \<open>State\<close>

abbreviation GATT_SAR_MASK :: u8 where "GATT_SAR_MASK \<equiv> 0xc0"
abbreviation GATT_SAR_COMPLETE :: u8 where "GATT_SAR_COMPLETE \<equiv> 0x00"
abbreviation GATT_SAR_FIRST :: u8 where "GATT_SAR_FIRST \<equiv> 0x40"
abbreviation GATT_SAR_CONTINUE :: u8 where "GATT_SAR_CONTINUE \<equiv> 0x80"
abbreviation GATT_SAR_LAST :: u8 where "GATT_SAR_LAST \<equiv> 0xc0"
abbreviation GATT_TYPE_MASK :: u8 where "GATT_TYPE_MASK \<equiv> 0x3f"
abbreviation GATT_TYPE_INVALID :: u8 where "GATT_TYPE_INVALID \<equiv> 0xff"
abbreviation MAX_GATT_SIZE :: nat where "MAX_GATT_SIZE \<equiv> 66"
abbreviation GATT_MTU :: u16 where "GATT_MTU \<equiv> 23"

record gatt_state =
  write_io :: bool
  write_mtu :: u16
  notify_io :: bool
  notify_mtu :: u16
  gatt_size :: u8
  gatt_pkt :: bytes

definition gatt_init :: gatt_state where
  "gatt_init = \<lparr>write_io = False, write_mtu = 0, notify_io = False, notify_mtu = 0,
     gatt_size = 0, gatt_pkt = replicate 67 0\<rparr>"

datatype gatt_out = Io_send bytes | Gatt_cb | Dbus_call string

text \<open>\<^verbatim>\<open>struct write_data\<close>: the PDU and whether a completion callback was given.\<close>

record write_data =
  gatt_data :: bytes
  wd_cb :: bool

section \<open>Reassembly\<close>

text \<open>
  \<^verbatim>\<open>mesh_gatt_sar\<close> on the \<open>pkt\<close> of one notification. The result is the completed
  PDU, or None where the code returns 0.
\<close>

definition sar_join :: "u8 \<Rightarrow> bytes \<Rightarrow> bool \<Rightarrow> gatt_state \<Rightarrow> gatt_state \<times> bytes option" where
  "sar_join type data fin st =
     (let size = length data in
      if byte_at (gatt_pkt st) 0 \<noteq> type \<or> unat (gatt_size st) + size > MAX_GATT_SIZE then
        (st\<lparr>gatt_pkt := (gatt_pkt st)[0 := GATT_TYPE_INVALID]\<rparr>, None)
      else
        let p = memcpy (gatt_pkt st) (unat (gatt_size st)) data;
            n = gatt_size st + of_nat size
        in (st\<lparr>gatt_pkt := p, gatt_size := n\<rparr>, if fin then Some (take (unat n) p) else None))"

definition sar_start :: "u8 \<Rightarrow> gatt_state \<Rightarrow> gatt_state" where
  "sar_start type st = st\<lparr>gatt_size := 1, gatt_pkt := (gatt_pkt st)[0 := type]\<rparr>"

definition mesh_gatt_sar :: "gatt_state \<Rightarrow> bytes \<Rightarrow> gatt_state \<times> bytes option" where
  "mesh_gatt_sar st pkt =
     (let gatt_hdr = byte_at pkt 0;
          type = gatt_hdr AND GATT_TYPE_MASK;
          sar = gatt_hdr AND GATT_SAR_MASK;
          data = drop 1 pkt
      in if length pkt < 1 then (st\<lparr>gatt_pkt := (gatt_pkt st)[0 := GATT_TYPE_INVALID]\<rparr>, None)
         else if sar = GATT_SAR_FIRST then sar_join type data False (sar_start type st)
         else if sar = GATT_SAR_CONTINUE then sar_join type data False st
         else if sar = GATT_SAR_LAST then sar_join type data True st
         else sar_join type data True (sar_start type st))"

text \<open>\<^verbatim>\<open>pipe_read\<close>: the notifications read before \<^verbatim>\<open>read\<close> has no more, and the PDUs handed on.\<close>

fun pipe_read_loop :: "gatt_state \<Rightarrow> bytes list \<Rightarrow> gatt_state \<times> bytes list" where
  "pipe_read_loop st [] = (st, [])"
| "pipe_read_loop st (buf # bufs) =
     (if buf = [] then (st, [])
      else
        let (st1, res) = mesh_gatt_sar st buf;
            (st2, out) = pipe_read_loop st1 bufs
        in (st2, (case res of None \<Rightarrow> out | Some p \<Rightarrow> if p = [] then out else p # out)))"

definition pipe_read :: "gatt_state \<Rightarrow> bool \<Rightarrow> bytes list \<Rightarrow> gatt_state \<times> bytes list" where
  "pipe_read st is_notify_io bufs = (if \<not> is_notify_io then (st, []) else pipe_read_loop st bufs)"

section \<open>Segmentation\<close>

definition max_len :: "gatt_state \<Rightarrow> u8" where
  "max_len st = ucast ((if write_mtu st \<noteq> 0 then write_mtu st else GATT_MTU) - 3 - 1)"

text \<open>
  The loop \<^verbatim>\<open>while (1)\<close> of \<^verbatim>\<open>pipe_write\<close>: \<open>rest\<close> is \<^verbatim>\<open>gatt_len\<close> octets from
  \<^verbatim>\<open>iov_base\<close> on, \<open>n\<close> is \<^verbatim>\<open>iov_len\<close>, \<open>sends\<close> the results of the \<^verbatim>\<open>io_send\<close> calls to
  come (a missing one is a success). The loop need not end; \<open>fuel\<close> bounds the
  number of rounds and None is running out of it.
\<close>

fun pipe_write_loop ::
  "nat \<Rightarrow> nat \<Rightarrow> bool list \<Rightarrow> bool \<Rightarrow> u8 \<Rightarrow> bytes \<Rightarrow> nat \<Rightarrow> (gatt_out list \<times> bool) option" where
  "pipe_write_loop 0 maxl sends cb sar rest n = None"
| "pipe_write_loop (Suc fuel) maxl sends cb sar rest n =
     (if sends \<noteq> [] \<and> \<not> hd sends then Some ([], False)
      else
        let pdu = Io_send (sar # take n rest) in
        if sar AND GATT_SAR_MASK = GATT_SAR_FIRST \<or> sar AND GATT_SAR_MASK = GATT_SAR_CONTINUE then
          let rest' = drop maxl rest;
              type = sar AND GATT_TYPE_MASK
          in map_option (\<lambda>(outs, r). (pdu # outs, r))
               (if maxl < length rest' then
                  pipe_write_loop fuel maxl (tl sends) cb (type OR GATT_SAR_CONTINUE) rest' maxl
                else
                  pipe_write_loop fuel maxl (tl sends) cb (type OR GATT_SAR_LAST) rest' (length rest'))
        else Some (pdu # (if cb then [Gatt_cb] else []), True))"

definition pipe_write ::
  "nat \<Rightarrow> gatt_state \<Rightarrow> bool list \<Rightarrow> write_data \<Rightarrow> (gatt_out list \<times> bool) option" where
  "pipe_write fuel st sends data =
     (let maxl = unat (max_len st);
          sar = byte_at (gatt_data data) 0 AND GATT_TYPE_MASK;
          rest = drop 1 (gatt_data data)
      in if length rest > maxl then
           pipe_write_loop fuel maxl sends (wd_cb data) (sar OR GATT_SAR_FIRST) rest maxl
         else pipe_write_loop fuel maxl sends (wd_cb data) sar rest (length rest))"

text \<open>
  \<^verbatim>\<open>mesh_gatt_write\<close>: with the pipe open the PDU is written at once; otherwise the
  pipe is acquired and the PDU waits for \<^verbatim>\<open>acquire_write_reply\<close> (the second
  component).
\<close>

definition mesh_gatt_write ::
  "nat \<Rightarrow> gatt_state \<Rightarrow> bool \<Rightarrow> bool list \<Rightarrow> bytes \<Rightarrow> bool \<Rightarrow> (gatt_out list \<times> write_data option \<times> bool) option" where
  "mesh_gatt_write fuel st call_ok sends buf cb =
     (if buf = [] then Some ([], None, False)
      else if length buf > 69 then Some ([], None, False)
      else
        let data = \<lparr>gatt_data = buf[0 := byte_at buf 0 AND GATT_TYPE_MASK], wd_cb = cb\<rparr> in
        if write_io st then map_option (\<lambda>(outs, r). (outs, None, r)) (pipe_write fuel st sends data)
        else if \<not> call_ok then Some ([Dbus_call ''AcquireWrite''], None, False)
        else Some ([Dbus_call ''AcquireWrite''], Some data, True))"

datatype acquire_reply = Reply_error | Reply_bad_args | Reply_fd u16

definition acquire_write_reply ::
  "nat \<Rightarrow> gatt_state \<Rightarrow> acquire_reply \<Rightarrow> bool list \<Rightarrow> write_data \<Rightarrow> (gatt_state \<times> gatt_out list) option" where
  "acquire_write_reply fuel st reply sends data =
     (case reply of
        Reply_error \<Rightarrow> Some (st, [])
      | Reply_bad_args \<Rightarrow> Some (st, [])
      | Reply_fd mtu \<Rightarrow>
          let st' = st\<lparr>write_mtu := mtu, write_io := True\<rparr>
          in map_option (\<lambda>(outs, r). (st', outs)) (pipe_write fuel st' sends data))"

section \<open>Opening and closing the pipes\<close>

definition write_io_destroy :: "gatt_state \<Rightarrow> gatt_state" where
  "write_io_destroy st = st\<lparr>write_io := False, write_mtu := 0\<rparr>"

definition notify_io_destroy :: "gatt_state \<Rightarrow> gatt_state" where
  "notify_io_destroy st = st\<lparr>notify_io := False, notify_mtu := 0\<rparr>"

definition pipe_hup :: "gatt_state \<Rightarrow> bool \<Rightarrow> gatt_state" where
  "pipe_hup st is_notify_io = (if is_notify_io then notify_io_destroy st else write_io_destroy st)"

definition notify_reply :: "bool \<Rightarrow> gatt_out list" where
  "notify_reply cb = (if cb then [Gatt_cb] else [])"

text \<open>\<open>uuid_ok\<close>: the characteristic has a \<^verbatim>\<open>UUID\<close> property.\<close>

definition acquire_notify_reply :: "gatt_state \<Rightarrow> acquire_reply \<Rightarrow> bool \<Rightarrow> bool \<Rightarrow> gatt_state \<times> gatt_out list" where
  "acquire_notify_reply st reply uuid_ok cb =
     (case reply of
        Reply_error \<Rightarrow> (st, [Dbus_call ''StartNotify''])
      | Reply_bad_args \<Rightarrow> (st\<lparr>notify_io := False, notify_mtu := 0\<rparr>, [Dbus_call ''StartNotify''])
      | Reply_fd mtu \<Rightarrow>
          let st1 = st\<lparr>notify_io := False, notify_mtu := mtu\<rparr>
          in (if uuid_ok then st1\<lparr>notify_io := True\<rparr> else st1, if cb then [Gatt_cb] else []))"

definition mesh_gatt_notify :: "gatt_state \<Rightarrow> bool \<Rightarrow> bool \<Rightarrow> bool \<Rightarrow> bool \<Rightarrow> gatt_state \<times> gatt_out list \<times> bool" where
  "mesh_gatt_notify st enable notify_acquired call_ok cb =
     (if enable then
        (st, [Dbus_call (if notify_acquired then ''AcquireNotify'' else ''StartNotify'')], call_ok)
      else if notify_io st then (notify_io_destroy st, if cb then [Gatt_cb] else [], True)
      else (st, [Dbus_call ''StopNotify''], call_ok))"

section \<open>Buffer invariant\<close>

text \<open>The static buffer keeps its size and the fill level stays inside it.\<close>

definition gatt_wf :: "gatt_state \<Rightarrow> bool" where
  "gatt_wf st \<longleftrightarrow> length (gatt_pkt st) = 67 \<and> unat (gatt_size st) \<le> MAX_GATT_SIZE"

lemma gatt_wf_init: "gatt_wf gatt_init"
  by (simp add: gatt_wf_def gatt_init_def)

lemma sar_size_add:
  assumes "unat (gatt_size st) + n \<le> MAX_GATT_SIZE"
  shows "unat (gatt_size st + of_nat n) = unat (gatt_size st) + n"
  using assms by (simp add: unat_word_ariths unat_of_nat)

lemma sar_start_wf: "gatt_wf st \<Longrightarrow> gatt_wf (sar_start t st)"
  by (simp add: gatt_wf_def sar_start_def)

lemma sar_join_wf:
  assumes "gatt_wf st" "sar_join t data fin st = (st', res)"
  shows "gatt_wf st' \<and> (\<forall>p. res = Some p \<longrightarrow> length p \<le> MAX_GATT_SIZE)"
  using assms sar_size_add [of st "length data"]
  by (auto simp: sar_join_def Let_def gatt_wf_def split: if_splits)

lemma mesh_gatt_sar_wf:
  assumes "gatt_wf st" "mesh_gatt_sar st pkt = (st', res)"
  shows "gatt_wf st' \<and> (\<forall>p. res = Some p \<longrightarrow> length p \<le> MAX_GATT_SIZE)"
proof (cases "pkt = []")
  case True
  with assms show ?thesis by (auto simp: mesh_gatt_sar_def gatt_wf_def Let_def)
next
  case False
  with assms show ?thesis
    by (auto simp: mesh_gatt_sar_def Let_def intro: sar_start_wf dest: sar_join_wf split: if_splits)
      (use sar_join_wf sar_start_wf in blast)+
qed

text \<open>The events that change the file's static variables.\<close>

inductive gatt_step :: "gatt_state \<Rightarrow> gatt_state \<Rightarrow> bool" where
  notified: "mesh_gatt_sar st pkt = (st', res) \<Longrightarrow> gatt_step st st'"
| hung_up: "gatt_step st (pipe_hup st b)"
| write_acquired: "acquire_write_reply fuel st r sends d = Some (st', outs) \<Longrightarrow> gatt_step st st'"
| notify_acquired: "acquire_notify_reply st r u cb = (st', outs) \<Longrightarrow> gatt_step st st'"
| notify_called: "mesh_gatt_notify st en na ok cb = (st', outs, ret) \<Longrightarrow> gatt_step st st'"

inductive_cases gatt_stepE: "gatt_step st st'"

lemma gatt_step_wf: "gatt_wf st \<Longrightarrow> gatt_step st st' \<Longrightarrow> gatt_wf st'"
proof (erule gatt_stepE)
  fix pkt res assume "gatt_wf st" "mesh_gatt_sar st pkt = (st', res)"
  then show "gatt_wf st'" using mesh_gatt_sar_wf by blast
qed (auto simp: gatt_wf_def pipe_hup_def notify_io_destroy_def write_io_destroy_def acquire_write_reply_def
    acquire_notify_reply_def mesh_gatt_notify_def Let_def split: acquire_reply.splits if_splits)

interpretation gatt: invariant_system "(=) gatt_init" gatt_step gatt_wf
  using gatt_wf_init gatt_step_wf by unfold_locales auto

section \<open>Segmentation and reassembly\<close>

definition pdus_of :: "gatt_out list \<Rightarrow> bytes list" where
  "pdus_of outs = concat (map (\<lambda>out. case out of Io_send p \<Rightarrow> [p] | _ \<Rightarrow> []) outs)"

lemma pdus_of_simps [simp]:
  "pdus_of [] = []" "pdus_of (Io_send p # outs) = p # pdus_of outs" "pdus_of (Gatt_cb # outs) = pdus_of outs"
  by (simp_all add: pdus_of_def)

lemma sar_header:
  assumes "t AND GATT_TYPE_MASK = t"
  shows "t AND GATT_SAR_MASK = 0"
    "(t OR GATT_SAR_FIRST) AND GATT_SAR_MASK = GATT_SAR_FIRST" "(t OR GATT_SAR_FIRST) AND GATT_TYPE_MASK = t"
    "(t OR GATT_SAR_CONTINUE) AND GATT_SAR_MASK = GATT_SAR_CONTINUE" "(t OR GATT_SAR_CONTINUE) AND GATT_TYPE_MASK = t"
    "(t OR GATT_SAR_LAST) AND GATT_SAR_MASK = GATT_SAR_LAST" "(t OR GATT_SAR_LAST) AND GATT_TYPE_MASK = t"
proof -
  have "t AND GATT_SAR_MASK = t AND (GATT_TYPE_MASK AND GATT_SAR_MASK)"
    by (metis and.assoc assms)
  then show z: "t AND GATT_SAR_MASK = 0" by simp
  show "(t OR GATT_SAR_FIRST) AND GATT_SAR_MASK = GATT_SAR_FIRST" "(t OR GATT_SAR_FIRST) AND GATT_TYPE_MASK = t"
    "(t OR GATT_SAR_CONTINUE) AND GATT_SAR_MASK = GATT_SAR_CONTINUE" "(t OR GATT_SAR_CONTINUE) AND GATT_TYPE_MASK = t"
    "(t OR GATT_SAR_LAST) AND GATT_SAR_MASK = GATT_SAR_LAST" "(t OR GATT_SAR_LAST) AND GATT_TYPE_MASK = t"
    by (simp_all add: bit.conj_disj_distrib2 z assms)
qed

text \<open>A reassembly in progress: type \<open>t\<close> and the octets \<open>pre\<close> so far.\<close>

definition sar_partial :: "u8 \<Rightarrow> bytes \<Rightarrow> gatt_state \<Rightarrow> bool" where
  "sar_partial t pre st \<longleftrightarrow>
     length (gatt_pkt st) = 67 \<and> take (length pre) (gatt_pkt st) = pre \<and>
     unat (gatt_size st) = length pre \<and> pre \<noteq> [] \<and> hd pre = t \<and> length pre \<le> MAX_GATT_SIZE"

lemma sar_start_partial: "length (gatt_pkt st) = 67 \<Longrightarrow> sar_partial t [t] (sar_start t st)"
  by (cases "gatt_pkt st") (auto simp: sar_partial_def sar_start_def)

lemma sar_join_partial:
  assumes p: "sar_partial t pre st" and n: "length pre + length data \<le> MAX_GATT_SIZE"
  shows "\<exists>st'. sar_join t data fin st = (st', if fin then Some (pre @ data) else None) \<and> sar_partial t (pre @ data) st'"
proof -
  from p have t: "byte_at (gatt_pkt st) 0 = t"
    unfolding sar_partial_def by (metis byte_at_def byte_at_take hd_conv_nth length_greater_0_conv)
  have sz: "unat (gatt_size st) = length pre" and l: "length (gatt_pkt st) = 67" using p by (auto simp: sar_partial_def)
  note add = sar_size_add [of st "length data", unfolded sz, OF n]
  have m: "take (length pre + length data) (memcpy (gatt_pkt st) (length pre) data) = pre @ data"
    using p n l by (simp add: memcpy_def sar_partial_def)
  then show ?thesis
    using p n t l add by (auto simp: sar_join_def Let_def sz sar_partial_def)
qed

lemma mesh_gatt_sar_continue:
  assumes "t AND GATT_TYPE_MASK = t"
  shows "mesh_gatt_sar st ((t OR GATT_SAR_CONTINUE) # d) = sar_join t d False st"
    "mesh_gatt_sar st ((t OR GATT_SAR_LAST) # d) = sar_join t d True st"
    "mesh_gatt_sar st ((t OR GATT_SAR_FIRST) # d) = sar_join t d False (sar_start t st)"
    "mesh_gatt_sar st (t # d) = sar_join t d True (sar_start t st)"
  using sar_header [OF assms] assms by (simp_all add: mesh_gatt_sar_def byte_at_def)

lemma pipe_read_loop_Some:
  assumes "mesh_gatt_sar st pkt = (st1, Some p)" "pkt \<noteq> []" "p \<noteq> []"
  shows "pipe_read_loop st [pkt] = (st1, [p])"
  using assms by simp

lemma pipe_read_loop_None:
  assumes "mesh_gatt_sar st pkt = (st1, None)" "pkt \<noteq> []"
  shows "pipe_read_loop st (pkt # pkts) = pipe_read_loop st1 pkts"
  using assms by (simp split: prod.splits)

text \<open>From a partial state on, the remaining segments complete the PDU.\<close>

lemma pipe_write_loop_rest:
  assumes t: "t AND GATT_TYPE_MASK = t" and maxl: "0 < maxl"
  shows "sar_partial t pre st \<Longrightarrow> length pre + length rest \<le> MAX_GATT_SIZE \<Longrightarrow> length rest < fuel \<Longrightarrow>
    \<exists>outs st'. (if maxl < length rest then pipe_write_loop fuel maxl [] cb (t OR GATT_SAR_CONTINUE) rest maxl
                else pipe_write_loop fuel maxl [] cb (t OR GATT_SAR_LAST) rest (length rest)) = Some (outs, True) \<and>
      pipe_read_loop st (pdus_of outs) = (st', [pre @ rest])"
proof (induction fuel arbitrary: rest pre st)
  case (Suc fuel)
  note h = sar_header [OF t] and g = mesh_gatt_sar_continue [OF t]
  show ?case
  proof (cases "maxl < length rest")
    case True
    define seg rest' where "seg = take maxl rest" and "rest' = drop maxl rest"
    have "length pre + length seg \<le> MAX_GATT_SIZE" using Suc.prems True by (simp add: seg_def)
    then obtain st1 where st1: "sar_join t seg False st = (st1, None)" "sar_partial t (pre @ seg) st1"
      using sar_join_partial [OF Suc.prems(1), of seg False] by auto
    have "length (pre @ seg) + length rest' \<le> MAX_GATT_SIZE" "length rest' < fuel"
      using Suc.prems True maxl by (auto simp: seg_def rest'_def)
    from Suc.IH [OF st1(2) this] obtain outs st' where
      o: "(if maxl < length rest' then pipe_write_loop fuel maxl [] cb (t OR GATT_SAR_CONTINUE) rest' maxl
           else pipe_write_loop fuel maxl [] cb (t OR GATT_SAR_LAST) rest' (length rest')) = Some (outs, True)"
        "pipe_read_loop st1 (pdus_of outs) = (st', [(pre @ seg) @ rest'])" by blast
    have w: "pipe_write_loop (Suc fuel) maxl [] cb (t OR GATT_SAR_CONTINUE) rest maxl =
        Some (Io_send ((t OR GATT_SAR_CONTINUE) # seg) # outs, True)"
      using o(1) by (auto simp: h Let_def seg_def rest'_def split: if_splits)
    have r: "pipe_read_loop st (((t OR GATT_SAR_CONTINUE) # seg) # pdus_of outs) = (st', [pre @ rest])"
      using pipe_read_loop_None [of st "(t OR GATT_SAR_CONTINUE) # seg" st1] g(1) st1(1) o(2)
      by (simp add: seg_def rest'_def)
    show ?thesis using True w r by (intro exI [of _ "Io_send ((t OR GATT_SAR_CONTINUE) # seg) # outs"] exI [of _ st']) simp
  next
    case False
    obtain st1 where st1: "sar_join t rest True st = (st1, Some (pre @ rest))"
      using sar_join_partial [OF Suc.prems(1,2), of True] by auto
    then have r: "pipe_read_loop st [(t OR GATT_SAR_LAST) # rest] = (st1, [pre @ rest])"
      using Suc.prems(1) by (intro pipe_read_loop_Some) (auto simp: g sar_partial_def)
    have w: "pipe_write_loop (Suc fuel) maxl [] cb (t OR GATT_SAR_LAST) rest (length rest) =
        Some (Io_send ((t OR GATT_SAR_LAST) # rest) # (if cb then [Gatt_cb] else []), True)"
      by (simp add: h)
    show ?thesis using False w r
      by (intro exI [of _ "Io_send ((t OR GATT_SAR_LAST) # rest) # (if cb then [Gatt_cb] else [])"] exI [of _ st1]) simp
  qed
qed simp

lemma pipe_write_read_core:
  assumes len: "0 < length buf" "length buf \<le> MAX_GATT_SIZE" and maxl: "0 < max_len st" and fuel: "length buf < fuel"
    and rx: "length (gatt_pkt rx) = 67" and hd: "byte_at buf 0 AND GATT_TYPE_MASK = byte_at buf 0"
  shows "\<exists>outs rx'. pipe_write fuel st [] \<lparr>gatt_data = buf, wd_cb = cb\<rparr> = Some (outs, True) \<and>
    pipe_read_loop rx (pdus_of outs) = (rx', [buf])"
proof -
  obtain t rest where buf: "buf = t # rest" using len by (cases buf) auto
  have t: "t AND GATT_TYPE_MASK = t" using hd by (simp add: buf byte_at_def)
  define m where "m = unat (max_len st)"
  have m: "0 < m" using maxl by (simp add: m_def word_less_nat_alt)
  note h = sar_header [OF t] and g = mesh_gatt_sar_continue [OF t]
  note p0 = sar_start_partial [OF rx, of t]
  obtain f where f: "fuel = Suc f" "length rest < f" using fuel by (cases fuel) (auto simp: buf)
  show ?thesis
  proof (cases "m < length rest")
    case True
    define seg rest' where "seg = take m rest" and "rest' = drop m rest"
    have "length [t] + length seg \<le> MAX_GATT_SIZE" using len True by (simp add: seg_def buf)
    then obtain st1 where st1: "sar_join t seg False (sar_start t rx) = (st1, None)" "sar_partial t ([t] @ seg) st1"
      using sar_join_partial [OF p0, of seg False] by auto
    have "length ([t] @ seg) + length rest' \<le> MAX_GATT_SIZE" "length rest' < f"
      using len f by (auto simp: seg_def rest'_def buf)
    from pipe_write_loop_rest [OF t m st1(2) this] obtain outs st' where
      o: "(if m < length rest' then pipe_write_loop f m [] cb (t OR GATT_SAR_CONTINUE) rest' m
           else pipe_write_loop f m [] cb (t OR GATT_SAR_LAST) rest' (length rest')) = Some (outs, True)"
        "pipe_read_loop st1 (pdus_of outs) = (st', [([t] @ seg) @ rest'])" by blast
    have "pipe_write fuel st [] \<lparr>gatt_data = buf, wd_cb = cb\<rparr> = Some (Io_send ((t OR GATT_SAR_FIRST) # seg) # outs, True)"
      using o(1) True t
      by (auto simp: pipe_write_def Let_def f byte_at_def buf h seg_def rest'_def simp flip: m_def split: if_splits)
    moreover have "pipe_read_loop rx (((t OR GATT_SAR_FIRST) # seg) # pdus_of outs) = (st', [buf])"
      using pipe_read_loop_None [of rx "(t OR GATT_SAR_FIRST) # seg" st1] g(3) st1(1) o(2)
      by (simp add: seg_def rest'_def buf)
    ultimately show ?thesis by (intro exI [of _ "Io_send ((t OR GATT_SAR_FIRST) # seg) # outs"] exI [of _ st']) simp
  next
    case False
    obtain st1 where "sar_join t rest True (sar_start t rx) = (st1, Some ([t] @ rest))"
      using sar_join_partial [OF p0, of rest True] len by (auto simp: buf)
    then have r: "pipe_read_loop rx [t # rest] = (st1, [buf])"
      by (intro pipe_read_loop_Some) (auto simp: g buf)
    have "pipe_write fuel st [] \<lparr>gatt_data = buf, wd_cb = cb\<rparr> =
        Some (Io_send (t # rest) # (if cb then [Gatt_cb] else []), True)"
      using False t by (simp add: pipe_write_def Let_def f byte_at_def buf h flip: m_def)
    with r show ?thesis
      by (intro exI [of _ "Io_send (t # rest) # (if cb then [Gatt_cb] else [])"] exI [of _ st1]) simp
  qed
qed

lemma pipe_write_loop_stuck:
  assumes t: "t AND GATT_TYPE_MASK = t" and rest: "rest \<noteq> []"
  shows "sar = t OR GATT_SAR_FIRST \<or> sar = t OR GATT_SAR_CONTINUE \<Longrightarrow>
    pipe_write_loop fuel 0 [] cb sar rest 0 = None"
proof (induction fuel arbitrary: sar)
  case (Suc fuel)
  then show ?case using sar_header [OF t] rest Suc.IH [of "t OR GATT_SAR_CONTINUE"] by (auto simp: Let_def)
qed simp

section \<open>Properties\<close>

text \<open>
  C31. Segmentation and reassembly. Whatever the MTU (as long as it leaves room for
  at least one octet) and whatever the receiver's buffer held before, the
  segments \<^verbatim>\<open>mesh_gatt_write\<close> sends for a PDU of 1 to 66 octets through an open
  pipe that accepts them are joined by \<^verbatim>\<open>mesh_gatt_sar\<close>, through \<^verbatim>\<open>pipe_read\<close>, into
  exactly that PDU, delivered once; the loop of \<^verbatim>\<open>pipe_write\<close> ends.
\<close>

theorem gatt_write_read:
  assumes "0 < length buf" "length buf \<le> MAX_GATT_SIZE" and "write_io st" "0 < max_len st"
    and "gatt_wf rx" and "byte_at buf 0 AND GATT_TYPE_MASK = byte_at buf 0" and "length buf < fuel"
  shows "\<exists>outs rx'. mesh_gatt_write fuel st ok [] buf cb = Some (outs, None, True) \<and>
    pipe_read rx True (pdus_of outs) = (rx', [buf])"
proof -
  have "buf[0 := byte_at buf 0 AND GATT_TYPE_MASK] = buf"
    using assms(1,6) by (cases buf) (auto simp: byte_at_def)
  with assms pipe_write_read_core [of buf st fuel rx cb] show ?thesis
    by (fastforce simp: mesh_gatt_write_def pipe_read_def gatt_wf_def)
qed

theorem gatt_write_read_witness:
  "\<exists>outs rx'. mesh_gatt_write 40 (gatt_init\<lparr>write_io := True\<rparr>) True [] (3 # replicate 30 9) True = Some (outs, None, True) \<and>
    pipe_read gatt_init True (pdus_of outs) = (rx', [3 # replicate 30 9])"
  by (rule gatt_write_read) (simp_all add: gatt_init_def gatt_wf_def max_len_def byte_at_def)

text \<open>
  C32. The reassembly buffer. In every state the file's event handlers can
  reach, the static buffer has its 67 octets and the fill level is at most 66,
  and a notification of any content and length neither breaks that nor yields a
  PDU of more than 66 octets.
\<close>

theorem gatt_buffer_bounded:
  assumes "reach ((=) gatt_init) gatt_step st"
  shows "gatt_wf st \<and>
    (case mesh_gatt_sar st pkt of (st', res) \<Rightarrow> gatt_wf st' \<and> (case res of None \<Rightarrow> True | Some p \<Rightarrow> length p \<le> 66))"
  using gatt.reach_inv [OF assms] mesh_gatt_sar_wf [OF gatt.reach_inv [OF assms]]
  by (cases "mesh_gatt_sar st pkt") (auto split: option.splits)

theorem gatt_buffer_bounded_witness:
  "gatt_wf (fst (mesh_gatt_sar gatt_init (replicate 100 0x41)))"
proof -
  have "reach ((=) gatt_init) gatt_step (fst (mesh_gatt_sar gatt_init (replicate 100 0x41)))"
    by (rule reach_step [OF reach_init [of "(=) gatt_init" gatt_init]], simp, rule notified)
      (rule prod.collapse [symmetric])
  from gatt_buffer_bounded [OF this] show ?thesis by simp
qed

text \<open>
  An MTU that leaves no room. \<^verbatim>\<open>max_len\<close> is a \<^verbatim>\<open>uint8_t\<close>, so an MTU of 260
  makes it 0: for a PDU of two octets or more the loop of \<^verbatim>\<open>pipe_write\<close> sends
  empty segments and never ends.
\<close>

lemma gatt_mtu_260_never_ends:
  assumes "write_mtu st = 260" "write_io st" "2 \<le> length buf" "length buf \<le> 69"
  shows "mesh_gatt_write fuel st ok [] buf cb = None"
proof -
  obtain b rest where buf: "buf = b # rest" "rest \<noteq> []" using assms(3) by (cases buf; cases "tl buf") auto
  have "(b AND GATT_TYPE_MASK) AND GATT_TYPE_MASK = b AND GATT_TYPE_MASK" by (simp add: and.assoc)
  with pipe_write_loop_stuck [OF this buf(2)] assms buf show ?thesis
    by (simp add: mesh_gatt_write_def Let_def pipe_write_def max_len_def byte_at_def)
qed

lemma gatt_mtu_260_never_ends_witness:
  "mesh_gatt_write 1000 (gatt_init\<lparr>write_io := True, write_mtu := 260\<rparr>) True [] [0, 1, 2] False = None"
  by (rule gatt_mtu_260_never_ends) (simp_all add: gatt_init_def)

end
