(* ===== verification/Mesh_Crypto.thy ===== *)
theory Mesh_Crypto
  imports Mesh_Util
begin

text \<open>
  \<^verbatim>\<open>mesh/crypto.c\<close>: AES-CCM written over single AES blocks, the key derivation
  functions of the mesh profile, the nonces, and the obfuscated and encrypted
  network packet.

  The block cipher and the CMAC are computed by the kernel behind \<^verbatim>\<open>AF_ALG\<close>
  sockets, so they are a parameter: a record \<open>af_alg\<close> of the answers of the
  system calls the code makes. \<open>ecb_op k b\<close> is what writing block \<open>b\<close> to a
  socket keyed with \<open>k\<close> and reading the answer yields (None when \<^verbatim>\<open>sendmsg\<close> or
  \<^verbatim>\<open>read\<close> fails), \<open>cmac_op k m\<close> the same for a message. The code relies on an
  answer being 16 octets, which \<open>alg_wf\<close> states. \<open>uninit16\<close> is the content of
  the uninitialised stack array \<^verbatim>\<open>mic\<close>, which an empty message leaves unwritten.
\<close>

record af_alg =
  alg_socket :: bool
  alg_bind :: "string \<Rightarrow> string \<Rightarrow> bool"
  alg_setkey :: "bytes \<Rightarrow> bool"
  alg_setauth :: "nat \<Rightarrow> bool"
  alg_accept :: bool
  ecb_op :: "bytes \<Rightarrow> bytes \<Rightarrow> bytes option"
  cmac_op :: "bytes \<Rightarrow> bytes \<Rightarrow> bytes option"
  uninit16 :: bytes

definition alg_wf :: "af_alg \<Rightarrow> bool" where
  "alg_wf A \<longleftrightarrow>
     (\<forall>k b out. ecb_op A k b = Some out \<longrightarrow> length out = 16) \<and>
     (\<forall>k m out. cmac_op A k m = Some out \<longrightarrow> length out = 16) \<and>
     length (uninit16 A) = 16"

section \<open>Sockets\<close>

definition alg_new :: "af_alg \<Rightarrow> bytes \<Rightarrow> nat \<Rightarrow> bool" where
  "alg_new A keyval mic_size =
     (if \<not> alg_setkey A keyval then False
      else if mic_size \<noteq> 0 \<and> \<not> alg_setauth A mic_size then False
      else alg_accept A)"

definition aes_ecb_setup :: "af_alg \<Rightarrow> bytes \<Rightarrow> bool" where
  "aes_ecb_setup A key =
     (if \<not> alg_socket A then False
      else if \<not> alg_bind A ''skcipher'' ''ecb(aes)'' then False
      else alg_new A key 0)"

definition aes_ecb :: "af_alg \<Rightarrow> bytes \<Rightarrow> bytes \<Rightarrow> bytes cres" where
  "aes_ecb A key plaintext = of_option (ecb_op A key plaintext)"

definition aes_ecb_one :: "af_alg \<Rightarrow> bytes \<Rightarrow> bytes \<Rightarrow> bytes cres" where
  "aes_ecb_one A key plaintext =
     (if \<not> aes_ecb_setup A key then Fail else aes_ecb A key plaintext)"

definition CMAC_MSG_MAX :: nat where
  "CMAC_MSG_MAX = 64 + 64 + 17"

definition aes_cmac_setup :: "af_alg \<Rightarrow> bytes \<Rightarrow> bool" where
  "aes_cmac_setup A key =
     (if \<not> alg_socket A then False
      else if \<not> alg_bind A ''hash'' ''cmac(aes)'' then False
      else alg_new A key 0)"

definition aes_cmac :: "af_alg \<Rightarrow> bytes \<Rightarrow> bytes \<Rightarrow> bytes cres" where
  "aes_cmac A key msg =
     (if length msg > CMAC_MSG_MAX then Fail else of_option (cmac_op A key msg))"

definition aes_cmac_N_start :: "af_alg \<Rightarrow> bytes \<Rightarrow> bool" where
  "aes_cmac_N_start A N = aes_cmac_setup A N"

definition aes_cmac_one :: "af_alg \<Rightarrow> bytes \<Rightarrow> bytes \<Rightarrow> bytes cres" where
  "aes_cmac_one A key msg =
     (if \<not> aes_cmac_setup A key then Fail else aes_cmac A key msg)"

definition mesh_crypto_aes_cmac :: "af_alg \<Rightarrow> bytes \<Rightarrow> bytes \<Rightarrow> bytes cres" where
  "mesh_crypto_aes_cmac A key msg = aes_cmac_one A key msg"

section \<open>AES-CCM\<close>

text \<open>
  The 16-byte work block: a leading octet, the nonce and a big-endian counter
  or length.
\<close>

definition ccm_block :: "u8 \<Rightarrow> bytes \<Rightarrow> u16 \<Rightarrow> bytes" where
  "ccm_block b0 nonce ctr = b0 # sub_bytes nonce 0 13 @ [be16_hi ctr, be16_lo ctr]"

text \<open>
  \<^verbatim>\<open>for (k = i; k < n; k++) pmsg[k] = Xn[k] ^ src[j + k - i]\<close> on the 16-byte array
  \<^verbatim>\<open>pmsg\<close>.
\<close>

definition xor_range :: "bytes \<Rightarrow> bytes \<Rightarrow> nat \<Rightarrow> nat \<Rightarrow> nat \<Rightarrow> bytes \<Rightarrow> bytes" where
  "xor_range Xn src i n j pmsg =
     map (\<lambda>k. if i \<le> k \<and> k < n then byte_at Xn k XOR byte_at src (j + k - i) else byte_at pmsg k) [0..<16]"

text \<open>
  The loop \<^verbatim>\<open>while (aad_len > 16)\<close>; \<open>i\<close> and \<open>j\<close> are the positions in \<^verbatim>\<open>pmsg\<close>
  and in the additional data.
\<close>

function ccm_aad_loop ::
  "af_alg \<Rightarrow> bytes \<Rightarrow> bytes \<Rightarrow> nat \<Rightarrow> bytes \<Rightarrow> bytes \<Rightarrow> nat \<Rightarrow> nat \<Rightarrow> (bytes \<times> bytes \<times> nat \<times> nat) cres" where
  "ccm_aad_loop A key aad aad_len pmsg Xn i j =
     (if aad_len > 16 then
        cguard (j + (16 - i) \<le> length aad)
          (let pmsg' = xor_range Xn aad i 16 j pmsg in
           cbind (aes_ecb A key pmsg') (\<lambda>Xn'.
             ccm_aad_loop A key aad (aad_len - 16) pmsg' Xn' 0 (j + (16 - i))))
      else Ret (pmsg, Xn, aad_len, j))"
  by pat_completeness auto
termination
  by (relation "measure (\<lambda>(A, key, aad, aad_len, pmsg, Xn, i, j). aad_len)") auto

text \<open>
  The additional data, authenticated into \<^verbatim>\<open>Xn\<close>. The tail loop restarts at
  \<^verbatim>\<open>i = 0\<close> with \<^verbatim>\<open>aad_len\<close> already increased by two.
\<close>

definition ccm_aad :: "af_alg \<Rightarrow> bytes \<Rightarrow> bytes \<Rightarrow> bytes \<Rightarrow> bytes \<Rightarrow> bytes cres" where
  "ccm_aad A key aad pmsg0 X0 =
     (let aad_len = length aad;
          pmsg1 = xor_range X0 [be16_hi (of_nat aad_len), be16_lo (of_nat aad_len)] 0 2 0 pmsg0
      in cbind (ccm_aad_loop A key aad (aad_len + 2) pmsg1 X0 2 0) (\<lambda>(pmsg, Xn, n, j).
           cguard (j + n \<le> length aad)
             (let p1 = xor_range Xn aad 0 n j pmsg;
                  p2 = xor_range Xn [] n 16 0 p1
              in aes_ecb A key p2)))"

text \<open>
  The first half of both directions: \<^verbatim>\<open>C_mic\<close>, \<^verbatim>\<open>X_0\<close> and the additional data.
\<close>

definition ccm_start ::
  "af_alg \<Rightarrow> bytes \<Rightarrow> bytes \<Rightarrow> bytes \<Rightarrow> u16 \<Rightarrow> nat \<Rightarrow> (bytes \<times> bytes) cres" where
  "ccm_start A nonce key aad msg_len mic_size =
     cbind (aes_ecb A key (ccm_block 0x01 nonce 0)) (\<lambda>cmic.
       let flags = (if mic_size = 8 then 0x19 else 0x09) OR (if length aad \<noteq> 0 then 0x40 else 0x00);
           pmsg = ccm_block flags nonce msg_len
       in cbind (aes_ecb A key pmsg) (\<lambda>X0.
            if length aad \<noteq> 0 then cbind (ccm_aad A key aad pmsg X0) (\<lambda>Xn. Ret (cmic, Xn))
            else Ret (cmic, X0)))"

text \<open>The number of octets the block \<open>j\<close> of \<open>blk_cnt\<close> holds, and the count.\<close>

definition ccm_last_blk :: "nat \<Rightarrow> nat" where
  "ccm_last_blk msg_len = (if msg_len mod 16 = 0 then 16 else msg_len mod 16)"

definition ccm_blk_cnt :: "nat \<Rightarrow> nat" where
  "ccm_blk_cnt msg_len = (msg_len + 15) div 16"

definition ccm_blk_len :: "nat \<Rightarrow> nat \<Rightarrow> nat" where
  "ccm_blk_len msg_len j = (if j + 1 = ccm_blk_cnt msg_len then ccm_last_blk msg_len else 16)"

text \<open>
  The loop over the message blocks when encrypting: \<open>r\<close> blocks are left, \<open>j\<close> is
  the current one. The result is what was written to \<^verbatim>\<open>out_msg\<close> from offset
  \<^verbatim>\<open>j * 16\<close> on, and the array \<^verbatim>\<open>mic\<close>.
\<close>

fun ccm_enc_loop ::
  "af_alg \<Rightarrow> bytes \<Rightarrow> bytes \<Rightarrow> bytes \<Rightarrow> nat \<Rightarrow> bytes \<Rightarrow> nat \<Rightarrow> nat \<Rightarrow> bytes \<Rightarrow> bytes \<Rightarrow> (bytes \<times> bytes) cres" where
  "ccm_enc_loop A key nonce msg msg_len cmic 0 j Xn mic = Ret ([], mic)"
| "ccm_enc_loop A key nonce msg msg_len cmic (Suc r) j Xn mic =
     (let n = ccm_blk_len msg_len j;
          pmsg = xor_range Xn [] n 16 0 (xor_range Xn msg 0 n (j * 16) [])
      in cbind (aes_ecb A key pmsg) (\<lambda>Xn'.
         let mic' = (if j + 1 = ccm_blk_cnt msg_len then xor_bytes cmic Xn' else mic)
         in cbind (aes_ecb A key (ccm_block 0x01 nonce (of_nat (j + 1)))) (\<lambda>cmsg.
            let out = map (\<lambda>i. byte_at msg (j * 16 + i) XOR byte_at cmsg i) [0..<n]
            in cbind (ccm_enc_loop A key nonce msg msg_len cmic r (j + 1) Xn' mic') (\<lambda>(outs, m).
               Ret (out @ outs, m)))))"

text \<open>
  \<^verbatim>\<open>msg_len\<close> is the \<^verbatim>\<open>uint16_t\<close> argument, \<open>msg\<close> the octets behind the pointer. The
  result is what \<^verbatim>\<open>out_msg\<close> receives (cipher text and MIC) and the array \<^verbatim>\<open>mic\<close>
  whose leading octets \<^verbatim>\<open>out_mic\<close> receives.
\<close>

definition mesh_crypto_aes_ccm_encrypt ::
  "af_alg \<Rightarrow> bytes \<Rightarrow> bytes \<Rightarrow> bytes \<Rightarrow> bytes \<Rightarrow> u16 \<Rightarrow> nat \<Rightarrow> (bytes \<times> bytes) cres" where
  "mesh_crypto_aes_ccm_encrypt A nonce key aad msg msg_len mic_size =
     (if length aad \<ge> 0xff00 then Fail
      else if \<not> aes_ecb_setup A key then Fail
      else cbind (ccm_start A nonce key aad msg_len mic_size) (\<lambda>(cmic, Xn).
        cguard (unat msg_len \<le> length msg \<and> mic_size \<le> 16)
          (cbind (ccm_enc_loop A key nonce msg (unat msg_len) cmic (ccm_blk_cnt (unat msg_len)) 0 Xn (uninit16 A))
            (\<lambda>(out, mic). Ret (out @ take mic_size mic, mic)))))"

text \<open>The loop over the message blocks when decrypting; the result is the plain text and \<^verbatim>\<open>mic\<close>.\<close>

fun ccm_dec_loop ::
  "af_alg \<Rightarrow> bytes \<Rightarrow> bytes \<Rightarrow> bytes \<Rightarrow> nat \<Rightarrow> bytes \<Rightarrow> nat \<Rightarrow> nat \<Rightarrow> bytes \<Rightarrow> bytes \<Rightarrow> (bytes \<times> bytes) cres" where
  "ccm_dec_loop A key nonce enc_msg msg_len cmic 0 j Xn mic = Ret ([], mic)"
| "ccm_dec_loop A key nonce enc_msg msg_len cmic (Suc r) j Xn mic =
     (let n = ccm_blk_len msg_len j
      in cbind (aes_ecb A key (ccm_block 0x01 nonce (of_nat (j + 1)))) (\<lambda>cmsg.
         let msg = map (\<lambda>i. byte_at enc_msg (j * 16 + i) XOR byte_at cmsg i) [0..<n];
             pmsg = xor_range Xn [] n 16 0 (xor_range Xn msg 0 n 0 [])
         in cbind (aes_ecb A key pmsg) (\<lambda>Xn'.
            let mic' = (if j + 1 = ccm_blk_cnt msg_len then xor_bytes cmic Xn' else mic)
            in cbind (ccm_dec_loop A key nonce enc_msg msg_len cmic r (j + 1) Xn' mic') (\<lambda>(outs, m).
               Ret (msg @ outs, m)))))"

text \<open>
  \<open>want_mic\<close>: the caller passed a non-null \<^verbatim>\<open>out_mic\<close> and compares the MIC itself.
  \<^verbatim>\<open>msg_len = enc_msg_len - mic_size\<close> is a \<^verbatim>\<open>uint16_t\<close> and wraps.
\<close>

definition mesh_crypto_aes_ccm_decrypt ::
  "af_alg \<Rightarrow> bytes \<Rightarrow> bytes \<Rightarrow> bytes \<Rightarrow> bytes \<Rightarrow> bool \<Rightarrow> nat \<Rightarrow> (bytes \<times> bytes) cres" where
  "mesh_crypto_aes_ccm_decrypt A nonce key aad enc_msg want_mic mic_size =
     (let enc_msg_len = length enc_msg;
          msg_len = of_nat enc_msg_len - of_nat mic_size :: u16
      in if enc_msg_len < 5 \<or> length aad \<ge> 0xff00 then Fail
      else if \<not> aes_ecb_setup A key then Fail
      else cbind (ccm_start A nonce key aad msg_len mic_size) (\<lambda>(cmic, Xn).
        cguard (unat msg_len \<le> enc_msg_len)
          (cbind (ccm_dec_loop A key nonce enc_msg (unat msg_len) cmic (ccm_blk_cnt (unat msg_len)) 0 Xn (uninit16 A))
            (\<lambda>(out, mic).
               if mic_size = 4 then
                 (if want_mic then Ret (out, mic)
                  else if get_be32 enc_msg (enc_msg_len - mic_size) \<noteq> get_be32 mic 0 then Fail
                  else Ret (out, mic))
               else if mic_size = 8 then
                 (if want_mic then Ret (out, mic)
                  else if get_be64 enc_msg (enc_msg_len - mic_size) \<noteq> get_be64 mic 0 then Fail
                  else Ret (out, mic))
               else Fail))))"

section \<open>Key derivation\<close>

text \<open>Octets of a C string literal.\<close>

definition str_bytes :: "string \<Rightarrow> bytes" where
  "str_bytes s = map of_char s"

definition mesh_crypto_s1 :: "af_alg \<Rightarrow> bytes \<Rightarrow> bytes cres" where
  "mesh_crypto_s1 A info = aes_cmac_one A (replicate 16 0) info"

definition mesh_crypto_k1 :: "af_alg \<Rightarrow> bytes \<Rightarrow> bytes \<Rightarrow> bytes \<Rightarrow> bytes cres" where
  "mesh_crypto_k1 A ikm salt info =
     cbind (aes_cmac_one A salt ikm) (\<lambda>res. aes_cmac_one A res info)"

text \<open>Network identifier, encryption key and privacy key.\<close>

definition mesh_crypto_k2 :: "af_alg \<Rightarrow> bytes \<Rightarrow> bytes \<Rightarrow> (u8 \<times> bytes \<times> bytes) cres" where
  "mesh_crypto_k2 A n p =
     cbind (mesh_crypto_s1 A (str_bytes ''smk2'')) (\<lambda>stage.
     cbind (aes_cmac_one A stage n) (\<lambda>t.
     if \<not> aes_cmac_N_start A t then Fail
     else cbind (aes_cmac A t (p @ [1])) (\<lambda>output1.
       let net_id = byte_at output1 15 AND 0x7f in
       cbind (aes_cmac A t (sub_bytes output1 0 16 @ p @ [2])) (\<lambda>enc_key.
       cbind (aes_cmac A t (sub_bytes enc_key 0 16 @ p @ [3])) (\<lambda>priv_key.
       Ret (net_id, enc_key, priv_key))))))"

definition crypto_128 :: "af_alg \<Rightarrow> bytes \<Rightarrow> string \<Rightarrow> bytes cres" where
  "crypto_128 A n s =
     cbind (mesh_crypto_s1 A (str_bytes s)) (\<lambda>salt.
       mesh_crypto_k1 A n salt (str_bytes ''id128'' @ [0x01]))"

definition mesh_crypto_nkik :: "af_alg \<Rightarrow> bytes \<Rightarrow> bytes cres" where
  "mesh_crypto_nkik A n = crypto_128 A n ''nkik''"

text \<open>
  The node identity. \<open>rnd\<close> is what \<^verbatim>\<open>mesh_get_random_bytes\<close> put into the buffer;
  with \<open>check\<close> the identity \<open>ident\<close> is compared, otherwise it is the result.
\<close>

definition identity_calc :: "af_alg \<Rightarrow> bytes \<Rightarrow> bytes \<Rightarrow> u16 \<Rightarrow> bool \<Rightarrow> bytes \<Rightarrow> bytes cres" where
  "identity_calc A rnd net_key addr check ident =
     cbind (mesh_crypto_nkik A net_key) (\<lambda>id_key.
       let tmp0 = put_be16 addr (replicate 16 0) 14;
           tmp1 = memcpy tmp0 6 (if check then sub_bytes ident 8 8 else sub_bytes rnd 0 8);
           id1 = (if check then ident else memcpy ident 8 (sub_bytes tmp1 6 8))
       in cbind (aes_ecb_one A id_key tmp1) (\<lambda>tmp.
            if check then (if sub_bytes ident 0 8 = sub_bytes tmp 8 8 then Ret ident else Fail)
            else Ret (memcpy id1 0 (sub_bytes tmp 8 8))))"

definition mesh_crypto_identity :: "af_alg \<Rightarrow> bytes \<Rightarrow> bytes \<Rightarrow> u16 \<Rightarrow> bytes \<Rightarrow> bytes cres" where
  "mesh_crypto_identity A rnd net_key addr ident = identity_calc A rnd net_key addr False ident"

definition mesh_crypto_identity_check :: "af_alg \<Rightarrow> bytes \<Rightarrow> u16 \<Rightarrow> bytes \<Rightarrow> bytes cres" where
  "mesh_crypto_identity_check A net_key addr ident = identity_calc A [] net_key addr True ident"

definition mesh_crypto_nkbk :: "af_alg \<Rightarrow> bytes \<Rightarrow> bytes cres" where
  "mesh_crypto_nkbk A n = crypto_128 A n ''nkbk''"

definition mesh_crypto_k3 :: "af_alg \<Rightarrow> bytes \<Rightarrow> bytes cres" where
  "mesh_crypto_k3 A n =
     cbind (mesh_crypto_s1 A (str_bytes ''smk3'')) (\<lambda>tmp.
     cbind (aes_cmac_one A tmp n) (\<lambda>t.
     cbind (aes_cmac_one A t (str_bytes ''id64'' @ [0x01])) (\<lambda>tmp.
     Ret (sub_bytes tmp 8 8))))"

definition mesh_crypto_k4 :: "af_alg \<Rightarrow> bytes \<Rightarrow> u8 cres" where
  "mesh_crypto_k4 A a =
     cbind (mesh_crypto_s1 A (str_bytes ''smk4'')) (\<lambda>tmp.
     cbind (aes_cmac_one A tmp a) (\<lambda>t.
     cbind (aes_cmac_one A t (str_bytes ''id6'' @ [0x01])) (\<lambda>tmp.
     Ret (byte_at tmp 15 AND 0x3f))))"

definition mesh_crypto_beacon_cmac ::
  "af_alg \<Rightarrow> bytes \<Rightarrow> bytes \<Rightarrow> u32 \<Rightarrow> bool \<Rightarrow> bool \<Rightarrow> u64 cres" where
  "mesh_crypto_beacon_cmac A encryption_key network_id iv_index kr iu =
     (let msg0 = [(if kr then 0x01 else 0x00) OR (if iu then 0x02 else 0x00)] @ replicate 12 0;
          msg1 = memcpy msg0 1 (sub_bytes network_id 0 8);
          msg = put_be32 iv_index msg1 9
      in cbind (aes_cmac_one A encryption_key msg) (\<lambda>tmp. Ret (get_be64 tmp 0)))"

section \<open>Nonces\<close>

definition mesh_crypto_network_nonce :: "bool \<Rightarrow> u8 \<Rightarrow> u32 \<Rightarrow> u16 \<Rightarrow> u32 \<Rightarrow> bytes" where
  "mesh_crypto_network_nonce ctl ttl seq src iv_index =
     (let n0 = [0, (ttl AND 0x7f) OR (if ctl then 0x80 else 0x00),
                ucast (drop_bit 16 seq AND 0xff), ucast (drop_bit 8 seq AND 0xff), ucast (seq AND 0xff)] @
               replicate 8 0
      in put_be32 iv_index (put_be16 0 (put_be16 src n0 5) 7) 9)"

definition mesh_crypto_network_encrypt ::
  "af_alg \<Rightarrow> bool \<Rightarrow> u8 \<Rightarrow> u32 \<Rightarrow> u16 \<Rightarrow> u32 \<Rightarrow> bytes \<Rightarrow> bytes \<Rightarrow> (bytes \<times> bytes) cres" where
  "mesh_crypto_network_encrypt A ctl ttl seq src iv_index net_key enc_msg =
     mesh_crypto_aes_ccm_encrypt A (mesh_crypto_network_nonce ctl ttl seq src iv_index) net_key []
       enc_msg (of_nat (length enc_msg)) (if ctl then 8 else 4)"

definition mesh_crypto_network_decrypt ::
  "af_alg \<Rightarrow> bool \<Rightarrow> u8 \<Rightarrow> u32 \<Rightarrow> u16 \<Rightarrow> u32 \<Rightarrow> bytes \<Rightarrow> bytes \<Rightarrow> bool \<Rightarrow> nat \<Rightarrow> (bytes \<times> bytes) cres" where
  "mesh_crypto_network_decrypt A ctl ttl seq src iv_index net_key enc_msg want_mic mic_size =
     mesh_crypto_aes_ccm_decrypt A (mesh_crypto_network_nonce ctl ttl seq src iv_index) net_key []
       enc_msg want_mic mic_size"

definition seq_nonce :: "u8 \<Rightarrow> u32 \<Rightarrow> u16 \<Rightarrow> u16 \<Rightarrow> u32 \<Rightarrow> bool \<Rightarrow> bytes" where
  "seq_nonce ty seq src dst iv_index aszmic =
     put_be32 iv_index
       ([ty, if aszmic then 0x80 else 0x00,
         ucast (drop_bit 16 (seq AND 0x00ff0000)), ucast (drop_bit 8 (seq AND 0x0000ff00)),
         ucast (seq AND 0x000000ff),
         ucast (drop_bit 8 (src AND 0xff00)), ucast (src AND 0x00ff),
         ucast (drop_bit 8 (dst AND 0xff00)), ucast (dst AND 0x00ff)] @ replicate 4 0) 9"

definition mesh_crypto_application_nonce :: "u32 \<Rightarrow> u16 \<Rightarrow> u16 \<Rightarrow> u32 \<Rightarrow> bool \<Rightarrow> bytes" where
  "mesh_crypto_application_nonce seq src dst iv_index aszmic = seq_nonce 0x01 seq src dst iv_index aszmic"

definition mesh_crypto_device_nonce :: "u32 \<Rightarrow> u16 \<Rightarrow> u16 \<Rightarrow> u32 \<Rightarrow> bool \<Rightarrow> bytes" where
  "mesh_crypto_device_nonce seq src dst iv_index aszmic = seq_nonce 0x02 seq src dst iv_index aszmic"

definition mesh_crypto_application_encrypt ::
  "af_alg \<Rightarrow> u8 \<Rightarrow> u32 \<Rightarrow> u16 \<Rightarrow> u16 \<Rightarrow> u32 \<Rightarrow> bytes \<Rightarrow> bytes \<Rightarrow> bytes \<Rightarrow> u8 \<Rightarrow> nat \<Rightarrow> (bytes \<times> bytes) cres" where
  "mesh_crypto_application_encrypt A key_id seq src dst iv_index app_key aad msg msg_len mic_size =
     (let aszmic = (mic_size = 8);
          nonce = (if key_id = 0 then mesh_crypto_device_nonce seq src dst iv_index aszmic
                   else mesh_crypto_application_nonce seq src dst iv_index aszmic)
      in mesh_crypto_aes_ccm_encrypt A nonce app_key aad msg (ucast msg_len) mic_size)"

definition mesh_crypto_application_decrypt ::
  "af_alg \<Rightarrow> u8 \<Rightarrow> u32 \<Rightarrow> u16 \<Rightarrow> u16 \<Rightarrow> u32 \<Rightarrow> bytes \<Rightarrow> bytes \<Rightarrow> bytes \<Rightarrow> bool \<Rightarrow> nat \<Rightarrow> (bytes \<times> bytes) cres" where
  "mesh_crypto_application_decrypt A key_id seq src dst iv_index app_key aad enc_msg want_mic mic_size =
     (let aszmic = (mic_size = 8);
          nonce = (if key_id = 0 then mesh_crypto_device_nonce seq src dst iv_index aszmic
                   else mesh_crypto_application_nonce seq src dst iv_index aszmic)
      in mesh_crypto_aes_ccm_decrypt A nonce app_key aad enc_msg want_mic mic_size)"

section \<open>Provisioning keys\<close>

definition mesh_crypto_session_key :: "af_alg \<Rightarrow> bytes \<Rightarrow> bytes \<Rightarrow> bytes cres" where
  "mesh_crypto_session_key A secret salt =
     cbind (aes_cmac_one A salt secret) (\<lambda>k. aes_cmac_one A k (str_bytes ''prsk''))"

definition mesh_crypto_nonce :: "af_alg \<Rightarrow> bytes \<Rightarrow> bytes \<Rightarrow> bytes cres" where
  "mesh_crypto_nonce A secret salt =
     cbind (aes_cmac_one A salt secret) (\<lambda>tmp.
     cbind (aes_cmac_one A tmp (str_bytes ''prsn'')) (\<lambda>tmp. Ret (sub_bytes tmp 3 13)))"

definition mesh_crypto_prov_prov_salt :: "af_alg \<Rightarrow> bytes \<Rightarrow> bytes \<Rightarrow> bytes \<Rightarrow> bytes cres" where
  "mesh_crypto_prov_prov_salt A conf_salt prov_rand dev_rand =
     aes_cmac_one A (replicate 16 0) (sub_bytes conf_salt 0 16 @ sub_bytes prov_rand 0 16 @ sub_bytes dev_rand 0 16)"

definition mesh_crypto_prov_conf_key :: "af_alg \<Rightarrow> bytes \<Rightarrow> bytes \<Rightarrow> bytes cres" where
  "mesh_crypto_prov_conf_key A secret salt =
     cbind (aes_cmac_one A salt secret) (\<lambda>k. aes_cmac_one A k (str_bytes ''prck''))"

definition mesh_crypto_device_key :: "af_alg \<Rightarrow> bytes \<Rightarrow> bytes \<Rightarrow> bytes cres" where
  "mesh_crypto_device_key A secret salt =
     cbind (aes_cmac_one A salt secret) (\<lambda>k. aes_cmac_one A k (str_bytes ''prdk''))"

definition mesh_crypto_virtual_addr :: "af_alg \<Rightarrow> bytes \<Rightarrow> u16 cres" where
  "mesh_crypto_virtual_addr A virtual_label =
     cbind (mesh_crypto_s1 A (str_bytes ''vtad'')) (\<lambda>tmp.
     cbind (aes_cmac_one A tmp virtual_label) (\<lambda>tmp.
     Ret ((get_be16 tmp 14 AND 0x3fff) OR 0x8000)))"

section \<open>Network packets\<close>

text \<open>The privacy counter, and the exclusive or of octets 1 to 6 with its encryption.\<close>

definition privacy_counter :: "u32 \<Rightarrow> bytes \<Rightarrow> bytes" where
  "privacy_counter iv_index packet =
     memcpy (put_be32 iv_index (replicate 16 0) 5) 9 (sub_bytes packet 7 7)"

definition xor_header :: "bytes \<Rightarrow> bytes \<Rightarrow> bytes" where
  "xor_header tmp packet =
     map (\<lambda>i. if 1 \<le> i \<and> i \<le> 6 then byte_at packet i XOR byte_at tmp (i - 1) else byte_at packet i)
       [0..<length packet]"

definition packet_nonce :: "bool \<Rightarrow> bytes \<Rightarrow> u32 \<Rightarrow> bytes" where
  "packet_nonce proxy p iv_index =
     (let n0 = replicate 13 0;
          n1 = (if proxy then n0[0 := 0x03] else n0[1 := byte_at p 1]);
          n2 = n1[2 := byte_at p 2, 3 := byte_at p 3, 4 := byte_at p 4,
                  5 := byte_at p 5, 6 := byte_at p 6, 7 := 0, 8 := 0]
      in put_be32 iv_index n2 9)"

definition pkt_mic_size :: "bytes \<Rightarrow> nat" where
  "pkt_mic_size p = (if byte_at p 1 AND 0x80 \<noteq> 0 then 8 else 4)"

definition mesh_crypto_packet_encode ::
  "af_alg \<Rightarrow> bytes \<Rightarrow> bytes \<Rightarrow> u32 \<Rightarrow> bytes \<Rightarrow> bytes cres" where
  "mesh_crypto_packet_encode A packet network_key iv_index privacy_key =
     cguard (14 \<le> length packet)
       (let packet_len = length packet;
            proxy = (byte_at packet 1 AND 0x80 \<noteq> 0 \<and> get_be16 packet 7 = 0);
            nonce = packet_nonce proxy packet iv_index;
            mic_size = pkt_mic_size packet
        in cbind (mesh_crypto_aes_ccm_encrypt A nonce network_key [] (drop 7 packet)
                    (of_nat packet_len - 7 - of_nat mic_size) mic_size) (\<lambda>(out, mic).
           let packet1 = memcpy packet 7 out
           in cbind (aes_ecb_one A privacy_key (privacy_counter iv_index packet1)) (\<lambda>tmp.
              Ret (xor_header tmp packet1))))"

definition mesh_crypto_packet_decode ::
  "af_alg \<Rightarrow> bytes \<Rightarrow> bool \<Rightarrow> u32 \<Rightarrow> bytes \<Rightarrow> bytes \<Rightarrow> bytes cres" where
  "mesh_crypto_packet_decode A packet proxy iv_index network_key privacy_key =
     (let packet_len = length packet in
      if packet_len < 14 then Fail
      else cbind (aes_ecb_one A privacy_key (privacy_counter iv_index packet)) (\<lambda>tmp.
        let out = xor_header tmp packet;
            src = get_be16 out 5
        in if src = 0 \<or> src \<ge> 0x8000 then Fail
           else
             let nonce = packet_nonce (byte_at out 1 AND 0x80 \<noteq> 0 \<and> proxy) out iv_index;
                 mic_size = pkt_mic_size out
             in cbind (mesh_crypto_aes_ccm_decrypt A nonce network_key [] (drop 7 packet) True mic_size)
                  (\<lambda>(msg, mic).
                    let out1 = memcpy out 7 msg in
                    if mic_size = 8 then
                      (let m = get_be64 mic 0 XOR get_be64 out1 (packet_len - 8)
                       in if m \<noteq> 0 then Fail else Ret (put_be64 m out1 (packet_len - 8)))
                    else
                      (let m = get_be32 mic 0 XOR get_be32 out1 (packet_len - 4)
                       in if m \<noteq> 0 then Fail else Ret (put_be32 m out1 (packet_len - 4))))))"

end
