(* ===== verification/Mesh_CCM.thy ===== *)
theory Mesh_CCM
  imports Mesh_Crypto
begin

text \<open>
  Correctness of the CCM routines of \<^verbatim>\<open>mesh/crypto.c\<close>: decryption undoes
  encryption, encryption refines the reference counter-with-CBC-MAC mode
  (RFC 3610 with a two-octet length field), and the network packet coding
  round-trips.
\<close>

section \<open>Block arithmetic\<close>

lemma ccm_blk_cnt_bound: "msg_len \<le> 16 * ccm_blk_cnt msg_len"
  by (simp add: ccm_blk_cnt_def)

lemma ccm_blk_cnt_eq: "ccm_blk_cnt L = L div 16 + (if L mod 16 = 0 then 0 else 1)"
proof -
  have "(L mod 16 + 15) div 16 = (if L mod 16 = 0 then 0 else 1)" 
    by (cases "L mod 16 = 0") (simp_all add: div_nat_eqI)
  moreover have "(L mod 16 + 15 + 16 * (L div 16)) div 16 = L div 16 + (L mod 16 + 15) div 16"
    by (rule div_mult_self2) simp
  moreover have "L mod 16 + 15 + 16 * (L div 16) = L + 15" by simp
  ultimately show ?thesis unfolding ccm_blk_cnt_def by simp
qed

lemma ccm_blk_len_eq:
  assumes "j < ccm_blk_cnt L"
  shows "ccm_blk_len L j = min 16 (L - 16 * j)"
proof -
  have L: "L = 16 * (L div 16) + L mod 16" by simp
  show ?thesis
  proof (cases "L mod 16 = 0")
    case True
    then have "ccm_blk_len L j = 16" "j < L div 16"
      using assms by (auto simp: ccm_blk_len_def ccm_last_blk_def ccm_blk_cnt_eq)
    with L True show ?thesis by linarith
  next
    case False
    then have c: "ccm_blk_cnt L = L div 16 + 1" "ccm_last_blk L = L mod 16"
      by (simp_all add: ccm_blk_cnt_eq ccm_last_blk_def)
    have "L mod 16 < 16" by simp
    show ?thesis
    proof (cases "j = L div 16")
      case True
      with c \<open>L mod 16 < 16\<close> minus_mult_div_eq_mod [of L 16] show ?thesis
        by (simp add: ccm_blk_len_def)
    next
      case False
      with L c assms show ?thesis unfolding ccm_blk_len_def min_def by simp
    qed
  qed
qed

lemma ccm_blk_len_bounds:
  assumes "j < ccm_blk_cnt L"
  shows "ccm_blk_len L j \<le> 16" "16 * j + ccm_blk_len L j \<le> L"
    "j + 1 \<noteq> ccm_blk_cnt L \<Longrightarrow> ccm_blk_len L j = 16"
proof -
  have "16 * j \<le> L" using assms by (auto simp: ccm_blk_cnt_eq split: if_splits)
  then show "ccm_blk_len L j \<le> 16" "16 * j + ccm_blk_len L j \<le> L"
    by (simp_all add: ccm_blk_len_eq [OF assms])
qed (simp add: ccm_blk_len_def)

lemma less_ccm_blk_cnt: "j < ccm_blk_cnt L \<longleftrightarrow> 16 * j < L"
proof -
  have "j < ccm_blk_cnt L \<longleftrightarrow> Suc j \<le> (L + 15) div 16" by (simp add: ccm_blk_cnt_def Suc_le_eq)
  also have "\<dots> \<longleftrightarrow> Suc j * 16 \<le> L + 15" by (rule less_eq_div_iff_mult_less_eq) simp
  finally show ?thesis by auto
qed

lemma ccm_blk_cnt_pos: "ccm_blk_cnt L = 0 \<longleftrightarrow> L = 0"
  by (auto simp: ccm_blk_cnt_def)

section \<open>The message loops\<close>

lemma length_xor_range [simp]: "length (xor_range Xn src i n j pmsg) = 16"
  by (simp add: xor_range_def)

lemma byte_at_xor_range:
  "k < 16 \<Longrightarrow> byte_at (xor_range Xn src i n j pmsg) k =
     (if i \<le> k \<and> k < n then byte_at Xn k XOR byte_at src (j + k - i) else byte_at pmsg k)"
  by (simp add: xor_range_def byte_at_def)

lemma ccm_enc_loop_length:
  "ccm_enc_loop A key nonce msg L cmic r j Xn mic0 = Ret (out, mic) \<Longrightarrow> r + j = ccm_blk_cnt L \<Longrightarrow>
   length out = L - 16 * j"
proof (induction r arbitrary: j Xn mic0 out)
  case 0
  then show ?case using ccm_blk_cnt_bound [of L] by simp
next
  case (Suc r)
  from Suc.prems obtain Xn' cmsg outs where
    *: "ccm_enc_loop A key nonce msg L cmic r (j + 1) Xn'
          (if j + 1 = ccm_blk_cnt L then xor_bytes cmic Xn' else mic0) = Ret (outs, mic)"
    and out: "out = map (\<lambda>i. byte_at msg (j * 16 + i) XOR byte_at cmsg i) [0..<ccm_blk_len L j] @ outs"
    by (auto simp: Let_def cbind_Ret_iff)
  from Suc.IH [OF *] Suc.prems ccm_blk_len_eq [of j L] show ?case
    by (auto simp: out)
qed

lemma ccm_dec_enc_loop:
  "ccm_enc_loop A key nonce msg L cmic r j Xn mic0 = Ret (out, mic) \<Longrightarrow> r + j = ccm_blk_cnt L \<Longrightarrow>
   (\<And>i. i < length out \<Longrightarrow> byte_at ct (j * 16 + i) = byte_at out i) \<Longrightarrow>
   ccm_dec_loop A key nonce ct L cmic r j Xn mic0 = Ret (sub_bytes msg (j * 16) (length out), mic)"
proof (induction r arbitrary: j Xn mic0 out)
  case 0
  then show ?case by (simp add: sub_bytes_def)
next
  case (Suc r)
  define n where "n = ccm_blk_len L j"
  define blk where "blk = xor_range Xn [] n 16 0 (xor_range Xn msg 0 n (j * 16) [])"
  from Suc.prems(1) obtain Xn' cmsg outs where
    x: "aes_ecb A key blk = Ret Xn'" and
    c: "aes_ecb A key (ccm_block 0x01 nonce (of_nat (j + 1))) = Ret cmsg" and
    rest: "ccm_enc_loop A key nonce msg L cmic r (j + 1) Xn'
          (if j + 1 = ccm_blk_cnt L then xor_bytes cmic Xn' else mic0) = Ret (outs, mic)" and
    out: "out = map (\<lambda>i. byte_at msg (j * 16 + i) XOR byte_at cmsg i) [0..<n] @ outs"
    by (auto simp: Let_def cbind_Ret_iff n_def blk_def)
  define m where "m = map (\<lambda>i. byte_at ct (j * 16 + i) XOR byte_at cmsg i) [0..<n]"
  have m: "m = sub_bytes msg (j * 16) n"
    unfolding m_def
  proof (rule nth_equalityI)
    fix i assume "i < length (map (\<lambda>i. byte_at ct (j * 16 + i) XOR byte_at cmsg i) [0..<n])"
    then show "map (\<lambda>i. byte_at ct (j * 16 + i) XOR byte_at cmsg i) [0..<n] ! i = sub_bytes msg (j * 16) n ! i"
      using Suc.prems(3) [of i] by (simp add: out byte_at_append_left) (simp add: byte_at_def)
  qed simp
  have "xor_range Xn m 0 n 0 [] = xor_range Xn msg 0 n (j * 16) []"
    by (rule byte_at_eqI) (auto simp: byte_at_xor_range m byte_at_sub_bytes)
  then have blk': "xor_range Xn [] n 16 0 (xor_range Xn m 0 n 0 []) = blk" by (simp add: blk_def)
  have "byte_at ct ((j + 1) * 16 + i) = byte_at outs i" if "i < length outs" for i
  proof -
    have "n = 16"
      using that rest Suc.prems(2) ccm_blk_len_bounds(3) [of j L] by (cases r) (auto simp: n_def)
    with Suc.prems(3) [of "n + i"] that byte_at_append_right [of "map _ [0..<n]" outs i] show ?thesis
      by (simp add: out algebra_simps)
  qed
  from Suc.IH [OF rest _ this] Suc.prems(2)
  have "ccm_dec_loop A key nonce ct L cmic r (j + 1) Xn' (if j + 1 = ccm_blk_cnt L then xor_bytes cmic Xn' else mic0)
      = Ret (sub_bytes msg ((j + 1) * 16) (length outs), mic)" by simp
  moreover have "m @ sub_bytes msg ((j + 1) * 16) (length outs) = sub_bytes msg (j * 16) (length out)"
  proof (cases "outs = []")
    case False
    then have "n = 16"
      using rest Suc.prems(2) ccm_blk_len_bounds(3) [of j L] by (cases r) (auto simp: n_def)
    then show ?thesis by (intro nth_equalityI) (auto simp: m out nth_append algebra_simps)
  qed (simp add: m out sub_bytes_def)
  ultimately show ?case
    unfolding ccm_dec_loop.simps Let_def n_def [symmetric] c cbind.simps m_def [symmetric] blk' x by simp
qed

section \<open>Decryption undoes encryption\<close>

lemma ecb_length: "alg_wf A \<Longrightarrow> aes_ecb A key b = Ret out \<Longrightarrow> length out = 16"
  by (auto simp: alg_wf_def aes_ecb_def)

lemma ecb_one_Ret: "aes_ecb_one A key b = Ret out \<longleftrightarrow> aes_ecb_setup A key \<and> aes_ecb A key b = Ret out"
  by (simp add: aes_ecb_one_def)

lemma ccm_start_lengths:
  "alg_wf A \<Longrightarrow> ccm_start A nonce key aad n mic_size = Ret (cmic, Xn) \<Longrightarrow> length cmic = 16"
  by (auto simp: ccm_start_def Let_def cbind_Ret_iff ecb_length split: if_splits)

lemma ccm_enc_loop_mic_length:
  "alg_wf A \<Longrightarrow> length cmic = 16 \<Longrightarrow> length mic0 = 16 \<Longrightarrow>
   ccm_enc_loop A key nonce msg L cmic r j Xn mic0 = Ret (out, mic) \<Longrightarrow> length mic = 16"
proof (induction r arbitrary: j Xn mic0 out)
  case (Suc r)
  from Suc.prems(4) obtain b Xn' outs where
    x: "aes_ecb A key b = Ret Xn'" and
    rest: "ccm_enc_loop A key nonce msg L cmic r (j + 1) Xn'
       (if j + 1 = ccm_blk_cnt L then xor_bytes cmic Xn' else mic0) = Ret (outs, mic)"
    by (auto simp: Let_def cbind_Ret_iff)
  from ecb_length [OF Suc.prems(1) x] Suc.IH [OF Suc.prems(1,2) _ rest] Suc.prems(2,3) show ?case
    by (simp split: if_splits)
qed simp

text \<open>What a successful encryption consists of.\<close>

lemma ccm_encrypt_Ret:
  assumes "mesh_crypto_aes_ccm_encrypt A nonce key aad msg n mic_size = Ret (out, mic)"
  obtains cmic Xn ct where
    "length aad < 0xff00" "aes_ecb_setup A key" "unat n \<le> length msg" "mic_size \<le> 16"
    "ccm_start A nonce key aad n mic_size = Ret (cmic, Xn)"
    "ccm_enc_loop A key nonce msg (unat n) cmic (ccm_blk_cnt (unat n)) 0 Xn (uninit16 A) = Ret (ct, mic)"
    "out = ct @ take mic_size mic" "length ct = unat n"
proof -
  from assms obtain cmic Xn ct where
    *: "length aad < 0xff00" "aes_ecb_setup A key" "unat n \<le> length msg" "mic_size \<le> 16"
    "ccm_start A nonce key aad n mic_size = Ret (cmic, Xn)"
    "ccm_enc_loop A key nonce msg (unat n) cmic (ccm_blk_cnt (unat n)) 0 Xn (uninit16 A) = Ret (ct, mic)"
    "out = ct @ take mic_size mic"
    by (auto simp: mesh_crypto_aes_ccm_encrypt_def cbind_Ret_iff split: if_splits)
  from ccm_enc_loop_length [OF *(6)] have "length ct = unat n" by simp
  with * show ?thesis by (rule that)
qed

lemma ccm_encrypt_lengths:
  assumes "alg_wf A" "mesh_crypto_aes_ccm_encrypt A nonce key aad msg n mic_size = Ret (out, mic)"
  shows "length mic = 16" "length out = unat n + mic_size" "unat n \<le> length msg" "mic_size \<le> 16"
    "drop (unat n) out = take mic_size mic"
proof -
  from assms(2) obtain cmic Xn ct where
    *: "mic_size \<le> 16" "ccm_start A nonce key aad n mic_size = Ret (cmic, Xn)"
    "ccm_enc_loop A key nonce msg (unat n) cmic (ccm_blk_cnt (unat n)) 0 Xn (uninit16 A) = Ret (ct, mic)"
    "out = ct @ take mic_size mic" "length ct = unat n" "unat n \<le> length msg"
    by (rule ccm_encrypt_Ret)
  show "length mic = 16"
    by (rule ccm_enc_loop_mic_length [OF assms(1) ccm_start_lengths [OF assms(1) *(2)] _ *(3)])
      (use assms(1) in \<open>simp add: alg_wf_def\<close>)
  with * show "length out = unat n + mic_size" "unat n \<le> length msg" "mic_size \<le> 16"
    "drop (unat n) out = take mic_size mic"
    by auto
qed

lemma ccm_decrypt_encrypt_core:
  assumes wf: "alg_wf A"
    and enc: "mesh_crypto_aes_ccm_encrypt A nonce key aad msg n mic_size = Ret (out, mic)"
    and n: "1 \<le> unat n" "unat n + mic_size < 65536" and ms: "mic_size = 4 \<or> mic_size = 8"
  shows "mesh_crypto_aes_ccm_decrypt A nonce key aad out want_mic mic_size = Ret (take (unat n) msg, mic)"
proof -
  from enc obtain cmic Xn ct where
    e: "length aad < 0xff00" "aes_ecb_setup A key" "unat n \<le> length msg"
    "ccm_start A nonce key aad n mic_size = Ret (cmic, Xn)"
    "ccm_enc_loop A key nonce msg (unat n) cmic (ccm_blk_cnt (unat n)) 0 Xn (uninit16 A) = Ret (ct, mic)"
    "out = ct @ take mic_size mic" "length ct = unat n"
    by (rule ccm_encrypt_Ret)
  note len = ccm_encrypt_lengths [OF wf enc]
  have n': "of_nat (length out) - of_nat mic_size = n"
    using len(2) by (simp add: word_unat_eq_iff)
  have "ccm_dec_loop A key nonce out (unat n) cmic (ccm_blk_cnt (unat n)) 0 Xn (uninit16 A)
      = Ret (sub_bytes msg (0 * 16) (length ct), mic)"
    by (rule ccm_dec_enc_loop [OF e(5)]) (simp_all add: e(6) byte_at_append_left)
  then have d: "ccm_dec_loop A key nonce out (unat n) cmic (ccm_blk_cnt (unat n)) 0 Xn (uninit16 A)
      = Ret (take (unat n) msg, mic)"
    using e(3,7) by (simp add: sub_bytes_eq_take_drop)
  have mic: "get_be32 out (unat n) = get_be32 mic 0" if "mic_size = 4"
    by (rule be32f.get_local)
      (simp add: that e(6) byte_at_append_right byte_at_take flip: e(7))
  have mic8: "get_be64 out (unat n) = get_be64 mic 0" if "mic_size = 8"
    by (rule be64f.get_local) (simp add: that e(6) byte_at_append_right byte_at_take flip: e(7))
  show ?thesis
    unfolding mesh_crypto_aes_ccm_decrypt_def Let_def n' e(4)
    using n ms e(1,2) len d mic mic8 by (auto simp: cguard_def)
qed

text \<open>Conversely, encrypting what decryption returned gives back the cipher text and the MIC.\<close>

lemma ccm_enc_dec_loop:
  "ccm_dec_loop A key nonce ct L cmic r j Xn mic0 = Ret (out, mic) \<Longrightarrow> r + j = ccm_blk_cnt L \<Longrightarrow>
   (\<And>i. i < length out \<Longrightarrow> byte_at msg (j * 16 + i) = byte_at out i) \<Longrightarrow>
   ccm_enc_loop A key nonce msg L cmic r j Xn mic0 = Ret (sub_bytes ct (j * 16) (length out), mic)"
proof (induction r arbitrary: j Xn mic0 out)
  case 0
  then show ?case by (simp add: sub_bytes_def)
next
  case (Suc r)
  define n where "n = ccm_blk_len L j"
  from Suc.prems(1) obtain Xn' cmsg outs m where
    c: "aes_ecb A key (ccm_block 0x01 nonce (of_nat (j + 1))) = Ret cmsg" and
    m: "m = map (\<lambda>i. byte_at ct (j * 16 + i) XOR byte_at cmsg i) [0..<n]" and
    x: "aes_ecb A key (xor_range Xn [] n 16 0 (xor_range Xn m 0 n 0 [])) = Ret Xn'" and
    rest: "ccm_dec_loop A key nonce ct L cmic r (j + 1) Xn'
          (if j + 1 = ccm_blk_cnt L then xor_bytes cmic Xn' else mic0) = Ret (outs, mic)" and
    out: "out = m @ outs"
    by (auto simp: Let_def cbind_Ret_iff n_def)
  have msg: "byte_at msg (j * 16 + i) = byte_at m i" if "i < n" for i
    using Suc.prems(3) [of i] that by (simp add: out m byte_at_append_left)
  have blk: "xor_range Xn msg 0 n (j * 16) [] = xor_range Xn m 0 n 0 []"
    by (rule byte_at_eqI) (auto simp: byte_at_xor_range msg)
  have ct: "map (\<lambda>i. byte_at msg (j * 16 + i) XOR byte_at cmsg i) [0..<n] = sub_bytes ct (j * 16) n"
    by (rule nth_equalityI) (auto simp: msg m byte_at_def [of "map _ _"])
  have n16: "n = 16" if "outs \<noteq> []"
    using that rest Suc.prems(2) ccm_blk_len_bounds(3) [of j L] by (cases r) (auto simp: n_def)
  have "byte_at msg ((j + 1) * 16 + i) = byte_at outs i" if "i < length outs" for i
  proof -
    have "n = 16" using n16 that by (cases outs) auto
    with Suc.prems(3) [of "n + i"] that byte_at_append_right [of m outs i] show ?thesis
      by (simp add: out m algebra_simps)
  qed
  from Suc.IH [OF rest _ this] Suc.prems(2)
  have IH: "ccm_enc_loop A key nonce msg L cmic r (j + 1) Xn' (if j + 1 = ccm_blk_cnt L then xor_bytes cmic Xn' else mic0)
      = Ret (sub_bytes ct ((j + 1) * 16) (length outs), mic)" by simp
  have cat: "sub_bytes ct (j * 16) n @ sub_bytes ct ((j + 1) * 16) (length outs) = sub_bytes ct (j * 16) (length out)"
  proof (cases "outs = []")
    case False
    then show ?thesis using n16 by (intro nth_equalityI) (auto simp: m out nth_append algebra_simps)
  qed (simp add: m out sub_bytes_def)
  show ?case
    unfolding ccm_enc_loop.simps Let_def n_def [symmetric] blk x cbind.simps c ct IH case_prod_conv cat ..
qed

lemma ccm_dec_loop_length:
  "ccm_dec_loop A key nonce ct L cmic r j Xn mic0 = Ret (out, mic) \<Longrightarrow> r + j = ccm_blk_cnt L \<Longrightarrow>
   length out = L - 16 * j"
proof (induction r arbitrary: j Xn mic0 out)
  case 0
  then show ?case using ccm_blk_cnt_bound [of L] by simp
next
  case (Suc r)
  from Suc.prems(1) obtain Xn' cmsg outs where
    *: "ccm_dec_loop A key nonce ct L cmic r (j + 1) Xn'
          (if j + 1 = ccm_blk_cnt L then xor_bytes cmic Xn' else mic0) = Ret (outs, mic)"
    and out: "out = map (\<lambda>i. byte_at ct (j * 16 + i) XOR byte_at cmsg i) [0..<ccm_blk_len L j] @ outs"
    by (auto simp: Let_def cbind_Ret_iff)
  from Suc.IH [OF *] Suc.prems ccm_blk_len_eq [of j L] show ?case
    by (auto simp: out)
qed

lemma ccm_encrypt_decrypt_core:
  assumes dec: "mesh_crypto_aes_ccm_decrypt A nonce key aad enc True mic_size = Ret (msg, mic)"
    and len: "mic_size \<le> length enc" "length enc < 65536"
  shows "mesh_crypto_aes_ccm_encrypt A nonce key aad (msg @ rest) (of_nat (length enc - mic_size)) mic_size =
      Ret (take (length enc - mic_size) enc @ take mic_size mic, mic)"
    and "length msg = length enc - mic_size"
proof -
  define n :: u16 where "n = of_nat (length enc - mic_size)"
  have n: "of_nat (length enc) - of_nat mic_size = n" "unat n = length enc - mic_size"
    unfolding n_def using len by (simp add: of_nat_diff) (use len in \<open>simp only: unat_of_nat\<close>, simp)
  from dec obtain cmic Xn where
    d: "length aad < 0xff00" "aes_ecb_setup A key" "mic_size = 4 \<or> mic_size = 8"
    "ccm_start A nonce key aad n mic_size = Ret (cmic, Xn)"
    "ccm_dec_loop A key nonce enc (unat n) cmic (ccm_blk_cnt (unat n)) 0 Xn (uninit16 A) = Ret (msg, mic)"
    unfolding mesh_crypto_aes_ccm_decrypt_def Let_def n(1)
    by (auto simp: cbind_Ret_iff split: if_splits)
  from ccm_dec_loop_length [OF d(5)] have lm: "length msg = unat n" by simp
  then show "length msg = length enc - mic_size" using n by simp
  have "ccm_enc_loop A key nonce (msg @ rest) (unat n) cmic (ccm_blk_cnt (unat n)) 0 Xn (uninit16 A) =
      Ret (sub_bytes enc (0 * 16) (length msg), mic)"
    by (rule ccm_enc_dec_loop [OF d(5)]) (simp_all add: byte_at_append_left)
  then show "mesh_crypto_aes_ccm_encrypt A nonce key aad (msg @ rest) (of_nat (length enc - mic_size)) mic_size =
      Ret (take (length enc - mic_size) enc @ take mic_size mic, mic)"
    unfolding n_def [symmetric] using d lm n
    by (auto simp: mesh_crypto_aes_ccm_encrypt_def sub_bytes_eq_take_drop)
qed

section \<open>Reference: counter mode with CBC-MAC\<close>

text \<open>
  RFC 3610 over a block function \<open>E\<close>, with a 13-octet nonce and a two-octet
  length: the CBC-MAC of the first block, the additional data prefixed with its
  length and the message, each padded with zeros to whole blocks; the message
  exclusive-ored with the counter stream; the MAC exclusive-ored with block 0 of
  that stream.
\<close>

function blocks16 :: "bytes \<Rightarrow> bytes list" where
  "blocks16 xs = (if xs = [] then []
     else (take 16 xs @ replicate (16 - length xs) 0) # blocks16 (drop 16 xs))"
  by pat_completeness auto
termination
  by (relation "measure length") auto

fun cbc_mac :: "(bytes \<Rightarrow> bytes) \<Rightarrow> bytes \<Rightarrow> bytes list \<Rightarrow> bytes" where
  "cbc_mac E X [] = X"
| "cbc_mac E X (b # bs) = cbc_mac E (E (xor_bytes X b)) bs"

fun ctr_stream :: "(bytes \<Rightarrow> bytes) \<Rightarrow> bytes \<Rightarrow> nat \<Rightarrow> nat \<Rightarrow> bytes" where
  "ctr_stream E nonce c 0 = []"
| "ctr_stream E nonce c (Suc n) = E (ccm_block 0x01 nonce (of_nat c)) @ ctr_stream E nonce (c + 1) n"

definition ccm_flags :: "bytes \<Rightarrow> nat \<Rightarrow> u8" where
  "ccm_flags aad mic_size = (if aad = [] then 0 else 64) + 8 * of_nat ((mic_size - 2) div 2) + 1"

definition ccm_ref_mac :: "(bytes \<Rightarrow> bytes) \<Rightarrow> bytes \<Rightarrow> bytes \<Rightarrow> bytes \<Rightarrow> nat \<Rightarrow> bytes" where
  "ccm_ref_mac E nonce aad msg mic_size =
     xor_bytes (E (ccm_block 0x01 nonce 0))
       (cbc_mac E (replicate 16 0)
          (ccm_block (ccm_flags aad mic_size) nonce (of_nat (length msg)) #
           (if aad = [] then []
            else blocks16 ([be16_hi (of_nat (length aad)), be16_lo (of_nat (length aad))] @ aad)) @
           blocks16 msg))"

definition ccm_ref :: "(bytes \<Rightarrow> bytes) \<Rightarrow> bytes \<Rightarrow> bytes \<Rightarrow> bytes \<Rightarrow> nat \<Rightarrow> bytes" where
  "ccm_ref E nonce aad msg mic_size =
     xor_bytes msg (ctr_stream E nonce 1 (ccm_blk_cnt (length msg))) @
     take mic_size (ccm_ref_mac E nonce aad msg mic_size)"

text \<open>The kernel answers every block with the function \<open>E\<close>.\<close>

definition ecb_is :: "af_alg \<Rightarrow> bytes \<Rightarrow> (bytes \<Rightarrow> bytes) \<Rightarrow> bool" where
  "ecb_is A key E \<longleftrightarrow> aes_ecb_setup A key \<and> (\<forall>b. ecb_op A key b = Some (E b) \<and> length (E b) = 16)"

lemma ecb_isD: "ecb_is A key E \<Longrightarrow> aes_ecb A key b = Ret (E b)" "ecb_is A key E \<Longrightarrow> length (E b) = 16"
  by (auto simp: ecb_is_def aes_ecb_def)

lemma xor_range_full:
  assumes "length Xn = 16" "j + n \<le> length src" "n \<le> 16"
  shows "xor_range Xn [] n 16 0 (xor_range Xn src 0 n j p) =
    xor_bytes Xn (take n (drop j src) @ replicate (16 - n) 0)"
  using assms
  by (intro nth_equalityI) (auto simp: xor_range_def xor_bytes_def byte_at_def nth_append)

declare blocks16.simps [simp del] ccm_aad_loop.simps [simp del]

lemma blocks16_step:
  "xs \<noteq> [] \<Longrightarrow> n = min 16 (length xs) \<Longrightarrow>
   blocks16 xs = (take n xs @ replicate (16 - n) 0) # blocks16 (drop n xs)"
  by (subst blocks16.simps) (auto simp: min_def)

lemma ctr_block_append:
  assumes "length c = 16" "n = min 16 (length (drop i msg))"
  shows "map (\<lambda>k. byte_at msg (i + k) XOR byte_at c k) [0..<n] @ xor_bytes (drop n (drop i msg)) s =
    xor_bytes (drop i msg) (c @ s)"
proof -
  have "map (\<lambda>k. byte_at msg (i + k) XOR byte_at c k) [0..<n] = xor_bytes (take n (drop i msg)) c"
    using assms by (intro nth_equalityI) (auto simp: xor_bytes_def byte_at_def)
  moreover have "xor_bytes xs (c @ s) = xor_bytes (take n xs) c @ xor_bytes (drop n xs) s"
    if "n = min 16 (length xs)" for xs
    using that assms(1) by (auto simp: xor_bytes_def zip_append2 min_def)
  ultimately show ?thesis using assms(2) by simp
qed

lemma ccm_enc_loop_ref:
  assumes E: "ecb_is A key E"
  shows "r + j = ccm_blk_cnt (length msg) \<Longrightarrow> length Xn = 16 \<Longrightarrow>
    ccm_enc_loop A key nonce msg (length msg) cmic r j Xn mic0 =
      Ret (xor_bytes (drop (16 * j) msg) (ctr_stream E nonce (j + 1) r),
           if r = 0 then mic0 else xor_bytes cmic (cbc_mac E Xn (blocks16 (drop (16 * j) msg))))"
proof (induction r arbitrary: j Xn mic0)
  case 0
  then show ?case using ccm_blk_cnt_bound [of "length msg"] by (simp add: xor_bytes_def)
next
  case (Suc r)
  define n where "n = ccm_blk_len (length msg) j"
  define rest where "rest = drop (16 * j) msg"
  have j: "j < ccm_blk_cnt (length msg)" using Suc.prems by simp
  have n: "n = min 16 (length rest)" "n \<le> 16" "16 * j + n \<le> length msg"
    using ccm_blk_len_eq [OF j] ccm_blk_len_bounds [OF j] by (simp_all add: n_def rest_def)
  have "rest \<noteq> []" using j by (simp add: rest_def less_ccm_blk_cnt)
  then have b: "blocks16 rest = (take n rest @ replicate (16 - n) 0) # blocks16 (drop n rest)"
    by (rule blocks16_step [OF _ n(1)])
  define X' where "X' = E (xor_bytes Xn (take n rest @ replicate (16 - n) 0))"
  have pm: "xor_range Xn [] n 16 0 (xor_range Xn msg 0 n (j * 16) []) =
      xor_bytes Xn (take n rest @ replicate (16 - n) 0)"
    using xor_range_full [of Xn "j * 16" n msg] Suc.prems n by (simp add: rest_def mult.commute)
  have last: "r = 0 \<longleftrightarrow> j + 1 = ccm_blk_cnt (length msg)" using Suc.prems by auto
  have nxt: "drop n rest = drop (16 * (j + 1)) msg"
    using n by (auto simp: rest_def min_def algebra_simps split: if_splits)
  have IH: "ccm_enc_loop A key nonce msg (length msg) cmic r (j + 1) X' m =
      Ret (xor_bytes (drop n rest) (ctr_stream E nonce (j + 2) r),
           if r = 0 then m else xor_bytes cmic (cbc_mac E X' (blocks16 (drop n rest))))" for m
    using Suc.IH [of "j + 1" X' m] Suc.prems ecb_isD(2) [OF E] by (simp add: X'_def nxt)
  define c where "c = E (ccm_block 0x01 nonce (of_nat (j + 1)))"
  have c16: "length c = 16" using ecb_isD(2) [OF E] by (simp add: c_def)
  have ct: "map (\<lambda>i. byte_at msg (j * 16 + i) XOR byte_at c i) [0..<n] @
      xor_bytes (drop n rest) (ctr_stream E nonce (j + 2) r) = xor_bytes rest (c @ ctr_stream E nonce (j + 2) r)"
    using ctr_block_append [OF c16 n(1) [unfolded rest_def]] by (simp add: rest_def mult.commute)
  have bl: "blocks16 (drop n rest) = []" if "r = 0"
    using that Suc.prems less_ccm_blk_cnt [of "j + 1" "length msg"]
    unfolding nxt by (subst blocks16.simps) simp
  show ?case
    unfolding ccm_enc_loop.simps Let_def n_def [symmetric] pm ecb_isD(1) [OF E] cbind.simps
      X'_def [symmetric] c_def [symmetric] IH case_prod_conv ct
    unfolding rest_def [symmetric] b
    using bl last by (auto simp: X'_def c_def)
qed

text \<open>The additional data: from the second block on, the loop and its tail are the CBC-MAC.\<close>

definition ccm_aad_rest :: "af_alg \<Rightarrow> bytes \<Rightarrow> bytes \<Rightarrow> nat \<Rightarrow> bytes \<Rightarrow> bytes \<Rightarrow> nat \<Rightarrow> nat \<Rightarrow> bytes cres" where
  "ccm_aad_rest A key aad n pmsg Xn i j =
     cbind (ccm_aad_loop A key aad n pmsg Xn i j) (\<lambda>(pmsg, Xn, n, j).
       cguard (j + n \<le> length aad)
         (aes_ecb A key (xor_range Xn [] n 16 0 (xor_range Xn aad 0 n j pmsg))))"

lemma ccm_aad_rest_step:
  assumes E: "ecb_is A key E" and n: "n > 16" "j + (16 - i) \<le> length aad"
  shows "ccm_aad_rest A key aad n pmsg Xn i j =
    (let p = xor_range Xn aad i 16 j pmsg in ccm_aad_rest A key aad (n - 16) p (E p) 0 (j + (16 - i)))"
  unfolding ccm_aad_rest_def
  by (subst ccm_aad_loop.simps) (simp add: n ecb_isD(1) [OF E] Let_def)

lemma ccm_aad_rest_ref:
  assumes E: "ecb_is A key E"
  shows "j + n = length aad \<Longrightarrow> 0 < n \<Longrightarrow> length Xn = 16 \<Longrightarrow>
    ccm_aad_rest A key aad n pmsg Xn 0 j = Ret (cbc_mac E Xn (blocks16 (drop j aad)))"
proof (induction n arbitrary: j Xn pmsg rule: less_induct)
  case (less n)
  have ne: "drop j aad \<noteq> []" using less.prems by simp
  have b: "blocks16 (drop j aad) =
      (take (min 16 n) (drop j aad) @ replicate (16 - min 16 n) 0) # blocks16 (drop (min 16 n + j) aad)"
  proof -
    have "min 16 n = min 16 (length (drop j aad))" using less.prems(1) by auto
    from blocks16_step [OF ne this] show ?thesis by simp
  qed
  show ?case
  proof (cases "n > 16")
    case True
    have p: "xor_range Xn aad 0 16 j pmsg = xor_bytes Xn (take 16 (drop j aad))"
      using less.prems True by (intro nth_equalityI) (auto simp: xor_range_def xor_bytes_def byte_at_def)
    show ?thesis
      using less.IH [of "n - 16" "j + 16" "E (xor_bytes Xn (take 16 (drop j aad)))"] True less.prems
        ecb_isD(2) [OF E]
      by (simp add: ccm_aad_rest_step [OF E] p Let_def b add.commute)
  next
    case False
    then have "ccm_aad_loop A key aad n pmsg Xn 0 j = Ret (pmsg, Xn, n, j)"
      by (subst ccm_aad_loop.simps) simp
    moreover have "blocks16 (drop (n + j) aad) = []"
      using less.prems by (subst blocks16.simps) simp
    ultimately show ?thesis
      using False less.prems xor_range_full [of Xn j n aad pmsg]
      by (simp add: ccm_aad_rest_def ecb_isD(1) [OF E] b)
  qed
qed

lemma ccm_aad_ref:
  assumes E: "ecb_is A key E" and len: "15 \<le> length aad" and X0: "length X0 = 16"
  shows "ccm_aad A key aad pmsg0 X0 =
    Ret (cbc_mac E X0 (blocks16 ([be16_hi (of_nat (length aad)), be16_lo (of_nat (length aad))] @ aad)))"
proof -
  define pre where "pre = [be16_hi (of_nat (length aad)), be16_lo (of_nat (length aad))]"
  define p where "p = xor_range X0 aad 2 16 0 (xor_range X0 pre 0 2 0 pmsg0)"
  have p: "p = xor_bytes X0 (pre @ take 14 aad)"
    using X0 len unfolding p_def
    by (intro nth_equalityI) (auto simp: xor_range_def xor_bytes_def byte_at_def nth_append pre_def numeral_2_eq_2 nth_Cons split: nat.splits)
  have "ccm_aad A key aad pmsg0 X0 = ccm_aad_rest A key aad (length aad + 2) (xor_range X0 pre 0 2 0 pmsg0) X0 2 0"
    by (simp add: ccm_aad_def ccm_aad_rest_def Let_def pre_def)
  also have "\<dots> = ccm_aad_rest A key aad (length aad - 14) p (E p) 0 14"
    using len by (subst ccm_aad_rest_step [OF E]) (simp_all add: p_def Let_def)
  also have "\<dots> = Ret (cbc_mac E (E p) (blocks16 (drop 14 aad)))"
    using len ecb_isD(2) [OF E] by (intro ccm_aad_rest_ref [OF E]) auto
  also have "cbc_mac E (E p) (blocks16 (drop 14 aad)) = cbc_mac E X0 (blocks16 (pre @ aad))"
    using len blocks16_step [of "pre @ aad" 16] by (simp add: p pre_def)
  finally show ?thesis by (simp add: pre_def)
qed

lemma ccm_encrypt_ref_core:
  assumes "ecb_is A key E" and "mic_size = 4 \<or> mic_size = 8"
    and "msg \<noteq> []" "length msg < 65536"
    and "aad = [] \<or> 15 \<le> length aad \<and> length aad < 0xff00"
  shows "mesh_crypto_aes_ccm_encrypt A nonce key aad msg (of_nat (length msg)) mic_size =
    Ret (ccm_ref E nonce aad msg mic_size, ccm_ref_mac E nonce aad msg mic_size)"
proof -
  define n :: u16 where "n = of_nat (length msg)"
  have n: "unat n = length msg" using assms(4) by (simp add: n_def unat_of_nat)
  have fl: "(if mic_size = 8 then 0x19 else 0x09) OR (if length aad \<noteq> 0 then 0x40 else 0) = ccm_flags aad mic_size"
    using assms(2) by (auto simp: ccm_flags_def)
  have z: "xor_bytes (replicate 16 0) b = b" if "length b = 16" for b
    using that by (intro nth_equalityI) (auto simp: xor_bytes_def)
  define X0 where "X0 = E (ccm_block (ccm_flags aad mic_size) nonce n)"
  define ablk where "ablk = (if aad = [] then []
            else blocks16 ([be16_hi (of_nat (length aad)), be16_lo (of_nat (length aad))] @ aad))"
  have s: "ccm_start A nonce key aad n mic_size = Ret (E (ccm_block 0x01 nonce 0), cbc_mac E X0 ablk)"
    using assms(5) ecb_isD(2) [OF assms(1)]
    unfolding ccm_start_def Let_def ecb_isD(1) [OF assms(1)] fl cbind.simps
    by (auto simp: X0_def ablk_def ccm_aad_ref [OF assms(1)] simp del: append.simps)
  have len: "length (cbc_mac E X bs) = 16" if "length X = 16" for X bs
    using that ecb_isD(2) [OF assms(1)] by (induction bs arbitrary: X) auto
  have mac: "cbc_mac E X (bs @ cs) = cbc_mac E (cbc_mac E X bs) cs" for X bs cs
    by (induction bs arbitrary: X) auto
  have "ccm_enc_loop A key nonce msg (length msg) (E (ccm_block 0x01 nonce 0)) (ccm_blk_cnt (length msg)) 0
      (cbc_mac E X0 ablk) (uninit16 A) =
    Ret (xor_bytes msg (ctr_stream E nonce 1 (ccm_blk_cnt (length msg))),
         xor_bytes (E (ccm_block 0x01 nonce 0)) (cbc_mac E (cbc_mac E X0 ablk) (blocks16 msg)))"
    using ccm_enc_loop_ref [OF assms(1), of "ccm_blk_cnt (length msg)" 0 msg "cbc_mac E X0 ablk"]
      assms(3) ecb_isD(2) [OF assms(1)] by (simp add: len X0_def ccm_blk_cnt_pos)
  moreover have "xor_bytes (E (ccm_block 0x01 nonce 0)) (cbc_mac E (cbc_mac E X0 ablk) (blocks16 msg)) =
      ccm_ref_mac E nonce aad msg mic_size"
    by (simp add: ccm_ref_mac_def X0_def n_def z mac ablk_def ccm_block_def)
  ultimately show ?thesis
    using assms s unfolding n_def [symmetric]
    by (auto simp: mesh_crypto_aes_ccm_encrypt_def n ccm_ref_def ecb_is_def)
qed

text \<open>With a cipher that answers, encryption of a message without additional data returns.\<close>

lemma ccm_enc_loop_total:
  "ecb_is A key E \<Longrightarrow> \<exists>out mic. ccm_enc_loop A key nonce msg L cmic r j Xn mic0 = Ret (out, mic)"
proof (induction r arbitrary: j Xn mic0)
  case (Suc r)
  note I = Suc.IH [OF Suc.prems]
  show ?case
    unfolding ccm_enc_loop.simps Let_def ecb_isD(1) [OF Suc.prems] cbind.simps
    using I [of "j + 1" _ "if j + 1 = ccm_blk_cnt L then _ else mic0"] by (fastforce simp: cbind_Ret_iff)
qed simp

lemma ccm_encrypt_total:
  assumes "ecb_is A key E" "unat n \<le> length msg" "mic_size \<le> 16"
  shows "\<exists>out mic. mesh_crypto_aes_ccm_encrypt A nonce key [] msg n mic_size = Ret (out, mic)"
proof -
  obtain cmic Xn where s: "ccm_start A nonce key [] n mic_size = Ret (cmic, Xn)"
    by (simp add: ccm_start_def Let_def ecb_isD(1) [OF assms(1)])
  obtain out mic where
    "ccm_enc_loop A key nonce msg (unat n) cmic (ccm_blk_cnt (unat n)) 0 Xn (uninit16 A) = Ret (out, mic)"
    using ccm_enc_loop_total [OF assms(1)] by blast
  with s assms show ?thesis by (auto simp: mesh_crypto_aes_ccm_encrypt_def ecb_is_def)
qed

section \<open>A concrete kernel for evaluation\<close>

text \<open>An invertible toy block function; every system call succeeds.\<close>

definition demo_E :: "bytes \<Rightarrow> bytes \<Rightarrow> bytes" where
  "demo_E k b = map (\<lambda>i. byte_at k i XOR (byte_at b i + of_nat i + byte_at b (15 - i))) [0..<16]"

definition demo_alg :: af_alg where
  "demo_alg = \<lparr>alg_socket = True, alg_bind = (\<lambda>_ _. True), alg_setkey = (\<lambda>_. True),
     alg_setauth = (\<lambda>_. True), alg_accept = True, ecb_op = (\<lambda>k b. Some (demo_E k b)),
     cmac_op = (\<lambda>k m. Some (demo_E k (foldr (\<lambda>x acc. (x + hd acc) # butlast acc) m (replicate 16 1)))),
     uninit16 = replicate 16 0xaa\<rparr>"

lemma demo_alg_wf: "alg_wf demo_alg"
  by (simp add: alg_wf_def demo_alg_def demo_E_def)

lemma demo_alg_ecb: "ecb_is demo_alg key (demo_E key)"
  by (simp add: ecb_is_def demo_alg_def demo_E_def aes_ecb_setup_def alg_new_def)

section \<open>Properties of CCM\<close>

text \<open>
  C19. Decryption undoes encryption. Whenever \<^verbatim>\<open>mesh_crypto_aes_ccm_encrypt\<close>
  succeeds on a non-empty message with a 4- or 8-octet MIC, it writes the cipher
  text followed by the MIC, and \<^verbatim>\<open>mesh_crypto_aes_ccm_decrypt\<close> with the same key,
  nonce and additional data accepts those octets and returns the message.
\<close>

theorem ccm_decrypt_encrypt:
  assumes "alg_wf A" and "mic_size = 4 \<or> mic_size = 8"
    and "msg \<noteq> []" "length msg + mic_size < 65536"
    and "mesh_crypto_aes_ccm_encrypt A nonce key aad msg (of_nat (length msg)) mic_size = Ret (out, mic)"
  shows "length out = length msg + mic_size \<and>
    mesh_crypto_aes_ccm_decrypt A nonce key aad out want_mic mic_size = Ret (msg, mic)"
proof -
  have n: "unat (of_nat (length msg) :: u16) = length msg"
    using assms(4) by (simp add: unat_of_nat)
  have "1 \<le> length msg" using assms(3) by (cases msg) auto
  then show ?thesis
    using ccm_decrypt_encrypt_core [OF assms(1) assms(5)] ccm_encrypt_lengths [OF assms(1,5)] assms(2,4)
    by (simp add: n)
qed

theorem ccm_decrypt_encrypt_witness:
  "\<exists>out mic. mesh_crypto_aes_ccm_encrypt demo_alg (replicate 13 7) (replicate 16 3) [] [1, 2, 3] 3 4 = Ret (out, mic) \<and>
     mesh_crypto_aes_ccm_decrypt demo_alg (replicate 13 7) (replicate 16 3) [] out False 4 = Ret ([1, 2, 3], mic)"
proof -
  have e: "mesh_crypto_aes_ccm_encrypt demo_alg (replicate 13 7) (replicate 16 3) [] [1, 2, 3]
      (of_nat (length [1, 2, 3 :: u8])) 4 =
    Ret (ccm_ref (demo_E (replicate 16 3)) (replicate 13 7) [] [1, 2, 3] 4,
         ccm_ref_mac (demo_E (replicate 16 3)) (replicate 13 7) [] [1, 2, 3] 4)"
    by (rule ccm_encrypt_ref_core [OF demo_alg_ecb]) simp_all
  from ccm_decrypt_encrypt [OF demo_alg_wf _ _ _ e, of False] e show ?thesis by auto
qed

text \<open>
  C20. Encryption computes CCM. With a block cipher that answers, a non-empty
  message and additional data that is absent or at least 15 octets long, the
  octets \<^verbatim>\<open>mesh_crypto_aes_ccm_encrypt\<close> writes are those of the reference
  definition of RFC 3610.
\<close>

theorem ccm_encrypt_is_reference:
  assumes "ecb_is A key E" and "mic_size = 4 \<or> mic_size = 8"
    and "msg \<noteq> []" "length msg < 65536"
    and "aad = [] \<or> 15 \<le> length aad \<and> length aad < 0xff00"
  shows "mesh_crypto_aes_ccm_encrypt A nonce key aad msg (of_nat (length msg)) mic_size =
    Ret (ccm_ref E nonce aad msg mic_size, ccm_ref_mac E nonce aad msg mic_size)"
  using assms by (rule ccm_encrypt_ref_core)

theorem ccm_encrypt_is_reference_witness:
  "mesh_crypto_aes_ccm_encrypt demo_alg (replicate 13 7) [1] (replicate 16 5) [9, 8] (of_nat (length [9, 8 :: u8])) 8 =
     Ret (ccm_ref (demo_E [1]) (replicate 13 7) (replicate 16 5) [9, 8] 8,
          ccm_ref_mac (demo_E [1]) (replicate 13 7) (replicate 16 5) [9, 8] 8)"
  by (rule ccm_encrypt_is_reference [OF demo_alg_ecb]) simp_all

text \<open>
  Short additional data. For one to fourteen octets of additional data the
  tail loop of \<^verbatim>\<open>mesh_crypto_aes_ccm_encrypt\<close> starts again at the first octet of
  the block with a length that already counts the two-octet prefix: it reads
  two octets past the end of the additional data. (The callers in the program
  pass none or sixteen.)
\<close>

lemma ccm_short_aad_overread:
  assumes "ecb_is A key E" and "0 < length aad" "length aad < 15"
  shows "mesh_crypto_aes_ccm_encrypt A nonce key aad msg n mic_size = Fault"
proof -
  have "ccm_aad A key aad p X = Fault" for p X
    using assms(3)
    by (simp add: ccm_aad_def Let_def cguard_def) (subst ccm_aad_loop.simps, simp)
  then have "ccm_start A nonce key aad n mic_size = Fault"
    using assms(2) by (simp add: ccm_start_def Let_def ecb_isD(1) [OF assms(1)])
  with assms show ?thesis by (simp add: mesh_crypto_aes_ccm_encrypt_def ecb_is_def)
qed

lemma ccm_short_aad_overread_witness:
  "mesh_crypto_aes_ccm_encrypt demo_alg (replicate 13 7) [1] [1, 2, 3, 4] [9] 1 4 = Fault"
  by (rule ccm_short_aad_overread [OF demo_alg_ecb]) simp_all

end
