(* ===== verification/Mesh_NetPDU.thy ===== *)
theory Mesh_NetPDU
  imports Mesh_CCM
begin

text \<open>
  The network packet coding, the nonces and the derived identifiers of
  \<^verbatim>\<open>mesh/crypto.c\<close>: round trip of the obfuscated and encrypted packet, the
  checks of the decoder, injectivity of the nonces, and the ranges of the
  derived identifiers and addresses.
\<close>

section \<open>Packet coding: lemmas\<close>

lemma length_xor_header [simp]: "length (xor_header tmp p) = length p"
  by (simp add: xor_header_def)

lemma byte_at_xor_header:
  "i < length p \<Longrightarrow> byte_at (xor_header tmp p) i =
     (if 1 \<le> i \<and> i \<le> 6 then byte_at p i XOR byte_at tmp (i - 1) else byte_at p i)"
  by (simp add: xor_header_def byte_at_def)

lemma xor_header_involutive: "xor_header tmp (xor_header tmp p) = p"
  by (rule byte_at_eqI) (auto simp: byte_at_xor_header)

lemma privacy_counter_xor_header:
  "14 \<le> length p \<Longrightarrow> privacy_counter iv (xor_header tmp p) = privacy_counter iv p"
proof -
  assume "14 \<le> length p"
  then have "sub_bytes (xor_header tmp p) 7 7 = sub_bytes p 7 7"
    by (intro nth_equalityI) (auto simp: byte_at_xor_header)
  then show ?thesis by (simp add: privacy_counter_def)
qed

lemma packet_nonce_header:
  "(\<And>i. i \<le> 6 \<Longrightarrow> byte_at p i = byte_at q i) \<Longrightarrow> packet_nonce proxy p iv = packet_nonce proxy q iv"
  unfolding packet_nonce_def Let_def by simp

lemma memcpy_7: "length out = length p - 7 \<Longrightarrow> 7 \<le> length p \<Longrightarrow> memcpy p 7 out = take 7 p @ out"
  by (simp add: memcpy_def)

lemma pkt_mic_size_cases: "pkt_mic_size p = 4 \<or> pkt_mic_size p = 8"
  by (simp add: pkt_mic_size_def)

lemma put_0_tail:
  "length t = 4 \<Longrightarrow> put_be32 0 (a @ t) (length a) = a @ replicate 4 0"
  "length t = 8 \<Longrightarrow> put_be64 0 (a @ t) (length a) = a @ replicate 8 0"
  using put_be32_append [of 0 a t 0] put_be64_append [of 0 a t 0] put_0_replicate [of t] by simp_all

text \<open>What a successful encoding consists of.\<close>

lemma packet_encode_Ret:
  assumes "mesh_crypto_packet_encode A p nk iv pk = Ret q"
  obtains out mic tmp where
    "14 \<le> length p"
    "mesh_crypto_aes_ccm_encrypt A (packet_nonce (byte_at p 1 AND 0x80 \<noteq> 0 \<and> get_be16 p 7 = 0) p iv) nk []
       (drop 7 p) (of_nat (length p) - 7 - of_nat (pkt_mic_size p)) (pkt_mic_size p) = Ret (out, mic)"
    "aes_ecb_one A pk (privacy_counter iv (memcpy p 7 out)) = Ret tmp"
    "q = xor_header tmp (memcpy p 7 out)"
  using assms by (auto simp: mesh_crypto_packet_encode_def Let_def cbind_Ret_iff)

lemma packet_decode_encode_core:
  assumes wf: "alg_wf A" and enc: "mesh_crypto_packet_encode A p nk iv pk = Ret q"
    and len: "8 + pkt_mic_size p \<le> length p" "length p < 256"
    and src: "get_be16 p 5 \<noteq> 0" "get_be16 p 5 < 0x8000"
    and proxy: "byte_at p 1 AND 0x80 \<noteq> 0 \<Longrightarrow> proxy = (get_be16 p 7 = 0)"
  shows "length q = length p \<and> mesh_crypto_packet_decode A q proxy iv nk pk =
    Ret (take (length p - pkt_mic_size p) p @ replicate (pkt_mic_size p) 0)"
proof -
  define m where "m = pkt_mic_size p"
  define n :: u16 where "n = of_nat (length p) - 7 - of_nat m"
  from enc obtain out mic tmp where
    l14: "14 \<le> length p" and
    e: "mesh_crypto_aes_ccm_encrypt A (packet_nonce (byte_at p 1 AND 0x80 \<noteq> 0 \<and> get_be16 p 7 = 0) p iv) nk []
       (drop 7 p) n m = Ret (out, mic)" and
    t: "aes_ecb_one A pk (privacy_counter iv (memcpy p 7 out)) = Ret tmp" and
    q: "q = xor_header tmp (memcpy p 7 out)"
    unfolding n_def m_def by (rule packet_encode_Ret)
  have m: "m = 4 \<or> m = 8" using pkt_mic_size_cases by (simp add: m_def)
  have n: "unat n = length p - 7 - m"
  proof -
    have "n = of_nat (length p - 7 - m)" using len m_def by (simp add: n_def of_nat_diff)
    then show ?thesis using len by (simp add: unat_of_nat)
  qed
  note L = ccm_encrypt_lengths [OF wf e]
  have lo: "length out = length p - 7" using L(2) n len l14 by (simp add: m_def)
  define p1 where "p1 = memcpy p 7 out"
  have p1: "p1 = take 7 p @ out" "length p1 = length p"
    using memcpy_7 [OF lo] l14 lo by (simp_all add: p1_def)
  have hdr: "byte_at p1 i = byte_at p i" if "i \<le> 6" for i
    using that l14 by (simp add: p1(1) byte_at_append_left byte_at_take)
  have tmp: "aes_ecb_one A pk (privacy_counter iv q) = Ret tmp"
    using privacy_counter_xor_header [of p1 iv tmp] t l14 by (simp add: q p1(2) flip: p1_def)
  have oq: "xor_header tmp q = p1" by (simp add: q xor_header_involutive flip: p1_def)
  have s: "get_be16 p1 5 = get_be16 p 5"
    by (rule be16f.get_local) (rule hdr, simp)
  have mp: "pkt_mic_size p1 = m" "byte_at p1 1 = byte_at p 1" using hdr [of 1] by (simp_all add: pkt_mic_size_def m_def)
  have dq: "drop 7 q = out"
  proof -
    have "drop 7 q = drop 7 p1"
      using l14 by (intro byte_at_eqI) (auto simp: q byte_at_drop byte_at_xor_header p1(2) simp flip: p1_def)
    then show ?thesis using l14 by (simp add: p1(1))
  qed
  have nonce: "packet_nonce (byte_at p1 1 AND 0x80 \<noteq> 0 \<and> proxy) p1 iv =
      packet_nonce (byte_at p 1 AND 0x80 \<noteq> 0 \<and> get_be16 p 7 = 0) p iv"
  proof -
    have "(byte_at p1 1 AND 0x80 \<noteq> 0 \<and> proxy) = (byte_at p 1 AND 0x80 \<noteq> 0 \<and> get_be16 p 7 = 0)"
      unfolding mp(2) using proxy by blast
    then show ?thesis using packet_nonce_header [of p1 p] hdr by simp
  qed
  have dec: "mesh_crypto_aes_ccm_decrypt A (packet_nonce (byte_at p1 1 AND 0x80 \<noteq> 0 \<and> proxy) p1 iv) nk [] out True m
      = Ret (take (unat n) (drop 7 p), mic)"
    unfolding nonce using len n m by (intro ccm_decrypt_encrypt_core [OF wf e]) (auto simp: m_def)
  define o1 where "o1 = memcpy p1 7 (take (unat n) (drop 7 p))"
  have ms: "unat n + m = length p - 7" "length mic = 16" "length (take m mic) = m" "7 + unat n = length p - m"
    using len L l14 n by (auto simp: m_def)
  have "take (7 + unat n) p = take 7 p @ take (unat n) (drop 7 p)" by (rule take_add)
  then have o1: "o1 = take (length p - m) p @ take m mic"
    using l14 n ms L(5) by (simp add: o1_def memcpy_def p1(1) lo add.commute)
  have lo1: "length (take (length p - m) p) = length p - m" by simp
  have g: "get_be32 o1 (length p - 4) = get_be32 mic 0" if "m = 4"
    unfolding o1 by (rule be32f.get_local)
      (use that ms(2) lo1 byte_at_append_right [of "take (length p - m) p" "take m mic"] in \<open>simp add: byte_at_take\<close>)
  have g8: "get_be64 o1 (length p - 8) = get_be64 mic 0" if "m = 8"
    unfolding o1 by (rule be64f.get_local)
      (use that ms(2) lo1 byte_at_append_right [of "take (length p - m) p" "take m mic"] in \<open>simp add: byte_at_take\<close>)
  have "length q = length p" by (simp add: q p1(2) flip: p1_def)
  moreover have "mesh_crypto_packet_decode A q proxy iv nk pk = Ret (take (length p - m) p @ replicate m 0)"
    unfolding mesh_crypto_packet_decode_def Let_def \<open>length q = length p\<close> tmp cbind.simps oq s dq mp(1) dec
      case_prod_conv o1_def [symmetric]
    using src l14 m g g8 put_0_tail [of "take m mic" "take (length p - m) p"] ms(3) lo1
    by (auto simp: o1 not_le)
  ultimately show ?thesis by (simp add: m_def)
qed

lemma packet_decode_Ret:
  assumes "mesh_crypto_packet_decode A q proxy iv nk pk = Ret out"
  obtains tmp msg mic where
    "14 \<le> length q" "aes_ecb_one A pk (privacy_counter iv q) = Ret tmp"
    "get_be16 (xor_header tmp q) 5 \<noteq> 0" "get_be16 (xor_header tmp q) 5 < 0x8000"
    "mesh_crypto_aes_ccm_decrypt A
       (packet_nonce (byte_at (xor_header tmp q) 1 AND 0x80 \<noteq> 0 \<and> proxy) (xor_header tmp q) iv) nk []
       (drop 7 q) True (pkt_mic_size (xor_header tmp q)) = Ret (msg, mic)"
    "pkt_mic_size (xor_header tmp q) = 8 \<longrightarrow>
       get_be64 mic 0 = get_be64 (memcpy (xor_header tmp q) 7 msg) (length q - 8) \<and>
       out = put_be64 0 (memcpy (xor_header tmp q) 7 msg) (length q - 8)"
    "pkt_mic_size (xor_header tmp q) = 4 \<longrightarrow>
       get_be32 mic 0 = get_be32 (memcpy (xor_header tmp q) 7 msg) (length q - 4) \<and>
       out = put_be32 0 (memcpy (xor_header tmp q) 7 msg) (length q - 4)"
proof -
  have x0: "x XOR y = 0 \<longleftrightarrow> x = y" for x y :: "'a::len word"
    by (metis xor_cancel xor.commute xor.left_neutral xor_self_eq)
  show ?thesis
    using assms that pkt_mic_size_cases
    unfolding mesh_crypto_packet_decode_def Let_def
    by (auto simp: cbind_Ret_iff not_le x0 split: if_splits)
qed

lemma xor_header_tail: "7 \<le> length q \<Longrightarrow> drop 7 (xor_header tmp q) = drop 7 q"
  by (rule byte_at_eqI) (auto simp: byte_at_drop byte_at_xor_header)

lemma packet_encode_decode_core:
  assumes wf: "alg_wf A" and dec: "mesh_crypto_packet_decode A q proxy iv nk pk = Ret out"
    and len: "8 + pkt_mic_size out \<le> length q" "length q < 256"
    and proxy: "byte_at out 1 AND 0x80 \<noteq> 0 \<Longrightarrow> proxy = (get_be16 out 7 = 0)"
  shows "mesh_crypto_packet_encode A out nk iv pk = Ret q"
proof -
  from dec obtain tmp msg mic where
    l14: "14 \<le> length q" and t: "aes_ecb_one A pk (privacy_counter iv q) = Ret tmp" and
    src: "get_be16 (xor_header tmp q) 5 \<noteq> 0" "get_be16 (xor_header tmp q) 5 < 0x8000" and
    d: "mesh_crypto_aes_ccm_decrypt A
       (packet_nonce (byte_at (xor_header tmp q) 1 AND 0x80 \<noteq> 0 \<and> proxy) (xor_header tmp q) iv) nk []
       (drop 7 q) True (pkt_mic_size (xor_header tmp q)) = Ret (msg, mic)" and
    m8: "pkt_mic_size (xor_header tmp q) = 8 \<longrightarrow>
       get_be64 mic 0 = get_be64 (memcpy (xor_header tmp q) 7 msg) (length q - 8) \<and>
       out = put_be64 0 (memcpy (xor_header tmp q) 7 msg) (length q - 8)" and
    m4: "pkt_mic_size (xor_header tmp q) = 4 \<longrightarrow>
       get_be32 mic 0 = get_be32 (memcpy (xor_header tmp q) 7 msg) (length q - 4) \<and>
       out = put_be32 0 (memcpy (xor_header tmp q) 7 msg) (length q - 4)"
    by (rule packet_decode_Ret)
  define p1 where "p1 = xor_header tmp q"
  define m where "m = pkt_mic_size p1"
  have m: "m = 4 \<or> m = 8" using pkt_mic_size_cases by (simp add: m_def)
  have p1: "length p1 = length q" "drop 7 p1 = drop 7 q"
    using l14 by (simp_all add: p1_def xor_header_tail)
  have o7: "byte_at (put_be64 0 (memcpy p1 7 msg) (length q - 8)) i = byte_at p1 i"
    "byte_at (put_be32 0 (memcpy p1 7 msg) (length q - 4)) i = byte_at p1 i" if "i \<le> 5" for i
    using that l14 p1(1)
    by (subst be64f.put_other, simp_all add: byte_at_memcpy) (subst be32f.put_other, simp_all add: byte_at_memcpy)
  then have out1: "byte_at out 1 = byte_at p1 1" using m m4 m8 by (auto simp: m_def p1_def)
  then have mo: "pkt_mic_size out = m" by (simp add: m_def pkt_mic_size_def)
  define k where "k = length (drop 7 q) - m"
  have k: "7 + k + m = length q" "1 \<le> k" using len l14 unfolding mo k_def by auto
  note d' = d [folded p1_def, folded m_def]
  have c: "length msg = k"
    "mesh_crypto_aes_ccm_encrypt A (packet_nonce (byte_at p1 1 AND 0x80 \<noteq> 0 \<and> proxy) p1 iv) nk []
       (msg @ replicate m 0) (of_nat k) m = Ret (take k (drop 7 q) @ take m mic, mic)"
    using ccm_encrypt_decrypt_core(1) [OF d', of "replicate m 0", folded k_def]
      ccm_encrypt_decrypt_core(2) [OF d', folded k_def] k len by auto
  have out0: "memcpy p1 7 msg = (take 7 p1 @ msg) @ drop (length q - m) q"
  proof -
    have "drop (7 + k) p1 = drop (7 + k) q"
      using arg_cong [OF p1(2), of "drop k"] by (simp add: add.commute)
    moreover have "7 + k = length q - m" using k(1) by simp
    ultimately show ?thesis using p1(1) k(1) c(1) by (simp add: memcpy_def)
  qed
  have la: "length (take 7 p1 @ msg) = length q - m" "length (drop (length q - m) q) = m"
    using p1 k c(1) l14 by auto
  have out: "out = take 7 p1 @ msg @ replicate m 0"
    using m m4 m8 put_0_tail [of "drop (length q - m) q" "take 7 p1 @ msg"] la
    by (auto simp: out0 simp flip: p1_def m_def)
  have lm: "length mic = 16" by (rule ccm_encrypt_lengths(1) [OF wf c(2)])
  have tail: "byte_at (memcpy p1 7 msg) (length q - m + i) = byte_at q (length q - m + i)" for i
    unfolding out0 using la byte_at_append_right [of "take 7 p1 @ msg"] by (metis byte_at_drop)
  have mic: "take m mic = drop (length q - m) q"
  proof (rule byte_at_eqI)
    fix i assume "i < length (take m mic)"
    then have i: "i < m" by simp
    have "byte_at mic (0 + i) = byte_at (memcpy p1 7 msg) (length q - m + i)"
      using m
    proof
      assume "m = 4" with m4 i show ?thesis
        by (intro get_be32_bytes) (simp_all flip: p1_def m_def)
    next
      assume "m = 8" with m8 i show ?thesis
        by (intro get_be64_bytes) (simp_all flip: p1_def m_def)
    qed
    with i show "byte_at (take m mic) i = byte_at (drop (length q - m) q) i"
      by (simp add: byte_at_take byte_at_drop tail)
  qed (use lm m k in auto)
  have hdr: "byte_at out i = byte_at p1 i" if "i \<le> 6" for i
    using that l14 p1(1) by (simp add: out byte_at_append_left byte_at_take)
  have nonce: "packet_nonce (byte_at out 1 AND 0x80 \<noteq> 0 \<and> get_be16 out 7 = 0) out iv =
      packet_nonce (byte_at p1 1 AND 0x80 \<noteq> 0 \<and> proxy) p1 iv"
  proof -
    have "(byte_at p1 1 AND 0x80 \<noteq> 0 \<and> proxy) = (byte_at out 1 AND 0x80 \<noteq> 0 \<and> get_be16 out 7 = 0)"
      unfolding out1 [symmetric] using proxy by blast
    then show ?thesis using packet_nonce_header [of out p1] hdr by simp
  qed
  have lo: "length out = length q" "drop 7 out = msg @ replicate m 0" "take 7 out = take 7 p1"
    using k c(1) p1(1) l14 by (simp_all add: out)
  have n: "of_nat (length q) - 7 - of_nat m = (of_nat k :: u16)"
    by (simp flip: k(1))
  have "take k (drop 7 q) @ take m mic = drop 7 q"
    unfolding mic using k(1) by (metis append_take_drop_id drop_drop add_diff_cancel_right' add.commute)
  then have p1': "memcpy out 7 (take k (drop 7 q) @ take m mic) = p1"
    using l14 lo p1 by (simp add: memcpy_def) (metis append_take_drop_id)
  show ?thesis
    unfolding mesh_crypto_packet_encode_def Let_def mo nonce lo n c(2) cbind.simps case_prod_conv p1'
    using t l14 privacy_counter_xor_header [of q iv tmp]
    by (simp add: p1_def xor_header_involutive)
qed

section \<open>Nonces: lemmas\<close>

lemma seq_nonce_list:
  "seq_nonce ty seq src dst iv aszmic =
     [ty, if aszmic then 0x80 else 0x00,
      ucast (drop_bit 16 seq), ucast (drop_bit 8 seq), ucast seq,
      be16_hi src, be16_lo src, be16_hi dst, be16_lo dst,
      be16_hi (ucast (drop_bit 16 iv)), be16_lo (ucast (drop_bit 16 iv)), be16_hi (ucast iv), be16_lo (ucast iv)]"
proof -
  have m: "(0x00ff0000 :: u32) = push_bit 16 (mask 8)" "(0x0000ff00 :: u32) = push_bit 8 (mask 8)"
    "(0x000000ff :: u32) = mask 8" "(0xff00 :: u16) = push_bit 8 (mask 8)" "(0x00ff :: u16) = mask 8"
    by (simp_all add: push_bit_eq_mult mask_eq_exp_minus_1)
  have 1: "(ucast (drop_bit 16 (seq AND 0x00ff0000)) :: u8) = ucast (drop_bit 16 seq)"
    unfolding m by (rule bit_word_eqI) (auto simp: bit_simps)
  have 2: "(ucast (drop_bit 8 (seq AND 0x0000ff00)) :: u8) = ucast (drop_bit 8 seq)"
    unfolding m by (rule bit_word_eqI) (auto simp: bit_simps)
  have 3: "(ucast (seq AND 0x000000ff) :: u8) = ucast seq"
    unfolding m by (rule bit_word_eqI) (auto simp: bit_simps)
  have 4: "(ucast (drop_bit 8 (v AND 0xff00)) :: u8) = be16_hi v" "(ucast (v AND 0x00ff) :: u8) = be16_lo v" for v :: u16
    unfolding m be16_hi_def be16_lo_def by (rule bit_word_eqI; auto simp: bit_simps)+
  show ?thesis
    unfolding seq_nonce_def 1 2 3 4
    by (simp add: put_be32_def put_be16_def eval_nat_numeral)
qed

lemma network_nonce_list:
  "mesh_crypto_network_nonce ctl ttl seq src iv =
     [0, (ttl AND 0x7f) OR (if ctl then 0x80 else 0x00),
      ucast (drop_bit 16 seq), ucast (drop_bit 8 seq), ucast seq,
      be16_hi src, be16_lo src, 0, 0,
      be16_hi (ucast (drop_bit 16 iv)), be16_lo (ucast (drop_bit 16 iv)), be16_hi (ucast iv), be16_lo (ucast iv)]"
proof -
  have m: "(0xff :: u32) = mask 8" by (simp add: mask_eq_exp_minus_1)
  have 1: "(ucast (v AND 0xff) :: u8) = ucast v" for v :: u32
    unfolding m by (rule bit_word_eqI) (auto simp: bit_simps)
  show ?thesis
    unfolding mesh_crypto_network_nonce_def 1 Let_def
    by (simp add: put_be32_def put_be16_def eval_nat_numeral be16_hi_def be16_lo_def)
qed

lemma seq24_eqI:
  assumes "(ucast (drop_bit 16 s) :: u8) = ucast (drop_bit 16 s')"
    "(ucast (drop_bit 8 s) :: u8) = ucast (drop_bit 8 s')" "(ucast s :: u8) = ucast s'"
  shows "s AND 0xffffff = (s' AND 0xffffff :: u32)"
proof -
  have m: "(0xffffff :: u32) = mask 24" by (simp add: mask_eq_exp_minus_1)
  have "s AND mask 24 = push_bit 16 (ucast (ucast (drop_bit 16 s) :: u8)) OR
      push_bit 8 (ucast (ucast (drop_bit 8 s) :: u8)) OR ucast (ucast s :: u8)" for s :: u32
  proof (rule bit_word_eqI)
    fix n assume "n < LENGTH(32)"
    consider "n < 8" | "8 \<le> n" "n < 16" | "16 \<le> n" "n < 24" | "24 \<le> n" by linarith
    then show "bit (s AND mask 24) n = bit (push_bit 16 (ucast (ucast (drop_bit 16 s) :: u8)) OR
        push_bit 8 (ucast (ucast (drop_bit 8 s) :: u8)) OR ucast (ucast s :: u8) :: u32) n"
      by cases (auto simp: bit_simps)
  qed
  with assms show ?thesis by (simp only: m)
qed

lemma iv_eqI:
  assumes "be16_hi (ucast (drop_bit 16 iv)) = be16_hi (ucast (drop_bit 16 iv'))"
    "be16_lo (ucast (drop_bit 16 iv)) = be16_lo (ucast (drop_bit 16 iv'))"
    "be16_hi (ucast iv) = be16_hi (ucast iv')" "be16_lo (ucast iv) = be16_lo (ucast iv')"
  shows "iv = (iv' :: u32)"
proof -
  have "(ucast (drop_bit 16 iv) :: u16) = ucast (drop_bit 16 iv')" "(ucast iv :: u16) = ucast iv'"
    using assms be16_bytes_inject by blast+
  then show ?thesis by (metis word32_halves)
qed

lemma ctl_ttl_eqI:
  assumes "(t AND 0x7f) OR (if c then 0x80 else 0x00) = (t' AND 0x7f) OR (if c' then 0x80 else (0x00 :: u8))"
  shows "c = c' \<and> t AND 0x7f = t' AND 0x7f"
proof -
  have m: "(0x7f :: u8) = mask 7" by (simp add: mask_eq_exp_minus_1)
  have "(0x80 :: u8) = 2 ^ 7" by simp
  then have b80: "bit (0x80 :: u8) n \<longleftrightarrow> n = 7" for n
    by (simp only: bit_exp_iff possible_bit_word) auto
  have "bit ((t AND 0x7f) OR (if c then 0x80 else 0x00)) 7 = c" for t :: u8 and c
    unfolding m by (auto simp: bit_simps b80)
  moreover have "((t AND 0x7f) OR (if c then 0x80 else 0x00)) AND 0x7f = t AND 0x7f" for t :: u8 and c
    unfolding m by (rule bit_word_eqI) (auto simp: bit_and_iff bit_or_iff bit_mask_iff b80 simp del: bit_numeral_word_iff split: if_splits)
  ultimately show ?thesis using assms by metis
qed

lemma network_nonce_inject:
  assumes "mesh_crypto_network_nonce c t s a i = mesh_crypto_network_nonce c' t' s' a' i'"
  shows "c = c' \<and> t AND 0x7f = t' AND 0x7f \<and> s AND 0xffffff = s' AND 0xffffff \<and> a = a' \<and> i = i'"
  using assms unfolding network_nonce_list list.inject
  by (elim conjE) (intro conjI seq24_eqI iv_eqI be16_bytes_inject ctl_ttl_eqI [THEN conjunct1] ctl_ttl_eqI [THEN conjunct2])

lemma seq_nonce_inject:
  assumes "seq_nonce ty s a d i z = seq_nonce ty' s' a' d' i' z'"
  shows "ty = ty' \<and> s AND 0xffffff = s' AND 0xffffff \<and> a = a' \<and> d = d' \<and> i = i' \<and> z = z'"
proof -
  have "z = z'" if "(if z then 0x80 else 0x00 :: u8) = (if z' then 0x80 else 0x00)"
    using that by (simp split: if_splits)
  with assms show ?thesis unfolding seq_nonce_list list.inject
    by (elim conjE) (intro conjI seq24_eqI iv_eqI be16_bytes_inject)
qed

lemma network_seq_nonce: "ty \<noteq> 0 \<Longrightarrow> mesh_crypto_network_nonce c t s a i \<noteq> seq_nonce ty s' a' d' i' z'"
  by (simp add: network_nonce_list seq_nonce_list)

section \<open>Properties of packets, nonces and derived identifiers\<close>

text \<open>With a cipher that answers for every key, encoding returns.\<close>

lemma packet_encode_total:
  assumes E: "\<And>k. ecb_is A k (E k)" and len: "14 \<le> length p" "7 + pkt_mic_size p \<le> length p" "length p < 256"
  shows "\<exists>q. mesh_crypto_packet_encode A p nk iv pk = Ret q"
proof -
  define n :: u16 where "n = of_nat (length p) - 7 - of_nat (pkt_mic_size p)"
  obtain k where k: "length p = 7 + pkt_mic_size p + k" using len(2) le_Suc_ex by blast
  have "unat n = k" unfolding n_def k using unat_of_nat_u16 [of k] k len(3) by simp
  then have "unat n \<le> length (drop 7 p)" using k by simp
  moreover have "pkt_mic_size p \<le> 16" using pkt_mic_size_cases [of p] by auto
  ultimately obtain out mic where
    "mesh_crypto_aes_ccm_encrypt A (packet_nonce (byte_at p 1 AND 0x80 \<noteq> 0 \<and> get_be16 p 7 = 0) p iv) nk []
       (drop 7 p) n (pkt_mic_size p) = Ret (out, mic)"
    using ccm_encrypt_total [OF E [of nk]] by blast
  with len(1) E [of pk] show ?thesis
    by (simp add: mesh_crypto_packet_encode_def Let_def n_def aes_ecb_one_def ecb_is_def ecb_isD(1) [OF E])
qed

definition demo_packet :: bytes where
  "demo_packet = [0x12, 0x05, 0, 0, 7, 0x12, 0x34, 0xc0, 0x01, 0x40, 0xaa, 0xbb, 0, 0, 0, 0]"

lemma demo_packet_facts:
  "pkt_mic_size demo_packet = 4" "length demo_packet = 16" "get_be16 demo_packet 5 \<noteq> 0"
  "get_be16 demo_packet 5 < 0x8000" "IS_UNICAST (get_be16 demo_packet 5)"
  "byte_at demo_packet (Suc 0) AND 0x80 = 0" "take 12 demo_packet @ replicate 4 0 = demo_packet"
  by code_simp+

lemma demo_packet_encodes: "\<exists>q. mesh_crypto_packet_encode demo_alg demo_packet [1] 5 [2] = Ret q"
  by (rule packet_encode_total [OF demo_alg_ecb]) (simp_all add: demo_packet_facts)

lemma demo_packet_decodes:
  assumes "mesh_crypto_packet_encode demo_alg demo_packet [1] 5 [2] = Ret q"
  shows "mesh_crypto_packet_decode demo_alg q False 5 [1] [2] = Ret demo_packet \<and> length q = 16"
  using packet_decode_encode_core [OF demo_alg_wf assms, of False] by (simp add: demo_packet_facts)

text \<open>
  C17. Network packets round-trip. A packet from a unicast source, with at least
  one octet after its seven-octet header, that \<^verbatim>\<open>mesh_crypto_packet_encode\<close>
  encrypted and obfuscated is recovered by \<^verbatim>\<open>mesh_crypto_packet_decode\<close> under the
  same keys and IV index, up to the MIC, which the decoder zeroes. For a control
  packet the decoder's \<^verbatim>\<open>proxy\<close> argument has to be true exactly when the
  destination is the unassigned address, which is how the encoder recognises a
  proxy configuration message.
\<close>

theorem network_packet_round_trip:
  assumes "alg_wf A" and "mesh_crypto_packet_encode A p nk iv pk = Ret q"
    and "8 + pkt_mic_size p \<le> length p" "length p < 256"
    and "IS_UNICAST (get_be16 p 5)"
    and "byte_at p 1 AND 0x80 \<noteq> 0 \<longrightarrow> proxy = (get_be16 p 7 = 0)"
  shows "length q = length p \<and>
    mesh_crypto_packet_decode A q proxy iv nk pk =
      Ret (take (length p - pkt_mic_size p) p @ replicate (pkt_mic_size p) 0)"
proof -
  from assms(5) have "get_be16 p 5 \<noteq> 0" "get_be16 p 5 < 0x8000" by (auto simp: IS_UNICAST_def)
  with assms show ?thesis by (intro packet_decode_encode_core) auto
qed

theorem network_packet_round_trip_witness:
  "\<exists>q. mesh_crypto_packet_encode demo_alg demo_packet [1] 5 [2] = Ret q \<and>
     mesh_crypto_packet_decode demo_alg q False 5 [1] [2] = Ret demo_packet"
proof -
  obtain q where q: "mesh_crypto_packet_encode demo_alg demo_packet [1] 5 [2] = Ret q"
    using demo_packet_encodes by blast
  from network_packet_round_trip [OF demo_alg_wf q, of False] q show ?thesis
    by (auto simp: demo_packet_facts)
qed

lemma packet_decode_checks:
  assumes "mesh_crypto_packet_decode A q proxy iv nk pk = Ret out"
  shows "14 \<le> length q \<and> length out = length q \<and> IS_UNICAST (get_be16 out 5)"
proof -
  from assms obtain tmp msg mic where
    l: "14 \<le> length q" and s: "get_be16 (xor_header tmp q) 5 \<noteq> 0" "get_be16 (xor_header tmp q) 5 < 0x8000" and
    d: "mesh_crypto_aes_ccm_decrypt A
       (packet_nonce (byte_at (xor_header tmp q) 1 AND 0x80 \<noteq> 0 \<and> proxy) (xor_header tmp q) iv) nk []
       (drop 7 q) True (pkt_mic_size (xor_header tmp q)) = Ret (msg, mic)" and
    m8: "pkt_mic_size (xor_header tmp q) = 8 \<longrightarrow> out = put_be64 0 (memcpy (xor_header tmp q) 7 msg) (length q - 8)" and
    m4: "pkt_mic_size (xor_header tmp q) = 4 \<longrightarrow> out = put_be32 0 (memcpy (xor_header tmp q) 7 msg) (length q - 4)"
    by (rule packet_decode_Ret) auto
  have l8: "15 \<le> length q" if m: "pkt_mic_size (xor_header tmp q) = 8"
  proof (rule ccontr)
    assume "\<not> 15 \<le> length q"
    with l have "length (drop 7 q) = 7" by simp
    with d show False unfolding m mesh_crypto_aes_ccm_decrypt_def Let_def by (auto simp: cbind_Ret_iff unsigned_minus_1_eq_mask mask_eq_exp_minus_1 split: if_splits)
  qed
  have "byte_at out i = byte_at (xor_header tmp q) i \<and> length out = length q" if "i \<le> 6" for i
    using pkt_mic_size_cases [of "xor_header tmp q"]
  proof
    assume "pkt_mic_size (xor_header tmp q) = 4"
    with m4 l that show ?thesis by (simp, subst be32f.put_other) (simp_all add: byte_at_memcpy)
  next
    assume "pkt_mic_size (xor_header tmp q) = 8"
    with m8 l8 l that show ?thesis by (simp, subst be64f.put_other) (simp_all add: byte_at_memcpy)
  qed
  from this [of 5] this [of 6] have "get_be16 out 5 = get_be16 (xor_header tmp q) 5" "length out = length q"
    by (simp_all add: get_be16_def)
  with l s show ?thesis by (simp add: IS_UNICAST_def word_gt_0)
qed



text \<open>
  The decoder's checks. An accepted packet has at least 14 octets, keeps its
  length, and its decoded source is a unicast address.
\<close>

lemma network_packet_source_checked:
  assumes "mesh_crypto_packet_decode A q proxy iv nk pk = Ret out"
  shows "14 \<le> length q \<and> length out = length q \<and> IS_UNICAST (get_be16 out 5)"
  by (rule packet_decode_checks [OF assms])

lemma network_packet_source_checked_witness:
  "\<exists>q. mesh_crypto_packet_decode demo_alg q False 5 [1] [2] = Ret demo_packet \<and>
     14 \<le> length q \<and> length demo_packet = length q \<and> IS_UNICAST (get_be16 demo_packet 5)"
proof -
  obtain q where "mesh_crypto_packet_encode demo_alg demo_packet [1] 5 [2] = Ret q"
    using demo_packet_encodes by blast
  then have d: "mesh_crypto_packet_decode demo_alg q False 5 [1] [2] = Ret demo_packet"
    using demo_packet_decodes by blast
  with network_packet_source_checked [OF d] show ?thesis by blast
qed

text \<open>
  A 14-octet control packet. The length check of
  \<^verbatim>\<open>mesh_crypto_packet_decode\<close> admits packets of 14 octets, but a packet whose
  deobfuscated header has the control bit carries an 8-octet MIC: only seven
  octets follow the header, \<^verbatim>\<open>msg_len\<close> wraps to 65535 and the decryption runs
  past the packet. At 15 octets the message is empty, no block is processed and
  the MIC that is compared was never computed.
\<close>

lemma short_control_packet_overread:
  assumes "ecb_is A pk E" "ecb_is A nk F" and "length q = 14"
    and "byte_at (xor_header (E (privacy_counter iv q)) q) 1 AND 0x80 \<noteq> 0"
    and "IS_UNICAST (get_be16 (xor_header (E (privacy_counter iv q)) q) 5)"
  shows "mesh_crypto_packet_decode A q proxy iv nk pk = Fault"
proof -
  have m: "pkt_mic_size (xor_header (E (privacy_counter iv q)) q) = 8" using assms(4) by (simp add: pkt_mic_size_def)
  have "mesh_crypto_aes_ccm_decrypt A nonce nk [] (drop 7 q) True 8 = Fault" for nonce
    using assms(2,3) by (simp add: mesh_crypto_aes_ccm_decrypt_def Let_def ccm_start_def ecb_isD(1) [OF assms(2)]
        ecb_is_def cguard_def unsigned_minus_1_eq_mask mask_eq_exp_minus_1)
  with assms(1,3,5) show ?thesis
    by (auto simp: mesh_crypto_packet_decode_def Let_def aes_ecb_one_def ecb_isD(1) [OF assms(1)] m
        ecb_is_def IS_UNICAST_def)
qed

lemma short_control_packet_overread_witness:
  "mesh_crypto_packet_decode demo_alg
     [0x12, 0x80, 0, 0, 7, 0x12, 0x34, 0, 0, 0, 0, 0, 0, 0] False 0 [1] [] = Fault"
  by (rule short_control_packet_overread [OF demo_alg_ecb demo_alg_ecb]) code_simp+

text \<open>
  C33. Nonces. Each of the network, application and device nonces determines the
  values it was built from (the sequence number modulo \<open>2\<^sup>24\<close>, the TTL modulo
  \<open>2\<^sup>7\<close>), and nonces of different kinds differ, so no two messages of a node
  share a nonce unless they share sequence number and IV index.
\<close>

theorem nonces_injective:
  "(mesh_crypto_network_nonce c t s a i = mesh_crypto_network_nonce c' t' s' a' i' \<longrightarrow>
      c = c' \<and> t AND 0x7f = t' AND 0x7f \<and> s AND 0xffffff = s' AND 0xffffff \<and> a = a' \<and> i = i') \<and>
   (mesh_crypto_application_nonce s a d i z = mesh_crypto_application_nonce s' a' d' i' z' \<longrightarrow>
      s AND 0xffffff = s' AND 0xffffff \<and> a = a' \<and> d = d' \<and> i = i' \<and> z = z') \<and>
   (mesh_crypto_device_nonce s a d i z = mesh_crypto_device_nonce s' a' d' i' z' \<longrightarrow>
      s AND 0xffffff = s' AND 0xffffff \<and> a = a' \<and> d = d' \<and> i = i' \<and> z = z') \<and>
   mesh_crypto_network_nonce c t s a i \<noteq> mesh_crypto_application_nonce s' a' d' i' z' \<and>
   mesh_crypto_network_nonce c t s a i \<noteq> mesh_crypto_device_nonce s' a' d' i' z' \<and>
   mesh_crypto_application_nonce s a d i z \<noteq> mesh_crypto_device_nonce s' a' d' i' z'"
proof -
  have ty: "(0x01 :: u8) \<noteq> 0" "(0x02 :: u8) \<noteq> 0" "(0x01 :: u8) \<noteq> 0x02" by simp_all
  show ?thesis
    unfolding mesh_crypto_application_nonce_def mesh_crypto_device_nonce_def
    by (intro conjI impI network_nonce_inject network_seq_nonce ty;
        use seq_nonce_inject ty in blast)
qed

theorem nonces_injective_witness:
  "mesh_crypto_network_nonce True 5 0x01000007 0x1234 9 = mesh_crypto_network_nonce True 0x85 7 0x1234 9 \<and>
   (0x01000007 :: u32) AND 0xffffff = 7 AND 0xffffff"
proof -
  have e: "mesh_crypto_network_nonce True 5 0x01000007 0x1234 9 = mesh_crypto_network_nonce True 0x85 7 0x1234 9"
    by (simp add: network_nonce_list drop_bit_eq_div)
  with nonces_injective [of True 5 "0x01000007" "0x1234" 9 True "0x85" 7 "0x1234" 9] show ?thesis
    by (intro conjI) simp_all
qed

text \<open>
  The network identifier of \<^verbatim>\<open>mesh_crypto_k2\<close> fits in seven bits, the
  application key identifier of \<^verbatim>\<open>mesh_crypto_k4\<close> in six, and the address of a
  virtual label lies in the virtual address range.
\<close>

lemma derived_identifier_ranges:
  "(mesh_crypto_k2 A n p = Ret (nid, ek, pk) \<longrightarrow> nid < 0x80) \<and>
   (mesh_crypto_k4 A a = Ret aid \<longrightarrow> aid < 0x40) \<and>
   (mesh_crypto_virtual_addr A label = Ret addr \<longrightarrow> IS_VIRTUAL addr)"
proof -
  have m: "(0x7f :: u8) = mask 7" "(0x3f :: u8) = mask 6" "(0x3fff :: u16) = mask 14"
    by (simp_all add: mask_eq_exp_minus_1)
  have a: "unat (x AND 0x7f) < 128" "unat (x AND 0x3f) < 64" for x :: u8
    using unat_and_mask [of x 7] unat_and_mask [of x 6] by (simp_all add: m)
  have v: "IS_VIRTUAL ((x AND 0x3fff) OR 0x8000)" for x :: u16
  proof -
    have "(0x8000 :: u16) = 2 ^ 15" by simp
    then have "bit (0x8000 :: u16) n \<longleftrightarrow> n = 15" for n
      by (simp only: bit_exp_iff possible_bit_word) auto
    then have "(x AND mask 14) AND 0x8000 = 0"
      by (intro bit_word_eqI) (auto simp: bit_and_iff bit_mask_iff simp del: bit_numeral_word_iff)
    then have "(x AND mask 14) OR 0x8000 = (x AND mask 14) + 0x8000" by (rule disjunctive_add_eq_or [symmetric])
    moreover have "unat (x AND mask 14) < 16384" using unat_and_mask [of x 14] by simp
    ultimately show ?thesis
      unfolding m IS_VIRTUAL_def by (simp add: word_le_nat_alt unat_word_ariths)
  qed
  show ?thesis
  proof (intro conjI impI)
    assume "mesh_crypto_k2 A n p = Ret (nid, ek, pk)"
    then show "nid < 0x80"
      using a by (auto simp: mesh_crypto_k2_def cbind_Ret_iff Let_def word_less_nat_alt split: if_splits)
  next
    assume "mesh_crypto_k4 A a = Ret aid"
    then show "aid < 0x40" using a by (auto simp: mesh_crypto_k4_def cbind_Ret_iff word_less_nat_alt)
  next
    assume "mesh_crypto_virtual_addr A label = Ret addr"
    then show "IS_VIRTUAL addr" using v by (auto simp: mesh_crypto_virtual_addr_def cbind_Ret_iff)
  qed
qed

lemma derived_identifier_ranges_witness:
  "case mesh_crypto_virtual_addr demo_alg (replicate 16 7) of Ret addr \<Rightarrow> IS_VIRTUAL addr | _ \<Rightarrow> False"
proof -
  obtain addr where a: "mesh_crypto_virtual_addr demo_alg (replicate 16 7) = Ret addr"
    by (simp add: mesh_crypto_virtual_addr_def mesh_crypto_s1_def aes_cmac_one_def aes_cmac_setup_def alg_new_def
        aes_cmac_def demo_alg_def CMAC_MSG_MAX_def str_bytes_def)
  with derived_identifier_ranges [of demo_alg _ _ _ _ _ _ _ "replicate 16 7" addr] show ?thesis by simp
qed

text \<open>
  Node identity. The sixteen octets \<^verbatim>\<open>mesh_crypto_identity\<close> produces for a
  network key and an address, whatever the random octets were, are accepted by
  \<^verbatim>\<open>mesh_crypto_identity_check\<close> for that key and address.
\<close>

lemma identity_check_accepts:
  assumes "alg_wf A" and "length ident = 16"
    and "mesh_crypto_identity A rnd net_key addr ident = Ret ident'"
  shows "length ident' = 16 \<and> mesh_crypto_identity_check A net_key addr ident' = Ret ident'"
proof -
  define tmp0 where "tmp0 = put_be16 addr (replicate 16 0) 14"
  have l0: "length tmp0 = 16" by (simp add: tmp0_def)
  define r where "r = sub_bytes rnd 0 8"
  have lr: "length r = 8" by (simp add: r_def)
  from assms(3) obtain id_key tmp where
    k: "mesh_crypto_nkik A net_key = Ret id_key" and
    e: "aes_ecb_one A id_key (memcpy tmp0 6 r) = Ret tmp" and
    i: "ident' = memcpy (memcpy ident 8 (sub_bytes (memcpy tmp0 6 r) 6 8)) 0 (sub_bytes tmp 8 8)"
    by (auto simp: mesh_crypto_identity_def identity_calc_def cbind_Ret_iff Let_def tmp0_def r_def)
  have "sub_bytes (memcpy tmp0 6 r) 6 8 = r"
    by (rule byte_at_eqI) (auto simp: byte_at_sub_bytes byte_at_memcpy l0 lr byte_at_nth [of _ r])
  then have i: "ident' = memcpy (memcpy ident 8 r) 0 (sub_bytes tmp 8 8)" using i by simp
  have hi: "sub_bytes ident' 8 8 = r" and lo: "sub_bytes ident' 0 8 = sub_bytes tmp 8 8" and len: "length ident' = 16"
    using assms(2) lr
    by (auto simp: i byte_at_sub_bytes byte_at_memcpy byte_at_nth [of _ r] intro!: byte_at_eqI)
  from k e show ?thesis
    by (simp add: mesh_crypto_identity_check_def identity_calc_def Let_def hi lo len flip: tmp0_def)
qed

lemma identity_check_accepts_witness:
  "\<exists>i. mesh_crypto_identity demo_alg [1, 2, 3, 4, 5, 6, 7, 8] (replicate 16 7) 0x0100 (replicate 16 0) = Ret i \<and>
     mesh_crypto_identity_check demo_alg (replicate 16 7) 0x0100 i = Ret i"
proof -
  obtain i where "mesh_crypto_identity demo_alg [1, 2, 3, 4, 5, 6, 7, 8] (replicate 16 7) 0x0100 (replicate 16 0) = Ret i"
    by (simp add: mesh_crypto_identity_def identity_calc_def mesh_crypto_nkik_def crypto_128_def mesh_crypto_k1_def
        mesh_crypto_s1_def aes_cmac_one_def aes_cmac_setup_def alg_new_def aes_cmac_def demo_alg_def CMAC_MSG_MAX_def
        str_bytes_def aes_ecb_one_def aes_ecb_setup_def aes_ecb_def Let_def)
  with identity_check_accepts [OF demo_alg_wf _ this] show ?thesis by auto
qed

end
