(* ===== verification/Mesh_Keys.thy ===== *)
theory Mesh_Keys
  imports Mesh_NetPDU
begin

text \<open>
  The key store of \<^verbatim>\<open>mesh/net.c\<close>: network keys and application keys by index,
  each with a current and a new version for the key refresh procedure.

  Both lists are GLib lists searched by index. \<^verbatim>\<open>g_new\<close> does not clear memory:
  what a freshly allocated entry held before is the argument \<open>junk\<close>.
\<close>

section \<open>State\<close>

record net_key_parts =
  nid :: u8
  enc_key :: bytes
  privacy_key :: bytes
  net_key :: bytes
  beacon_key :: bytes
  net_id :: bytes

record mesh_net_key =
  nk_idx :: u16
  phase :: u8
  nk_current :: net_key_parts
  nk_new :: net_key_parts

record app_key_parts =
  key :: bytes
  akf_aid :: u8

record mesh_app_key =
  ak_idx :: u16
  ak_net_idx :: u16
  ak_current :: app_key_parts
  ak_new :: app_key_parts

record key_store =
  net_keys :: "mesh_net_key list"
  app_keys :: "mesh_app_key list"

definition AKF_BIT :: u8 where [mesh_defs]: "AKF_BIT = 0x40"
definition KR_PHASE_NONE :: u8 where [mesh_defs]: "KR_PHASE_NONE = 0"
definition KR_PHASE_INVALID :: u8 where [mesh_defs]: "KR_PHASE_INVALID = 0xff"

section \<open>Lookup\<close>

definition match_net_id :: "bytes \<Rightarrow> mesh_net_key \<Rightarrow> bool" where
  "match_net_id ident nk \<longleftrightarrow>
     (nid (nk_current nk) \<noteq> 0xff \<and> net_id (nk_current nk) = ident) \<or>
     (nid (nk_new nk) \<noteq> 0xff \<and> net_id (nk_new nk) = ident)"

definition find_net_key_by_id :: "key_store \<Rightarrow> bytes \<Rightarrow> mesh_net_key option" where
  "find_net_key_by_id ks ident = find (match_net_id ident) (net_keys ks)"

definition net_validate_proxy_beacon :: "key_store \<Rightarrow> bytes \<Rightarrow> u16" where
  "net_validate_proxy_beacon ks proxy_beacon =
     (case find_net_key_by_id ks (sub_bytes proxy_beacon 0 8) of
        None \<Rightarrow> NET_IDX_INVALID | Some nk \<Rightarrow> nk_idx nk)"

definition find_net_key_by_idx :: "key_store \<Rightarrow> u16 \<Rightarrow> mesh_net_key option" where
  "find_net_key_by_idx ks net_idx = find (\<lambda>nk. nk_idx nk = net_idx) (net_keys ks)"

definition find_app_key_by_idx :: "key_store \<Rightarrow> u16 \<Rightarrow> mesh_app_key option" where
  "find_app_key_by_idx ks app_idx = find (\<lambda>ak. ak_idx ak = app_idx) (app_keys ks)"

text \<open>\<^verbatim>\<open>get_key(list, index)\<close> for the list of network keys and for that of application keys.\<close>

definition get_net_key :: "key_store \<Rightarrow> u16 \<Rightarrow> bytes option" where
  "get_net_key ks index =
     (case find_net_key_by_idx ks index of
        None \<Rightarrow> None
      | Some nk \<Rightarrow>
          if phase nk = 2 \<and> nid (nk_new nk) \<noteq> 0xff then Some (net_key (nk_new nk))
          else if nid (nk_current nk) \<noteq> 0xff then Some (net_key (nk_current nk))
          else None)"

definition get_app_key :: "key_store \<Rightarrow> u16 \<Rightarrow> bytes option" where
  "get_app_key ks index =
     (case find_app_key_by_idx ks index of
        None \<Rightarrow> None
      | Some ak \<Rightarrow>
          (case find_net_key_by_idx ks (ak_net_idx ak) of
             None \<Rightarrow> None
           | Some nk \<Rightarrow>
               if phase nk = 2 \<and> akf_aid (ak_new ak) \<noteq> 0xff then Some (key (ak_new ak))
               else if akf_aid (ak_current ak) \<noteq> 0xff then Some (key (ak_current ak))
               else None))"

definition keys_net_key_get :: "key_store \<Rightarrow> u16 \<Rightarrow> bool \<Rightarrow> bytes option" where
  "keys_net_key_get ks net_idx current =
     (case find_net_key_by_idx ks net_idx of
        None \<Rightarrow> None
      | Some nk \<Rightarrow> Some (if current then net_key (nk_current nk) else net_key (nk_new nk)))"

definition keys_app_key_get :: "key_store \<Rightarrow> u16 \<Rightarrow> bool \<Rightarrow> bytes option" where
  "keys_app_key_get ks app_idx current =
     (case find_app_key_by_idx ks app_idx of
        None \<Rightarrow> None
      | Some ak \<Rightarrow> Some (if current then key (ak_current ak) else key (ak_new ak)))"

definition keys_app_key_get_bound :: "key_store \<Rightarrow> u16 \<Rightarrow> u16" where
  "keys_app_key_get_bound ks app_idx =
     (case find_app_key_by_idx ks app_idx of None \<Rightarrow> NET_IDX_INVALID | Some ak \<Rightarrow> ak_net_idx ak)"

definition keys_get_kr_phase :: "key_store \<Rightarrow> u16 \<Rightarrow> u8" where
  "keys_get_kr_phase ks net_idx =
     (case find_net_key_by_idx ks net_idx of None \<Rightarrow> KR_PHASE_INVALID | Some nk \<Rightarrow> phase nk)"

definition net_get_key :: "key_store \<Rightarrow> u16 \<Rightarrow> bytes option" where
  "net_get_key ks net_idx = get_net_key ks net_idx"

text \<open>\<^verbatim>\<open>net_get_flags\<close>; \<open>iv_update\<close> is the field of \<^verbatim>\<open>net\<close>.\<close>

definition net_get_flags :: "key_store \<Rightarrow> bool \<Rightarrow> u16 \<Rightarrow> u8 option" where
  "net_get_flags ks iv_update net_idx =
     (let ph = keys_get_kr_phase ks net_idx in
      if ph = KR_PHASE_INVALID then None
      else Some ((if ph \<noteq> KR_PHASE_NONE then 0x01 else 0x00) OR (if iv_update then 0x02 else 0x00)))"

section \<open>Update\<close>

definition keys_app_key_add ::
  "af_alg \<Rightarrow> mesh_app_key \<Rightarrow> u16 \<Rightarrow> u16 \<Rightarrow> bytes \<Rightarrow> bool \<Rightarrow> key_store \<Rightarrow> key_store \<times> bool" where
  "keys_app_key_add A junk net_idx app_idx k update ks =
     (case mesh_crypto_k4 A k of
        Ret aid0 \<Rightarrow>
          let aid = aid0 OR AKF_BIT in
          (case find_app_key_by_idx ks app_idx of
             Some ak \<Rightarrow>
               if update then
                 if ak_net_idx ak \<noteq> net_idx then (ks, False)
                 else (ks\<lparr>app_keys := update_first (\<lambda>a. ak_idx a = app_idx)
                            (\<lambda>a. a\<lparr>ak_new := \<lparr>key = k, akf_aid = aid\<rparr>\<rparr>) (app_keys ks)\<rparr>, True)
               else if key (ak_current ak) \<noteq> k \<or> ak_net_idx ak \<noteq> net_idx then (ks, False)
               else (ks, True)
           | None \<Rightarrow>
               (ks\<lparr>app_keys := app_keys ks @
                   [junk\<lparr>ak_idx := app_idx, ak_net_idx := net_idx,
                         ak_current := \<lparr>key = k, akf_aid = aid\<rparr>,
                         ak_new := (ak_new junk)\<lparr>akf_aid := 0xff\<rparr>\<rparr>]\<rparr>, True))
      | _ \<Rightarrow> (ks, False))"

text \<open>
  The parts of a network key, filled in one after the other. The second
  component is the result; the first the memory at that point. Where \<^verbatim>\<open>k2\<close> fails the
  entry is marked invalid (\<^verbatim>\<open>nid = 0xff\<close>) and its other parts do not matter.
\<close>

definition fill_net_key_parts :: "af_alg \<Rightarrow> bytes \<Rightarrow> net_key_parts \<Rightarrow> net_key_parts \<times> bool" where
  "fill_net_key_parts A k parts =
     (let p0 = parts\<lparr>net_key := k\<rparr> in
      case mesh_crypto_nkbk A k of
        Ret bk \<Rightarrow>
          (let p1 = p0\<lparr>beacon_key := bk\<rparr> in
           case mesh_crypto_k3 A k of
             Ret ni \<Rightarrow>
               (let p2 = p1\<lparr>net_id := ni\<rparr> in
                case mesh_crypto_k2 A k [0] of
                  Ret (n, ek, pk) \<Rightarrow> (p2\<lparr>nid := n, enc_key := ek, privacy_key := pk\<rparr>, True)
                | _ \<Rightarrow> (p2\<lparr>nid := 0xff\<rparr>, False))
           | _ \<Rightarrow> (p1, False))
      | _ \<Rightarrow> (p0, False))"

definition keys_net_key_add ::
  "af_alg \<Rightarrow> mesh_net_key \<Rightarrow> u16 \<Rightarrow> bytes \<Rightarrow> bool \<Rightarrow> key_store \<Rightarrow> key_store \<times> bool" where
  "keys_net_key_add A junk net_idx k update ks =
     (case find_net_key_by_idx ks net_idx of
        Some nk \<Rightarrow>
          if update then
            let (parts, result) = fill_net_key_parts A k (nk_new nk)
            in (ks\<lparr>net_keys := update_first (\<lambda>n. nk_idx n = net_idx) (\<lambda>n. n\<lparr>nk_new := parts\<rparr>) (net_keys ks)\<rparr>, result)
          else if net_key (nk_current nk) \<noteq> k then (ks, False)
          else (ks, True)
      | None \<Rightarrow>
          let (parts, result) = fill_net_key_parts A k (nk_current junk)
          in if \<not> result then (ks, False)
             else (ks\<lparr>net_keys := net_keys ks @
                      [junk\<lparr>nk_idx := net_idx, nk_current := parts, nk_new := (nk_new junk)\<lparr>nid := 0xff\<rparr>\<rparr>]\<rparr>, True))"

definition keys_app_key_delete :: "u16 \<Rightarrow> key_store \<Rightarrow> key_store \<times> bool" where
  "keys_app_key_delete app_idx ks =
     (case find_app_key_by_idx ks app_idx of
        None \<Rightarrow> (ks, False)
      | Some _ \<Rightarrow> (ks\<lparr>app_keys := delete_first (\<lambda>ak. ak_idx ak = app_idx) (app_keys ks)\<rparr>, True))"

definition keys_net_key_delete :: "u16 \<Rightarrow> key_store \<Rightarrow> key_store \<times> bool" where
  "keys_net_key_delete net_idx ks =
     (case find_net_key_by_idx ks net_idx of
        None \<Rightarrow> (ks, False)
      | Some _ \<Rightarrow> (ks\<lparr>net_keys := delete_first (\<lambda>nk. nk_idx nk = net_idx) (net_keys ks)\<rparr>, True))"

definition keys_set_kr_phase :: "u16 \<Rightarrow> u8 \<Rightarrow> key_store \<Rightarrow> key_store \<times> bool" where
  "keys_set_kr_phase index ph ks =
     (case find_net_key_by_idx ks index of
        None \<Rightarrow> (ks, False)
      | Some _ \<Rightarrow> (ks\<lparr>net_keys := update_first (\<lambda>nk. nk_idx nk = index) (\<lambda>nk. nk\<lparr>phase := ph\<rparr>) (net_keys ks)\<rparr>, True))"

definition keys_cleanup_all :: "key_store \<Rightarrow> key_store" where
  "keys_cleanup_all ks = ks\<lparr>app_keys := [], net_keys := []\<rparr>"

section \<open>Tables searched by index\<close>

text \<open>
  What a table of entries with an index promises its users: an entry appended
  under a new index is found there, a change in place and a removal touch the
  entry of that index only, and indices stay unique.
\<close>

locale key_table =
  fixes lookup :: "'s \<Rightarrow> 'k \<Rightarrow> 'v option"
    and append_entry :: "'v \<Rightarrow> 's \<Rightarrow> 's"
    and change :: "'k \<Rightarrow> ('v \<Rightarrow> 'v) \<Rightarrow> 's \<Rightarrow> 's"
    and remove :: "'k \<Rightarrow> 's \<Rightarrow> 's"
    and idx :: "'v \<Rightarrow> 'k"
    and unique :: "'s \<Rightarrow> bool"
  assumes lookup_idx: "lookup s k = Some v \<Longrightarrow> idx v = k"
    and lookup_append: "lookup (append_entry v s) k = (case lookup s k of None \<Rightarrow> (if k = idx v then Some v else None) | Some w \<Rightarrow> Some w)"
    and lookup_change: "(\<And>v. idx (f v) = idx v) \<Longrightarrow>
          lookup (change k f s) k' = (if k' = k then map_option f (lookup s k') else lookup s k')"
    and lookup_remove: "unique s \<Longrightarrow> lookup (remove k s) k' = (if k' = k then None else lookup s k')"
    and unique_append: "unique s \<Longrightarrow> lookup s (idx v) = None \<Longrightarrow> unique (append_entry v s)"
    and unique_change: "unique s \<Longrightarrow> (\<And>v. idx (f v) = idx v) \<Longrightarrow> unique (change k f s)"
    and unique_remove: "unique s \<Longrightarrow> unique (remove k s)"
begin

text \<open>The table is a finite map under its lookup.\<close>

lemma append_is_upd: "lookup s (idx v) = None \<Longrightarrow> lookup (append_entry v s) = (lookup s)(idx v \<mapsto> v)"
  by (rule ext) (simp add: lookup_append split: option.splits)

lemma remove_is_upd: "unique s \<Longrightarrow> lookup (remove k s) = (lookup s)(k := None)"
  by (rule ext) (simp add: lookup_remove)

lemma change_is_upd:
  "(\<And>v. idx (f v) = idx v) \<Longrightarrow> lookup (change k f s) = (lookup s)(k := map_option f (lookup s k))"
  by (rule ext) (simp add: lookup_change)

lemma remove_append: "unique s \<Longrightarrow> lookup s (idx v) = None \<Longrightarrow> lookup (remove (idx v) (append_entry v s)) = lookup s"
  by (simp add: remove_is_upd unique_append append_is_upd fun_upd_idem)

lemma change_other: "(\<And>v. idx (f v) = idx v) \<Longrightarrow> k' \<noteq> k \<Longrightarrow> lookup (change k f s) k' = lookup s k'"
  by (simp add: lookup_change)

end

text \<open>The law holds of every GLib list searched by a field.\<close>

lemma find_append_single:
  "find P (xs @ [x]) = (case find P xs of None \<Rightarrow> (if P x then Some x else None) | Some y \<Rightarrow> Some y)"
  by (induction xs) auto

lemma find_delete_field:
  "distinct (map g xs) \<Longrightarrow>
   find (\<lambda>x. g x = k') (delete_first (\<lambda>x. g x = k) xs) = (if k' = k then None else find (\<lambda>x. g x = k') xs)"
  by (cases "k' = k") (simp_all add: find_delete_first_same find_delete_first_other [of "\<lambda>x. g x = k" "\<lambda>x. g x = k'"])

lemma find_update_field:
  assumes "\<And>x. g (f x) = g x"
  shows "find (\<lambda>x. g x = k') (update_first (\<lambda>x. g x = k) f xs) =
    (if k' = k then map_option f (find (\<lambda>x. g x = k') xs) else find (\<lambda>x. g x = k') xs)"
  using assms
  by (cases "k' = k")
    (simp_all add: find_update_first find_update_first_other [of "\<lambda>x. g x = k" "\<lambda>x. g x = k'"])

lemma find_None_field: "find (\<lambda>x. g x = k) xs = None \<longleftrightarrow> k \<notin> g ` set xs"
  by (auto simp: find_None_iff)

definition net_keys_unique :: "key_store \<Rightarrow> bool" where
  "net_keys_unique ks \<longleftrightarrow> distinct (map nk_idx (net_keys ks))"

definition app_keys_unique :: "key_store \<Rightarrow> bool" where
  "app_keys_unique ks \<longleftrightarrow> distinct (map ak_idx (app_keys ks))"

interpretation netk: key_table find_net_key_by_idx
  "\<lambda>nk ks. ks\<lparr>net_keys := net_keys ks @ [nk]\<rparr>"
  "\<lambda>k f ks. ks\<lparr>net_keys := update_first (\<lambda>n. nk_idx n = k) f (net_keys ks)\<rparr>"
  "\<lambda>k ks. ks\<lparr>net_keys := delete_first (\<lambda>n. nk_idx n = k) (net_keys ks)\<rparr>"
  nk_idx net_keys_unique
  by unfold_locales
    (auto simp: find_net_key_by_idx_def net_keys_unique_def find_append_single find_delete_field find_update_field
      find_None_field map_update_first distinct_map_delete_first dest: find_SomeD split: option.splits)

interpretation appk: key_table find_app_key_by_idx
  "\<lambda>ak ks. ks\<lparr>app_keys := app_keys ks @ [ak]\<rparr>"
  "\<lambda>k f ks. ks\<lparr>app_keys := update_first (\<lambda>a. ak_idx a = k) f (app_keys ks)\<rparr>"
  "\<lambda>k ks. ks\<lparr>app_keys := delete_first (\<lambda>a. ak_idx a = k) (app_keys ks)\<rparr>"
  ak_idx app_keys_unique
  by unfold_locales
    (auto simp: find_app_key_by_idx_def app_keys_unique_def find_append_single find_delete_field find_update_field
      find_None_field map_update_first distinct_map_delete_first dest: find_SomeD split: option.splits)

lemma find_net_key_app_keys [simp]: "find_net_key_by_idx (ks\<lparr>app_keys := x\<rparr>) = find_net_key_by_idx ks"
  by (rule ext) (simp add: find_net_key_by_idx_def)

lemma find_app_key_net_keys [simp]: "find_app_key_by_idx (ks\<lparr>net_keys := x\<rparr>) = find_app_key_by_idx ks"
  by (rule ext) (simp add: find_app_key_by_idx_def)

section \<open>Invariant\<close>

text \<open>
  The marker \<^verbatim>\<open>0xff\<close> of an absent version is never a real identifier: network
  identifiers have seven bits, application key identifiers six bits and the AKF
  bit.
\<close>

definition net_key_ok :: "mesh_net_key \<Rightarrow> bool" where
  "net_key_ok nk \<longleftrightarrow> nid (nk_current nk) < 0x80 \<and> (nid (nk_new nk) = 0xff \<or> nid (nk_new nk) < 0x80)"

definition aid_ok :: "u8 \<Rightarrow> bool" where
  "aid_ok a \<longleftrightarrow> a AND 0x40 \<noteq> 0 \<and> a < 0x80"

definition app_key_ok :: "mesh_app_key \<Rightarrow> bool" where
  "app_key_ok ak \<longleftrightarrow> aid_ok (akf_aid (ak_current ak)) \<and> (akf_aid (ak_new ak) = 0xff \<or> aid_ok (akf_aid (ak_new ak)))"

definition keys_wf :: "key_store \<Rightarrow> bool" where
  "keys_wf ks \<longleftrightarrow> net_keys_unique ks \<and> app_keys_unique ks \<and>
     list_all net_key_ok (net_keys ks) \<and> list_all app_key_ok (app_keys ks)"

lemma nid_range: "x AND 0x7f < (0x80 :: u8)"
  using unat_and_mask [of x 7] by (simp add: word_less_nat_alt mask_eq_exp_minus_1)

lemma aid_range: "aid_ok ((x AND 0x3f) OR AKF_BIT)" for x :: u8
proof -
  have "((x AND 0x3f) OR 0x40) AND 0x40 = (0x40 :: u8)"
    by (simp add: bit.conj_disj_distrib2 and.assoc)
  moreover have "((x AND 0x3f) OR 0x40) AND 0x7f = (x AND 0x3f) OR (0x40 :: u8)"
    by (simp add: bit.conj_disj_distrib2 and.assoc)
  then have "(x AND 0x3f) OR 0x40 < (0x80 :: u8)" by (metis nid_range)
  ultimately show ?thesis by (simp add: aid_ok_def AKF_BIT_def)
qed

lemma fill_nid:
  assumes "fill_net_key_parts A k parts = (parts', r)"
  shows "nid parts' = 0xff \<or> nid parts' = nid parts \<or> nid parts' < 0x80"
    and "r \<Longrightarrow> nid parts' < 0x80 \<and> net_key parts' = k"
proof -
  have "n < 0x80" if "mesh_crypto_k2 A k [0] = Ret (n, ek, pk)" for n ek pk
    using that by (auto simp: mesh_crypto_k2_def cbind_Ret_iff Let_def nid_range split: if_splits)
  with assms show "nid parts' = 0xff \<or> nid parts' = nid parts \<or> nid parts' < 0x80"
    and "r \<Longrightarrow> nid parts' < 0x80 \<and> net_key parts' = k"
    by (auto simp: fill_net_key_parts_def Let_def split: cres.splits)
qed

lemma list_all_update_first:
  "list_all P xs \<Longrightarrow> (\<And>x. P x \<Longrightarrow> Q x \<Longrightarrow> x \<in> set xs \<Longrightarrow> P (f x)) \<Longrightarrow> list_all P (update_first Q f xs)"
  by (induction xs) auto

lemma list_all_delete_first: "list_all P xs \<Longrightarrow> list_all P (delete_first Q xs)"
  by (induction xs) auto

lemma find_unique_Some:
  "distinct (map g xs) \<Longrightarrow> x \<in> set xs \<Longrightarrow> find (\<lambda>y. g y = g x) xs = Some x"
  by (induction xs) (auto simp: image_iff)

lemma keys_net_key_add_wf: "keys_wf ks \<Longrightarrow> keys_wf (fst (keys_net_key_add A junk i k u ks))"
proof (cases "find_net_key_by_idx ks i")
  case None
  assume wf: "keys_wf ks"
  obtain parts r where f: "fill_net_key_parts A k (nk_current junk) = (parts, r)" by force
  show ?thesis
  proof (cases r)
    case True
    let ?nk = "junk\<lparr>nk_idx := i, nk_current := parts, nk_new := (nk_new junk)\<lparr>nid := 0xff\<rparr>\<rparr>"
    have "net_keys_unique (ks\<lparr>net_keys := net_keys ks @ [?nk]\<rparr>)"
      using wf None by (intro netk.unique_append) (auto simp: keys_wf_def)
    then show ?thesis using wf None f True fill_nid(2) [OF f]
      by (auto simp: keys_net_key_add_def keys_wf_def net_key_ok_def app_keys_unique_def)
  qed (use wf None f in \<open>simp add: keys_net_key_add_def\<close>)
next
  case (Some nk)
  assume wf: "keys_wf ks"
  obtain parts r where f: "fill_net_key_parts A k (nk_new nk) = (parts, r)" by force
  have "net_key_ok (n\<lparr>nk_new := parts\<rparr>)" if "n \<in> set (net_keys ks)" "net_key_ok n" "nk_idx n = i" for n
  proof -
    have "n = nk" using Some wf that find_unique_Some [of nk_idx "net_keys ks" n]
      by (auto simp: find_net_key_by_idx_def keys_wf_def net_keys_unique_def)
    then show ?thesis using that fill_nid(1) [OF f] by (auto simp: net_key_ok_def)
  qed
  then have "list_all net_key_ok (update_first (\<lambda>n. nk_idx n = i) (\<lambda>n. n\<lparr>nk_new := parts\<rparr>) (net_keys ks))"
    using wf by (intro list_all_update_first) (auto simp: keys_wf_def)
  moreover have "net_keys_unique (ks\<lparr>net_keys := update_first (\<lambda>n. nk_idx n = i) (\<lambda>n. n\<lparr>nk_new := parts\<rparr>) (net_keys ks)\<rparr>)"
    using wf by (intro netk.unique_change) (auto simp: keys_wf_def)
  ultimately show ?thesis using wf Some f
    by (auto simp: keys_net_key_add_def keys_wf_def app_keys_unique_def)
qed

lemma keys_app_key_add_wf:
  assumes wf: "keys_wf ks" shows "keys_wf (fst (keys_app_key_add A junk ni i k u ks))"
proof (cases "mesh_crypto_k4 A k")
  case (Ret a)
  then have a: "aid_ok (a OR AKF_BIT)" by (auto simp: mesh_crypto_k4_def cbind_Ret_iff aid_range)
  let ?f = "\<lambda>ak. ak\<lparr>ak_new := \<lparr>key = k, akf_aid = a OR AKF_BIT\<rparr>\<rparr>"
  have u: "list_all app_key_ok (update_first (\<lambda>x. ak_idx x = i) ?f (app_keys ks))"
    using wf a by (intro list_all_update_first) (auto simp: keys_wf_def app_key_ok_def)
  have uu: "app_keys_unique (ks\<lparr>app_keys := update_first (\<lambda>x. ak_idx x = i) ?f (app_keys ks)\<rparr>)"
    using wf by (intro appk.unique_change) (auto simp: keys_wf_def)
  show ?thesis
  proof (cases "find_app_key_by_idx ks i")
    case None
    let ?ak = "junk\<lparr>ak_idx := i, ak_net_idx := ni, ak_current := \<lparr>key = k, akf_aid = a OR AKF_BIT\<rparr>,
      ak_new := (ak_new junk)\<lparr>akf_aid := 0xff\<rparr>\<rparr>"
    have "app_keys_unique (ks\<lparr>app_keys := app_keys ks @ [?ak]\<rparr>)"
      using wf None by (intro appk.unique_append) (auto simp: keys_wf_def)
    with wf None Ret a show ?thesis
      by (auto simp: keys_app_key_add_def keys_wf_def app_key_ok_def net_keys_unique_def Let_def)
  next
    case (Some ak)
    with wf Ret u uu show ?thesis
      by (auto simp: keys_app_key_add_def keys_wf_def net_keys_unique_def Let_def)
  qed
qed (use wf in \<open>simp_all add: keys_app_key_add_def\<close>)

lemma keys_delete_wf:
  assumes "keys_wf ks"
  shows "keys_wf (fst (keys_net_key_delete i ks))" "keys_wf (fst (keys_app_key_delete i ks))"
    "keys_wf (fst (keys_set_kr_phase i ph ks))" "keys_wf (keys_cleanup_all ks)"
  using assms netk.unique_remove [of ks i] appk.unique_remove [of ks i]
    netk.unique_change [of ks "\<lambda>nk. nk\<lparr>phase := ph\<rparr>" i]
  by (auto simp: keys_net_key_delete_def keys_app_key_delete_def keys_set_kr_phase_def keys_cleanup_all_def keys_wf_def
      net_keys_unique_def app_keys_unique_def list_all_delete_first net_key_ok_def
      intro!: list_all_update_first split: option.splits)

text \<open>
  What the parts of a stored key have to do with it. The current version of a network key has the beacon
  key, the network identifier and the encryption and privacy keys that \<^verbatim>\<open>nkbk\<close>, \<^verbatim>\<open>k3\<close> and \<^verbatim>\<open>k2\<close> derive from
  it, an application key the identifier of \<^verbatim>\<open>k4\<close>. A new version is written over the one before: when a
  derivation fails there, the parts that follow are still those of the old key, so that the
  new version of a network key is as it should be when the ciphers answer.
\<close>

definition parts_derived :: "af_alg \<Rightarrow> net_key_parts \<Rightarrow> bool" where
  "parts_derived A p \<longleftrightarrow> mesh_crypto_nkbk A (net_key p) = Ret (beacon_key p) \<and> mesh_crypto_k3 A (net_key p) = Ret (net_id p) \<and>
     mesh_crypto_k2 A (net_key p) [0] = Ret (nid p, enc_key p, privacy_key p)"

definition app_derived :: "af_alg \<Rightarrow> app_key_parts \<Rightarrow> bool" where
  "app_derived A p \<longleftrightarrow> (case mesh_crypto_k4 A (key p) of Ret a \<Rightarrow> akf_aid p = a OR AKF_BIT | _ \<Rightarrow> False)"

definition derivations_answer :: "af_alg \<Rightarrow> bool" where
  "derivations_answer A \<longleftrightarrow> (\<forall>k. length k = 16 \<longrightarrow> (\<exists>bk ni t. mesh_crypto_nkbk A k = Ret bk \<and> mesh_crypto_k3 A k = Ret ni \<and> mesh_crypto_k2 A k [0] = Ret t))"

definition net_key_derived :: "af_alg \<Rightarrow> mesh_net_key \<Rightarrow> bool" where
  "net_key_derived A nk \<longleftrightarrow> parts_derived A (nk_current nk) \<and>
     (derivations_answer A \<and> nid (nk_new nk) \<noteq> 0xff \<longrightarrow> parts_derived A (nk_new nk))"

definition app_key_derived :: "af_alg \<Rightarrow> mesh_app_key \<Rightarrow> bool" where
  "app_key_derived A ak \<longleftrightarrow> app_derived A (ak_current ak) \<and> (akf_aid (ak_new ak) \<noteq> 0xff \<longrightarrow> app_derived A (ak_new ak))"

definition keys_derived :: "af_alg \<Rightarrow> key_store \<Rightarrow> bool" where
  "keys_derived A ks \<longleftrightarrow> list_all (net_key_derived A) (net_keys ks) \<and> list_all (app_key_derived A) (app_keys ks)"

lemma fill_derived:
  assumes "fill_net_key_parts A k parts = (parts', r)" "r \<or> derivations_answer A" "length k = 16"
  shows "parts_derived A parts'"
  using assms by (auto simp: fill_net_key_parts_def parts_derived_def derivations_answer_def Let_def split: cres.splits prod.splits)

lemma keys_net_key_add_derived:
  assumes d: "keys_derived A ks" and k: "length k = 16"
  shows "keys_derived A (fst (keys_net_key_add A junk i k u ks))"
proof (cases "find_net_key_by_idx ks i")
  case None
  obtain parts r where f: "fill_net_key_parts A k (nk_current junk) = (parts, r)" by force
  show ?thesis using d None f fill_derived [OF f _ k]
    by (auto simp: keys_net_key_add_def keys_derived_def net_key_derived_def)
next
  case (Some nk)
  obtain parts r where f: "fill_net_key_parts A k (nk_new nk) = (parts, r)" by force
  have "list_all (net_key_derived A) (update_first (\<lambda>n. nk_idx n = i) (\<lambda>n. n\<lparr>nk_new := parts\<rparr>) (net_keys ks))"
    using d fill_derived [OF f _ k] by (intro list_all_update_first) (auto simp: keys_derived_def net_key_derived_def)
  then show ?thesis using d Some f by (auto simp: keys_net_key_add_def keys_derived_def)
qed

lemma keys_app_key_add_derived:
  assumes d: "keys_derived A ks" shows "keys_derived A (fst (keys_app_key_add A junk ni i k u ks))"
proof (cases "mesh_crypto_k4 A k")
  case (Ret a)
  then have a: "app_derived A \<lparr>key = k, akf_aid = a OR AKF_BIT\<rparr>" by (simp add: app_derived_def)
  have "list_all (app_key_derived A)
      (update_first (\<lambda>x. ak_idx x = i) (\<lambda>ak. ak\<lparr>ak_new := \<lparr>key = k, akf_aid = a OR AKF_BIT\<rparr>\<rparr>) (app_keys ks))"
    using d a by (intro list_all_update_first) (auto simp: keys_derived_def app_key_derived_def)
  then show ?thesis using d a Ret
    by (auto simp: keys_app_key_add_def keys_derived_def app_key_derived_def Let_def split: option.split)
qed (use d in \<open>simp_all add: keys_app_key_add_def\<close>)

lemma keys_delete_derived:
  assumes "keys_derived A ks"
  shows "keys_derived A (fst (keys_net_key_delete i ks))" "keys_derived A (fst (keys_app_key_delete i ks))"
    "keys_derived A (fst (keys_set_kr_phase i ph ks))" "keys_derived A (keys_cleanup_all ks)"
  using assms
  by (auto simp: keys_net_key_delete_def keys_app_key_delete_def keys_set_kr_phase_def keys_cleanup_all_def keys_derived_def
      list_all_delete_first net_key_derived_def intro!: list_all_update_first split: option.splits)

text \<open>The operations that change the store, with the cipher of the kernel and keys of 16 octets.\<close>

inductive key_step :: "af_alg \<Rightarrow> key_store \<Rightarrow> key_store \<Rightarrow> bool" for A where
  add_net: "length k = 16 \<Longrightarrow> key_step A ks (fst (keys_net_key_add A junk i k u ks))"
| add_app: "length k = 16 \<Longrightarrow> key_step A ks (fst (keys_app_key_add A ajunk ni i k u ks))"
| del_net: "key_step A ks (fst (keys_net_key_delete i ks))"
| del_app: "key_step A ks (fst (keys_app_key_delete i ks))"
| set_phase: "key_step A ks (fst (keys_set_kr_phase i ph ks))"
| cleanup: "key_step A ks (keys_cleanup_all ks)"

inductive_cases key_stepE: "key_step A ks ks'"

definition no_keys :: key_store where
  "no_keys = \<lparr>net_keys = [], app_keys = []\<rparr>"

lemma key_step_wf: "keys_wf ks \<Longrightarrow> key_step A ks ks' \<Longrightarrow> keys_wf ks'"
  by (erule key_stepE) (simp_all add: keys_net_key_add_wf keys_app_key_add_wf keys_delete_wf)

lemma key_step_derived: "keys_derived A ks \<Longrightarrow> key_step A ks ks' \<Longrightarrow> keys_derived A ks'"
  by (erule key_stepE) (simp_all add: keys_net_key_add_derived keys_app_key_add_derived keys_delete_derived)

interpretation keysys: invariant_system "(=) no_keys" "key_step A" "\<lambda>ks. keys_wf ks \<and> keys_derived A ks" for A
proof
  show "keys_wf s \<and> keys_derived A s" if "no_keys = s" for s
    unfolding that [symmetric] by (simp add: no_keys_def keys_wf_def keys_derived_def net_keys_unique_def app_keys_unique_def)
qed (auto intro: key_step_wf key_step_derived)

section \<open>Properties\<close>

lemma get_net_key_ok: "keys_wf ks \<Longrightarrow> find_net_key_by_idx ks i = Some nk \<Longrightarrow> nid (nk_current nk) \<noteq> 0xff"
  by (auto simp: keys_wf_def list_all_iff net_key_ok_def find_net_key_by_idx_def dest!: find_SomeD)

text \<open>
  Adding a network key refines a map update. A key added under an index that
  is not in the store, when the derivations succeed, appears there with the
  given value as its current version and no new version; every other index, and
  every application key, is as before. Adding it again succeeds and changes
  nothing; adding a different value under the same index is refused.
\<close>

lemma net_key_add_is_update:
  assumes "find_net_key_by_idx ks i = None"
    and "keys_net_key_add A junk i k u ks = (ks', True)"
  shows "(\<exists>nk. find_net_key_by_idx ks' = (find_net_key_by_idx ks)(i \<mapsto> nk) \<and>
      net_key (nk_current nk) = k \<and> nid (nk_current nk) < 0x80 \<and> nid (nk_new nk) = 0xff) \<and>
    find_app_key_by_idx ks' = find_app_key_by_idx ks \<and>
    keys_net_key_add A junk' i k False ks' = (ks', True) \<and>
    (k' \<noteq> k \<longrightarrow> keys_net_key_add A junk' i k' False ks' = (ks', False))"
proof -
  obtain parts r where f: "fill_net_key_parts A k (nk_current junk) = (parts, r)" by force
  define nk where "nk = junk\<lparr>nk_idx := i, nk_current := parts, nk_new := (nk_new junk)\<lparr>nid := 0xff\<rparr>\<rparr>"
  from assms f have ks': "ks' = ks\<lparr>net_keys := net_keys ks @ [nk]\<rparr>" and r: r
    by (auto simp: keys_net_key_add_def nk_def split: if_splits)
  have u: "find_net_key_by_idx ks' = (find_net_key_by_idx ks)(i \<mapsto> nk)"
    using netk.append_is_upd [of ks nk] assms(1) by (simp add: ks' nk_def)
  have p: "net_key (nk_current nk) = k" "nid (nk_current nk) < 0x80" "nid (nk_new nk) = 0xff"
    using fill_nid(2) [OF f r] by (simp_all add: nk_def)
  have a: "find_app_key_by_idx ks' = find_app_key_by_idx ks" by (simp add: ks')
  have again: "keys_net_key_add A junk' i x False ks' = (ks', x = k)" for x
    by (auto simp: keys_net_key_add_def u p)
  show ?thesis using u p a again by auto
qed

lemma cres_demo: "aes_cmac_one demo_alg k m = Ret (the (cmac_op demo_alg k m))" if "length m \<le> 145"
  using that by (simp add: aes_cmac_one_def aes_cmac_setup_def alg_new_def aes_cmac_def demo_alg_def CMAC_MSG_MAX_def)

lemma demo_fill: "snd (fill_net_key_parts demo_alg (replicate 16 1) parts)"
  by (simp add: fill_net_key_parts_def Let_def mesh_crypto_nkbk_def crypto_128_def mesh_crypto_k1_def mesh_crypto_s1_def
      mesh_crypto_k3_def mesh_crypto_k2_def cres_demo str_bytes_def aes_cmac_N_start_def aes_cmac_setup_def alg_new_def)
    (simp add: demo_alg_def aes_cmac_def CMAC_MSG_MAX_def)

definition demo_net_key :: mesh_net_key where
  "demo_net_key = \<lparr>nk_idx = 7, phase = 9,
     nk_current = \<lparr>nid = 1, enc_key = [], privacy_key = [], net_key = [], beacon_key = [], net_id = []\<rparr>,
     nk_new = \<lparr>nid = 1, enc_key = [], privacy_key = [], net_key = [], beacon_key = [], net_id = []\<rparr>\<rparr>"

lemma demo_add: "keys_net_key_add demo_alg demo_net_key 0 (replicate 16 1) False no_keys =
    (fst (keys_net_key_add demo_alg demo_net_key 0 (replicate 16 1) False no_keys), True)"
  using demo_fill by (simp add: keys_net_key_add_def find_net_key_by_idx_def no_keys_def split: prod.splits)
    (metis snd_conv)

lemma net_key_add_is_update_witness:
  "\<exists>nk. find_net_key_by_idx (fst (keys_net_key_add demo_alg demo_net_key 0 (replicate 16 1) False no_keys)) 0 = Some nk \<and>
     net_key (nk_current nk) = replicate 16 1"
proof -
  have "find_net_key_by_idx no_keys 0 = None" by (simp add: find_net_key_by_idx_def no_keys_def)
  from net_key_add_is_update [OF this demo_add, THEN conjunct1] show ?thesis by auto
qed

text \<open>
  Key refresh. Storing a new version of a network key does not change which
  key is used for sending while the refresh phase is not 2; once the phase is
  set to 2 the new key is used; other network keys are not affected.
\<close>

lemma net_key_refresh:
  assumes "keys_wf ks" and "find_net_key_by_idx ks i = Some nk" and "phase nk \<noteq> 2"
    and "keys_net_key_add A junk i k True ks = (ks', True)"
  shows "net_get_key ks' i = Some (net_key (nk_current nk)) \<and> net_get_key ks i = net_get_key ks' i \<and>
    net_get_key (fst (keys_set_kr_phase i 2 ks')) i = Some k \<and>
    (j \<noteq> i \<longrightarrow> net_get_key (fst (keys_set_kr_phase i 2 ks')) j = net_get_key ks j)"
proof -
  obtain parts r where f: "fill_net_key_parts A k (nk_new nk) = (parts, r)" by force
  from assms f have ks': "ks' = ks\<lparr>net_keys := update_first (\<lambda>n. nk_idx n = i) (\<lambda>n. n\<lparr>nk_new := parts\<rparr>) (net_keys ks)\<rparr>" and r: r
    by (auto simp: keys_net_key_add_def)
  note l' = netk.lookup_change [of "\<lambda>n. n\<lparr>nk_new := parts\<rparr>" i ks, folded ks', simplified]
  define ks2 where "ks2 = fst (keys_set_kr_phase i 2 ks')"
  have ks2: "ks2 = ks'\<lparr>net_keys := update_first (\<lambda>n. nk_idx n = i) (\<lambda>n. n\<lparr>phase := 2\<rparr>) (net_keys ks')\<rparr>"
    using assms(2) by (simp add: ks2_def keys_set_kr_phase_def l')
  note l2 = netk.lookup_change [of "\<lambda>n. n\<lparr>phase := 2\<rparr>" i ks', folded ks2, simplified]
  have "nid parts < 0x80" "net_key parts = k" using fill_nid(2) [OF f r] by auto
  then have "nid parts \<noteq> 0xff" by auto
  with assms(2,3) get_net_key_ok [OF assms(1,2)] \<open>net_key parts = k\<close> show ?thesis
    by (simp add: net_get_key_def get_net_key_def l' l2 flip: ks2_def)
qed

lemma net_key_refresh_witness:
  "\<exists>ks. net_get_key ks 3 = Some [5] \<and>
     net_get_key (fst (keys_set_kr_phase 3 2 (fst (keys_net_key_add demo_alg demo_net_key 3 (replicate 16 1) True ks)))) 3
       = Some (replicate 16 1)"
proof -
  define nk where "nk = demo_net_key\<lparr>nk_idx := 3, phase := 0, nk_current := (nk_current demo_net_key)\<lparr>net_key := [5]\<rparr>\<rparr>"
  define ks where "ks = \<lparr>net_keys = [nk], app_keys = []\<rparr>"
  have f: "find_net_key_by_idx ks 3 = Some nk" by (simp add: find_net_key_by_idx_def ks_def nk_def)
  have wf: "keys_wf ks"
    by (simp add: keys_wf_def ks_def nk_def net_keys_unique_def app_keys_unique_def net_key_ok_def demo_net_key_def)
  have a: "keys_net_key_add demo_alg demo_net_key 3 (replicate 16 1) True ks =
      (fst (keys_net_key_add demo_alg demo_net_key 3 (replicate 16 1) True ks), True)"
    using demo_fill [of "nk_new nk"]
    by (cases "fill_net_key_parts demo_alg (replicate 16 1) (nk_new nk)") (simp add: keys_net_key_add_def f)
  have ph: "phase nk \<noteq> 2" "net_key (nk_current nk) = [5]" by (simp_all add: nk_def)
  from net_key_refresh [OF wf f ph(1) a, of 3] ph(2) show ?thesis by auto
qed

text \<open>
  An application key is usable only with its network key. \<^verbatim>\<open>get_key\<close> on the
  application keys yields nothing when the bound network key is not in the
  store; in particular deleting a network key takes all its application keys out
  of use, although they stay in the list.
\<close>

lemma app_key_needs_net_key:
  assumes "keys_wf ks" and "find_app_key_by_idx ks a = Some ak"
  shows "get_app_key (fst (keys_net_key_delete (ak_net_idx ak) ks)) a = None \<and>
    find_app_key_by_idx (fst (keys_net_key_delete (ak_net_idx ak) ks)) a = Some ak"
proof -
  have "find_net_key_by_idx (fst (keys_net_key_delete (ak_net_idx ak) ks)) (ak_net_idx ak) = None"
    using assms netk.lookup_remove [of ks "ak_net_idx ak"]
    by (auto simp: keys_net_key_delete_def keys_wf_def split: option.splits)
  moreover have "find_app_key_by_idx (fst (keys_net_key_delete (ak_net_idx ak) ks)) a = Some ak"
    using assms(2) by (simp add: keys_net_key_delete_def split: option.splits)
  ultimately show ?thesis by (simp add: get_app_key_def)
qed

lemma app_key_needs_net_key_witness:
  "\<exists>ks. get_app_key ks 1 = Some [5] \<and> get_app_key (fst (keys_net_key_delete 3 ks)) 1 = None"
proof -
  define nk where "nk = demo_net_key\<lparr>nk_idx := 3, phase := 0\<rparr>"
  define ak where "ak = \<lparr>ak_idx = 1, ak_net_idx = 3, ak_current = \<lparr>key = [5], akf_aid = 0x41\<rparr>, ak_new = \<lparr>key = [], akf_aid = 0xff\<rparr>\<rparr>"
  define ks where "ks = \<lparr>net_keys = [nk], app_keys = [ak]\<rparr>"
  have f: "find_app_key_by_idx ks 1 = Some ak" by (simp add: find_app_key_by_idx_def ks_def ak_def)
  have wf: "keys_wf ks"
    by (simp add: keys_wf_def ks_def nk_def ak_def net_keys_unique_def app_keys_unique_def net_key_ok_def
        demo_net_key_def app_key_ok_def aid_ok_def)
  have "get_app_key ks 1 = Some [5]"
    by (simp add: get_app_key_def f find_net_key_by_idx_def) (simp add: ks_def nk_def ak_def)
  with app_key_needs_net_key [OF wf f] show ?thesis by (auto simp: ak_def)
qed

text \<open>
  The refresh phase of a new key is not set. \<^verbatim>\<open>keys_net_key_add\<close> allocates the
  entry with \<^verbatim>\<open>g_new\<close>, which does not clear it, and never writes \<^verbatim>\<open>phase\<close>: the
  phase \<^verbatim>\<open>keys_get_kr_phase\<close> reports for a new key is whatever the memory held.
\<close>

lemma new_key_phase_uninitialised:
  assumes "find_net_key_by_idx ks i = None" and "keys_net_key_add A junk i k u ks = (ks', True)"
  shows "keys_get_kr_phase ks' i = phase junk"
  using assms netk.append_is_upd [of ks "junk\<lparr>nk_idx := i, nk_current := _, nk_new := _\<rparr>"]
  by (auto simp: keys_net_key_add_def keys_get_kr_phase_def split: prod.splits if_splits)

lemma new_key_phase_uninitialised_witness:
  "keys_get_kr_phase (fst (keys_net_key_add demo_alg demo_net_key 0 (replicate 16 1) False no_keys)) 0 = 9"
proof -
  have "find_net_key_by_idx no_keys 0 = None" by (simp add: find_net_key_by_idx_def no_keys_def)
  from new_key_phase_uninitialised [OF this demo_add] show ?thesis by (simp add: demo_net_key_def)
qed

text \<open>
  C21. The key store's invariant. Starting from no keys, whatever sequence of
  additions, updates, deletions, phase changes and clean-ups is run, with a given
  cipher and whatever uninitialised memory: indices are unique; the
  identifiers of present versions are in range and an absent new version is
  marked \<^verbatim>\<open>0xff\<close>, which no present one carries; the beacon key, the network
  identifier, the encryption and the privacy key of every network key are
  those derived from the key next to them, and the identifier of every application
  key is the one derived from it. For the new version of a network key the
  last holds when no derivation fails.
\<close>

theorem key_store_invariant:
  assumes "reach ((=) no_keys) (key_step A) ks"
  shows "keys_wf ks \<and> keys_derived A ks"
  by (rule keysys.reach_inv [OF assms])

lemma demo_answers: "derivations_answer demo_alg"
proof -
  have "\<exists>bk ni t. mesh_crypto_nkbk demo_alg k = Ret bk \<and> mesh_crypto_k3 demo_alg k = Ret ni \<and> mesh_crypto_k2 demo_alg k [0] = Ret t"
    if "length k = 16" for k
    using that by (simp add: mesh_crypto_nkbk_def crypto_128_def mesh_crypto_k1_def mesh_crypto_s1_def
        mesh_crypto_k3_def mesh_crypto_k2_def cres_demo str_bytes_def aes_cmac_N_start_def aes_cmac_setup_def alg_new_def)
      (simp add: demo_alg_def aes_cmac_def CMAC_MSG_MAX_def)
  then show ?thesis by (simp add: derivations_answer_def)
qed

text \<open>A network key, a new version of it, and the phase in which it is used.\<close>

theorem key_store_invariant_witness:
  "\<exists>ks nk. reach ((=) no_keys) (key_step demo_alg) ks \<and> find_net_key_by_idx ks 0 = Some nk \<and>
     net_key (nk_current nk) = replicate 16 1 \<and> net_key (nk_new nk) = replicate 16 2 \<and> phase nk = 2 \<and>
     parts_derived demo_alg (nk_current nk) \<and> parts_derived demo_alg (nk_new nk)"
proof -
  let ?R = "reach ((=) no_keys) (key_step demo_alg)"
  have r0: "?R no_keys" by (rule reach_init) simp
  obtain ks1 where a1: "keys_net_key_add demo_alg demo_net_key 0 (replicate 16 1) False no_keys = (ks1, True)"
    using demo_add by metis
  have e: "find_net_key_by_idx no_keys 0 = None" by (simp add: find_net_key_by_idx_def no_keys_def)
  obtain nk1 where n1: "find_net_key_by_idx ks1 0 = Some nk1" "net_key (nk_current nk1) = replicate 16 1"
    using net_key_add_is_update [OF e a1, THEN conjunct1] by auto
  obtain parts r where f: "fill_net_key_parts demo_alg (replicate 16 2) (nk_new nk1) = (parts, r)" by force
  have p: "parts_derived demo_alg parts" "net_key parts = replicate 16 2"
    using fill_derived [OF f] demo_answers f by (auto simp: fill_net_key_parts_def Let_def split: cres.splits)
  let ?ks2 = "fst (keys_net_key_add demo_alg demo_net_key 0 (replicate 16 2) True ks1)"
  have "?ks2 = ks1\<lparr>net_keys := update_first (\<lambda>n. nk_idx n = 0) (\<lambda>n. n\<lparr>nk_new := parts\<rparr>) (net_keys ks1)\<rparr>"
    using n1 f by (simp add: keys_net_key_add_def)
  then have n2: "find_net_key_by_idx ?ks2 0 = Some (nk1\<lparr>nk_new := parts\<rparr>)"
    using netk.lookup_change [of "\<lambda>n. n\<lparr>nk_new := parts\<rparr>" 0 ks1 0] n1 by simp
  let ?ks3 = "fst (keys_set_kr_phase 0 2 ?ks2)"
  have n3: "find_net_key_by_idx ?ks3 0 = Some (nk1\<lparr>nk_new := parts, phase := 2\<rparr>)"
    using netk.lookup_change [of "\<lambda>n. n\<lparr>phase := 2\<rparr>" 0 ?ks2 0] n2 by (simp add: keys_set_kr_phase_def)
  have r3: "?R ?ks3"
    using reach_step [OF reach_step [OF reach_step [OF r0 add_net [of "replicate 16 1" _ _ demo_net_key 0 False]]
        add_net [of "replicate 16 2" _ _ demo_net_key 0 True]] set_phase [of _ _ 0 2]] a1 by simp
  from key_store_invariant [OF this] n3 have "net_key_derived demo_alg (nk1\<lparr>nk_new := parts, phase := 2\<rparr>)"
      "net_key_ok (nk1\<lparr>nk_new := parts, phase := 2\<rparr>)"
    by (auto simp: keys_derived_def keys_wf_def list_all_iff find_net_key_by_idx_def dest!: find_SomeD)
  then show ?thesis using r3 n3 n1(2) p by (auto simp: net_key_derived_def)
qed

text \<open>
  A new version that mixes two keys. When a derivation fails while a new version is
  written over an earlier one, the update is refused, but the version stays in use
  with the new key and the identifier and the encryption keys of the earlier one.
\<close>

lemma failed_update_mixes_keys:
  assumes "find_net_key_by_idx ks i = Some nk" "mesh_crypto_nkbk A k = Fail"
  shows "\<exists>ks' nk'. keys_net_key_add A junk i k True ks = (ks', False) \<and> find_net_key_by_idx ks' i = Some nk' \<and>
    net_key (nk_new nk') = k \<and> nid (nk_new nk') = nid (nk_new nk) \<and> enc_key (nk_new nk') = enc_key (nk_new nk)"
  using assms netk.lookup_change [of "\<lambda>n. n\<lparr>nk_new := (nk_new nk)\<lparr>net_key := k\<rparr>\<rparr>" i ks i]
  by (simp add: keys_net_key_add_def fill_net_key_parts_def)

end
