(* ===== verification/Mesh_AddressPool.thy ===== *)
theory Mesh_AddressPool
  imports Mesh_Util
begin

text \<open>
  The pool of unicast addresses of \<^verbatim>\<open>mesh/net.c\<close> from which a provisioner takes the
  addresses of new nodes. A range is one 32-bit word, the lowest address in the
  low half and the highest in the high half; the pool is a GLib list of such
  words.
\<close>

section \<open>Operations\<close>

definition mk_range :: "u32 \<Rightarrow> u32 \<Rightarrow> u32" where
  "mk_range lo hi = lo + push_bit 16 hi"

definition r_max :: "u32 \<Rightarrow> u16" where
  "r_max rng = ucast (drop_bit 16 rng)"

definition r_min :: "u32 \<Rightarrow> u16" where
  "r_min rng = ucast (rng AND 0xffff)"

definition net_add_address_pool :: "u16 \<Rightarrow> u16 \<Rightarrow> u32 list \<Rightarrow> u32 list \<times> bool" where
  "net_add_address_pool lo hi pool =
     (if hi < lo then (pool, False) else (pool @ [mk_range (ucast lo) (ucast hi)], True))"

text \<open>The comparison is made on promoted integers, so zero elements always match.\<close>

definition match_address_range :: "u8 \<Rightarrow> u32 \<Rightarrow> bool" where
  "match_address_range num_elements rng \<longleftrightarrow>
     uint (r_max rng) - uint (r_min rng) \<ge> uint num_elements - 1"

definition net_obtain_address :: "u8 \<Rightarrow> u32 list \<Rightarrow> u32 list \<times> u16" where
  "net_obtain_address num_eles pool =
     (case find (match_address_range num_eles) pool of
        Some rng \<Rightarrow>
          let hi = r_max rng; addr = r_min rng; lo = r_min rng + ucast num_eles
          in (if lo > hi then delete_first (match_address_range num_eles) pool
              else update_first (match_address_range num_eles) (\<lambda>_. mk_range (ucast lo) (ucast hi)) pool,
              addr)
      | None \<Rightarrow> (pool, UNASSIGNED_ADDRESS))"

text \<open>The difference of the unsigned words is returned as a signed \<^verbatim>\<open>int\<close>.\<close>

definition range_cmp :: "u32 \<Rightarrow> u32 \<Rightarrow> int" where
  "range_cmp range1 range2 = sint (range2 - range1)"

fun release_loop :: "u16 \<Rightarrow> u8 \<Rightarrow> u32 list \<Rightarrow> u32 list option" where
  "release_loop addr num_elements [] = None"
| "release_loop addr num_elements (rng # rs) =
     (let hi = r_max rng; lo = r_min rng in
      if uint lo = uint addr + uint num_elements + 1 then
        Some (mk_range (ucast addr) (ucast hi) # rs)
      else if addr \<noteq> 0 \<and> uint hi = uint addr - 1 then
        Some (mk_range (ucast lo) (ucast (addr + ucast num_elements + 1)) # rs)
      else map_option ((#) rng) (release_loop addr num_elements rs))"

definition net_release_address :: "u16 \<Rightarrow> u8 \<Rightarrow> u32 list \<Rightarrow> u32 list" where
  "net_release_address addr num_elements pool =
     (case release_loop addr num_elements pool of
        Some pool' \<Rightarrow> pool'
      | None \<Rightarrow>
          g_list_insert_sorted range_cmp
            (mk_range (ucast addr) (ucast addr + ucast num_elements - 1)) pool)"

definition range_covers :: "u16 \<Rightarrow> u8 \<Rightarrow> u32 \<Rightarrow> bool" where
  "range_covers base num_elements rng \<longleftrightarrow>
     base \<ge> r_min rng \<and> uint base + uint num_elements - 1 \<le> uint (r_max rng)"

definition net_reserve_address_range :: "u16 \<Rightarrow> u8 \<Rightarrow> u32 list \<Rightarrow> u32 list \<times> bool" where
  "net_reserve_address_range base num_elements pool =
     (case find (range_covers base num_elements) pool of
        None \<Rightarrow> (pool, False)
      | Some range0 \<Rightarrow>
          let pool1 = delete_first (range_covers base num_elements) pool;
              max0 = r_max range0; min0 = r_min range0;
              at_min = (base = min0);
              lo = (if at_min then base + ucast num_elements else min0);
              at_max = (uint max0 = uint base + uint num_elements - 1);
              hi = (if at_max then max0 - ucast num_elements else max0);
              shrink = (at_min \<or> at_max)
          in if lo > hi then (pool1, True)
             else
               let range1 = (if shrink then mk_range (ucast lo) (ucast hi)
                             else mk_range (ucast lo) (ucast base - 1));
                   pool2 = g_list_insert_sorted range_cmp range1 pool1
               in if shrink then (pool2, True)
                  else (g_list_insert_sorted range_cmp
                          (mk_range (ucast base + ucast num_elements) (ucast hi)) pool2, True))"

section \<open>Abstraction to the set of free addresses\<close>

definition range_set :: "u32 \<Rightarrow> nat set" where
  "range_set r = {unat (r_min r)..unat (r_max r)}"

definition free_addrs :: "u32 list \<Rightarrow> nat set" where
  "free_addrs pool = (\<Union>r\<in>set pool. range_set r)"

definition block :: "u16 \<Rightarrow> u8 \<Rightarrow> nat set" where
  "block a n = {unat a..<unat a + unat n}"

definition range_ok :: "u32 \<Rightarrow> bool" where
  "range_ok r \<longleftrightarrow> 1 \<le> unat (r_min r) \<and> unat (r_min r) \<le> unat (r_max r) \<and> unat (r_max r) < 0x8000"

definition pool_wf :: "u32 list \<Rightarrow> bool" where
  "pool_wf pool \<longleftrightarrow> list_all range_ok pool \<and> sorted_wrt (\<lambda>r s. range_set r \<inter> range_set s = {}) pool"

lemma mk_range_parts:
  assumes "unat lo < 65536" "unat hi < 65536"
  shows "r_min (mk_range lo hi) = ucast lo" "r_max (mk_range lo hi) = ucast hi"
proof -
  have v: "unat (mk_range lo hi) = unat lo + 65536 * unat hi"
    using assms by (simp add: mk_range_def unat_word_ariths unat_simps)
  have m: "(0xffff :: u32) = mask 16" by (simp add: mask_eq_exp_minus_1)
  have "unat (mk_range lo hi AND mask 16) = unat lo"
    using assms unat_and_mask [of "mk_range lo hi" 16] v by simp
  then show "r_min (mk_range lo hi) = ucast lo"
    unfolding r_min_def m by (metis word_unat_eq_iff)
  have "unat (drop_bit 16 (mk_range lo hi)) = unat hi"
    using assms by (simp add: unat_drop v)
  then show "r_max (mk_range lo hi) = ucast hi"
    unfolding r_max_def by (metis word_unat_eq_iff)
qed

lemma mk_range_u16: "r_min (mk_range (ucast (lo::u16)) (ucast (hi::u16))) = lo" "r_max (mk_range (ucast lo) (ucast hi)) = hi"
proof -
  have "unat (ucast lo :: u32) < 65536" "unat (ucast hi :: u32) < 65536"
    using unat_u16_less [of lo] unat_u16_less [of hi] by (simp_all add: unat_simps)
  note mk_range_parts [OF this]
  moreover have "ucast (ucast w :: u32) = w" for w :: u16
    using unat_u16_less [of w] by (simp add: word_unat_eq_iff unat_simps)
  ultimately show "r_min (mk_range (ucast lo) (ucast hi)) = lo" "r_max (mk_range (ucast lo) (ucast hi)) = hi"
    by simp_all
qed

lemma range_set_mk: "range_set (mk_range (ucast (lo::u16)) (ucast (hi::u16))) = {unat lo..unat hi}"
  by (simp add: range_set_def mk_range_u16)

lemma range_set_mk32:
  "unat lo < 65536 \<Longrightarrow> unat hi < 65536 \<Longrightarrow> range_set (mk_range lo hi) = {unat lo..unat hi}"
  by (simp add: range_set_def mk_range_parts unat_simps)

lemma sorted_wrt_insert:
  assumes "\<And>x y. R x y \<Longrightarrow> R y x"
  shows "sorted_wrt R (g_list_insert_sorted cmp x xs) \<longleftrightarrow> sorted_wrt R xs \<and> (\<forall>y\<in>set xs. R x y)"
  using assms by (induction xs) auto

lemma list_all_insert_sorted [simp]: "list_all P (g_list_insert_sorted cmp x xs) \<longleftrightarrow> P x \<and> list_all P xs"
  by (auto simp: list_all_iff)

lemma free_insert_sorted: "free_addrs (g_list_insert_sorted cmp x xs) = range_set x \<union> free_addrs xs"
  by (simp add: free_addrs_def)

text \<open>Removing or shrinking the first range that matches.\<close>

lemma find_split_first:
  "find P xs = Some x \<Longrightarrow> \<exists>as bs. xs = as @ x # bs \<and> delete_first P xs = as @ bs \<and> update_first P f xs = as @ f x # bs"
proof (induction xs)
  case (Cons a xs)
  show ?case
  proof (cases "P a")
    case True
    with Cons.prems show ?thesis by (intro exI [of _ "[]"] exI [of _ xs]) auto
  next
    case False
    with Cons.prems have "find P xs = Some x" by simp
    from Cons.IH [OF this] obtain as bs where
      "xs = as @ x # bs" "delete_first P xs = as @ bs" "update_first P f xs = as @ f x # bs" by blast
    with False show ?thesis by (intro exI [of _ "a # as"] exI [of _ bs]) auto
  qed
qed simp

lemma free_addrs_append [simp]: "free_addrs (xs @ ys) = free_addrs xs \<union> free_addrs ys"
  "free_addrs (x # xs) = range_set x \<union> free_addrs xs" "free_addrs [] = {}"
  by (auto simp: free_addrs_def)

lemma pool_wf_split:
  assumes "pool_wf (as @ r # bs)"
  shows "range_ok r" "range_set r \<inter> free_addrs (as @ bs) = {}" "pool_wf (as @ bs)"
  using assms by (auto simp: pool_wf_def sorted_wrt_append free_addrs_def)

lemma pool_wf_replace:
  assumes "pool_wf (as @ r # bs)" "range_ok r'" "range_set r' \<subseteq> range_set r"
  shows "pool_wf (as @ r' # bs)"
  using assms by (simp add: pool_wf_def sorted_wrt_append) blast

lemma pool_wf_insert:
  assumes "pool_wf pool" "range_ok r" "range_set r \<inter> free_addrs pool = {}"
  shows "pool_wf (g_list_insert_sorted cmp r pool)"
proof -
  have "sorted_wrt (\<lambda>r s. range_set r \<inter> range_set s = {}) (g_list_insert_sorted cmp r pool)"
    using assms by (subst sorted_wrt_insert) (auto simp: pool_wf_def free_addrs_def)
  then show ?thesis using assms by (simp add: pool_wf_def)
qed

section \<open>Obtaining and reserving\<close>

lemma matches_room:
  assumes "range_ok r" "0 < n"
  shows "match_address_range n r \<longleftrightarrow> unat (r_min r) + unat n \<le> unat (r_max r) + 1"
proof -
  have "unat (r_min r) \<le> unat (r_max r)" using assms(1) by (simp add: range_ok_def)
  then show ?thesis unfolding match_address_range_def uint_nat by linarith
qed

lemma obtain_Some:
  assumes wf: "pool_wf pool" and n: "0 < n" and f: "find (match_address_range n) pool = Some r"
    and o: "net_obtain_address n pool = (pool', a)"
  shows "pool_wf pool' \<and> a \<noteq> 0 \<and> block a n \<subseteq> free_addrs pool \<and> free_addrs pool' = free_addrs pool - block a n"
proof -
  define lo hi where "lo = r_min r + ucast n" and "hi = r_max r"
  obtain as bs where s: "pool = as @ r # bs"
    "delete_first (match_address_range n) pool = as @ bs"
    "update_first (match_address_range n) (\<lambda>_. mk_range (ucast lo) (ucast hi)) pool = as @ mk_range (ucast lo) (ucast hi) # bs"
    using find_split_first [OF f, of "\<lambda>_. mk_range (ucast lo) (ucast hi)"] by blast
  note w = pool_wf_split [OF wf [unfolded s(1)]]
  have m: "unat (r_min r) + unat n \<le> unat hi + 1" "unat hi < 0x8000" "1 \<le> unat (r_min r)"
    using w(1) find_SomeD [OF f] matches_room [OF w(1) n] by (auto simp: range_ok_def hi_def)
  have lo: "unat lo = unat (r_min r) + unat n"
    using m unat_u8_less [of n] by (simp add: lo_def unat_word_ariths unat_simps)
  have a: "a = r_min r" using o f by (simp add: net_obtain_address_def Let_def)
  have r: "range_set r = block a n \<union> {unat lo..unat hi}" "block a n \<inter> {unat lo..unat hi} = {}"
    using m by (auto simp: range_set_def block_def a lo hi_def)
  have "a \<noteq> 0" using m(3) by (auto simp: a)
  show ?thesis
  proof (cases "lo > hi")
    case True
    then have p: "pool' = as @ bs" using o f s(2) by (simp add: net_obtain_address_def Let_def lo_def hi_def)
    have "{unat lo..unat hi} = {}" using True by (simp add: word_less_nat_alt)
    then show ?thesis using w r \<open>a \<noteq> 0\<close> by (auto simp: p s(1))
  next
    case False
    then have p: "pool' = as @ mk_range (ucast lo) (ucast hi) # bs"
      using o f s(3) by (auto simp: net_obtain_address_def Let_def lo_def hi_def)
    have "range_ok (mk_range (ucast lo) (ucast hi))"
      using False m lo by (simp add: range_ok_def mk_range_u16 word_less_nat_alt)
    then have "pool_wf pool'"
      using pool_wf_replace [OF wf [unfolded s(1)]] r(1) by (simp add: p range_set_mk)
    moreover have "free_addrs pool' = free_addrs pool - block a n"
      using w(2) r by (auto simp: p s(1) range_set_mk)
    ultimately show ?thesis using r \<open>a \<noteq> 0\<close> by (auto simp: s(1))
  qed
qed

lemma obtain_None:
  assumes "pool_wf pool" "0 < n" "find (match_address_range n) pool = None"
  shows "net_obtain_address n pool = (pool, 0)" "\<And>r. r \<in> set pool \<Longrightarrow> \<not> block a n \<subseteq> range_set r"
proof -
  show "net_obtain_address n pool = (pool, 0)"
    using assms(3) by (simp add: net_obtain_address_def UNASSIGNED_ADDRESS_def)
  fix r assume r: "r \<in> set pool"
  with assms have "\<not> match_address_range n r" "range_ok r"
    by (auto simp: find_None_iff pool_wf_def list_all_iff)
  then have l: "unat (r_max r) + 1 < unat (r_min r) + unat n" using matches_room assms(2) by auto
  have "0 < unat n" using assms(2) by (simp add: word_less_nat_alt)
  show "\<not> block a n \<subseteq> range_set r"
  proof
    assume "block a n \<subseteq> range_set r"
    moreover have "unat a \<in> block a n" "unat a + unat n - 1 \<in> block a n" using \<open>0 < unat n\<close> by (auto simp: block_def)
    ultimately have "unat a \<in> range_set r" "unat a + unat n - 1 \<in> range_set r" by blast+
    then show False using l \<open>0 < unat n\<close> unfolding range_set_def atLeastAtMost_iff by linarith
  qed
qed

lemma covers_iff:
  "range_covers base n r \<longleftrightarrow> unat (r_min r) \<le> unat base \<and> unat base + unat n \<le> unat (r_max r) + 1"
  unfolding range_covers_def uint_nat word_le_nat_alt by linarith

lemma covers_room:
  assumes "0 < n"
  shows "range_covers base n r \<longleftrightarrow> block base n \<subseteq> range_set r"
proof -
  have "0 < unat n" using assms by (simp add: word_less_nat_alt)
  then have "block base n = {unat base..unat base + unat n - 1}" by (auto simp: block_def)
  then have "block base n \<subseteq> range_set r \<longleftrightarrow> unat (r_min r) \<le> unat base \<and> unat base + unat n - 1 \<le> unat (r_max r)"
  proof -
    have "unat base \<le> unat base + unat n - 1" using \<open>0 < unat n\<close> by linarith
    with \<open>block base n = _\<close> show ?thesis by (simp add: range_set_def)
  qed
  then show ?thesis unfolding covers_iff using \<open>0 < unat n\<close> by linarith
qed

lemma cut_interval:
  fixes lo :: nat
  assumes "{lo..hi} \<inter> F = {}" "lo \<le> b" "b + k \<le> hi + 1"
  shows "({lo..hi} \<union> F) - {b..<b + k} = F \<union> {lo..<b} \<union> {b + k..hi}"
proof -
  have F: "x < lo \<or> hi < x" if "x \<in> F" for x
  proof (rule ccontr)
    assume "\<not> ?thesis"
    then have "x \<in> {lo..hi} \<inter> F" using that by simp
    then show False unfolding assms(1) by simp
  qed
  show ?thesis
  proof (rule set_eqI)
    fix x show "x \<in> ({lo..hi} \<union> F) - {b..<b + k} \<longleftrightarrow> x \<in> F \<union> {lo..<b} \<union> {b + k..hi}"
      using F [of x] assms(2,3) by auto
  qed
qed

lemma reserve_Some:
  assumes wf: "pool_wf pool" and n: "0 < n" and f: "find (range_covers base n) pool = Some r"
    and o: "net_reserve_address_range base n pool = (pool', ok)"
  shows "ok \<and> pool_wf pool' \<and> block base n \<subseteq> free_addrs pool \<and> free_addrs pool' = free_addrs pool - block base n"
proof -
  obtain as bs where s: "pool = as @ r # bs" "delete_first (range_covers base n) pool = as @ bs"
    using find_split_first [OF f] by blast
  note w = pool_wf_split [OF wf [unfolded s(1)]]
  define b k lo hi where "b = unat base" and "k = unat n" and "lo = unat (r_min r)" and "hi = unat (r_max r)"
  note d = b_def k_def lo_def hi_def
  have k: "0 < k" "k < 256" using n unat_u8_less [of n] by (simp_all add: k_def word_less_nat_alt)
  have c: "lo \<le> b" "b + k \<le> hi + 1" "1 \<le> lo" "lo \<le> hi" "hi < 0x8000"
    using find_SomeD [OF f] w(1) unfolding covers_iff range_ok_def d by simp_all
  have blk: "block base n = {b..<b + k}" and rs: "range_set r = {lo..hi}" by (simp_all add: block_def range_set_def d)
  have sums: "unat (base + ucast n) = b + k" "unat (r_max r - ucast n) = hi - k"
    using c k unfolding d by (simp_all add: unat_word_ariths unat_simps unat_sub_if')
  have sums32: "unat (ucast base + ucast n :: u32) = b + k" "unat (ucast base - 1 :: u32) = b - 1"
    using c k unat_u16_less [of base] unfolding d
    by (simp_all add: unat_word_ariths unat_simps unat_sub_if')
  have at: "(uint (r_max r) = uint base + uint n - 1) \<longleftrightarrow> hi + 1 = b + k" "base = r_min r \<longleftrightarrow> b = lo"
    unfolding uint_nat d by (linarith, simp add: word_unat_eq_iff eq_commute)
  define pool1 where "pool1 = as @ bs"
  have p1: "pool_wf pool1" "{lo..hi} \<inter> free_addrs pool1 = {}" "free_addrs pool = {lo..hi} \<union> free_addrs pool1"
    using w rs by (auto simp: pool1_def s(1))
  have cut: "free_addrs pool - block base n = free_addrs pool1 \<union> {lo..<b} \<union> {b + k..hi}"
    unfolding p1(3) blk using cut_interval [OF p1(2) c(1,2)] .
  have bsub: "block base n \<subseteq> free_addrs pool" unfolding p1(3) blk using c k by auto
  have ins: "pool_wf (g_list_insert_sorted range_cmp x p) \<and> free_addrs (g_list_insert_sorted range_cmp x p) = range_set x \<union> free_addrs p"
    if "pool_wf p" "range_ok x" "range_set x \<inter> free_addrs p = {}" for x p
    using that by (simp add: pool_wf_insert free_insert_sorted)
  have gen: "net_reserve_address_range base n pool =
      (if b = lo \<and> hi + 1 = b + k then (pool1, True)
       else if b = lo then (g_list_insert_sorted range_cmp (mk_range (ucast (base + ucast n)) (ucast (r_max r))) pool1, True)
       else if hi + 1 = b + k then (g_list_insert_sorted range_cmp (mk_range (ucast (r_min r)) (ucast (r_max r - ucast n))) pool1, True)
       else (g_list_insert_sorted range_cmp (mk_range (ucast base + ucast n) (ucast (r_max r)))
              (g_list_insert_sorted range_cmp (mk_range (ucast (r_min r)) (ucast base - 1)) pool1), True))"
    using c k sums unfolding net_reserve_address_range_def f option.case Let_def at s(2) pool1_def [symmetric] word_less_nat_alt
    by (auto simp flip: d)
  have mk: "range_set (mk_range (ucast (base + ucast n)) (ucast (r_max r))) = {b + k..hi}"
    "range_set (mk_range (ucast (r_min r)) (ucast (r_max r - ucast n))) = {lo..hi - k}"
    by (simp_all add: range_set_mk sums flip: d)
  have mk32: "range_set (mk_range (ucast base + ucast n) (ucast (r_max r))) = {b + k..hi}"
    "range_set (mk_range (ucast (r_min r)) (ucast base - 1)) = {lo..b - 1}"
    using c k range_set_mk32 [of "ucast base + ucast n" "ucast (r_max r)"]
      range_set_mk32 [of "ucast (r_min r)" "ucast base - 1"] unat_u16_less [of "r_min r"] unat_u16_less [of "r_max r"]
    by (simp_all add: sums32 unat_simps flip: d)
  have ok: "range_ok x" if "range_set x = {l..h}" "1 \<le> l" "l \<le> h" "h < 0x8000" for x l h
    using that unfolding range_set_def range_ok_def by (simp add: Icc_eq_Icc)
  consider (all) "b = lo" "hi + 1 = b + k" | (low) "b = lo" "b + k \<le> hi" | (high) "lo < b" "hi + 1 = b + k"
    | (mid) "lo < b" "b + k \<le> hi"
    using c by linarith
  then show ?thesis
  proof cases
    case all
    then have "pool' = pool1" "ok" using o gen by auto
    moreover have "{lo..<b} = {}" "{b + k..hi} = {}" using all by auto
    ultimately show ?thesis using p1(1) bsub cut by simp
  next
    case low
    let ?r = "mk_range (ucast (base + ucast n)) (ucast (r_max r))"
    have "pool' = g_list_insert_sorted range_cmp ?r pool1" "ok" using low o gen by auto
    moreover have "range_ok ?r" using low c k by (intro ok [OF mk(1)]) auto
    moreover have "range_set ?r \<inter> free_addrs pool1 = {}"
      using p1(2) low c unfolding mk disjoint_iff by (metis atLeastAtMost_iff le_add1 le_trans)
    moreover have "{lo..<b} = {}" using low by auto
    ultimately show ?thesis using ins [OF p1(1), of ?r] bsub cut unfolding mk by auto
  next
    case high
    let ?r = "mk_range (ucast (r_min r)) (ucast (r_max r - ucast n))"
    have "pool' = g_list_insert_sorted range_cmp ?r pool1" "ok" using high o gen by auto
    moreover have "range_ok ?r" using high c k by (intro ok [OF mk(2)]) auto
    moreover have "range_set ?r \<inter> free_addrs pool1 = {}"
      using p1(2) high c unfolding mk disjoint_iff by (metis atLeastAtMost_iff diff_le_self le_trans)
    moreover have "{b + k..hi} = {}" "{lo..hi - k} = {lo..<b}" using high k by auto
    ultimately show ?thesis using ins [OF p1(1), of ?r] bsub cut unfolding mk by auto
  next
    case mid
    let ?r1 = "mk_range (ucast (r_min r)) (ucast base - 1)" and ?r2 = "mk_range (ucast base + ucast n) (ucast (r_max r))"
    let ?p = "g_list_insert_sorted range_cmp ?r1 pool1"
    have p: "pool' = g_list_insert_sorted range_cmp ?r2 ?p" "ok" using mid o gen by auto
    have "range_ok ?r1" "range_ok ?r2" using mid c k by (intro ok [OF mk32(2)] ok [OF mk32(1)]; simp)+
    moreover have sub: "{lo..b - 1} \<subseteq> {lo..hi}" "{b + k..hi} \<subseteq> {lo..hi}" using mid c by auto
    then have "range_set ?r1 \<inter> free_addrs pool1 = {}" using p1(2) unfolding mk32 by blast
    ultimately have i1: "pool_wf ?p" "free_addrs ?p = {lo..b - 1} \<union> free_addrs pool1"
      using ins [OF p1(1), of ?r1] unfolding mk32 by auto
    have "{b + k..hi} \<inter> {lo..b - 1} = {}" using k c by auto
    then have "range_set ?r2 \<inter> free_addrs ?p = {}" using p1(2) sub unfolding mk32 i1 by blast
    from ins [OF i1(1) \<open>range_ok ?r2\<close> this] have
      "pool_wf pool'" "free_addrs pool' = {b + k..hi} \<union> ({lo..b - 1} \<union> free_addrs pool1)"
      unfolding p mk32 i1 by auto
    moreover have "{lo..b - 1} = {lo..<b}" using mid by auto
    ultimately show ?thesis using p(2) bsub cut by auto
  qed
qed

section \<open>The interface of an allocator\<close>

text \<open>
  What the provisioning code relies on: a block obtained or reserved was free
  and is not free afterwards, and nothing else changes.
\<close>

locale address_allocator =
  fixes free :: "'s \<Rightarrow> nat set" and wf :: "'s \<Rightarrow> bool"
    and obtain_block :: "u8 \<Rightarrow> 's \<Rightarrow> ('s \<times> u16) option"
    and reserve_block :: "u16 \<Rightarrow> u8 \<Rightarrow> 's \<Rightarrow> 's option"
    and blk :: "u16 \<Rightarrow> u8 \<Rightarrow> nat set"
  assumes obtain_law: "wf s \<Longrightarrow> 0 < n \<Longrightarrow> obtain_block n s = Some (s', a) \<Longrightarrow>
      wf s' \<and> blk a n \<subseteq> free s \<and> free s' = free s - blk a n"
    and reserve_law: "wf s \<Longrightarrow> 0 < n \<Longrightarrow> reserve_block a n s = Some s' \<Longrightarrow>
      wf s' \<and> blk a n \<subseteq> free s \<and> free s' = free s - blk a n"
    and blk_nonempty: "0 < n \<Longrightarrow> blk a n \<noteq> {}"
begin

lemma obtained_disjoint:
  assumes "wf s" "0 < n" "0 < m" "obtain_block n s = Some (s1, a)" "obtain_block m s1 = Some (s2, b)"
  shows "blk a n \<inter> blk b m = {} \<and> wf s2 \<and> free s2 = free s - blk a n - blk b m"
  using obtain_law [OF assms(1,2,4)] obtain_law [OF _ assms(3,5)] by blast

lemma no_reserve_after_obtain:
  assumes "wf s" "0 < n" "obtain_block n s = Some (s1, a)" "0 < m" "blk b m \<inter> blk a n \<noteq> {}"
  shows "reserve_block b m s1 = None"
proof (rule ccontr)
  assume "reserve_block b m s1 \<noteq> None"
  then obtain s2 where "reserve_block b m s1 = Some s2" by blast
  from reserve_law [OF _ assms(4) this] obtain_law [OF assms(1-3)] assms(5) show False by blast
qed

lemma no_obtain_of_reserved:
  assumes "wf s" "0 < n" "reserve_block a n s = Some s1" "0 < m" "obtain_block m s1 = Some (s2, b)"
  shows "blk b m \<inter> blk a n = {}"
  using reserve_law [OF assms(1-3)] obtain_law [OF _ assms(4,5)] by blast

end

definition obtain_opt :: "u8 \<Rightarrow> u32 list \<Rightarrow> (u32 list \<times> u16) option" where
  "obtain_opt n pool = (case net_obtain_address n pool of (pool', a) \<Rightarrow> if a = 0 then None else Some (pool', a))"

definition reserve_opt :: "u16 \<Rightarrow> u8 \<Rightarrow> u32 list \<Rightarrow> u32 list option" where
  "reserve_opt a n pool = (case net_reserve_address_range a n pool of (pool', ok) \<Rightarrow> if ok then Some pool' else None)"

interpretation pool: address_allocator free_addrs pool_wf obtain_opt reserve_opt block
proof
  fix n :: u8 and a :: u16 and s s' :: "u32 list"
  assume wf: "pool_wf s" and n: "0 < n"
  show "pool_wf s' \<and> block a n \<subseteq> free_addrs s \<and> free_addrs s' = free_addrs s - block a n"
    if "obtain_opt n s = Some (s', a)"
  proof -
    from that have o: "net_obtain_address n s = (s', a)" "a \<noteq> 0"
      by (auto simp: obtain_opt_def split: prod.splits if_splits)
    then obtain r where "find (match_address_range n) s = Some r"
      using obtain_None(1) [OF wf n] by (cases "find (match_address_range n) s") auto
    from obtain_Some [OF wf n this o(1)] show ?thesis by blast
  qed
  show "pool_wf s' \<and> block a n \<subseteq> free_addrs s \<and> free_addrs s' = free_addrs s - block a n"
    if "reserve_opt a n s = Some s'"
  proof -
    from that have o: "net_reserve_address_range a n s = (s', True)"
      by (auto simp: reserve_opt_def split: prod.splits if_splits)
    then obtain r where "find (range_covers a n) s = Some r"
      by (cases "find (range_covers a n) s") (auto simp: net_reserve_address_range_def)
    from reserve_Some [OF wf n this o] show ?thesis by blast
  qed
next
  fix n :: u8 and a :: u16 assume "0 < n"
  then show "block a n \<noteq> {}" by (auto simp: block_def word_less_nat_alt)
qed

section \<open>Properties\<close>

text \<open>
  C22. Obtaining addresses. From a well-formed pool, \<^verbatim>\<open>net_obtain_address\<close> for \<open>n\<close>
  elements either returns an address such that the \<open>n\<close> addresses from it were
  free, are taken out of the pool, and nothing else is; or it returns the
  unassigned address and leaves the pool alone, and then no range of the pool
  has \<open>n\<close> consecutive addresses. The pool stays well-formed.
\<close>

theorem net_obtain_address_correct:
  assumes "pool_wf pool" and "0 < n" and "net_obtain_address n pool = (pool', a)"
  shows "if a = UNASSIGNED_ADDRESS
    then pool' = pool \<and> (\<forall>r b. r \<in> set pool \<longrightarrow> \<not> block b n \<subseteq> range_set r)
    else pool_wf pool' \<and> block a n \<subseteq> free_addrs pool \<and> free_addrs pool' = free_addrs pool - block a n"
proof (cases "find (match_address_range n) pool")
  case None
  then show ?thesis using obtain_None [OF assms(1,2)] assms(3) by (auto simp: UNASSIGNED_ADDRESS_def)
next
  case (Some r)
  then show ?thesis using obtain_Some [OF assms(1,2) Some assms(3)] by (simp add: UNASSIGNED_ADDRESS_def)
qed

lemma demo_pool_wf: "pool_wf [mk_range 0x100 0x1ff]"
proof -
  have "r_min (mk_range 0x100 0x1ff) = 0x100" "r_max (mk_range 0x100 0x1ff) = 0x1ff"
    by (simp_all add: mk_range_parts)
  then show ?thesis by (simp add: pool_wf_def range_ok_def)
qed

theorem net_obtain_address_correct_witness:
  "net_obtain_address 3 [mk_range 0x100 0x1ff] = ([mk_range 0x103 0x1ff], 0x100) \<and>
   pool_wf [mk_range 0x103 0x1ff] \<and> free_addrs [mk_range 0x103 0x1ff] = {0x100..0x1ff} - {0x100..<0x103}"
proof -
  have o: "net_obtain_address 3 [mk_range 0x100 0x1ff] = ([mk_range 0x103 0x1ff], 0x100)"
    by code_simp
  from net_obtain_address_correct [OF demo_pool_wf _ o] have
    "pool_wf [mk_range 0x103 0x1ff]"
    "free_addrs [mk_range 0x103 0x1ff] = free_addrs [mk_range 0x100 0x1ff] - block 0x100 3"
    by (simp_all add: UNASSIGNED_ADDRESS_def)
  with o show ?thesis by (simp add: range_set_mk32 block_def)
qed

text \<open>
  Reserving addresses. \<^verbatim>\<open>net_reserve_address_range\<close> succeeds exactly when one
  range of the pool contains the whole block; it then takes exactly that block
  out of the pool, cutting a range in two where it has to, and the pool stays
  well-formed. Otherwise the pool is unchanged.
\<close>

lemma net_reserve_address_range_correct:
  assumes "pool_wf pool" and "0 < n" and "net_reserve_address_range base n pool = (pool', ok)"
  shows "(ok \<longleftrightarrow> (\<exists>r \<in> set pool. block base n \<subseteq> range_set r)) \<and> pool_wf pool' \<and>
    free_addrs pool' = (if ok then free_addrs pool - block base n else free_addrs pool) \<and>
    (\<not> ok \<longrightarrow> pool' = pool)"
proof (cases "find (range_covers base n) pool")
  case None
  then show ?thesis
    using assms None covers_room [OF assms(2)] by (auto simp: net_reserve_address_range_def find_None_iff)
next
  case (Some r)
  then show ?thesis
    using reserve_Some [OF assms(1,2) Some assms(3)] find_SomeD [OF Some] covers_room [OF assms(2)] by auto
qed

lemma net_reserve_address_range_correct_witness:
  "net_reserve_address_range 0x150 2 [mk_range 0x100 0x1ff] = ([mk_range 0x152 0x1ff, mk_range 0x100 0x14f], True) \<and>
   pool_wf [mk_range 0x152 0x1ff, mk_range 0x100 0x14f]"
proof -
  have o: "net_reserve_address_range 0x150 2 [mk_range 0x100 0x1ff] =
      ([mk_range 0x152 0x1ff, mk_range 0x100 0x14f], True)" by code_simp
  from net_reserve_address_range_correct [OF demo_pool_wf _ o] o show ?thesis by simp
qed

text \<open>
  No address is handed out twice. Two addresses obtained one after the other
  stand for disjoint blocks, and a block that overlaps an obtained one cannot be
  reserved.
\<close>

lemma addresses_handed_out_once:
  assumes "pool_wf pool" and "0 < n" "0 < m"
    and "net_obtain_address n pool = (pool1, a)" "a \<noteq> 0"
  shows "(\<forall>pool2 b. net_obtain_address m pool1 = (pool2, b) \<and> b \<noteq> 0 \<longrightarrow> block a n \<inter> block b m = {}) \<and>
    (\<forall>b. block b m \<inter> block a n \<noteq> {} \<longrightarrow> \<not> snd (net_reserve_address_range b m pool1))"
proof -
  have o: "obtain_opt n pool = Some (pool1, a)" using assms(4,5) by (simp add: obtain_opt_def)
  have "block a n \<inter> block b m = {}" if "net_obtain_address m pool1 = (pool2, b)" "b \<noteq> 0" for pool2 b
    using pool.obtained_disjoint [OF assms(1-3) o, of pool2 b] that by (simp add: obtain_opt_def)
  moreover have "\<not> snd (net_reserve_address_range b m pool1)" if "block b m \<inter> block a n \<noteq> {}" for b
    using pool.no_reserve_after_obtain [OF assms(1,2) o assms(3) that]
    by (auto simp: reserve_opt_def split: prod.splits if_splits)
  ultimately show ?thesis by blast
qed

lemma addresses_handed_out_once_witness:
  "block 0x100 3 \<inter> block 0x103 1 = {} \<and> \<not> snd (net_reserve_address_range 0x102 2 [mk_range 0x103 0x1ff])"
proof -
  have o: "net_obtain_address 3 [mk_range 0x100 0x1ff] = ([mk_range 0x103 0x1ff], 0x100)" by code_simp
  have o2: "net_obtain_address 1 [mk_range 0x103 0x1ff] = ([mk_range 0x104 0x1ff], 0x103)" by code_simp
  have "(2::nat) < 0x103" by simp
  have i: "block 0x102 2 \<inter> block 0x100 3 \<noteq> {}" by (auto simp: block_def intro: exI [of _ "0x102"])
  show ?thesis
    using addresses_handed_out_once [OF demo_pool_wf _ _ o, of 1] addresses_handed_out_once [OF demo_pool_wf _ _ o, of 2]
      o2 i by simp
qed

text \<open>
  Releasing addresses. When no range of the pool starts or ends where the
  comparisons of \<^verbatim>\<open>net_release_address\<close> look, the block becomes free and nothing
  else does. When a range starts one address after the end of the block (the
  comparison is with \<^verbatim>\<open>addr + num_elements + 1\<close>), the address in between, which may
  belong to another node, becomes free as well; when a range ends just before
  the block, two addresses after the block become free.
\<close>

lemma net_release_address_effect:
  assumes "0 < n" and "1 \<le> unat a" and "unat a + unat n < 0x7ffe"
  shows "(release_loop a n pool = None \<longrightarrow>
      free_addrs (net_release_address a n pool) = free_addrs pool \<union> block a n) \<and>
    (unat (r_min r) = unat a + unat n + 1 \<and> range_ok r \<longrightarrow>
      unat a + unat n \<in> free_addrs (net_release_address a n (r # pool)) \<and> unat a + unat n \<notin> range_set r \<union> block a n) \<and>
    (unat (r_max r) = unat a - 1 \<and> range_ok r \<longrightarrow>
      {unat a + unat n, unat a + unat n + 1} \<subseteq> free_addrs (net_release_address a n (r # pool)) \<and>
      unat a + unat n \<notin> range_set r \<union> block a n)"
proof -
  define b k where "b = unat a" and "k = unat n"
  have k: "0 < k" "1 \<le> b" "b + k < 0x7ffe" "k < 256"
    using assms unat_u8_less [of n] by (simp_all add: k_def b_def word_less_nat_alt)
  have "unat (ucast a + ucast n - 1 :: u32) = b + k - 1"
    using k unat_u16_less [of a] unfolding b_def k_def by (simp add: unat_word_ariths unat_simps unat_sub_if')
  then have new: "range_set (mk_range (ucast a) (ucast a + ucast n - 1)) = block a n"
    using k unat_u16_less [of a] by (auto simp: range_set_mk32 unat_simps block_def b_def k_def)
  have u: "uint a = int b" "uint n = int k" unfolding b_def k_def uint_nat by simp_all
  have r1: "unat a + unat n \<in> free_addrs (net_release_address a n (r # pool)) \<and> unat a + unat n \<notin> range_set r \<union> block a n"
    if "unat (r_min r) = unat a + unat n + 1" "range_ok r"
  proof -
    have "uint (r_min r) = uint a + uint n + 1" using that(1) unfolding uint_nat by simp
    then have "net_release_address a n (r # pool) = mk_range (ucast a) (ucast (r_max r)) # pool"
      by (simp add: net_release_address_def Let_def)
    moreover have "b + k \<in> range_set (mk_range (ucast a) (ucast (r_max r)))"
      using that by (simp add: range_set_mk range_ok_def b_def k_def)
    ultimately show ?thesis using that by (auto simp: range_set_def block_def b_def k_def)
  qed
  have r2: "{unat a + unat n, unat a + unat n + 1} \<subseteq> free_addrs (net_release_address a n (r # pool)) \<and>
      unat a + unat n \<notin> range_set r \<union> block a n"
    if "unat (r_max r) = unat a - 1" "range_ok r"
  proof -
    have lt: "unat (r_min r) < b" using that k by (auto simp: range_ok_def b_def)
    have "uint (r_max r) = uint a - 1"
      using that(1) k(2) unfolding uint_nat b_def by linarith
    moreover have "uint (r_min r) \<noteq> uint a + uint n + 1" using lt unfolding uint_nat b_def by linarith
    moreover have "a \<noteq> 0" using k(2) by (auto simp: b_def)
    ultimately have "net_release_address a n (r # pool) = mk_range (ucast (r_min r)) (ucast (a + ucast n + 1)) # pool"
      by (simp add: net_release_address_def Let_def)
    moreover have "unat (a + ucast n + 1) = b + k + 1"
      using k unfolding b_def k_def by (simp add: unat_word_ariths unat_simps)
    ultimately show ?thesis using lt k that
      by (auto simp: range_set_mk) (auto simp: range_set_def block_def b_def k_def)
  qed
  show ?thesis
    using r1 r2 by (auto simp: net_release_address_def free_insert_sorted new)
qed

lemma net_release_address_effect_witness:
  "unat (0x103 :: u16) \<in> free_addrs (net_release_address 0x100 3 [mk_range 0x104 0x1ff]) \<and>
   unat (0x103 :: u16) \<notin> range_set (mk_range 0x104 0x1ff) \<union> block 0x100 3"
proof -
  have r: "r_min (mk_range 0x104 0x1ff) = 0x104" "range_ok (mk_range 0x104 0x1ff)"
    by (simp_all add: mk_range_parts range_ok_def)
  from net_release_address_effect [of 3 "0x100" "[]" "mk_range 0x104 0x1ff"] r show ?thesis by simp
qed

end
