(* ===== verification/Mesh_World.thy ===== *)
theory Mesh_World
  imports Mesh_Keys Mesh_AddressPool
begin

text \<open>
  The state of the running program that \<^verbatim>\<open>mesh/net.c\<close> and \<^verbatim>\<open>mesh/node.c\<close> keep
  in static variables and on the heap, as one record, and the effects that
  leave the program.

  A node is named by the pointer to it: the field \<open>nref\<close> of its record. A null
  pointer is None. \<open>nodes\<close> is the GLib list of all nodes, \<open>local_node\<close> the static
  pointer of \<^verbatim>\<open>node.c\<close>. Timers are the booleans \<open>ack_to\<close> and \<open>msg_to\<close> (armed or
  not); their expiry is an operation of the model. Model callbacks are the tags
  of \<open>model_cb\<close>, one per client or server the program registers.

  What the code asks of GATT, of the configuration database and of its
  callbacks is appended to \<open>log\<close>. A write to GATT completes by a later call of
  \<open>send_pkt_cmplt\<close>.
\<close>

section \<open>Nodes\<close>

datatype pub_addr = Addr16 u16 | Va128 bytes

record mesh_publication =
  pub_app_idx :: u16
  pub_u :: pub_addr
  pub_ttl :: u8
  pub_credential :: u8
  pub_period :: u8
  pub_retransmit :: u8

datatype model_cb = Cfg_server | Cfg_client | Onoff_client | Level_client | Lightness_client
  | Ctl_client | Hsl_client | Time_client

record mesh_model_ops =
  op_recv :: "model_cb option"
  op_bind :: "model_cb option"
  op_pub :: "model_cb option"

record mesh_model =
  cbs :: mesh_model_ops
  bindings :: "u16 list"
  subscriptions :: "u16 list"
  mod_id :: u32
  pub :: "mesh_publication option"

record mesh_element =
  models :: "mesh_model list"
  loc :: u16
  ele_index :: u8

record mesh_node_composition =
  relay :: bool
  proxy :: bool
  lpn :: bool
  friend :: bool
  cid :: u16
  pid :: u16
  vid :: u16
  crpl :: u16

section \<open>Provisioning data\<close>

text \<open>
  The structures of \<^verbatim>\<open>mesh/prov.c\<close>. The packed capabilities are kept as the octets
  that were received; a node points to the data of its provisioning.
\<close>

record prov_start =
  algorithm :: u8
  start_pub_key :: u8
  auth_method :: u8
  auth_action :: u8
  auth_size :: u8

record conf_input =
  attention :: u8
  caps :: bytes
  start :: prov_start
  prv_pub_key :: bytes
  dev_pub_key :: bytes

record prov_data =
  p_in :: nat
  p_done :: bool
  p_net_idx :: u16
  p_new_addr :: u16
  p_state :: u8
  eph_priv_key :: bytes
  ecdh_secret :: bytes
  conf_in :: conf_input
  rand_auth :: bytes
  p_salt :: bytes
  conf_key :: bytes
  mesh_conf :: bytes
  p_dev_key :: bytes

record mesh_node =
  nref :: nat
  n_net_keys :: "u16 list"
  n_app_keys :: "u32 list"
  n_prov :: "prov_data option"
  elements :: "mesh_element list"
  n_iv_index :: u32
  n_seq_number :: u32
  primary_net_idx :: u16
  primary :: u16
  oob :: u16
  dev_uuid :: bytes
  dev_key :: bytes
  num_ele :: u8
  n_ttl :: u8
  n_provisioner :: bool
  comp :: "mesh_node_composition option"

section \<open>Network layer\<close>

record mesh_virt_addr =
  va16 :: u16
  va32 :: u32
  va128 :: bytes

record mesh_sar_msg =
  ack_to :: bool
  msg_to :: bool
  sar_iv_index :: u32
  seqAuth :: u32
  ack :: u32
  sar_dst :: u32
  sar_src :: u16
  sar_net_idx :: u16
  sar_len :: u16
  sar_akf_aid :: u8
  sar_ttl :: u8
  segN :: u8
  activity_cnt :: u8
  sar_ctl :: bool
  segmented :: bool
  szmic :: bool
  sar_proxy :: bool
  sar_data :: bytes

record mesh_net =
  iv_index :: u32
  seq_num :: u32
  seq_num_reserved :: u32
  iv_upd_state :: u8
  default_ttl :: u8
  iv_update :: bool
  provisioner :: bool
  blacklist :: bool
  proxy_in :: "nat option"
  address_pool :: "u32 list"
  dest :: "(u16 \<times> u16) list"
  sar_in :: "mesh_sar_msg list"
  msg_out :: "mesh_sar_msg list"
  pkt_out :: "bytes list"
  open_cb :: bool

section \<open>The world\<close>

text \<open>
  The callback a provisioning PDU is written with, what the agent shows, and the
  kinds of out-of-band data.
\<close>

datatype write_cb = No_cb | Prov_start_cmplt | Prov_calc_ecdh

datatype oob_type = Oob_NONE | Oob_HEXADECIMAL | Oob_DECIMAL | Oob_ASCII | Oob_OUTPUT

datatype oob_display = Show_number nat u32 | Show_ascii bytes

text \<open>The calls that record a change of a node in the configuration database (\<^verbatim>\<open>mesh/prov-db.c\<close>).\<close>

datatype db_call =
    Db_node_composition bytes
  | Db_app_keys "u32 list"
  | Db_net_keys "u16 list"
  | Db_binding u8 u32 u16
  | Db_subscription u8 u32 u16
  | Db_ttl u8
  | Db_model_pub u8 u32 "mesh_publication option"

datatype effect =
    Gatt_write bytes
  | Db_call nat db_call
  | Db_local_iv_index u32 bool bool
  | Db_local_seq_num u32
  | Db_node_iv_seq nat u32 u32
  | Session_open
  | Model_pub model_cb mesh_publication
  | Idle_restore nat u8 u32
  | Prov_write bytes write_cb nat
  | Prov_done nat u8
  | Agent_input oob_type u16
  | Agent_output oob_display
  | Agent_release

record world =
  net :: mesh_net
  keys :: key_store
  virt_addrs :: "mesh_virt_addr list"
  nodes :: "mesh_node list"
  next_ref :: nat
  local_node :: "nat option"
  log :: "effect list"

definition emit :: "effect \<Rightarrow> 'a world_scheme \<Rightarrow> 'a world_scheme" where
  "emit e w = w\<lparr>log := log w @ [e]\<rparr>"

definition upd_net :: "(mesh_net \<Rightarrow> mesh_net) \<Rightarrow> 'a world_scheme \<Rightarrow> 'a world_scheme" where
  "upd_net f w = w\<lparr>net := f (net w)\<rparr>"

text \<open>Dereferencing a node pointer, and a change of the node behind it.\<close>

definition node_at :: "'a world_scheme \<Rightarrow> nat \<Rightarrow> mesh_node option" where
  "node_at w r = find (\<lambda>n. nref n = r) (nodes w)"

definition upd_node :: "nat \<Rightarrow> (mesh_node \<Rightarrow> mesh_node) \<Rightarrow> 'a world_scheme \<Rightarrow> 'a world_scheme" where
  "upd_node r f w = w\<lparr>nodes := update_first (\<lambda>n. nref n = r) f (nodes w)\<rparr>"

definition local_node_rec :: "'a world_scheme \<Rightarrow> mesh_node option" where
  "local_node_rec w = (case local_node w of None \<Rightarrow> None | Some r \<Rightarrow> node_at w r)"

definition blank_node :: "nat \<Rightarrow> mesh_node" where
  "blank_node r = \<lparr>nref = r, n_net_keys = [], n_app_keys = [], n_prov = None, elements = [],
     n_iv_index = 0, n_seq_number = 0, primary_net_idx = 0, primary = 0, oob = 0,
     dev_uuid = replicate 16 0, dev_key = replicate 16 0, num_ele = 0, n_ttl = 0,
     n_provisioner = False, comp = None\<rparr>"

definition blank_model :: "u32 \<Rightarrow> mesh_model" where
  "blank_model i = \<lparr>cbs = \<lparr>op_recv = None, op_bind = None, op_pub = None\<rparr>, bindings = [], subscriptions = [],
     mod_id = i, pub = None\<rparr>"

definition blank_net :: mesh_net where
  "blank_net = \<lparr>iv_index = 0, seq_num = 0, seq_num_reserved = 0, iv_upd_state = 0, default_ttl = 0,
     iv_update = False, provisioner = False, blacklist = False, proxy_in = None, address_pool = [],
     dest = [], sar_in = [], msg_out = [], pkt_out = [], open_cb = False\<rparr>"

text \<open>The static variables at the start of the program.\<close>

definition blank_world :: world where
  "blank_world = \<lparr>net = blank_net, keys = no_keys, virt_addrs = [], nodes = [], next_ref = 0,
     local_node = None, log = []\<rparr>"

end
