(* ===== verification/Mesh_Node.thy ===== *)
theory Mesh_Node
  imports Mesh_World
begin

text \<open>
  \<^verbatim>\<open>mesh/node.c\<close>: the nodes of the network, their elements and models, and the
  delivery of an access message to the models of the local node.

  A node argument is a pointer or null, so of type \<^typ>\<open>nat option\<close>. An
  allocation does not fail (GLib aborts the program).
\<close>

section \<open>Finding, creating and removing nodes\<close>

definition match_node_unicast :: "u16 \<Rightarrow> mesh_node \<Rightarrow> bool" where
  "match_node_unicast dst n \<longleftrightarrow>
     dst \<ge> primary n \<and> uint dst \<le> uint (primary n) + uint (num_ele n) - 1"

definition node_find_by_addr :: "'a world_scheme \<Rightarrow> u16 \<Rightarrow> nat option" where
  "node_find_by_addr w addr =
     (if \<not> IS_UNICAST addr then None
      else map_option nref (find (match_node_unicast addr) (nodes w)))"

definition node_find_by_uuid :: "'a world_scheme \<Rightarrow> bytes \<Rightarrow> nat option" where
  "node_find_by_uuid w uuid = map_option nref (find (\<lambda>n. dev_uuid n = uuid) (nodes w))"

text \<open>A node record fresh from \<^verbatim>\<open>g_malloc0\<close>, appended to the list.\<close>

definition add_node :: "(mesh_node \<Rightarrow> mesh_node) \<Rightarrow> 'a world_scheme \<Rightarrow> 'a world_scheme \<times> nat" where
  "add_node f w =
     (w\<lparr>nodes := nodes w @ [f (blank_node (next_ref w))], next_ref := next_ref w + 1\<rparr>, next_ref w)"

definition node_create_new :: "u16 \<Rightarrow> bytes \<Rightarrow> 'a world_scheme \<Rightarrow> 'a world_scheme \<times> nat option" where
  "node_create_new prov_oob prov_dev_uuid w =
     (case node_find_by_uuid w prov_dev_uuid of
        Some _ \<Rightarrow> (w, None)
      | None \<Rightarrow>
          let (w', r) = add_node (\<lambda>n. n\<lparr>dev_uuid := prov_dev_uuid, oob := prov_oob\<rparr>) w
          in (w', Some r))"

definition node_new :: "'a world_scheme \<Rightarrow> 'a world_scheme \<times> nat" where
  "node_new w = add_node (\<lambda>n. n) w"

definition node_free :: "nat option \<Rightarrow> 'a world_scheme \<Rightarrow> 'a world_scheme" where
  "node_free node w =
     (case node of None \<Rightarrow> w | Some r \<Rightarrow> w\<lparr>nodes := delete_first (\<lambda>n. nref n = r) (nodes w)\<rparr>)"

text \<open>
  At the end of the program all nodes are freed. The code leaves the pointer to the
  list as it is; nothing reads it afterwards.
\<close>

definition node_cleanup :: "'a world_scheme \<Rightarrow> 'a world_scheme" where
  "node_cleanup w = w\<lparr>nodes := [], local_node := None\<rparr>"

section \<open>Attributes\<close>

definition node_is_provisioned :: "mesh_node \<Rightarrow> bool" where
  "node_is_provisioned n \<longleftrightarrow> \<not> IS_UNASSIGNED (primary n)"

definition node_set_prov :: "nat \<Rightarrow> prov_data option \<Rightarrow> 'a world_scheme \<Rightarrow> 'a world_scheme" where
  "node_set_prov node prov w = upd_node node (\<lambda>n. n\<lparr>n_prov := prov\<rparr>) w"

definition app_key_index :: "u16 \<Rightarrow> u16 \<Rightarrow> u32" where
  "app_key_index net_idx idx = push_bit 16 (ucast net_idx) + ucast idx"

definition node_app_key_add :: "nat option \<Rightarrow> u16 \<Rightarrow> 'a world_scheme \<Rightarrow> 'a world_scheme \<times> bool" where
  "node_app_key_add node idx w =
     (case node of None \<Rightarrow> (w, False)
      | Some r \<Rightarrow>
          let net_idx = keys_app_key_get_bound (keys w) idx in
          if net_idx = NET_IDX_INVALID then (w, False)
          else (case node_at w r of None \<Rightarrow> (w, False)
            | Some n \<Rightarrow>
                if net_idx \<notin> set (n_net_keys n) then (w, False)
                else if app_key_index net_idx idx \<in> set (n_app_keys n) then (w, False)
                else (upd_node r (\<lambda>n. n\<lparr>n_app_keys := n_app_keys n @ [app_key_index net_idx idx]\<rparr>) w, True)))"

definition node_net_key_add :: "nat option \<Rightarrow> u16 \<Rightarrow> 'a world_scheme \<Rightarrow> 'a world_scheme \<times> bool" where
  "node_net_key_add node index w =
     (case Option.bind node (node_at w) of None \<Rightarrow> (w, False)
      | Some n \<Rightarrow>
          if index \<in> set (n_net_keys n) then (w, False)
          else (upd_node (nref n) (\<lambda>n. n\<lparr>n_net_keys := n_net_keys n @ [index]\<rparr>) w, True))"

definition node_net_key_delete :: "nat option \<Rightarrow> u16 \<Rightarrow> 'a world_scheme \<Rightarrow> 'a world_scheme \<times> bool" where
  "node_net_key_delete node index w =
     (case Option.bind node (node_at w) of None \<Rightarrow> (w, False)
      | Some n \<Rightarrow>
          if index \<notin> set (n_net_keys n) then (w, False)
          else (upd_node (nref n) (\<lambda>n. n\<lparr>n_net_keys := remove1 index (n_net_keys n)\<rparr>) w, True))"

definition node_app_key_delete :: "nat option \<Rightarrow> u16 \<Rightarrow> u16 \<Rightarrow> 'a world_scheme \<Rightarrow> 'a world_scheme \<times> bool" where
  "node_app_key_delete node net_idx idx w =
     (case Option.bind node (node_at w) of None \<Rightarrow> (w, False)
      | Some n \<Rightarrow>
          if app_key_index net_idx idx \<notin> set (n_app_keys n) then (w, False)
          else (upd_node (nref n) (\<lambda>n. n\<lparr>n_app_keys := remove1 (app_key_index net_idx idx) (n_app_keys n)\<rparr>) w, True))"

definition node_set_primary :: "nat \<Rightarrow> u16 \<Rightarrow> 'a world_scheme \<Rightarrow> 'a world_scheme" where
  "node_set_primary node unicast w = upd_node node (\<lambda>n. n\<lparr>primary := unicast\<rparr>) w"

definition node_get_primary :: "mesh_node option \<Rightarrow> u16" where
  "node_get_primary node = (case node of None \<Rightarrow> UNASSIGNED_ADDRESS | Some n \<Rightarrow> primary n)"

definition node_set_device_key :: "nat option \<Rightarrow> bytes \<Rightarrow> 'a world_scheme \<Rightarrow> 'a world_scheme" where
  "node_set_device_key node k w =
     (case node of None \<Rightarrow> w | Some r \<Rightarrow> upd_node r (\<lambda>n. n\<lparr>dev_key := k\<rparr>) w)"

definition node_get_device_key :: "mesh_node option \<Rightarrow> bytes option" where
  "node_get_device_key node = map_option dev_key node"

definition node_set_num_elements :: "nat \<Rightarrow> u8 \<Rightarrow> 'a world_scheme \<Rightarrow> 'a world_scheme" where
  "node_set_num_elements node n w = upd_node node (\<lambda>x. x\<lparr>num_ele := n\<rparr>) w"

definition node_get_primary_net_idx :: "mesh_node option \<Rightarrow> u16" where
  "node_get_primary_net_idx node = (case node of None \<Rightarrow> NET_IDX_INVALID | Some n \<Rightarrow> primary_net_idx n)"

definition net_set_default_ttl :: "u8 \<Rightarrow> 'a world_scheme \<Rightarrow> 'a world_scheme \<times> bool" where
  "net_set_default_ttl ttl w = (if ttl > 0x7f then (w, False) else (w\<lparr>net := (net w)\<lparr>default_ttl := ttl\<rparr>\<rparr>, True))"

definition net_set_seq_num :: "u32 \<Rightarrow> 'a world_scheme \<Rightarrow> 'a world_scheme \<times> bool" where
  "net_set_seq_num seq w = (if seq > 0xffffff then (w, False) else (w\<lparr>net := (net w)\<lparr>seq_num := seq\<rparr>\<rparr>, True))"

definition is_local :: "'a world_scheme \<Rightarrow> nat \<Rightarrow> bool" where
  "is_local w r \<longleftrightarrow> local_node w = Some r"

definition node_get_default_ttl :: "'a world_scheme \<Rightarrow> nat option \<Rightarrow> u8" where
  "node_get_default_ttl w node =
     (case Option.bind node (node_at w) of None \<Rightarrow> DEFAULT_TTL
      | Some n \<Rightarrow> if is_local w (nref n) then default_ttl (net w) else n_ttl n)"

definition node_set_default_ttl :: "nat option \<Rightarrow> u8 \<Rightarrow> 'a world_scheme \<Rightarrow> 'a world_scheme \<times> bool" where
  "node_set_default_ttl node ttl w =
     (case node of None \<Rightarrow> (w, False)
      | Some r \<Rightarrow>
          let w1 = upd_node r (\<lambda>n. n\<lparr>n_ttl := ttl\<rparr>) w
          in if is_local w r \<or> local_node w = None then net_set_default_ttl ttl w1 else (w1, True))"

definition node_set_sequence_number :: "nat option \<Rightarrow> u32 \<Rightarrow> 'a world_scheme \<Rightarrow> 'a world_scheme \<times> bool" where
  "node_set_sequence_number node seq w =
     (case node of None \<Rightarrow> (w, False)
      | Some r \<Rightarrow>
          let w1 = upd_node r (\<lambda>n. n\<lparr>n_seq_number := seq\<rparr>) w
          in if is_local w r \<or> local_node w = None then net_set_seq_num seq w1 else (w1, True))"

definition node_get_sequence_number :: "'a world_scheme \<Rightarrow> nat option \<Rightarrow> u32" where
  "node_get_sequence_number w node =
     (case Option.bind node (node_at w) of None \<Rightarrow> 0xffffffff
      | Some n \<Rightarrow> if is_local w (nref n) then seq_num (net w) else n_seq_number n)"

definition node_set_iv_index :: "nat option \<Rightarrow> u32 \<Rightarrow> 'a world_scheme \<Rightarrow> 'a world_scheme \<times> bool" where
  "node_set_iv_index node iv w =
     (case node of None \<Rightarrow> (w, False) | Some r \<Rightarrow> (upd_node r (\<lambda>n. n\<lparr>n_iv_index := iv\<rparr>) w, True))"

definition node_get_iv_index :: "'a world_scheme \<Rightarrow> nat option \<Rightarrow> u32" where
  "node_get_iv_index w node =
     (case Option.bind node (node_at w) of None \<Rightarrow> 0xffffffff
      | Some n \<Rightarrow> if is_local w (nref n) then iv_index (net w) else n_iv_index n)"

definition node_set_local_node :: "nat \<Rightarrow> 'a world_scheme \<Rightarrow> 'a world_scheme \<times> bool" where
  "node_set_local_node node w =
     (case local_node w of
        Some _ \<Rightarrow> (w, False)
      | None \<Rightarrow> (upd_node node (\<lambda>n. n\<lparr>n_provisioner := True\<rparr>) (w\<lparr>local_node := Some node\<rparr>), True))"

section \<open>Elements and models\<close>

definition find_element :: "mesh_node \<Rightarrow> u8 \<Rightarrow> mesh_element option" where
  "find_element n ele_idx = find (\<lambda>e. ele_index e = ele_idx) (elements n)"

definition find_model :: "mesh_element \<Rightarrow> u32 \<Rightarrow> mesh_model option" where
  "find_model e i = find (\<lambda>m. mod_id m = i) (models e)"

definition upd_model :: "u8 \<Rightarrow> u32 \<Rightarrow> (mesh_model \<Rightarrow> mesh_model) \<Rightarrow> mesh_node \<Rightarrow> mesh_node" where
  "upd_model ele_idx i f n =
     n\<lparr>elements := update_first (\<lambda>e. ele_index e = ele_idx)
        (\<lambda>e. e\<lparr>models := update_first (\<lambda>m. mod_id m = i) f (models e)\<rparr>) (elements n)\<rparr>"

definition get_model :: "'a world_scheme \<Rightarrow> nat option \<Rightarrow> u8 \<Rightarrow> u32 \<Rightarrow> mesh_model option" where
  "get_model w node ele_idx model_id =
     Option.bind (Option.bind node (node_at w)) (\<lambda>n.
       Option.bind (find_element n ele_idx) (\<lambda>e. find_model e model_id))"

definition node_set_element :: "nat option \<Rightarrow> u8 \<Rightarrow> 'a world_scheme \<Rightarrow> 'a world_scheme \<times> bool" where
  "node_set_element node ele_idx w =
     (case Option.bind node (node_at w) of None \<Rightarrow> (w, False)
      | Some n \<Rightarrow>
          (case find_element n ele_idx of Some _ \<Rightarrow> (w, False)
           | None \<Rightarrow> (upd_node (nref n) (\<lambda>n. n\<lparr>elements := elements n @
                        [\<lparr>models = [], loc = 0, ele_index = ele_idx\<rparr>]\<rparr>) w, True)))"

definition node_set_model :: "nat option \<Rightarrow> u8 \<Rightarrow> u32 \<Rightarrow> 'a world_scheme \<Rightarrow> 'a world_scheme \<times> bool" where
  "node_set_model node ele_idx i w =
     (case Option.bind node (node_at w) of None \<Rightarrow> (w, False)
      | Some n \<Rightarrow>
          (case find_element n ele_idx of None \<Rightarrow> (w, False)
           | Some e \<Rightarrow>
               (case find_model e i of Some _ \<Rightarrow> (w, True)
                | None \<Rightarrow>
                    (upd_node (nref n) (\<lambda>n. n\<lparr>elements := update_first (\<lambda>e. ele_index e = ele_idx)
                       (\<lambda>e. e\<lparr>models := models e @ [blank_model i]\<rparr>) (elements n)\<rparr>) w, True))))"

definition node_set_composition :: "nat option \<Rightarrow> mesh_node_composition option \<Rightarrow> 'a world_scheme \<Rightarrow> 'a world_scheme \<times> bool" where
  "node_set_composition node c w =
     (case (Option.bind node (node_at w), c) of
        (Some n, Some x) \<Rightarrow>
          if comp n \<noteq> None then (w, False)
          else (upd_node (nref n) (\<lambda>n. n\<lparr>comp := Some x\<rparr>) w, True)
      | _ \<Rightarrow> (w, False))"

text \<open>
  \<open>bnd cb app_idx action w\<close> is the bind callback of a client: its new state and the
  status it returns. The code takes a zero status, which is success, as a refusal.
\<close>

definition node_add_binding ::
  "(model_cb \<Rightarrow> u16 \<Rightarrow> nat \<Rightarrow> 'a world_scheme \<Rightarrow> 'a world_scheme \<times> int) \<Rightarrow>
   nat option \<Rightarrow> u8 \<Rightarrow> u32 \<Rightarrow> u16 \<Rightarrow> 'a world_scheme \<Rightarrow> 'a world_scheme \<times> bool" where
  "node_add_binding bnd node ele_idx model_id app_idx w =
     (case get_model w node ele_idx model_id of None \<Rightarrow> (w, False)
      | Some m \<Rightarrow>
          if app_idx \<in> set (bindings m) then (w, False)
          else
            let record_it = (\<lambda>w. (upd_node (the node) (upd_model ele_idx model_id
                   (\<lambda>m. m\<lparr>bindings := bindings m @ [app_idx]\<rparr>)) w, True))
            in (case op_bind (cbs m) of
                  Some cb \<Rightarrow>
                    if node = local_node w then
                      (let (w1, status) = bnd cb app_idx 1 w
                       in if status = 0 then (w1, False) else record_it w1)
                    else record_it w
                | None \<Rightarrow> record_it w))"

definition node_add_subscription :: "nat option \<Rightarrow> u8 \<Rightarrow> u32 \<Rightarrow> u16 \<Rightarrow> 'a world_scheme \<Rightarrow> 'a world_scheme \<times> bool" where
  "node_add_subscription node ele_idx model_id addr w =
     (case get_model w node ele_idx model_id of None \<Rightarrow> (w, False)
      | Some m \<Rightarrow>
          if addr \<in> set (subscriptions m) then (w, False)
          else (upd_node (the node) (upd_model ele_idx model_id
                  (\<lambda>m. m\<lparr>subscriptions := subscriptions m @ [addr]\<rparr>)) w, True))"

definition node_model_pub_set :: "nat option \<Rightarrow> u8 \<Rightarrow> u32 \<Rightarrow> mesh_publication \<Rightarrow> 'a world_scheme \<Rightarrow> 'a world_scheme \<times> bool" where
  "node_model_pub_set node ele model_id p w =
     (case get_model w node ele model_id of None \<Rightarrow> (w, False)
      | Some m \<Rightarrow>
          let w1 = upd_node (the node) (upd_model ele model_id (\<lambda>m. m\<lparr>pub := Some p\<rparr>)) w
          in (case op_pub (cbs m) of
                Some cb \<Rightarrow> (if node = local_node w then emit (Model_pub cb p) w1 else w1, True)
              | None \<Rightarrow> (w1, True)))"

definition node_model_pub_get :: "'a world_scheme \<Rightarrow> nat option \<Rightarrow> u8 \<Rightarrow> u32 \<Rightarrow> mesh_publication option" where
  "node_model_pub_get w node ele model_id = Option.bind (get_model w node ele model_id) pub"

text \<open>Registration of a model of the local node; the idle callback is \<open>restore_model_state\<close>.\<close>

definition node_local_vendor_model_register ::
  "u8 \<Rightarrow> u32 \<Rightarrow> mesh_model_ops \<Rightarrow> 'a world_scheme \<Rightarrow> 'a world_scheme \<times> bool" where
  "node_local_vendor_model_register ele_idx model_id ops w =
     (case get_model w (local_node w) ele_idx model_id of None \<Rightarrow> (w, False)
      | Some m \<Rightarrow>
          let r = the (local_node w);
              w1 = upd_node r (upd_model ele_idx model_id (\<lambda>m. m\<lparr>cbs := ops\<rparr>)) w;
              short = (if model_id \<ge> 0xffff0000 then model_id AND 0xffff else model_id)
          in if short = 0x0000 \<or> short = 0x0001 then
               (upd_node r (upd_model ele_idx model_id (\<lambda>m. m\<lparr>bindings := bindings m @ [APP_IDX_DEV]\<rparr>)) w1, True)
             else (emit (Idle_restore r ele_idx model_id) w1, True))"

definition node_local_model_register ::
  "u8 \<Rightarrow> u16 \<Rightarrow> mesh_model_ops \<Rightarrow> 'a world_scheme \<Rightarrow> 'a world_scheme \<times> bool" where
  "node_local_model_register ele_idx model_id ops w =
     node_local_vendor_model_register ele_idx (0xffff0000 OR ucast model_id) ops w"

fun restore_bindings ::
  "(model_cb \<Rightarrow> u16 \<Rightarrow> nat \<Rightarrow> 'a world_scheme \<Rightarrow> 'a world_scheme \<times> int) \<Rightarrow>
   model_cb \<Rightarrow> u16 list \<Rightarrow> 'a world_scheme \<Rightarrow> 'a world_scheme" where
  "restore_bindings bnd cb [] w = w"
| "restore_bindings bnd cb (i # is) w =
     (let (w1, status) = bnd cb i 1 w
      in if status \<noteq> 0 then w1 else restore_bindings bnd cb is w1)"

definition restore_model_state ::
  "(model_cb \<Rightarrow> u16 \<Rightarrow> nat \<Rightarrow> 'a world_scheme \<Rightarrow> 'a world_scheme \<times> int) \<Rightarrow>
   mesh_model \<Rightarrow> 'a world_scheme \<Rightarrow> 'a world_scheme" where
  "restore_model_state bnd m w =
     (let w1 = (case op_bind (cbs m) of Some cb \<Rightarrow> restore_bindings bnd cb (bindings m) w | None \<Rightarrow> w)
      in (case (pub m, op_pub (cbs m)) of (Some p, Some cb) \<Rightarrow> emit (Model_pub cb p) w1 | _ \<Rightarrow> w1))"

section \<open>Composition data\<close>

text \<open>
  \<open>data\<close> are the octets from the pointer on that may be read; \<open>len\<close> is the
  \<^verbatim>\<open>uint16_t\<close> count, which is decreased without being checked. The two inner
  loops stop when the count or \<^verbatim>\<open>m\<close> (\<^verbatim>\<open>v\<close>) is used up.
\<close>

fun comp_models ::
  "nat \<Rightarrow> (bytes \<Rightarrow> u32) \<Rightarrow> nat option \<Rightarrow> u8 \<Rightarrow> nat \<Rightarrow> bytes \<Rightarrow> u16 \<Rightarrow> 'a world_scheme \<Rightarrow>
   ('a world_scheme \<times> bool \<times> bytes \<times> u16) cres" where
  "comp_models width get_id node ele 0 data len w = Ret (w, True, data, len)"
| "comp_models width get_id node ele (Suc m) data len w =
     (if unat len < width then Ret (w, True, data, len)
      else cguard (width \<le> length data)
        (let (w1, ok) = node_set_model node ele (get_id data) w
         in if \<not> ok then Ret (w1, False, data, len)
            else comp_models width get_id node ele m (drop width data) (len - of_nat width) w1))"

fun comp_elements :: "nat option \<Rightarrow> nat \<Rightarrow> nat \<Rightarrow> bytes \<Rightarrow> u16 \<Rightarrow> 'a world_scheme \<Rightarrow> ('a world_scheme \<times> bool) cres" where
  "comp_elements node 0 i data len w = Ret (w, True)"
| "comp_elements node (Suc n) i data len w =
     cguard (4 \<le> length data)
       (let ele = \<lparr>models = [], loc = get_le16 data 0, ele_index = of_nat i\<rparr>;
            w1 = upd_node (the node) (\<lambda>nd. nd\<lparr>elements := elements nd @ [ele]\<rparr>) w;
            m = unat (byte_at data 2); v = unat (byte_at data 3)
        in cbind (comp_models 2 (\<lambda>d. ucast (get_le16 d 0) OR 0xffff0000) node (of_nat i) m (drop 4 data) (len - 2) w1)
             (\<lambda>(w2, ok2, data2, len2).
               if \<not> ok2 then Ret (w2, False)
               else cbind (comp_models 4 (\<lambda>d. ucast (get_le16 d 2) OR push_bit 16 (ucast (get_le16 d 0))) node (of_nat i) v data2 len2 w2)
                 (\<lambda>(w3, ok3, data3, len3).
                   if \<not> ok3 then Ret (w3, False)
                   else comp_elements node n (i + 1) data3 len3 w3)))"

definition node_parse_composition :: "nat \<Rightarrow> bytes \<Rightarrow> u16 \<Rightarrow> 'a world_scheme \<Rightarrow> ('a world_scheme \<times> bool) cres" where
  "node_parse_composition node data len w =
     cguard (11 \<le> length data)
       (case node_at w node of None \<Rightarrow> Fault
        | Some nd \<Rightarrow>
            let d = drop 1 data; features = get_le16 d 8;
                c = \<lparr>relay = (features AND 1 \<noteq> 0), proxy = (features AND 2 \<noteq> 0), lpn = (features AND 8 \<noteq> 0),
                     friend = (features AND 4 \<noteq> 0), cid = get_le16 d 0, pid = get_le16 d 2,
                     vid = get_le16 d 4, crpl = get_le16 d 6\<rparr>
            in cbind (comp_elements (Some node) (unat (num_ele nd)) 0 (drop 10 d) (len - 1 - 10) w)
                 (\<lambda>(w1, ok).
                   if ok then Ret (upd_node node (\<lambda>nd. nd\<lparr>comp := Some c\<rparr>) w1, True) else Ret (w1, False)))"

section \<open>Delivery to the local models\<close>

text \<open>
  \<open>recv cb src data w\<close> is the receive callback of a client: the new state and
  whether it consumed the message. The handler keeps a pointer to the sender's
  node across the call; it is a fault if the callback freed that node and the
  message was consumed.
\<close>

fun deliver_loop ::
  "(model_cb \<Rightarrow> u16 \<Rightarrow> bytes \<Rightarrow> 'a world_scheme \<Rightarrow> ('a world_scheme \<times> bool) cres) \<Rightarrow>
   mesh_model list \<Rightarrow> u16 \<Rightarrow> u16 \<Rightarrow> bytes \<Rightarrow> 'a world_scheme \<Rightarrow> ('a world_scheme \<times> bool) cres" where
  "deliver_loop recv [] src app_idx data w = Ret (w, False)"
| "deliver_loop recv (m # ms) src app_idx data w =
     (if app_idx \<notin> set (bindings m) then deliver_loop recv ms src app_idx data w
      else (case op_recv (cbs m) of
          None \<Rightarrow> deliver_loop recv ms src app_idx data w
        | Some cb \<Rightarrow>
            cbind (recv cb src data w) (\<lambda>(w1, taken).
              if taken then Ret (w1, True) else deliver_loop recv ms src app_idx data w1)))"

definition deliver_model_data where
  "deliver_model_data recv element src app_idx data w = deliver_loop recv (models element) src app_idx data w"

text \<open>
  The shift of \<^verbatim>\<open>iv_index << 24\<close> is done in 32 bits, and the remote's sequence number
  is or-ed into the value of the received message.
\<close>

definition replay_detected :: "mesh_node \<Rightarrow> u32 \<Rightarrow> u32 \<Rightarrow> bool" where
  "replay_detected remote iv seq \<longleftrightarrow>
     (let iv_seq = (ucast (push_bit 24 iv) OR ucast seq :: u64);
          iv_seq_remote = (ucast (push_bit 24 (n_iv_index remote)) :: u64);
          iv_seq' = iv_seq OR ucast (n_seq_number remote)
      in iv_seq_remote \<ge> iv_seq')"

text \<open>\<open>src\<close> is one of the local node's own element addresses.\<close>

definition is_loopback :: "mesh_node \<Rightarrow> u16 \<Rightarrow> bool" where
  "is_loopback ln src \<longleftrightarrow> uint src < uint (primary ln) + uint (num_ele ln) \<and> src \<ge> primary ln"

definition local_ele_idx :: "mesh_node \<Rightarrow> u32 \<Rightarrow> u8 option" where
  "local_ele_idx ln dst =
     (if IS_ALL_NODES dst then Some 0
      else if uint dst \<ge> uint (primary ln) + uint (num_ele ln) \<or> uint dst < uint (primary ln) then None
      else Some (ucast (dst - ucast (primary ln))))"

text \<open>The sender's node; a sender that is not known gets a node of one element.\<close>

definition remote_for_src :: "u16 \<Rightarrow> 'a world_scheme \<Rightarrow> 'a world_scheme \<times> nat" where
  "remote_for_src src w =
     (case node_find_by_addr w src of Some r \<Rightarrow> (w, r)
      | None \<Rightarrow> add_node (\<lambda>n. n\<lparr>primary := src, num_ele := 1\<rparr>) w)"

definition deliver_from ::
  "(model_cb \<Rightarrow> u16 \<Rightarrow> bytes \<Rightarrow> 'a world_scheme \<Rightarrow> ('a world_scheme \<times> bool) cres) \<Rightarrow>
   nat \<Rightarrow> u16 \<Rightarrow> u32 \<Rightarrow> u32 \<Rightarrow> u32 \<Rightarrow> u16 \<Rightarrow> bytes \<Rightarrow> 'a world_scheme \<Rightarrow> 'a world_scheme cres" where
  "deliver_from recv r src dst iv seq app_idx data w =
     (case (node_at w r, local_node_rec w) of
        (Some remote, Some ln) \<Rightarrow>
          let loopback = is_loopback ln src in
          if \<not> loopback \<and> replay_detected remote iv seq then Ret w
          else if IS_GROUP dst \<or> IS_VIRTUAL dst then Ret w
          else (case local_ele_idx ln dst of None \<Rightarrow> Ret w
            | Some ele_idx \<Rightarrow>
                (case find_element ln ele_idx of None \<Rightarrow> Ret w
                 | Some element \<Rightarrow>
                     cbind (deliver_model_data recv element src app_idx data w) (\<lambda>(w1, res).
                       if res \<and> \<not> loopback then
                         cguard (node_at w1 r \<noteq> None)
                           (Ret (emit (Db_node_iv_seq r iv seq)
                             (upd_node r (\<lambda>n. n\<lparr>n_iv_index := iv, n_seq_number := seq\<rparr>) w1)))
                       else Ret w1)))
      | _ \<Rightarrow> Ret w)"

definition node_local_data_handler ::
  "(model_cb \<Rightarrow> u16 \<Rightarrow> bytes \<Rightarrow> 'a world_scheme \<Rightarrow> ('a world_scheme \<times> bool) cres) \<Rightarrow>
   u16 \<Rightarrow> u32 \<Rightarrow> u32 \<Rightarrow> u32 \<Rightarrow> u16 \<Rightarrow> bytes \<Rightarrow> 'a world_scheme \<Rightarrow> 'a world_scheme cres" where
  "node_local_data_handler recv src dst iv seq app_idx data w =
     (case local_node_rec w of None \<Rightarrow> Ret w
      | Some ln \<Rightarrow>
        if seq > 0xffffff then Ret w
        else if node_find_by_addr w src = None \<and> n_provisioner ln then Ret w
        else (let (w1, r) = remote_for_src src w in deliver_from recv r src dst iv seq app_idx data w1))"

section \<open>Lemmas\<close>

lemma nodes_emit [simp]: "nodes (emit e w) = nodes w" "local_node (emit e w) = local_node w" "node_at (emit e w) = node_at w"
  "keys (emit e w) = keys w" "net (emit e w) = net w"
  by (auto simp: emit_def node_at_def)

lemma node_at_upd:
  assumes "\<And>n. nref (f n) = nref n"
  shows "node_at (upd_node r f w) k = (if k = r then map_option f (node_at w k) else node_at w k)"
  using assms by (simp add: node_at_def upd_node_def find_update_field)

lemma node_at_nref: "node_at w r = Some n \<Longrightarrow> nref n = r"
  by (auto simp: node_at_def dest: find_SomeD)

text \<open>The memory of the nodes: pointers are distinct and below the next one to be allocated.\<close>

definition nodes_wf :: "'a world_scheme \<Rightarrow> bool" where
  "nodes_wf w \<longleftrightarrow> distinct (map nref (nodes w)) \<and> (\<forall>n\<in>set (nodes w). nref n < next_ref w)"

lemma node_at_find:
  assumes "nodes_wf w" "n \<in> set (nodes w)"
  shows "node_at w (nref n) = Some n"
  using assms by (simp add: nodes_wf_def node_at_def find_unique_Some)

lemma nodes_wf_upd:
  "nodes_wf w \<Longrightarrow> (\<And>n. nref (f n) = nref n) \<Longrightarrow> nodes_wf (upd_node r f w)"
proof -
  assume wf: "nodes_wf w" and f: "\<And>n. nref (f n) = nref n"
  have m: "map nref (update_first (\<lambda>n. nref n = r) f (nodes w)) = map nref (nodes w)"
    by (rule map_update_first) (simp add: f)
  have "nref n < next_ref w" if "n \<in> set (update_first (\<lambda>n. nref n = r) f (nodes w))" for n
  proof -
    have "nref n \<in> set (map nref (update_first (\<lambda>n. nref n = r) f (nodes w)))" using that by simp
    then show ?thesis using wf unfolding m nodes_wf_def by auto
  qed
  with wf m show ?thesis by (simp add: nodes_wf_def upd_node_def)
qed

lemma add_node_facts:
  assumes "nodes_wf w" "add_node f w = (w', r)" "nref (f (blank_node (next_ref w))) = next_ref w"
  shows "nodes_wf w'" "node_at w' r = Some (f (blank_node r))" "node_at w r = None"
    "r' \<noteq> r \<Longrightarrow> node_at w' r' = node_at w r'"
proof -
  from assms(2) have w': "w' = w\<lparr>nodes := nodes w @ [f (blank_node (next_ref w))], next_ref := next_ref w + 1\<rparr>" "r = next_ref w"
    by (auto simp: add_node_def)
  have fresh: "next_ref w \<notin> nref ` set (nodes w)" using assms(1) by (auto simp: nodes_wf_def)
  then show n: "node_at w r = None" by (simp add: node_at_def w' find_None_field)
  show "nodes_wf w'" using assms(1,3) fresh by (auto simp: nodes_wf_def w' less_Suc_eq)
  show "node_at w' r = Some (f (blank_node r))"
    using n assms(3) by (simp add: node_at_def w' find_append_single)
  show "r' \<noteq> r \<Longrightarrow> node_at w' r' = node_at w r'"
    using assms(3) by (auto simp: node_at_def w' find_append_single split: option.splits)
qed

lemma deliver_unbound:
  "(\<forall>m\<in>set ms. app_idx \<notin> set (bindings m)) \<Longrightarrow> deliver_loop recv ms src app_idx data w = Ret (w, False)"
  by (induction ms) auto

text \<open>The replay check compares the last octets of the IV indexes: the shift is done in 32 bits.\<close>

lemma unat_iv_shift: "unat (ucast (push_bit 24 iv :: u32) :: u64) = unat iv mod 256 * 2 ^ 24" for iv :: u32
proof -
  have "2 ^ 24 * unat iv mod 2 ^ 32 = 2 ^ 24 * (unat iv mod 2 ^ 8)"
    using mult_mod_right [of "2 ^ 24 :: nat" "unat iv" "2 ^ 8"] by (simp flip: power_add)
  then show ?thesis using unsigned_less [of iv, where 'a = nat] by (simp add: unat_ucast_mod unat_push mult.commute)
qed

lemma le_24_iff_mask: "(s::u32) \<le> 0xffffff \<longleftrightarrow> s AND mask 24 = s"
proof -
  have "s \<le> 0xffffff \<longleftrightarrow> unat s < 2 ^ 24" by (auto simp: word_le_nat_alt)
  then show ?thesis by (simp add: word_unat_eq_iff unat_and_mask mod_eq_self_iff_div_eq_0 div_eq_0_iff)
qed

lemma or_seq_le: "(x :: u32) \<le> 0xffffff \<Longrightarrow> y \<le> 0xffffff \<Longrightarrow> x OR y \<le> 0xffffff"
  unfolding le_24_iff_mask by (metis word_ao_dist)

lemma iv_or_seq:
  fixes iv s :: u32
  assumes "s \<le> 0xffffff"
  shows "unat (ucast (push_bit 24 iv) OR ucast s :: u64) = unat iv mod 256 * 2 ^ 24 + unat s"
proof -
  have m: "s AND mask 24 = s" using assms by (simp add: le_24_iff_mask)
  have "(ucast (push_bit 24 iv) :: u64) AND ucast s = 0"
    by (subst m [symmetric], rule bit_word_eqI) (auto simp: bit_simps)
  then have "(ucast (push_bit 24 iv) OR ucast s :: u64) = ucast (push_bit 24 iv) + ucast s"
    by (simp add: disjunctive_add_eq_or)
  moreover have "unat iv mod 256 * 2 ^ 24 + unat s < 2 ^ 64"
    using unsigned_less [of s, where 'a = nat] mod_less_divisor [of 256 "unat iv"] by simp
  moreover have "unat (ucast s :: u64) = unat s" using unsigned_less [of s, where 'a = nat] by (simp add: unat_ucast_mod)
  ultimately show ?thesis
    by (simp only: unat_word_ariths(1) unat_iv_shift) simp
qed

lemma seq_cmp: "(c::nat) < 2 ^ 24 \<Longrightarrow> a * 2 ^ 24 + c \<le> b * 2 ^ 24 \<longleftrightarrow> a < b \<or> a = b \<and> c = 0"
  by (simp, arith)

lemma replay_detected_iff:
  assumes "seq \<le> 0xffffff" "n_seq_number remote \<le> 0xffffff"
  shows "replay_detected remote iv seq \<longleftrightarrow>
    unat iv mod 256 < unat (n_iv_index remote) mod 256 \<or>
    unat iv mod 256 = unat (n_iv_index remote) mod 256 \<and> seq = 0 \<and> n_seq_number remote = 0"
proof -
  let ?s = "seq OR n_seq_number remote"
  have le: "?s \<le> 0xffffff" by (rule or_seq_le [OF assms])
  have u: "(ucast seq OR ucast (n_seq_number remote) :: u64) = ucast ?s"
    by (rule bit_word_eqI) (auto simp: bit_simps)
  have "replay_detected remote iv seq \<longleftrightarrow>
      unat iv mod 256 * 2 ^ 24 + unat ?s \<le> unat (n_iv_index remote) mod 256 * 2 ^ 24"
    unfolding replay_detected_def Let_def or.assoc u word_le_nat_alt iv_or_seq [OF le] unat_iv_shift ..
  moreover have "unat ?s < 2 ^ 24" using le by (simp add: word_le_nat_alt)
  moreover have "?s = 0 \<longleftrightarrow> seq = 0 \<and> n_seq_number remote = 0" by (simp add: or_eq_0_iff)
  ultimately show ?thesis using seq_cmp [of "unat ?s"] by (simp add: unat_eq_0)
qed

lemma deliver_loop_cong:
  assumes "\<And>m cb. m \<in> set ms \<Longrightarrow> app_idx \<in> set (bindings m) \<Longrightarrow> op_recv (cbs m) = Some cb \<Longrightarrow> recv cb = recv' cb"
  shows "deliver_loop recv ms src app_idx data w = deliver_loop recv' ms src app_idx data w"
  using assms
proof (induction ms arbitrary: w)
  case (Cons m ms)
  then have IH: "deliver_loop recv ms src app_idx data w = deliver_loop recv' ms src app_idx data w" for w by auto
  have "op_recv (cbs m) = Some cb \<Longrightarrow> app_idx \<in> set (bindings m) \<Longrightarrow> recv cb = recv' cb" for cb
    using Cons.prems by auto
  then show ?case by (auto simp: IH split: option.splits cong: if_cong)
qed simp

lemma find_element_mem: "find_element n i = Some e \<Longrightarrow> e \<in> set (elements n)"
  by (auto simp: find_element_def dest: find_SomeD)

section \<open>Properties\<close>

text \<open>
  \<open>node_find_by_addr\<close> finds a node exactly when the address is unicast and
  lies in the range of elements of some node, and the node found covers it.
\<close>

lemma node_find_by_addr_correct:
  "(\<forall>r. node_find_by_addr w a = Some r \<longrightarrow>
      (\<exists>n\<in>set (nodes w). nref n = r \<and> IS_UNICAST a \<and> primary n \<le> a \<and> unat a < unat (primary n) + unat (num_ele n))) \<and>
   (node_find_by_addr w a = None \<longleftrightarrow>
      \<not> IS_UNICAST a \<or> (\<forall>n\<in>set (nodes w). \<not> (primary n \<le> a \<and> unat a < unat (primary n) + unat (num_ele n))))"
proof -
  have m: "match_node_unicast a n \<longleftrightarrow> primary n \<le> a \<and> unat a < unat (primary n) + unat (num_ele n)" for n
  proof -
    have "int x \<le> int y + int z - 1 \<longleftrightarrow> x < y + z" for x y z by arith
    then show ?thesis by (simp only: match_node_unicast_def uint_nat)
  qed
  show ?thesis
  proof (intro conjI allI impI)
    fix r assume "node_find_by_addr w a = Some r"
    then obtain n where "find (match_node_unicast a) (nodes w) = Some n" "r = nref n" "IS_UNICAST a"
      by (auto simp: node_find_by_addr_def split: if_splits)
    with find_SomeD [OF this(1)] show "\<exists>n\<in>set (nodes w). nref n = r \<and> IS_UNICAST a \<and> primary n \<le> a \<and>
        unat a < unat (primary n) + unat (num_ele n)" unfolding m by blast
  qed (auto simp: node_find_by_addr_def find_None_iff m)
qed

lemma node_find_by_addr_correct_witness:
  "node_find_by_addr (blank_world\<lparr>nodes := [(blank_node 7)\<lparr>primary := 0x10, num_ele := 3\<rparr>]\<rparr>) 0x12 = Some 7 \<and>
   node_find_by_addr (blank_world\<lparr>nodes := [(blank_node 7)\<lparr>primary := 0x10, num_ele := 3\<rparr>]\<rparr>) 0x13 = None"
  using node_find_by_addr_correct [where a = "0x12" and w = "blank_world\<lparr>nodes := [(blank_node 7)\<lparr>primary := 0x10, num_ele := 3\<rparr>]\<rparr>"]
  by (simp add: node_find_by_addr_def match_node_unicast_def IS_UNICAST_def blank_world_def blank_node_def)

text \<open>
  C34. What the replay check of \<open>node_local_data_handler\<close> decides. A message of
  the same IV index is taken for a replay only when its sequence number and
  the stored one are both zero, because the stored sequence number is or-ed
  into the value of the message instead of the value of the store; and only
  the last octets of the IV indexes are compared.
\<close>

theorem replay_check_exact:
  assumes "seq \<le> 0xffffff" "n_seq_number remote \<le> 0xffffff"
  shows "replay_detected remote iv seq \<longleftrightarrow>
    unat iv mod 256 < unat (n_iv_index remote) mod 256 \<or>
    unat iv mod 256 = unat (n_iv_index remote) mod 256 \<and> seq = 0 \<and> n_seq_number remote = 0"
  by (rule replay_detected_iff [OF assms])

theorem replay_check_exact_witness:
  "\<not> replay_detected ((blank_node 1)\<lparr>n_iv_index := 5, n_seq_number := 100\<rparr>) 5 100"
  by (subst replay_check_exact) (simp_all add: blank_node_def)

text \<open>
  C29. The handler calls only receive callbacks of models of the local node
  that are bound to the application key of the message: its outcome does not
  depend on any other callback.
\<close>

theorem only_bound_models_called:
  assumes "\<And>n e m cb. local_node_rec w = Some n \<Longrightarrow> e \<in> set (elements n) \<Longrightarrow> m \<in> set (models e) \<Longrightarrow>
      app_idx \<in> set (bindings m) \<Longrightarrow> op_recv (cbs m) = Some cb \<Longrightarrow> recv cb = recv' cb"
    and "node_find_by_addr w src \<noteq> None"
  shows "node_local_data_handler recv src dst iv seq app_idx data w =
    node_local_data_handler recv' src dst iv seq app_idx data w"
proof -
  obtain r where r: "node_find_by_addr w src = Some r" using assms(2) by auto
  have "deliver_model_data recv e src app_idx data w = deliver_model_data recv' e src app_idx data w"
    if "local_node_rec w = Some n" "find_element n i = Some e" for n e i
    unfolding deliver_model_data_def
    by (rule deliver_loop_cong, rule assms(1)) (use that find_element_mem in auto)
  then show ?thesis
    by (auto simp: node_local_data_handler_def remote_for_src_def deliver_from_def r Let_def split: option.splits)
qed

text \<open>
  A network of the local node 1, at address 1, with an on/off client bound to
  application key 0, and of a node 2 at address 5.
\<close>

definition demo_world :: world where
  "demo_world = blank_world\<lparr>local_node := Some 1, next_ref := 3,
     nodes := [(blank_node 1)\<lparr>primary := 1, num_ele := 1, n_provisioner := True, elements :=
         [\<lparr>models = [(blank_model 0xffff1001)\<lparr>bindings := [0],
            cbs := \<lparr>op_recv = Some Onoff_client, op_bind = Some Onoff_client, op_pub = None\<rparr>\<rparr>], loc = 0, ele_index = 0\<rparr>]\<rparr>,
       (blank_node 2)\<lparr>primary := 5, num_ele := 2\<rparr>]\<rparr>"

lemmas demo_simps = demo_world_def blank_world_def blank_node_def blank_model_def node_find_by_addr_def
  match_node_unicast_def IS_UNICAST_def local_node_rec_def node_at_def

theorem only_bound_models_called_witness:
  "node_local_data_handler (\<lambda>cb s d w. if cb = Cfg_client then Fault else Ret (w, True)) 5 1 7 9 0 [0x82, 4, 1] demo_world =
   node_local_data_handler (\<lambda>cb s d w. Ret (w, True)) 5 1 7 9 0 [0x82, 4, 1] demo_world"
  by (rule only_bound_models_called) (auto simp: demo_simps)

text \<open>
  C30. A message for a bound model of the local node that is not taken for a
  replay is delivered, and when the model consumes it the IV index and the
  sequence number of the sender are stored, in memory and in the database.
\<close>

theorem message_delivered:
  assumes "local_node_rec w = Some ln" "seq \<le> 0xffffff" "node_find_by_addr w src = Some r" "node_at w r = Some remote"
    "\<not> is_loopback ln src" "\<not> replay_detected remote iv seq"
    "\<not> IS_GROUP dst" "\<not> IS_VIRTUAL dst" "local_ele_idx ln dst = Some i" "find_element ln i = Some e"
    "models e = pre @ m # post" "\<forall>x\<in>set pre. app_idx \<notin> set (bindings x)" "app_idx \<in> set (bindings m)"
    "op_recv (cbs m) = Some cb" "recv cb src data w = Ret (w1, True)" "node_at w1 r = Some remote1"
  shows "\<exists>w2. node_local_data_handler recv src dst iv seq app_idx data w = Ret w2 \<and>
    node_at w2 r = Some (remote1\<lparr>n_iv_index := iv, n_seq_number := seq\<rparr>) \<and>
    (\<forall>k. k \<noteq> r \<longrightarrow> node_at w2 k = node_at w1 k) \<and>
    log w2 = log w1 @ [Db_node_iv_seq r iv seq] \<and> net w2 = net w1 \<and> keys w2 = keys w1"
proof -
  have "deliver_loop recv (pre @ m # post) src app_idx data w = Ret (w1, True)"
    using assms(12-15) by (induction pre) auto
  moreover have "\<not> 0xffffff < seq" using assms(2) by (simp add: not_less)
  ultimately have "node_local_data_handler recv src dst iv seq app_idx data w =
      Ret (emit (Db_node_iv_seq r iv seq) (upd_node r (\<lambda>n. n\<lparr>n_iv_index := iv, n_seq_number := seq\<rparr>) w1))"
    using assms by (simp add: node_local_data_handler_def remote_for_src_def deliver_from_def deliver_model_data_def)
  moreover have "log (upd_node r f w1) = log w1" "net (upd_node r f w1) = net w1" "keys (upd_node r f w1) = keys w1" for f
    by (simp_all add: upd_node_def)
  ultimately show ?thesis using assms(16) by (simp add: node_at_upd) (simp add: emit_def)
qed

theorem message_delivered_witness:
  "\<exists>w2. node_local_data_handler (\<lambda>cb s d w. Ret (w, True)) 5 1 7 9 0 [0x82, 4, 1] demo_world = Ret w2 \<and>
    node_at w2 2 = Some ((blank_node 2)\<lparr>primary := 5, num_ele := 2, n_iv_index := 7, n_seq_number := 9\<rparr>)"
proof -
  let ?n = "(blank_node 1)\<lparr>primary := 1, num_ele := 1, n_provisioner := True, elements :=
         [\<lparr>models = [(blank_model 0xffff1001)\<lparr>bindings := [0],
            cbs := \<lparr>op_recv = Some Onoff_client, op_bind = Some Onoff_client, op_pub = None\<rparr>\<rparr>], loc = 0, ele_index = 0\<rparr>]\<rparr>"
  let ?m = "(blank_model 0xffff1001)\<lparr>bindings := [0 :: u16],
            cbs := \<lparr>op_recv = Some Onoff_client, op_bind = Some Onoff_client, op_pub = None\<rparr>\<rparr>"
  have "\<not> replay_detected ((blank_node 2)\<lparr>primary := 5, num_ele := 2\<rparr>) 7 9"
    by (subst replay_detected_iff) (simp_all add: blank_node_def)
  from message_delivered [of demo_world ?n 9 5 2 "(blank_node 2)\<lparr>primary := 5, num_ele := 2\<rparr>" 7 1 0
      "\<lparr>models = [?m], loc = 0, ele_index = 0\<rparr>" "[]" ?m "[]" 0 Onoff_client
      "\<lambda>cb s d w. Ret (w, True)" "[0x82, 4, 1]" demo_world, OF _ _ _ _ _ this]
  show ?thesis
    by (fastforce simp: demo_simps is_loopback_def IS_GROUP_def IS_VIRTUAL_def IS_ALL_NODES_def local_ele_idx_def
        find_element_def word_le_nat_alt)
qed

lemma find_model_upd:
  assumes "\<And>m. mod_id (f m) = mod_id m" "find (\<lambda>m. mod_id m = i) ms = Some m"
  shows "find (\<lambda>m. mod_id m = i) (update_first (\<lambda>m. mod_id m = i) f ms) = Some (f m)"
  using assms(2) by (induction ms) (auto simp: assms(1) split: if_splits)

lemma find_element_upd:
  assumes "find (\<lambda>e. ele_index e = i) es = Some e"
  shows "find (\<lambda>e. ele_index e = i) (update_first (\<lambda>e. ele_index e = i) (\<lambda>e. e\<lparr>models := g (models e)\<rparr>) es) = Some (e\<lparr>models := g (models e)\<rparr>)"
  using assms by (induction es) (auto split: if_splits)

lemma get_model_emit [simp]: "get_model (emit e w) = get_model w"
  by (intro ext) (simp add: get_model_def)

lemma upd_node_emit [simp]: "upd_node r f (emit e w) = emit e (upd_node r f w)"
  by (simp add: upd_node_def emit_def)

lemma get_model_upd:
  assumes "get_model w (Some r) ele_idx model_id = Some m" "\<And>m. mod_id (f m) = mod_id m"
  shows "get_model (upd_node r (upd_model ele_idx model_id f) w) (Some r) ele_idx model_id = Some (f m)"
proof -
  obtain n e where n: "node_at w r = Some n" "find_element n ele_idx = Some e" "find_model e model_id = Some m"
    using assms(1) by (auto simp: get_model_def bind_eq_Some_conv)
  have "nref (upd_model ele_idx model_id f n) = nref n" for n by (simp add: upd_model_def)
  with n show ?thesis
    by (simp add: get_model_def node_at_upd upd_model_def find_element_def find_model_def
        find_element_upd find_model_upd assms(2))
qed

text \<open>
  \<open>node_create_new\<close> keeps the UUIDs of the nodes apart: it refuses a UUID
  that a node has, and otherwise the new node is the one found under its UUID,
  unprovisioned, with the other nodes as they were.
\<close>

lemma node_create_new_unique:
  assumes "nodes_wf w" "distinct (map dev_uuid (nodes w))" "node_create_new poob uuid w = (w', res)"
  shows "nodes_wf w' \<and> distinct (map dev_uuid (nodes w')) \<and>
    (case res of None \<Rightarrow> w' = w \<and> node_find_by_uuid w uuid \<noteq> None
     | Some r \<Rightarrow> node_find_by_uuid w uuid = None \<and> node_find_by_uuid w' uuid = Some r \<and>
        node_at w r = None \<and> (\<exists>n. node_at w' r = Some n \<and> oob n = poob \<and> \<not> node_is_provisioned n) \<and>
        (\<forall>k. k \<noteq> r \<longrightarrow> node_at w' k = node_at w k))"
proof (cases "node_find_by_uuid w uuid")
  case (Some r)
  then show ?thesis using assms by (auto simp: node_create_new_def)
next
  case None
  define f where "f = (\<lambda>n :: mesh_node. n\<lparr>dev_uuid := uuid, oob := poob\<rparr>)"
  obtain w1 r where a: "add_node f w = (w1, r)" by (cases "add_node f w")
  with None assms(3) have w': "w' = w1" "res = Some r" by (auto simp: node_create_new_def f_def)
  have fr: "nref (f (blank_node (next_ref w))) = next_ref w" by (simp add: f_def blank_node_def)
  note facts = add_node_facts [OF assms(1) a fr]
  have fresh: "\<forall>n\<in>set (nodes w). dev_uuid n \<noteq> uuid"
    using None by (auto simp: node_find_by_uuid_def find_None_iff)
  have n: "nodes w1 = nodes w @ [f (blank_node r)]" using a by (auto simp: add_node_def)
  have "find (\<lambda>n. dev_uuid n = uuid) (nodes w) = None" using fresh by (simp add: find_None_iff)
  then have "node_find_by_uuid w1 uuid = Some r"
    by (simp add: node_find_by_uuid_def n find_append f_def blank_node_def)
  moreover have "distinct (map dev_uuid (nodes w1))" using assms(2) fresh by (auto simp: n f_def)
  ultimately show ?thesis using None facts
    by (auto simp: w' f_def node_is_provisioned_def blank_node_def IS_UNASSIGNED_def)
qed

lemma node_create_new_unique_witness:
  "node_find_by_uuid (fst (node_create_new 0 [7, 7] demo_world)) [7, 7] = Some 3 \<and>
   fst (node_create_new 9 [7, 7] (fst (node_create_new 0 [7, 7] (demo_world\<lparr>nodes := []\<rparr>)))) =
   fst (node_create_new 0 [7, 7] (demo_world\<lparr>nodes := []\<rparr>))"
proof -
  let ?w = "demo_world\<lparr>nodes := []\<rparr>"
  let ?w1 = "fst (node_create_new 0 [7, 7] ?w)"
  have r: "node_create_new 0 [7, 7] ?w = (?w1, Some 3)" "node_create_new 9 [7, 7] ?w1 = (fst (node_create_new 9 [7, 7] ?w1), None)"
    by (simp_all add: node_create_new_def node_find_by_uuid_def add_node_def demo_simps)
  have "nodes_wf ?w1 \<and> distinct (map dev_uuid (nodes ?w1))"
    using node_create_new_unique [OF _ _ r(1)] by (simp add: nodes_wf_def)
  then have "fst (node_create_new 9 [7, 7] ?w1) = ?w1"
    using node_create_new_unique [OF _ _ r(2)] by simp
  moreover have "replicate 16 0 \<noteq> [7, 7 :: u8]" by (rule notI, drule arg_cong [of _ _ length]) simp
  ultimately show ?thesis
    by (simp add: node_create_new_def node_find_by_uuid_def add_node_def demo_simps)
qed

text \<open>
  \<open>node_add_binding\<close> on the local node: when the bind callback of the model
  returns zero, which is the status of success, the binding is not recorded;
  any other status records it. Without a callback, or for another node, it is
  recorded once.
\<close>

lemma node_add_binding_status:
  assumes "get_model w (Some r) ele_idx model_id = Some m" "app_idx \<notin> set (bindings m)"
    "node_add_binding bnd (Some r) ele_idx model_id app_idx w = (w', ok)"
    "\<And>cb i a w. nodes (fst (bnd cb i a w)) = nodes w"
  shows "(ok \<longleftrightarrow> \<not> (local_node w = Some r \<and> (\<exists>cb. op_bind (cbs m) = Some cb \<and> snd (bnd cb app_idx 1 w) = 0))) \<and>
    get_model w' (Some r) ele_idx model_id =
      Some (if ok then m\<lparr>bindings := bindings m @ [app_idx]\<rparr> else m)"
proof -
  let ?f = "\<lambda>m. m\<lparr>bindings := bindings m @ [app_idx]\<rparr>"
  have g: "get_model (fst (bnd cb i a w)) = get_model w" for cb i a
    by (intro ext) (simp add: get_model_def node_at_def [abs_def] assms(4))
  note u = get_model_upd [OF assms(1), of ?f]
  have u': "get_model (upd_node r (upd_model ele_idx model_id ?f) (fst (bnd cb i a w))) (Some r) ele_idx model_id = Some (?f m)"
    for cb i a by (rule get_model_upd) (simp_all add: g assms(1))
  show ?thesis using assms(1-3) u u' g
    by (auto simp: node_add_binding_def Let_def case_prod_beta split: option.splits if_splits)
qed

lemma node_add_binding_status_witness:
  "get_model (fst (node_add_binding (\<lambda>cb a b w. (w, 0)) (Some 1) 0 0xffff1001 3 demo_world)) (Some 1) 0 0xffff1001 =
     get_model demo_world (Some 1) 0 0xffff1001"
proof -
  have g: "\<exists>m. get_model demo_world (Some 1) 0 0xffff1001 = Some m \<and> (3 :: u16) \<notin> set (bindings m) \<and> op_bind (cbs m) = Some Onoff_client"
    by (simp add: get_model_def find_element_def find_model_def demo_simps)
  then obtain m where m: "get_model demo_world (Some 1) 0 0xffff1001 = Some m" "3 \<notin> set (bindings m)" "op_bind (cbs m) = Some Onoff_client"
    by blast
  have "local_node demo_world = Some 1" by (simp add: demo_simps)
  with node_add_binding_status [OF m(1,2) prod.collapse [symmetric], of "\<lambda>cb a b w. (w, 0)"] m(3) m(1)
  show ?thesis by simp
qed

end
