(* ===== verification/Mesh_Vli.thy ===== *)
theory Mesh_Vli
  imports Mesh_Prelude "HOL-Library.While_Combinator"
begin

text \<open>
  The 256-bit arithmetic of \<^verbatim>\<open>src/shared/ecc.c\<close>: numbers are arrays of four
  64-bit digits, the least significant first, here lists of words. A loop over
  the digits is a recursion over the lists, a loop over an index a recursion or
  a fold over the index; an in-place operation returns the new digits. The
  carries are computed the way the code does, by comparing results.
\<close>

type_synonym vli = "u64 list"

record uint128_t =
  m_low :: u64
  m_high :: u64

abbreviation NUM_ECC_DIGITS :: nat where "NUM_ECC_DIGITS \<equiv> 4"

definition curve_p :: vli where
  "curve_p = [0xFFFFFFFFFFFFFFFF, 0x00000000FFFFFFFF, 0x0000000000000000, 0xFFFFFFFF00000001]"

section \<open>Digits and bits\<close>

definition vli_clear :: vli where
  "vli_clear = replicate NUM_ECC_DIGITS 0"

definition vli_is_zero :: "vli \<Rightarrow> bool" where
  "vli_is_zero v \<longleftrightarrow> (\<forall>d\<in>set v. d = 0)"

definition vli_test_bit :: "vli \<Rightarrow> nat \<Rightarrow> bool" where
  "vli_test_bit v b \<longleftrightarrow> v ! (b div 64) AND push_bit (b mod 64) 1 \<noteq> 0"

fun vli_num_digits_loop :: "vli \<Rightarrow> nat \<Rightarrow> nat" where
  "vli_num_digits_loop v 0 = 0"
| "vli_num_digits_loop v (Suc i) = (if v ! i = 0 then vli_num_digits_loop v i else Suc i)"

definition vli_num_digits :: "vli \<Rightarrow> nat" where
  "vli_num_digits v = vli_num_digits_loop v NUM_ECC_DIGITS"

function digit_bits :: "u64 \<Rightarrow> nat" where
  "digit_bits d = (if d = 0 then 0 else Suc (digit_bits (drop_bit 1 d)))"
  by pat_completeness auto
termination
proof (relation "measure unat")
  fix d :: u64 assume "d \<noteq> 0"
  then have "unat d \<noteq> 0" by (simp add: unsigned_eq_0_iff)
  then have "unat d div 2 < unat d" by linarith
  then show "(drop_bit 1 d, d) \<in> measure unat" by (simp add: unat_drop)
qed simp

definition vli_num_bits :: "vli \<Rightarrow> nat" where
  "vli_num_bits v =
     (let n = vli_num_digits v in if n = 0 then 0 else (n - 1) * 64 + digit_bits (v ! (n - 1)))"

fun vli_cmp_loop :: "vli \<Rightarrow> vli \<Rightarrow> nat \<Rightarrow> int" where
  "vli_cmp_loop left right 0 = 0"
| "vli_cmp_loop left right (Suc i) =
     (if left ! i > right ! i then 1
      else if left ! i < right ! i then - 1
      else vli_cmp_loop left right i)"

definition vli_cmp :: "vli \<Rightarrow> vli \<Rightarrow> int" where
  "vli_cmp left right = vli_cmp_loop left right NUM_ECC_DIGITS"

definition vli_equal :: "vli \<Rightarrow> vli \<Rightarrow> bool" where
  "vli_equal left right \<longleftrightarrow>
     foldr (\<lambda>i diff. diff OR (left ! i XOR right ! i)) [0..<NUM_ECC_DIGITS] (0 :: u64) = 0"

section \<open>Shifts, sums and differences\<close>

fun vli_lshift_loop :: "vli \<Rightarrow> nat \<Rightarrow> u64 \<Rightarrow> vli \<times> u64" where
  "vli_lshift_loop [] shift carry = ([], carry)"
| "vli_lshift_loop (temp # ds) shift carry =
     (let (res, c) = vli_lshift_loop ds shift (drop_bit (64 - shift) temp)
      in ((push_bit shift temp OR carry) # res, c))"

definition vli_lshift :: "vli \<Rightarrow> nat \<Rightarrow> vli \<times> u64" where
  "vli_lshift v shift = vli_lshift_loop v shift 0"

text \<open>From the most significant digit downwards; the second component is the next carry.\<close>

fun vli_rshift1_loop :: "vli \<Rightarrow> vli \<times> u64" where
  "vli_rshift1_loop [] = ([], 0)"
| "vli_rshift1_loop (temp # ds) =
     (let (res, carry) = vli_rshift1_loop ds
      in ((drop_bit 1 temp OR carry) # res, push_bit 63 temp))"

definition vli_rshift1 :: "vli \<Rightarrow> vli" where
  "vli_rshift1 v = fst (vli_rshift1_loop v)"

fun vli_add_loop :: "vli \<Rightarrow> vli \<Rightarrow> u64 \<Rightarrow> vli \<times> u64" where
  "vli_add_loop (l # ls) (r # rs) carry =
     (let sum = l + r + carry;
          carry' = (if sum \<noteq> l then (if sum < l then 1 else 0) else carry);
          (res, c) = vli_add_loop ls rs carry'
      in (sum # res, c))"
| "vli_add_loop _ _ carry = ([], carry)"

definition vli_add :: "vli \<Rightarrow> vli \<Rightarrow> vli \<times> u64" where
  "vli_add left right = vli_add_loop left right 0"

fun vli_sub_loop :: "vli \<Rightarrow> vli \<Rightarrow> u64 \<Rightarrow> vli \<times> u64" where
  "vli_sub_loop (l # ls) (r # rs) borrow =
     (let diff = l - r - borrow;
          borrow' = (if diff \<noteq> l then (if diff > l then 1 else 0) else borrow);
          (res, b) = vli_sub_loop ls rs borrow'
      in (diff # res, b))"
| "vli_sub_loop _ _ borrow = ([], borrow)"

definition vli_sub :: "vli \<Rightarrow> vli \<Rightarrow> vli \<times> u64" where
  "vli_sub left right = vli_sub_loop left right 0"

section \<open>Products\<close>

definition mul_64_64 :: "u64 \<Rightarrow> u64 \<Rightarrow> uint128_t" where
  "mul_64_64 left right =
     (let a0 = left AND 0xffffffff; a1 = drop_bit 32 left;
          b0 = right AND 0xffffffff; b1 = drop_bit 32 right;
          m0 = a0 * b0; m1 = a0 * b1; m2 = a1 * b0; m3 = a1 * b1;
          m2 = m2 + drop_bit 32 m0;
          m2 = m2 + m1;
          m3 = (if m2 < m1 then m3 + 0x100000000 else m3)
      in \<lparr>m_low = (m0 AND 0xffffffff) OR push_bit 32 m2, m_high = m3 + drop_bit 32 m2\<rparr>)"

definition add_128_128 :: "uint128_t \<Rightarrow> uint128_t \<Rightarrow> uint128_t" where
  "add_128_128 a b =
     (let low = m_low a + m_low b
      in \<lparr>m_low = low, m_high = m_high a + m_high b + (if low < m_low a then 1 else 0)\<rparr>)"

text \<open>Adding one product to the accumulator \<^verbatim>\<open>r01\<close>, \<^verbatim>\<open>r2\<close>.\<close>

definition acc_add :: "uint128_t \<Rightarrow> uint128_t \<times> u64 \<Rightarrow> uint128_t \<times> u64" where
  "acc_add product acc =
     (let (r01, r2) = acc; r01' = add_128_128 r01 product
      in (r01', r2 + (if m_high r01' < m_high product then 1 else 0)))"

text \<open>
  The outer loop of both products: column by column, with the products of a
  column given. The digit is the low word; the rest is carried on.
\<close>

fun columns :: "(uint128_t \<times> u64 \<Rightarrow> uint128_t \<times> u64) list \<Rightarrow> uint128_t \<times> u64 \<Rightarrow> vli" where
  "columns [] acc = [m_low (fst acc)]"
| "columns (col # cols) acc =
     (let (r01, r2) = col acc
      in m_low r01 # columns cols (\<lparr>m_low = m_high r01, m_high = r2\<rparr>, 0))"

text \<open>The first index of column \<open>k\<close>.\<close>

definition col_min :: "nat \<Rightarrow> nat" where
  "col_min k = (if k < NUM_ECC_DIGITS then 0 else (k + 1) - NUM_ECC_DIGITS)"

definition mult_col :: "vli \<Rightarrow> vli \<Rightarrow> nat \<Rightarrow> uint128_t \<times> u64 \<Rightarrow> uint128_t \<times> u64" where
  "mult_col left right k = fold (\<lambda>i. acc_add (mul_64_64 (left ! i) (right ! (k - i)))) [col_min k..<Suc (min k 3)]"

definition vli_mult :: "vli \<Rightarrow> vli \<Rightarrow> vli" where
  "vli_mult left right =
     columns (map (mult_col left right) [0..<NUM_ECC_DIGITS * 2 - 1]) (\<lparr>m_low = 0, m_high = 0\<rparr>, 0)"

text \<open>The product of two different digits is counted twice.\<close>

definition square_add :: "vli \<Rightarrow> nat \<Rightarrow> nat \<Rightarrow> uint128_t \<times> u64 \<Rightarrow> uint128_t \<times> u64" where
  "square_add left k i acc =
     (let product = mul_64_64 (left ! i) (left ! (k - i)); (r01, r2) = acc
      in if i < k - i then
           acc_add \<lparr>m_low = push_bit 1 (m_low product),
                    m_high = push_bit 1 (m_high product) OR drop_bit 63 (m_low product)\<rparr>
             (r01, r2 + drop_bit 63 (m_high product))
         else acc_add product (r01, r2))"

definition square_col :: "vli \<Rightarrow> nat \<Rightarrow> uint128_t \<times> u64 \<Rightarrow> uint128_t \<times> u64" where
  "square_col left k = fold (square_add left k) [col_min k..<Suc (k div 2)]"

definition vli_square :: "vli \<Rightarrow> vli" where
  "vli_square left =
     columns (map (square_col left) [0..<NUM_ECC_DIGITS * 2 - 1]) (\<lparr>m_low = 0, m_high = 0\<rparr>, 0)"

section \<open>Arithmetic modulo a number\<close>

definition vli_mod_add :: "vli \<Rightarrow> vli \<Rightarrow> vli \<Rightarrow> vli" where
  "vli_mod_add left right m =
     (let (result, carry) = vli_add left right
      in if carry \<noteq> 0 \<or> vli_cmp result m \<ge> 0 then fst (vli_sub result m) else result)"

definition vli_mod_sub :: "vli \<Rightarrow> vli \<Rightarrow> vli \<Rightarrow> vli" where
  "vli_mod_sub left right m =
     (let (result, borrow) = vli_sub left right
      in if borrow \<noteq> 0 then fst (vli_add result m) else result)"

text \<open>
  The terms of the reduction: the low half \<^verbatim>\<open>t\<close> of the product, the sums \<^verbatim>\<open>s1\<close> to
  \<^verbatim>\<open>s4\<close> and the differences \<^verbatim>\<open>d1\<close> to \<^verbatim>\<open>d4\<close> over its high half.
\<close>

definition mmod_s1 :: "vli \<Rightarrow> vli" where
  "mmod_s1 p = [0, p ! 5 AND 0xffffffff00000000, p ! 6, p ! 7]"

definition mmod_s2 :: "vli \<Rightarrow> vli" where
  "mmod_s2 p = [0, push_bit 32 (p ! 6), drop_bit 32 (p ! 6) OR push_bit 32 (p ! 7), drop_bit 32 (p ! 7)]"

definition mmod_s3 :: "vli \<Rightarrow> vli" where
  "mmod_s3 p = [p ! 4, p ! 5 AND 0xffffffff, 0, p ! 7]"

definition mmod_s4 :: "vli \<Rightarrow> vli" where
  "mmod_s4 p = [drop_bit 32 (p ! 4) OR push_bit 32 (p ! 5), drop_bit 32 (p ! 5) OR (p ! 6 AND 0xffffffff00000000),
     p ! 7, drop_bit 32 (p ! 6) OR push_bit 32 (p ! 4)]"

definition mmod_d1 :: "vli \<Rightarrow> vli" where
  "mmod_d1 p = [drop_bit 32 (p ! 5) OR push_bit 32 (p ! 6), drop_bit 32 (p ! 6), 0,
     (p ! 4 AND 0xffffffff) OR push_bit 32 (p ! 5)]"

definition mmod_d2 :: "vli \<Rightarrow> vli" where
  "mmod_d2 p = [p ! 6, p ! 7, 0, drop_bit 32 (p ! 4) OR (p ! 5 AND 0xffffffff00000000)]"

definition mmod_d3 :: "vli \<Rightarrow> vli" where
  "mmod_d3 p = [drop_bit 32 (p ! 6) OR push_bit 32 (p ! 7), drop_bit 32 (p ! 7) OR push_bit 32 (p ! 4),
     drop_bit 32 (p ! 4) OR push_bit 32 (p ! 5), push_bit 32 (p ! 6)]"

definition mmod_d4 :: "vli \<Rightarrow> vli" where
  "mmod_d4 p = [p ! 7, p ! 4 AND 0xffffffff00000000, p ! 5, p ! 6 AND 0xffffffff00000000]"

text \<open>One term: it is doubled first where the code shifts it, then added or subtracted.\<close>

definition mmod_plus :: "vli \<Rightarrow> int \<times> vli \<Rightarrow> int \<times> vli" where
  "mmod_plus t cr = (let (carry, result) = cr; (r, c) = vli_add result t in (carry + uint c, r))"

definition mmod_plus2 :: "vli \<Rightarrow> int \<times> vli \<Rightarrow> int \<times> vli" where
  "mmod_plus2 t cr = (let (carry, result) = cr; (t2, c) = vli_lshift t 1 in mmod_plus t2 (carry + uint c, result))"

definition mmod_minus :: "vli \<Rightarrow> int \<times> vli \<Rightarrow> int \<times> vli" where
  "mmod_minus t cr = (let (carry, result) = cr; (r, c) = vli_sub result t in (carry - uint c, r))"

definition mmod_terms :: "vli \<Rightarrow> int \<times> vli" where
  "mmod_terms p =
     mmod_minus (mmod_d4 p) (mmod_minus (mmod_d3 p) (mmod_minus (mmod_d2 p) (mmod_minus (mmod_d1 p)
       (mmod_plus (mmod_s4 p) (mmod_plus (mmod_s3 p) (mmod_plus2 (mmod_s2 p) (mmod_plus2 (mmod_s1 p)
         (0, take NUM_ECC_DIGITS p))))))))"

text \<open>
  The final loops. They end for every product (theorem \<open>mmod_loops_end\<close> below);
  \<open>while\<close> is the value of the loop when it does. The first loop is run only
  with a negative carry, where its test before the body holds.
\<close>

definition up_cond :: "int \<times> vli \<Rightarrow> bool" where "up_cond cr \<longleftrightarrow> fst cr < 0"
definition down_cond :: "int \<times> vli \<Rightarrow> bool" where
  "down_cond cr \<longleftrightarrow> fst cr \<noteq> 0 \<or> vli_cmp curve_p (snd cr) \<noteq> 1"

definition vli_mmod_fast :: "vli \<Rightarrow> vli" where
  "vli_mmod_fast product =
     (let cr = mmod_terms product
      in snd (if fst cr < 0 then while up_cond (mmod_plus curve_p) cr
              else while down_cond (mmod_minus curve_p) cr))"

definition vli_mod_mult_fast :: "vli \<Rightarrow> vli \<Rightarrow> vli" where
  "vli_mod_mult_fast left right = vli_mmod_fast (vli_mult left right)"

definition vli_mod_square_fast :: "vli \<Rightarrow> vli" where
  "vli_mod_square_fast left = vli_mmod_fast (vli_square left)"

definition EVEN :: "vli \<Rightarrow> bool" where
  "EVEN v \<longleftrightarrow> v ! 0 AND 1 = 0"

text \<open>Halving \<open>u\<close> modulo the odd \<open>m\<close>: \<open>m\<close> is added first when \<open>u\<close> is odd, its carry is the new top bit.\<close>

definition half_mod :: "vli \<Rightarrow> vli \<Rightarrow> vli" where
  "half_mod u m =
     (let (u, carry) = (if \<not> EVEN u then vli_add u m else (u, 0)); u = vli_rshift1 u
      in if carry \<noteq> 0 then u[NUM_ECC_DIGITS - 1 := u ! (NUM_ECC_DIGITS - 1) OR 0x8000000000000000] else u)"

definition inv_cond :: "vli \<times> vli \<times> vli \<times> vli \<Rightarrow> bool" where
  "inv_cond s \<longleftrightarrow> (case s of (a, b, u, v) \<Rightarrow> vli_cmp a b \<noteq> 0)"

definition inv_step :: "vli \<Rightarrow> vli \<times> vli \<times> vli \<times> vli \<Rightarrow> vli \<times> vli \<times> vli \<times> vli" where
  "inv_step m s =
     (case s of (a, b, u, v) \<Rightarrow>
        if EVEN a then (vli_rshift1 a, b, half_mod u m, v)
        else if EVEN b then (a, vli_rshift1 b, u, half_mod v m)
        else if vli_cmp a b > 0 then
          (let a = vli_rshift1 (fst (vli_sub a b));
               u = (if vli_cmp u v < 0 then fst (vli_add u m) else u);
               u = fst (vli_sub u v)
           in (a, b, half_mod u m, v))
        else
          (let b = vli_rshift1 (fst (vli_sub b a));
               v = (if vli_cmp v u < 0 then fst (vli_add v m) else v);
               v = fst (vli_sub v u)
           in (a, b, u, half_mod v m)))"

definition vli_mod_inv :: "vli \<Rightarrow> vli \<Rightarrow> vli" where
  "vli_mod_inv input m =
     (if vli_is_zero input then vli_clear
      else (case while inv_cond (inv_step m) (input, m, vli_clear[0 := 1], vli_clear) of (a, b, u, v) \<Rightarrow> u))"

section \<open>The number an array holds\<close>

primrec vli_val :: "vli \<Rightarrow> int" where
  "vli_val [] = 0"
| "vli_val (d # ds) = uint d + 2 ^ 64 * vli_val ds"

lemma uint64_bounds: "0 \<le> uint (d :: u64)" "uint (d :: u64) < 2 ^ 64"
  using uint_bounded [of d] by simp_all

lemma vli_val_bounds: "0 \<le> vli_val v" "vli_val v < 2 ^ (64 * length v)"
proof (induction v)
  case (Cons d v)
  { case 1 then show ?case using Cons uint64_bounds(1) [of d] by simp }
  { case 2
    have "vli_val v \<le> 2 ^ (64 * length v) - 1" using Cons by simp
    then have "2 ^ 64 * vli_val v \<le> 2 ^ 64 * (2 ^ (64 * length v) - 1)" by (rule mult_left_mono) simp
    then show ?case using uint64_bounds(2) [of d] by (simp add: power_add algebra_simps) }
qed simp_all

lemma mod_once: "0 \<le> s \<Longrightarrow> s < 2 * m \<Longrightarrow> s mod m = (if s < m then s else s - m)" for s m :: int
  by (auto simp: mod_pos_pos_trivial not_less) (metis mod_pos_pos_trivial diff_ge_0_iff_ge diff_less_eq minus_mod_self2 mult_2)

lemma uint_add_once: "uint (a + b) = (if uint a + uint b < 2 ^ 64 then uint a + uint b else uint a + uint b - 2 ^ 64)" for a b :: u64
  using mod_once [of "uint a + uint b" "2 ^ 64"] uint64_bounds [of a] uint64_bounds [of b] by (simp add: uint_word_ariths)

lemma uint_sub_once: "uint (a - b) = (if uint b \<le> uint a then uint a - uint b else uint a - uint b + 2 ^ 64)" for a b :: u64
proof -
  have "uint (a - b) = (uint a - uint b + 2 ^ 64) mod 2 ^ 64" by (simp add: uint_word_ariths)
  also have "\<dots> = (if uint a - uint b + 2 ^ 64 < 2 ^ 64 then uint a - uint b + 2 ^ 64 else uint a - uint b)"
    by (rule mod_once [THEN trans]) (use uint64_bounds [of a] uint64_bounds [of b] in linarith, use uint64_bounds [of a] uint64_bounds [of b] in linarith, simp)
  finally show ?thesis by auto
qed

lemma digit_01: "uint c \<le> 1 \<Longrightarrow> uint c = 0 \<or> uint c = 1" for c :: u64
  using uint64_bounds(1) [of c] by linarith

lemma add_digit:
  fixes l r c :: u64
  assumes "uint c \<le> 1"
  shows "uint (l + r + c) + 2 ^ 64 * uint (if l + r + c \<noteq> l then (if l + r + c < l then 1 else 0) else c) =
    uint l + uint r + uint c"
proof -
  note c = digit_01 [OF assms]
  then show ?thesis
    using uint64_bounds [of l] uint64_bounds [of r]
    by (auto simp: uint_add_once word_less_def word_uint_eq_iff) (use uint64_bounds [of l] uint64_bounds [of r] in linarith)+
qed

lemma sub_digit:
  fixes l r c :: u64
  assumes "uint c \<le> 1"
  shows "uint (l - r - c) - 2 ^ 64 * uint (if l - r - c \<noteq> l then (if l - r - c > l then 1 else 0) else c) =
    uint l - uint r - uint c"
proof -
  note c = digit_01 [OF assms]
  then show ?thesis
    using uint64_bounds [of l] uint64_bounds [of r]
    by (auto simp: uint_sub_once word_less_def word_uint_eq_iff) (use uint64_bounds [of l] uint64_bounds [of r] in linarith)+
qed

lemma vli_add_loop_val:
  assumes "length ls = length rs" "uint c \<le> 1"
  shows "vli_val (fst (vli_add_loop ls rs c)) + 2 ^ (64 * length ls) * uint (snd (vli_add_loop ls rs c)) =
      vli_val ls + vli_val rs + uint c \<and>
    uint (snd (vli_add_loop ls rs c)) \<le> 1 \<and> length (fst (vli_add_loop ls rs c)) = length ls"
  using assms
proof (induction ls rs arbitrary: c rule: list_induct2)
  case (Cons l ls r rs)
  define c' where "c' = (if l + r + c \<noteq> l then (if l + r + c < l then 1 else 0) else c)"
  have "uint c' \<le> 1" using Cons.prems by (simp add: c'_def)
  note ih = Cons.IH [OF this]
  obtain res b where rec: "vli_add_loop ls rs c' = (res, b)" by (cases "vli_add_loop ls rs c'")
  have e: "vli_add_loop (l # ls) (r # rs) c = ((l + r + c) # res, b)"
    unfolding vli_add_loop.simps vli_sub_loop.simps Let_def c'_def [symmetric] rec by simp
  have "uint (l + r + c) + 2 ^ 64 * uint c' = uint l + uint r + uint c" unfolding c'_def by (rule add_digit [OF Cons.prems])
  with ih show ?case unfolding e rec by (simp add: power_add algebra_simps)
qed simp

lemma vli_sub_loop_val:
  assumes "length ls = length rs" "uint c \<le> 1"
  shows "vli_val (fst (vli_sub_loop ls rs c)) - 2 ^ (64 * length ls) * uint (snd (vli_sub_loop ls rs c)) =
      vli_val ls - vli_val rs - uint c \<and>
    uint (snd (vli_sub_loop ls rs c)) \<le> 1 \<and> length (fst (vli_sub_loop ls rs c)) = length ls"
  using assms
proof (induction ls rs arbitrary: c rule: list_induct2)
  case (Cons l ls r rs)
  define c' where "c' = (if l - r - c \<noteq> l then (if l - r - c > l then 1 else 0) else c)"
  have "uint c' \<le> 1" using Cons.prems by (simp add: c'_def)
  note ih = Cons.IH [OF this]
  obtain res b where rec: "vli_sub_loop ls rs c' = (res, b)" by (cases "vli_sub_loop ls rs c'")
  have e: "vli_sub_loop (l # ls) (r # rs) c = ((l - r - c) # res, b)"
    unfolding vli_add_loop.simps vli_sub_loop.simps Let_def c'_def [symmetric] rec by simp
  have "uint (l - r - c) - 2 ^ 64 * uint c' = uint l - uint r - uint c" unfolding c'_def by (rule sub_digit [OF Cons.prems])
  with ih show ?case unfolding e rec by (simp add: power_add algebra_simps)
qed simp

lemma vli_add_val:
  assumes "length l = 4" "length r = 4"
  shows "vli_val (fst (vli_add l r)) + 2 ^ 256 * uint (snd (vli_add l r)) = vli_val l + vli_val r"
    "uint (snd (vli_add l r)) \<le> 1" "length (fst (vli_add l r)) = 4"
  using vli_add_loop_val [of l r 0] assms by (simp_all add: vli_add_def)

lemma vli_sub_val:
  assumes "length l = 4" "length r = 4"
  shows "vli_val (fst (vli_sub l r)) - 2 ^ 256 * uint (snd (vli_sub l r)) = vli_val l - vli_val r"
    "uint (snd (vli_sub l r)) \<le> 1" "length (fst (vli_sub l r)) = 4"
  using vli_sub_loop_val [of l r 0] assms by (simp_all add: vli_sub_def)

section \<open>Halves of a digit\<close>

definition lo32 :: "u64 \<Rightarrow> int" where "lo32 w = uint w mod 2 ^ 32"
definition hi32 :: "u64 \<Rightarrow> int" where "hi32 w = uint w div 2 ^ 32"

lemma halves: "uint w = lo32 w + 2 ^ 32 * hi32 w" "0 \<le> lo32 w" "lo32 w < 2 ^ 32" "0 \<le> hi32 w" "hi32 w < 2 ^ 32"
  using uint64_bounds [of w] by (simp_all add: lo32_def hi32_def pos_imp_zdiv_nonneg_iff)

lemma uint_or_disjoint: "a AND b = 0 \<Longrightarrow> uint (a OR b) = uint a + uint b" for a b :: "'a::len word"
proof -
  assume "a AND b = 0"
  then have "uint a AND uint b = 0" by (metis uint_and uint_0_eq)
  then show ?thesis by (simp add: unsigned_or_eq disjunctive_add_eq_or)
qed

lemma hi_mask: "(0xffffffff00000000 :: u64) = push_bit 32 (mask 32)" and lo_mask: "(0xffffffff :: u64) = mask 32"
  by (simp_all add: mask_eq_exp_minus_1)

lemma uint_push: "uint (push_bit n w) = 2 ^ n * uint w mod 2 ^ 64" for w :: u64
  by (simp add: unsigned_push_bit_eq) (simp add: push_bit_eq_mult take_bit_eq_mod mult.commute)

lemma uint_drop: "uint (drop_bit n w) = uint w div 2 ^ n" for w :: u64
  using uint64_bounds [of w] by (simp add: unsigned_drop_bit_eq) (simp add: drop_bit_eq_div take_bit_eq_mod)

lemma half_ops:
  "uint (w AND 0xffffffff) = lo32 w" "uint (w AND 0xffffffff00000000) = 2 ^ 32 * hi32 w"
  "uint (push_bit 32 w) = 2 ^ 32 * lo32 w" "uint (drop_bit 32 w) = hi32 w"
proof -
  show "uint (w AND 0xffffffff) = lo32 w"
    unfolding lo_mask by (simp add: lo32_def unsigned_take_bit_eq flip: take_bit_eq_mask) (simp add: take_bit_eq_mod)
  have "w AND 0xffffffff00000000 = push_bit 32 (drop_bit 32 w)"
    unfolding hi_mask by (rule bit_word_eqI) (auto simp: bit_simps)
  then show "uint (w AND 0xffffffff00000000) = 2 ^ 32 * hi32 w"
    using halves [of w] by (simp add: uint_push uint_drop hi32_def)
  show "uint (push_bit 32 w) = 2 ^ 32 * lo32 w"
    using mult_mod_right [of "2 ^ 32" "uint w" "2 ^ 32"] by (simp add: uint_push lo32_def)
  show "uint (drop_bit 32 w) = hi32 w" by (simp add: uint_drop hi32_def)
qed

lemma half_ors:
  "uint (drop_bit 32 a OR push_bit 32 b) = hi32 a + 2 ^ 32 * lo32 b"
  "uint (drop_bit 32 a OR (b AND 0xffffffff00000000)) = hi32 a + 2 ^ 32 * hi32 b"
  "uint ((a AND 0xffffffff) OR push_bit 32 b) = lo32 a + 2 ^ 32 * lo32 b"
proof -
  have "drop_bit 32 a AND push_bit 32 b = 0" "drop_bit 32 a AND (b AND 0xffffffff00000000) = 0"
    "(a AND 0xffffffff) AND push_bit 32 b = 0"
    unfolding hi_mask lo_mask by (rule bit_word_eqI; auto simp: bit_simps dest: bit_imp_le_length)+
  then show "uint (drop_bit 32 a OR push_bit 32 b) = hi32 a + 2 ^ 32 * lo32 b"
    "uint (drop_bit 32 a OR (b AND 0xffffffff00000000)) = hi32 a + 2 ^ 32 * hi32 b"
    "uint ((a AND 0xffffffff) OR push_bit 32 b) = lo32 a + 2 ^ 32 * lo32 b"
    by (simp_all only: uint_or_disjoint half_ops)
qed

section \<open>Comparison, shifts, sums modulo a number\<close>

lemma vli_val_take_Suc:
  "n < length v \<Longrightarrow> vli_val (take (Suc n) v) = vli_val (take n v) + 2 ^ (64 * n) * uint (v ! n)"
proof (induction v arbitrary: n)
  case (Cons d v)
  then show ?case by (cases n) (simp_all add: power_add algebra_simps)
qed simp

lemma vli_cmp_loop_sgn:
  "n \<le> length l \<Longrightarrow> n \<le> length r \<Longrightarrow> vli_cmp_loop l r n = sgn (vli_val (take n l) - vli_val (take n r))"
proof (induction n)
  case (Suc n)
  define a b where ab: "a = vli_val (take n l)" "b = vli_val (take n r)"
  have b: "0 \<le> a" "a < 2 ^ (64 * n)" "0 \<le> b" "b < 2 ^ (64 * n)"
    using vli_val_bounds [of "take n l"] vli_val_bounds [of "take n r"] Suc.prems by (simp_all add: ab min_def)
  have e: "vli_val (take (Suc n) l) - vli_val (take (Suc n) r) = (a - b) + 2 ^ (64 * n) * (uint (l ! n) - uint (r ! n))"
    using Suc.prems by (simp add: vli_val_take_Suc ab algebra_simps)
  have k: "k \<ge> 1 \<Longrightarrow> 2 ^ (64 * n) \<le> 2 ^ (64 * n) * k" for k :: int by simp
  consider "uint (l ! n) > uint (r ! n)" | "uint (l ! n) < uint (r ! n)" | "uint (l ! n) = uint (r ! n)" by linarith
  then show ?case
  proof cases
    case 1
    then have "0 < vli_val (take (Suc n) l) - vli_val (take (Suc n) r)"
      unfolding e using k [of "uint (l ! n) - uint (r ! n)"] b by linarith
    with 1 show ?thesis by (simp add: word_less_def)
  next
    case 2
    then have "vli_val (take (Suc n) l) - vli_val (take (Suc n) r) < 0"
      unfolding e using k [of "uint (r ! n) - uint (l ! n)"] b by (simp add: algebra_simps)
    with 2 show ?thesis by (simp add: word_less_def)
  next
    case 3
    with Suc e ab show ?thesis by (simp add: word_less_def)
  qed
qed simp

lemma vli_cmp_sgn:
  assumes "length l = 4" "length r = 4"
  shows "vli_cmp l r = sgn (vli_val l - vli_val r)"
  using vli_cmp_loop_sgn [of 4 l r] assms by (simp add: vli_cmp_def)

lemma or_carry:
  fixes t c :: u64
  assumes "uint c < 2 ^ s" "s \<le> 64"
  shows "uint (push_bit s t OR c) = uint (push_bit s t) + uint c"
proof (rule uint_or_disjoint)
  have "uint (take_bit s c) = uint c" using assms by (simp add: unsigned_take_bit_eq) (simp add: take_bit_eq_mod)
  then have "c = take_bit s c" by (simp add: word_uint_eq_iff)
  moreover have "push_bit s t AND take_bit s c = 0" by (rule bit_word_eqI) (auto simp: bit_simps)
  ultimately show "push_bit s t AND c = 0" by simp
qed

lemma shift_digit:
  fixes t :: u64
  assumes "s \<le> 64"
  shows "uint (push_bit s t) + 2 ^ 64 * uint (drop_bit (64 - s) t) = 2 ^ s * uint t"
proof -
  have p: "(2 :: int) ^ 64 = 2 ^ s * 2 ^ (64 - s)" using assms by (simp add: power_add [symmetric])
  have "uint (push_bit s t) = 2 ^ s * (uint t mod 2 ^ (64 - s))" by (simp only: uint_push p mult_mod_right)
  moreover have "2 ^ 64 * uint (drop_bit (64 - s) t) = 2 ^ s * (2 ^ (64 - s) * (uint t div 2 ^ (64 - s)))"
    by (simp only: uint_drop p mult.assoc)
  ultimately have "uint (push_bit s t) + 2 ^ 64 * uint (drop_bit (64 - s) t) =
      2 ^ s * (2 ^ (64 - s) * (uint t div 2 ^ (64 - s)) + uint t mod 2 ^ (64 - s))"
    by (simp only: distrib_left add.commute)
  then show ?thesis by (simp only: mult_div_mod_eq)
qed

lemma vli_lshift_loop_val:
  assumes "uint c < 2 ^ s" "s < 64"
  shows "vli_val (fst (vli_lshift_loop v s c)) + 2 ^ (64 * length v) * uint (snd (vli_lshift_loop v s c)) = 2 ^ s * vli_val v + uint c \<and>
    uint (snd (vli_lshift_loop v s c)) < 2 ^ s \<and> length (fst (vli_lshift_loop v s c)) = length v"
  using assms(1)
proof (induction v arbitrary: c)
  case (Cons t v)
  define c' where "c' = drop_bit (64 - s) t"
  have "uint t < 2 ^ s * 2 ^ (64 - s)" using uint64_bounds [of t] assms(2) by (simp add: power_add [symmetric])
  moreover have "uint t div 2 ^ (64 - s) * 2 ^ (64 - s) \<le> uint t" by (simp add: minus_mod_eq_div_mult [symmetric])
  ultimately have "uint t div 2 ^ (64 - s) * 2 ^ (64 - s) < 2 ^ s * 2 ^ (64 - s)" by linarith
  then have c': "uint c' < 2 ^ s" unfolding c'_def uint_drop by simp
  obtain res b where rec: "vli_lshift_loop v s c' = (res, b)" by (cases "vli_lshift_loop v s c'")
  have e: "vli_lshift_loop (t # v) s c = ((push_bit s t OR c) # res, b)"
    unfolding vli_lshift_loop.simps Let_def c'_def [symmetric] rec by simp
  have "uint (push_bit s t OR c) + 2 ^ 64 * uint c' = 2 ^ s * uint t + uint c"
    using or_carry [OF Cons.prems, of t] shift_digit [of s t] assms(2) by (simp add: c'_def)
  with Cons.IH [OF c'] show ?case unfolding e rec by (simp add: power_add algebra_simps)
qed simp

lemma vli_lshift_val:
  assumes "length v = 4"
  shows "vli_val (fst (vli_lshift v 1)) + 2 ^ 256 * uint (snd (vli_lshift v 1)) = 2 * vli_val v"
    "uint (snd (vli_lshift v 1)) \<le> 1" "length (fst (vli_lshift v 1)) = 4"
  using vli_lshift_loop_val [of 0 1 v] assms by (simp_all add: vli_lshift_def)

lemma vli_rshift1_loop_val:
  "vli_val (fst (vli_rshift1_loop v)) = vli_val v div 2 \<and> uint (snd (vli_rshift1_loop v)) = 2 ^ 63 * (vli_val v mod 2) \<and>
   (\<exists>x. snd (vli_rshift1_loop v) = push_bit 63 x) \<and> length (fst (vli_rshift1_loop v)) = length v"
proof (induction v)
  case (Cons t v)
  obtain res c where rec: "vli_rshift1_loop v = (res, c)" by (cases "vli_rshift1_loop v")
  have c: "uint c = 2 ^ 63 * (vli_val v mod 2)" using Cons rec by simp
  have "drop_bit 1 t AND push_bit 63 x = 0" for x
    by (rule bit_word_eqI) (auto simp: bit_simps dest: bit_imp_le_length)
  then have "uint (drop_bit 1 t OR c) = uint t div 2 + uint c"
    using Cons rec by (auto simp: uint_or_disjoint uint_drop)
  moreover have "uint (push_bit 63 t) = 2 ^ 63 * (uint t mod 2)"
    using mult_mod_right [of "2 ^ 63" "uint t" 2] by (simp add: uint_push)
  moreover have "(uint t + 2 * (2 ^ 63 * vli_val v)) div 2 = uint t div 2 + 2 ^ 63 * vli_val v"
    "(uint t + 2 * (2 ^ 63 * vli_val v)) mod 2 = uint t mod 2" by (simp, rule mod_mult_self2)
  moreover have "9223372036854775808 * (vli_val v mod 2) + 18446744073709551616 * (vli_val v div 2) = 9223372036854775808 * vli_val v"
    using mult_div_mod_eq [of 2 "vli_val v"] by linarith
  ultimately show ?case using Cons rec c by auto
qed (auto intro: exI [of _ 0])

lemma vli_rshift1_val: "vli_val (vli_rshift1 v) = vli_val v div 2" "length (vli_rshift1 v) = length v"
  using vli_rshift1_loop_val [of v] by (simp_all add: vli_rshift1_def)

lemma mod_add_arith:
  fixes l r m s d c b K :: int
  assumes "s + K * c = l + r" "d - K * b = s - m" "c = 0 \<or> c = 1" "b = 0 \<or> b = 1"
    and "0 \<le> s" "s < K" "0 \<le> d" "d < K" "0 \<le> l" "l < m" "0 \<le> r" "r < m" "m < K"
  shows "(if c \<noteq> 0 \<or> m \<le> s then d else s) = (l + r) mod m"
proof -
  have e: "(l + r) mod m = (if l + r < m then l + r else l + r - m)" by (rule mod_once) (use assms in auto)
  consider "c = 0" "b = 0" | "c = 0" "b = 1" | "c = 1" "b = 0" | "c = 1" "b = 1" using assms(3,4) by auto
  then show ?thesis unfolding e by cases (use assms in simp_all)
qed

lemma mod_sub_arith:
  fixes l r m s d c b K :: int
  assumes "s - K * c = l - r" "d + K * b = s + m" "c = 0 \<or> c = 1" "b = 0 \<or> b = 1"
    and "0 \<le> s" "s < K" "0 \<le> d" "d < K" "0 \<le> l" "l < m" "0 \<le> r" "r < m" "m < K"
  shows "(if c \<noteq> 0 then d else s) = (l - r) mod m"
proof -
  have "(l - r) mod m = (l - r + m) mod m" by simp
  also have "\<dots> = (if l - r + m < m then l - r + m else l - r + m - m)" by (rule mod_once) (use assms in auto)
  finally have e: "(l - r) mod m = (if l - r + m < m then l - r + m else l - r + m - m)" .
  consider "c = 0" "b = 0" | "c = 0" "b = 1" | "c = 1" "b = 0" | "c = 1" "b = 1" using assms(3,4) by auto
  then show ?thesis unfolding e by cases (use assms in simp_all)
qed

lemma digit_nonzero: "c \<noteq> 0 \<longleftrightarrow> uint c \<noteq> 0" for c :: u64
  by (simp add: word_uint_eq_iff)

lemma vli_val_4: "length v = 4 \<Longrightarrow> vli_val v < 2 ^ 256"
  using vli_val_bounds(2) [of v] by simp

lemma vli_mod_add_val:
  assumes "length l = 4" "length r = 4" "length m = 4" "vli_val l < vli_val m" "vli_val r < vli_val m"
  shows "vli_val (vli_mod_add l r m) = (vli_val l + vli_val r) mod vli_val m" "length (vli_mod_add l r m) = 4"
proof -
  obtain s c where s: "vli_add l r = (s, c)" by (cases "vli_add l r")
  note a = vli_add_val [OF assms(1,2), unfolded s, simplified]
  note d = vli_sub_val [OF a(3) assms(3)]
  have e: "vli_mod_add l r m = (if uint c \<noteq> 0 \<or> vli_val m \<le> vli_val s then fst (vli_sub s m) else s)"
    by (simp add: vli_mod_add_def s vli_cmp_sgn a(3) assms(3) sgn_if digit_nonzero)
  show "vli_val (vli_mod_add l r m) = (vli_val l + vli_val r) mod vli_val m"
    unfolding e if_distrib [of vli_val]
    by (rule mod_add_arith [OF _ d(1) digit_01 digit_01 [OF d(2)]])
      (use a d(3) assms vli_val_bounds(1) vli_val_4 in simp_all)
  show "length (vli_mod_add l r m) = 4" using a d by (simp add: e)
qed

lemma vli_mod_sub_val:
  assumes "length l = 4" "length r = 4" "length m = 4" "vli_val l < vli_val m" "vli_val r < vli_val m"
  shows "vli_val (vli_mod_sub l r m) = (vli_val l - vli_val r) mod vli_val m" "length (vli_mod_sub l r m) = 4"
proof -
  obtain s c where s: "vli_sub l r = (s, c)" by (cases "vli_sub l r")
  note a = vli_sub_val [OF assms(1,2), unfolded s, simplified]
  note d = vli_add_val [OF a(3) assms(3)]
  have e: "vli_mod_sub l r m = (if uint c \<noteq> 0 then fst (vli_add s m) else s)"
    by (simp add: vli_mod_sub_def s digit_nonzero)
  show "vli_val (vli_mod_sub l r m) = (vli_val l - vli_val r) mod vli_val m"
    unfolding e if_distrib [of vli_val]
    by (rule mod_sub_arith [OF _ d(1) digit_01 digit_01 [OF d(2)]])
      (use a d(3) assms vli_val_bounds(1) vli_val_4 in simp_all)
  show "length (vli_mod_sub l r m) = 4" using a d by (simp add: e)
qed

section \<open>Products\<close>

definition u128 :: "uint128_t \<Rightarrow> int" where
  "u128 a = uint (m_low a) + 2 ^ 64 * uint (m_high a)"

lemma uint_mult_small: "uint a * uint b < 2 ^ 64 \<Longrightarrow> uint (a * b) = uint a * uint b" for a b :: u64
  by (simp add: uint_word_ariths mod_pos_pos_trivial)

lemma half_product: "0 \<le> x \<Longrightarrow> x < 2 ^ 32 \<Longrightarrow> 0 \<le> y \<Longrightarrow> y < 2 ^ 32 \<Longrightarrow> 0 \<le> x * y \<and> x * y \<le> 2 ^ 64 - 2 ^ 33 + 1" for x y :: int
  using mult_mono [of x "2 ^ 32 - 1" y "2 ^ 32 - 1"] by simp

lemma mul_64_64_val: "u128 (mul_64_64 l r) = uint l * uint r"
proof -
  define a0 a1 b0 b1 where ab: "a0 = lo32 l" "a1 = hi32 l" "b0 = lo32 r" "b1 = hi32 r"
  note H = halves [of l, folded ab] halves [of r, folded ab]
  note P = half_product [OF H(2,3) H(7,8)] half_product [OF H(2,3) H(9,10)] half_product [OF H(4,5) H(7,8)] half_product [OF H(4,5) H(9,10)]
  define m0 where "m0 = (l AND 0xffffffff) * (r AND 0xffffffff)"
  define m1 where "m1 = (l AND 0xffffffff) * drop_bit 32 r"
  define m2 where "m2 = drop_bit 32 l * (r AND 0xffffffff)"
  define m3 where "m3 = drop_bit 32 l * drop_bit 32 r"
  define n2 where "n2 = m2 + drop_bit 32 m0"
  define k2 where "k2 = n2 + m1"
  define k3 where "k3 = (if k2 < m1 then m3 + 0x100000000 else m3)"
  have m: "uint m0 = a0 * b0" "uint m1 = a0 * b1" "uint m2 = a1 * b0" "uint m3 = a1 * b1"
    unfolding m0_def m1_def m2_def m3_def by (subst uint_mult_small; use P in \<open>simp add: half_ops ab\<close>)+
  have e: "mul_64_64 l r = \<lparr>m_low = (m0 AND 0xffffffff) OR push_bit 32 k2, m_high = k3 + drop_bit 32 k2\<rparr>"
    by (simp add: mul_64_64_def Let_def m0_def m1_def m2_def m3_def n2_def k2_def k3_def)
  have n2: "uint n2 = a1 * b0 + hi32 m0"
    using P halves(4,5) [of m0] unfolding n2_def by (simp add: uint_add_once half_ops m)
  define ov :: int where "ov = (if k2 < m1 then 1 else 0)"
  have k2: "uint k2 + 2 ^ 64 * ov = a1 * b0 + hi32 m0 + a0 * b1"
    unfolding k2_def ov_def word_less_def uint_add_once n2 m
    using P halves(4,5) [of m0] by auto
  have prod: "uint l * uint r = a0 * b0 + 2 ^ 32 * (a1 * b0 + a0 * b1) + 2 ^ 64 * (a1 * b1)"
    unfolding H(1) H(6) by (simp add: algebra_simps)
  have total: "lo32 m0 + 2 ^ 32 * lo32 k2 + 2 ^ 64 * (a1 * b1 + 2 ^ 32 * ov + hi32 k2) = uint l * uint r"
    using prod k2 halves(1) [of m0] halves(1) [of k2] m(1) by (simp add: algebra_simps)
  have "uint l * uint r < 2 ^ 64 * 2 ^ 64"
    using uint64_bounds [of l] uint64_bounds [of r] by (intro mult_strict_mono') simp_all
  then have "2 ^ 64 * (a1 * b1 + 2 ^ 32 * ov + hi32 k2) < 2 ^ 64 * 2 ^ 64"
    using total halves(2) [of m0] halves(2) [of k2] by simp
  then have hb: "a1 * b1 + 2 ^ 32 * ov + hi32 k2 < 2 ^ 64" by simp
  have "uint k3 = a1 * b1 + 2 ^ 32 * ov"
    using hb halves(4) [of k2] P by (simp add: k3_def ov_def uint_add_once m)
  then have "uint (k3 + drop_bit 32 k2) = a1 * b1 + 2 ^ 32 * ov + hi32 k2"
    using hb by (simp add: uint_add_once half_ops)
  then show ?thesis unfolding total [symmetric] by (simp add: u128_def e half_ors)
qed

text \<open>
  The accumulator of a column as a number, and what an addition loses: the code
  notices an overflow of \<^verbatim>\<open>r01\<close> only when its high word is below that of the
  product, which fails when the high word was all ones before.
\<close>

definition acc_val :: "uint128_t \<times> u64 \<Rightarrow> int" where
  "acc_val acc = u128 (fst acc) + 2 ^ 128 * uint (snd acc)"

definition acc_lost :: "uint128_t \<Rightarrow> uint128_t \<times> u64 \<Rightarrow> int" where
  "acc_lost p acc =
     (if u128 (fst acc) + u128 p < 2 ^ 128 \<or> m_high (add_128_128 (fst acc) p) < m_high p then 0 else 2 ^ 128)"

lemma u128_bounds: "0 \<le> u128 a" "u128 a < 2 ^ 128"
  using uint64_bounds [of "m_low a"] uint64_bounds [of "m_high a"] by (simp_all add: u128_def)

lemma add_128_arith:
  fixes l c la lb ha hb :: int
  assumes "l + 2 ^ 64 * c = la + lb" "0 \<le> l" "l < 2 ^ 64"
  shows "l + 2 ^ 64 * (if ha + hb + c < 2 ^ 64 then ha + hb + c else ha + hb + c - 2 ^ 64) =
    (if la + 2 ^ 64 * ha + (lb + 2 ^ 64 * hb) < 2 ^ 128 then la + 2 ^ 64 * ha + (lb + 2 ^ 64 * hb)
     else la + 2 ^ 64 * ha + (lb + 2 ^ 64 * hb) - 2 ^ 128)"
  using assms by auto

lemma add_128_128_val: "u128 (add_128_128 a b) = (if u128 a + u128 b < 2 ^ 128 then u128 a + u128 b else u128 a + u128 b - 2 ^ 128)"
proof -
  define c :: u64 where "c = (if m_low a + m_low b < m_low a then 1 else 0)"
  have low: "uint (m_low a + m_low b) + 2 ^ 64 * uint c = uint (m_low a) + uint (m_low b)"
    using uint64_bounds [of "m_low a"] uint64_bounds [of "m_low b"] by (auto simp: c_def word_less_def uint_add_once)
  have "uint c = 0 \<or> uint c = 1" by (simp add: c_def)
  then have high: "uint (m_high a + m_high b + c) = (if uint (m_high a) + uint (m_high b) + uint c < 2 ^ 64
      then uint (m_high a) + uint (m_high b) + uint c else uint (m_high a) + uint (m_high b) + uint c - 2 ^ 64)"
    using uint64_bounds [of "m_high a"] uint64_bounds [of "m_high b"] by (auto simp: uint_add_once)
  have e: "u128 (add_128_128 a b) = uint (m_low a + m_low b) + 2 ^ 64 * uint (m_high a + m_high b + c)"
    by (simp add: u128_def add_128_128_def Let_def c_def)
  show ?thesis
    unfolding e high unfolding u128_def by (rule add_128_arith [OF low uint64_bounds])
qed

lemma acc_add_val:
  assumes "uint (snd acc) < 2 ^ 64 - 1"
  shows "acc_val (acc_add p acc) + acc_lost p acc = acc_val acc + u128 p" "uint (snd (acc_add p acc)) \<le> uint (snd acc) + 1"
proof -
  obtain r01 r2 where acc: "acc = (r01, r2)" by (cases acc)
  define q where "q = add_128_128 r01 p"
  have q: "u128 q = (if u128 r01 + u128 p < 2 ^ 128 then u128 r01 + u128 p else u128 r01 + u128 p - 2 ^ 128)"
    unfolding q_def by (rule add_128_128_val)
  have e: "acc_add p acc = (q, r2 + (if m_high q < m_high p then 1 else 0))" by (simp add: acc_add_def acc q_def Let_def)
  have r2: "uint (r2 + (if m_high q < m_high p then 1 else 0)) = uint r2 + (if m_high q < m_high p then 1 else 0)"
    using assms acc by (simp add: uint_add_once)
  have "\<not> m_high q < m_high p" if "u128 r01 + u128 p < 2 ^ 128"
  proof
    assume "m_high q < m_high p"
    then have "uint (m_high q) + 1 \<le> uint (m_high p)" by (simp add: word_less_def)
    then have "u128 q < u128 p"
      by (simp add: u128_def) (use uint64_bounds(2) [of "m_low q", simplified] uint64_bounds(1) [of "m_low p"] in linarith)
    with q that u128_bounds [of r01] show False by simp
  qed
  then show "acc_val (acc_add p acc) + acc_lost p acc = acc_val acc + u128 p"
    using q r2 unfolding e by (auto simp: acc_val_def acc_lost_def acc q_def [symmetric])
  show "uint (snd (acc_add p acc)) \<le> uint (snd acc) + 1" using r2 by (simp add: e) (simp add: acc)
qed

fun lost_sum :: "uint128_t list \<Rightarrow> uint128_t \<times> u64 \<Rightarrow> int" where
  "lost_sum [] acc = 0"
| "lost_sum (p # ps) acc = acc_lost p acc + lost_sum ps (acc_add p acc)"

lemma fold_acc_add_val:
  assumes "uint (snd acc) + int (length ps) < 2 ^ 64"
  shows "acc_val (fold acc_add ps acc) + lost_sum ps acc = acc_val acc + sum_list (map u128 ps)"
  using assms
proof (induction ps arbitrary: acc)
  case (Cons p ps)
  then have "uint (snd acc) < 2 ^ 64 - 1" by simp
  note a = acc_add_val [OF this, of p]
  with Cons.prems have "uint (snd (acc_add p acc)) + int (length ps) < 2 ^ 64" by simp
  from Cons.IH [OF this] a(1) show ?case by simp
qed simp

text \<open>What the columns lose, and what they add up to.\<close>

definition next_acc :: "uint128_t \<times> u64 \<Rightarrow> uint128_t \<times> u64" where
  "next_acc acc = (\<lparr>m_low = m_high (fst acc), m_high = snd acc\<rparr>, 0)"

fun columns_lost :: "((uint128_t \<times> u64 \<Rightarrow> uint128_t \<times> u64) \<times> (uint128_t \<times> u64 \<Rightarrow> int)) list \<Rightarrow> uint128_t \<times> u64 \<Rightarrow> int" where
  "columns_lost [] acc = 0"
| "columns_lost ((col, lost) # cols) acc = lost acc + 2 ^ 64 * columns_lost cols (next_acc (col acc))"

fun digits_sum :: "int list \<Rightarrow> int" where
  "digits_sum [] = 0"
| "digits_sum (x # xs) = x + 2 ^ 64 * digits_sum xs"

fun columns_val :: "(uint128_t \<times> u64 \<Rightarrow> uint128_t \<times> u64) list \<Rightarrow> uint128_t \<times> u64 \<Rightarrow> int" where
  "columns_val [] acc = acc_val acc"
| "columns_val (col # cols) acc = uint (m_low (fst (col acc))) + 2 ^ 64 * columns_val cols (next_acc (col acc))"

lemma acc_val_next: "acc_val acc = uint (m_low (fst acc)) + 2 ^ 64 * acc_val (next_acc acc)"
  by (simp add: acc_val_def next_acc_def u128_def)

lemma columns_val_mod: "vli_val (columns cols acc) = columns_val cols acc mod 2 ^ (64 * Suc (length cols))"
proof (induction cols arbitrary: acc)
  case Nil
  have "acc_val acc mod 2 ^ 64 = uint (m_low (fst acc))"
    unfolding acc_val_next [of acc] using uint64_bounds [of "m_low (fst acc)"] by (simp add: mod_pos_pos_trivial)
  then show ?case by simp
next
  case (Cons col cols)
  have e: "columns (col # cols) acc = m_low (fst (col acc)) # columns cols (next_acc (col acc))"
    by (simp add: next_acc_def split: prod.split)
  have "(d + 2 ^ 64 * x) mod (2 ^ 64 * 2 ^ n) = d + 2 ^ 64 * (x mod 2 ^ n)" if "0 \<le> d" "d < 2 ^ 64" for d x :: int and n
  proof -
    have "(d + 2 ^ 64 * x) mod (2 ^ 64 * 2 ^ n) = 2 ^ 64 * ((d + 2 ^ 64 * x) div 2 ^ 64 mod 2 ^ n) + (d + 2 ^ 64 * x) mod 2 ^ 64"
      by (rule zmod_zmult2_eq) simp
    with that show ?thesis by simp
  qed
  note m = this [OF uint64_bounds]
  have p: "(2 :: int) ^ (64 * Suc (length (col # cols))) = 2 ^ 64 * 2 ^ (64 * Suc (length cols))"
    by (subst power_add [symmetric]) (simp add: algebra_simps)
  show ?case unfolding p columns_val.simps m unfolding e vli_val.simps Cons.IH ..
qed

lemma columns_val_sum:
  assumes "list_all2 (\<lambda>(col, lost) s. \<forall>acc. snd acc = 0 \<longrightarrow> acc_val (col acc) + lost acc = acc_val acc + s) cols ss" "snd acc = 0"
  shows "columns_val (map fst cols) acc + columns_lost cols acc = acc_val acc + digits_sum ss"
  using assms
proof (induction arbitrary: acc rule: list_all2_induct)
  case (Cons x cols s ss)
  obtain col lost where x: "x = (col, lost)" by (cases x)
  have "acc_val (col acc) + lost acc = acc_val acc + s" using Cons x by (cases acc) auto
  moreover have "columns_val (map fst cols) (next_acc (col acc)) + columns_lost cols (next_acc (col acc)) =
      acc_val (next_acc (col acc)) + digits_sum ss"
    using Cons by (simp add: next_acc_def)
  ultimately show ?case using acc_val_next [of "col acc"] by (simp add: x algebra_simps)
qed simp

lemma digits_sum_bound: "\<forall>x\<in>set xs. 0 \<le> x \<Longrightarrow> 0 \<le> digits_sum xs"
  by (induction xs) auto

lemma columns_val_nonneg: "0 \<le> columns_val cols acc"
proof (induction cols arbitrary: acc)
  case Nil
  then show ?case using u128_bounds [of "fst acc"] uint64_bounds [of "snd acc"] by (simp add: acc_val_def)
qed (simp add: uint64_bounds)

definition zero_acc :: "uint128_t \<times> u64" where
  "zero_acc = (\<lparr>m_low = 0, m_high = 0\<rparr>, 0)"

text \<open>Both products are computed in columns whose sums make up the product of the numbers.\<close>

lemma columns_exact:
  assumes "list_all2 (\<lambda>(col, lost) s. \<forall>acc. snd acc = 0 \<longrightarrow> acc_val (col acc) + lost acc = acc_val acc + s) cols ss"
    and "length cols = 7" "digits_sum ss = x * y" "0 \<le> x" "x < 2 ^ 256" "0 \<le> y" "y < 2 ^ 256" "0 \<le> columns_lost cols zero_acc"
  shows "vli_val (columns (map fst cols) zero_acc) + columns_lost cols zero_acc = x * y"
proof -
  have "columns_val (map fst cols) zero_acc + columns_lost cols zero_acc = x * y"
    using columns_val_sum [OF assms(1), of zero_acc] assms(3) by (simp add: zero_acc_def acc_val_def u128_def)
  moreover have "x * y < 2 ^ 256 * 2 ^ 256" using assms by (intro mult_strict_mono') auto
  ultimately have "columns_val (map fst cols) zero_acc < 2 ^ 512" using assms(8) by simp
  then have "columns_val (map fst cols) zero_acc mod 2 ^ 512 = columns_val (map fst cols) zero_acc"
    using columns_val_nonneg by (rule mod_pos_pos_trivial [rotated])
  then show ?thesis
    using columns_val_mod [of "map fst cols" zero_acc] assms(2)
      \<open>columns_val (map fst cols) zero_acc + columns_lost cols zero_acc = x * y\<close> by simp
qed

text \<open>What \<open>vli_mult\<close> loses: run along with it, column by column.\<close>

definition mult_col_lost :: "vli \<Rightarrow> vli \<Rightarrow> nat \<Rightarrow> uint128_t \<times> u64 \<Rightarrow> int" where
  "mult_col_lost l r k = lost_sum (map (\<lambda>i. mul_64_64 (l ! i) (r ! (k - i))) [col_min k..<Suc (min k 3)])"

definition vli_mult_lost :: "vli \<Rightarrow> vli \<Rightarrow> int" where
  "vli_mult_lost l r = columns_lost (map (\<lambda>k. (mult_col l r k, mult_col_lost l r k)) [0..<7]) zero_acc"

lemma lost_sum_nonneg: "0 \<le> lost_sum ps acc"
  by (induction ps arbitrary: acc) (simp_all add: acc_lost_def)

lemma mult_col_val:
  assumes "snd acc = 0"
  shows "acc_val (mult_col l r k acc) + mult_col_lost l r k acc =
    acc_val acc + (\<Sum>i\<leftarrow>[col_min k..<Suc (min k 3)]. uint (l ! i) * uint (r ! (k - i)))"
proof -
  have "mult_col l r k acc = fold acc_add (map (\<lambda>i. mul_64_64 (l ! i) (r ! (k - i))) [col_min k..<Suc (min k 3)]) acc"
    by (simp add: mult_col_def fold_map comp_def)
  then show ?thesis
    using fold_acc_add_val [of acc "map (\<lambda>i. mul_64_64 (l ! i) (r ! (k - i))) [col_min k..<Suc (min k 3)]"] assms
    by (simp add: mult_col_lost_def comp_def mul_64_64_val del: upt_Suc)
qed

lemma list4: "length v = 4 \<Longrightarrow> \<exists>a b c d. v = [a, b, c, d]"
  by (auto simp: numeral_eq_Suc length_Suc_conv)

lemma columns_lost_nonneg: "(\<forall>(col, lost)\<in>set cols. \<forall>acc. 0 \<le> lost acc) \<Longrightarrow> 0 \<le> columns_lost cols acc"
proof (induction cols arbitrary: acc)
  case (Cons x cols)
  then show ?case using Cons.IH [of "next_acc (fst x acc)"] by (cases x; cases acc) simp
qed simp

lemma upt_7: "[0..<7] = [0, 1, 2, 3, 4, 5, 6 :: nat]"
  by (simp add: upt_rec)

lemma vli_mult_exact:
  assumes "length l = 4" "length r = 4"
  shows "vli_val (vli_mult l r) + vli_mult_lost l r = vli_val l * vli_val r"
proof -
  let ?s = "\<lambda>k. \<Sum>i\<leftarrow>[col_min k..<Suc (min k 3)]. uint (l ! i) * uint (r ! (k - i))"
  let ?cols = "map (\<lambda>k. (mult_col l r k, mult_col_lost l r k)) [0..<7]"
  obtain a b c d e f g h where lr: "l = [a, b, c, d]" "r = [e, f, g, h]" using list4 assms by metis
  have "vli_val (columns (map fst ?cols) zero_acc) + columns_lost ?cols zero_acc = vli_val l * vli_val r"
  proof (rule columns_exact [of _ "map ?s [0..<7]"])
    show "list_all2 (\<lambda>(col, lost) s. \<forall>acc. snd acc = 0 \<longrightarrow> acc_val (col acc) + lost acc = acc_val acc + s) ?cols (map ?s [0..<7])"
      by (simp add: list.rel_map list.rel_refl mult_col_val del: upt_Suc)
    show "digits_sum (map ?s [0..<7]) = vli_val l * vli_val r"
      unfolding upt_7 by (simp add: lr col_min_def upt_rec algebra_simps)
    show "0 \<le> columns_lost ?cols zero_acc" by (rule columns_lost_nonneg) (auto simp: mult_col_lost_def lost_sum_nonneg)
  qed (use vli_val_bounds [of l] vli_val_bounds [of r] assms in simp_all)
  then show ?thesis by (simp add: vli_mult_def vli_mult_lost_def zero_acc_def comp_def)
qed

lemma vli_mult_lost_nonneg: "0 \<le> vli_mult_lost l r"
  unfolding vli_mult_lost_def by (rule columns_lost_nonneg) (auto simp: mult_col_lost_def lost_sum_nonneg)

text \<open>The same for \<open>vli_square\<close>.\<close>

definition square_term :: "vli \<Rightarrow> nat \<Rightarrow> nat \<Rightarrow> int" where
  "square_term l k i = (if i < k - i then 2 else 1) * (uint (l ! i) * uint (l ! (k - i)))"

definition square_lost :: "vli \<Rightarrow> nat \<Rightarrow> nat \<Rightarrow> uint128_t \<times> u64 \<Rightarrow> int" where
  "square_lost l k i acc =
     (let product = mul_64_64 (l ! i) (l ! (k - i)); (r01, r2) = acc
      in if i < k - i then
           acc_lost \<lparr>m_low = push_bit 1 (m_low product), m_high = push_bit 1 (m_high product) OR drop_bit 63 (m_low product)\<rparr>
             (r01, r2 + drop_bit 63 (m_high product))
         else acc_lost product (r01, r2))"

lemma double_product:
  "u128 \<lparr>m_low = push_bit 1 (m_low p), m_high = push_bit 1 (m_high p) OR drop_bit 63 (m_low p)\<rparr> +
    2 ^ 128 * uint (drop_bit 63 (m_high p)) = 2 * u128 p"
proof -
  have "uint (drop_bit 63 (m_low p)) < 2 ^ 1"
  proof -
    have "uint (m_low p) div 2 ^ 63 < 2" using uint64_bounds [of "m_low p"] by simp
    then show ?thesis by (simp add: uint_drop)
  qed
  then have "uint (push_bit 1 (m_high p) OR drop_bit 63 (m_low p)) = uint (push_bit 1 (m_high p)) + uint (drop_bit 63 (m_low p))"
    by (rule or_carry) simp
  then show ?thesis
    using shift_digit [of 1 "m_low p"] shift_digit [of 1 "m_high p"] by (simp add: u128_def)
qed

lemma square_add_val:
  assumes "uint (snd acc) < 2 ^ 64 - 2"
  shows "acc_val (square_add l k i acc) + square_lost l k i acc = acc_val acc + square_term l k i"
    "uint (snd (square_add l k i acc)) \<le> uint (snd acc) + 2"
proof -
  obtain r01 r2 where acc: "acc = (r01, r2)" by (cases acc)
  define p where "p = mul_64_64 (l ! i) (l ! (k - i))"
  define q where "q = (if i < k - i then \<lparr>m_low = push_bit 1 (m_low p), m_high = push_bit 1 (m_high p) OR drop_bit 63 (m_low p)\<rparr> else p)"
  define c where "c = (if i < k - i then drop_bit 63 (m_high p) else 0)"
  have c: "uint c \<le> 1" using uint64_bounds [of "m_high p"] by (auto simp: c_def uint_drop)
  have r2: "uint (r2 + c) = uint r2 + uint c" using assms c acc by (simp add: uint_add_once)
  have t: "u128 q + 2 ^ 128 * uint c = square_term l k i"
    using double_product [of p] mul_64_64_val [of "l ! i" "l ! (k - i)"] by (auto simp: q_def c_def square_term_def p_def)
  have e: "square_add l k i acc = acc_add q (r01, r2 + c)" "square_lost l k i acc = acc_lost q (r01, r2 + c)"
    by (simp_all add: square_add_def square_lost_def Let_def acc p_def q_def c_def)
  have "uint (snd (r01, r2 + c)) < 2 ^ 64 - 1" using assms c acc r2 by simp
  note a = acc_add_val [OF this, of q]
  show "acc_val (square_add l k i acc) + square_lost l k i acc = acc_val acc + square_term l k i"
    unfolding e using a(1) t r2 by (simp add: acc acc_val_def)
  show "uint (snd (square_add l k i acc)) \<le> uint (snd acc) + 2"
    unfolding e using a(2) r2 c by (simp add: acc)
qed

fun square_lost_sum :: "vli \<Rightarrow> nat \<Rightarrow> nat list \<Rightarrow> uint128_t \<times> u64 \<Rightarrow> int" where
  "square_lost_sum l k [] acc = 0"
| "square_lost_sum l k (i # is) acc = square_lost l k i acc + square_lost_sum l k is (square_add l k i acc)"

lemma fold_square_val:
  assumes "uint (snd acc) + 2 * int (length is) < 2 ^ 64"
  shows "acc_val (fold (square_add l k) is acc) + square_lost_sum l k is acc = acc_val acc + (\<Sum>i\<leftarrow>is. square_term l k i)"
  using assms
proof (induction "is" arbitrary: acc)
  case (Cons i "is")
  then have "uint (snd acc) < 2 ^ 64 - 2" by simp
  note a = square_add_val [OF this, of l k i]
  with Cons.prems have "uint (snd (square_add l k i acc)) + 2 * int (length is) < 2 ^ 64" by simp
  from Cons.IH [OF this] a(1) show ?case by simp
qed simp

lemma square_lost_sum_nonneg: "0 \<le> square_lost_sum l k is acc"
  by (induction "is" arbitrary: acc) (auto simp: square_lost_def acc_lost_def Let_def split: prod.splits)

definition vli_square_lost :: "vli \<Rightarrow> int" where
  "vli_square_lost l =
     columns_lost (map (\<lambda>k. (square_col l k, square_lost_sum l k [col_min k..<Suc (k div 2)])) [0..<7]) zero_acc"

lemma vli_square_exact:
  assumes "length l = 4"
  shows "vli_val (vli_square l) + vli_square_lost l = vli_val l * vli_val l"
proof -
  let ?is = "\<lambda>k. [col_min k..<Suc (k div 2)]"
  let ?s = "\<lambda>k. \<Sum>i\<leftarrow>?is k. square_term l k i"
  let ?cols = "map (\<lambda>k. (square_col l k, square_lost_sum l k (?is k))) [0..<7]"
  obtain a b c d where l: "l = [a, b, c, d]" using list4 assms by metis
  have col: "acc_val (square_col l k acc) + square_lost_sum l k (?is k) acc = acc_val acc + ?s k" if "snd acc = 0" "k < 7" for k acc
  proof -
    have "length (?is k) \<le> 4" using that by (simp del: upt_Suc)
    then show ?thesis unfolding square_col_def by (intro fold_square_val) (simp add: that(1) del: upt_Suc)
  qed
  have "vli_val (columns (map fst ?cols) zero_acc) + columns_lost ?cols zero_acc = vli_val l * vli_val l"
  proof (rule columns_exact [of _ "map ?s [0..<7]"])
    show "list_all2 (\<lambda>(col, lost) s. \<forall>acc. snd acc = 0 \<longrightarrow> acc_val (col acc) + lost acc = acc_val acc + s) ?cols (map ?s [0..<7])"
      using col by (simp add: list_all2_conv_all_nth del: upt_Suc)
    show "digits_sum (map ?s [0..<7]) = vli_val l * vli_val l"
      unfolding upt_7 by (simp add: l col_min_def upt_rec square_term_def algebra_simps)
    show "0 \<le> columns_lost ?cols zero_acc" by (rule columns_lost_nonneg) (auto simp: square_lost_sum_nonneg)
  qed (use vli_val_bounds [of l] assms in simp_all)
  then show ?thesis by (simp add: vli_square_def vli_square_lost_def zero_acc_def comp_def)
qed

section \<open>Reduction modulo the prime of the curve\<close>

definition acc_int :: "int \<times> vli \<Rightarrow> int" where
  "acc_int cr = vli_val (snd cr) + 2 ^ 256 * fst cr"

lemma mmod_plus_val:
  assumes "length (snd cr) = 4" "length t = 4"
  shows "acc_int (mmod_plus t cr) = acc_int cr + vli_val t" "length (snd (mmod_plus t cr)) = 4"
  using vli_add_val [OF assms] by (cases cr; cases "vli_add (snd cr) t"; simp add: acc_int_def mmod_plus_def algebra_simps)+

lemma mmod_minus_val:
  assumes "length (snd cr) = 4" "length t = 4"
  shows "acc_int (mmod_minus t cr) = acc_int cr - vli_val t" "length (snd (mmod_minus t cr)) = 4"
  using vli_sub_val [OF assms] by (cases cr; cases "vli_sub (snd cr) t"; simp add: acc_int_def mmod_minus_def algebra_simps)+

lemma mmod_plus2_val:
  assumes "length (snd cr) = 4" "length t = 4"
  shows "acc_int (mmod_plus2 t cr) = acc_int cr + 2 * vli_val t" "length (snd (mmod_plus2 t cr)) = 4"
proof -
  obtain u c where u: "vli_lshift t 1 = (u, c)" by (cases "vli_lshift t 1")
  note l = vli_lshift_val [OF assms(2), unfolded u, simplified]
  have e: "mmod_plus2 t cr = mmod_plus u (fst cr + uint c, snd cr)" by (cases cr) (use u in \<open>simp add: mmod_plus2_def\<close>)
  show "acc_int (mmod_plus2 t cr) = acc_int cr + 2 * vli_val t" "length (snd (mmod_plus2 t cr)) = 4"
    using mmod_plus_val [of "(fst cr + uint c, snd cr)" u] l assms unfolding e by (simp_all add: acc_int_def)
qed

lemmas mmod_vals = mmod_plus_val mmod_minus_val mmod_plus2_val

lemma length_terms:
  "length (mmod_s1 p) = 4" "length (mmod_s2 p) = 4" "length (mmod_s3 p) = 4" "length (mmod_s4 p) = 4"
  "length (mmod_d1 p) = 4" "length (mmod_d2 p) = 4" "length (mmod_d3 p) = 4" "length (mmod_d4 p) = 4"
  by (simp_all add: mmod_s1_def mmod_s2_def mmod_s3_def mmod_s4_def mmod_d1_def mmod_d2_def mmod_d3_def mmod_d4_def)

lemma mmod_terms_val:
  assumes "length p = 8"
  shows "acc_int (mmod_terms p) = vli_val (take 4 p) + 2 * vli_val (mmod_s1 p) + 2 * vli_val (mmod_s2 p) + vli_val (mmod_s3 p) +
      vli_val (mmod_s4 p) - vli_val (mmod_d1 p) - vli_val (mmod_d2 p) - vli_val (mmod_d3 p) - vli_val (mmod_d4 p)"
    "length (snd (mmod_terms p)) = 4"
proof -
  have "acc_int (0, take 4 p) = vli_val (take 4 p)" "length (snd (0 :: int, take 4 p)) = 4"
    using assms by (simp_all add: acc_int_def)
  then show "acc_int (mmod_terms p) = vli_val (take 4 p) + 2 * vli_val (mmod_s1 p) + 2 * vli_val (mmod_s2 p) + vli_val (mmod_s3 p) +
      vli_val (mmod_s4 p) - vli_val (mmod_d1 p) - vli_val (mmod_d2 p) - vli_val (mmod_d3 p) - vli_val (mmod_d4 p)"
    "length (snd (mmod_terms p)) = 4"
    unfolding mmod_terms_def by (simp_all only: mmod_vals length_terms)
qed

definition P256 :: int where "P256 = 2 ^ 256 - 2 ^ 224 + 2 ^ 192 + 2 ^ 96 - 1"

lemma curve_p_val: "vli_val curve_p = P256" "length curve_p = 4"
  by (simp_all add: curve_p_def P256_def)

lemma P256_bounds: "0 < P256" "P256 < 2 ^ 256" "2 ^ 255 < P256" by (simp_all add: P256_def)

text \<open>
  The sums and differences agree with the product modulo the prime: for each of
  the eight 32-bit words of the high half, the word at its place minus what the
  terms hold of it is a multiple of the prime.
\<close>

lemma mmod_terms_congruent:
  assumes "length p = 8"
  shows "vli_val p - acc_int (mmod_terms p) = P256 *
    (lo32 (p ! 4) + 4294967297 * hi32 (p ! 4) + 18446744078004518912 * lo32 (p ! 5) + 79228162532711081667253501951 * hi32 (p ! 5) +
     340282367000166625977638945021017194495 * lo32 (p ! 6) + 1461501637671185285124623296161210883009696235519 * hi32 (p ! 6) +
     6277101736848182401166692341332123086285927382448418586623 * lo32 (p ! 7) +
     26959946673427741530053695850515137729844644212646842236464328081408 * hi32 (p ! 7))"
proof -
  have "\<exists>a b c d e f g h. p = [a, b, c, d, e, f, g, h]" using assms by (auto simp: numeral_eq_Suc length_Suc_conv)
  then obtain a b c d e f g h where p: "p = [a, b, c, d, e, f, g, h]" by blast
  note d = mmod_s1_def mmod_s2_def mmod_s3_def mmod_s4_def mmod_d1_def mmod_d2_def mmod_d3_def mmod_d4_def
  show ?thesis
    unfolding mmod_terms_val(1) [OF assms] unfolding d p P256_def
    by (simp add: half_ops half_ors halves(1) [of e] halves(1) [of f] halves(1) [of g] halves(1) [of h] algebra_simps)
qed

lemma acc_int_carry:
  assumes "length (snd cr) = 4"
  shows "fst cr < 0 \<longleftrightarrow> acc_int cr < 0" "0 \<le> fst cr \<Longrightarrow> fst cr \<noteq> 0 \<longleftrightarrow> 2 ^ 256 \<le> acc_int cr"
proof -
  note b = vli_val_bounds(1) [of "snd cr"] vli_val_4 [OF assms]
  show "fst cr < 0 \<longleftrightarrow> acc_int cr < 0" using b unfolding acc_int_def by (simp; linarith)
  show "0 \<le> fst cr \<Longrightarrow> fst cr \<noteq> 0 \<longleftrightarrow> 2 ^ 256 \<le> acc_int cr" using b unfolding acc_int_def by (simp; linarith)
qed

lemma down_cond_iff:
  assumes "length (snd cr) = 4" "0 \<le> acc_int cr"
  shows "down_cond cr \<longleftrightarrow> P256 \<le> acc_int cr"
proof -
  have "0 \<le> fst cr" using acc_int_carry(1) [OF assms(1)] assms(2) by linarith
  note c = acc_int_carry(2) [OF assms(1) this]
  have "vli_cmp curve_p (snd cr) \<noteq> 1 \<longleftrightarrow> P256 \<le> vli_val (snd cr)"
    using assms(1) by (auto simp: vli_cmp_sgn curve_p_val sgn_if)
  then show ?thesis using c P256_bounds unfolding down_cond_def by (auto simp: acc_int_def)
qed

text \<open>What the loops keep, and the number that grows or shrinks.\<close>

definition reduces :: "int \<Rightarrow> int \<times> vli \<Rightarrow> bool" where
  "reduces n cr \<longleftrightarrow> length (snd cr) = 4 \<and> P256 dvd acc_int cr - n"

lemma up_step:
  assumes "reduces n cr" "acc_int cr < P256" "up_cond cr"
  shows "reduces n (mmod_plus curve_p cr)" "acc_int (mmod_plus curve_p cr) < P256"
    "nat (P256 - acc_int (mmod_plus curve_p cr)) < nat (P256 - acc_int cr)"
proof -
  have l: "length (snd cr) = 4" using assms by (simp add: reduces_def)
  note v = mmod_plus_val [OF l curve_p_val(2)]
  have "acc_int cr < 0" using assms(3) acc_int_carry(1) [OF l] by (simp add: up_cond_def)
  moreover have "P256 dvd acc_int cr + P256 - n" using assms(1) by (simp add: reduces_def algebra_simps) (metis add_diff_eq dvd_add_triv_left_iff)
  ultimately show "reduces n (mmod_plus curve_p cr)" "acc_int (mmod_plus curve_p cr) < P256"
    "nat (P256 - acc_int (mmod_plus curve_p cr)) < nat (P256 - acc_int cr)"
    using v P256_bounds by (auto simp: reduces_def curve_p_val)
qed

lemma down_step:
  assumes "reduces n cr" "0 \<le> acc_int cr" "down_cond cr"
  shows "reduces n (mmod_minus curve_p cr)" "0 \<le> acc_int (mmod_minus curve_p cr)"
    "nat (acc_int (mmod_minus curve_p cr)) < nat (acc_int cr)"
proof -
  have l: "length (snd cr) = 4" using assms by (simp add: reduces_def)
  note v = mmod_minus_val [OF l curve_p_val(2)]
  have "P256 \<le> acc_int cr" using assms down_cond_iff [OF l] by simp
  moreover have "P256 dvd acc_int cr - P256 - n" using assms(1) unfolding reduces_def by (metis diff_right_commute dvd_diff dvd_refl)
  ultimately show "reduces n (mmod_minus curve_p cr)" "0 \<le> acc_int (mmod_minus curve_p cr)"
    "nat (acc_int (mmod_minus curve_p cr)) < nat (acc_int cr)"
    using v P256_bounds by (auto simp: reduces_def curve_p_val)
qed

lemma mod_unique: "P256 dvd x - n \<Longrightarrow> 0 \<le> x \<Longrightarrow> x < P256 \<Longrightarrow> x = n mod P256"
  by (metis mod_eq_dvd_iff mod_pos_pos_trivial)

lemma up_loop:
  assumes "reduces n cr" "fst cr < 0"
  shows "vli_val (snd (while up_cond (mmod_plus curve_p) cr)) = n mod P256 \<and> length (snd (while up_cond (mmod_plus curve_p) cr)) = 4"
proof (rule while_rule [where P = "\<lambda>cr. reduces n cr \<and> acc_int cr < P256" and r = "measure (\<lambda>cr. nat (P256 - acc_int cr))"])
  have "acc_int cr < 0" using assms acc_int_carry(1) by (simp add: reduces_def)
  then show "reduces n cr \<and> acc_int cr < P256" using assms P256_bounds by simp
next
  fix cr assume "reduces n cr \<and> acc_int cr < P256" "\<not> up_cond cr"
  then have l: "length (snd cr) = 4" "P256 dvd acc_int cr - n" "acc_int cr < P256" "\<not> fst cr < 0" by (simp_all add: reduces_def up_cond_def)
  then have "0 \<le> acc_int cr" "fst cr = 0" using acc_int_carry [OF l(1)] P256_bounds by auto
  then show "vli_val (snd cr) = n mod P256 \<and> length (snd cr) = 4" using mod_unique [OF l(2) _ l(3)] l(1) by (simp add: acc_int_def)
qed (use up_step in auto)

lemma down_loop:
  assumes "reduces n cr" "\<not> fst cr < 0"
  shows "vli_val (snd (while down_cond (mmod_minus curve_p) cr)) = n mod P256 \<and>
    length (snd (while down_cond (mmod_minus curve_p) cr)) = 4"
proof (rule while_rule [where P = "\<lambda>cr. reduces n cr \<and> 0 \<le> acc_int cr" and r = "measure (\<lambda>cr. nat (acc_int cr))"])
  show "reduces n cr \<and> 0 \<le> acc_int cr" using assms acc_int_carry(1) [of cr] by (auto simp: reduces_def)
next
  fix cr assume "reduces n cr \<and> 0 \<le> acc_int cr" "\<not> down_cond cr"
  then have l: "length (snd cr) = 4" "P256 dvd acc_int cr - n" "0 \<le> acc_int cr" "acc_int cr < P256"
    using down_cond_iff [of cr] by (auto simp: reduces_def)
  then have "fst cr = 0" using acc_int_carry [OF l(1)] P256_bounds by auto
  then show "vli_val (snd cr) = n mod P256 \<and> length (snd cr) = 4" using mod_unique [OF l(2,3,4)] l(1) by (simp add: acc_int_def)
qed (use down_step in auto)

lemma terms_reduce: "length p = 8 \<Longrightarrow> reduces (vli_val p) (mmod_terms p)"
  using mmod_terms_congruent [of p] mmod_terms_val(2) [of p] by (simp add: reduces_def dvd_diff_commute)

lemma mmod_fast_core:
  assumes "length p = 8"
  shows "vli_val (vli_mmod_fast p) = vli_val p mod P256" "length (vli_mmod_fast p) = 4"
  using up_loop [OF terms_reduce [OF assms]] down_loop [OF terms_reduce [OF assms]]
  by (auto simp: vli_mmod_fast_def Let_def)

section \<open>Inversion\<close>

lemma EVEN_iff:
  assumes "length v = 4"
  shows "EVEN v \<longleftrightarrow> even (vli_val v)"
proof -
  obtain a b c d where v: "v = [a, b, c, d]" using list4 [OF assms] by blast
  have "uint (take_bit 1 a) = uint a mod 2" unfolding unsigned_take_bit_eq by (simp add: take_bit_eq_mod)
  moreover have "a AND 1 = take_bit 1 a" by (simp add: take_bit_eq_mask)
  ultimately have "a AND 1 = 0 \<longleftrightarrow> even (uint a)" by (simp add: word_uint_eq_iff even_iff_mod_2_eq_zero)
  then show ?thesis by (simp add: v EVEN_def)
qed

lemma half_mod_val:
  assumes "length u = 4" "length m = 4" "odd (vli_val m)" "vli_val u < vli_val m"
  shows "2 * vli_val (half_mod u m) = (if even (vli_val u) then vli_val u else vli_val u + vli_val m)"
    "length (half_mod u m) = 4"
proof -
  obtain s c where s: "(if \<not> EVEN u then vli_add u m else (u, 0)) = (s, c)" by (metis surj_pair)
  have a: "vli_val s + 2 ^ 256 * uint c = (if even (vli_val u) then vli_val u else vli_val u + vli_val m)"
    "uint c \<le> 1" "length s = 4"
    using vli_add_val [OF assms(1,2)] s assms(1) by (auto simp: EVEN_iff split: if_splits)
  note r = vli_rshift1_val [of s]
  have "even (vli_val s + 2 ^ 256 * uint c)" using a(1) assms(3) by auto
  then have "even (vli_val s)" by simp
  then have r2: "2 * vli_val (vli_rshift1 s) = vli_val s" using r(1) by simp
  obtain d0 d1 d2 d3 where t: "vli_rshift1 s = [d0, d1, d2, d3]" using list4 r(2) a(3) by metis
  have e: "half_mod u m = (if c \<noteq> 0 then [d0, d1, d2, d3 OR 0x8000000000000000] else [d0, d1, d2, d3])"
    unfolding half_mod_def s by (simp add: Let_def t)
  have top: "uint (d3 OR 0x8000000000000000) = uint d3 + 2 ^ 63"
  proof -
    have "2 * (2 ^ 192 * uint d3) \<le> vli_val s"
      using r2 unfolding t
      by simp (use uint64_bounds(1) [of d0] uint64_bounds(1) [of d1] uint64_bounds(1) [of d2] in linarith)
    then have d3: "uint d3 < 2 ^ 63" using vli_val_4 [OF a(3)] by simp
    have "d3 AND 0x8000000000000000 = 0"
    proof -
      have "d3 = take_bit 63 d3" using d3 by (simp add: word_uint_eq_iff unsigned_take_bit_eq) (simp add: take_bit_eq_mod mod_pos_pos_trivial)
      moreover have "(0x8000000000000000 :: u64) = push_bit 63 1" by simp
      moreover have "take_bit 63 d3 AND push_bit 63 x = 0" for x by (rule bit_word_eqI) (auto simp: bit_simps)
      ultimately show ?thesis by metis
    qed
    then show ?thesis by (simp add: uint_or_disjoint)
  qed
  have c: "c = 0 \<and> uint c = 0 \<or> c \<noteq> 0 \<and> uint c = 1"
    using digit_01 [OF a(2)] by (auto simp: word_uint_eq_iff)
  then have "2 * vli_val (half_mod u m) = 2 * vli_val [d0, d1, d2, d3] + 2 ^ 256 * uint c"
    unfolding e using top by auto
  also have "\<dots> = vli_val s + 2 ^ 256 * uint c" using r2 unfolding t by simp
  finally show "2 * vli_val (half_mod u m) = (if even (vli_val u) then vli_val u else vli_val u + vli_val m)" using a(1) by simp
  show "length (half_mod u m) = 4" by (simp add: e)
qed

lemma half_mod_props:
  assumes "length u = 4" "length m = 4" "odd (vli_val m)" "vli_val u < vli_val m" "vli_val m dvd vli_val u * x - 2 * a"
  shows "length (half_mod u m) = 4" "vli_val (half_mod u m) < vli_val m" "vli_val m dvd vli_val (half_mod u m) * x - a"
proof -
  note h = half_mod_val [OF assms(1-4)]
  show "length (half_mod u m) = 4" by (rule h)
  show "vli_val (half_mod u m) < vli_val m" 
    using h(1) assms(4) vli_val_bounds(1) [of u] by (simp split: if_splits)
  have "vli_val m dvd (vli_val u * x - 2 * a) + (if even (vli_val u) then 0 else vli_val m * x)"
    by (rule dvd_add [OF assms(5)]) simp
  also have "\<dots> = (2 * vli_val (half_mod u m)) * x - 2 * a" unfolding h(1) by (simp add: algebra_simps)
  also have "\<dots> = 2 * (vli_val (half_mod u m) * x - a)" by (simp add: algebra_simps)
  finally have "vli_val m dvd 2 * (vli_val (half_mod u m) * x - a)" .
  moreover have "coprime (vli_val m) 2" using assms(3) by simp
  ultimately show "vli_val m dvd vli_val (half_mod u m) * x - a" by (metis coprime_dvd_mult_right_iff)
qed

text \<open>The difference of two residues: the modulus is added first when it is needed, its carry is dropped.\<close>

definition sub_mod :: "vli \<Rightarrow> vli \<Rightarrow> vli \<Rightarrow> vli" where
  "sub_mod u v m = fst (vli_sub (if vli_cmp u v < 0 then fst (vli_add u m) else u) v)"

lemma sub_mod_val:
  assumes "length u = 4" "length v = 4" "length m = 4" "vli_val u < vli_val m" "vli_val v < vli_val m"
  shows "vli_val (sub_mod u v m) = (if vli_val u < vli_val v then vli_val u + vli_val m - vli_val v else vli_val u - vli_val v)"
    "length (sub_mod u v m) = 4"
proof -
  define s where "s = (if vli_cmp u v < 0 then fst (vli_add u m) else u)"
  have s: "length s = 4" using vli_add_val(3) [OF assms(1,3)] assms(1) by (simp add: s_def)
  note d = vli_sub_val [OF s assms(2)] and a = vli_add_val [OF assms(1,3)]
  have e: "sub_mod u v m = fst (vli_sub s v)" by (simp add: sub_mod_def s_def)
  note b = vli_val_bounds(1) [of u] vli_val_bounds(1) [of v] vli_val_bounds(1) [of "fst (vli_sub s v)"] vli_val_4 [OF d(3)] vli_val_4 [OF assms(3)]
  have cmp: "vli_cmp u v < 0 \<longleftrightarrow> vli_val u < vli_val v" using assms by (simp add: vli_cmp_sgn sgn_if)
  have "(vli_val s = vli_val u \<and> \<not> vli_val u < vli_val v) \<or>
      (vli_val u < vli_val v \<and> (vli_val s = vli_val u + vli_val m \<or> vli_val s = vli_val u + vli_val m - 2 ^ 256))"
    using digit_01 [OF a(2)] a(1) by (auto simp: s_def cmp)
  then show "vli_val (sub_mod u v m) = (if vli_val u < vli_val v then vli_val u + vli_val m - vli_val v else vli_val u - vli_val v)"
    using digit_01 [OF d(2)] d(1) b assms(4,5) unfolding e by (elim disjE) auto
  show "length (sub_mod u v m) = 4" using d(3) e by simp
qed

lemma inv_step_alt:
  "inv_step m (a, b, u, v) =
     (if EVEN a then (vli_rshift1 a, b, half_mod u m, v)
      else if EVEN b then (a, vli_rshift1 b, u, half_mod v m)
      else if vli_cmp a b > 0 then (vli_rshift1 (fst (vli_sub a b)), b, half_mod (sub_mod u v m) m, v)
      else (a, vli_rshift1 (fst (vli_sub b a)), u, half_mod (sub_mod v u m) m))"
  by (simp add: inv_step_def sub_mod_def Let_def)

definition residue_of :: "vli \<Rightarrow> int \<Rightarrow> vli \<Rightarrow> vli \<Rightarrow> bool" where
  "residue_of m x a u \<longleftrightarrow> length a = 4 \<and> length u = 4 \<and> 0 < vli_val a \<and> vli_val u < vli_val m \<and>
     vli_val m dvd vli_val u * x - vli_val a"

lemma residue_half:
  assumes "residue_of m x a u" "length m = 4" "odd (vli_val m)" "EVEN a"
  shows "residue_of m x (vli_rshift1 a) (half_mod u m)" "2 * vli_val (vli_rshift1 a) = vli_val a"
proof -
  have l: "length a = 4" "length u = 4" using assms(1) by (simp_all add: residue_of_def)
  have a: "2 * vli_val (vli_rshift1 a) = vli_val a" using assms(4) l vli_rshift1_val(1) [of a] by (simp add: EVEN_iff)
  then have d: "vli_val m dvd vli_val u * x - 2 * vli_val (vli_rshift1 a)" using assms(1) by (simp add: residue_of_def)
  show "2 * vli_val (vli_rshift1 a) = vli_val a" by (rule a)
  show "residue_of m x (vli_rshift1 a) (half_mod u m)"
    using half_mod_props [OF l(2) assms(2,3) _ d] assms(1) a by (auto simp: residue_of_def vli_rshift1_val l)
qed

lemma residue_sub:
  assumes "residue_of m x a u" "residue_of m x b v" "length m = 4" "odd (vli_val m)" "\<not> EVEN a" "\<not> EVEN b" "vli_val b < vli_val a"
  shows "residue_of m x (vli_rshift1 (fst (vli_sub a b))) (half_mod (sub_mod u v m) m)"
    "2 * vli_val (vli_rshift1 (fst (vli_sub a b))) = vli_val a - vli_val b"
proof -
  have l: "length a = 4" "length b = 4" "length u = 4" "length v = 4" using assms by (simp_all add: residue_of_def)
  have uv: "vli_val u < vli_val m" "vli_val v < vli_val m" using assms by (simp_all add: residue_of_def)
  note d = vli_sub_val [OF l(1,2)] and w = sub_mod_val [OF l(3,4) assms(3) uv]
  have ab: "vli_val (fst (vli_sub a b)) = vli_val a - vli_val b"
    using digit_01 [OF d(2)] d(1) vli_val_bounds(1) [of b] vli_val_4 [OF d(3)] assms(7) by auto
  have "residue_of m x (fst (vli_sub a b)) (sub_mod u v m)"
  proof -
    have "vli_val m dvd (vli_val u * x - vli_val a) - (vli_val v * x - vli_val b)"
      by (rule dvd_diff) (use assms(1,2) in \<open>simp_all add: residue_of_def\<close>)
    then have "vli_val m dvd ((vli_val u * x - vli_val a) - (vli_val v * x - vli_val b)) + (if vli_val u < vli_val v then vli_val m * x else 0)"
      by (rule dvd_add) simp
    also have "\<dots> = vli_val (sub_mod u v m) * x - (vli_val a - vli_val b)"
      unfolding w(1) by (simp add: algebra_simps)
    finally have "vli_val m dvd vli_val (sub_mod u v m) * x - (vli_val a - vli_val b)" .
    moreover have "vli_val (sub_mod u v m) < vli_val m" using w(1) uv vli_val_bounds(1) [of v] by auto
    ultimately show ?thesis using d(3) w(2) assms(7) by (simp add: residue_of_def ab)
  qed
  moreover have "EVEN (fst (vli_sub a b))" using assms(5,6) l d(3) ab by (simp add: EVEN_iff)
  ultimately show "residue_of m x (vli_rshift1 (fst (vli_sub a b))) (half_mod (sub_mod u v m) m)"
    "2 * vli_val (vli_rshift1 (fst (vli_sub a b))) = vli_val a - vli_val b"
    using residue_half [OF _ assms(3,4)] ab by auto
qed

text \<open>The state of the loop, what it keeps, and the sum that shrinks.\<close>

definition inv_ok :: "vli \<Rightarrow> int \<Rightarrow> vli \<times> vli \<times> vli \<times> vli \<Rightarrow> bool" where
  "inv_ok m x s \<longleftrightarrow> (case s of (a, b, u, v) \<Rightarrow>
     residue_of m x a u \<and> residue_of m x b v \<and> coprime (vli_val a) (vli_val b))"

definition inv_size :: "vli \<times> vli \<times> vli \<times> vli \<Rightarrow> nat" where
  "inv_size s = (case s of (a, b, u, v) \<Rightarrow> nat (vli_val a + vli_val b))"

lemma coprime_half: "coprime a b \<Longrightarrow> 2 * c = a \<Longrightarrow> coprime c b" for a b c :: int
  by (metis coprime_mult_left_iff)

lemma coprime_sub_half: "coprime a b \<Longrightarrow> 2 * c = a - b \<Longrightarrow> coprime c b" for a b c :: int
  by (rule coprime_half [of "a - b"]) (simp_all add: coprime_iff_gcd_eq_1 gcd_diff1)

lemma inv_step_ok:
  assumes "inv_ok m x s" "inv_cond s" "length m = 4" "odd (vli_val m)"
  shows "inv_ok m x (inv_step m s)" "inv_size (inv_step m s) < inv_size s"
proof -
  obtain a b u v where s: "s = (a, b, u, v)" by (metis surj_pair)
  have ra: "residue_of m x a u" and rb: "residue_of m x b v" and co: "coprime (vli_val a) (vli_val b)"
    using assms(1) by (simp_all add: inv_ok_def s)
  have l: "length a = 4" "length b = 4" and pos: "0 < vli_val a" "0 < vli_val b" using ra rb by (simp_all add: residue_of_def)
  have ne: "vli_val a \<noteq> vli_val b" using assms(2) l by (auto simp: inv_cond_def s vli_cmp_sgn)
  have cmp: "vli_cmp a b > 0 \<longleftrightarrow> vli_val b < vli_val a" using l by (simp add: vli_cmp_sgn sgn_if)
  have "inv_ok m x (inv_step m s) \<and> inv_size (inv_step m s) < inv_size s"
  proof (cases "EVEN a")
    case True
    note r = residue_half [OF ra assms(3,4) True]
    show ?thesis using True r rb coprime_half [OF co r(2)] pos by (simp add: s inv_step_alt inv_ok_def inv_size_def)
  next
    case odd_a: False
    show ?thesis
    proof (cases "EVEN b")
      case True
      note r = residue_half [OF rb assms(3,4) True]
      show ?thesis
        using odd_a True r ra coprime_half [OF co [THEN coprime_commute [THEN iffD1]] r(2)] pos
        by (simp add: s inv_step_alt inv_ok_def inv_size_def coprime_commute)
    next
      case odd_b: False
      show ?thesis
      proof (cases "vli_val b < vli_val a")
        case True
        note r = residue_sub [OF ra rb assms(3,4) odd_a odd_b True]
        show ?thesis
          using odd_a odd_b True r rb coprime_sub_half [OF co r(2)] pos by (simp add: s inv_step_alt inv_ok_def inv_size_def cmp)
      next
        case False
        then have less: "vli_val a < vli_val b" using ne by simp
        note r = residue_sub [OF rb ra assms(3,4) odd_b odd_a less]
        show ?thesis
          using odd_a odd_b less r ra coprime_sub_half [OF co [THEN coprime_commute [THEN iffD1]] r(2)] pos
          by (simp add: s inv_step_alt inv_ok_def inv_size_def cmp coprime_commute)
      qed
    qed
  qed
  then show "inv_ok m x (inv_step m s)" "inv_size (inv_step m s) < inv_size s" by simp_all
qed

lemma inv_start:
  assumes "length x = 4" "length m = 4" "odd (vli_val m)" "\<not> vli_is_zero x" "coprime (vli_val x) (vli_val m)" "1 < vli_val m"
  shows "inv_ok m (vli_val x) (x, m, vli_clear[0 := 1], vli_clear)"
proof -
  have z: "vli_val v = 0 \<longleftrightarrow> vli_is_zero v" for v
    by (induction v) (use vli_val_bounds(1) uint64_bounds(1) in \<open>auto simp: vli_is_zero_def add_nonneg_eq_0_iff word_uint_eq_iff\<close>)
  have "0 < vli_val x" using vli_val_bounds(1) [of x] z [of x] assms(4) by simp
  moreover have "vli_val (vli_clear[0 := 1]) = 1" "vli_val vli_clear = 0" "length vli_clear = 4"
    by (simp_all add: vli_clear_def numeral_eq_Suc)
  ultimately show ?thesis using assms by (simp add: inv_ok_def residue_of_def)
qed

lemma mod_inv_core:
  assumes "length x = 4" "length m = 4" "odd (vli_val m)" "\<not> vli_is_zero x" "coprime (vli_val x) (vli_val m)" "1 < vli_val m"
  shows "vli_val (vli_mod_inv x m) * vli_val x mod vli_val m = 1" "length (vli_mod_inv x m) = 4" "vli_val (vli_mod_inv x m) < vli_val m"
proof -
  let ?s = "(x, m, vli_clear[0 := 1], vli_clear)"
  have "case while inv_cond (inv_step m) ?s of (a, b, u, v) \<Rightarrow> residue_of m (vli_val x) a u \<and> vli_val a = 1"
  proof (rule while_rule [where P = "inv_ok m (vli_val x)" and r = "measure inv_size"])
    fix s assume "inv_ok m (vli_val x) s" "\<not> inv_cond s"
    moreover obtain a b u v where s: "s = (a, b, u, v)" by (metis surj_pair)
    ultimately have "residue_of m (vli_val x) a u" "coprime (vli_val a) (vli_val b)" "vli_val a = vli_val b" "0 < vli_val a"
      by (auto simp: inv_ok_def inv_cond_def residue_of_def vli_cmp_sgn sgn_if split: if_splits)
    then show "case s of (a, b, u, v) \<Rightarrow> residue_of m (vli_val x) a u \<and> vli_val a = 1" by (simp add: s)
  qed (use inv_start [OF assms] inv_step_ok assms(2,3) in auto)
  moreover obtain a b u v where w: "while inv_cond (inv_step m) ?s = (a, b, u, v)" by (metis surj_pair)
  ultimately have r: "residue_of m (vli_val x) a u" "vli_val a = 1" by simp_all
  have e: "vli_mod_inv x m = u" using assms(4) w by (simp add: vli_mod_inv_def)
  have "vli_val m dvd vli_val u * vli_val x - 1" using r by (simp add: residue_of_def)
  then show "vli_val (vli_mod_inv x m) * vli_val x mod vli_val m = 1" using assms(6) unfolding e by (metis mod_eq_dvd_iff mod_pos_pos_trivial zero_le_one)
  show "length (vli_mod_inv x m) = 4" "vli_val (vli_mod_inv x m) < vli_val m" using r e by (simp_all add: residue_of_def)
qed

end
