(* ===== verification/Mesh_Ecc.thy ===== *)
theory Mesh_Ecc
  imports Mesh_Vli
begin

text \<open>
  The curve of \<^verbatim>\<open>src/shared/ecc.c\<close>: point operations in the coordinates of the
  Montgomery ladder, the check of a point, keys and shared secrets. The octets
  of \<^verbatim>\<open>/dev/urandom\<close> are an argument, as is what the memory of a local variable
  held where the code can read it before writing it.
\<close>

record ecc_point =
  px :: vli
  py :: vli

definition MAX_TRIES :: nat where "MAX_TRIES = 16"

definition curve_g :: ecc_point where
  "curve_g = \<lparr>px = [0xF4A13945D898C296, 0x77037D812DEB33A0, 0xF8BCE6E563A440F2, 0x6B17D1F2E12C4247],
     py = [0xCBB6406837BF51F5, 0x2BCE33576B315ECE, 0x8EE7EB4A7C0F9E16, 0x4FE342E2FE1A7F9B]\<rparr>"

definition curve_n :: vli where
  "curve_n = [0xF3B9CAC2FC632551, 0xBCE6FAADA7179E84, 0xFFFFFFFFFFFFFFFF, 0xFFFFFFFF00000000]"

definition curve_b :: vli where
  "curve_b = [0x3BCE3C3E27D2604B, 0x651D06B0CC53B0F6, 0xB3EBBD55769886BC, 0x5AC635D8AA3A93E7]"

section \<open>Point operations\<close>

definition ecc_point_is_zero :: "ecc_point \<Rightarrow> bool" where
  "ecc_point_is_zero p \<longleftrightarrow> vli_is_zero (px p) \<and> vli_is_zero (py p)"

definition ecc_point_double_jacobian :: "vli \<Rightarrow> vli \<Rightarrow> vli \<Rightarrow> vli \<times> vli \<times> vli" where
  "ecc_point_double_jacobian x1 y1 z1 =
     (if vli_is_zero z1 then (x1, y1, z1)
      else
        let t4 = vli_mod_square_fast y1;
            t5 = vli_mod_mult_fast x1 t4;
            t4 = vli_mod_square_fast t4;
            y1 = vli_mod_mult_fast y1 z1;
            z1 = vli_mod_square_fast z1;
            x1 = vli_mod_add x1 z1 curve_p;
            z1 = vli_mod_add z1 z1 curve_p;
            z1 = vli_mod_sub x1 z1 curve_p;
            x1 = vli_mod_mult_fast x1 z1;
            z1 = vli_mod_add x1 x1 curve_p;
            x1 = vli_mod_add x1 z1 curve_p;
            x1 = (if vli_test_bit x1 0 then
                    let (x1, carry) = vli_add x1 curve_p; x1 = vli_rshift1 x1
                    in x1[NUM_ECC_DIGITS - 1 := x1 ! (NUM_ECC_DIGITS - 1) OR push_bit 63 carry]
                  else vli_rshift1 x1);
            z1 = vli_mod_square_fast x1;
            z1 = vli_mod_sub z1 t5 curve_p;
            z1 = vli_mod_sub z1 t5 curve_p;
            t5 = vli_mod_sub t5 z1 curve_p;
            x1 = vli_mod_mult_fast x1 t5;
            t4 = vli_mod_sub x1 t4 curve_p
        in (z1, t4, y1))"

definition apply_z :: "vli \<Rightarrow> vli \<Rightarrow> vli \<Rightarrow> vli \<times> vli" where
  "apply_z x1 y1 z =
     (let t1 = vli_mod_square_fast z;
          x1 = vli_mod_mult_fast x1 t1;
          t1 = vli_mod_mult_fast t1 z;
          y1 = vli_mod_mult_fast y1 t1
      in (x1, y1))"

text \<open>The result is \<open>(x1, y1, x2, y2)\<close>; the third argument is the optional initial \<open>z\<close>.\<close>

definition xycz_initial_double :: "vli \<Rightarrow> vli \<Rightarrow> vli option \<Rightarrow> vli \<times> vli \<times> vli \<times> vli" where
  "xycz_initial_double x1 y1 p_initial_z =
     (let x2 = x1; y2 = y1;
          z = (case p_initial_z of None \<Rightarrow> vli_clear[0 := 1] | Some i \<Rightarrow> i);
          (x1, y1) = apply_z x1 y1 z;
          (x1, y1, z) = ecc_point_double_jacobian x1 y1 z;
          (x2, y2) = apply_z x2 y2 z
      in (x1, y1, x2, y2))"

definition xycz_add :: "vli \<Rightarrow> vli \<Rightarrow> vli \<Rightarrow> vli \<Rightarrow> vli \<times> vli \<times> vli \<times> vli" where
  "xycz_add x1 y1 x2 y2 =
     (let t5 = vli_mod_sub x2 x1 curve_p;
          t5 = vli_mod_square_fast t5;
          x1 = vli_mod_mult_fast x1 t5;
          x2 = vli_mod_mult_fast x2 t5;
          y2 = vli_mod_sub y2 y1 curve_p;
          t5 = vli_mod_square_fast y2;
          t5 = vli_mod_sub t5 x1 curve_p;
          t5 = vli_mod_sub t5 x2 curve_p;
          x2 = vli_mod_sub x2 x1 curve_p;
          y1 = vli_mod_mult_fast y1 x2;
          x2 = vli_mod_sub x1 t5 curve_p;
          y2 = vli_mod_mult_fast y2 x2;
          y2 = vli_mod_sub y2 y1 curve_p
      in (x1, y1, t5, y2))"

definition xycz_add_c :: "vli \<Rightarrow> vli \<Rightarrow> vli \<Rightarrow> vli \<Rightarrow> vli \<times> vli \<times> vli \<times> vli" where
  "xycz_add_c x1 y1 x2 y2 =
     (let t5 = vli_mod_sub x2 x1 curve_p;
          t5 = vli_mod_square_fast t5;
          x1 = vli_mod_mult_fast x1 t5;
          x2 = vli_mod_mult_fast x2 t5;
          t5 = vli_mod_add y2 y1 curve_p;
          y2 = vli_mod_sub y2 y1 curve_p;
          t6 = vli_mod_sub x2 x1 curve_p;
          y1 = vli_mod_mult_fast y1 t6;
          t6 = vli_mod_add x1 x2 curve_p;
          x2 = vli_mod_square_fast y2;
          x2 = vli_mod_sub x2 t6 curve_p;
          t7 = vli_mod_sub x1 x2 curve_p;
          y2 = vli_mod_mult_fast y2 t7;
          y2 = vli_mod_sub y2 y1 curve_p;
          t7 = vli_mod_square_fast t5;
          t7 = vli_mod_sub t7 t6 curve_p;
          t6 = vli_mod_sub t7 x1 curve_p;
          t6 = vli_mod_mult_fast t6 t5;
          y1 = vli_mod_sub t6 y1 curve_p
      in (t7, y1, x2, y2))"

text \<open>The two registers \<open>rx\<close>, \<open>ry\<close> of the ladder; \<open>f\<close> is applied to the registers \<open>i\<close> and \<open>j\<close>.\<close>

definition on_regs ::
  "(vli \<Rightarrow> vli \<Rightarrow> vli \<Rightarrow> vli \<Rightarrow> vli \<times> vli \<times> vli \<times> vli) \<Rightarrow> nat \<Rightarrow> nat \<Rightarrow> vli list \<times> vli list \<Rightarrow> vli list \<times> vli list" where
  "on_regs f i j r =
     (let (rx, ry) = r; (xi, yi, xj, yj) = f (rx ! i) (ry ! i) (rx ! j) (ry ! j)
      in (rx[i := xi, j := xj], ry[i := yi, j := yj]))"

definition ladder_bit :: "vli \<Rightarrow> nat \<Rightarrow> nat" where
  "ladder_bit scalar i = (if vli_test_bit scalar i then 0 else 1)"

definition ladder_step :: "vli \<Rightarrow> nat \<Rightarrow> vli list \<times> vli list \<Rightarrow> vli list \<times> vli list" where
  "ladder_step scalar i r =
     (let nb = ladder_bit scalar i
      in on_regs xycz_add nb (1 - nb) (on_regs xycz_add_c (1 - nb) nb r))"

definition ecc_point_mult :: "ecc_point \<Rightarrow> vli \<Rightarrow> vli option \<Rightarrow> nat \<Rightarrow> ecc_point" where
  "ecc_point_mult point scalar initial_z num_bits =
     (let (x1, y1, x0, y0) = xycz_initial_double (px point) (py point) initial_z;
          r = fold (ladder_step scalar) (rev [1..<num_bits - 1]) ([x0, x1], [y0, y1]);
          nb = ladder_bit scalar 0;
          (rx, ry) = on_regs xycz_add_c (1 - nb) nb r;
          z = vli_mod_sub (rx ! 1) (rx ! 0) curve_p;
          z = vli_mod_mult_fast z (ry ! (1 - nb));
          z = vli_mod_mult_fast z (px point);
          z = vli_mod_inv z curve_p;
          z = vli_mod_mult_fast z (py point);
          z = vli_mod_mult_fast z (rx ! (1 - nb));
          (rx, ry) = on_regs xycz_add nb (1 - nb) (rx, ry);
          (x, y) = apply_z (rx ! 0) (ry ! 0) z
      in \<lparr>px = x, py = y\<rparr>)"

definition ecc_valid_point :: "ecc_point \<Rightarrow> bool" where
  "ecc_valid_point point \<longleftrightarrow>
     (if ecc_point_is_zero point then False
      else if vli_cmp curve_p (px point) \<noteq> 1 \<or> vli_cmp curve_p (py point) \<noteq> 1 then False
      else
        let tmp1 = vli_mod_square_fast (py point);
            tmp2 = vli_mod_square_fast (px point);
            tmp2 = vli_mod_sub tmp2 [3, 0, 0, 0] curve_p;
            tmp2 = vli_mod_mult_fast tmp2 (px point);
            tmp2 = vli_mod_add tmp2 curve_b curve_p
        in vli_equal tmp1 tmp2)"

section \<open>Keys\<close>

definition ecc_bytes2native :: "bytes \<Rightarrow> vli" where
  "ecc_bytes2native b =
     map (\<lambda>i. let d = \<lambda>k. ucast (byte_at b (8 * i + k)) :: u64
              in push_bit 0 (d 0) OR push_bit 8 (d 1) OR push_bit 16 (d 2) OR push_bit 24 (d 3) OR
                 push_bit 32 (d 4) OR push_bit 40 (d 5) OR push_bit 48 (d 6) OR push_bit 56 (d 7)) [0..<NUM_ECC_DIGITS]"

definition ecc_native2bytes :: "vli \<Rightarrow> bytes" where
  "ecc_native2bytes v =
     concat (map (\<lambda>i. map (\<lambda>k. ucast (drop_bit (8 * k) (v ! i)) :: u8) [0..<8]) [0..<NUM_ECC_DIGITS])"

definition ecc_make_public_key :: "bytes \<Rightarrow> bytes option" where
  "ecc_make_public_key private_key =
     (let priv = ecc_bytes2native private_key in
      if vli_is_zero priv then None
      else if vli_cmp curve_n priv \<noteq> 1 then None
      else
        let pk = ecc_point_mult curve_g priv None (vli_num_bits priv) in
        if ecc_point_is_zero pk then None
        else Some (ecc_native2bytes (px pk) @ ecc_native2bytes (py pk)))"

text \<open>
  The loop of \<open>ecc_make_key\<close>: \<open>rnd t\<close> are the octets drawn the \<open>t\<close>-th time, \<open>tries\<close>
  what is left of \<^verbatim>\<open>MAX_TRIES\<close>. The \<^verbatim>\<open>continue\<close> of a rejected number goes to the
  condition of the loop, which reads \<^verbatim>\<open>pk\<close>: \<open>pk\<close> is at first what the memory held.
\<close>

fun make_key_loop :: "(nat \<Rightarrow> vli option) \<Rightarrow> nat \<Rightarrow> nat \<Rightarrow> ecc_point \<Rightarrow> (vli \<times> ecc_point) option" where
  "make_key_loop rnd t 0 pk = None"
| "make_key_loop rnd t (Suc tries) pk =
     (case rnd t of None \<Rightarrow> None
      | Some priv \<Rightarrow>
          let pk' = (if vli_is_zero priv \<or> vli_cmp curve_n priv \<noteq> 1 then pk
                     else ecc_point_mult curve_g priv None (vli_num_bits priv))
          in if ecc_point_is_zero pk' then make_key_loop rnd (Suc t) tries pk' else Some (priv, pk'))"

text \<open>The public and the private key.\<close>

definition ecc_make_key :: "(nat \<Rightarrow> vli option) \<Rightarrow> ecc_point \<Rightarrow> (bytes \<times> bytes) option" where
  "ecc_make_key rnd junk =
     (case make_key_loop rnd 0 MAX_TRIES junk of None \<Rightarrow> None
      | Some (priv, pk) \<Rightarrow> Some (ecc_native2bytes (px pk) @ ecc_native2bytes (py pk), ecc_native2bytes priv))"

definition bytes_point :: "bytes \<Rightarrow> ecc_point" where
  "bytes_point b = \<lparr>px = ecc_bytes2native b, py = ecc_bytes2native (drop 32 b)\<rparr>"

definition ecc_valid_public_key :: "bytes \<Rightarrow> bool" where
  "ecc_valid_public_key public_key = ecc_valid_point (bytes_point public_key)"

text \<open>What is written to \<^verbatim>\<open>secret\<close>, if anything, and the returned value.\<close>

definition ecdh_shared_secret :: "vli option \<Rightarrow> bytes \<Rightarrow> bytes \<Rightarrow> bytes option \<times> bool" where
  "ecdh_shared_secret rnd public_key private_key =
     (case rnd of None \<Rightarrow> (None, False)
      | Some r \<Rightarrow>
          let pk = bytes_point public_key in
          if \<not> ecc_valid_point pk then (None, False)
          else
            let priv = ecc_bytes2native private_key;
                product = ecc_point_mult pk priv (Some r) (vli_num_bits priv)
            in (Some (ecc_native2bytes (px product)), \<not> ecc_point_is_zero product))"

section \<open>Field operations\<close>

lemma length_columns: "length (columns cols acc) = Suc (length cols)"
  by (induction cols arbitrary: acc) (simp_all split: prod.split)

lemma length_products: "length (vli_mult l r) = 8" "length (vli_square l) = 8"
  by (simp_all add: vli_mult_def vli_square_def length_columns)

lemma length_mod_mult [simp]: "length (vli_mod_mult_fast l r) = 4" "length (vli_mod_square_fast l) = 4"
  by (simp_all add: vli_mod_mult_fast_def vli_mod_square_fast_def mmod_fast_core(2) length_products)

text \<open>A product that loses no carry is the product modulo the prime.\<close>

definition mult_exact :: "vli \<Rightarrow> vli \<Rightarrow> bool" where
  "mult_exact l r \<longleftrightarrow> length l = 4 \<and> length r = 4 \<and> vli_mult_lost l r = 0"

definition square_exact :: "vli \<Rightarrow> bool" where
  "square_exact l \<longleftrightarrow> length l = 4 \<and> vli_square_lost l = 0"

lemma mod_mult_val: "mult_exact l r \<Longrightarrow> vli_val (vli_mod_mult_fast l r) = vli_val l * vli_val r mod P256"
  using vli_mult_exact [of l r]
  by (simp add: mult_exact_def vli_mod_mult_fast_def mmod_fast_core(1) length_products)

lemma mod_square_val: "square_exact l \<Longrightarrow> vli_val (vli_mod_square_fast l) = vli_val l * vli_val l mod P256"
  using vli_square_exact [of l]
  by (simp add: square_exact_def vli_mod_square_fast_def mmod_fast_core(1) length_products)

lemma mod_fast_less: "vli_val (vli_mmod_fast p) < P256" if "length p = 8"
  using mmod_fast_core(1) [OF that] P256_bounds by simp

lemma mod_products_less: "vli_val (vli_mod_mult_fast l r) < P256" "vli_val (vli_mod_square_fast l) < P256"
  by (simp_all add: vli_mod_mult_fast_def vli_mod_square_fast_def mod_fast_less length_products)

lemma vli_val_inject: "length a = length b \<Longrightarrow> vli_val a = vli_val b \<longleftrightarrow> a = b"
proof (induction a b rule: list_induct2)
  case (Cons x xs y ys)
  have "x = y \<and> vli_val xs = vli_val ys" if e: "uint x + 2 ^ 64 * vli_val xs = uint y + 2 ^ 64 * vli_val ys"
  proof -
    have "(uint x + 2 ^ 64 * vli_val xs) mod 2 ^ 64 = uint x" "(uint y + 2 ^ 64 * vli_val ys) mod 2 ^ 64 = uint y"
      using uint64_bounds [of x] uint64_bounds [of y] by (simp_all add: mod_pos_pos_trivial)
    with e have "uint x = uint y" by metis
    with e show ?thesis by (simp add: word_uint_eq_iff)
  qed
  with Cons.IH show ?case by auto
qed simp

lemma vli_equal_iff:
  assumes "length a = 4" "length b = 4"
  shows "vli_equal a b \<longleftrightarrow> vli_val a = vli_val b"
proof -
  obtain a0 a1 a2 a3 b0 b1 b2 b3 where ab: "a = [a0, a1, a2, a3]" "b = [b0, b1, b2, b3]" using list4 assms by metis
  have o: "x OR y = 0 \<longleftrightarrow> x = 0 \<and> y = 0" for x y :: u64 by (auto simp: bit_eq_iff bit_or_iff)
  have x: "x XOR y = 0 \<longleftrightarrow> x = y" for x y :: u64 by (auto simp: bit_eq_iff bit_xor_iff)
  have "vli_equal a b \<longleftrightarrow> a = b"
    by (auto simp: vli_equal_def ab upt_rec o x)
  then show ?thesis using vli_val_inject [of a b] assms by simp
qed

lemma curve_b_val: "length curve_b = 4" "vli_val curve_b < P256"
  by (simp_all add: curve_b_def P256_def)

lemma is_zero_iff: "vli_is_zero v \<longleftrightarrow> vli_val v = 0"
  by (induction v) (use vli_val_bounds(1) uint64_bounds(1) in \<open>auto simp: vli_is_zero_def add_nonneg_eq_0_iff word_uint_eq_iff\<close>)

lemma valid_point_core:
  assumes "length (px p) = 4" "length (py p) = 4" "square_exact (py p)" "square_exact (px p)"
    and "mult_exact (vli_mod_sub (vli_mod_square_fast (px p)) [3, 0, 0, 0] curve_p) (px p)"
  shows "ecc_valid_point p \<longleftrightarrow>
    \<not> (vli_val (px p) = 0 \<and> vli_val (py p) = 0) \<and> vli_val (px p) < P256 \<and> vli_val (py p) < P256 \<and>
    P256 dvd vli_val (py p) ^ 2 - (vli_val (px p) ^ 3 - 3 * vli_val (px p) + vli_val curve_b)"
proof -
  let ?x = "vli_val (px p)" and ?y = "vli_val (py p)"
  define t1 where "t1 = vli_mod_sub (vli_mod_square_fast (px p)) [3, 0, 0, 0] curve_p"
  define t2 where "t2 = vli_mod_mult_fast t1 (px p)"
  define t3 where "t3 = vli_mod_add t2 curve_b curve_p"
  have three: "vli_val [3, 0, 0, 0] = 3" by simp
  note s = vli_mod_sub_val [of "vli_mod_square_fast (px p)" "[3, 0, 0, 0]" curve_p, unfolded curve_p_val three]
  have "vli_val t1 = (?x * ?x mod P256 - 3) mod P256"
    unfolding t1_def using s(1) mod_products_less(2) [of "px p"] P256_bounds(3) by (simp add: mod_square_val assms(4))
  moreover have "vli_val t2 = vli_val t1 * ?x mod P256"
    unfolding t2_def t1_def by (rule mod_mult_val [OF assms(5)])
  moreover have t3: "vli_val t3 = (vli_val t2 + vli_val curve_b) mod P256" "length t3 = 4"
    unfolding t3_def t2_def using vli_mod_add_val [of _ curve_b curve_p] mod_products_less(1) curve_b_val
    by (simp_all add: curve_p_val)
  ultimately have "vli_val t3 = ((?x * ?x - 3) * ?x + vli_val curve_b) mod P256" by (simp add: mod_simps)
  moreover have "(?x * ?x - 3) * ?x = ?x ^ 3 - 3 * ?x" by (simp add: power3_eq_cube algebra_simps)
  ultimately have "vli_val t3 = (?x ^ 3 - 3 * ?x + vli_val curve_b) mod P256" by simp
  moreover have "vli_equal (vli_mod_square_fast (py p)) t3 \<longleftrightarrow> ?y * ?y mod P256 = vli_val t3"
    by (simp add: vli_equal_iff t3(2) mod_square_val assms(3))
  ultimately have "vli_equal (vli_mod_square_fast (py p)) t3 \<longleftrightarrow> P256 dvd ?y ^ 2 - (?x ^ 3 - 3 * ?x + vli_val curve_b)"
    by (simp add: mod_eq_dvd_iff power2_eq_square)
  then show ?thesis
    using assms(1,2)
    by (auto simp: ecc_valid_point_def ecc_point_is_zero_def is_zero_iff vli_cmp_sgn curve_p_val sgn_if Let_def t1_def t2_def t3_def)
qed

section \<open>Octets and digits\<close>

lemma native_digit:
  "push_bit 0 (ucast (ucast (drop_bit 0 d :: u64) :: u8) :: u64) OR push_bit 8 (ucast (ucast (drop_bit 8 d) :: u8)) OR
   push_bit 16 (ucast (ucast (drop_bit 16 d) :: u8)) OR push_bit 24 (ucast (ucast (drop_bit 24 d) :: u8)) OR
   push_bit 32 (ucast (ucast (drop_bit 32 d) :: u8)) OR push_bit 40 (ucast (ucast (drop_bit 40 d) :: u8)) OR
   push_bit 48 (ucast (ucast (drop_bit 48 d) :: u8)) OR push_bit 56 (ucast (ucast (drop_bit 56 d) :: u8)) = d"
proof (rule bit_word_eqI)
  fix n assume "n < LENGTH(64)"
  then have "n < 8 \<or> (8 \<le> n \<and> n < 16) \<or> (16 \<le> n \<and> n < 24) \<or> (24 \<le> n \<and> n < 32) \<or> (32 \<le> n \<and> n < 40) \<or>
    (40 \<le> n \<and> n < 48) \<or> (48 \<le> n \<and> n < 56) \<or> (56 \<le> n \<and> n < 64)" by auto
  then show "bit (push_bit 0 (ucast (ucast (drop_bit 0 d :: u64) :: u8) :: u64) OR push_bit 8 (ucast (ucast (drop_bit 8 d) :: u8)) OR
     push_bit 16 (ucast (ucast (drop_bit 16 d) :: u8)) OR push_bit 24 (ucast (ucast (drop_bit 24 d) :: u8)) OR
     push_bit 32 (ucast (ucast (drop_bit 32 d) :: u8)) OR push_bit 40 (ucast (ucast (drop_bit 40 d) :: u8)) OR
     push_bit 48 (ucast (ucast (drop_bit 48 d) :: u8)) OR push_bit 56 (ucast (ucast (drop_bit 56 d) :: u8))) n = bit d n"
    by (elim disjE) (simp_all add: bit_or_iff bit_push_bit_iff bit_unsigned_iff bit_drop_bit_eq less_diff_conv2)
qed

lemma byte_of_native:
  assumes "i < 4" "k < 8" "length v = 4"
  shows "byte_at (ecc_native2bytes v) (8 * i + k) = ucast (drop_bit (8 * k) (v ! i))"
proof -
  have "ecc_native2bytes v = map (\<lambda>k. ucast (drop_bit (8 * k) (v ! 0))) [0..<8] @ map (\<lambda>k. ucast (drop_bit (8 * k) (v ! 1))) [0..<8] @
      map (\<lambda>k. ucast (drop_bit (8 * k) (v ! 2))) [0..<8] @ map (\<lambda>k. ucast (drop_bit (8 * k) (v ! 3))) [0..<8]"
    unfolding ecc_native2bytes_def by (simp add: upt_conv_Cons numeral_2_eq_2 numeral_3_eq_3 del: upt_Suc)
  moreover have "i = 0 \<or> i = 1 \<or> i = 2 \<or> i = 3" using assms by auto
  ultimately show ?thesis using assms(2) by (elim disjE) (simp_all add: byte_at_def nth_append del: upt_Suc)
qed

lemma length_native2bytes [simp]: "length (ecc_native2bytes v) = 32"
  by (simp add: ecc_native2bytes_def upt_rec)

lemma bytes2native_native2bytes:
  assumes "length v = 4"
  shows "ecc_bytes2native (ecc_native2bytes v) = v"
proof (rule nth_equalityI)
  fix i assume "i < length (ecc_bytes2native (ecc_native2bytes v))"
  then have i: "i < 4" by (simp add: ecc_bytes2native_def)
  show "ecc_bytes2native (ecc_native2bytes v) ! i = v ! i"
    using i byte_of_native [OF i, of _ v] assms native_digit [of "v ! i"] byte_of_native [OF i, of 0 v]
      byte_of_native [OF i, of 1 v] byte_of_native [OF i, of 2 v]
    by (simp add: ecc_bytes2native_def)
qed (simp add: ecc_bytes2native_def assms)

section \<open>Properties\<close>

text \<open>
  C35. The products. The number \<^verbatim>\<open>vli_mult\<close> and \<^verbatim>\<open>vli_square\<close> compute falls short of
  the product by exactly the carries that the comparison of high words fails to
  notice, which \<open>vli_mult_lost\<close> adds up; without any, it is the product.
\<close>

theorem vli_products_accounted:
  assumes "length l = 4" "length r = 4"
  shows "vli_val (vli_mult l r) = vli_val l * vli_val r - vli_mult_lost l r \<and> 0 \<le> vli_mult_lost l r \<and>
    vli_val (vli_square l) = vli_val l * vli_val l - vli_square_lost l"
  using vli_mult_exact [OF assms] vli_square_exact [OF assms(1)] vli_mult_lost_nonneg [of l r] by simp

theorem vli_products_accounted_witness:
  "vli_val (vli_mult [5, 0, 0, 0] [7, 0, 0, 0]) = 35 - vli_mult_lost [5, 0, 0, 0] [7, 0, 0, 0]"
  using vli_products_accounted [of "[5, 0, 0, 0]" "[7, 0, 0, 0]"] by simp

definition carry_l :: vli where "carry_l = [0xffffffffffffffff, 0x800000016a09e667, 0, 0]"
definition carry_r :: vli where "carry_r = [0xffffffffffffffff, 0x800000016a09e667, 0xffffffffffffffff, 0]"

lemma carry_muls:
  "mul_64_64 0 0 = \<lparr>m_low = 0, m_high = 0\<rparr>"
  "mul_64_64 0 0x800000016a09e667 = \<lparr>m_low = 0, m_high = 0\<rparr>"
  "mul_64_64 0 0xffffffffffffffff = \<lparr>m_low = 0, m_high = 0\<rparr>"
  "mul_64_64 0x800000016a09e667 0 = \<lparr>m_low = 0, m_high = 0\<rparr>"
  "mul_64_64 0x800000016a09e667 0x800000016a09e667 = \<lparr>m_low = 0xfffffffd4e9b3d71, m_high = 0x400000016a09e668\<rparr>"
  "mul_64_64 0x800000016a09e667 0xffffffffffffffff = \<lparr>m_low = 0x7ffffffe95f61999, m_high = 0x800000016a09e666\<rparr>"
  "mul_64_64 0xffffffffffffffff 0 = \<lparr>m_low = 0, m_high = 0\<rparr>"
  "mul_64_64 0xffffffffffffffff 0x800000016a09e667 = \<lparr>m_low = 0x7ffffffe95f61999, m_high = 0x800000016a09e666\<rparr>"
  "mul_64_64 0xffffffffffffffff 0xffffffffffffffff = \<lparr>m_low = 1, m_high = 0xfffffffffffffffe\<rparr>"
  by (simp_all add: mul_64_64_def)

lemma carry_cols:
  "mult_col carry_l carry_r 0 (\<lparr>m_low = 0, m_high = 0\<rparr>, 0) = (\<lparr>m_low = 1, m_high = 0xfffffffffffffffe\<rparr>, 0)"
  "mult_col carry_l carry_r (Suc 0) (\<lparr>m_low = 0xfffffffffffffffe, m_high = 0\<rparr>, 0) = (\<lparr>m_low = 0xfffffffd2bec3330, m_high = 0x2d413cccd\<rparr>, 1)"
  "mult_col carry_l carry_r 2 (\<lparr>m_low = 0x2d413cccd, m_high = 1\<rparr>, 0) = (\<lparr>m_low = 0x22af0a3f, m_high = 0x400000016a09e668\<rparr>, 0)"
  "mult_col carry_l carry_r 3 (\<lparr>m_low = 0x400000016a09e668, m_high = 0\<rparr>, 0) = (\<lparr>m_low = 0xc000000000000001, m_high = 0x800000016a09e666\<rparr>, 0)"
  "mult_col carry_l carry_r 4 (\<lparr>m_low = 0x800000016a09e666, m_high = 0\<rparr>, 0) = (\<lparr>m_low = 0x800000016a09e666, m_high = 0\<rparr>, 0)"
  "mult_col carry_l carry_r 5 (\<lparr>m_low = 0, m_high = 0\<rparr>, 0) = (\<lparr>m_low = 0, m_high = 0\<rparr>, 0)"
  "mult_col carry_l carry_r 6 (\<lparr>m_low = 0, m_high = 0\<rparr>, 0) = (\<lparr>m_low = 0, m_high = 0\<rparr>, 0)"
  by (simp_all add: mult_col_def col_min_def upt_rec carry_l_def carry_r_def carry_muls acc_add_def add_128_128_def)

lemma carry_product: "vli_mult carry_l carry_r = [1, 0xfffffffd2bec3330, 0x22af0a3f, 0xc000000000000001, 0x800000016a09e666, 0, 0, 0]"
  by (simp add: vli_mult_def upt_7 carry_cols)

text \<open>
  A carry is lost. For these two numbers below the prime the product of
  \<^verbatim>\<open>vli_mult\<close> is too small by \<open>2 ^ 256\<close>: the high word of the accumulator is all
  ones when the carry comes in, and wraps to the high word of the product added.
  The product modulo the prime is wrong too.
\<close>

lemma vli_mult_loses_carry:
  "vli_val carry_l < P256 \<and> vli_val carry_r < P256 \<and>
   vli_val (vli_mult carry_l carry_r) = vli_val carry_l * vli_val carry_r - 2 ^ 256 \<and>
   vli_val (vli_mod_mult_fast carry_l carry_r) \<noteq> vli_val carry_l * vli_val carry_r mod P256"
proof -
  have b: "vli_val carry_l < P256" "vli_val carry_r < P256" by (simp_all add: carry_l_def carry_r_def P256_def)
  have v: "vli_val (vli_mult carry_l carry_r) = vli_val carry_l * vli_val carry_r - 2 ^ 256"
    unfolding carry_product by (simp add: carry_l_def carry_r_def)
  have "(vli_val carry_l * vli_val carry_r - 2 ^ 256) mod P256 \<noteq> vli_val carry_l * vli_val carry_r mod P256"
    by (simp add: carry_l_def carry_r_def P256_def)
  then have "vli_val (vli_mod_mult_fast carry_l carry_r) \<noteq> vli_val carry_l * vli_val carry_r mod P256"
    by (simp only: vli_mod_mult_fast_def mmod_fast_core(1) [OF length_products(1)] v not_False_eq_True)
  with b v show ?thesis by blast
qed

text \<open>
  C6. Reduction. The loops at the end of \<^verbatim>\<open>vli_mmod_fast\<close> end for every product
  of eight digits, and the result is the product modulo the prime of the curve.
\<close>

theorem vli_mmod_fast_correct:
  assumes "length product = 8"
  shows "vli_val (vli_mmod_fast product) = vli_val product mod P256 \<and>
    (if fst (mmod_terms product) < 0 then while_option up_cond (mmod_plus curve_p) (mmod_terms product)
     else while_option down_cond (mmod_minus curve_p) (mmod_terms product)) \<noteq> None"
proof -
  let ?cr = "mmod_terms product"
  note r = terms_reduce [OF assms]
  have l: "length (snd ?cr) = 4" using r by (simp add: reduces_def)
  have "\<exists>t. while_option up_cond (mmod_plus curve_p) ?cr = Some t" if "fst ?cr < 0"
    by (rule measure_while_option_Some
        [where P = "\<lambda>cr. reduces (vli_val product) cr \<and> acc_int cr < P256" and f = "\<lambda>cr. nat (P256 - acc_int cr)"])
      (use up_step r that acc_int_carry(1) [OF l] P256_bounds in auto)
  moreover have "\<exists>t. while_option down_cond (mmod_minus curve_p) ?cr = Some t" if "\<not> fst ?cr < 0"
    by (rule measure_while_option_Some
        [where P = "\<lambda>cr. reduces (vli_val product) cr \<and> 0 \<le> acc_int cr" and f = "\<lambda>cr. nat (acc_int cr)"])
      (use down_step r that acc_int_carry(1) [OF l] in auto)
  ultimately show ?thesis using mmod_fast_core(1) [OF assms] by auto
qed

theorem vli_mmod_fast_correct_witness: "vli_val (vli_mmod_fast [1, 0, 0, 0, 1, 0, 0, 0]) = (1 + 2 ^ 256) mod P256"
  using vli_mmod_fast_correct [of "[1, 0, 0, 0, 1, 0, 0, 0]"] by simp

text \<open>
  C7. Inversion. For a number without common divisor with the odd modulus the
  loop of \<^verbatim>\<open>vli_mod_inv\<close> ends and yields the inverse.
\<close>

theorem vli_mod_inv_correct:
  assumes "length x = 4" "length m = 4" "odd (vli_val m)" "1 < vli_val m" "vli_val x \<noteq> 0" "coprime (vli_val x) (vli_val m)"
  shows "vli_val (vli_mod_inv x m) * vli_val x mod vli_val m = 1 \<and> vli_val (vli_mod_inv x m) < vli_val m \<and>
    while_option inv_cond (inv_step m) (x, m, vli_clear[0 := 1], vli_clear) \<noteq> None"
proof -
  have z: "\<not> vli_is_zero x" using assms(5) by (simp add: is_zero_iff)
  have "\<exists>t. while_option inv_cond (inv_step m) (x, m, vli_clear[0 := 1], vli_clear) = Some t"
    by (rule measure_while_option_Some [where P = "inv_ok m (vli_val x)" and f = inv_size])
      (use inv_step_ok inv_start [OF assms(1-3) z assms(6,4)] assms(2,3) in auto)
  then show ?thesis using mod_inv_core [OF assms(1-3) z assms(6,4)] by auto
qed

theorem vli_mod_inv_correct_witness:
  "vli_val (vli_mod_inv [2, 0, 0, 0] curve_p) * 2 mod P256 = 1"
proof -
  have "odd P256" by (simp add: P256_def)
  then show ?thesis using vli_mod_inv_correct [of "[2, 0, 0, 0]" curve_p] P256_bounds by (simp add: curve_p_val)
qed


lemma small_muls:
  "mul_64_64 0 0 = \<lparr>m_low = 0, m_high = 0\<rparr>" "mul_64_64 2 2 = \<lparr>m_low = 4, m_high = 0\<rparr>"
  "mul_64_64 3 3 = \<lparr>m_low = 9, m_high = 0\<rparr>" "mul_64_64 1 2 = \<lparr>m_low = 2, m_high = 0\<rparr>"
  "mul_64_64 2 0 = \<lparr>m_low = 0, m_high = 0\<rparr>" "mul_64_64 0 2 = \<lparr>m_low = 0, m_high = 0\<rparr>"
  "mul_64_64 3 0 = \<lparr>m_low = 0, m_high = 0\<rparr>" "mul_64_64 0 3 = \<lparr>m_low = 0, m_high = 0\<rparr>"
  "mul_64_64 1 0 = \<lparr>m_low = 0, m_high = 0\<rparr>"
  by (simp_all add: mul_64_64_def)

lemmas lost_defs = vli_square_lost_def vli_mult_lost_def upt_7 square_col_def square_add_def square_lost_def mult_col_def
  mult_col_lost_def col_min_def upt_rec acc_add_def add_128_128_def acc_lost_def next_acc_def zero_acc_def u128_def

lemma small_lost: "vli_square_lost [2, 0, 0, 0] = 0" "vli_square_lost [3, 0, 0, 0] = 0" "vli_mult_lost [1, 0, 0, 0] [2, 0, 0, 0] = 0"
  by (simp_all add: lost_defs small_muls)

text \<open>A point of the curve whose first coordinate is zero.\<close>

definition demo_y :: vli where
  "demo_y = [2936212172772971508, 6060766422197241623, 2608636818532363190, 7370242460895642583]"

lemma demo_muls:
  "mul_64_64 2936212172772971508 2936212172772971508 = \<lparr>m_low = 421494906995482768, m_high = 467363882162130731\<rparr>"
  "mul_64_64 2936212172772971508 6060766422197241623 = \<lparr>m_low = 14469858105405732588, m_high = 964706621075304081\<rparr>"
  "mul_64_64 2936212172772971508 2608636818532363190 = \<lparr>m_low = 2089580982476352376, m_high = 415222933126441484\<rparr>"
  "mul_64_64 2936212172772971508 7370242460895642583 = \<lparr>m_low = 16210709172874321388, m_high = 1173139039794689761\<rparr>"
  "mul_64_64 6060766422197241623 6060766422197241623 = \<lparr>m_low = 5053323835140293649, m_high = 1991293936624055155\<rparr>"
  "mul_64_64 6060766422197241623 2608636818532363190 = \<lparr>m_low = 10156390487220201306, m_high = 857080164081714979\<rparr>"
  "mul_64_64 6060766422197241623 7370242460895642583 = \<lparr>m_low = 484154089545742673, m_high = 2421528582602918496\<rparr>"
  "mul_64_64 2608636818532363190 2608636818532363190 = \<lparr>m_low = 11156209946164569444, m_high = 368899033011531316\<rparr>"
  "mul_64_64 2608636818532363190 7370242460895642583 = \<lparr>m_low = 7196445510390159322, m_high = 1042259044098974728\<rparr>"
  "mul_64_64 7370242460895642583 7370242460895642583 = \<lparr>m_low = 17367952524335103633, m_high = 2944718792396921416\<rparr>"
  by (simp_all add: mul_64_64_def)

lemma demo_y_lost: "vli_square_lost demo_y = 0"
  by (simp add: demo_y_def lost_defs demo_muls)

lemma demo_point_valid: "ecc_valid_point \<lparr>px = [0, 0, 0, 0], py = demo_y\<rparr>"
proof -
  let ?p = "\<lparr>px = [0, 0, 0, 0], py = demo_y\<rparr>"
  have z: "vli_square_lost [0, 0, 0, 0] = 0" by (simp add: lost_defs small_muls)
  have "vli_val (vli_mod_square_fast [0, 0, 0, 0]) = vli_val [0, 0, 0, 0]"
    by (subst mod_square_val) (simp_all add: square_exact_def z)
  then have "vli_mod_square_fast [0, 0, 0, 0] = [0, 0, 0, 0]" by (subst vli_val_inject [symmetric]) simp_all
  moreover have "vli_mod_sub [0, 0, 0, 0] [3, 0, 0, 0] curve_p = [18446744073709551612, 4294967295, 0, 18446744069414584321]"
    using vli_mod_sub_val [of "[0, 0, 0, 0]" "[3, 0, 0, 0]" curve_p]
    by (subst vli_val_inject [symmetric]) (simp_all add: curve_p_def)
  moreover have "mul_64_64 x 0 = \<lparr>m_low = 0, m_high = 0\<rparr>" for x by (simp add: mul_64_64_def)
  then have "vli_mult_lost [18446744073709551612, 4294967295, 0, 18446744069414584321] [0, 0, 0, 0] = 0" by (simp add: lost_defs)
  ultimately have e: "mult_exact (vli_mod_sub (vli_mod_square_fast (px ?p)) [3, 0, 0, 0] curve_p) (px ?p)"
    by (simp add: mult_exact_def)
  have y: "length demo_y = 4" by (simp add: demo_y_def)
  have "vli_val demo_y < P256 \<and> vli_val demo_y \<noteq> 0 \<and> P256 dvd vli_val demo_y ^ 2 - vli_val curve_b"
    by (simp add: demo_y_def curve_b_def P256_def dvd_eq_mod_eq_0)
  then show ?thesis
    by (subst valid_point_core) (use e z demo_y_lost y P256_bounds in \<open>simp_all add: square_exact_def\<close>)
qed


text \<open>
  A rejected private key is used. When the first number drawn is out of range
  and the memory of the local point is not all zero, \<^verbatim>\<open>ecc_make_key\<close> ends there
  and returns that number with the contents of the memory as its public key.
\<close>

lemma ecc_make_key_unchecked:
  assumes "rnd 0 = Some priv" "vli_cmp curve_n priv \<noteq> 1" "\<not> ecc_point_is_zero junk"
  shows "ecc_make_key rnd junk = Some (ecc_native2bytes (px junk) @ ecc_native2bytes (py junk), ecc_native2bytes priv)"
  using assms by (simp add: ecc_make_key_def MAX_TRIES_def numeral_eq_Suc)

lemma ecc_make_key_unchecked_witness:
  "ecc_make_key (\<lambda>_. Some curve_n) \<lparr>px = [1, 0, 0, 0], py = [0, 0, 0, 0]\<rparr> =
   Some (ecc_native2bytes [1, 0, 0, 0] @ ecc_native2bytes [0, 0, 0, 0], ecc_native2bytes curve_n)"
  using ecc_make_key_unchecked [of "\<lambda>_. Some curve_n" curve_n "\<lparr>px = [1, 0, 0, 0], py = [0, 0, 0, 0]\<rparr>"]
  by (simp add: vli_cmp_sgn curve_n_def ecc_point_is_zero_def vli_is_zero_def)

end
