(* ===== verification/Mesh_Prov.thy ===== *)
theory Mesh_Prov
  imports Mesh_Node Mesh_Ecc
begin

text \<open>
  \<^verbatim>\<open>mesh/prov.c\<close> and \<^verbatim>\<open>mesh/agent.c\<close>: the provisioning of a device, and the agent
  that asks the user for out-of-band data.

  The data of a provisioning hang at the node they are for. What GATT is asked
  to write is an effect with the callback that runs when it is written; that
  callback, the answer of the user and the arrival of a PDU are operations of
  their own. Dereferencing a null or freed pointer is a \<open>Fault\<close>.

  The results of the cryptographic functions are ignored by the code. When one
  fails, its output buffer keeps what it held.
\<close>

section \<open>The agent\<close>

datatype input_cb = Cb_out_oob_done | Cb_oob_pub_key

record input_request =
  req_type :: oob_type
  req_len :: u16
  req_cb :: "input_cb option"
  req_data :: "nat option"

text \<open>The world with the static variables of both files.\<close>

record pworld = world +
  pending_request :: input_request
  prov_sec_level :: u8

definition MAX_HEXADECIMAL_OOB_LEN :: u16 where "MAX_HEXADECIMAL_OOB_LEN = 128"
definition MAX_ASCII_OOB_LEN :: u16 where "MAX_ASCII_OOB_LEN = 16"

definition no_request :: input_request where
  "no_request = \<lparr>req_type = Oob_NONE, req_len = 0, req_cb = None, req_data = None\<rparr>"

definition agent_completion :: "'a pworld_scheme \<Rightarrow> bool" where
  "agent_completion w \<longleftrightarrow> req_type (pending_request w) \<noteq> Oob_NONE"

definition reset_input_request :: "'a pworld_scheme \<Rightarrow> 'a pworld_scheme" where
  "reset_input_request w = w\<lparr>pending_request := no_request\<rparr>"

definition request_possible :: "oob_type \<Rightarrow> u16 \<Rightarrow> bool" where
  "request_possible type len \<longleftrightarrow>
     (case type of
        Oob_HEXADECIMAL \<Rightarrow> \<not> len > MAX_HEXADECIMAL_OOB_LEN
      | Oob_DECIMAL \<Rightarrow> True
      | Oob_ASCII \<Rightarrow> \<not> len > MAX_ASCII_OOB_LEN
      | _ \<Rightarrow> False)"

definition agent_input_request ::
  "oob_type \<Rightarrow> u16 \<Rightarrow> input_cb \<Rightarrow> nat \<Rightarrow> 'a pworld_scheme \<Rightarrow> 'a pworld_scheme \<times> bool" where
  "agent_input_request type max_len cb user_data w =
     (if req_type (pending_request w) \<noteq> Oob_NONE then (w, False)
      else if request_possible type max_len then
        ((emit (Agent_input type max_len) w)\<lparr>pending_request :=
           \<lparr>req_type = type, req_len = max_len, req_cb = Some cb, req_data = Some user_data\<rparr>\<rparr>, True)
      else (w, False))"

definition response_output :: "'a pworld_scheme \<Rightarrow> 'a pworld_scheme" where
  "response_output w = reset_input_request w"

definition agent_output_request :: "oob_display \<Rightarrow> 'a pworld_scheme \<Rightarrow> 'a pworld_scheme \<times> bool" where
  "agent_output_request str w =
     (if req_type (pending_request w) \<noteq> Oob_NONE then (w, False)
      else ((emit (Agent_output str) w)\<lparr>pending_request := (pending_request w)\<lparr>req_type := Oob_OUTPUT\<rparr>\<rparr>, True))"

definition agent_output_request_cancel :: "'a pworld_scheme \<Rightarrow> 'a pworld_scheme" where
  "agent_output_request_cancel w =
     (if req_type (pending_request w) \<noteq> Oob_OUTPUT then w
      else emit Agent_release (w\<lparr>pending_request := (pending_request w)\<lparr>req_type := Oob_NONE\<rparr>\<rparr>))"

section \<open>Constants and the environment\<close>

definition PROXY_PROVISIONING_PDU :: u8 where "PROXY_PROVISIONING_PDU = 0x03"

definition MESH_PROV_SEC_HIGH :: u8 where "MESH_PROV_SEC_HIGH = 2"
definition MESH_PROV_SEC_MED :: u8 where "MESH_PROV_SEC_MED = 1"
definition MESH_PROV_SEC_LOW :: u8 where "MESH_PROV_SEC_LOW = 0"

definition PROV_INVITE :: u8 where "PROV_INVITE = 0x00"
definition PROV_CAPS :: u8 where "PROV_CAPS = 0x01"
definition PROV_START :: u8 where "PROV_START = 0x02"
definition PROV_PUB_KEY :: u8 where "PROV_PUB_KEY = 0x03"
definition PROV_INP_CMPLT :: u8 where "PROV_INP_CMPLT = 0x04"
definition PROV_CONFIRM :: u8 where "PROV_CONFIRM = 0x05"
definition PROV_RANDOM :: u8 where "PROV_RANDOM = 0x06"
definition PROV_DATA :: u8 where "PROV_DATA = 0x07"
definition PROV_COMPLETE :: u8 where "PROV_COMPLETE = 0x08"
definition PROV_FAILED :: u8 where "PROV_FAILED = 0x09"

lemmas prov_opcodes = PROV_INVITE_def PROV_CAPS_def PROV_START_def PROV_PUB_KEY_def PROV_INP_CMPLT_def PROV_CONFIRM_def
  PROV_RANDOM_def PROV_DATA_def PROV_COMPLETE_def PROV_FAILED_def

definition PROV_ERR_INVALID_PDU :: u8 where "PROV_ERR_INVALID_PDU = 0x01"

definition expected_pdu_size :: "u8 \<Rightarrow> nat" where
  "expected_pdu_size op = [1 + 1, 1 + 1 + 2 + 1 + 1 + 1 + 2 + 1 + 2, 1 + 1 + 1 + 1 + 1 + 1, 1 + 64, 1, 1 + 16, 1 + 16,
     1 + 16 + 2 + 1 + 4 + 2 + 8, 1, 1 + 1] ! unat op"

text \<open>
  What the operations take from outside: the kernel's ciphers, the octets
  \<^verbatim>\<open>mesh_get_random_bytes\<close> puts into a buffer, the random numbers of \<^verbatim>\<open>ecc.c\<close> and
  the memory of its local point, uninitialised local buffers, what a failed
  encryption leaves of its buffer, and whether GATT takes the write.
\<close>

record prov_env =
  p_alg :: af_alg
  p_rand :: "nat \<Rightarrow> bytes"
  key_rnd :: "nat \<Rightarrow> vli option"
  key_junk :: ecc_point
  dh_rnd :: "vli option"
  p_junk :: "nat \<Rightarrow> bytes"
  p_left :: "bytes \<Rightarrow> bytes"
  gatt_ok :: bool

definition random_bytes :: "prov_env \<Rightarrow> nat \<Rightarrow> bytes" where
  "random_bytes E n = sub_bytes (p_rand E n) 0 n"

text \<open>A buffer after an operation whose result is ignored.\<close>

fun kept :: "bytes \<Rightarrow> bytes cres \<Rightarrow> bytes cres" where
  "kept old (Ret x) = Ret x"
| "kept old Fail = Ret old"
| "kept old Fault = Fault"

section \<open>The data of a provisioning\<close>

definition caps_num_ele :: "prov_data \<Rightarrow> u8" where "caps_num_ele p = byte_at (caps (conf_in p)) 0"
definition caps_pub_type :: "prov_data \<Rightarrow> u8" where "caps_pub_type p = byte_at (caps (conf_in p)) 3"
definition caps_static_type :: "prov_data \<Rightarrow> u8" where "caps_static_type p = byte_at (caps (conf_in p)) 4"
definition caps_output_size :: "prov_data \<Rightarrow> u8" where "caps_output_size p = byte_at (caps (conf_in p)) 5"
definition caps_input_size :: "prov_data \<Rightarrow> u8" where "caps_input_size p = byte_at (caps (conf_in p)) 8"

definition start_bytes :: "prov_start \<Rightarrow> bytes" where
  "start_bytes s = [algorithm s, start_pub_key s, auth_method s, auth_action s, auth_size s]"

text \<open>The packed structure \<^verbatim>\<open>conf_input\<close> as octets.\<close>

definition conf_in_bytes :: "conf_input \<Rightarrow> bytes" where
  "conf_in_bytes c = attention c # caps c @ start_bytes (start c) @ prv_pub_key c @ dev_pub_key c"

text \<open>The structure fresh from \<^verbatim>\<open>g_new0\<close>.\<close>

definition blank_prov :: prov_data where
  "blank_prov = \<lparr>p_in = 0, p_done = False, p_net_idx = 0, p_new_addr = 0, p_state = 0, eph_priv_key = replicate 32 0,
     ecdh_secret = replicate 32 0,
     conf_in = \<lparr>attention = 0, caps = replicate 11 0,
       start = \<lparr>algorithm = 0, start_pub_key = 0, auth_method = 0, auth_action = 0, auth_size = 0\<rparr>,
       prv_pub_key = replicate 64 0, dev_pub_key = replicate 64 0\<rparr>,
     rand_auth = replicate 32 0, p_salt = replicate 16 0, conf_key = replicate 16 0, mesh_conf = replicate 16 0,
     p_dev_key = replicate 16 0\<rparr>"

text \<open>
  \<^verbatim>\<open>node_get_prov\<close> followed by the test for null: the second argument is the
  result for a null pointer. The node itself may be gone.
\<close>

definition with_prov :: "nat \<Rightarrow> 'a pworld_scheme \<Rightarrow> 'b cres \<Rightarrow> (prov_data \<Rightarrow> 'b cres) \<Rightarrow> 'b cres" where
  "with_prov r w null f =
     (case node_at w r of None \<Rightarrow> Fault
      | Some n \<Rightarrow> (case n_prov n of None \<Rightarrow> null | Some p \<Rightarrow> f p))"

definition set_prov :: "nat \<Rightarrow> prov_data \<Rightarrow> 'a pworld_scheme \<Rightarrow> 'a pworld_scheme" where
  "set_prov r p w = node_set_prov r (Some p) w"

definition gatt_write_pdu :: "prov_env \<Rightarrow> bytes \<Rightarrow> write_cb \<Rightarrow> nat \<Rightarrow> 'a pworld_scheme \<Rightarrow> 'a pworld_scheme \<times> bool" where
  "gatt_write_pdu E pdu cb r w = (emit (Prov_write (PROXY_PROVISIONING_PDU # pdu) cb r) w, gatt_ok E)"

function u16_highest_bit_loop :: "u16 \<Rightarrow> u8 \<Rightarrow> u8" where
  "u16_highest_bit_loop msk cnt =
     (if msk AND 0xfffe \<noteq> 0 then u16_highest_bit_loop (drop_bit 1 msk) (cnt + 1) else cnt)"
  by pat_completeness auto
termination
proof (relation "measure (\<lambda>(msk, cnt). unat msk)")
  fix msk :: u16 and cnt :: u8 assume "msk AND 0xfffe \<noteq> 0"
  then have "unat msk \<noteq> 0" by (auto simp: unsigned_eq_0_iff)
  then have "unat msk div 2 < unat msk" by linarith
  then show "((drop_bit 1 msk, cnt + 1), msk, cnt) \<in> measure (\<lambda>(msk, cnt). unat msk)" by (simp add: unat_drop)
qed simp

definition u16_highest_bit :: "u16 \<Rightarrow> u8" where
  "u16_highest_bit msk = (if msk = 0 then 0xff else u16_highest_bit_loop msk 0)"

fun power_ten_loop :: "nat \<Rightarrow> u32 \<Rightarrow> u32" where
  "power_ten_loop 0 ret = ret"
| "power_ten_loop (Suc pw) ret = power_ten_loop pw (ret * 10)"

definition power_ten :: "u8 \<Rightarrow> u32" where
  "power_ten pw = power_ten_loop (unat pw) 1"

section \<open>Opening and ending\<close>

definition prov_open :: "prov_env \<Rightarrow> nat \<Rightarrow> nat \<Rightarrow> u16 \<Rightarrow> bool \<Rightarrow> 'a pworld_scheme \<Rightarrow> ('a pworld_scheme \<times> bool) cres" where
  "prov_open E r prov_in net_idx cb w =
     (case node_at w r of None \<Rightarrow> Fault
      | Some n \<Rightarrow>
          if n_prov n \<noteq> None then Ret (w, False)
          else
            let p = blank_prov\<lparr>p_in := prov_in, p_net_idx := net_idx, p_done := cb,
                      conf_in := (conf_in blank_prov)\<lparr>attention := 0x10\<rparr>, p_state := PROV_INVITE\<rparr>
            in Ret (gatt_write_pdu E [PROV_INVITE, 0x10] No_cb r (set_prov r p w)))"

definition prov_complete :: "nat \<Rightarrow> u8 \<Rightarrow> 'a pworld_scheme \<Rightarrow> ('a pworld_scheme \<times> bool) cres" where
  "prov_complete r status w =
     with_prov r w (Ret (w, False)) (\<lambda>p.
       let w1 = (if status \<noteq> 0 \<and> p_new_addr p \<noteq> 0 \<and> caps_num_ele p \<noteq> 0
                 then upd_net (\<lambda>n. n\<lparr>address_pool := net_release_address (p_new_addr p) (caps_num_ele p) (address_pool n)\<rparr>) w
                 else w);
           w2 = (if status = 0 then
                   fst (node_net_key_add (Some r) (p_net_idx p)
                     (node_set_device_key (Some r) (p_dev_key p)
                       (node_set_primary r (p_new_addr p) (node_set_num_elements r (caps_num_ele p) w1))))
                 else w1);
           w3 = node_set_prov r None w2
       in Ret (if p_done p then emit (Prov_done r status) w3 else w3, True))"

definition prov_set_sec_level :: "u8 \<Rightarrow> 'a pworld_scheme \<Rightarrow> 'a pworld_scheme \<times> bool" where
  "prov_set_sec_level level w = (if level > MESH_PROV_SEC_HIGH then (w, False) else (w\<lparr>prov_sec_level := level\<rparr>, True))"

definition prov_get_sec_level :: "'a pworld_scheme \<Rightarrow> u8" where
  "prov_get_sec_level w = prov_sec_level w"

section \<open>What is sent\<close>

text \<open>The provisioning data: network key, key index, flags, IV index and address.\<close>

definition prov_plain :: "bytes \<Rightarrow> u16 \<Rightarrow> u8 \<Rightarrow> u32 \<Rightarrow> u16 \<Rightarrow> bytes" where
  "prov_plain nk net_idx flags iv addr =
     (let d = memcpy (replicate 25 0) 0 nk; d = put_be16 net_idx d 16; d = d[18 := flags]; d = put_be32 iv d 19
      in put_be16 addr d 23)"

definition prov_send_prov_data :: "prov_env \<Rightarrow> nat \<Rightarrow> 'a pworld_scheme \<Rightarrow> ('a pworld_scheme \<times> bool) cres" where
  "prov_send_prov_data E r w =
     with_prov r w (Ret (w, False)) (\<lambda>p.
       cbind (kept (p_junk E 16) (mesh_crypto_session_key (p_alg E) (ecdh_secret p) (p_salt p))) (\<lambda>k.
       cbind (kept (p_junk E 13) (mesh_crypto_nonce (p_alg E) (ecdh_secret p) (p_salt p))) (\<lambda>nonce.
       cbind (kept (p_dev_key p) (mesh_crypto_device_key (p_alg E) (ecdh_secret p) (p_salt p))) (\<lambda>dk.
         let p1 = p\<lparr>p_dev_key := dk\<rparr>; w1 = set_prov r p1 w
         in (case net_get_key (keys w) (p_net_idx p) of
               None \<Rightarrow> Ret (w1, False)
             | Some nk \<Rightarrow>
                 let flags = (case net_get_flags (keys w) (iv_update (net w)) (p_net_idx p) of None \<Rightarrow> 0 | Some f \<Rightarrow> f);
                     d = prov_plain nk (p_net_idx p) flags (iv_index (net w)) (p_new_addr p)
                 in cbind (kept (p_left E (d @ replicate 8 0))
                       (cbind (mesh_crypto_aes_ccm_encrypt (p_alg E) nonce k [] d 25 8) (\<lambda>(out, mic). Ret out))) (\<lambda>out.
                      Ret (gatt_write_pdu E (PROV_DATA # out) No_cb r (set_prov r (p1\<lparr>p_state := PROV_DATA\<rparr>) w1))))))))"

definition prov_send_confirm :: "prov_env \<Rightarrow> nat \<Rightarrow> 'a pworld_scheme \<Rightarrow> ('a pworld_scheme \<times> bool) cres" where
  "prov_send_confirm E r w =
     with_prov r w (Ret (w, False)) (\<lambda>p.
       let ra = memcpy (rand_auth p) 0 (random_bytes E 16)
       in cbind (kept (replicate 16 0) (mesh_crypto_aes_cmac (p_alg E) (conf_key p) ra)) (\<lambda>out.
            Ret (gatt_write_pdu E (PROV_CONFIRM # out) No_cb r
                  (set_prov r (p\<lparr>rand_auth := ra, p_state := PROV_CONFIRM\<rparr>) w))))"

text \<open>After a failed check \<^verbatim>\<open>prov_complete\<close> frees the data, and the copy goes to freed memory.\<close>

definition prov_out_oob_done :: "prov_env \<Rightarrow> oob_type \<Rightarrow> bytes \<Rightarrow> nat \<Rightarrow> 'a pworld_scheme \<Rightarrow> 'a pworld_scheme cres" where
  "prov_out_oob_done E type buf r w =
     with_prov r w (Ret w) (\<lambda>p.
       case type of
         Oob_ASCII \<Rightarrow> cguard (length buf \<le> 16)
           (cbind (prov_send_confirm E r (set_prov r (p\<lparr>rand_auth := memcpy (rand_auth p) 16 buf\<rparr>) w)) (\<lambda>(w1, _). Ret w1))
       | Oob_HEXADECIMAL \<Rightarrow> cguard (length buf \<le> 16)
           (cbind (prov_send_confirm E r (set_prov r (p\<lparr>rand_auth := memcpy (rand_auth p) 16 buf\<rparr>) w)) (\<lambda>(w1, _). Ret w1))
       | Oob_DECIMAL \<Rightarrow> cguard (length buf = 4)
           (cbind (prov_send_confirm E r (set_prov r (p\<lparr>rand_auth := memcpy (rand_auth p) 28 buf\<rparr>) w)) (\<lambda>(w1, _). Ret w1))
       | _ \<Rightarrow> cbind (prov_complete r PROV_ERR_INVALID_PDU w) (\<lambda>(w1, _). Ret w1))"

definition prov_send_pub_key :: "prov_env \<Rightarrow> nat \<Rightarrow> 'a pworld_scheme \<Rightarrow> 'a pworld_scheme cres" where
  "prov_send_pub_key E r w =
     with_prov r w (Ret w) (\<lambda>p.
       let cb = (if start_pub_key (start (conf_in p)) \<noteq> 0 then Prov_calc_ecdh else No_cb)
       in Ret (fst (gatt_write_pdu E (PROV_PUB_KEY # sub_bytes (prv_pub_key (conf_in p)) 0 64) cb r
                 (set_prov r (p\<lparr>p_state := PROV_PUB_KEY\<rparr>) w))))"

definition prov_oob_pub_key :: "prov_env \<Rightarrow> bytes \<Rightarrow> nat \<Rightarrow> 'a pworld_scheme \<Rightarrow> 'a pworld_scheme cres" where
  "prov_oob_pub_key E buf r w =
     with_prov r w (Ret w) (\<lambda>p.
       prov_send_pub_key E r (set_prov r (p\<lparr>conf_in := (conf_in p)\<lparr>dev_pub_key := sub_bytes buf 0 64\<rparr>\<rparr>) w))"

text \<open>Runs when the START PDU has been written.\<close>

definition prov_start_cmplt :: "prov_env \<Rightarrow> nat \<Rightarrow> 'a pworld_scheme \<Rightarrow> 'a pworld_scheme cres" where
  "prov_start_cmplt E r w =
     with_prov r w (Ret w) (\<lambda>p.
       if start_pub_key (start (conf_in p)) \<noteq> 0
       then Ret (fst (agent_input_request Oob_HEXADECIMAL 64 Cb_oob_pub_key r w))
       else prov_send_pub_key E r w)"

section \<open>The shared secret and the authentication method\<close>

definition swap_pub_key :: "bytes \<Rightarrow> bytes" where
  "swap_pub_key b = swap_u256_bytes (sub_bytes b 0 32) @ swap_u256_bytes (sub_bytes b 32 32)"

text \<open>The \<^verbatim>\<open>uint32_t\<close> filled with random octets, and a random octet as a digit or letter.\<close>

definition random_u32 :: "prov_env \<Rightarrow> u32" where
  "random_u32 E =
     (let b = \<lambda>i. ucast (byte_at (random_bytes E 4) i) :: u32
      in b 0 OR push_bit 8 (b 1) OR push_bit 16 (b 2) OR push_bit 24 (b 3))"

definition ascii_digit :: "u8 \<Rightarrow> u8" where
  "ascii_digit b =
     (let v = b mod ((26 * 2) + 10)
      in if v \<ge> 10 + 26 then v + (0x61 - (10 + 26)) else if v \<ge> 10 then v + (0x41 - 10) else v + 0x30)"

definition input_oob :: "prov_env \<Rightarrow> nat \<Rightarrow> prov_data \<Rightarrow> 'a pworld_scheme \<Rightarrow> 'a pworld_scheme cres" where
  "input_oob E r p w =
     (let action = auth_action (start (conf_in p)); sz = auth_size (start (conf_in p)) in
      if action \<le> 2 then
        cguard (power_ten sz \<noteq> 0)
          (let in_oob = random_u32 E mod power_ten sz;
               p1 = p\<lparr>rand_auth := put_be32 in_oob (rand_auth p) 28\<rparr>
           in Ret (fst (agent_output_request (Show_number (unat action) in_oob) (set_prov r p1 w))))
      else
        cguard (unat sz \<le> 8)
          (let txt = map ascii_digit (random_bytes E (unat sz));
               p1 = p\<lparr>rand_auth := memcpy (rand_auth p) 16 txt\<rparr>
           in Ret (fst (agent_output_request (Show_ascii txt) (set_prov r p1 w)))))"

definition auth_step :: "prov_env \<Rightarrow> nat \<Rightarrow> prov_data \<Rightarrow> 'a pworld_scheme \<Rightarrow> 'a pworld_scheme cres" where
  "auth_step E r p w =
     (let m = auth_method (start (conf_in p)); action = auth_action (start (conf_in p)); sz = ucast (auth_size (start (conf_in p))) in
      if m = 0 then cbind (prov_send_confirm E r w) (\<lambda>(w1, _). Ret w1)
      else if m = 1 then Ret (fst (agent_input_request Oob_HEXADECIMAL 16 Cb_out_oob_done r w))
      else if m = 2 then
        (if action \<le> 3 then Ret (fst (agent_input_request Oob_DECIMAL sz Cb_out_oob_done r w))
         else Ret (fst (agent_input_request Oob_ASCII sz Cb_out_oob_done r w)))
      else if m = 3 then input_oob E r p w
      else cbind (prov_complete r PROV_ERR_INVALID_PDU w) (\<lambda>(w1, _). Ret w1))"

text \<open>The pointer is read before it is compared with null.\<close>

definition prov_calc_ecdh :: "prov_env \<Rightarrow> nat \<Rightarrow> 'a pworld_scheme \<Rightarrow> 'a pworld_scheme cres" where
  "prov_calc_ecdh E r w =
     with_prov r w Fault (\<lambda>p.
       let (secret, ok) = ecdh_shared_secret (dh_rnd E) (swap_pub_key (dev_pub_key (conf_in p))) (eph_priv_key p);
           s = swap_u256_bytes (case secret of None \<Rightarrow> ecdh_secret p | Some s \<Rightarrow> s)
       in cbind (kept (p_salt p) (mesh_crypto_s1 (p_alg E) (conf_in_bytes (conf_in p)))) (\<lambda>salt.
          cbind (kept (conf_key p) (mesh_crypto_prov_conf_key (p_alg E) s salt)) (\<lambda>ck.
            let p1 = p\<lparr>ecdh_secret := s, p_salt := salt, conf_key := ck\<rparr>
            in auth_step E r p1 (set_prov r p1 w))))"

section \<open>What is received\<close>

text \<open>Reading one octet of a PDU, and copying \<open>n\<close> of them; a PDU ends with its last octet.\<close>

definition pdu_octet :: "bytes \<Rightarrow> nat \<Rightarrow> u8 cres" where
  "pdu_octet buf i = cguard (i < length buf) (Ret (byte_at buf i))"

definition pdu_octets :: "bytes \<Rightarrow> nat \<Rightarrow> nat \<Rightarrow> bytes cres" where
  "pdu_octets buf i n = cguard (i + n \<le> length buf) (Ret (sub_bytes buf i n))"

lemma pdu_octet_simps [simp]:
  "i < length buf \<Longrightarrow> pdu_octet buf i = Ret (byte_at buf i)" "pdu_octet buf i = Ret x \<longleftrightarrow> i < length buf \<and> x = byte_at buf i"
  "i + n \<le> length buf \<Longrightarrow> pdu_octets buf i n = Ret (sub_bytes buf i n)"
  "pdu_octets buf i n = Ret xs \<longleftrightarrow> i + n \<le> length buf \<and> xs = sub_bytes buf i n"
  by (auto simp: pdu_octet_def pdu_octets_def cguard_def)

definition invalid_pdu :: "nat \<Rightarrow> 'a pworld_scheme \<Rightarrow> ('a pworld_scheme \<times> bool) cres" where
  "invalid_pdu r w = prov_complete r PROV_ERR_INVALID_PDU w"

text \<open>The capabilities against the security level.\<close>

definition sec_level_ok :: "u8 \<Rightarrow> prov_data \<Rightarrow> bool" where
  "sec_level_ok sec_level p \<longleftrightarrow>
     (if sec_level = MESH_PROV_SEC_HIGH then \<not> (caps_pub_type p \<noteq> 1 \<and> caps_static_type p \<noteq> 1)
      else if sec_level = MESH_PROV_SEC_MED then
        \<not> (caps_pub_type p \<noteq> 1 \<and> caps_static_type p \<noteq> 1 \<and> caps_input_size p = 0 \<and> caps_output_size p = 0)
      else True)"

definition caps_ok :: "prov_data \<Rightarrow> bool" where
  "caps_ok p \<longleftrightarrow>
     caps_num_ele p \<noteq> 0 \<and> get_be16 (caps (conf_in p)) 1 AND 0x0001 \<noteq> 0 \<and> \<not> (caps_pub_type p > 0x01 \<or> caps_static_type p > 0x01)"

definition choose_start :: "prov_data \<Rightarrow> prov_start" where
  "choose_start p =
     (let c = caps (conf_in p); s = (start (conf_in p))\<lparr>algorithm := 0, start_pub_key := caps_pub_type p\<rparr> in
      if caps_static_type p \<noteq> 0 then s\<lparr>auth_method := 1\<rparr>
      else if caps_output_size p > caps_input_size p then
        s\<lparr>auth_method := 2, auth_action := u16_highest_bit (get_be16 c 6), auth_size := caps_output_size p\<rparr>
      else if caps_input_size p > 0 then
        s\<lparr>auth_method := 3, auth_action := u16_highest_bit (get_be16 c 9), auth_size := caps_input_size p\<rparr>
      else s)"

definition make_keys :: "prov_env \<Rightarrow> prov_data \<Rightarrow> prov_data" where
  "make_keys E p =
     (let (pub, priv) = (case ecc_make_key (key_rnd E) (key_junk E) of
                           None \<Rightarrow> (prv_pub_key (conf_in p), eph_priv_key p) | Some k \<Rightarrow> k)
      in p\<lparr>conf_in := (conf_in p)\<lparr>prv_pub_key := swap_pub_key pub\<rparr>, eph_priv_key := priv\<rparr>)"

text \<open>
  The capabilities are copied over a structure of 11 octets and then read from the
  PDU up to the last of them: the PDU must have exactly these after its opcode.
\<close>

definition prov_rx_caps :: "prov_env \<Rightarrow> nat \<Rightarrow> prov_data \<Rightarrow> bytes \<Rightarrow> 'a pworld_scheme \<Rightarrow> ('a pworld_scheme \<times> bool) cres" where
  "prov_rx_caps E r p0 buf w0 =
     cguard (length buf = 12)
     (let p = p0\<lparr>conf_in := (conf_in p0)\<lparr>caps := drop 1 buf\<rparr>\<rparr>; w = set_prov r p w0 in
      if \<not> sec_level_ok (prov_get_sec_level w) p then invalid_pdu r w
      else if \<not> caps_ok p then invalid_pdu r w
      else
        let (pool, addr) = net_obtain_address (caps_num_ele p) (address_pool (net w));
            p = p\<lparr>p_new_addr := addr\<rparr>;
            w = set_prov r p (upd_net (\<lambda>n. n\<lparr>address_pool := pool\<rparr>) w)
        in if addr = 0 then invalid_pdu r w
           else
             let p = p\<lparr>conf_in := (conf_in p)\<lparr>start := choose_start p\<rparr>\<rparr>; w = set_prov r p w
             in if auth_size (start (conf_in p)) > 8 then invalid_pdu r w
                else
                  let p = make_keys E (p\<lparr>p_state := PROV_START\<rparr>)
                  in Ret (gatt_write_pdu E (PROV_START # start_bytes (start (conf_in p))) Prov_start_cmplt r (set_prov r p w)))"

definition prov_rx_pub_key :: "prov_env \<Rightarrow> nat \<Rightarrow> prov_data \<Rightarrow> bytes \<Rightarrow> 'a pworld_scheme \<Rightarrow> ('a pworld_scheme \<times> bool) cres" where
  "prov_rx_pub_key E r p buf w =
     (if byte_at buf 0 = PROV_PUB_KEY \<and> start_pub_key (start (conf_in p)) = 0 then
        cbind (pdu_octets buf 1 64) (\<lambda>pk.
          cbind (prov_calc_ecdh E r (set_prov r (p\<lparr>conf_in := (conf_in p)\<lparr>dev_pub_key := pk\<rparr>\<rparr>) w)) (\<lambda>w1. Ret (w1, True)))
      else if byte_at buf 0 = PROV_INP_CMPLT then prov_send_confirm E r (agent_output_request_cancel w)
      else invalid_pdu r w)"

definition prov_rx_confirm :: "prov_env \<Rightarrow> nat \<Rightarrow> prov_data \<Rightarrow> bytes \<Rightarrow> 'a pworld_scheme \<Rightarrow> ('a pworld_scheme \<times> bool) cres" where
  "prov_rx_confirm E r p buf w =
     (if byte_at buf 0 \<noteq> PROV_CONFIRM then invalid_pdu r w
      else cbind (pdu_octets buf 1 16) (\<lambda>c.
             Ret (gatt_write_pdu E (PROV_RANDOM # sub_bytes (rand_auth p) 0 16) No_cb r
                   (set_prov r (p\<lparr>mesh_conf := c, p_state := PROV_RANDOM\<rparr>) w))))"

definition prov_rx_random :: "prov_env \<Rightarrow> nat \<Rightarrow> prov_data \<Rightarrow> bytes \<Rightarrow> 'a pworld_scheme \<Rightarrow> ('a pworld_scheme \<times> bool) cres" where
  "prov_rx_random E r p buf w =
     (if byte_at buf 0 \<noteq> PROV_RANDOM then invalid_pdu r w
      else
        cbind (pdu_octets buf 1 16) (\<lambda>rd.
        cbind (kept (p_salt p) (mesh_crypto_prov_prov_salt (p_alg E) (p_salt p) (rand_auth p) rd)) (\<lambda>salt.
          let ra = memcpy (rand_auth p) 0 rd; w1 = set_prov r (p\<lparr>p_salt := salt, rand_auth := ra\<rparr>) w
          in cbind (kept (replicate 16 0) (mesh_crypto_aes_cmac (p_alg E) (conf_key p) ra)) (\<lambda>conf.
               if conf \<noteq> mesh_conf p then invalid_pdu r w1
               else cbind (prov_send_prov_data E r w1) (\<lambda>(w2, _). Ret (w2, True))))))"

text \<open>
  \<open>buf0\<close> are the octets handed over, the proxy PDU type first. Every read of the
  PDU, and of the table of sizes, is checked where it happens: nothing but the
  tests of the code keeps a short PDU from being a fault.
\<close>

definition prov_data_ready :: "prov_env \<Rightarrow> nat \<Rightarrow> bytes \<Rightarrow> 'a pworld_scheme \<Rightarrow> ('a pworld_scheme \<times> bool) cres" where
  "prov_data_ready E r buf0 w =
     with_prov r w (Ret (w, False)) (\<lambda>p.
       if length buf0 < 2 then Ret (w, False)
       else
         let buf = drop 1 buf0 in
         cbind (pdu_octet buf 0) (\<lambda>op.
         if op > PROV_FAILED then invalid_pdu r w
         else cguard (unat op < 10)
           (if expected_pdu_size op \<noteq> length buf then invalid_pdu r w
            else if op = PROV_FAILED then cbind (pdu_octet buf 1) (\<lambda>status. prov_complete r status w)
            else if p_state p = PROV_INVITE then (if op \<noteq> PROV_CAPS then invalid_pdu r w else prov_rx_caps E r p buf w)
            else if p_state p = PROV_PUB_KEY then prov_rx_pub_key E r p buf w
            else if p_state p = PROV_CONFIRM then prov_rx_confirm E r p buf w
            else if p_state p = PROV_RANDOM then prov_rx_random E r p buf w
            else if p_state p = PROV_DATA then (if op \<noteq> PROV_COMPLETE then invalid_pdu r w else prov_complete r 0 w)
            else invalid_pdu r w)))"

section \<open>The answers of the user\<close>

definition call_input_cb :: "prov_env \<Rightarrow> oob_type \<Rightarrow> bytes \<Rightarrow> 'a pworld_scheme \<Rightarrow> 'a pworld_scheme cres" where
  "call_input_cb E type buf w =
     (case (req_cb (pending_request w), req_data (pending_request w)) of
        (Some Cb_out_oob_done, Some r) \<Rightarrow> prov_out_oob_done E type buf r w
      | (Some Cb_oob_pub_key, Some r) \<Rightarrow> prov_oob_pub_key E buf r w
      | _ \<Rightarrow> Ret w)"

definition response_hexadecimal :: "prov_env \<Rightarrow> string \<Rightarrow> 'a pworld_scheme \<Rightarrow> 'a pworld_scheme cres" where
  "response_hexadecimal E inp w =
     (case str2hex inp (length inp) (unat (req_len (pending_request w))) of
        None \<Rightarrow> Ret w
      | Some buf \<Rightarrow> cbind (call_input_cb E Oob_HEXADECIMAL buf w) (\<lambda>w1. Ret (reset_input_request w1)))"

text \<open>\<^verbatim>\<open>atoi\<close>: blanks, a sign, digits up to the first other character.\<close>

fun atoi_digits :: "string \<Rightarrow> int \<Rightarrow> int" where
  "atoi_digits [] n = n"
| "atoi_digits (c # cs) n =
     (if 48 \<le> (of_char c :: nat) \<and> (of_char c :: nat) \<le> 57 then atoi_digits cs (10 * n + (of_char c - 48)) else n)"

definition atoi :: "string \<Rightarrow> int" where
  "atoi s =
     (case dropWhile (\<lambda>c. (of_char c :: nat) = 32 \<or> 9 \<le> (of_char c :: nat) \<and> (of_char c :: nat) \<le> 13) s of
        [] \<Rightarrow> 0
      | c # cs \<Rightarrow> if (of_char c :: nat) = 45 then - atoi_digits cs 0
                   else if (of_char c :: nat) = 43 then atoi_digits cs 0 else atoi_digits (c # cs) 0)"

definition response_decimal :: "prov_env \<Rightarrow> string \<Rightarrow> 'a pworld_scheme \<Rightarrow> 'a pworld_scheme cres" where
  "response_decimal E inp w =
     (if length inp > unat (req_len (pending_request w)) then Ret w
      else cbind (call_input_cb E Oob_DECIMAL (put_be32 (of_int (atoi inp)) (replicate 4 0) 0) w)
             (\<lambda>w1. Ret (reset_input_request w1)))"

definition response_ascii :: "prov_env \<Rightarrow> string \<Rightarrow> 'a pworld_scheme \<Rightarrow> 'a pworld_scheme cres" where
  "response_ascii E inp w =
     cbind (call_input_cb E Oob_ASCII (map of_char inp) w) (\<lambda>w1. Ret (reset_input_request w1))"

end
