(* ===== verification/Mesh_ProvSafety.thy ===== *)
theory Mesh_ProvSafety
  imports Mesh_Prov
begin

text \<open>
  What provisioning guarantees, and where it does not hold: the data keep their
  shape, the network key leaves only after the confirmation, and the paths on
  which the exchange of keys can be skipped.
\<close>

section \<open>The data of a node\<close>

definition prov_at :: "'a pworld_scheme \<Rightarrow> nat \<Rightarrow> prov_data option" where
  "prov_at w r = Option.bind (node_at w r) n_prov"

lemma prov_at_Some: "prov_at w r = Some p \<longleftrightarrow> (\<exists>n. node_at w r = Some n \<and> n_prov n = Some p)"
  by (auto simp: prov_at_def bind_eq_Some_conv)

lemma with_prov_at [simp]: "prov_at w r = Some p \<Longrightarrow> with_prov r w null f = f p"
  by (auto simp: with_prov_def prov_at_Some)

lemma node_at_set_prov:
  "node_at (node_set_prov r p w) k = (if k = r then map_option (\<lambda>n. n\<lparr>n_prov := p\<rparr>) (node_at w k) else node_at w k)"
  unfolding node_set_prov_def by (rule node_at_upd) simp

lemma prov_at_set_prov:
  "prov_at (set_prov r p w) k = (if k = r \<and> node_at w r \<noteq> None then Some p else prov_at w k)"
  by (auto simp: prov_at_def set_prov_def node_at_set_prov)

lemma prov_at_set_same [simp]: "prov_at w r = Some p \<Longrightarrow> prov_at (set_prov r p' w) r = Some p'"
  by (auto simp: prov_at_set_prov prov_at_Some)

lemma set_prov_keeps [simp]:
  "keys (set_prov r p w) = keys w" "net (set_prov r p w) = net w" "log (set_prov r p w) = log w"
  "pending_request (set_prov r p w) = pending_request w" "prov_sec_level (set_prov r p w) = prov_sec_level w"
  by (simp_all add: set_prov_def node_set_prov_def upd_node_def)

lemma emit_keeps [simp]:
  "keys (emit e w) = keys w" "net (emit e w) = net w" "log (emit e w) = log w @ [e]"
  "node_at (emit e w) r = node_at w r" "prov_at (emit e (v :: 'a pworld_scheme)) r = prov_at v r"
  "pending_request (emit e v) = pending_request v" "prov_sec_level (emit e v) = prov_sec_level v"
  by (simp_all add: emit_def node_at_def prov_at_def)

lemma gatt_write_pdu_fst [simp]: "fst (gatt_write_pdu E pdu cb r w) = emit (Prov_write (PROXY_PROVISIONING_PDU # pdu) cb r) w"
  by (simp add: gatt_write_pdu_def)

lemma pending_keeps [simp]:
  "prov_at (w\<lparr>pending_request := q\<rparr>) r = prov_at w r" "node_at (w\<lparr>pending_request := q\<rparr>) r = node_at w r"
  "net (w\<lparr>pending_request := q\<rparr>) = net w" "keys (w\<lparr>pending_request := q\<rparr>) = keys w" "log (w\<lparr>pending_request := q\<rparr>) = log w"
  by (simp_all add: prov_at_def node_at_def)

lemma cancel_keeps [simp]:
  "prov_at (agent_output_request_cancel w) r = prov_at w r" "net (agent_output_request_cancel w) = net w"
  "keys (agent_output_request_cancel w) = keys w"
  by (simp_all add: agent_output_request_cancel_def)

text \<open>
  Past the test of the count, the opcode and the size read are in place, and the
  status of a FAILED PDU too.
\<close>

lemma data_ready_eq:
  assumes "prov_at w r = Some p" "2 \<le> length buf0"
  shows "prov_data_ready E r buf0 w =
      (let buf = drop 1 buf0; op = byte_at buf 0 in
         if op > PROV_FAILED \<or> expected_pdu_size op \<noteq> length buf then invalid_pdu r w
         else if op = PROV_FAILED then prov_complete r (byte_at buf 1) w
         else if p_state p = PROV_INVITE then (if op \<noteq> PROV_CAPS then invalid_pdu r w else prov_rx_caps E r p buf w)
         else if p_state p = PROV_PUB_KEY then prov_rx_pub_key E r p buf w
         else if p_state p = PROV_CONFIRM then prov_rx_confirm E r p buf w
         else if p_state p = PROV_RANDOM then prov_rx_random E r p buf w
         else if p_state p = PROV_DATA then (if op \<noteq> PROV_COMPLETE then invalid_pdu r w else prov_complete r 0 w)
         else invalid_pdu r w)"
proof -
  have "unat op < 10" if "\<not> op > PROV_FAILED" for op
    using that by (simp add: PROV_FAILED_def not_less word_le_nat_alt)
  moreover have "expected_pdu_size PROV_FAILED = 2" by (simp add: expected_pdu_size_def PROV_FAILED_def)
  ultimately show ?thesis
    using assms by (simp add: prov_data_ready_def Let_def cguard_def)
qed

section \<open>Ciphers that answer\<close>

text \<open>\<open>mac\<close> is the CMAC the kernel computes: every call succeeds and yields 16 octets.\<close>

definition cmac_is :: "af_alg \<Rightarrow> (bytes \<Rightarrow> bytes \<Rightarrow> bytes) \<Rightarrow> bool" where
  "cmac_is A mac \<longleftrightarrow>
     (\<forall>k m. length m \<le> CMAC_MSG_MAX \<longrightarrow> aes_cmac_one A k m = Ret (mac k m)) \<and> (\<forall>k m. length (mac k m) = 16)"

lemma cmac_isD: "cmac_is A mac \<Longrightarrow> length m \<le> 145 \<Longrightarrow> aes_cmac_one A k m = Ret (mac k m)" "cmac_is A mac \<Longrightarrow> length (mac k m) = 16"
  by (auto simp: cmac_is_def CMAC_MSG_MAX_def)

text \<open>The keys derived from the secret and the salt.\<close>

definition session_key_of :: "(bytes \<Rightarrow> bytes \<Rightarrow> bytes) \<Rightarrow> bytes \<Rightarrow> bytes \<Rightarrow> bytes" where
  "session_key_of mac secret salt = mac (mac salt secret) (str_bytes ''prsk'')"

definition session_nonce_of :: "(bytes \<Rightarrow> bytes \<Rightarrow> bytes) \<Rightarrow> bytes \<Rightarrow> bytes \<Rightarrow> bytes" where
  "session_nonce_of mac secret salt = sub_bytes (mac (mac salt secret) (str_bytes ''prsn'')) 3 13"

definition device_key_of :: "(bytes \<Rightarrow> bytes \<Rightarrow> bytes) \<Rightarrow> bytes \<Rightarrow> bytes \<Rightarrow> bytes" where
  "device_key_of mac secret salt = mac (mac salt secret) (str_bytes ''prdk'')"

definition conf_key_of :: "(bytes \<Rightarrow> bytes \<Rightarrow> bytes) \<Rightarrow> bytes \<Rightarrow> bytes \<Rightarrow> bytes" where
  "conf_key_of mac secret salt = mac (mac salt secret) (str_bytes ''prck'')"

definition prov_salt_of :: "(bytes \<Rightarrow> bytes \<Rightarrow> bytes) \<Rightarrow> bytes \<Rightarrow> bytes \<Rightarrow> bytes \<Rightarrow> bytes" where
  "prov_salt_of mac conf_salt prov_rand dev_rand =
     mac (replicate 16 0) (sub_bytes conf_salt 0 16 @ sub_bytes prov_rand 0 16 @ sub_bytes dev_rand 0 16)"

lemma derived_keys:
  assumes "cmac_is A mac" "length secret \<le> 145"
  shows "mesh_crypto_session_key A secret salt = Ret (session_key_of mac secret salt)"
    "mesh_crypto_nonce A secret salt = Ret (session_nonce_of mac secret salt)"
    "mesh_crypto_device_key A secret salt = Ret (device_key_of mac secret salt)"
    "mesh_crypto_prov_conf_key A secret salt = Ret (conf_key_of mac secret salt)"
    "mesh_crypto_prov_prov_salt A s a b = Ret (prov_salt_of mac s a b)"
  using assms
  by (simp_all add: mesh_crypto_session_key_def mesh_crypto_nonce_def mesh_crypto_device_key_def mesh_crypto_prov_conf_key_def
      mesh_crypto_prov_prov_salt_def session_key_of_def session_nonce_of_def device_key_of_def conf_key_of_def prov_salt_of_def
      cmac_isD str_bytes_def)

section \<open>The steps with ciphers that answer\<close>

lemma send_confirm_result:
  assumes "prov_at w r = Some p" "cmac_is (p_alg E) mac" "length (rand_auth p) = 32"
  defines "ra \<equiv> memcpy (rand_auth p) 0 (random_bytes E 16)"
  shows "prov_send_confirm E r w = Ret (emit (Prov_write ([PROXY_PROVISIONING_PDU, PROV_CONFIRM] @ mac (conf_key p) ra) No_cb r)
      (set_prov r (p\<lparr>rand_auth := ra, p_state := PROV_CONFIRM\<rparr>) w), gatt_ok E)"
  using assms by (simp add: prov_send_confirm_def Let_def mesh_crypto_aes_cmac_def cmac_isD gatt_write_pdu_def)

lemma rx_confirm_result:
  assumes "prov_at w r = Some p" "p_state p = PROV_CONFIRM" "length c = 16"
  shows "prov_data_ready E r ([PROXY_PROVISIONING_PDU, PROV_CONFIRM] @ c) w =
    Ret (emit (Prov_write ([PROXY_PROVISIONING_PDU, PROV_RANDOM] @ sub_bytes (rand_auth p) 0 16) No_cb r)
      (set_prov r (p\<lparr>mesh_conf := c, p_state := PROV_RANDOM\<rparr>) w), gatt_ok E)"
proof -
  have "sub_bytes (PROV_CONFIRM # c) 1 16 = c"
    using assms(3) by (intro nth_equalityI) (simp_all add: sub_bytes_def byte_at_def)
  then show ?thesis
    using assms by (simp add: prov_data_ready_def prov_rx_confirm_def Let_def byte_at_def prov_opcodes expected_pdu_size_def gatt_write_pdu_def)
qed

definition prov_flags :: "'a pworld_scheme \<Rightarrow> u16 \<Rightarrow> u8" where
  "prov_flags w net_idx = (case net_get_flags (keys w) (iv_update (net w)) net_idx of None \<Rightarrow> 0 | Some f \<Rightarrow> f)"

lemma length_prov_plain [simp]: "length (prov_plain nk i f iv a) = 25"
  by (simp add: prov_plain_def Let_def)

lemma ccm_encrypt_nil:
  assumes "ecb_is A k (enc k)" "length d = 25"
  shows "\<exists>out mic. mesh_crypto_aes_ccm_encrypt A nonce k [] d 25 8 = Ret (out, mic)"
  using ccm_encrypt_ref_core [OF assms(1), of 8 d "[]" nonce] assms(2) by (cases d) auto

lemma send_prov_data_result:
  assumes "prov_at w r = Some p" "cmac_is (p_alg E) mac" "length (ecdh_secret p) = 32"
    and "\<And>k. ecb_is (p_alg E) k (enc k)" and "net_get_key (keys w) (p_net_idx p) = Some nk"
  defines "d \<equiv> prov_plain nk (p_net_idx p) (prov_flags w (p_net_idx p)) (iv_index (net w)) (p_new_addr p)"
  defines "k \<equiv> session_key_of mac (ecdh_secret p) (p_salt p)" and "nonce \<equiv> session_nonce_of mac (ecdh_secret p) (p_salt p)"
  shows "\<exists>out mic. mesh_crypto_aes_ccm_encrypt (p_alg E) nonce k [] d 25 8 = Ret (out, mic) \<and>
    prov_send_prov_data E r w = Ret (emit (Prov_write ([PROXY_PROVISIONING_PDU, PROV_DATA] @ out) No_cb r)
      (set_prov r (p\<lparr>p_dev_key := device_key_of mac (ecdh_secret p) (p_salt p), p_state := PROV_DATA\<rparr>)
        (set_prov r (p\<lparr>p_dev_key := device_key_of mac (ecdh_secret p) (p_salt p)\<rparr>) w)), gatt_ok E)"
proof -
  have "\<exists>out mic. mesh_crypto_aes_ccm_encrypt (p_alg E) nonce k [] d 25 8 = Ret (out, mic)"
    by (rule ccm_encrypt_nil [OF assms(4)]) (simp add: d_def)
  then obtain out mic where "mesh_crypto_aes_ccm_encrypt (p_alg E) nonce k [] d 25 8 = Ret (out, mic)" by blast
  then show ?thesis
    using assms(1-3,5)
    by (intro exI [of _ out] exI [of _ mic])
      (simp add: prov_send_prov_data_def derived_keys Let_def gatt_write_pdu_def prov_flags_def d_def k_def nonce_def)
qed

lemma sub_bytes_tail: "length c = n \<Longrightarrow> sub_bytes (x # c) (Suc 0) n = c"
  by (intro nth_equalityI) (simp_all add: sub_bytes_def byte_at_def)

lemma sub_bytes_whole: "length c = n \<Longrightarrow> sub_bytes c 0 n = c"
  by (intro nth_equalityI) (simp_all add: sub_bytes_def byte_at_def)

lemma rx_random_result:
  assumes "prov_at w r = Some p" "p_state p = PROV_RANDOM" "length rd = 16" "cmac_is (p_alg E) mac" "length (rand_auth p) = 32"
  defines "p1 \<equiv> p\<lparr>p_salt := prov_salt_of mac (p_salt p) (rand_auth p) rd, rand_auth := memcpy (rand_auth p) 0 rd\<rparr>"
  shows "prov_data_ready E r ([PROXY_PROVISIONING_PDU, PROV_RANDOM] @ rd) w =
    (if mac (conf_key p) (memcpy (rand_auth p) 0 rd) \<noteq> mesh_conf p then invalid_pdu r (set_prov r p1 w)
     else cbind (prov_send_prov_data E r (set_prov r p1 w)) (\<lambda>(w2, _). Ret (w2, True)))"
  using assms(1-5) derived_keys(5) [OF assms(4), of "[]" "p_salt p" "rand_auth p" rd]
  by (simp add: prov_data_ready_def prov_rx_random_def Let_def byte_at_def prov_opcodes expected_pdu_size_def sub_bytes_tail p1_def
      mesh_crypto_aes_cmac_def cmac_isD)

text \<open>The device accepts the data: what the cipher text decrypts to.\<close>

lemma prov_data_decrypts:
  assumes "alg_wf A" "mesh_crypto_aes_ccm_encrypt A nonce k [] d 25 8 = Ret (out, mic)" "length d = 25"
  shows "mesh_crypto_aes_ccm_decrypt A nonce k [] out False 8 = Ret (d, mic)"
  using ccm_decrypt_encrypt_core [OF assms(1,2), of False] assms(3) by simp

lemma rx_random_sends:
  assumes "prov_at w r = Some p" "p_state p = PROV_RANDOM" "length rd = 16" "cmac_is (p_alg E) mac" "length (rand_auth p) = 32"
    and "length (ecdh_secret p) = 32" "\<And>k. ecb_is (p_alg E) k (enc k)" "alg_wf (p_alg E)" "net_get_key (keys w) (p_net_idx p) = Some nk"
    and "mac (conf_key p) (memcpy (rand_auth p) 0 rd) = mesh_conf p"
  defines "salt \<equiv> prov_salt_of mac (p_salt p) (rand_auth p) rd"
  shows "\<exists>w' out mic. prov_data_ready E r ([PROXY_PROVISIONING_PDU, PROV_RANDOM] @ rd) w = Ret (w', True) \<and>
    log w' = log w @ [Prov_write ([PROXY_PROVISIONING_PDU, PROV_DATA] @ out) No_cb r] \<and>
    mesh_crypto_aes_ccm_decrypt (p_alg E) (session_nonce_of mac (ecdh_secret p) salt) (session_key_of mac (ecdh_secret p) salt) [] out False 8 =
      Ret (prov_plain nk (p_net_idx p) (prov_flags w (p_net_idx p)) (iv_index (net w)) (p_new_addr p), mic) \<and>
    prov_at w' r = Some (p\<lparr>p_salt := salt, rand_auth := memcpy (rand_auth p) 0 rd,
      p_dev_key := device_key_of mac (ecdh_secret p) salt, p_state := PROV_DATA\<rparr>)"
proof -
  define p1 where "p1 = p\<lparr>p_salt := salt, rand_auth := memcpy (rand_auth p) 0 rd\<rparr>"
  have p1: "prov_at (set_prov r p1 w) r = Some p1" using assms(1) by simp
  have k: "net_get_key (keys (set_prov r p1 w)) (p_net_idx p1) = Some nk" using assms(9) by (simp add: p1_def)
  have l: "length (ecdh_secret p1) = 32" using assms(6) by (simp add: p1_def)
  from send_prov_data_result [OF p1 assms(4) l assms(7) k] obtain out mic where
    e: "mesh_crypto_aes_ccm_encrypt (p_alg E) (session_nonce_of mac (ecdh_secret p1) (p_salt p1)) (session_key_of mac (ecdh_secret p1) (p_salt p1)) []
      (prov_plain nk (p_net_idx p1) (prov_flags (set_prov r p1 w) (p_net_idx p1)) (iv_index (net (set_prov r p1 w))) (p_new_addr p1)) 25 8 = Ret (out, mic)"
    and s: "prov_send_prov_data E r (set_prov r p1 w) = Ret (emit (Prov_write ([PROXY_PROVISIONING_PDU, PROV_DATA] @ out) No_cb r)
      (set_prov r (p1\<lparr>p_dev_key := device_key_of mac (ecdh_secret p1) (p_salt p1), p_state := PROV_DATA\<rparr>)
        (set_prov r (p1\<lparr>p_dev_key := device_key_of mac (ecdh_secret p1) (p_salt p1)\<rparr>) (set_prov r p1 w))), gatt_ok E)"
    by blast
  note d = prov_data_decrypts [OF assms(8) e length_prov_plain]
  show ?thesis
    unfolding rx_random_result [OF assms(1-5)] p1_def [unfolded salt_def, symmetric] s
    using assms(1,10) d by (simp add: p1_def salt_def prov_flags_def)
qed

section \<open>A world for evaluation\<close>

definition demo_mac :: "bytes \<Rightarrow> bytes \<Rightarrow> bytes" where
  "demo_mac k m = the (cmac_op demo_alg k m)"

lemma demo_cmac_is: "cmac_is demo_alg demo_mac"
proof -
  have "length (demo_mac k m) = 16" for k m by (simp add: demo_mac_def demo_alg_def demo_E_def)
  then show ?thesis by (simp add: cmac_is_def demo_mac_def cres_demo CMAC_MSG_MAX_def)
qed

definition demo_penv :: prov_env where
  "demo_penv = \<lparr>p_alg = demo_alg, p_rand = (\<lambda>n. replicate n 9), key_rnd = (\<lambda>_. None),
     key_junk = \<lparr>px = [1, 0, 0, 0], py = [0, 0, 0, 0]\<rparr>, dh_rnd = Some [1, 0, 0, 0], p_junk = (\<lambda>n. replicate n 0), p_left = (\<lambda>b. b), gatt_ok = True\<rparr>"

text \<open>Node 5 with the data \<open>p\<close>, one network key, and the addresses from 0x100 on free.\<close>

definition demo_pworld :: "prov_data \<Rightarrow> pworld" where
  "demo_pworld p = \<lparr>net = blank_net\<lparr>address_pool := [mk_range 0x100 0x1ff]\<rparr>,
     keys = \<lparr>net_keys = [demo_net_key\<lparr>nk_idx := 0, phase := 0, nk_current := (nk_current demo_net_key)\<lparr>net_key := replicate 16 1\<rparr>\<rparr>], app_keys = []\<rparr>,
     virt_addrs = [], nodes = [(blank_node 5)\<lparr>n_prov := Some p\<rparr>], next_ref = 6, local_node = None, log = [],
     pending_request = no_request, prov_sec_level = MESH_PROV_SEC_HIGH\<rparr>"

lemma demo_pworld_facts [simp]: "prov_at (demo_pworld p) 5 = Some p" "net_get_key (keys (demo_pworld p)) 0 = Some (replicate 16 1)"
  "p_alg demo_penv = demo_alg" "log (demo_pworld p) = []"
  by (simp_all add: demo_pworld_def demo_penv_def prov_at_def node_at_def blank_node_def net_get_key_def get_net_key_def find_net_key_by_idx_def demo_net_key_def)

definition demo_random :: prov_data where
  "demo_random = blank_prov\<lparr>p_state := PROV_RANDOM, p_new_addr := 0x105,
     mesh_conf := demo_mac (replicate 16 0) (replicate 16 3 @ replicate 16 0)\<rparr>"

lemma demo_random_facts:
  "p_state demo_random = PROV_RANDOM" "length (rand_auth demo_random) = 32" "length (ecdh_secret demo_random) = 32" "p_net_idx demo_random = 0"
  "demo_mac (conf_key demo_random) (memcpy (rand_auth demo_random) 0 (replicate 16 3)) = mesh_conf demo_random"
  by (simp_all add: demo_random_def blank_prov_def memcpy_def flip: replicate_add)

section \<open>Properties: the end of the exchange\<close>

text \<open>
  The provisioning data arrive. When the confirmation of the device matches,
  the provisioner sends its data, and a device with the same secret and salt
  decrypts them to the network key, its index, the flags, the IV index and the
  address it was given; the device key is kept.
\<close>

lemma provisioning_data_recovered:
  assumes "prov_at w r = Some p" "p_state p = PROV_RANDOM" "length rd = 16" "length (rand_auth p) = 32" "length (ecdh_secret p) = 32"
    and "cmac_is (p_alg E) mac" "\<And>k. ecb_is (p_alg E) k (enc k)" "alg_wf (p_alg E)" "net_get_key (keys w) (p_net_idx p) = Some nk"
    and "mac (conf_key p) (memcpy (rand_auth p) 0 rd) = mesh_conf p"
  defines "salt \<equiv> prov_salt_of mac (p_salt p) (rand_auth p) rd"
  shows "\<exists>w' out mic p'. prov_data_ready E r ([PROXY_PROVISIONING_PDU, PROV_RANDOM] @ rd) w = Ret (w', True) \<and>
    log w' = log w @ [Prov_write ([PROXY_PROVISIONING_PDU, PROV_DATA] @ out) No_cb r] \<and>
    mesh_crypto_aes_ccm_decrypt (p_alg E) (session_nonce_of mac (ecdh_secret p) salt) (session_key_of mac (ecdh_secret p) salt) [] out False 8 =
      Ret (prov_plain nk (p_net_idx p) (prov_flags w (p_net_idx p)) (iv_index (net w)) (p_new_addr p), mic) \<and>
    prov_at w' r = Some p' \<and> p_state p' = PROV_DATA \<and> p_dev_key p' = device_key_of mac (ecdh_secret p) salt"
proof -
  from rx_random_sends [OF assms(1-3,6,4,5,7-10)] obtain w' out mic where
    "prov_data_ready E r ([PROXY_PROVISIONING_PDU, PROV_RANDOM] @ rd) w = Ret (w', True)"
    "log w' = log w @ [Prov_write ([PROXY_PROVISIONING_PDU, PROV_DATA] @ out) No_cb r]"
    "mesh_crypto_aes_ccm_decrypt (p_alg E) (session_nonce_of mac (ecdh_secret p) salt) (session_key_of mac (ecdh_secret p) salt) [] out False 8 =
      Ret (prov_plain nk (p_net_idx p) (prov_flags w (p_net_idx p)) (iv_index (net w)) (p_new_addr p), mic)"
    "prov_at w' r = Some (p\<lparr>p_salt := salt, rand_auth := memcpy (rand_auth p) 0 rd,
      p_dev_key := device_key_of mac (ecdh_secret p) salt, p_state := PROV_DATA\<rparr>)"
    unfolding salt_def by blast
  then show ?thesis by auto
qed

lemma provisioning_data_recovered_witness:
  "\<exists>w' out mic. prov_data_ready demo_penv 5 ([PROXY_PROVISIONING_PDU, PROV_RANDOM] @ replicate 16 3) (demo_pworld demo_random) = Ret (w', True) \<and>
    log w' = [Prov_write ([PROXY_PROVISIONING_PDU, PROV_DATA] @ out) No_cb 5] \<and>
    mesh_crypto_aes_ccm_decrypt demo_alg
      (session_nonce_of demo_mac (replicate 32 0) (prov_salt_of demo_mac (replicate 16 0) (replicate 32 0) (replicate 16 3)))
      (session_key_of demo_mac (replicate 32 0) (prov_salt_of demo_mac (replicate 16 0) (replicate 32 0) (replicate 16 3))) [] out False 8 =
      Ret (prov_plain (replicate 16 1) 0 0 0 0x105, mic)"
proof -
  have "prov_flags (demo_pworld demo_random) 0 = 0"
    by (simp add: prov_flags_def net_get_flags_def demo_pworld_def keys_get_kr_phase_def find_net_key_by_idx_def demo_net_key_def blank_net_def
        Let_def KR_PHASE_INVALID_def KR_PHASE_NONE_def)
  moreover have r: "rand_auth demo_random = replicate 32 0" by (simp add: demo_random_def blank_prov_def)
  moreover have "iv_index (net (demo_pworld demo_random)) = 0" "p_new_addr demo_random = 0x105" "ecdh_secret demo_random = replicate 32 0"
    "p_salt demo_random = replicate 16 0"
    by (simp_all add: demo_pworld_def demo_random_def blank_net_def blank_prov_def)
  moreover note demo_random_facts(5) [unfolded r]
  ultimately show ?thesis
    using provisioning_data_recovered [of "demo_pworld demo_random" 5 demo_random "replicate 16 3" demo_penv demo_mac demo_E "replicate 16 1"]
      demo_cmac_is demo_alg_ecb demo_alg_wf
    by (simp only: demo_random_facts demo_pworld_facts length_replicate simp_thms append_Nil) blast
qed


text \<open>
  The confirmation can be reflected. A device that sends back the
  provisioner's own confirmation and its own random number passes the check
  without knowing the out-of-band data, and receives the network key under keys
  made from the exchanged secret and the random number.
\<close>

lemma confirmation_reflected:
  assumes "prov_at w r = Some p" "p_state p = PROV_CONFIRM" "length (rand_auth p) = 32" "length (ecdh_secret p) = 32"
    and "cmac_is (p_alg E) mac" "\<And>k. ecb_is (p_alg E) k (enc k)" "alg_wf (p_alg E)" "net_get_key (keys w) (p_net_idx p) = Some nk"
  defines "own \<equiv> sub_bytes (rand_auth p) 0 16"
  defines "salt \<equiv> prov_salt_of mac (p_salt p) (rand_auth p) own"
  shows "\<exists>w1 w2 out mic.
    prov_data_ready E r ([PROXY_PROVISIONING_PDU, PROV_CONFIRM] @ mac (conf_key p) (rand_auth p)) w = Ret (w1, gatt_ok E) \<and>
    last (log w1) = Prov_write ([PROXY_PROVISIONING_PDU, PROV_RANDOM] @ own) No_cb r \<and>
    prov_data_ready E r ([PROXY_PROVISIONING_PDU, PROV_RANDOM] @ own) w1 = Ret (w2, True) \<and>
    last (log w2) = Prov_write ([PROXY_PROVISIONING_PDU, PROV_DATA] @ out) No_cb r \<and>
    mesh_crypto_aes_ccm_decrypt (p_alg E) (session_nonce_of mac (ecdh_secret p) salt) (session_key_of mac (ecdh_secret p) salt) [] out False 8 =
      Ret (prov_plain nk (p_net_idx p) (prov_flags w (p_net_idx p)) (iv_index (net w)) (p_new_addr p), mic)"
proof -
  define c where "c = mac (conf_key p) (rand_auth p)"
  define p1 where "p1 = p\<lparr>mesh_conf := c, p_state := PROV_RANDOM\<rparr>"
  define w1 where "w1 = emit (Prov_write ([PROXY_PROVISIONING_PDU, PROV_RANDOM] @ own) No_cb r) (set_prov r p1 w)"
  have s1: "prov_data_ready E r ([PROXY_PROVISIONING_PDU, PROV_CONFIRM] @ c) w = Ret (w1, gatt_ok E)"
    using rx_confirm_result [OF assms(1,2), of c E] cmac_isD(2) [OF assms(5)] by (simp add: p1_def w1_def c_def own_def)
  have a1: "prov_at w1 r = Some p1" using assms(1) by (simp add: w1_def)
  have own: "length own = 16" by (simp add: own_def)
  have m: "memcpy (rand_auth p1) 0 own = rand_auth p1"
    using assms(3) by (intro nth_equalityI) (simp_all add: p1_def own_def memcpy_def sub_bytes_def byte_at_def nth_append)
  have "\<exists>w' out mic. prov_data_ready E r ([PROXY_PROVISIONING_PDU, PROV_RANDOM] @ own) w1 = Ret (w', True) \<and>
    log w' = log w1 @ [Prov_write ([PROXY_PROVISIONING_PDU, PROV_DATA] @ out) No_cb r] \<and>
    mesh_crypto_aes_ccm_decrypt (p_alg E) (session_nonce_of mac (ecdh_secret p1) salt) (session_key_of mac (ecdh_secret p1) salt) [] out False 8 =
      Ret (prov_plain nk (p_net_idx p1) (prov_flags w1 (p_net_idx p1)) (iv_index (net w1)) (p_new_addr p1), mic)"
    using rx_random_sends [OF a1 _ own assms(5) _ _ assms(6,7), of nk] assms(3,4,8)
    by (simp add: m) (auto simp: p1_def c_def w1_def salt_def)
  then show ?thesis
    using s1 by (auto simp: c_def [symmetric] w1_def [symmetric]) (auto simp: w1_def p1_def prov_flags_def)
qed

lemma confirmation_reflected_witness:
  "\<exists>w1 w2 out. prov_data_ready demo_penv 5 ([PROXY_PROVISIONING_PDU, PROV_CONFIRM] @ demo_mac (replicate 16 0) (replicate 16 0 @ replicate 16 7))
      (demo_pworld (blank_prov\<lparr>p_state := PROV_CONFIRM, rand_auth := replicate 16 0 @ replicate 16 7\<rparr>)) = Ret (w1, True) \<and>
    prov_data_ready demo_penv 5 ([PROXY_PROVISIONING_PDU, PROV_RANDOM] @ replicate 16 0) w1 = Ret (w2, True) \<and>
    last (log w2) = Prov_write ([PROXY_PROVISIONING_PDU, PROV_DATA] @ out) No_cb 5"
proof -
  let ?p = "blank_prov\<lparr>p_state := PROV_CONFIRM, rand_auth := replicate 16 0 @ replicate 16 7\<rparr>"
  have p: "p_state ?p = PROV_CONFIRM" "length (rand_auth ?p) = 32" "length (ecdh_secret ?p) = 32" "p_net_idx ?p = 0" "conf_key ?p = replicate 16 0"
    "rand_auth ?p = replicate 16 0 @ replicate 16 7" "gatt_ok demo_penv"
    by (simp_all add: blank_prov_def demo_penv_def)
  have l: "length (replicate 16 0 @ replicate 16 7 :: bytes) = 32" by simp
  have s: "sub_bytes (replicate 16 0 @ replicate 16 7) 0 16 = replicate 16 0"
    by (intro nth_equalityI) (simp_all add: sub_bytes_def byte_at_def nth_append)
  show ?thesis
    using confirmation_reflected [of "demo_pworld ?p" 5 ?p demo_penv demo_mac demo_E "replicate 16 1"] demo_cmac_is demo_alg_ecb demo_alg_wf
    by (simp only: p s l demo_pworld_facts simp_thms) blast
qed


text \<open>
  C37. The exchange of keys can be skipped. While the provisioner waits for the
  public key of the device, an Input Complete PDU makes it send its confirmation,
  whatever authentication was agreed: with the confirmation key, the secret and
  the salt still zero. A device that answers with the CMAC under the zero key
  then receives the network key, encrypted under a key made from a zero secret
  and random numbers both sides have sent in clear.
\<close>

theorem key_exchange_skipped:
  assumes "prov_at w r = Some p" "p_state p = PROV_PUB_KEY" "length rd = 16"
    and "conf_key p = replicate 16 0" "ecdh_secret p = replicate 32 0" "p_salt p = replicate 16 0" "rand_auth p = replicate 32 0"
    and "cmac_is (p_alg E) mac" "\<And>k. ecb_is (p_alg E) k (enc k)" "alg_wf (p_alg E)" "net_get_key (keys w) (p_net_idx p) = Some nk"
  defines "salt \<equiv> prov_salt_of mac (replicate 16 0) (random_bytes E 16) rd"
  shows "\<exists>w1 w2 w3 out mic.
    prov_data_ready E r [PROXY_PROVISIONING_PDU, PROV_INP_CMPLT] w = Ret (w1, gatt_ok E) \<and>
    prov_data_ready E r ([PROXY_PROVISIONING_PDU, PROV_CONFIRM] @ mac (replicate 16 0) (rd @ replicate 16 0)) w1 = Ret (w2, gatt_ok E) \<and>
    last (log w2) = Prov_write ([PROXY_PROVISIONING_PDU, PROV_RANDOM] @ random_bytes E 16) No_cb r \<and>
    prov_data_ready E r ([PROXY_PROVISIONING_PDU, PROV_RANDOM] @ rd) w2 = Ret (w3, True) \<and>
    last (log w3) = Prov_write ([PROXY_PROVISIONING_PDU, PROV_DATA] @ out) No_cb r \<and>
    mesh_crypto_aes_ccm_decrypt (p_alg E) (session_nonce_of mac (replicate 32 0) salt) (session_key_of mac (replicate 32 0) salt) [] out False 8 =
      Ret (prov_plain nk (p_net_idx p) (prov_flags w (p_net_idx p)) (iv_index (net w)) (p_new_addr p), mic)"
proof -
  define c where "c = mac (replicate 16 0) (rd @ replicate 16 0)"
  define w0 where "w0 = agent_output_request_cancel w"
  have rb: "length (random_bytes E 16) = 16" by (simp add: random_bytes_def)
  have l32: "length (rand_auth p) = 32" using assms(7) by simp
  define ra where "ra = random_bytes E 16 @ replicate 16 0"
  have ra: "memcpy (rand_auth p) 0 (random_bytes E 16) = ra" using assms(7) rb by (simp add: memcpy_def ra_def)
  define p1 where "p1 = p\<lparr>rand_auth := ra, p_state := PROV_CONFIRM\<rparr>"
  define w1 where "w1 = emit (Prov_write ([PROXY_PROVISIONING_PDU, PROV_CONFIRM] @ mac (conf_key p) ra) No_cb r) (set_prov r p1 w0)"
  have a0: "prov_at w0 r = Some p" using assms(1) by (simp add: w0_def)
  have "prov_data_ready E r [PROXY_PROVISIONING_PDU, PROV_INP_CMPLT] w = prov_send_confirm E r w0"
    using assms(1,2) by (simp add: prov_data_ready_def prov_rx_pub_key_def Let_def byte_at_def prov_opcodes expected_pdu_size_def w0_def)
  also have "\<dots> = Ret (w1, gatt_ok E)"
    using send_confirm_result [OF a0 assms(8) l32] unfolding ra by (simp add: w1_def p1_def)
  finally have s1: "prov_data_ready E r [PROXY_PROVISIONING_PDU, PROV_INP_CMPLT] w = Ret (w1, gatt_ok E)" .
  have a1: "prov_at w1 r = Some p1" using a0 by (simp add: w1_def)
  define p2 where "p2 = p1\<lparr>mesh_conf := c, p_state := PROV_RANDOM\<rparr>"
  define w2 where "w2 = emit (Prov_write ([PROXY_PROVISIONING_PDU, PROV_RANDOM] @ sub_bytes (rand_auth p1) 0 16) No_cb r) (set_prov r p2 w1)"
  have s2: "prov_data_ready E r ([PROXY_PROVISIONING_PDU, PROV_CONFIRM] @ c) w1 = Ret (w2, gatt_ok E)"
    using rx_confirm_result [OF a1, of c] cmac_isD(2) [OF assms(8)] by (simp add: p1_def p2_def w2_def c_def)
  have own: "sub_bytes (rand_auth p1) 0 16 = random_bytes E 16"
    by (simp add: p1_def ra_def random_bytes_def sub_bytes_def byte_at_def nth_append)
  have a2: "prov_at w2 r = Some p2" using a1 by (simp add: w2_def)
  have m: "memcpy (rand_auth p2) 0 rd = rd @ replicate 16 0"
    using assms(3) rb by (simp add: p2_def p1_def ra_def memcpy_def)
  have salt: "prov_salt_of mac (p_salt p2) (rand_auth p2) rd = salt"
    using own assms(6) sub_bytes_whole [OF rb] by (simp add: salt_def prov_salt_of_def p2_def p1_def)
  have "\<exists>w' out mic. prov_data_ready E r ([PROXY_PROVISIONING_PDU, PROV_RANDOM] @ rd) w2 = Ret (w', True) \<and>
    log w' = log w2 @ [Prov_write ([PROXY_PROVISIONING_PDU, PROV_DATA] @ out) No_cb r] \<and>
    mesh_crypto_aes_ccm_decrypt (p_alg E) (session_nonce_of mac (ecdh_secret p2) salt) (session_key_of mac (ecdh_secret p2) salt) [] out False 8 =
      Ret (prov_plain nk (p_net_idx p2) (prov_flags w2 (p_net_idx p2)) (iv_index (net w2)) (p_new_addr p2), mic)"
    using rx_random_sends [OF a2 _ assms(3,8) _ _ assms(9,10), of nk] assms(4,5,11) rb
    by (simp add: salt m) (auto simp: p2_def p1_def c_def ra_def w2_def w1_def w0_def)
  then show ?thesis
    using s1 s2 own assms(5)
    by (auto simp: c_def [symmetric] w2_def [symmetric]) (auto simp: w2_def w1_def w0_def p2_def p1_def prov_flags_def)
qed

theorem key_exchange_skipped_witness:
  "\<exists>w1 w2 w3 out. prov_data_ready demo_penv 5 [PROXY_PROVISIONING_PDU, PROV_INP_CMPLT] (demo_pworld (blank_prov\<lparr>p_state := PROV_PUB_KEY\<rparr>)) = Ret (w1, True) \<and>
    prov_data_ready demo_penv 5 ([PROXY_PROVISIONING_PDU, PROV_CONFIRM] @ demo_mac (replicate 16 0) (replicate 16 3 @ replicate 16 0)) w1 = Ret (w2, True) \<and>
    prov_data_ready demo_penv 5 ([PROXY_PROVISIONING_PDU, PROV_RANDOM] @ replicate 16 3) w2 = Ret (w3, True) \<and>
    last (log w3) = Prov_write ([PROXY_PROVISIONING_PDU, PROV_DATA] @ out) No_cb 5"
proof -
  let ?p = "blank_prov\<lparr>p_state := PROV_PUB_KEY\<rparr>"
  have p: "p_state ?p = PROV_PUB_KEY" "p_net_idx ?p = 0" "conf_key ?p = replicate 16 0" "ecdh_secret ?p = replicate 32 0" "p_salt ?p = replicate 16 0"
    "rand_auth ?p = replicate 32 0" "gatt_ok demo_penv" "length (replicate 16 3) = 16"
    by (simp_all add: blank_prov_def demo_penv_def)
  show ?thesis
    using key_exchange_skipped [of "demo_pworld ?p" 5 ?p "replicate 16 3" demo_penv demo_mac demo_E "replicate 16 1"] demo_cmac_is demo_alg_ecb demo_alg_wf
    by (simp only: p demo_pworld_facts) blast
qed


section \<open>The operations and what they write\<close>

text \<open>One step of provisioning: a call from outside, a finished write, an answer of the user.\<close>

inductive prov_step :: "prov_env \<Rightarrow> 'a pworld_scheme \<Rightarrow> 'a pworld_scheme \<Rightarrow> bool" for E where
  ps_open: "prov_open E r g i cb w = Ret (w', b) \<Longrightarrow> prov_step E w w'"
| ps_rx: "prov_data_ready E r buf w = Ret (w', b) \<Longrightarrow> prov_step E w w'"
| ps_complete: "prov_complete r status w = Ret (w', b) \<Longrightarrow> prov_step E w w'"
| ps_start: "prov_start_cmplt E r w = Ret w' \<Longrightarrow> prov_step E w w'"
| ps_ecdh: "prov_calc_ecdh E r w = Ret w' \<Longrightarrow> prov_step E w w'"
| ps_hex: "response_hexadecimal E inp w = Ret w' \<Longrightarrow> prov_step E w w'"
| ps_dec: "response_decimal E inp w = Ret w' \<Longrightarrow> prov_step E w w'"
| ps_ascii: "response_ascii E inp w = Ret w' \<Longrightarrow> prov_step E w w'"
| ps_output: "prov_step E w (response_output w)"
| ps_level: "prov_step E w (fst (prov_set_sec_level l w))"

inductive_cases prov_stepE: "prov_step E w w'"

text \<open>The two writes that need a decision: the START PDU and the provisioning data.\<close>

definition is_decided :: "effect \<Rightarrow> bool" where
  "is_decided e \<longleftrightarrow> (\<exists>op x cb r. e = Prov_write (PROXY_PROVISIONING_PDU # op # x) cb r \<and> op \<in> {PROV_START, PROV_DATA})"

text \<open>Nothing but additions to the log, and none of those among them.\<close>

definition quiet :: "'a pworld_scheme \<Rightarrow> 'b pworld_scheme \<Rightarrow> bool" where
  "quiet w w' \<longleftrightarrow> (\<exists>es. log w' = log w @ es \<and> (\<forall>e\<in>set es. \<not> is_decided e))"

lemma quiet_refl [intro]: "log w' = log w \<Longrightarrow> quiet w w'"
  by (simp add: quiet_def)

lemma quiet_emit: "\<not> is_decided e \<Longrightarrow> quiet w v \<Longrightarrow> quiet w (emit e v)"
  by (auto simp: quiet_def)

lemma quiet_trans: "quiet u v \<Longrightarrow> quiet v w \<Longrightarrow> quiet u w"
  by (fastforce simp: quiet_def)

lemma quiet_log: "log v = log v' \<Longrightarrow> quiet w v = quiet w v'"
  by (simp add: quiet_def)

lemma log_keeps [simp]:
  "log (set_prov r p w) = log w" "log (node_set_prov r q v) = log v" "log (upd_net f v) = log v"
  "log (node_set_device_key k d v) = log v" "log (node_set_primary r a v) = log v" "log (node_set_num_elements r n v) = log v"
  "log (fst (node_net_key_add k i v)) = log v"
  by (auto simp: set_prov_def node_set_prov_def upd_node_def upd_net_def node_set_device_key_def node_set_primary_def
      node_set_num_elements_def node_net_key_add_def Let_def split: option.splits)

lemma is_decided_simps [simp]:
  "is_decided (Prov_write (PROXY_PROVISIONING_PDU # op # x) cb r) \<longleftrightarrow> op = PROV_START \<or> op = PROV_DATA"
  "\<not> is_decided (Prov_done r status)" "\<not> is_decided (Agent_input t l)" "\<not> is_decided (Agent_output d)" "\<not> is_decided Agent_release"
  by (auto simp: is_decided_def)

lemma with_prov_Ret:
  "with_prov r w null f = Ret x \<Longrightarrow> (prov_at w r = None \<and> null = Ret x) \<or> (\<exists>p. prov_at w r = Some p \<and> f p = Ret x)"
  by (auto simp: with_prov_def prov_at_def split: option.splits)

lemma quiet_complete: "prov_complete r status w = Ret (w', b) \<Longrightarrow> quiet w w'"
  unfolding prov_complete_def by (drule with_prov_Ret) (auto simp: Let_def quiet_def split: if_splits)

lemma quiet_agent: "quiet w (fst (agent_input_request t l cb r w))" "quiet w (fst (agent_output_request d w))"
  "quiet w (agent_output_request_cancel w)" "quiet w (reset_input_request w)"
  by (auto simp: agent_input_request_def agent_output_request_def agent_output_request_cancel_def reset_input_request_def quiet_def)

lemma quiet_send_confirm: "prov_send_confirm E r w = Ret (w', b) \<Longrightarrow> quiet w w'"
  unfolding prov_send_confirm_def
  by (drule with_prov_Ret) (auto simp: Let_def cbind_Ret_iff gatt_write_pdu_def prov_opcodes intro!: quiet_emit)

lemma quiet_send_pub_key: "prov_send_pub_key E r w = Ret w' \<Longrightarrow> quiet w w'"
  unfolding prov_send_pub_key_def by (drule with_prov_Ret) (auto simp: Let_def prov_opcodes intro!: quiet_emit)

lemma quiet_set_prov: "quiet (set_prov r p w) w' \<longleftrightarrow> quiet w w'"
  by (simp add: quiet_def)

lemma quiet_oob_pub_key: "prov_oob_pub_key E buf r w = Ret w' \<Longrightarrow> quiet w w'"
  unfolding prov_oob_pub_key_def
  by (drule with_prov_Ret) (auto dest!: quiet_send_pub_key simp: quiet_set_prov)

lemma quiet_out_oob_done: "prov_out_oob_done E t buf r w = Ret w' \<Longrightarrow> quiet w w'"
  unfolding prov_out_oob_done_def
  by (drule with_prov_Ret, cases t)
    (auto simp: cbind_Ret_iff quiet_set_prov cguard_def split: if_splits dest!: quiet_send_confirm quiet_complete)

lemma quiet_input_oob: "input_oob E r p w = Ret w' \<Longrightarrow> quiet w w'"
  by (auto simp: input_oob_def Let_def split: if_splits intro!: quiet_agent(2) [THEN quiet_set_prov [THEN iffD1]])

lemma quiet_auth_step: "auth_step E r p w = Ret w' \<Longrightarrow> quiet w w'"
  by (auto simp: auth_step_def Let_def cbind_Ret_iff split: if_splits
      dest!: quiet_send_confirm quiet_complete quiet_input_oob intro!: quiet_agent(1))

lemma quiet_calc_ecdh: "prov_calc_ecdh E r w = Ret w' \<Longrightarrow> quiet w w'"
  unfolding prov_calc_ecdh_def
  by (drule with_prov_Ret) (auto simp: Let_def cbind_Ret_iff quiet_set_prov case_prod_beta dest!: quiet_auth_step)

lemma quiet_start_cmplt: "prov_start_cmplt E r w = Ret w' \<Longrightarrow> quiet w w'"
  unfolding prov_start_cmplt_def
  by (drule with_prov_Ret) (auto split: if_splits dest!: quiet_send_pub_key intro!: quiet_agent(1))

lemma quiet_open: "prov_open E r g i cb w = Ret (w', b) \<Longrightarrow> quiet w w'"
  by (auto simp: prov_open_def gatt_write_pdu_def Let_def prov_opcodes split: option.splits if_splits intro!: quiet_emit)

lemma quiet_call: "call_input_cb E t buf w = Ret w' \<Longrightarrow> quiet w w'"
  by (auto simp: call_input_cb_def split: option.splits input_cb.splits dest!: quiet_out_oob_done quiet_oob_pub_key)

lemma quiet_responses:
  "response_hexadecimal E inp w = Ret w' \<Longrightarrow> quiet w w'" "response_decimal E inp w = Ret w' \<Longrightarrow> quiet w w'"
  "response_ascii E inp w = Ret w' \<Longrightarrow> quiet w w'"
  by (auto simp: response_hexadecimal_def response_decimal_def response_ascii_def cbind_Ret_iff split: option.splits if_splits
      dest!: quiet_call intro: quiet_trans quiet_agent(4))

lemma make_keys_simps [simp]: "start (conf_in (make_keys E p)) = start (conf_in p)" "p_state (make_keys E p) = p_state p"
  "p_new_addr (make_keys E p) = p_new_addr p" "caps (conf_in (make_keys E p)) = caps (conf_in p)"
  by (simp_all add: make_keys_def case_prod_beta)

lemma update_first_twice: "(\<And>x. P x \<Longrightarrow> P (g x)) \<Longrightarrow> update_first P f (update_first P g xs) = update_first P (\<lambda>x. f (g x)) xs"
  by (induction xs) auto

lemma set_prov_set [simp]: "set_prov r q (set_prov r p w) = set_prov r q w"
  by (simp add: set_prov_def node_set_prov_def upd_node_def update_first_twice)

lemma upd_net_set_prov [simp]: "upd_net f (set_prov r p w) = set_prov r p (upd_net f w)"
  by (simp add: upd_net_def set_prov_def node_set_prov_def upd_node_def)

lemma upd_net_id: "upd_net (\<lambda>n. n) w = w"
  by (simp add: upd_net_def)

lemma rx_caps_cases:
  assumes "prov_rx_caps E r p0 buf w0 = Ret (w', b)"
  obtains (refused) q f where "invalid_pdu r (set_prov r q (upd_net f w0)) = Ret (w', b)"
  | (started) p pool a where "p = p0\<lparr>conf_in := (conf_in p0)\<lparr>caps := drop 1 buf\<rparr>\<rparr>"
      "sec_level_ok (prov_sec_level w0) p" "caps_ok p"
      "net_obtain_address (caps_num_ele p) (address_pool (net w0)) = (pool, a)" "a \<noteq> 0"
      "w' = emit (Prov_write ([PROXY_PROVISIONING_PDU, PROV_START] @ start_bytes (choose_start p)) Prov_start_cmplt r)
        (set_prov r (make_keys E (p\<lparr>p_new_addr := a, conf_in := (conf_in p)\<lparr>start := choose_start p\<rparr>, p_state := PROV_START\<rparr>))
          (upd_net (\<lambda>n. n\<lparr>address_pool := pool\<rparr>) w0))"
      "auth_size (choose_start p) \<le> 8"
proof -
  define p where "p = p0\<lparr>conf_in := (conf_in p0)\<lparr>caps := drop 1 buf\<rparr>\<rparr>"
  obtain pool a where o: "net_obtain_address (caps_num_ele p) (address_pool (net w0)) = (pool, a)" by fastforce
  have c: "choose_start (p\<lparr>p_new_addr := a\<rparr>) = choose_start p"
    by (simp add: choose_start_def Let_def caps_pub_type_def caps_static_type_def caps_output_size_def caps_input_size_def)
  note r0 = that(1) [of _ "\<lambda>n. n", unfolded upd_net_id]
  note r1 = that(1) [of _ "\<lambda>n. n\<lparr>address_pool := pool\<rparr>"]
  show ?thesis
    using assms that(2) [OF p_def _ _ o] r0 r1
    unfolding prov_rx_caps_def p_def [symmetric] Let_def
    by (auto simp: o c prov_get_sec_level_def gatt_write_pdu_def not_less split: if_splits)
qed

definition caps_accepted :: "prov_env \<Rightarrow> nat \<Rightarrow> bytes \<Rightarrow> 'a pworld_scheme \<Rightarrow> 'a pworld_scheme \<Rightarrow> bool" where
  "caps_accepted E r buf w w' \<longleftrightarrow>
     (\<exists>p s. prov_at w' r = Some p \<and> s = start (conf_in p) \<and>
       log w' = log w @ [Prov_write ([PROXY_PROVISIONING_PDU, PROV_START] @ start_bytes s) Prov_start_cmplt r] \<and>
       caps (conf_in p) = drop 1 buf \<and> sec_level_ok (prov_sec_level w) p \<and> caps_ok p \<and> p_state p = PROV_START \<and>
       net_obtain_address (caps_num_ele p) (address_pool (net w)) = (address_pool (net w'), p_new_addr p) \<and> p_new_addr p \<noteq> 0 \<and>
       s = choose_start p \<and> auth_size s \<le> 8)"

lemma quiet_rx_caps:
  assumes "prov_rx_caps E r p buf w = Ret (w', b)" "prov_at w r = Some p"
  shows "quiet w w' \<or> caps_accepted E r buf w w'"
  using assms(1)
proof (cases rule: rx_caps_cases)
  case (refused q f)
  then show ?thesis by (auto simp: invalid_pdu_def quiet_set_prov dest!: quiet_complete) (auto simp: quiet_def upd_net_def)
next
  case (started q pool a)
  have n: "node_at w r \<noteq> None" using assms(2) by (auto simp: prov_at_Some)
  define q' where "q' = make_keys E (q\<lparr>p_new_addr := a, conf_in := (conf_in q)\<lparr>start := choose_start q\<rparr>, p_state := PROV_START\<rparr>)"
  have c: "caps (conf_in q') = caps (conf_in q)" "start (conf_in q') = choose_start q" "p_new_addr q' = a" "p_state q' = PROV_START"
    by (simp_all add: q'_def)
  have "prov_at w' r = Some q'" using n unfolding started(6) q'_def [symmetric] by (auto simp: prov_at_set_prov upd_net_def node_at_def)
  moreover have "choose_start q' = choose_start q"
    unfolding choose_start_def [of q'] c Let_def caps_pub_type_def caps_static_type_def caps_output_size_def caps_input_size_def
    by (auto simp: choose_start_def Let_def caps_pub_type_def caps_static_type_def caps_output_size_def caps_input_size_def)
  ultimately show ?thesis
    using started c
    by (auto simp: caps_accepted_def sec_level_ok_def caps_ok_def caps_num_ele_def caps_pub_type_def caps_static_type_def
        caps_output_size_def caps_input_size_def upd_net_def)
qed

lemma quiet_rx_pub_key: "prov_rx_pub_key E r p buf w = Ret (w', b) \<Longrightarrow> quiet w w'"
  by (auto simp: prov_rx_pub_key_def invalid_pdu_def cbind_Ret_iff quiet_set_prov split: if_splits
      dest!: quiet_complete quiet_calc_ecdh quiet_send_confirm intro: quiet_trans [OF quiet_agent(3)])

lemma quiet_rx_confirm: "prov_rx_confirm E r p buf w = Ret (w', b) \<Longrightarrow> quiet w w'"
  by (auto simp: prov_rx_confirm_def invalid_pdu_def gatt_write_pdu_def cbind_Ret_iff prov_opcodes split: if_splits
      dest!: quiet_complete intro!: quiet_emit)

text \<open>The one place where the data are written: a device random number that the confirmation answers.\<close>

definition confirmed :: "prov_env \<Rightarrow> nat \<Rightarrow> bytes \<Rightarrow> 'a pworld_scheme \<Rightarrow> 'a pworld_scheme \<Rightarrow> bool" where
  "confirmed E r buf w w' \<longleftrightarrow>
     (\<exists>p out. prov_at w r = Some p \<and> p_state p = PROV_RANDOM \<and> length buf = 18 \<and> byte_at buf 1 = PROV_RANDOM \<and>
       kept (replicate 16 0) (mesh_crypto_aes_cmac (p_alg E) (conf_key p) (memcpy (rand_auth p) 0 (sub_bytes buf 2 16))) =
         Ret (mesh_conf p) \<and> log w' = log w @ [Prov_write (PROXY_PROVISIONING_PDU # PROV_DATA # out) No_cb r])"

lemma send_prov_data_log:
  "prov_send_prov_data E r w = Ret (w', b) \<Longrightarrow>
    log w' = log w \<or> (\<exists>out. log w' = log w @ [Prov_write (PROXY_PROVISIONING_PDU # PROV_DATA # out) No_cb r])"
  unfolding prov_send_prov_data_def
  by (drule with_prov_Ret) (auto simp: Let_def cbind_Ret_iff gatt_write_pdu_def split: option.splits)

lemma quiet_rx_random:
  assumes "prov_rx_random E r p buf w = Ret (w', b)"
  shows "quiet w w' \<or> byte_at buf 0 = PROV_RANDOM \<and>
    kept (replicate 16 0) (mesh_crypto_aes_cmac (p_alg E) (conf_key p) (memcpy (rand_auth p) 0 (sub_bytes buf 1 16))) = Ret (mesh_conf p) \<and>
    (\<exists>out. log w' = log w @ [Prov_write (PROXY_PROVISIONING_PDU # PROV_DATA # out) No_cb r])"
  using assms
  by (auto simp: prov_rx_random_def invalid_pdu_def cbind_Ret_iff Let_def quiet_set_prov split: if_splits
      dest!: quiet_complete send_prov_data_log intro: quiet_refl)

lemma quiet_data_ready:
  assumes "prov_data_ready E r buf w = Ret (w', b)"
  shows "quiet w w' \<or> confirmed E r buf w w' \<or> caps_accepted E r (drop 1 buf) w w'"
proof -
  have "w' = w \<or> (\<exists>p. prov_at w r = Some p \<and> 2 \<le> length buf)"
    using assms [unfolded prov_data_ready_def, THEN with_prov_Ret] by (auto split: if_splits)
  with assms data_ready_eq [of w r _ buf E]
  consider "w' = w" | p where "prov_at w r = Some p" "length buf \<ge> 2"
      "(let buf = drop 1 buf; op = byte_at buf 0 in
         if op > PROV_FAILED \<or> expected_pdu_size op \<noteq> length buf then invalid_pdu r w
         else if op = PROV_FAILED then prov_complete r (byte_at buf 1) w
         else if p_state p = PROV_INVITE then (if op \<noteq> PROV_CAPS then invalid_pdu r w else prov_rx_caps E r p buf w)
         else if p_state p = PROV_PUB_KEY then prov_rx_pub_key E r p buf w
         else if p_state p = PROV_CONFIRM then prov_rx_confirm E r p buf w
         else if p_state p = PROV_RANDOM then prov_rx_random E r p buf w
         else if p_state p = PROV_DATA then (if op \<noteq> PROV_COMPLETE then invalid_pdu r w else prov_complete r 0 w)
         else invalid_pdu r w) = Ret (w', b)"
    by fastforce
  then show ?thesis
  proof cases
    case 1 then show ?thesis by auto
  next
    case (2 p)
    let ?b = "drop 1 buf"
    have b: "sub_bytes ?b 1 16 = sub_bytes buf 2 16" "byte_at ?b 0 = byte_at buf 1"
      using 2(2) by (auto simp: sub_bytes_def byte_at_def)
    show ?thesis
    proof (cases "p_state p = PROV_RANDOM \<and> prov_rx_random E r p ?b w = Ret (w', b) \<and> expected_pdu_size (byte_at ?b 0) = length ?b")
      case True
      then have "prov_rx_random E r p ?b w = Ret (w', b)" by simp
      from quiet_rx_random [OF this] True 2(1,2) b show ?thesis
        by (auto simp: confirmed_def expected_pdu_size_def prov_opcodes)
    next
      case False
      with 2(3) have "quiet w w' \<or> caps_accepted E r ?b w w'"
        by (auto simp: Let_def invalid_pdu_def simp del: One_nat_def drop_Suc split: if_splits
            dest: quiet_complete quiet_rx_caps [OF _ 2(1)] quiet_rx_pub_key quiet_rx_confirm)
      then show ?thesis by blast
    qed
  qed
qed

lemma quiet_step: "prov_step E w w' \<Longrightarrow> quiet w w' \<or>
    (\<exists>r buf b. prov_data_ready E r buf w = Ret (w', b) \<and> (confirmed E r buf w w' \<or> caps_accepted E r (drop 1 buf) w w'))"
  by (erule prov_stepE)
    (auto dest: quiet_open quiet_data_ready quiet_complete quiet_start_cmplt quiet_calc_ecdh quiet_responses
      simp: response_output_def quiet_agent prov_set_sec_level_def simp del: One_nat_def)

text \<open>
  C2. Provisioning data leave only after the confirmation. Whatever happens,
  an opened session, a PDU, a finished write, an answer of the user, no
  provisioning data are written, except when the device's random number arrives
  in the state that waits for it and the confirmation received before is the CMAC
  of that number and the authentication value under the confirmation key (or 16
  zero octets, when the cipher fails).
\<close>

theorem prov_data_only_after_confirmation:
  assumes "prov_step E w w'" and "Prov_write (PROXY_PROVISIONING_PDU # PROV_DATA # x) cb r' \<in> set (drop (length (log w)) (log w'))"
  shows "\<exists>r buf b p. prov_data_ready E r buf w = Ret (w', b) \<and> prov_at w r = Some p \<and> p_state p = PROV_RANDOM \<and>
    length buf = 18 \<and> byte_at buf 1 = PROV_RANDOM \<and>
    kept (replicate 16 0) (mesh_crypto_aes_cmac (p_alg E) (conf_key p) (memcpy (rand_auth p) 0 (sub_bytes buf 2 16))) = Ret (mesh_conf p)"
proof -
  have "\<not> quiet w w'" using assms(2) by (fastforce simp: quiet_def is_decided_def)
  moreover have "\<not> caps_accepted E r buf w w'" for r buf
    using assms(2) by (auto simp: caps_accepted_def PROV_START_def PROV_DATA_def)
  ultimately show ?thesis using quiet_step [OF assms(1)] unfolding confirmed_def by blast
qed

theorem prov_data_only_after_confirmation_witness:
  "\<exists>w' r buf b p. prov_step demo_penv (demo_pworld demo_random) w' \<and> log w' \<noteq> [] \<and>
    prov_data_ready demo_penv r buf (demo_pworld demo_random) = Ret (w', b) \<and> prov_at (demo_pworld demo_random) r = Some p \<and> p_state p = PROV_RANDOM"
proof -
  from rx_random_sends [of "demo_pworld demo_random" 5 demo_random "replicate 16 3" demo_penv demo_mac demo_E "replicate 16 1"]
    demo_cmac_is demo_alg_ecb demo_alg_wf obtain w' out where
    r: "prov_data_ready demo_penv 5 ([PROXY_PROVISIONING_PDU, PROV_RANDOM] @ replicate 16 3) (demo_pworld demo_random) = Ret (w', True)"
      "log w' = [Prov_write ([PROXY_PROVISIONING_PDU, PROV_DATA] @ out) No_cb 5]"
    by (simp only: demo_random_facts demo_pworld_facts length_replicate simp_thms append_Nil) blast
  have s: "prov_step demo_penv (demo_pworld demo_random) w'" using r(1) by (rule ps_rx)
  have "Prov_write (PROXY_PROVISIONING_PDU # PROV_DATA # out) No_cb 5 \<in> set (drop (length (log (demo_pworld demo_random))) (log w'))"
    and "log w' \<noteq> []" using r(2) by simp_all
  from prov_data_only_after_confirmation [OF s this(1)] this(2) s show ?thesis by blast
qed


text \<open>
  C8. The security level is enforced. Whatever happens, a START PDU leaves only
  when the capabilities of the device fit the level and an address was obtained
  for as many elements as the device has; the PDU carries the method chosen, which
  with the high level is out-of-band data (a public key or a static value), with the
  medium level that or an exchange with the user, of at most 8 digits.
\<close>

theorem security_level_enforced:
  assumes "prov_step E w w'" and "Prov_write (PROXY_PROVISIONING_PDU # PROV_START # x) cb r \<in> set (drop (length (log w)) (log w'))"
  shows "\<exists>p s. prov_at w' r = Some p \<and> s = start (conf_in p) \<and> x = start_bytes s \<and>
    sec_level_ok (prov_sec_level w) p \<and> caps_ok p \<and> p_state p = PROV_START \<and>
    net_obtain_address (caps_num_ele p) (address_pool (net w)) = (address_pool (net w'), p_new_addr p) \<and> p_new_addr p \<noteq> 0 \<and>
    (prov_sec_level w = MESH_PROV_SEC_HIGH \<longrightarrow> start_pub_key s = 1 \<or> auth_method s = 1) \<and>
    (prov_sec_level w = MESH_PROV_SEC_MED \<longrightarrow> start_pub_key s = 1 \<or> auth_method s \<in> {1, 2, 3}) \<and> auth_size s \<le> 8"
proof -
  have "\<not> quiet w w'" using assms(2) by (fastforce simp: quiet_def is_decided_def)
  with quiet_step [OF assms(1)] consider (data) r' buf b where "prov_data_ready E r' buf w = Ret (w', b)" "confirmed E r' buf w w'"
    | (caps) r' buf where "caps_accepted E r' buf w w'" by blast
  then show ?thesis
  proof cases
    case caps
    then obtain p s where *: "prov_at w' r' = Some p" "s = start (conf_in p)"
      "log w' = log w @ [Prov_write ([PROXY_PROVISIONING_PDU, PROV_START] @ start_bytes s) Prov_start_cmplt r']"
      "sec_level_ok (prov_sec_level w) p" "caps_ok p" "p_state p = PROV_START"
      "net_obtain_address (caps_num_ele p) (address_pool (net w)) = (address_pool (net w'), p_new_addr p)" "p_new_addr p \<noteq> 0"
      "s = choose_start p" "auth_size s \<le> 8" unfolding caps_accepted_def by blast
    have "prov_sec_level w = MESH_PROV_SEC_HIGH \<longrightarrow> start_pub_key s = 1 \<or> auth_method s = 1"
      using *(4) by (auto simp: *(9) sec_level_ok_def choose_start_def Let_def)
    moreover have "prov_sec_level w = MESH_PROV_SEC_MED \<longrightarrow> start_pub_key s = 1 \<or> auth_method s \<in> {1, 2, 3}"
      using *(4) by (auto simp: *(9) sec_level_ok_def choose_start_def Let_def MESH_PROV_SEC_HIGH_def MESH_PROV_SEC_MED_def word_neq_0_conv)
    ultimately show ?thesis using * assms(2) by auto
  next
    case data
    then show ?thesis using assms(2) by (auto simp: confirmed_def PROV_START_def PROV_DATA_def)
  qed
qed

theorem security_level_enforced_witness:
  "\<exists>w' p. prov_data_ready demo_penv 5 [3, 1, 1, 0, 1, 1, 0, 0, 0, 0, 0, 0, 0] (demo_pworld blank_prov) = Ret (w', True) \<and>
    prov_at w' 5 = Some p \<and> caps_ok p \<and> start_pub_key (start (conf_in p)) = 1 \<and> p_new_addr p \<noteq> 0"
proof -
  have "case prov_data_ready demo_penv 5 [3, 1, 1, 0, 1, 1, 0, 0, 0, 0, 0, 0, 0] (demo_pworld blank_prov) of
      Ret (w, b) \<Rightarrow> b \<and> log w = [Prov_write [3, 2, 0, 1, 0, 0, 0] Prov_start_cmplt 5] | _ \<Rightarrow> False" by code_simp
  then obtain w' where r: "prov_data_ready demo_penv 5 [3, 1, 1, 0, 1, 1, 0, 0, 0, 0, 0, 0, 0] (demo_pworld blank_prov) = Ret (w', True)"
    "log w' = [Prov_write (PROXY_PROVISIONING_PDU # PROV_START # [0, 1, 0, 0, 0]) Prov_start_cmplt 5]"
    by (auto simp: PROXY_PROVISIONING_PDU_def PROV_START_def split: cres.splits)
  from security_level_enforced [OF ps_rx [OF r(1)], of "[0, 1, 0, 0, 0]" Prov_start_cmplt 5] r show ?thesis
    by (auto simp: start_bytes_def)
qed


end
