(* ===== verification/Mesh_ProvInv.thy ===== *)
theory Mesh_ProvInv
  imports Mesh_ProvSafety
begin

text \<open>
  An invariant of the data of a provisioning, kept by every step, and what rests
  on it: no PDU makes the receiving side of \<^verbatim>\<open>prov.c\<close> leave its buffers or follow
  a bad pointer, and the security level holds for what is agreed with a device.
\<close>

section \<open>Lengths of results\<close>

lemma kept_Ret_cases: "kept old m = Ret x \<longleftrightarrow> m = Ret x \<or> m = Fail \<and> x = old"
  by (cases m) auto

lemma kept_not_Fault: "m \<noteq> Fault \<Longrightarrow> kept old m \<noteq> Fault"
  by (cases m) auto

lemma cmac_length: "alg_wf A \<Longrightarrow> aes_cmac_one A k m = Ret x \<Longrightarrow> length x = 16"
  by (auto simp: aes_cmac_one_def aes_cmac_def alg_wf_def split: if_splits)

lemma cmac_not_Fault: "aes_cmac_one A k m \<noteq> Fault"
  by (simp add: aes_cmac_one_def aes_cmac_def)

lemma cbind_cmac_not_Fault: "(\<And>x. f x \<noteq> Fault) \<Longrightarrow> cbind (aes_cmac_one A k m) f \<noteq> Fault"
  by (rule cbind_not_Fault [OF cmac_not_Fault]) simp

lemma key_not_Fault:
  "mesh_crypto_session_key A s t \<noteq> Fault" "mesh_crypto_nonce A s t \<noteq> Fault" "mesh_crypto_device_key A s t \<noteq> Fault"
  "mesh_crypto_prov_conf_key A s t \<noteq> Fault" "mesh_crypto_s1 A m \<noteq> Fault" "mesh_crypto_prov_prov_salt A a b c \<noteq> Fault"
  "mesh_crypto_aes_cmac A k m \<noteq> Fault"
  by (simp_all add: mesh_crypto_session_key_def mesh_crypto_nonce_def mesh_crypto_device_key_def mesh_crypto_prov_conf_key_def
      mesh_crypto_s1_def mesh_crypto_prov_prov_salt_def mesh_crypto_aes_cmac_def cmac_not_Fault cbind_cmac_not_Fault)

lemma key_length:
  assumes "alg_wf A"
  shows "mesh_crypto_device_key A s t = Ret x \<Longrightarrow> length x = 16" "mesh_crypto_prov_conf_key A s t = Ret x \<Longrightarrow> length x = 16"
    "mesh_crypto_s1 A m = Ret x \<Longrightarrow> length x = 16" "mesh_crypto_prov_prov_salt A a b c = Ret x \<Longrightarrow> length x = 16"
  using cmac_length [OF assms]
  by (auto simp: mesh_crypto_device_key_def mesh_crypto_prov_conf_key_def mesh_crypto_s1_def mesh_crypto_prov_prov_salt_def cbind_Ret_iff)

lemma ecdh_length: "ecdh_shared_secret rnd pk priv = (Some s, ok) \<Longrightarrow> length s = 32"
  by (auto simp: ecdh_shared_secret_def Let_def split: option.splits if_splits)

lemma make_key_length: "ecc_make_key rnd junk = Some (pk, priv) \<Longrightarrow> length pk = 64 \<and> length priv = 32"
  by (auto simp: ecc_make_key_def split: option.splits)

lemma length_swap_pub_key [simp]: "length (swap_pub_key b) = 64"
  by (simp add: swap_pub_key_def)

lemma ccm_not_Fault: "unat n \<le> length msg \<Longrightarrow> mic_size \<le> 16 \<Longrightarrow> mesh_crypto_aes_ccm_encrypt A nonce k [] msg n mic_size \<noteq> Fault"
proof -
  have ecb: "aes_ecb A k b \<noteq> Fault" for b by (simp add: aes_ecb_def)
  have loop: "ccm_enc_loop A k nonce msg L cmic r j Xn mic0 \<noteq> Fault" for L cmic r j Xn mic0
    by (induction r arbitrary: j Xn mic0)
      (simp, simp add: Let_def del: cbind.simps, intro cbind_not_Fault ecb, auto simp: case_prod_beta)
  have fin: "cbind (ccm_enc_loop A k nonce msg L cmic r j Xn mic0) (\<lambda>(out, mic). Ret (out @ take m mic, mic)) \<noteq> Fault" for L cmic r j Xn mic0 m
    by (intro cbind_not_Fault loop) (auto simp: case_prod_beta)
  assume "unat n \<le> length msg" "mic_size \<le> 16"
  then show ?thesis
    by (simp add: mesh_crypto_aes_ccm_encrypt_def ccm_start_def Let_def)
      (intro conjI impI cbind_not_Fault ecb; auto simp: fin)
qed

section \<open>The invariant\<close>

text \<open>
  Buffers have their lengths and the state is one of the protocol's. From the START
  PDU on, an address has been obtained, the device has elements, and the
  authentication chosen fits the buffers and the capabilities.
\<close>

definition prov_ok :: "prov_data \<Rightarrow> bool" where
  "prov_ok p \<longleftrightarrow>
     length (rand_auth p) = 32 \<and> length (ecdh_secret p) = 32 \<and> length (p_salt p) = 16 \<and> length (conf_key p) = 16 \<and>
     length (mesh_conf p) = 16 \<and> length (p_dev_key p) = 16 \<and> length (eph_priv_key p) = 32 \<and>
     length (caps (conf_in p)) = 11 \<and> length (prv_pub_key (conf_in p)) = 64 \<and> length (dev_pub_key (conf_in p)) = 64 \<and>
     auth_size (start (conf_in p)) \<le> 8 \<and>
     p_state p \<in> {PROV_INVITE, PROV_START, PROV_PUB_KEY, PROV_CONFIRM, PROV_RANDOM, PROV_DATA}"

lemma prov_okD:
  assumes "prov_ok p"
  shows "length (rand_auth p) = 32" "length (ecdh_secret p) = 32" "length (p_salt p) = 16" "length (conf_key p) = 16"
    "length (mesh_conf p) = 16" "length (p_dev_key p) = 16" "length (eph_priv_key p) = 32"
    "length (caps (conf_in p)) = 11" "length (prv_pub_key (conf_in p)) = 64" "length (dev_pub_key (conf_in p)) = 64"
    "auth_size (start (conf_in p)) \<le> 8"
  using assms by (auto simp: prov_ok_def)

lemma blank_prov_ok: "prov_ok (blank_prov\<lparr>p_in := i, p_net_idx := n, p_done := d, conf_in := (conf_in blank_prov)\<lparr>attention := a\<rparr>, p_state := PROV_INVITE\<rparr>)"
  by (simp add: prov_ok_def blank_prov_def)

definition prov_inv :: "'a pworld_scheme \<Rightarrow> bool" where
  "prov_inv w \<longleftrightarrow> (\<forall>r p. prov_at w r = Some p \<longrightarrow> prov_ok p)"

lemma prov_invD: "prov_inv w \<Longrightarrow> prov_at w r = Some p \<Longrightarrow> prov_ok p"
  by (auto simp: prov_inv_def)

lemma prov_inv_set: "prov_inv w \<Longrightarrow> prov_ok p \<Longrightarrow> prov_inv (set_prov r p w)"
  by (auto simp: prov_inv_def prov_at_set_prov split: if_splits)

lemma prov_inv_emit [simp]: "prov_inv (emit e w) = prov_inv w"
  by (simp add: prov_inv_def)

lemma prov_inv_net [simp]: "prov_inv (upd_net f w) = prov_inv w" "prov_inv (w\<lparr>pending_request := q\<rparr>) = prov_inv w"
  "prov_inv (w\<lparr>prov_sec_level := l\<rparr>) = prov_inv w"
  by (simp_all add: upd_net_def prov_inv_def prov_at_def node_at_def)

lemma prov_inv_agent [simp]: "prov_inv (fst (agent_input_request t l cb r w)) = prov_inv w"
  "prov_inv (fst (agent_output_request d w)) = prov_inv w" "prov_inv (agent_output_request_cancel w) = prov_inv w"
  "prov_inv (reset_input_request w) = prov_inv w" "prov_inv (response_output w) = prov_inv w"
  by (auto simp: agent_input_request_def agent_output_request_def agent_output_request_cancel_def reset_input_request_def
      response_output_def)

lemma prov_at_upd_node: "(\<And>n. nref (f n) = nref n \<and> n_prov (f n) = n_prov n) \<Longrightarrow> prov_at (upd_node k f w) r = prov_at w r"
  unfolding prov_at_def by (subst node_at_upd) (auto, cases "node_at w k", auto)

lemma prov_inv_node [simp]:
  "prov_inv (node_set_device_key k d w) = prov_inv w" "prov_inv (node_set_primary r a w) = prov_inv w"
  "prov_inv (node_set_num_elements r n w) = prov_inv w" "prov_inv (fst (node_net_key_add k i w)) = prov_inv w"
  by (auto simp: prov_inv_def node_set_device_key_def node_set_primary_def node_set_num_elements_def node_net_key_add_def
      prov_at_upd_node split: option.splits)

lemma prov_at_node [simp]:
  "prov_at (node_set_device_key q d w) k = prov_at w k" "prov_at (node_set_primary r a w) k = prov_at w k"
  "prov_at (node_set_num_elements r n w) k = prov_at w k" "prov_at (fst (node_net_key_add q i w)) k = prov_at w k"
  by (auto simp: node_set_device_key_def node_set_primary_def node_set_num_elements_def node_net_key_add_def
      prov_at_upd_node split: option.splits)

lemma prov_at_upd_net [simp]: "prov_at (upd_net f w) k = prov_at w k"
  by (simp add: upd_net_def prov_at_def node_at_def)

lemma prov_at_free: "prov_at (node_set_prov r None w) k = (if k = r then None else prov_at w k)"
  by (cases "node_at w r") (auto simp: prov_at_def node_at_set_prov)

text \<open>Whatever the status, the end of a provisioning frees its data and no other.\<close>

lemma complete_prov_at: "prov_complete r status w = Ret (w', b) \<Longrightarrow> prov_at w' k = (if k = r then None else prov_at w k)"
  unfolding prov_complete_def by (drule with_prov_Ret) (auto simp: Let_def prov_at_free)

lemma inv_complete: "prov_complete r status w = Ret (w', b) \<Longrightarrow> prov_inv w \<Longrightarrow> prov_inv w'"
  by (auto simp: prov_inv_def complete_prov_at split: if_splits)

lemma inv_complete_set: "prov_complete r status (set_prov r q w) = Ret (w', b) \<Longrightarrow> prov_inv w \<Longrightarrow> prov_inv w'"
  by (auto simp: prov_inv_def complete_prov_at prov_at_set_prov split: if_splits)

lemma inv_open: "prov_open E r g i cb w = Ret (w', b) \<Longrightarrow> prov_inv w \<Longrightarrow> prov_inv w'"
  by (auto simp: prov_open_def gatt_write_pdu_def Let_def split: option.splits if_splits intro!: prov_inv_set blank_prov_ok)

lemma inv_send_confirm:
  assumes "prov_send_confirm E r w = Ret (w', b)" "prov_inv w" "alg_wf (p_alg E)"
  shows "prov_inv w'"
proof -
  have i: "prov_inv (set_prov r (p\<lparr>rand_auth := memcpy (rand_auth p) 0 x, p_state := PROV_CONFIRM\<rparr>) w)"
    if "prov_at w r = Some p" for p x
    using prov_invD [OF assms(2) that] by (intro prov_inv_set [OF assms(2)]) (simp add: prov_ok_def)
  then show ?thesis
    using assms(1) [unfolded prov_send_confirm_def, THEN with_prov_Ret] assms(2)
    by (auto simp: Let_def cbind_Ret_iff gatt_write_pdu_def)
qed

lemma inv_send_pub_key:
  assumes "prov_send_pub_key E r w = Ret w'" "prov_inv w"
  shows "prov_inv w'"
proof -
  have "prov_inv (set_prov r (p\<lparr>p_state := PROV_PUB_KEY\<rparr>) w)" if "prov_at w r = Some p" for p
    using prov_invD [OF assms(2) that] by (intro prov_inv_set [OF assms(2)]) (simp add: prov_ok_def)
  then show ?thesis
    using assms(1) [unfolded prov_send_pub_key_def, THEN with_prov_Ret] assms(2) by (auto simp: Let_def)
qed

lemma prov_ok_dev_key: "prov_ok p \<Longrightarrow> prov_ok (p\<lparr>conf_in := (conf_in p)\<lparr>dev_pub_key := sub_bytes buf i 64\<rparr>\<rparr>)"
  by (simp add: prov_ok_def)

lemma inv_oob_pub_key:
  assumes "prov_oob_pub_key E buf r w = Ret w'" "prov_inv w"
  shows "prov_inv w'"
  using assms(1) [unfolded prov_oob_pub_key_def, THEN with_prov_Ret] assms(2)
  by (elim disjE exE conjE) (simp, erule inv_send_pub_key, rule prov_inv_set, assumption, rule prov_ok_dev_key, rule prov_invD)

lemma inv_rand_auth: "prov_ok p \<Longrightarrow> length ra = 32 \<Longrightarrow> prov_ok (p\<lparr>rand_auth := ra\<rparr>)"
  by (simp add: prov_ok_def)

lemma inv_out_oob_done:
  assumes "prov_out_oob_done E t buf r w = Ret w'" "prov_inv w" "alg_wf (p_alg E)"
  shows "prov_inv w'"
proof -
  have i: "prov_inv (set_prov r (p\<lparr>rand_auth := memcpy (rand_auth p) k buf\<rparr>) w)" if "prov_at w r = Some p" "k \<le> 32" for p k
    using prov_invD [OF assms(2) that(1)] that(2) by (intro prov_inv_set [OF assms(2)] inv_rand_auth) (auto simp: prov_okD)
  from assms(1) [unfolded prov_out_oob_done_def, THEN with_prov_Ret] assms(2,3) show ?thesis
    by (cases t) (auto simp: cbind_Ret_iff dest!: inv_complete inv_send_confirm [OF _ i])
qed

lemma inv_auth_step:
  assumes "auth_step E r p w = Ret w'" "prov_inv w" "alg_wf (p_alg E)" "prov_ok p"
  shows "prov_inv w'"
  using assms
  by (auto simp: auth_step_def input_oob_def Let_def cbind_Ret_iff split: if_splits
      dest!: inv_complete inv_send_confirm intro!: prov_inv_set inv_rand_auth simp: prov_okD)

lemma prov_ok_secret:
  assumes "prov_ok p" "alg_wf A" "kept (p_salt p) (mesh_crypto_s1 A m) = Ret salt"
    "kept (conf_key p) (mesh_crypto_prov_conf_key A s salt) = Ret ck" "length s = 32"
  shows "prov_ok (p\<lparr>ecdh_secret := s, p_salt := salt, conf_key := ck\<rparr>)"
  using assms key_length [OF assms(2)] by (auto simp: prov_ok_def kept_Ret_cases)

lemma length_secret:
  assumes "ecdh_shared_secret rnd pk priv = (secret, ok)" "prov_ok p"
  shows "length (swap_u256_bytes (case secret of None \<Rightarrow> ecdh_secret p | Some s \<Rightarrow> s)) = 32"
  using assms ecdh_length [of rnd pk priv] by (auto simp: prov_okD split: option.splits)

lemma inv_calc_ecdh:
  assumes "prov_calc_ecdh E r w = Ret w'" "prov_inv w" "alg_wf (p_alg E)"
  shows "prov_inv w'"
proof -
  from assms(1) [unfolded prov_calc_ecdh_def, THEN with_prov_Ret] obtain p where p: "prov_at w r = Some p" and
    *: "(let (secret, ok) = ecdh_shared_secret (dh_rnd E) (swap_pub_key (dev_pub_key (conf_in p))) (eph_priv_key p);
           s = swap_u256_bytes (case secret of None \<Rightarrow> ecdh_secret p | Some s \<Rightarrow> s)
       in cbind (kept (p_salt p) (mesh_crypto_s1 (p_alg E) (conf_in_bytes (conf_in p)))) (\<lambda>salt.
          cbind (kept (conf_key p) (mesh_crypto_prov_conf_key (p_alg E) s salt)) (\<lambda>ck.
            let p1 = p\<lparr>ecdh_secret := s, p_salt := salt, conf_key := ck\<rparr>
            in auth_step E r p1 (set_prov r p1 w)))) = Ret w'" by auto
  have ok: "prov_ok p" by (rule prov_invD [OF assms(2) p])
  obtain secret res where e: "ecdh_shared_secret (dh_rnd E) (swap_pub_key (dev_pub_key (conf_in p))) (eph_priv_key p) = (secret, res)"
    by fastforce
  from * e obtain salt ck s where s: "s = swap_u256_bytes (case secret of None \<Rightarrow> ecdh_secret p | Some s \<Rightarrow> s)"
    "kept (p_salt p) (mesh_crypto_s1 (p_alg E) (conf_in_bytes (conf_in p))) = Ret salt"
    "kept (conf_key p) (mesh_crypto_prov_conf_key (p_alg E) s salt) = Ret ck"
    "auth_step E r (p\<lparr>ecdh_secret := s, p_salt := salt, conf_key := ck\<rparr>)
       (set_prov r (p\<lparr>ecdh_secret := s, p_salt := salt, conf_key := ck\<rparr>) w) = Ret w'"
    by (auto simp: Let_def cbind_Ret_iff)
  have "prov_ok (p\<lparr>ecdh_secret := s, p_salt := salt, conf_key := ck\<rparr>)"
    using length_secret [OF e ok] by (intro prov_ok_secret [OF ok assms(3) s(2,3)]) (simp add: s(1))
  then show ?thesis by (intro inv_auth_step [OF s(4) prov_inv_set [OF assms(2)] assms(3)])
qed

lemma inv_start_cmplt: "prov_start_cmplt E r w = Ret w' \<Longrightarrow> prov_inv w \<Longrightarrow> prov_inv w'"
  unfolding prov_start_cmplt_def by (drule with_prov_Ret) (auto split: if_splits dest!: inv_send_pub_key)

lemma inv_call:
  assumes "call_input_cb E t buf w = Ret w'" "prov_inv w" "alg_wf (p_alg E)"
  shows "prov_inv w'"
  using assms by (auto simp: call_input_cb_def split: option.splits input_cb.splits dest!: inv_out_oob_done inv_oob_pub_key)

lemma inv_responses:
  assumes "prov_inv w" "alg_wf (p_alg E)"
  shows "response_hexadecimal E inp w = Ret w' \<Longrightarrow> prov_inv w'" "response_decimal E inp w = Ret w' \<Longrightarrow> prov_inv w'"
    "response_ascii E inp w = Ret w' \<Longrightarrow> prov_inv w'"
  using assms
  by (auto simp: response_hexadecimal_def response_decimal_def response_ascii_def cbind_Ret_iff split: option.splits if_splits
      dest!: inv_call)

lemma prov_ok_caps: "prov_ok p \<Longrightarrow> length b = 12 \<Longrightarrow> prov_ok (p\<lparr>conf_in := (conf_in p)\<lparr>caps := drop 1 b\<rparr>\<rparr>)"
  by (simp add: prov_ok_def)

lemma prov_ok_start: "prov_ok p \<Longrightarrow> auth_size s \<le> 8 \<Longrightarrow> prov_ok (p\<lparr>conf_in := (conf_in p)\<lparr>start := s\<rparr>\<rparr>)"
  by (simp add: prov_ok_def)

lemma prov_ok_state: "prov_ok p \<Longrightarrow> st \<in> {PROV_START, PROV_PUB_KEY, PROV_CONFIRM, PROV_RANDOM, PROV_DATA} \<Longrightarrow> prov_ok (p\<lparr>p_state := st\<rparr>)"
  by (auto simp: prov_ok_def)

lemma prov_ok_addr: "prov_ok p \<Longrightarrow> prov_ok (p\<lparr>p_new_addr := a\<rparr>)"
  by (simp add: prov_ok_def)

lemma prov_ok_make_keys: "prov_ok p \<Longrightarrow> prov_ok (make_keys E p)"
  by (auto simp: make_keys_def prov_ok_def dest!: make_key_length split: option.splits prod.splits)

lemma inv_invalid: "invalid_pdu r w = Ret (w', b) \<Longrightarrow> prov_inv w \<Longrightarrow> prov_inv w'"
  by (simp add: invalid_pdu_def inv_complete)

lemma inv_rx_caps:
  assumes "prov_rx_caps E r p0 buf w0 = Ret (w', b)" "prov_inv w0" "prov_ok p0" "length buf = 12"
  shows "prov_inv w'"
  using assms(1)
proof (cases rule: rx_caps_cases)
  case (refused q f)
  then show ?thesis using assms(2) by (auto simp: invalid_pdu_def elim!: inv_complete_set)
next
  case (started p pool a)
  then have "prov_ok (p\<lparr>p_new_addr := a\<rparr>)"
    using assms(3,4) by (simp add: prov_ok_caps prov_ok_addr del: One_nat_def drop_Suc)
  from prov_ok_start [OF this started(7)] have "prov_ok (p\<lparr>p_new_addr := a, conf_in := (conf_in p)\<lparr>start := choose_start p\<rparr>\<rparr>)" by simp
  from prov_ok_make_keys [OF prov_ok_state [OF this], of PROV_START E] show ?thesis
    using started(6) assms(2) by (simp add: prov_inv_set)
qed

lemma inv_rx_pub_key:
  assumes "prov_rx_pub_key E r p buf w = Ret (w', b)" "prov_inv w" "prov_ok p" "alg_wf (p_alg E)"
  shows "prov_inv w'"
  using assms(1)
  by (auto simp: prov_rx_pub_key_def cbind_Ret_iff assms split: if_splits
      intro: inv_invalid [OF _ assms(2)] inv_send_confirm [OF _ _ assms(4)] inv_calc_ecdh [OF _ prov_inv_set [OF assms(2) prov_ok_dev_key] assms(4)])

lemma inv_rx_confirm:
  assumes "prov_rx_confirm E r p buf w = Ret (w', b)" "prov_inv w" "prov_ok p"
  shows "prov_inv w'"
proof -
  have "prov_ok (p\<lparr>mesh_conf := sub_bytes buf 1 16, p_state := PROV_RANDOM\<rparr>)" using assms(3) by (simp add: prov_ok_def)
  then show ?thesis
    using assms(1,2) by (auto simp: prov_rx_confirm_def gatt_write_pdu_def prov_inv_set cbind_Ret_iff split: if_splits dest!: inv_invalid)
qed

lemma inv_send_prov_data:
  assumes "prov_send_prov_data E r w = Ret (w', b)" "prov_inv w" "alg_wf (p_alg E)"
  shows "prov_inv w'"
proof -
  have i: "prov_inv (set_prov r (p\<lparr>p_dev_key := d\<rparr>) w) \<and> prov_inv (set_prov r (p\<lparr>p_dev_key := d, p_state := PROV_DATA\<rparr>) w)"
    if "prov_at w r = Some p" "kept (p_dev_key p) (mesh_crypto_device_key (p_alg E) s t) = Ret d" for p d s t
    using prov_invD [OF assms(2) that(1)] that(2) key_length [OF assms(3)]
    by (auto intro!: prov_inv_set [OF assms(2)] simp: prov_ok_def kept_Ret_cases)
  show ?thesis
    using assms(1) [unfolded prov_send_prov_data_def, THEN with_prov_Ret] assms(2)
    by (auto simp: Let_def cbind_Ret_iff gatt_write_pdu_def split: option.splits dest!: i)
qed

lemma inv_rx_random:
  assumes "prov_rx_random E r p buf w = Ret (w', b)" "prov_inv w" "prov_ok p" "alg_wf (p_alg E)"
  shows "prov_inv w'"
proof (cases "byte_at buf 0 = PROV_RANDOM")
  case False
  then show ?thesis using assms by (auto simp: prov_rx_random_def dest!: inv_invalid)
next
  case True
  have i: "prov_inv (set_prov r (p\<lparr>p_salt := salt, rand_auth := memcpy (rand_auth p) 0 x\<rparr>) w)"
    if "kept (p_salt p) (mesh_crypto_prov_prov_salt (p_alg E) a c d) = Ret salt" for salt a c d x
    using assms(3) that key_length [OF assms(4)] by (auto intro!: prov_inv_set [OF assms(2)] simp: prov_ok_def kept_Ret_cases)
  show ?thesis
    using True assms(1) by (auto simp: prov_rx_random_def Let_def cbind_Ret_iff split: if_splits
      dest!: i intro: inv_invalid inv_send_prov_data [OF _ _ assms(4)])
qed

lemma inv_data_ready:
  assumes "prov_data_ready E r buf w = Ret (w', b)" "prov_inv w" "alg_wf (p_alg E)"
  shows "prov_inv w'"
proof -
  from assms(1) [unfolded prov_data_ready_def, THEN with_prov_Ret]
  consider "w' = w" | p where "prov_at w r = Some p" "2 \<le> length buf" by (auto split: if_splits)
  then show ?thesis
  proof cases
    case (2 p)
    have ok: "prov_ok p" by (rule prov_invD [OF assms(2) 2(1)])
    have c: "length (drop 1 buf) = 12" if "expected_pdu_size (byte_at (drop 1 buf) 0) = length (drop 1 buf)" "byte_at (drop 1 buf) 0 = PROV_CAPS"
      using that by (simp add: expected_pdu_size_def prov_opcodes)
    show ?thesis
      using assms(1) [unfolded data_ready_eq [OF 2] Let_def] assms(2,3) ok c
      by (auto split: if_splits simp del: drop_Suc One_nat_def
          intro: inv_invalid inv_complete inv_rx_caps inv_rx_pub_key inv_rx_confirm inv_rx_random)
  qed (use assms(2) in simp)
qed

lemma inv_step:
  assumes "prov_step E w w'" "prov_inv w" "alg_wf (p_alg E)"
  shows "prov_inv w'"
  using assms
  by (cases rule: prov_step.cases)
    (auto dest: inv_open inv_data_ready inv_complete inv_start_cmplt inv_calc_ecdh inv_responses simp: prov_set_sec_level_def)

section \<open>No fault on the receiving side\<close>

definition no_fault :: "'a cres \<Rightarrow> bool" where
  "no_fault m \<longleftrightarrow> m \<noteq> Fault"

named_theorems safe_intros \<open>functions that stay within their memory\<close>

lemma no_fault_simps [simp]: "no_fault (Ret x)" "no_fault Fail" "\<not> no_fault Fault" "no_fault (cguard b m) \<longleftrightarrow> b \<and> no_fault m"
  by (simp_all add: no_fault_def cguard_def)

lemma no_fault_cbind [safe_intros]: "no_fault m \<Longrightarrow> (\<And>x. no_fault (f x)) \<Longrightarrow> no_fault (cbind m f)"
  by (cases m) auto

lemma no_fault_keys [safe_intros]:
  "no_fault (mesh_crypto_session_key A s t)" "no_fault (mesh_crypto_nonce A s t)" "no_fault (mesh_crypto_device_key A s t)"
  "no_fault (mesh_crypto_prov_conf_key A s t)" "no_fault (mesh_crypto_s1 A m)" "no_fault (mesh_crypto_prov_prov_salt A a b c)"
  "no_fault (mesh_crypto_aes_cmac A k m)" "no_fault m' \<Longrightarrow> no_fault (kept old m')"
  by (auto simp: no_fault_def key_not_Fault kept_not_Fault)

lemma no_fault_ccm [safe_intros]: "length d = 25 \<Longrightarrow> no_fault (mesh_crypto_aes_ccm_encrypt A nonce k [] d 25 8)"
  by (simp add: no_fault_def ccm_not_Fault)

lemma no_fault_with_prov: "node_at w r \<noteq> None \<Longrightarrow> no_fault null \<Longrightarrow> (\<And>p. prov_at w r = Some p \<Longrightarrow> no_fault (f p)) \<Longrightarrow> no_fault (with_prov r w null f)"
  by (auto simp: with_prov_def prov_at_def split: option.splits)

lemma node_at_set: "node_at w r \<noteq> None \<Longrightarrow> node_at (set_prov k p w) r \<noteq> None"
  by (auto simp: set_prov_def node_at_set_prov)

lemma complete_safe [safe_intros]: "node_at w r \<noteq> None \<Longrightarrow> no_fault (prov_complete r status w)"
  unfolding prov_complete_def by (rule no_fault_with_prov) (auto simp: Let_def)

lemma send_confirm_safe [safe_intros]: "node_at w r \<noteq> None \<Longrightarrow> no_fault (prov_send_confirm E r w)"
  unfolding prov_send_confirm_def Let_def by (rule no_fault_with_prov) (auto intro!: safe_intros)

lemma power_ten_small: "sz \<le> 8 \<Longrightarrow> power_ten sz \<noteq> 0"
proof -
  assume "sz \<le> 8"
  then have "unat sz \<le> 8" by (simp add: word_le_nat_alt)
  then have "unat sz \<in> {0, 1, 2, 3, 4, 5, 6, 7, 8}" by auto
  moreover have "\<forall>n\<in>{0, 1, 2, 3, 4, 5, 6, 7, 8}. power_ten_loop n 1 \<noteq> 0" by code_simp
  ultimately have "power_ten_loop (unat sz) 1 \<noteq> 0" by (rule bspec [rotated])
  then show ?thesis by (simp only: power_ten_def not_False_eq_True)
qed

lemma auth_step_safe [safe_intros]:
  assumes "node_at w r \<noteq> None" "auth_size (start (conf_in p)) \<le> 8"
  shows "no_fault (auth_step E r p w)"
proof -
  have "unat (auth_size (start (conf_in p))) \<le> 8" using assms(2) by (simp add: word_le_nat_alt)
  then have "no_fault (input_oob E r p w)" using power_ten_small [OF assms(2)] by (simp add: input_oob_def Let_def)
  then show ?thesis using assms(1) by (auto simp: auth_step_def Let_def case_prod_beta intro!: safe_intros)
qed

lemma calc_ecdh_safe:
  assumes "prov_at w r = Some p" "auth_size (start (conf_in p)) \<le> 8"
  shows "no_fault (prov_calc_ecdh E r w)"
proof -
  have n: "node_at w r \<noteq> None" using assms(1) by (auto simp: prov_at_Some)
  show ?thesis
    unfolding prov_calc_ecdh_def with_prov_at [OF assms(1)] Let_def case_prod_beta
    using assms(2) by (intro safe_intros node_at_set [OF n]) simp
qed

lemma send_prov_data_safe [safe_intros]: "node_at w r \<noteq> None \<Longrightarrow> no_fault (prov_send_prov_data E r w)"
  unfolding prov_send_prov_data_def Let_def case_prod_beta
  by (rule no_fault_with_prov) (auto intro!: safe_intros split: option.split)

lemma invalid_safe [safe_intros]: "node_at w r \<noteq> None \<Longrightarrow> no_fault (invalid_pdu r w)"
  by (simp add: invalid_pdu_def complete_safe)

text \<open>
  The handlers of the states, on PDUs of the size the code has tested: what they
  read and copy is in the PDU.
\<close>

lemma rx_safe:
  assumes "prov_at w r = Some p" "auth_size (start (conf_in p)) \<le> 8"
  shows "length buf = 12 \<Longrightarrow> no_fault (prov_rx_caps E r p buf w)"
    "byte_at buf 0 = PROV_PUB_KEY \<Longrightarrow> length buf = 65 \<Longrightarrow> no_fault (prov_rx_pub_key E r p buf w)"
    "byte_at buf 0 \<noteq> PROV_PUB_KEY \<Longrightarrow> no_fault (prov_rx_pub_key E r p buf w)"
    "byte_at buf 0 = PROV_CONFIRM \<Longrightarrow> length buf = 17 \<Longrightarrow> no_fault (prov_rx_confirm E r p buf w)"
    "byte_at buf 0 \<noteq> PROV_CONFIRM \<Longrightarrow> no_fault (prov_rx_confirm E r p buf w)"
    "byte_at buf 0 = PROV_RANDOM \<Longrightarrow> length buf = 17 \<Longrightarrow> no_fault (prov_rx_random E r p buf w)"
    "byte_at buf 0 \<noteq> PROV_RANDOM \<Longrightarrow> no_fault (prov_rx_random E r p buf w)"
proof -
  have n: "node_at w r \<noteq> None" using assms(1) by (auto simp: prov_at_Some)
  note s = node_at_set [OF n]
  show "length buf = 17 \<Longrightarrow> no_fault (prov_rx_confirm E r p buf w)" "byte_at buf 0 \<noteq> PROV_CONFIRM \<Longrightarrow> no_fault (prov_rx_confirm E r p buf w)"
    using n by (simp_all add: prov_rx_confirm_def invalid_safe)
  have u: "node_at (upd_net f v) r = node_at v r" for f v by (simp add: upd_net_def node_at_def)
  show "length buf = 12 \<Longrightarrow> no_fault (prov_rx_caps E r p buf w)"
    using n s by (auto simp: prov_rx_caps_def Let_def case_prod_beta u intro!: invalid_safe node_at_set)
  have "no_fault (prov_calc_ecdh E r (set_prov r (p\<lparr>conf_in := (conf_in p)\<lparr>dev_pub_key := x\<rparr>\<rparr>) w))" for x
    by (rule calc_ecdh_safe [OF prov_at_set_same [OF assms(1)]]) (simp add: assms(2))
  moreover have "node_at (agent_output_request_cancel w) r \<noteq> None" using n by (simp add: agent_output_request_cancel_def)
  ultimately show "length buf = 65 \<Longrightarrow> no_fault (prov_rx_pub_key E r p buf w)" "byte_at buf 0 \<noteq> PROV_PUB_KEY \<Longrightarrow> no_fault (prov_rx_pub_key E r p buf w)"
    using n by (auto simp: prov_rx_pub_key_def intro!: safe_intros)
  show "length buf = 17 \<Longrightarrow> no_fault (prov_rx_random E r p buf w)" "byte_at buf 0 \<noteq> PROV_RANDOM \<Longrightarrow> no_fault (prov_rx_random E r p buf w)"
    using n s by (auto simp: prov_rx_random_def Let_def case_prod_beta intro!: safe_intros)
qed

text \<open>The tests of \<open>prov_data_ready\<close>, each where the code has it, leave only such PDUs to the handlers.\<close>

lemma data_ready_safe:
  assumes "prov_inv w" "node_at w r \<noteq> None"
  shows "no_fault (prov_data_ready E r buf0 w)"
  unfolding prov_data_ready_def
proof (rule no_fault_with_prov [OF assms(2)])
  fix p assume p: "prov_at w r = Some p"
  define buf where "buf = drop 1 buf0"
  note rx = rx_safe [OF p prov_okD(11) [OF prov_invD [OF assms(1) p]], of buf E]
  have o: "unat op < 10" if "\<not> op > PROV_FAILED" for op
    using that by (simp add: PROV_FAILED_def not_less word_le_nat_alt)
  have z: "expected_pdu_size PROV_CAPS = 12" "expected_pdu_size PROV_PUB_KEY = 65" "expected_pdu_size PROV_CONFIRM = 17"
    "expected_pdu_size PROV_RANDOM = 17" "expected_pdu_size PROV_FAILED = 2"
    by (simp_all add: expected_pdu_size_def prov_opcodes)
  let ?op = "byte_at buf 0"
  have *: "no_fault (if ?op > PROV_FAILED then invalid_pdu r w else cguard (unat ?op < 10)
      (if expected_pdu_size ?op \<noteq> length buf then invalid_pdu r w
       else if ?op = PROV_FAILED then cbind (pdu_octet buf 1) (\<lambda>status. prov_complete r status w)
       else if p_state p = PROV_INVITE then (if ?op \<noteq> PROV_CAPS then invalid_pdu r w else prov_rx_caps E r p buf w)
       else if p_state p = PROV_PUB_KEY then prov_rx_pub_key E r p buf w
       else if p_state p = PROV_CONFIRM then prov_rx_confirm E r p buf w
       else if p_state p = PROV_RANDOM then prov_rx_random E r p buf w
       else if p_state p = PROV_DATA then (if ?op \<noteq> PROV_COMPLETE then invalid_pdu r w else prov_complete r 0 w)
       else invalid_pdu r w))"
  proof -
    have "no_fault (prov_rx_caps E r p buf w)" if "?op = PROV_CAPS" "expected_pdu_size ?op = length buf"
      using that rx(1) z(1) by simp
    moreover have "no_fault (prov_rx_pub_key E r p buf w)" "no_fault (prov_rx_confirm E r p buf w)" "no_fault (prov_rx_random E r p buf w)"
      if "expected_pdu_size ?op = length buf"
      using that rx(2-) z(2-4) by metis+
    moreover have "1 < length buf" if "?op = PROV_FAILED" "expected_pdu_size ?op = length buf"
      using that z(5) by simp
    ultimately show ?thesis using assms(2) o [of ?op] by (auto simp: safe_intros simp del: One_nat_def)
  qed
  show "no_fault (if length buf0 < 2 then Ret (w, False) else let buf = drop 1 buf0 in cbind (pdu_octet buf 0) (\<lambda>op.
      if op > PROV_FAILED then invalid_pdu r w else cguard (unat op < 10)
      (if expected_pdu_size op \<noteq> length buf then invalid_pdu r w
       else if op = PROV_FAILED then cbind (pdu_octet buf 1) (\<lambda>status. prov_complete r status w)
       else if p_state p = PROV_INVITE then (if op \<noteq> PROV_CAPS then invalid_pdu r w else prov_rx_caps E r p buf w)
       else if p_state p = PROV_PUB_KEY then prov_rx_pub_key E r p buf w
       else if p_state p = PROV_CONFIRM then prov_rx_confirm E r p buf w
       else if p_state p = PROV_RANDOM then prov_rx_random E r p buf w
       else if p_state p = PROV_DATA then (if op \<noteq> PROV_COMPLETE then invalid_pdu r w else prov_complete r 0 w)
       else invalid_pdu r w)))"
  proof (cases "length buf0 < 2")
    case False
    then have "pdu_octet buf 0 = Ret ?op" by (simp add: buf_def)
    with False * show ?thesis by (simp only: Let_def buf_def [symmetric] cbind.simps if_False)
  qed simp
qed simp

section \<open>Properties\<close>

text \<open>
  C4. The receiving side stays within its memory. Start with data of the right
  shape (none at all, say) and let provisioning run, through any sequence of
  opened sessions, PDUs, finished writes, answers of the user and changes of the
  security level that the program survives: whatever octets then arrive for a
  node, \<^verbatim>\<open>prov_data_ready\<close> neither leaves a buffer nor follows a bad pointer nor
  divides by zero, and the shape of the data is kept.
\<close>

theorem provisioning_memory_safe:
  assumes "prov_inv w" "alg_wf (p_alg E)" "(prov_step E)\<^sup>*\<^sup>* w w'"
  shows "prov_inv w' \<and> (\<forall>r buf. node_at w' r \<noteq> None \<longrightarrow> prov_data_ready E r buf w' \<noteq> Fault)"
proof -
  have "prov_inv w'" using assms(3,1,2) by (induction rule: rtranclp_induct) (auto intro: inv_step)
  then show ?thesis using data_ready_safe [of w'] by (auto simp: no_fault_def)
qed

theorem provisioning_memory_safe_witness:
  "\<exists>w'. prov_step demo_penv (demo_pworld blank_prov) w' \<and> prov_data_ready demo_penv 5 [1, 2, 3] w' \<noteq> Fault \<and> prov_inv w'"
proof -
  have s: "prov_step demo_penv (demo_pworld blank_prov) (response_output (demo_pworld blank_prov))" by (rule ps_output)
  have "prov_ok blank_prov" by (simp add: prov_ok_def blank_prov_def PROV_INVITE_def)
  moreover have "prov_at (demo_pworld blank_prov) r = Some p \<Longrightarrow> p = blank_prov" for r p
    by (auto simp: prov_at_def node_at_def demo_pworld_def blank_node_def split: if_splits)
  ultimately have i: "prov_inv (demo_pworld blank_prov)" by (auto simp: prov_inv_def)
  have n: "node_at (response_output (demo_pworld blank_prov)) 5 \<noteq> None"
    by (simp add: node_at_def response_output_def reset_input_request_def demo_pworld_def blank_node_def)
  from provisioning_memory_safe [OF i _ r_into_rtranclp [of "prov_step demo_penv", OF s]] n s demo_alg_wf show ?thesis by (auto simp: demo_penv_def)
qed


text \<open>
  What a user can break. The agent does not limit the text the user enters: an
  answer of more than 16 characters ends the provisioning and is then copied
  behind the authentication value of the data just freed. And the step after the
  public key was written reads the data before it asks whether there are any.
\<close>

lemma provisioning_faults:
  "(prov_at w r = Some p \<and> req_cb (pending_request w) = Some Cb_out_oob_done \<and> req_data (pending_request w) = Some r \<and> length inp > 16 \<longrightarrow>
      response_ascii E inp w = Fault) \<and>
    (prov_at w r = None \<longrightarrow> prov_calc_ecdh E r w = Fault)"
proof (intro conjI impI; (elim conjE)?)
  assume p: "prov_at w r = Some p" "req_cb (pending_request w) = Some Cb_out_oob_done" "req_data (pending_request w) = Some r" "length inp > 16"
  have "prov_out_oob_done E Oob_ASCII (map of_char inp) r w = Fault"
    using p(4) unfolding prov_out_oob_done_def with_prov_at [OF p(1)] by (simp add: cguard_def)
  then show "response_ascii E inp w = Fault" using p(2,3) by (simp add: response_ascii_def call_input_cb_def)
next
  assume "prov_at w r = None"
  then have "with_prov r w Fault f = Fault" for f :: "prov_data \<Rightarrow> 'a pworld_scheme cres"
    by (cases "node_at w r") (auto simp: with_prov_def prov_at_def split: option.splits)
  then show "prov_calc_ecdh E r w = Fault" by (simp add: prov_calc_ecdh_def)
qed

lemma provisioning_faults_witness:
  "response_ascii demo_penv (replicate 17 CHR ''x'') ((demo_pworld blank_prov)\<lparr>pending_request :=
      \<lparr>req_type = Oob_ASCII, req_len = 8, req_cb = Some Cb_out_oob_done, req_data = Some 5\<rparr>\<rparr>) = Fault \<and>
    prov_calc_ecdh demo_penv 6 (demo_pworld blank_prov) = Fault"
proof -
  have "prov_at (demo_pworld blank_prov) 6 = None" by (simp add: prov_at_def node_at_def demo_pworld_def blank_node_def)
  then show ?thesis
    using provisioning_faults [of "(demo_pworld blank_prov)\<lparr>pending_request :=
      \<lparr>req_type = Oob_ASCII, req_len = 8, req_cb = Some Cb_out_oob_done, req_data = Some 5\<rparr>\<rparr>" 5 blank_prov "replicate 17 CHR ''x''" demo_penv]
      provisioning_faults [of "demo_pworld blank_prov" 6 _ _ demo_penv] by simp
qed


section \<open>A run without out-of-band data\<close>

text \<open>The secret and the confirmation key the exchange of public keys leads to.\<close>

definition agreed :: "(bytes \<Rightarrow> bytes \<Rightarrow> bytes) \<Rightarrow> bytes \<Rightarrow> conf_input \<Rightarrow> bytes \<times> bytes \<times> bytes" where
  "agreed mac secret c =
     (let s = swap_u256_bytes secret; salt = mac (replicate 16 0) (conf_in_bytes c) in (s, salt, conf_key_of mac s salt))"

lemma length_conf_in_bytes: "length (caps c) = 11 \<Longrightarrow> length (prv_pub_key c) = 64 \<Longrightarrow> length (dev_pub_key c) = 64 \<Longrightarrow> length (conf_in_bytes c) = 145"
  by (simp add: conf_in_bytes_def start_bytes_def)

lemma rx_pub_key_result:
  assumes "prov_at w r = Some p" "prov_ok p" "p_state p = PROV_PUB_KEY" "start_pub_key (start (conf_in p)) = 0" "auth_method (start (conf_in p)) = 0"
    and "length pk = 64" "ecdh_shared_secret (dh_rnd E) (swap_pub_key pk) (eph_priv_key p) = (sec, ok)" "cmac_is (p_alg E) mac"
  defines "secret \<equiv> case sec of None \<Rightarrow> ecdh_secret p | Some x \<Rightarrow> x"
  defines "c \<equiv> (conf_in p)\<lparr>dev_pub_key := pk\<rparr>" and "ra \<equiv> memcpy (rand_auth p) 0 (random_bytes E 16)"
  shows "prov_data_ready E r ([PROXY_PROVISIONING_PDU, PROV_PUB_KEY] @ pk) w =
    (case agreed mac secret c of (s, salt, ck) \<Rightarrow>
      Ret (emit (Prov_write ([PROXY_PROVISIONING_PDU, PROV_CONFIRM] @ mac ck ra) No_cb r)
        (set_prov r (p\<lparr>conf_in := c, ecdh_secret := s, p_salt := salt, conf_key := ck, rand_auth := ra, p_state := PROV_CONFIRM\<rparr>) w), True))"
proof -
  obtain s salt ck where a: "agreed mac secret c = (s, salt, ck)" by (cases "agreed mac secret c")
  then have s: "s = swap_u256_bytes secret" "salt = mac (replicate 16 0) (conf_in_bytes c)" "ck = conf_key_of mac s salt"
    by (auto simp: agreed_def Let_def)
  define p1 where "p1 = p\<lparr>conf_in := c\<rparr>"
  define p2 where "p2 = p1\<lparr>ecdh_secret := s, p_salt := salt, conf_key := ck\<rparr>"
  have l: "length (conf_in_bytes c) = 145" "length s = 32" "length (rand_auth p2) = 32"
    using assms(2,6) length_secret [OF assms(7,2)] by (simp_all add: length_conf_in_bytes c_def prov_okD s(1) p2_def p1_def secret_def)
  have m: "mesh_crypto_s1 (p_alg E) (conf_in_bytes c) = Ret salt" "mesh_crypto_prov_conf_key (p_alg E) s salt = Ret ck"
    using derived_keys(4) [OF assms(8), of s salt] l cmac_isD(1) [OF assms(8)] by (simp_all add: mesh_crypto_s1_def s(2,3))
  have p2: "prov_at (set_prov r p2 w) r = Some p2" using assms(1) by simp
  have "prov_calc_ecdh E r (set_prov r p1 w) = cbind (prov_send_confirm E r (set_prov r p2 w)) (\<lambda>(w1, _). Ret w1)"
    unfolding prov_calc_ecdh_def with_prov_at [OF prov_at_set_same [OF assms(1)]]
    using assms(5,7) m by (cases sec) (auto simp: p1_def c_def Let_def s(1) auth_step_def p2_def secret_def)
  also have "\<dots> = Ret (emit (Prov_write ([PROXY_PROVISIONING_PDU, PROV_CONFIRM] @ mac ck ra) No_cb r)
        (set_prov r (p2\<lparr>rand_auth := ra, p_state := PROV_CONFIRM\<rparr>) w))"
    unfolding send_confirm_result [OF p2 assms(8) l(3)] by (simp add: p2_def p1_def ra_def)
  finally have e: "prov_calc_ecdh E r (set_prov r p1 w) = \<dots>" .
  have "sub_bytes (PROV_PUB_KEY # pk) 1 64 = pk" using sub_bytes_tail [OF assms(6)] by simp
  then show ?thesis
    using assms(1,3,4,6) e by (simp add: prov_data_ready_def Let_def byte_at_def prov_opcodes expected_pdu_size_def prov_rx_pub_key_def a
        c_def [symmetric] p1_def [symmetric]) (simp add: p2_def p1_def)
qed

text \<open>What is left when the provisioning has succeeded.\<close>

lemma complete_success:
  assumes "node_at w r = Some n" "n_prov n = Some p"
  shows "\<exists>w' n'. prov_complete r 0 w = Ret (w', True) \<and> prov_at w' r = None \<and> node_at w' r = Some n' \<and>
    dev_key n' = p_dev_key p \<and> primary n' = p_new_addr p \<and> num_ele n' = caps_num_ele p \<and> p_net_idx p \<in> set (n_net_keys n') \<and>
    log w' = log w @ (if p_done p then [Prov_done r 0] else [])"
proof -
  have at: "prov_at w r = Some p" using assms by (simp add: prov_at_def)
  define w1 where "w1 = node_set_device_key (Some r) (p_dev_key p) (node_set_primary r (p_new_addr p) (node_set_num_elements r (caps_num_ele p) w))"
  define n1 where "n1 = n\<lparr>num_ele := caps_num_ele p, primary := p_new_addr p, dev_key := p_dev_key p\<rparr>"
  have nr: "nref n = r" using assms(1) by (auto simp: node_at_def dest: find_SomeD)
  have w1: "node_at w1 r = Some n1"
    using assms(1) by (simp add: w1_def n1_def node_set_device_key_def node_set_primary_def node_set_num_elements_def node_at_upd)
  define w2 where "w2 = fst (node_net_key_add (Some r) (p_net_idx p) w1)"
  obtain n2 where w2: "node_at w2 r = Some n2" "dev_key n2 = dev_key n1" "primary n2 = primary n1" "num_ele n2 = num_ele n1"
    "p_net_idx p \<in> set (n_net_keys n2)"
    using w1 nr by (cases "p_net_idx p \<in> set (n_net_keys n1)") (auto simp: w2_def node_net_key_add_def node_at_upd n1_def)
  have "node_at (node_set_prov r None w2) r = Some (n2\<lparr>n_prov := None\<rparr>)" using w2(1) by (simp add: node_at_set_prov)
  moreover have "prov_complete r 0 w = Ret (if p_done p then emit (Prov_done r 0) (node_set_prov r None w2) else node_set_prov r None w2, True)"
    unfolding prov_complete_def with_prov_at [OF at] by (simp add: w2_def w1_def Let_def)
  moreover have "log w2 = log w" by (simp add: w2_def w1_def)
  ultimately show ?thesis using w2 by (simp add: n1_def prov_at_free)
qed

text \<open>The exchange, whatever secret the public key led to.\<close>

lemma no_oob_core:
  assumes "prov_at w r = Some p" "prov_ok p" "p_state p = PROV_PUB_KEY" "start_pub_key (start (conf_in p)) = 0" "auth_method (start (conf_in p)) = 0"
    and "length pk = 64" "ecdh_shared_secret (dh_rnd E) (swap_pub_key pk) (eph_priv_key p) = (sec, ok)"
    and "cmac_is (p_alg E) mac" "\<And>k. ecb_is (p_alg E) k (enc k)" "alg_wf (p_alg E)" "net_get_key (keys w) (p_net_idx p) = Some nk"
    and "length rd = 16" "agreed mac (case sec of None \<Rightarrow> ecdh_secret p | Some x \<Rightarrow> x) ((conf_in p)\<lparr>dev_pub_key := pk\<rparr>) = (s, salt, ck)"
  defines "auth \<equiv> drop 16 (rand_auth p)" and "own \<equiv> random_bytes E 16"
  defines "psalt \<equiv> prov_salt_of mac salt own rd"
  shows "\<exists>w1 w2 w3 w4 out mic n. prov_data_ready E r ([PROXY_PROVISIONING_PDU, PROV_PUB_KEY] @ pk) w = Ret (w1, True) \<and>
    prov_data_ready E r ([PROXY_PROVISIONING_PDU, PROV_CONFIRM] @ mac ck (rd @ auth)) w1 = Ret (w2, gatt_ok E) \<and>
    prov_data_ready E r ([PROXY_PROVISIONING_PDU, PROV_RANDOM] @ rd) w2 = Ret (w3, True) \<and>
    prov_data_ready E r [PROXY_PROVISIONING_PDU, PROV_COMPLETE] w3 = Ret (w4, True) \<and>
    log w3 = log w @ [Prov_write ([PROXY_PROVISIONING_PDU, PROV_CONFIRM] @ mac ck (own @ auth)) No_cb r,
      Prov_write ([PROXY_PROVISIONING_PDU, PROV_RANDOM] @ own) No_cb r,
      Prov_write ([PROXY_PROVISIONING_PDU, PROV_DATA] @ out) No_cb r] \<and>
    log w4 = log w3 @ (if p_done p then [Prov_done r 0] else []) \<and>
    mesh_crypto_aes_ccm_decrypt (p_alg E) (session_nonce_of mac s psalt) (session_key_of mac s psalt) [] out False 8 =
      Ret (prov_plain nk (p_net_idx p) (prov_flags w (p_net_idx p)) (iv_index (net w)) (p_new_addr p), mic) \<and>
    prov_at w4 r = None \<and> node_at w4 r = Some n \<and> dev_key n = device_key_of mac s psalt \<and> primary n = p_new_addr p \<and>
    num_ele n = caps_num_ele p \<and> p_net_idx p \<in> set (n_net_keys n)"
proof -
  have l32: "length (rand_auth p) = 32" and own: "length own = 16" using assms(2) by (simp_all add: prov_okD own_def random_bytes_def)
  have ra: "memcpy (rand_auth p) 0 own = own @ auth" using l32 own by (simp add: memcpy_def auth_def)
  define p1 where "p1 = p\<lparr>conf_in := (conf_in p)\<lparr>dev_pub_key := pk\<rparr>, ecdh_secret := s, p_salt := salt, conf_key := ck,
    rand_auth := own @ auth, p_state := PROV_CONFIRM\<rparr>"
  define w1 where "w1 = emit (Prov_write ([PROXY_PROVISIONING_PDU, PROV_CONFIRM] @ mac ck (own @ auth)) No_cb r) (set_prov r p1 w)"
  have s1: "prov_data_ready E r ([PROXY_PROVISIONING_PDU, PROV_PUB_KEY] @ pk) w = Ret (w1, True)"
    using rx_pub_key_result [OF assms(1-8)] assms(13) ra by (simp add: w1_def p1_def own_def)
  have a1: "prov_at w1 r = Some p1" using assms(1) by (simp add: w1_def)
  define c where "c = mac ck (rd @ auth)"
  define p2 where "p2 = p1\<lparr>mesh_conf := c, p_state := PROV_RANDOM\<rparr>"
  define w2 where "w2 = emit (Prov_write ([PROXY_PROVISIONING_PDU, PROV_RANDOM] @ own) No_cb r) (set_prov r p2 w1)"
  have "sub_bytes (rand_auth p1) 0 16 = own"
    using own by (intro nth_equalityI) (simp_all add: p1_def sub_bytes_def byte_at_def nth_append)
  then have s2: "prov_data_ready E r ([PROXY_PROVISIONING_PDU, PROV_CONFIRM] @ c) w1 = Ret (w2, gatt_ok E)"
    and o2: "sub_bytes (rand_auth p2) 0 16 = own"
    using rx_confirm_result [OF a1, of c] cmac_isD(2) [OF assms(8)] by (simp_all add: p1_def p2_def w2_def c_def)
  have a2: "prov_at w2 r = Some p2" using a1 by (simp add: w2_def)
  have ls: "length s = 32" using assms(13) length_secret [OF assms(7,2)] by (auto simp: agreed_def Let_def)
  have m: "memcpy (rand_auth p2) 0 rd = rd @ auth" using assms(12) own by (simp add: p2_def p1_def memcpy_def)
  have salt: "prov_salt_of mac (p_salt p2) (rand_auth p2) rd = psalt"
    using o2 sub_bytes_whole [OF own] by (simp add: psalt_def prov_salt_of_def) (simp add: p2_def p1_def)
  have la: "length auth = 16" using l32 by (simp add: auth_def)
  from rx_random_sends [OF a2 _ assms(12,8) _ _ assms(9,10), of nk] obtain w3 out mic where
    s3: "prov_data_ready E r ([PROXY_PROVISIONING_PDU, PROV_RANDOM] @ rd) w2 = Ret (w3, True)"
      "log w3 = log w2 @ [Prov_write ([PROXY_PROVISIONING_PDU, PROV_DATA] @ out) No_cb r]"
      "mesh_crypto_aes_ccm_decrypt (p_alg E) (session_nonce_of mac s psalt) (session_key_of mac s psalt) [] out False 8 =
      Ret (prov_plain nk (p_net_idx p) (prov_flags w2 (p_net_idx p)) (iv_index (net w2)) (p_new_addr p), mic)"
    and p3: "prov_at w3 r = Some (p2\<lparr>p_salt := psalt, rand_auth := rd @ auth, p_dev_key := device_key_of mac s psalt, p_state := PROV_DATA\<rparr>)"
    unfolding salt m using assms(11) ls la own by (auto simp: p2_def p1_def c_def w2_def w1_def)
  obtain n3 where n3: "node_at w3 r = Some n3" "n_prov n3 = Some (p2\<lparr>p_salt := psalt, rand_auth := rd @ auth, p_dev_key := device_key_of mac s psalt, p_state := PROV_DATA\<rparr>)"
    using p3 by (auto simp: prov_at_Some)
  have "prov_data_ready E r [PROXY_PROVISIONING_PDU, PROV_COMPLETE] w3 = prov_complete r 0 w3"
    unfolding prov_data_ready_def with_prov_at [OF p3] by (simp add: Let_def byte_at_def prov_opcodes expected_pdu_size_def)
  with complete_success [OF n3] s1 s2 s3 show ?thesis
    by (simp add: c_def [symmetric] caps_num_ele_def)
      (auto simp: w2_def w1_def p2_def p1_def prov_flags_def)
qed

text \<open>
  C5. Provisioning without out-of-band data completes. The provisioner waits for a
  public key; a device sends it, then its confirmation and its random number, both
  computed with the secret and the salt that the public keys lead to, and
  reports completion. Each PDU is accepted; the provisioner answers with its
  confirmation, its random number and data that decrypt to the network key, the
  IV index and the address; in the end the data of the provisioning are gone and
  the node has its address, its number of elements, its device key and the index
  of the network key.
\<close>

theorem no_oob_provisioning_completes:
  assumes "prov_at w r = Some p" "prov_ok p" "p_state p = PROV_PUB_KEY" "start_pub_key (start (conf_in p)) = 0" "auth_method (start (conf_in p)) = 0"
    and "length pk = 64" "ecdh_shared_secret (dh_rnd E) (swap_pub_key pk) (eph_priv_key p) = (Some secret, ok)"
    and "cmac_is (p_alg E) mac" "\<And>k. ecb_is (p_alg E) k (enc k)" "alg_wf (p_alg E)" "net_get_key (keys w) (p_net_idx p) = Some nk"
    and "length rd = 16" "agreed mac secret ((conf_in p)\<lparr>dev_pub_key := pk\<rparr>) = (s, salt, ck)"
  defines "auth \<equiv> drop 16 (rand_auth p)" and "own \<equiv> random_bytes E 16"
  defines "psalt \<equiv> prov_salt_of mac salt own rd"
  shows "\<exists>w1 w2 w3 w4 out mic n. prov_data_ready E r ([PROXY_PROVISIONING_PDU, PROV_PUB_KEY] @ pk) w = Ret (w1, True) \<and>
    prov_data_ready E r ([PROXY_PROVISIONING_PDU, PROV_CONFIRM] @ mac ck (rd @ auth)) w1 = Ret (w2, gatt_ok E) \<and>
    prov_data_ready E r ([PROXY_PROVISIONING_PDU, PROV_RANDOM] @ rd) w2 = Ret (w3, True) \<and>
    prov_data_ready E r [PROXY_PROVISIONING_PDU, PROV_COMPLETE] w3 = Ret (w4, True) \<and>
    log w3 = log w @ [Prov_write ([PROXY_PROVISIONING_PDU, PROV_CONFIRM] @ mac ck (own @ auth)) No_cb r,
      Prov_write ([PROXY_PROVISIONING_PDU, PROV_RANDOM] @ own) No_cb r,
      Prov_write ([PROXY_PROVISIONING_PDU, PROV_DATA] @ out) No_cb r] \<and>
    log w4 = log w3 @ (if p_done p then [Prov_done r 0] else []) \<and>
    mesh_crypto_aes_ccm_decrypt (p_alg E) (session_nonce_of mac s psalt) (session_key_of mac s psalt) [] out False 8 =
      Ret (prov_plain nk (p_net_idx p) (prov_flags w (p_net_idx p)) (iv_index (net w)) (p_new_addr p), mic) \<and>
    prov_at w4 r = None \<and> node_at w4 r = Some n \<and> dev_key n = device_key_of mac s psalt \<and> primary n = p_new_addr p \<and>
    num_ele n = caps_num_ele p \<and> p_net_idx p \<in> set (n_net_keys n)"
  using no_oob_core [OF assms(1-12)] assms(13) unfolding auth_def own_def psalt_def by simp

theorem no_oob_provisioning_completes_witness:
  "\<exists>w1 w2 w3 w4 pk c n. prov_data_ready demo_penv 5 ([PROXY_PROVISIONING_PDU, PROV_PUB_KEY] @ pk) (demo_pworld (blank_prov\<lparr>p_state := PROV_PUB_KEY, p_new_addr := 0x105\<rparr>)) = Ret (w1, True) \<and>
    ecc_valid_public_key (swap_pub_key pk) \<and>
    prov_data_ready demo_penv 5 ([PROXY_PROVISIONING_PDU, PROV_CONFIRM] @ c) w1 = Ret (w2, True) \<and>
    prov_data_ready demo_penv 5 ([PROXY_PROVISIONING_PDU, PROV_RANDOM] @ replicate 16 3) w2 = Ret (w3, True) \<and>
    prov_data_ready demo_penv 5 [PROXY_PROVISIONING_PDU, PROV_COMPLETE] w3 = Ret (w4, True) \<and> node_at w4 5 = Some n \<and> primary n = 0x105"
proof -
  let ?p = "blank_prov\<lparr>p_state := PROV_PUB_KEY, p_new_addr := 0x105\<rparr>"
  define pk where "pk = swap_pub_key (ecc_native2bytes [0, 0, 0, 0] @ ecc_native2bytes demo_y)"
  have b: "bytes_point (swap_pub_key pk) = \<lparr>px = [0, 0, 0, 0], py = demo_y\<rparr>" unfolding pk_def by code_simp
  then have v: "ecc_valid_public_key (swap_pub_key pk)" using demo_point_valid by (simp add: ecc_valid_public_key_def)
  then obtain secret ok where e: "ecdh_shared_secret (dh_rnd demo_penv) (swap_pub_key pk) (eph_priv_key ?p) = (Some secret, ok)"
    by (auto simp: ecdh_shared_secret_def ecc_valid_public_key_def demo_penv_def Let_def)
  obtain s salt ck where a: "agreed demo_mac secret ((conf_in ?p)\<lparr>dev_pub_key := pk\<rparr>) = (s, salt, ck)" by (metis prod_cases3)
  have p: "prov_ok ?p" "p_state ?p = PROV_PUB_KEY" "start_pub_key (start (conf_in ?p)) = 0" "auth_method (start (conf_in ?p)) = 0"
    "length pk = 64" "p_net_idx ?p = 0" "p_new_addr ?p = 0x105" "gatt_ok demo_penv = True"
    by (simp_all add: prov_ok_def blank_prov_def pk_def demo_penv_def)
  have k: "net_get_key (keys (demo_pworld ?p)) (p_net_idx ?p) = Some (replicate 16 1)" unfolding p by (rule demo_pworld_facts)
  have A: "cmac_is (p_alg demo_penv) demo_mac" "alg_wf (p_alg demo_penv)" "\<And>k. ecb_is (p_alg demo_penv) k (demo_E k)"
    unfolding demo_pworld_facts by (rule demo_cmac_is demo_alg_wf demo_alg_ecb)+
  from no_oob_provisioning_completes [OF demo_pworld_facts(1) p(1-5) e A(1,3,2) k _ a, of "replicate 16 3"] v show ?thesis
    unfolding p length_replicate by blast
qed

text \<open>
  A public key that is not on the curve is not refused. The result of
  \<^verbatim>\<open>ecdh_shared_secret\<close> is ignored: when the device sends such a key, the secret stays
  what it was, 32 zero octets in a new session. A peer that knows no private key
  at all confirms with the zero secret and receives the network key.
\<close>

lemma invalid_public_key_accepted:
  assumes "prov_at w r = Some p" "prov_ok p" "p_state p = PROV_PUB_KEY" "start_pub_key (start (conf_in p)) = 0" "auth_method (start (conf_in p)) = 0"
    and "length pk = 64" "\<not> ecc_valid_public_key (swap_pub_key pk)" "ecdh_secret p = replicate 32 0" "rand_auth p = replicate 32 0"
    and "cmac_is (p_alg E) mac" "\<And>k. ecb_is (p_alg E) k (enc k)" "alg_wf (p_alg E)" "net_get_key (keys w) (p_net_idx p) = Some nk"
    and "length rd = 16"
  defines "salt \<equiv> mac (replicate 16 0) (conf_in_bytes ((conf_in p)\<lparr>dev_pub_key := pk\<rparr>))"
  defines "ck \<equiv> conf_key_of mac (replicate 32 0) salt" and "psalt \<equiv> prov_salt_of mac salt (random_bytes E 16) rd"
  shows "\<exists>w1 w2 w3 out mic. prov_data_ready E r ([PROXY_PROVISIONING_PDU, PROV_PUB_KEY] @ pk) w = Ret (w1, True) \<and>
    prov_data_ready E r ([PROXY_PROVISIONING_PDU, PROV_CONFIRM] @ mac ck (rd @ replicate 16 0)) w1 = Ret (w2, gatt_ok E) \<and>
    prov_data_ready E r ([PROXY_PROVISIONING_PDU, PROV_RANDOM] @ rd) w2 = Ret (w3, True) \<and>
    mesh_crypto_aes_ccm_decrypt (p_alg E) (session_nonce_of mac (replicate 32 0) psalt) (session_key_of mac (replicate 32 0) psalt) [] out False 8 =
      Ret (prov_plain nk (p_net_idx p) (prov_flags w (p_net_idx p)) (iv_index (net w)) (p_new_addr p), mic) \<and>
    Prov_write ([PROXY_PROVISIONING_PDU, PROV_DATA] @ out) No_cb r \<in> set (log w3)"
proof -
  obtain sec ok where e: "ecdh_shared_secret (dh_rnd E) (swap_pub_key pk) (eph_priv_key p) = (sec, ok)" by fastforce
  with assms(7) have sec: "sec = None" by (auto simp: ecdh_shared_secret_def ecc_valid_public_key_def Let_def split: option.splits if_splits)
  have "swap_u256_bytes (replicate 32 0) = replicate 32 0" by code_simp
  then have a: "agreed mac (case sec of None \<Rightarrow> ecdh_secret p | Some x \<Rightarrow> x) ((conf_in p)\<lparr>dev_pub_key := pk\<rparr>) = (replicate 32 0, salt, ck)"
    by (simp only: sec option.case assms(8) agreed_def Let_def salt_def ck_def)
  have d: "drop 16 (rand_auth p) = replicate 16 0" using assms(9) by simp
  from no_oob_core [OF assms(1-6) e assms(10-14) a] obtain w1 w2 w3 out mic where
    "prov_data_ready E r ([PROXY_PROVISIONING_PDU, PROV_PUB_KEY] @ pk) w = Ret (w1, True)"
    "prov_data_ready E r ([PROXY_PROVISIONING_PDU, PROV_CONFIRM] @ mac ck (rd @ replicate 16 0)) w1 = Ret (w2, gatt_ok E)"
    "prov_data_ready E r ([PROXY_PROVISIONING_PDU, PROV_RANDOM] @ rd) w2 = Ret (w3, True)"
    "log w3 = log w @ [Prov_write ([PROXY_PROVISIONING_PDU, PROV_CONFIRM] @ mac ck (random_bytes E 16 @ replicate 16 0)) No_cb r,
      Prov_write ([PROXY_PROVISIONING_PDU, PROV_RANDOM] @ random_bytes E 16) No_cb r,
      Prov_write ([PROXY_PROVISIONING_PDU, PROV_DATA] @ out) No_cb r]"
    "mesh_crypto_aes_ccm_decrypt (p_alg E) (session_nonce_of mac (replicate 32 0) psalt) (session_key_of mac (replicate 32 0) psalt) [] out False 8 =
      Ret (prov_plain nk (p_net_idx p) (prov_flags w (p_net_idx p)) (iv_index (net w)) (p_new_addr p), mic)"
    unfolding d psalt_def by blast
  then show ?thesis by auto
qed

text \<open>The key of 64 zero octets.\<close>

lemma invalid_public_key_accepted_witness:
  "\<exists>w1 w2 w3 out c. prov_data_ready demo_penv 5 ([PROXY_PROVISIONING_PDU, PROV_PUB_KEY] @ replicate 64 0) (demo_pworld (blank_prov\<lparr>p_state := PROV_PUB_KEY\<rparr>)) = Ret (w1, True) \<and>
    prov_data_ready demo_penv 5 ([PROXY_PROVISIONING_PDU, PROV_CONFIRM] @ c) w1 = Ret (w2, True) \<and>
    prov_data_ready demo_penv 5 ([PROXY_PROVISIONING_PDU, PROV_RANDOM] @ replicate 16 3) w2 = Ret (w3, True) \<and>
    Prov_write ([PROXY_PROVISIONING_PDU, PROV_DATA] @ out) No_cb 5 \<in> set (log w3)"
proof -
  let ?p = "blank_prov\<lparr>p_state := PROV_PUB_KEY\<rparr>"
  have i: "\<not> ecc_valid_public_key (swap_pub_key (replicate 64 0))" by code_simp
  have p: "prov_ok ?p" "p_state ?p = PROV_PUB_KEY" "start_pub_key (start (conf_in ?p)) = 0" "auth_method (start (conf_in ?p)) = 0"
    "length (replicate 64 0) = 64" "ecdh_secret ?p = replicate 32 0" "rand_auth ?p = replicate 32 0" "p_net_idx ?p = 0" "gatt_ok demo_penv = True"
    by (simp_all add: prov_ok_def blank_prov_def demo_penv_def)
  have k: "net_get_key (keys (demo_pworld ?p)) (p_net_idx ?p) = Some (replicate 16 1)" unfolding p by (rule demo_pworld_facts)
  have A: "cmac_is (p_alg demo_penv) demo_mac" "alg_wf (p_alg demo_penv)" "\<And>k. ecb_is (p_alg demo_penv) k (demo_E k)"
    unfolding demo_pworld_facts by (rule demo_cmac_is demo_alg_wf demo_alg_ecb)+
  from invalid_public_key_accepted [OF demo_pworld_facts(1) p(1-5) i p(6,7) A(1,3,2) k, of "replicate 16 3"] show ?thesis
    unfolding p length_replicate by blast
qed

end
