(* ===== verification/Mesh_Packet.thy ===== *)
theory Mesh_Packet
  imports Mesh_World
begin

text \<open>
  The packet macros of \<^verbatim>\<open>mesh/net.c\<close>. A network packet is a buffer \<open>p\<close>; the
  \<open>PKT_\<close> macros count octets from the start of the network header, the \<open>TRANS_\<close>
  macros from the start of the lower transport PDU, nine octets later. The
  setters return the changed buffer.
\<close>

section \<open>Network layer fields\<close>

definition put_flag :: "bool \<Rightarrow> bytes \<Rightarrow> nat \<Rightarrow> bytes" where
  "put_flag v p i = p[i := (byte_at p i AND 0x7f) OR (if v then 0x80 else 0)]"

definition put_low7 :: "u8 \<Rightarrow> bytes \<Rightarrow> nat \<Rightarrow> bytes" where
  "put_low7 v p i = p[i := (byte_at p i AND 0x80) OR v]"

definition get_flag :: "bytes \<Rightarrow> nat \<Rightarrow> bool" where
  "get_flag p i \<longleftrightarrow> byte_at p i AND 0x80 \<noteq> 0"

definition get_low7 :: "bytes \<Rightarrow> nat \<Rightarrow> u8" where
  "get_low7 p i = byte_at p i AND 0x7f"

definition PKT_IVI :: "bytes \<Rightarrow> bool" where "PKT_IVI p = get_flag p 0"
definition SET_PKT_IVI :: "bytes \<Rightarrow> bool \<Rightarrow> bytes" where "SET_PKT_IVI p v = put_flag v p 0"
definition PKT_NID :: "bytes \<Rightarrow> u8" where "PKT_NID p = get_low7 p 0"
definition SET_PKT_NID :: "bytes \<Rightarrow> u8 \<Rightarrow> bytes" where "SET_PKT_NID p v = put_low7 v p 0"
definition PKT_CTL :: "bytes \<Rightarrow> bool" where "PKT_CTL p = get_flag p 1"
definition SET_PKT_CTL :: "bytes \<Rightarrow> bool \<Rightarrow> bytes" where "SET_PKT_CTL p v = put_flag v p 1"
definition PKT_TTL :: "bytes \<Rightarrow> u8" where "PKT_TTL p = get_low7 p 1"
definition SET_PKT_TTL :: "bytes \<Rightarrow> u8 \<Rightarrow> bytes" where "SET_PKT_TTL p v = put_low7 v p 1"
definition PKT_SEQ :: "bytes \<Rightarrow> u32" where "PKT_SEQ p = get_be32 p 1 AND 0xffffff"
definition SET_PKT_SEQ :: "bytes \<Rightarrow> u32 \<Rightarrow> bytes" where
  "SET_PKT_SEQ p v = put_be32 (push_bit 24 (ucast (byte_at p 1)) + (v AND 0xffffff)) p 1"
definition PKT_SRC :: "bytes \<Rightarrow> u16" where "PKT_SRC p = get_be16 p 5"
definition SET_PKT_SRC :: "bytes \<Rightarrow> u16 \<Rightarrow> bytes" where "SET_PKT_SRC p v = put_be16 v p 5"
definition PKT_DST :: "bytes \<Rightarrow> u16" where "PKT_DST p = get_be16 p 7"
definition SET_PKT_DST :: "bytes \<Rightarrow> u16 \<Rightarrow> bytes" where "SET_PKT_DST p v = put_be16 v p 7"

definition PKT_SEGMENTED :: "bytes \<Rightarrow> bool" where "PKT_SEGMENTED p = get_flag p 9"
definition SET_PKT_SEGMENTED :: "bytes \<Rightarrow> bool \<Rightarrow> bytes" where "SET_PKT_SEGMENTED p v = put_flag v p 9"
definition SET_PKT_AKF_AID :: "bytes \<Rightarrow> u8 \<Rightarrow> bytes" where "SET_PKT_AKF_AID p v = put_low7 v p 9"
definition PKT_OPCODE :: "bytes \<Rightarrow> u8" where "PKT_OPCODE p = get_low7 p 9"
definition SET_PKT_OPCODE :: "bytes \<Rightarrow> u8 \<Rightarrow> bytes" where "SET_PKT_OPCODE p v = put_low7 v p 9"
definition PKT_OBO :: "bytes \<Rightarrow> bool" where "PKT_OBO p = get_flag p 10"
definition SET_PKT_SZMIC :: "bytes \<Rightarrow> bool \<Rightarrow> bytes" where "SET_PKT_SZMIC p v = put_flag v p 10"

definition get_seq0 :: "bytes \<Rightarrow> nat \<Rightarrow> u16" where
  "get_seq0 b i = drop_bit 2 (get_be16 b i) AND 0x1fff"
definition put_seq0 :: "u32 \<Rightarrow> bytes \<Rightarrow> nat \<Rightarrow> bytes" where
  "put_seq0 v b i = put_be16 ((get_be16 b i AND 0x8003) OR push_bit 2 (ucast v AND 0x1fff)) b i"

definition PKT_SEQ0 :: "bytes \<Rightarrow> u16" where "PKT_SEQ0 p = get_seq0 p 10"
definition SET_PKT_SEQ0 :: "bytes \<Rightarrow> u32 \<Rightarrow> bytes" where "SET_PKT_SEQ0 p v = put_seq0 v p 10"
definition SET_PKT_SEGO :: "bytes \<Rightarrow> u8 \<Rightarrow> bytes" where
  "SET_PKT_SEGO p v = put_be16 ((get_be16 p 11 AND 0xfc1f) OR push_bit 5 (ucast v)) p 11"
definition SET_PKT_SEGN :: "bytes \<Rightarrow> u8 \<Rightarrow> bytes" where
  "SET_PKT_SEGN p v = p[12 := (byte_at p 12 AND 0xe0) OR v]"
definition PKT_ACK :: "bytes \<Rightarrow> u32" where "PKT_ACK p = get_be32 p 12"

section \<open>Transport layer fields\<close>

definition TRANS_SEGMENTED :: "bytes \<Rightarrow> bool" where "TRANS_SEGMENTED t = get_flag t 0"
definition TRANS_OPCODE :: "bytes \<Rightarrow> u8" where "TRANS_OPCODE t = get_low7 t 0"
definition SET_TRANS_OPCODE :: "bytes \<Rightarrow> u8 \<Rightarrow> bytes" where "SET_TRANS_OPCODE t v = put_low7 v t 0"
definition TRANS_AKF_AID :: "bytes \<Rightarrow> u8" where "TRANS_AKF_AID t = get_low7 t 0"
definition TRANS_AKF :: "bytes \<Rightarrow> bool" where "TRANS_AKF t \<longleftrightarrow> byte_at t 0 AND 0x40 \<noteq> 0"
definition TRANS_SZMIC :: "bytes \<Rightarrow> bool" where "TRANS_SZMIC t \<longleftrightarrow> TRANS_SEGMENTED t \<and> get_flag t 1"
definition TRANS_SEQ0 :: "bytes \<Rightarrow> u16" where "TRANS_SEQ0 t = get_seq0 t 1"
definition SET_TRANS_SEQ0 :: "bytes \<Rightarrow> u32 \<Rightarrow> bytes" where "SET_TRANS_SEQ0 t v = put_seq0 v t 1"
definition SET_TRANS_ACK :: "bytes \<Rightarrow> u32 \<Rightarrow> bytes" where "SET_TRANS_ACK t v = put_be32 v t 3"
definition TRANS_SEGO :: "bytes \<Rightarrow> u8" where "TRANS_SEGO t = ucast (drop_bit 5 (get_be16 t 2) AND 0x1f)"
definition TRANS_SEGN :: "bytes \<Rightarrow> u8" where "TRANS_SEGN t = byte_at t 3 AND 0x1f"

text \<open>\<^verbatim>\<open>TRANS_PAYLOAD\<close> and \<^verbatim>\<open>TRANS_LEN\<close>; the length is passed on as a \<^verbatim>\<open>uint16_t\<close>.\<close>

definition trans_hdr :: "bytes \<Rightarrow> nat" where "trans_hdr t = (if TRANS_SEGMENTED t then 4 else 1)"
definition TRANS_PAYLOAD :: "bytes \<Rightarrow> bytes" where "TRANS_PAYLOAD t = drop (trans_hdr t) t"
definition TRANS_LEN :: "bytes \<Rightarrow> u16 \<Rightarrow> u16" where "TRANS_LEN t l = l - of_nat (trans_hdr t)"

lemmas field_defs = PKT_IVI_def SET_PKT_IVI_def PKT_NID_def SET_PKT_NID_def PKT_CTL_def SET_PKT_CTL_def
  PKT_TTL_def SET_PKT_TTL_def PKT_SEQ_def SET_PKT_SEQ_def PKT_SRC_def SET_PKT_SRC_def PKT_DST_def SET_PKT_DST_def
  PKT_SEGMENTED_def SET_PKT_SEGMENTED_def SET_PKT_AKF_AID_def PKT_OPCODE_def SET_PKT_OPCODE_def PKT_OBO_def
  SET_PKT_SZMIC_def PKT_SEQ0_def SET_PKT_SEQ0_def SET_PKT_SEGO_def SET_PKT_SEGN_def PKT_ACK_def
  TRANS_SEGMENTED_def TRANS_OPCODE_def SET_TRANS_OPCODE_def TRANS_AKF_AID_def TRANS_AKF_def TRANS_SZMIC_def
  TRANS_SEQ0_def SET_TRANS_SEQ0_def SET_TRANS_ACK_def TRANS_SEGO_def TRANS_SEGN_def

end
