(* ===== verification/Mesh_NetOut.thy ===== *)
theory Mesh_NetOut
  imports Mesh_Packet Mesh_Node
begin

text \<open>
  The sending half of \<^verbatim>\<open>mesh/net.c\<close>: sequence numbers, the queue of encoded
  packets, segmentation of access messages, control messages, and the proxy
  filter.

  \<open>tx_alg\<close> are the kernel's cipher operations. \<open>tx_left\<close> is what a buffer holds
  after an encoder that failed half way: the code ignores that failure. The
  completion of a GATT write, \<open>send_pkt_cmplt\<close>, is an operation of its own, run
  by the main loop after the operation that wrote. An outgoing message is known
  by its destination, as \<open>find_sar_out_by_dst\<close> finds it.
\<close>

record tx_env =
  tx_alg :: af_alg
  tx_left :: "bytes \<Rightarrow> bytes"

definition PROXY_NETWORK_PDU :: u8 where [mesh_defs]: "PROXY_NETWORK_PDU = 0x00"
definition PROXY_MESH_BEACON :: u8 where [mesh_defs]: "PROXY_MESH_BEACON = 0x01"
definition PROXY_CONFIG_PDU :: u8 where [mesh_defs]: "PROXY_CONFIG_PDU = 0x02"
definition NET_OP_SEG_ACKNOWLEDGE :: u8 where [mesh_defs]: "NET_OP_SEG_ACKNOWLEDGE = 0x00"
definition NET_OP_HEARTBEAT :: u8 where [mesh_defs]: "NET_OP_HEARTBEAT = 0x0a"

section \<open>Sequence numbers\<close>

definition get_next_seq :: "'a world_scheme \<Rightarrow> 'a world_scheme \<times> u32" where
  "get_next_seq w =
     (let this_seq = seq_num (net w);
          w1 = upd_net (\<lambda>n. n\<lparr>seq_num := this_seq + 1\<rparr>) w
      in if seq_num (net w1) + 32 \<ge> seq_num_reserved (net w1)
         then (emit (Db_local_seq_num (seq_num (net w1) + 100))
                 (upd_net (\<lambda>n. n\<lparr>seq_num_reserved := seq_num n + 100\<rparr>) w1), this_seq)
         else (w1, this_seq))"

section \<open>The packet queue\<close>

definition send_mesh_pkt :: "bytes \<Rightarrow> 'a world_scheme \<Rightarrow> 'a world_scheme" where
  "send_mesh_pkt pkt w =
     (let queued = (pkt_out (net w) \<noteq> []);
          w1 = upd_net (\<lambda>n. n\<lparr>pkt_out := pkt_out n @ [pkt]\<rparr>) w
      in if queued then w1 else emit (Gatt_write pkt) w1)"

section \<open>One segment\<close>

definition sar_part :: "mesh_net_key \<Rightarrow> net_key_parts" where
  "sar_part nk = (if phase nk = 2 \<and> nid (nk_new nk) \<noteq> 0xff then nk_new nk else nk_current nk)"

definition bool_nat :: "bool \<Rightarrow> nat" where "bool_nat b = (if b then 1 else 0)"

text \<open>The network header and the first transport octet, in a cleared packet buffer.\<close>

definition seg_header :: "net_key_parts \<Rightarrow> mesh_sar_msg \<Rightarrow> u32 \<Rightarrow> bytes" where
  "seg_header part sar seq =
     (let d = SET_PKT_NID (replicate 29 0) (nid part);
          d = SET_PKT_IVI d (sar_iv_index sar AND 1 \<noteq> 0);
          d = SET_PKT_CTL d (sar_ctl sar);
          d = SET_PKT_TTL d (sar_ttl sar);
          d = SET_PKT_SEQ d seq;
          d = SET_PKT_SRC d (sar_src sar);
          d = SET_PKT_DST d (ucast (sar_dst sar));
          d = SET_PKT_SEGMENTED d (segmented sar)
      in if sar_ctl sar then SET_PKT_OPCODE d (byte_at (sar_data sar) 0)
         else SET_PKT_AKF_AID d (sar_akf_aid sar))"

text \<open>
  The unencrypted packet and its length before the MIC. A segmented message has
  more than 15 octets, so the subtraction of the length stays positive.
\<close>

definition seg_build :: "net_key_parts \<Rightarrow> mesh_sar_msg \<Rightarrow> u8 \<Rightarrow> u32 \<Rightarrow> bytes \<times> u8" where
  "seg_build part sar seg seq =
     (let d = seg_header part sar seq; c = bool_nat (sar_ctl sar) in
      if segmented sar then
        let d = (if \<not> sar_ctl sar then SET_PKT_SZMIC d (szmic sar) else d);
            d = SET_PKT_SEQ0 d (seqAuth sar);
            d = SET_PKT_SEGO d seg;
            d = SET_PKT_SEGN d (segN sar);
            d = memcpy d 13 (sub_bytes (sar_data sar) (c + unat seg * 12) 12);
            l = 9 + 4 + (if segN sar = seg then of_nat ((unat (sar_len sar) - c) mod 12) else 0)
        in (d, if l = 9 + 4 then l + 12 else l)
      else (memcpy d 10 (sub_bytes (sar_data sar) c 15), 9 + 1 + ucast (sar_len sar) - of_nat c))"

definition seg_reads_ok :: "mesh_sar_msg \<Rightarrow> u8 \<Rightarrow> bool" where
  "seg_reads_ok sar seg \<longleftrightarrow>
     bool_nat (sar_ctl sar) + (if segmented sar then unat seg * 12 + 12 else 15) \<le> length (sar_data sar)"

definition send_seg :: "tx_env \<Rightarrow> mesh_sar_msg \<Rightarrow> u8 \<Rightarrow> 'a world_scheme \<Rightarrow> 'a world_scheme cres" where
  "send_seg E sar seg w =
     (case find_net_key_by_idx (keys w) (sar_net_idx sar) of
        None \<Rightarrow> Ret w
      | Some nk \<Rightarrow>
          let part = sar_part nk;
              (w1, seq) = get_next_seq w;
              (d, l) = seg_build part sar seg seq;
              len = l + (if sar_ctl sar then 8 else 4);
              t = (if sar_proxy sar then PROXY_CONFIG_PDU else PROXY_NETWORK_PDU)
          in cguard (seg_reads_ok sar seg \<and> unat len \<le> 29)
            (case mesh_crypto_packet_encode (tx_alg E) (take (unat len) d) (enc_key part) (sar_iv_index sar) (privacy_key part) of
               Ret out \<Rightarrow> Ret (send_mesh_pkt (t # out) w1)
             | Fail \<Rightarrow> Ret (send_mesh_pkt (t # tx_left E (take (unat len) d)) w1)
             | Fault \<Rightarrow> Fault))"

fun send_segs :: "tx_env \<Rightarrow> mesh_sar_msg \<Rightarrow> u8 list \<Rightarrow> 'a world_scheme \<Rightarrow> 'a world_scheme cres" where
  "send_segs E sar [] w = Ret w"
| "send_segs E sar (i # is) w = cbind (send_seg E sar i w) (send_segs E sar is)"

section \<open>Outgoing segmented messages\<close>

definition find_sar_out_by_dst :: "'a world_scheme \<Rightarrow> u16 \<Rightarrow> mesh_sar_msg option" where
  "find_sar_out_by_dst w dst = find (\<lambda>s. sar_dst s = ucast dst) (msg_out (net w))"

definition flush_out :: "u32 \<Rightarrow> 'a world_scheme \<Rightarrow> 'a world_scheme" where
  "flush_out dst w = upd_net (\<lambda>n. n\<lparr>msg_out := delete_first (\<lambda>s. sar_dst s = dst) (msg_out n)\<rparr>) w"

definition upd_out :: "u32 \<Rightarrow> (mesh_sar_msg \<Rightarrow> mesh_sar_msg) \<Rightarrow> 'a world_scheme \<Rightarrow> 'a world_scheme" where
  "upd_out dst f w = upd_net (\<lambda>n. n\<lparr>msg_out := update_first (\<lambda>s. sar_dst s = dst) f (msg_out n)\<rparr>) w"

definition all_segs :: "mesh_sar_msg \<Rightarrow> u8 list" where
  "all_segs sar = map of_nat [0..<unat (segN sar) + 1]"

definition unacked_segs :: "mesh_sar_msg \<Rightarrow> u8 list" where
  "unacked_segs sar = filter (\<lambda>i. push_bit (unat i) 1 AND ack sar = 0) (all_segs sar)"

definition resend_segs :: "tx_env \<Rightarrow> mesh_sar_msg \<Rightarrow> 'a world_scheme \<Rightarrow> 'a world_scheme cres" where
  "resend_segs E sar w =
     send_segs E sar (unacked_segs sar) (upd_out (sar_dst sar) (\<lambda>s. s\<lparr>activity_cnt := 0\<rparr>) w)"

fun resend_unacked_segs :: "tx_env \<Rightarrow> mesh_sar_msg list \<Rightarrow> 'a world_scheme \<Rightarrow> 'a world_scheme cres" where
  "resend_unacked_segs E [] w = Ret w"
| "resend_unacked_segs E (s # ss) w =
     (if activity_cnt s \<noteq> 0 then cbind (resend_segs E s w) (resend_unacked_segs E ss)
      else resend_unacked_segs E ss w)"

text \<open>The packet whose write completed is the head of the queue, as the queue is written in order.\<close>

definition send_pkt_cmplt :: "tx_env \<Rightarrow> 'a world_scheme \<Rightarrow> 'a world_scheme cres" where
  "send_pkt_cmplt E w =
     (let w1 = upd_net (\<lambda>n. n\<lparr>pkt_out := drop 1 (pkt_out n)\<rparr>) w
      in (case pkt_out (net w1) of
            [] \<Rightarrow> resend_unacked_segs E (msg_out (net w1)) w1
          | pkt # _ \<Rightarrow> Ret (emit (Gatt_write pkt) w1)))"

definition full_ack :: "u8 \<Rightarrow> u32" where
  "full_ack n = drop_bit (31 - unat n) 0xffffffff"

text \<open>\<open>seq0\<close> is not compared with the message in progress.\<close>

definition ack_rxed :: "tx_env \<Rightarrow> u16 \<Rightarrow> u16 \<Rightarrow> bool \<Rightarrow> u16 \<Rightarrow> u32 \<Rightarrow> 'a world_scheme \<Rightarrow> ('a world_scheme \<times> bool) cres" where
  "ack_rxed E src dst obo seq0 ack_flags w =
     (case find_sar_out_by_dst w src of
        None \<Rightarrow> Ret (w, True)
      | Some sar0 \<Rightarrow>
          cguard (unat (segN sar0) \<le> 31)
          (let sar = sar0\<lparr>ack := ack sar0 OR (ack_flags AND full_ack (segN sar0))\<rparr>
           in if ack sar = full_ack (segN sar) then Ret (flush_out (sar_dst sar) w, True)
              else
                let sar1 = sar\<lparr>activity_cnt := activity_cnt sar + 1\<rparr>;
                    w1 = upd_out (sar_dst sar) (\<lambda>_. sar1) w
                in if pkt_out (net w1) = [] then cbind (resend_segs E sar1 w1) (\<lambda>w2. Ret (w2, True))
                   else Ret (w1, True)))"

definition sar_out_ack_timeout :: "tx_env \<Rightarrow> u32 \<Rightarrow> 'a world_scheme \<Rightarrow> 'a world_scheme cres" where
  "sar_out_ack_timeout E dst w =
     (case find (\<lambda>s. sar_dst s = dst) (msg_out (net w)) of
        None \<Rightarrow> Ret w
      | Some sar0 \<Rightarrow>
          let sar = sar0\<lparr>activity_cnt := activity_cnt sar0 + 1\<rparr>; w1 = upd_out dst (\<lambda>_. sar) w
          in if pkt_out (net w1) = [] then resend_segs E sar w1 else Ret w1)"

definition sar_out_msg_timeout :: "u32 \<Rightarrow> 'a world_scheme \<Rightarrow> 'a world_scheme" where
  "sar_out_msg_timeout dst w = flush_out dst w"

section \<open>Keys of a message\<close>

text \<open>The result is \<^verbatim>\<open>akf_aid\<close>, the key and the network key index.\<close>

definition get_enc_keys :: "'a world_scheme \<Rightarrow> u16 \<Rightarrow> u16 \<Rightarrow> (u8 \<times> bytes \<times> u16) option" where
  "get_enc_keys w app_idx dst =
     (if app_idx = APP_IDX_DEV then
        let remote = (if provisioner (net w) then Option.bind (node_find_by_addr w dst) (node_at w) else None);
            node = (case remote of Some n \<Rightarrow> Some n | None \<Rightarrow> local_node_rec w)
        in (case node of None \<Rightarrow> None | Some n \<Rightarrow> Some (0, dev_key n, node_get_primary_net_idx (Some n)))
      else (case find_app_key_by_idx (keys w) app_idx of None \<Rightarrow> None
        | Some ak \<Rightarrow>
            (case find_net_key_by_idx (keys w) (ak_net_idx ak) of None \<Rightarrow> None
             | Some nk \<Rightarrow>
                 if phase nk = 2 \<and> akf_aid (ak_new ak) \<noteq> 0xff
                 then Some (akf_aid (ak_new ak), key (ak_new ak), ak_net_idx ak)
                 else Some (akf_aid (ak_current ak), key (ak_current ak), ak_net_idx ak))))"

definition tx_iv_index :: "mesh_net \<Rightarrow> u32" where
  "tx_iv_index n = iv_index n - (if iv_update n then 1 else 0)"

definition blank_sar :: "nat \<Rightarrow> mesh_sar_msg" where
  "blank_sar n = \<lparr>ack_to = False, msg_to = False, sar_iv_index = 0, seqAuth = 0, ack = 0, sar_dst = 0,
     sar_src = 0, sar_net_idx = 0, sar_len = 0, sar_akf_aid = 0, sar_ttl = 0, segN = 0, activity_cnt = 0,
     sar_ctl = False, segmented = False, szmic = False, sar_proxy = False, sar_data = replicate (20 + n) 0\<rparr>"

section \<open>Control messages and the proxy filter\<close>

definition net_ctl_msg_send ::
  "tx_env \<Rightarrow> u8 \<Rightarrow> u16 \<Rightarrow> u16 \<Rightarrow> bytes \<Rightarrow> 'a world_scheme \<Rightarrow> ('a world_scheme \<times> bool) cres" where
  "net_ctl_msg_send E ttl src0 dst buf w =
     (if length buf > 12 \<or> local_node_rec w = None \<or> byte_at buf 0 AND 0x80 \<noteq> 0 then Ret (w, False)
      else
        let src = (if src0 = 0 then node_get_primary (local_node_rec w) else src0)
        in if src = 0 then Ret (w, False)
           else
             let sar = (blank_sar 0)\<lparr>
                   sar_proxy := (dst = 0),
                   sar_net_idx := (case get_enc_keys w APP_IDX_DEV dst of None \<Rightarrow> 0 | Some (_, _, i) \<Rightarrow> i),
                   sar_ctl := True,
                   sar_iv_index := tx_iv_index (net w),
                   sar_ttl := (if ttl = 0xff then default_ttl (net w) else ttl),
                   sar_src := src, sar_dst := ucast dst, sar_len := of_nat (length buf),
                   sar_data := memcpy (replicate 20 0) 0 buf\<rparr>
             in cbind (send_seg E sar 0 w) (\<lambda>w1. Ret (w1, True)))"

definition FILTER_SETUP :: u8 where [mesh_defs]: "FILTER_SETUP = 0"
definition FILTER_ADD :: u8 where [mesh_defs]: "FILTER_ADD = 1"
definition FILTER_STATUS :: u8 where [mesh_defs]: "FILTER_STATUS = 3"
definition WHITELIST_FILTER :: u8 where [mesh_defs]: "WHITELIST_FILTER = 0"
definition BLACKLIST_FILTER :: u8 where [mesh_defs]: "BLACKLIST_FILTER = 1"

definition net_dest_ref :: "u16 \<Rightarrow> 'a world_scheme \<Rightarrow> 'a world_scheme" where
  "net_dest_ref dst w =
     (if dst = 0 then w
      else (case find (\<lambda>d. snd d = dst) (dest (net w)) of
          Some _ \<Rightarrow> upd_net (\<lambda>n. n\<lparr>dest := update_first (\<lambda>d. snd d = dst) (\<lambda>(c, d). (c + 1, d)) (dest n)\<rparr>) w
        | None \<Rightarrow> upd_net (\<lambda>n. n\<lparr>dest := dest n @ [(1, dst)]\<rparr>) w))"

definition net_dest_unref :: "u16 \<Rightarrow> 'a world_scheme \<Rightarrow> 'a world_scheme" where
  "net_dest_unref dst w =
     (case find (\<lambda>d. snd d = dst) (dest (net w)) of
        None \<Rightarrow> w
      | Some (c, _) \<Rightarrow>
          if c - 1 = 0 then upd_net (\<lambda>n. n\<lparr>dest := delete_first (\<lambda>d. snd d = dst) (dest n)\<rparr>) w
          else upd_net (\<lambda>n. n\<lparr>dest := update_first (\<lambda>d. snd d = dst) (\<lambda>(c, d). (c - 1, d)) (dest n)\<rparr>) w)"

text \<open>The octets of \<^verbatim>\<open>struct build_whitelist\<close> filled so far, and the message when the block is full.\<close>

definition whitefilter_add :: "tx_env \<Rightarrow> u16 \<Rightarrow> bytes \<times> 'a world_scheme \<Rightarrow> (bytes \<times> 'a world_scheme) cres" where
  "whitefilter_add E dst = (\<lambda>(white, w).
     let white1 = (if white = [] then [FILTER_ADD] else white) @ [be16_hi dst, be16_lo dst]
     in if length white1 > 12 - 2
        then cbind (net_ctl_msg_send E 0 0 0 white1 w) (\<lambda>(w1, _). Ret ([], w1))
        else Ret (white1, w))"

fun whitefilter_all :: "tx_env \<Rightarrow> (u16 \<times> u16) list \<Rightarrow> bytes \<times> 'a world_scheme \<Rightarrow> (bytes \<times> 'a world_scheme) cres" where
  "whitefilter_all E [] s = Ret s"
| "whitefilter_all E (d # ds) s = cbind (whitefilter_add E (snd d) s) (whitefilter_all E ds)"

definition setup_whitelist :: "tx_env \<Rightarrow> 'a world_scheme \<Rightarrow> 'a world_scheme cres" where
  "setup_whitelist E w =
     cbind (net_ctl_msg_send E 0 0 0 [FILTER_SETUP, WHITELIST_FILTER] w) (\<lambda>(w1, _).
     cbind (whitefilter_all E (dest (net w1)) ([], w1)) (\<lambda>(white, w2).
       if white = [] then Ret w2
       else cbind (net_ctl_msg_send E 0 0 0 white w2) (\<lambda>(w3, _). Ret w3)))"

section \<open>Access messages\<close>

definition match_virt_dst :: "u32 \<Rightarrow> mesh_virt_addr \<Rightarrow> bool" where
  "match_virt_dst dst v \<longleftrightarrow> (dst < 0x10000 \<and> dst = ucast (va16 v)) \<or> dst = va32 v"

definition find_virt_by_dst :: "'a world_scheme \<Rightarrow> u32 \<Rightarrow> mesh_virt_addr option" where
  "find_virt_by_dst w dst = find (match_virt_dst dst) (virt_addrs w)"

text \<open>
  \<open>access_target\<close> resolves a virtual destination to its address and label.
  The count of the message that reaches the encryption is its length modulo 256.
\<close>

definition access_target :: "'a world_scheme \<Rightarrow> u32 \<Rightarrow> (u32 \<times> bytes) option" where
  "access_target w dst =
     (if IS_VIRTUAL dst then
        (case find_virt_by_dst w dst of None \<Rightarrow> None | Some v \<Rightarrow> Some (ucast (va16 v), va128 v))
      else Some (dst, []))"

definition access_sar ::
  "tx_env \<Rightarrow> u8 \<Rightarrow> u16 \<Rightarrow> u32 \<Rightarrow> bytes \<Rightarrow> u8 \<times> bytes \<times> u16 \<Rightarrow> bytes \<Rightarrow> mesh_net \<Rightarrow> mesh_sar_msg cres" where
  "access_sar E ttl src dst aad keys3 buf n =
     (case keys3 of (aid, k, net_idx) \<Rightarrow>
      let sN = SEG_MAX (length buf + 4);
          sar = (blank_sar (sN * 12))\<lparr>segmented := (sN \<noteq> 0), sar_ttl := ttl, segN := of_nat sN,
            seqAuth := seq_num n, sar_iv_index := tx_iv_index n, sar_net_idx := net_idx,
            sar_src := src, sar_dst := dst, sar_akf_aid := aid, sar_len := of_nat (length buf) + 4\<rparr>
      in (case mesh_crypto_application_encrypt (tx_alg E) aid (seqAuth sar) src (ucast dst) (sar_iv_index sar)
                 k aad buf (of_nat (length buf)) 4 of
            Ret (out, mic) \<Rightarrow> Ret (sar\<lparr>sar_data := memcpy (sar_data sar) 0 out\<rparr>)
          | Fail \<Rightarrow> Ret (sar\<lparr>sar_data := tx_left E (sar_data sar)\<rparr>)
          | Fault \<Rightarrow> Fault))"

text \<open>The second half of \<open>net_access_layer_send\<close>, once destination and keys are known.\<close>

definition access_send ::
  "tx_env \<Rightarrow> u8 \<Rightarrow> u16 \<Rightarrow> u32 \<Rightarrow> bytes \<Rightarrow> u8 \<times> bytes \<times> u16 \<Rightarrow> bytes \<Rightarrow> 'a world_scheme \<Rightarrow> ('a world_scheme \<times> bool) cres" where
  "access_send E ttl src dst aad keys3 buf w =
     (let sN = SEG_MAX (length buf + 4); acked = (sN \<noteq> 0 \<and> IS_UNICAST dst);
          w1 = (if acked \<and> find_sar_out_by_dst w (ucast dst) \<noteq> None then flush_out dst w else w);
          rounds = (if \<not> IS_UNICAST dst \<and> sN \<noteq> 0 then 5 else 1)
      in cbind (access_sar E ttl src dst aad keys3 buf (net w1)) (\<lambda>sar.
         cbind (send_segs E sar (concat (replicate rounds (all_segs sar))) w1) (\<lambda>w2.
           Ret (if acked then upd_net (\<lambda>n. n\<lparr>msg_out := msg_out n @ [sar\<lparr>ack_to := True, msg_to := True\<rparr>]\<rparr>) w2
                else w2, True))))"

definition net_access_layer_send ::
  "tx_env \<Rightarrow> u8 \<Rightarrow> u16 \<Rightarrow> u32 \<Rightarrow> u16 \<Rightarrow> bytes \<Rightarrow> 'a world_scheme \<Rightarrow> ('a world_scheme \<times> bool) cres" where
  "net_access_layer_send E ttl src0 dst0 app_idx buf w =
     (if length buf > 384 \<or> local_node_rec w = None then Ret (w, False)
      else
        let src = (if src0 = 0 then node_get_primary (local_node_rec w) else src0);
            ttl1 = (if ttl = 0xff then default_ttl (net w) else ttl)
        in if src = 0 \<or> dst0 = 0 then Ret (w, False)
           else (case access_target w dst0 of None \<Rightarrow> Ret (w, False)
             | Some (dst, aad) \<Rightarrow>
               (case get_enc_keys w app_idx (ucast dst) of None \<Rightarrow> Ret (w, False)
                | Some keys3 \<Rightarrow> access_send E ttl1 src dst aad keys3 buf w)))"

end
