(* ===== verification/Mesh_NetIn.thy ===== *)
theory Mesh_NetIn
  imports Mesh_NetOut
begin

text \<open>
  The receiving half of \<^verbatim>\<open>mesh/net.c\<close>: secure network beacons, decoding of
  network packets, reassembly of segmented messages and their acknowledgement,
  decryption of access messages, and the proxy session.

  \<open>recv\<close> is the receive callback of the models, as in \<^theory_text>\<open>Mesh_Node\<close>. A buffer is
  given from the pointer the code holds to the end of the memory that may be
  read; the count the code passes along is a separate argument. An incoming
  message in progress is known by its source, as \<open>find_sar_in_by_src\<close> finds it.
\<close>

definition IV_UPD_INIT :: u8 where [mesh_defs]: "IV_UPD_INIT = 0"
definition IV_UPD_NORMAL :: u8 where [mesh_defs]: "IV_UPD_NORMAL = 1"
definition IV_UPD_UPDATING :: u8 where [mesh_defs]: "IV_UPD_UPDATING = 2"
definition IV_IDX_DIFF_RANGE :: u32 where [mesh_defs]: "IV_IDX_DIFF_RANGE = 42"

section \<open>Secure network beacons\<close>

text \<open>
  The stages of \<open>beacon_update\<close>; \<open>n\<close> is the network state at its start. A new IV
  index restarts the sequence numbers, unless the update to the next index has
  only been announced.
\<close>

definition beacon_rejected :: "bool \<Rightarrow> bool \<Rightarrow> u32 \<Rightarrow> mesh_net \<Rightarrow> bool" where
  "beacon_rejected first iv_upd iv n \<longleftrightarrow>
     \<not> (iv_upd \<and> \<not> iv_update n) \<and> \<not> first \<and> iv_upd \<and> iv \<noteq> iv_index n"

definition beacon_state :: "bool \<Rightarrow> bool \<Rightarrow> mesh_net \<Rightarrow> mesh_net" where
  "beacon_state first iv_upd n =
     (if iv_upd \<and> \<not> iv_update n then n\<lparr>iv_upd_state := IV_UPD_UPDATING\<rparr>
      else if first then n\<lparr>iv_upd_state := (if iv_upd then IV_UPD_UPDATING else IV_UPD_NORMAL)\<rparr>
      else n)"

definition beacon_restart_seq :: "bool \<Rightarrow> u32 \<Rightarrow> mesh_net \<Rightarrow> mesh_net" where
  "beacon_restart_seq iv_upd iv n =
     (if (iv > iv_index n \<or> iv_upd \<noteq> iv_update n) \<and> \<not> (iv_upd \<and> iv_index n + 1 = iv)
      then n\<lparr>seq_num := 0, seq_num_reserved := 100\<rparr> else n)"

definition beacon_save :: "bool \<Rightarrow> u32 \<Rightarrow> 'a world_scheme \<Rightarrow> 'a world_scheme" where
  "beacon_save iv_upd iv w =
     (let n = net w in
      if seq_num n = 0 \<or> iv_index n \<noteq> iv \<or> iv_update n \<noteq> iv_upd then
        (let w1 = (if seq_num_reserved n \<le> seq_num n
                   then upd_net (\<lambda>n. n\<lparr>seq_num_reserved := seq_num n + 100\<rparr>) w else w)
         in emit (Db_local_seq_num (seq_num_reserved (net w1)))
              (emit (Db_local_iv_index iv iv_upd (provisioner n)) w1))
      else w)"

definition beacon_update :: "tx_env \<Rightarrow> bool \<Rightarrow> bool \<Rightarrow> u32 \<Rightarrow> 'a world_scheme \<Rightarrow> 'a world_scheme cres" where
  "beacon_update E first iv_upd iv w =
     (if beacon_rejected first iv_upd iv (net w) then Ret w
      else
        let w1 = beacon_save iv_upd iv (upd_net (\<lambda>n. beacon_restart_seq iv_upd iv (beacon_state first iv_upd n)) w);
            w2 = upd_net (\<lambda>n. n\<lparr>iv_index := iv, iv_update := iv_upd\<rparr>) w1
        in if first then
             cbind (setup_whitelist E w2) (\<lambda>w3. Ret (if open_cb (net w3) then emit Session_open w3 else w3))
           else Ret w2)"

text \<open>\<open>data\<close> are the octets after the proxy PDU type and \<open>dsize\<close> their number.\<close>

definition process_beacon :: "tx_env \<Rightarrow> bytes \<Rightarrow> u8 \<Rightarrow> 'a world_scheme \<Rightarrow> ('a world_scheme \<times> bool) cres" where
  "process_beacon E data dsize w =
     (if dsize \<noteq> 22 then Ret (w, False)
      else
        let n = net w;
            rxed_key_refresh = (byte_at data 1 AND 0x01 = 0x01);
            rxed_iv_update = (byte_at data 1 AND 0x02 = 0x02);
            iv = get_be32 data 10;
            iv_upd = (rxed_iv_update \<or> (msg_out n \<noteq> [] \<and> iv_update n \<and> \<not> rxed_iv_update));
            ident = sub_bytes data 2 8
        in if iv = iv_index n \<and> iv_upd = iv_update n \<and> iv_upd_state n \<noteq> IV_UPD_INIT then Ret (w, True)
           else (case find_net_key_by_id (keys w) ident of
               None \<Rightarrow> Ret (w, False)
             | Some nk \<Rightarrow>
                 if rxed_key_refresh \<noteq> (phase nk = 2) then Ret (w, False)
                 else
                   let my_krf = (phase nk = 2); part = (if phase nk \<noteq> 2 then nk_current nk else nk_new nk)
                   in if net_id part \<noteq> ident then Ret (w, False)
                      else if iv_index n + IV_IDX_DIFF_RANGE < iv \<or> iv < iv_index n then Ret (w, False)
                      else (case mesh_crypto_beacon_cmac (tx_alg E) (beacon_key part) (net_id part) iv my_krf rxed_iv_update of
                          Fault \<Rightarrow> Fault
                        | Fail \<Rightarrow> Ret (w, False)
                        | Ret cmac \<Rightarrow>
                            if cmac \<noteq> get_be64 data 14 then Ret (w, False)
                            else if iv_upd \<and> iv_upd_state n > IV_UPD_UPDATING then Ret (w, True)
                            else cbind (beacon_update E (iv_upd_state n = IV_UPD_INIT) iv_upd iv w)
                                   (\<lambda>w1. Ret (w1, True)))))"

section \<open>Network packets\<close>

text \<open>
  One key of \<open>try_decode\<close>: the packet is decoded into a buffer of 29 octets, with
  the current and then with the new key.
\<close>

definition try_part :: "af_alg \<Rightarrow> bool \<Rightarrow> u32 \<Rightarrow> bytes \<Rightarrow> net_key_parts \<Rightarrow> bytes cres" where
  "try_part A is_proxy iv packet part =
     (if nid part = byte_at packet 0 AND 0x7f
      then cguard (length packet \<le> 29) (mesh_crypto_packet_decode A packet is_proxy iv (enc_key part) (privacy_key part))
      else Fail)"

definition try_decode :: "af_alg \<Rightarrow> bool \<Rightarrow> u32 \<Rightarrow> bytes \<Rightarrow> mesh_net_key \<Rightarrow> bytes cres" where
  "try_decode A is_proxy iv packet nk =
     (case try_part A is_proxy iv packet (nk_current nk) of
        Ret out \<Rightarrow> Ret out | Fault \<Rightarrow> Fault
      | Fail \<Rightarrow> try_part A is_proxy iv packet (nk_new nk))"

fun net_packet_decode :: "af_alg \<Rightarrow> bool \<Rightarrow> u32 \<Rightarrow> bytes \<Rightarrow> mesh_net_key list \<Rightarrow> (mesh_net_key \<times> bytes) cres" where
  "net_packet_decode A is_proxy iv packet [] = Fail"
| "net_packet_decode A is_proxy iv packet (nk # nks) =
     (case try_decode A is_proxy iv packet nk of
        Ret out \<Rightarrow> Ret (nk, out) | Fault \<Rightarrow> Fault
      | Fail \<Rightarrow> net_packet_decode A is_proxy iv packet nks)"

definition proxy_ctl_rxed :: "bytes \<Rightarrow> u16 \<Rightarrow> 'a world_scheme \<Rightarrow> 'a world_scheme \<times> bool" where
  "proxy_ctl_rxed tpdu len w =
     (if len < 1 then (w, False)
      else if byte_at tpdu 0 = FILTER_STATUS then
        (if len \<noteq> 4 then (w, False)
         else (upd_net (\<lambda>n. n\<lparr>blacklist := (byte_at tpdu 1 = BLACKLIST_FILTER)\<rparr>) w, True))
      else (w, False))"

definition ctl_rxed :: "bytes \<Rightarrow> bool" where
  "ctl_rxed tpdu \<longleftrightarrow> byte_at tpdu 0 = NET_OP_HEARTBEAT"

section \<open>Access messages\<close>

text \<open>One key of \<open>try_decrypt\<close>; the plain text when the MIC is right.\<close>

definition try_app_part :: "af_alg \<Rightarrow> bytes \<Rightarrow> bytes \<Rightarrow> u8 \<Rightarrow> bool \<Rightarrow> bytes \<Rightarrow> app_key_parts \<Rightarrow> bytes cres" where
  "try_app_part A nonce aad aid is_szmic enc part =
     (if akf_aid part = aid
      then cbind (mesh_crypto_aes_ccm_decrypt A nonce (key part) aad enc False (if is_szmic then 8 else 4)) (\<lambda>(out, _). Ret out)
      else Fail)"

fun try_decrypt ::
  "af_alg \<Rightarrow> bytes \<Rightarrow> bytes \<Rightarrow> u16 \<Rightarrow> u8 \<Rightarrow> bool \<Rightarrow> bytes \<Rightarrow> mesh_app_key list \<Rightarrow> (u16 \<times> bytes) cres" where
  "try_decrypt A nonce aad net_idx aid is_szmic enc [] = Fail"
| "try_decrypt A nonce aad net_idx aid is_szmic enc (ak # aks) =
     (if ak_net_idx ak \<noteq> net_idx then try_decrypt A nonce aad net_idx aid is_szmic enc aks
      else (case try_app_part A nonce aad aid is_szmic enc (ak_current ak) of
          Ret out \<Rightarrow> Ret (ak_idx ak, out) | Fault \<Rightarrow> Fault
        | Fail \<Rightarrow> (case try_app_part A nonce aad aid is_szmic enc (ak_new ak) of
              Ret out \<Rightarrow> Ret (ak_idx ak, out) | Fault \<Rightarrow> Fault
            | Fail \<Rightarrow> try_decrypt A nonce aad net_idx aid is_szmic enc aks)))"

text \<open>
  \<open>tpdu\<close> and \<open>len\<close> are the payload and its count; the result is the index of the
  key and the payload buffer as it is then. A key found with the index
  \<open>APP_IDX_INVALID\<close> counts as none. For an empty payload \<open>g_malloc\<close> gives NULL, and
  \<open>false\<close> is returned: the application index 0, with nothing decrypted.
\<close>

definition access_pkt_decrypt ::
  "af_alg \<Rightarrow> bytes \<Rightarrow> bytes \<Rightarrow> u16 \<Rightarrow> u8 \<Rightarrow> bool \<Rightarrow> bytes \<Rightarrow> u16 \<Rightarrow> 'a world_scheme \<Rightarrow> (u16 \<times> bytes) cres" where
  "access_pkt_decrypt A nonce aad net_idx aid is_szmic tpdu len w =
     (if len = 0 then Ret (0, tpdu)
      else cguard (unat len \<le> length tpdu)
       (case try_decrypt A nonce aad net_idx aid is_szmic (take (unat len) tpdu)
               (filter (\<lambda>ak. ak_idx ak \<noteq> APP_IDX_INVALID) (app_keys (keys w))) of
          Fail \<Rightarrow> Ret (APP_IDX_INVALID, tpdu) | r \<Rightarrow> r))"

text \<open>
  The message is handed on with the count \<open>len\<close>, less the size of the MIC, in 16
  bits: for the empty payload above that is a count of more than 65500. A
  callback called with a count beyond the buffer \<open>buf\<close> is a fault when it
  may read that far. The client models read the opcode of such a message, at
  most three octets, and then compare the count with the sizes they know, so
  that what stands past the buffer does not matter to them.
\<close>

definition over_long ::
  "(model_cb \<Rightarrow> u16 \<Rightarrow> bytes \<Rightarrow> 'a world_scheme \<Rightarrow> ('a world_scheme \<times> bool) cres) \<Rightarrow> nat \<Rightarrow>
   model_cb \<Rightarrow> u16 \<Rightarrow> bytes \<Rightarrow> 'a world_scheme \<Rightarrow> ('a world_scheme \<times> bool) cres" where
  "over_long recv n cb src buf w =
     cguard (cb \<noteq> Cfg_server \<and> cb \<noteq> Cfg_client \<and> 3 \<le> length buf)
       (recv cb src (buf @ replicate (n - length buf) 0) w)"

definition mic_count :: "bool \<Rightarrow> u16" where
  "mic_count is_szmic = (if is_szmic then 8 else 4)"

definition hand_over ::
  "(model_cb \<Rightarrow> u16 \<Rightarrow> bytes \<Rightarrow> 'a world_scheme \<Rightarrow> ('a world_scheme \<times> bool) cres) \<Rightarrow>
   u16 \<Rightarrow> u32 \<Rightarrow> u32 \<Rightarrow> u32 \<Rightarrow> u16 \<Rightarrow> bytes \<Rightarrow> u16 \<Rightarrow> 'a world_scheme \<Rightarrow> 'a world_scheme cres" where
  "hand_over recv src dst iv seq app_idx buf n w =
     (if unat n \<le> length buf
      then node_local_data_handler recv src dst iv seq app_idx (take (unat n) buf) w
      else node_local_data_handler (over_long recv (unat n)) src dst iv seq app_idx buf w)"

definition access_rxed where
  "access_rxed A recv nonce net_idx iv seq src dst aid is_szmic tpdu len w =
     cbind (access_pkt_decrypt A nonce [] net_idx aid is_szmic tpdu len w) (\<lambda>(app_idx, buf).
       if app_idx = APP_IDX_INVALID then Ret (w, False)
       else cbind (hand_over recv src (ucast (dst :: u16)) iv seq app_idx buf (len - mic_count is_szmic) w)
              (\<lambda>w1. Ret (w1, True)))"

text \<open>
  An access message without any payload is not authenticated at the transport
  layer: whatever the keys, what follows it in the buffer goes to the models
  bound to application key 0.
\<close>

lemma empty_payload_delivered:
  assumes "length tpdu < 65528"
  shows "access_rxed A recv nonce net_idx iv seq src dst aid is_szmic tpdu 0 w =
    cbind (node_local_data_handler (over_long recv (if is_szmic then 65528 else 65532)) src (ucast dst) iv seq 0 tpdu w)
      (\<lambda>w1. Ret (w1, True))"
  using assms by (simp add: access_rxed_def access_pkt_decrypt_def hand_over_def mic_count_def APP_IDX_INVALID_def)

text \<open>\<open>virtual_rxed\<close> sets the source of the message to its destination.\<close>

fun try_virt_decrypt where
  "try_virt_decrypt A recv nonce net_idx iv seq src dst aid is_szmic tpdu len [] w = Ret (w, False)"
| "try_virt_decrypt A recv nonce net_idx iv seq src dst aid is_szmic tpdu len (v # vs) w =
     (if dst \<noteq> va16 v then try_virt_decrypt A recv nonce net_idx iv seq src dst aid is_szmic tpdu len vs w
      else cbind (access_pkt_decrypt A nonce (va128 v) net_idx aid is_szmic tpdu len w) (\<lambda>(app_idx, buf).
        if app_idx = APP_IDX_INVALID then try_virt_decrypt A recv nonce net_idx iv seq src dst aid is_szmic tpdu len vs w
        else cbind (hand_over recv src (va32 v) iv seq app_idx buf (len - mic_count is_szmic) w)
               (\<lambda>w1. Ret (w1, True))))"

definition virtual_rxed where
  "virtual_rxed A recv nonce net_idx iv seq src dst aid is_szmic tpdu len w =
     try_virt_decrypt A recv nonce net_idx iv seq dst dst aid is_szmic tpdu len (virt_addrs w) w"

text \<open>
  With a device key: first that of the sender when we are the provisioner, then
  that of the local node. \<open>payload\<close> is the access payload with its MIC; for an
  empty one the buffer for the plain text is NULL and the message is dropped.
\<close>

definition dev_key_try where
  "dev_key_try A nonce k is_szmic payload =
     (case mesh_crypto_aes_ccm_decrypt A nonce k [] payload False (if is_szmic then 8 else 4) of
        Ret (out, _) \<Rightarrow> Ret (Some out) | Fail \<Rightarrow> Ret None | Fault \<Rightarrow> Fault)"

definition dev_rxed where
  "dev_rxed A recv nonce iv seq src dst is_szmic payload w =
     (let deliver = (\<lambda>out. cbind (node_local_data_handler recv src (ucast (dst :: u16)) iv seq APP_IDX_DEV out w) (\<lambda>w1. Ret (w1, True)));
          local_try = (\<lambda>res. case local_node_rec w of None \<Rightarrow> Ret (w, res)
             | Some n \<Rightarrow> cbind (dev_key_try A nonce (dev_key n) is_szmic payload)
                 (\<lambda>r. case r of None \<Rightarrow> Ret (w, False) | Some out \<Rightarrow> deliver out))
      in if payload = [] then Ret (w, False)
         else (case (if provisioner (net w) then Option.bind (node_find_by_addr w src) (node_at w) else None) of
            None \<Rightarrow> local_try True
          | Some remote \<Rightarrow> cbind (dev_key_try A nonce (dev_key remote) is_szmic payload)
              (\<lambda>r. case r of None \<Rightarrow> local_try False | Some out \<Rightarrow> deliver out)))"

definition msg_rxed ::
  "af_alg \<Rightarrow> (model_cb \<Rightarrow> u16 \<Rightarrow> bytes \<Rightarrow> 'a world_scheme \<Rightarrow> ('a world_scheme \<times> bool) cres) \<Rightarrow>
   u16 \<Rightarrow> u32 \<Rightarrow> bool \<Rightarrow> u32 \<Rightarrow> u32 \<Rightarrow> u16 \<Rightarrow> u16 \<Rightarrow> bytes \<Rightarrow> u16 \<Rightarrow> 'a world_scheme \<Rightarrow> ('a world_scheme \<times> bool) cres" where
  "msg_rxed A recv net_idx iv is_szmic seq seq_auth src dst tpdu len w =
     (let aid = TRANS_AKF_AID tpdu; payload = TRANS_PAYLOAD tpdu; plen = TRANS_LEN tpdu len in
      if \<not> TRANS_AKF tpdu then
        cguard (unat plen \<le> length payload)
          (dev_rxed A recv (mesh_crypto_device_nonce seq_auth src dst iv is_szmic) iv seq src dst is_szmic
             (take (unat plen) payload) w)
      else
        let nonce = mesh_crypto_application_nonce seq_auth src dst iv is_szmic
        in if IS_VIRTUAL dst
           then virtual_rxed A recv nonce net_idx iv seq src dst aid is_szmic payload plen w
           else access_rxed A recv nonce net_idx iv seq src dst aid is_szmic payload plen w)"

section \<open>Reassembly\<close>

definition find_sar_in_by_src :: "'a world_scheme \<Rightarrow> u16 \<Rightarrow> mesh_sar_msg option" where
  "find_sar_in_by_src w src = find (\<lambda>s. sar_src s = src) (sar_in (net w))"

definition flush_in :: "u16 \<Rightarrow> 'a world_scheme \<Rightarrow> 'a world_scheme" where
  "flush_in src w = upd_net (\<lambda>n. n\<lparr>sar_in := delete_first (\<lambda>s. sar_src s = src) (sar_in n)\<rparr>) w"

definition upd_in :: "u16 \<Rightarrow> (mesh_sar_msg \<Rightarrow> mesh_sar_msg) \<Rightarrow> 'a world_scheme \<Rightarrow> 'a world_scheme" where
  "upd_in src f w = upd_net (\<lambda>n. n\<lparr>sar_in := update_first (\<lambda>s. sar_src s = src) f (sar_in n)\<rparr>) w"

definition sar_ack_msg :: "mesh_sar_msg \<Rightarrow> bytes" where
  "sar_ack_msg sar =
     SET_TRANS_ACK (SET_TRANS_SEQ0 (SET_TRANS_OPCODE (replicate 7 0) NET_OP_SEG_ACKNOWLEDGE) (seqAuth sar)) (ack sar)"

definition send_sar_ack :: "tx_env \<Rightarrow> mesh_sar_msg \<Rightarrow> 'a world_scheme \<Rightarrow> 'a world_scheme cres" where
  "send_sar_ack E sar w =
     cbind (net_ctl_msg_send E 0xff (ucast (sar_dst sar)) (sar_src sar) (sar_ack_msg sar)
              (upd_in (sar_src sar) (\<lambda>s. s\<lparr>activity_cnt := 0\<rparr>) w)) (\<lambda>(w1, _). Ret w1)"

definition sar_in_ack_timeout :: "tx_env \<Rightarrow> u16 \<Rightarrow> 'a world_scheme \<Rightarrow> 'a world_scheme cres" where
  "sar_in_ack_timeout E src w =
     (case find_sar_in_by_src w src of None \<Rightarrow> Ret w
      | Some sar \<Rightarrow> if activity_cnt sar \<noteq> 0 \<or> ack sar \<noteq> full_ack (segN sar) then send_sar_ack E sar w else Ret w)"

definition sar_in_msg_timeout :: "u16 \<Rightarrow> 'a world_scheme \<Rightarrow> 'a world_scheme" where
  "sar_in_msg_timeout src w = flush_in src w"

definition calc_seqAuth :: "u32 \<Rightarrow> bytes \<Rightarrow> u32" where
  "calc_seqAuth seq tpdu = (seq AND NOT 0x1fff) OR ucast (TRANS_SEQ0 tpdu)"

definition iv_seq_auth :: "u32 \<Rightarrow> u32 \<Rightarrow> u64" where
  "iv_seq_auth iv seq_auth = push_bit 32 (ucast iv) OR ucast seq_auth"

text \<open>The message in progress a segment belongs to: kept, stale, or to be replaced.\<close>

datatype sar_reuse = Reuse mesh_sar_msg | Stale | Replace | Fresh

definition sar_for_segment :: "mesh_sar_msg option \<Rightarrow> u32 \<Rightarrow> u32 \<Rightarrow> u8 \<Rightarrow> sar_reuse" where
  "sar_for_segment found iv seq_auth sN =
     (case found of None \<Rightarrow> Fresh
      | Some sar \<Rightarrow>
          if iv_seq_auth (sar_iv_index sar) (seqAuth sar) < iv_seq_auth iv seq_auth then Replace
          else if iv_seq_auth (sar_iv_index sar) (seqAuth sar) > iv_seq_auth iv seq_auth then Stale
          else if sN \<noteq> segN sar then Replace
          else Reuse sar)"

definition new_sar_in :: "u16 \<Rightarrow> u32 \<Rightarrow> bool \<Rightarrow> u8 \<Rightarrow> u32 \<Rightarrow> u16 \<Rightarrow> u16 \<Rightarrow> bytes \<Rightarrow> mesh_sar_msg" where
  "new_sar_in net_idx iv ctl ttl seq_auth src dst tpdu =
     (let sN = TRANS_SEGN tpdu; s = blank_sar (12 * unat sN)
      in s\<lparr>sar_net_idx := net_idx, sar_iv_index := iv, sar_ctl := ctl, sar_ttl := ttl, seqAuth := seq_auth,
           sar_src := src, sar_dst := ucast dst, segmented := True, szmic := TRANS_SZMIC tpdu, segN := sN,
           sar_data := (sar_data s)[0 := byte_at tpdu 0 AND 0x7f],
           ack_to := IS_UNICAST dst, msg_to := True\<rparr>)"

text \<open>
  The segment stored in the message: the total length when it is the last one,
  its twelve octets, and its acknowledgement bit.
\<close>

definition store_segment :: "bytes \<Rightarrow> u16 \<Rightarrow> mesh_sar_msg \<Rightarrow> mesh_sar_msg cres" where
  "store_segment tpdu len sar =
     (let sN = TRANS_SEGN tpdu; sO = TRANS_SEGO tpdu; off = 1 + 12 * unat sO
      in cguard (16 \<le> length tpdu \<and> off + 12 \<le> length (sar_data sar))
           (Ret (sar\<lparr>sar_len := (if sN = sO then of_nat (unat sN * 12) + len - 3 else sar_len sar),
                      sar_data := memcpy (sar_data sar) off (sub_bytes tpdu 4 12),
                      ack := ack sar OR push_bit (unat sO) 1\<rparr>)))"

text \<open>
  What \<open>seg_rxed\<close> does once it has the message in progress, \<open>sar0\<close>: it stores the
  segment, hands a message that just became complete on, and acknowledges. The
  code goes on with its pointer to the message in progress, which must still be
  allocated after the callbacks.
\<close>

definition seg_complete :: "mesh_sar_msg \<Rightarrow> mesh_sar_msg \<Rightarrow> bool" where
  "seg_complete sar0 sar \<longleftrightarrow> ack sar = full_ack (segN sar) \<and> ack sar0 \<noteq> full_ack (segN sar)"

definition seg_forward ::
  "tx_env \<Rightarrow> (model_cb \<Rightarrow> u16 \<Rightarrow> bytes \<Rightarrow> 'a world_scheme \<Rightarrow> ('a world_scheme \<times> bool) cres) \<Rightarrow>
   bool \<Rightarrow> u32 \<Rightarrow> mesh_sar_msg \<Rightarrow> 'a world_scheme \<Rightarrow> ('a world_scheme \<times> bool) cres" where
  "seg_forward E recv ctl seq sar w =
     (if ctl then Ret (w, ctl_rxed (sar_data sar))
      else msg_rxed (tx_alg E) recv (sar_net_idx sar) (sar_iv_index sar) (szmic sar)
             seq (seqAuth sar) (sar_src sar) (ucast (sar_dst sar)) (sar_data sar) (sar_len sar) w)"

definition seg_ack_now :: "bytes \<Rightarrow> mesh_sar_msg \<Rightarrow> mesh_sar_msg \<Rightarrow> bool \<Rightarrow> bool" where
  "seg_ack_now tpdu sar0 sar complete \<longleftrightarrow>
     (let mask = push_bit (unat (TRANS_SEGO tpdu)) 0xffffffff :: u32
      in if ack sar0 = ack sar then False
         else if mask AND ack sar = mask AND full_ack (TRANS_SEGN tpdu) then True else complete)"

definition seg_ack ::
  "tx_env \<Rightarrow> u16 \<Rightarrow> bytes \<Rightarrow> mesh_sar_msg \<Rightarrow> bool \<Rightarrow> 'a world_scheme \<Rightarrow> 'a world_scheme cres" where
  "seg_ack E src tpdu sar0 complete w =
     (case find_sar_in_by_src w src of
        None \<Rightarrow> Fault
      | Some s3 \<Rightarrow>
          let s4 = s3\<lparr>activity_cnt := activity_cnt s3 + 1\<rparr>; w4 = upd_in src (\<lambda>_. s4) w
          in if seg_ack_now tpdu sar0 s4 complete then send_sar_ack E s4 w4 else Ret w4)"

definition seg_continue ::
  "tx_env \<Rightarrow> (model_cb \<Rightarrow> u16 \<Rightarrow> bytes \<Rightarrow> 'a world_scheme \<Rightarrow> ('a world_scheme \<times> bool) cres) \<Rightarrow>
   bool \<Rightarrow> u32 \<Rightarrow> u16 \<Rightarrow> u16 \<Rightarrow> bytes \<Rightarrow> u16 \<Rightarrow> mesh_sar_msg \<Rightarrow> 'a world_scheme \<Rightarrow> ('a world_scheme \<times> bool) cres" where
  "seg_continue E recv ctl seq src dst tpdu len sar0 w1 =
     cbind (store_segment tpdu len sar0) (\<lambda>sar.
       let w2 = upd_in src (\<lambda>_. sar) w1; complete = seg_complete sar0 sar
       in cbind (if complete then seg_forward E recv ctl seq sar w2 else Ret (w2, False)) (\<lambda>(w3, result).
            if \<not> IS_UNICAST dst then Ret (w3, result)
            else cbind (seg_ack E src tpdu sar0 complete w3) (\<lambda>w4. Ret (w4, result))))"

definition seg_rxed ::
  "tx_env \<Rightarrow> (model_cb \<Rightarrow> u16 \<Rightarrow> bytes \<Rightarrow> 'a world_scheme \<Rightarrow> ('a world_scheme \<times> bool) cres) \<Rightarrow>
   u16 \<Rightarrow> u32 \<Rightarrow> bool \<Rightarrow> u8 \<Rightarrow> u32 \<Rightarrow> u16 \<Rightarrow> u16 \<Rightarrow> bytes \<Rightarrow> u16 \<Rightarrow> 'a world_scheme \<Rightarrow> ('a world_scheme \<times> bool) cres" where
  "seg_rxed E recv net_idx iv ctl ttl seq src dst tpdu len w =
     (let seq_auth = calc_seqAuth seq tpdu;
          fresh = new_sar_in net_idx iv ctl ttl seq_auth src dst tpdu;
          add = (\<lambda>w. upd_net (\<lambda>n. n\<lparr>sar_in := sar_in n @ [fresh]\<rparr>) w)
      in (case sar_for_segment (find_sar_in_by_src w src) iv seq_auth (TRANS_SEGN tpdu) of
            Stale \<Rightarrow> Ret (w, False)
          | Reuse sar \<Rightarrow> seg_continue E recv ctl seq src dst tpdu len sar w
          | Replace \<Rightarrow> seg_continue E recv ctl seq src dst tpdu len fresh (add (flush_in src w))
          | Fresh \<Rightarrow> seg_continue E recv ctl seq src dst tpdu len fresh (add w)))"

section \<open>The entry point\<close>

text \<open>
  A decoded packet \<open>p\<close>, in a buffer of which \<open>len\<close> octets are the packet, goes to
  its handler.
\<close>

definition net_dispatch ::
  "tx_env \<Rightarrow> (model_cb \<Rightarrow> u16 \<Rightarrow> bytes \<Rightarrow> 'a world_scheme \<Rightarrow> ('a world_scheme \<times> bool) cres) \<Rightarrow>
   bool \<Rightarrow> u16 \<Rightarrow> u32 \<Rightarrow> bytes \<Rightarrow> u8 \<Rightarrow> 'a world_scheme \<Rightarrow> ('a world_scheme \<times> bool) cres" where
  "net_dispatch E recv is_proxy net_idx iv p len w =
     (let len1 = len - (if PKT_CTL p then 8 else 4);
          tpdu = drop 9 p; tlen = ucast len1 - 9
      in if is_proxy then
           (if PKT_DST p \<noteq> 0 then Ret (w, False) else Ret (proxy_ctl_rxed tpdu tlen w))
         else if PKT_CTL p \<and> PKT_OPCODE p = NET_OP_SEG_ACKNOWLEDGE then
           ack_rxed E (PKT_SRC p) (PKT_DST p) (PKT_OBO p) (PKT_SEQ0 p) (PKT_ACK p) w
         else if PKT_SEGMENTED p then
           seg_rxed E recv net_idx iv (PKT_CTL p) (PKT_TTL p) (PKT_SEQ p) (PKT_SRC p) (PKT_DST p) tpdu tlen w
         else if \<not> PKT_CTL p then
           msg_rxed (tx_alg E) recv net_idx iv False (PKT_SEQ p) (PKT_SEQ p) (PKT_SRC p) (PKT_DST p) tpdu tlen w
         else Ret (w, ctl_rxed tpdu))"

text \<open>
  The IV index a packet was sent under, told by the low bit of the index in its
  first octet: the local one or the one before.
\<close>

definition packet_iv_index :: "u32 \<Rightarrow> bytes \<Rightarrow> u32 option" where
  "packet_iv_index iv msg =
     (if (iv AND 0x01 \<noteq> 0) = get_flag msg 0 then Some iv
      else if iv \<noteq> 0 then Some (iv - 1) else None)"

text \<open>\<open>msg0\<close> is the proxy PDU with its type, in a buffer of which \<open>len0\<close> octets are the PDU.\<close>

definition net_data_ready ::
  "tx_env \<Rightarrow> (model_cb \<Rightarrow> u16 \<Rightarrow> bytes \<Rightarrow> 'a world_scheme \<Rightarrow> ('a world_scheme \<times> bool) cres) \<Rightarrow>
   bytes \<Rightarrow> u8 \<Rightarrow> 'a world_scheme \<Rightarrow> ('a world_scheme \<times> bool) cres" where
  "net_data_ready E recv msg0 len0 w =
     (let type = byte_at msg0 0; msg = drop 1 msg0; len = len0 - 1 in
      if len0 < 10 then Ret (w, False)
      else if type = PROXY_MESH_BEACON then process_beacon E msg len w
      else if type > PROXY_CONFIG_PDU then Ret (w, False)
      else (case packet_iv_index (iv_index (net w)) msg of
          None \<Rightarrow> Ret (w, False)
        | Some iv \<Rightarrow>
            (case net_packet_decode (tx_alg E) (type = PROXY_CONFIG_PDU) iv (take (unat len) msg) (net_keys (keys w)) of
               Fault \<Rightarrow> Fault
             | Fail \<Rightarrow> Ret (w, False)
             | Ret (nk, out) \<Rightarrow>
                 net_dispatch E recv (type = PROXY_CONFIG_PDU) (nk_idx nk) iv (memcpy msg 0 out) len w)))"

section \<open>The proxy session\<close>

text \<open>
  \<open>flush_pkt_list\<close> never advances from the link it removed: on a list that is
  not empty it reads the freed link.
\<close>

definition flush_pkt_list :: "bytes list \<Rightarrow> bytes list cres" where
  "flush_pkt_list pkts = (if pkts = [] then Ret [] else Fault)"

definition net_session_open :: "nat \<Rightarrow> bool \<Rightarrow> bool \<Rightarrow> 'a world_scheme \<Rightarrow> ('a world_scheme \<times> bool) cres" where
  "net_session_open data_in prov cb w =
     (if proxy_in (net w) \<noteq> None then Ret (w, False)
      else cbind (flush_pkt_list (pkt_out (net w))) (\<lambda>pkts.
        Ret (upd_net (\<lambda>n. n\<lparr>proxy_in := Some data_in, iv_upd_state := IV_UPD_INIT, blacklist := False,
               provisioner := prov, open_cb := cb, pkt_out := pkts\<rparr>) w, True)))"

definition net_session_close :: "nat option \<Rightarrow> 'a world_scheme \<Rightarrow> 'a world_scheme cres" where
  "net_session_close data_in w =
     cbind (flush_pkt_list (pkt_out (net w))) (\<lambda>pkts.
       Ret (upd_net (\<lambda>n. n\<lparr>proxy_in := (if proxy_in n = data_in then None else proxy_in n),
              sar_in := [], msg_out := [], pkt_out := pkts\<rparr>) w))"

definition net_set_iv_index :: "u32 \<Rightarrow> bool \<Rightarrow> 'a world_scheme \<Rightarrow> 'a world_scheme" where
  "net_set_iv_index iv upd w = upd_net (\<lambda>n. n\<lparr>iv_index := iv, iv_update := upd\<rparr>) w"

definition set_sequence_number :: "u32 \<Rightarrow> 'a world_scheme \<Rightarrow> 'a world_scheme" where
  "set_sequence_number seq w = upd_net (\<lambda>n. n\<lparr>seq_num := seq\<rparr>) w"

end
