(* ===== verification/Mesh_Segments.thy ===== *)
theory Mesh_Segments
  imports Mesh_NetIn
begin

text \<open>
  The packet fields a sender writes are the ones a receiver reads, and the
  segments of an access message put together by the receiver give the message.
\<close>

section \<open>Bit fields\<close>

lemma mask7: "0x7f = (mask 7 :: u8)" by (simp add: mask_eq_exp_minus_1)

lemma u8_lt_and_mask: "unat v < 2 ^ n \<Longrightarrow> v AND mask n = v" for v :: "'a::len word"
  by (simp add: word_unat_eq_iff unat_and_mask)

lemma low7_bits: "v < 128 \<Longrightarrow> v AND 0x7f = v" for v :: u8
  unfolding mask7 by (rule u8_lt_and_mask) (simp add: word_less_nat_alt)

lemma not_bit7: "v < 128 \<Longrightarrow> \<not> bit v 7" for v :: u8
  by (subst low7_bits [symmetric]) (simp_all add: mask7 bit_simps)

lemma and_80: "v AND 0x80 = (if bit v 7 then 0x80 else 0)" for v :: u8
  by (rule bit_word_eqI) (auto simp: bit_simps numeral_eq_Suc less_Suc_eq)

lemma and_80_iff: "v AND 0x80 \<noteq> 0 \<longleftrightarrow> bit v 7" for v :: u8
  by (simp add: and_80)

lemma get_flag_bit: "get_flag p i \<longleftrightarrow> bit (byte_at p i) 7"
  by (simp add: get_flag_def and_80)

lemma low7_or_80: "v < 128 \<Longrightarrow> ((if b then 0x80 else 0) OR v) AND 0x7f = v" for v :: u8
  using low7_bits [of v] by (simp add: word_ao_dist)

lemma byte_at_put_flag: "i < length p \<Longrightarrow> byte_at (put_flag v p i) k =
    (if k = i then (byte_at p i AND 0x7f) OR (if v then 0x80 else 0) else byte_at p k)"
  by (simp add: put_flag_def byte_at_update)

lemma byte_at_put_low7: "i < length p \<Longrightarrow> byte_at (put_low7 v p i) k =
    (if k = i then (byte_at p i AND 0x80) OR v else byte_at p k)"
  by (simp add: put_low7_def byte_at_update)

lemma length_put_flag [simp]: "length (put_flag v p i) = length p" "length (put_low7 u p i) = length p"
  "length (put_seq0 s p i) = length p"
  by (simp_all add: put_flag_def put_low7_def put_seq0_def)

lemma byte_at_replicate_0: "byte_at (replicate n 0) i = 0"
  by (simp add: byte_at_def)

lemma put_seq_bytes:
  assumes "4 < length p"
  shows "byte_at (SET_PKT_SEQ p v) k =
    (if k = 2 then ucast (drop_bit 16 v) else if k = 3 then ucast (drop_bit 8 v) else if k = 4 then ucast v else byte_at p k)"
proof -
  let ?x = "push_bit 24 (ucast (byte_at p 1)) + (v AND 0xffffff) :: u32"
  have m: "0xffffff = (mask 24 :: u32)" by (simp add: mask_eq_exp_minus_1)
  have x: "?x = push_bit 24 (ucast (byte_at p 1)) OR (v AND mask 24)"
    unfolding m by (rule disjunctive_add_eq_or, rule bit_word_eqI) (auto simp: bit_simps)
  have "be16_hi (ucast (drop_bit 16 ?x)) = byte_at p 1" "be16_lo (ucast (drop_bit 16 ?x)) = ucast (drop_bit 16 v)"
    "be16_hi (ucast ?x) = ucast (drop_bit 8 v)" "be16_lo (ucast ?x) = ucast v"
    unfolding x be16_hi_def be16_lo_def
    by (rule bit_word_eqI, auto simp: bit_simps dest: bit_imp_le_length)+
  then show ?thesis using assms by (simp add: SET_PKT_SEQ_def byte_at_put_be32)
qed

lemma length_SET_PKT_SEQ [simp]: "length (SET_PKT_SEQ p v) = length p"
  by (simp add: SET_PKT_SEQ_def)

lemma seg_header_bytes:
  assumes "nid part < 128" "sar_ttl sar < 128" "if sar_ctl sar then byte_at (sar_data sar) 0 < 128 else sar_akf_aid sar < 128"
  shows "length (seg_header part sar seq) = 29"
    "byte_at (seg_header part sar seq) 0 = (if bit (sar_iv_index sar) 0 then 0x80 else 0) OR nid part"
    "byte_at (seg_header part sar seq) 1 = (if sar_ctl sar then 0x80 else 0) OR sar_ttl sar"
    "byte_at (seg_header part sar seq) 2 = ucast (drop_bit 16 seq)"
    "byte_at (seg_header part sar seq) 3 = ucast (drop_bit 8 seq)"
    "byte_at (seg_header part sar seq) 4 = ucast seq"
    "byte_at (seg_header part sar seq) 5 = be16_hi (sar_src sar)"
    "byte_at (seg_header part sar seq) 6 = be16_lo (sar_src sar)"
    "byte_at (seg_header part sar seq) 7 = be16_hi (ucast (sar_dst sar))"
    "byte_at (seg_header part sar seq) 8 = be16_lo (ucast (sar_dst sar))"
    "byte_at (seg_header part sar seq) 9 = (if segmented sar then 0x80 else 0) OR (if sar_ctl sar then byte_at (sar_data sar) 0 else sar_akf_aid sar)"
    "k > 9 \<Longrightarrow> byte_at (seg_header part sar seq) k = 0"
  using assms
  by (auto simp: seg_header_def Let_def SET_PKT_NID_def SET_PKT_IVI_def SET_PKT_CTL_def SET_PKT_TTL_def
      SET_PKT_SRC_def SET_PKT_DST_def SET_PKT_SEGMENTED_def SET_PKT_OPCODE_def SET_PKT_AKF_AID_def
      put_seq_bytes byte_at_put_flag byte_at_put_low7 byte_at_put_be16 byte_at_replicate_0 low7_bits or.commute
      and_one_eq odd_iff_mod_2_eq_one bit_0)

section \<open>The header of a segment\<close>

lemma bit_constants:
  "0xfc1f = (NOT (push_bit 5 (mask 5)) :: u16)" "0x8003 = (push_bit 15 1 OR mask 2 :: u16)"
  "0xe0 = (push_bit 5 (mask 3) :: u8)" "0x80 = (push_bit 7 1 :: u8)"
  by (simp_all add: mask_eq_exp_minus_1 push_bit_eq_mult)

lemma mask13: "0x1fff = (mask 13 :: u16)" by (simp add: mask_eq_exp_minus_1)

lemma mask5: "0x1f = (mask 5 :: u16)" "0x1f = (mask 5 :: u8)" by (simp_all add: mask_eq_exp_minus_1)

lemma not_bit_32: "v < 32 \<Longrightarrow> 5 \<le> n \<Longrightarrow> \<not> bit v n" for v :: u8
proof -
  assume "v < 32" "5 \<le> n"
  then have "v AND mask 5 = v" by (simp add: u8_lt_and_mask word_less_nat_alt)
  then have "bit v n \<longleftrightarrow> bit (v AND mask 5) n" by simp
  then show ?thesis using \<open>5 \<le> n\<close> by (simp add: bit_simps)
qed

definition seq0_word :: "bool \<Rightarrow> u32 \<Rightarrow> u16" where
  "seq0_word s v = (be16 (if s then 0x80 else 0) 0 AND 0x8003) OR push_bit 2 (ucast v AND 0x1fff)"

definition segno_word :: "u8 \<Rightarrow> u8 \<Rightarrow> u16" where
  "segno_word low seg = (be16 low 0 AND 0xfc1f) OR push_bit 5 (ucast seg)"

lemma seg_build_bytes:
  assumes "segmented sar" "\<not> sar_ctl sar"
    and "nid part < 128" "sar_ttl sar < 128" "sar_akf_aid sar < 128"
    and "d = fst (seg_build part sar seg seq)" "X = seq0_word (szmic sar) (seqAuth sar)"
  shows "length d = 29" "k < 10 \<Longrightarrow> byte_at d k = byte_at (seg_header part sar seq) k"
    "byte_at d 10 = be16_hi X" "byte_at d 11 = be16_hi (segno_word (be16_lo X) seg)"
    "byte_at d 12 = (be16_lo (segno_word (be16_lo X) seg) AND 0xe0) OR segN sar"
    "i < 12 \<Longrightarrow> byte_at d (13 + i) = byte_at (sar_data sar) (unat seg * 12 + i)"
  using assms(1,2) seg_header_bytes [OF assms(3,4), where seq = seq] assms(5)
  by (auto simp: assms(6,7) seg_build_def Let_def bool_nat_def SET_PKT_SZMIC_def SET_PKT_SEQ0_def SET_PKT_SEGO_def
      SET_PKT_SEGN_def byte_at_memcpy byte_at_update put_seq0_def byte_at_put_be16 byte_at_put_flag
      get_be16_def seq0_word_def segno_word_def)

text \<open>The three words read back.\<close>

lemmas bits = bit_and_iff bit_or_iff bit_push_bit_iff bit_drop_bit_eq bit_mask_iff bit_unsigned_iff bit_not_iff bit_1_iff

lemma bit_32D: "bit v n \<Longrightarrow> v < 32 \<Longrightarrow> n < 5" for v :: u8
  using not_bit_32 [of v n] by (meson not_le)

lemma bit_be16: "bit (be16 h l) n \<longleftrightarrow> (if n < 8 then bit l n else n < 16 \<and> bit h (n - 8))"
  by (auto simp: be16_def bits dest: bit_imp_le_length)

lemma bit_be16_hi: "bit (be16_hi x) n \<longleftrightarrow> n < 8 \<and> bit x (n + 8)"
  by (auto simp: be16_hi_def bits add.commute dest: bit_imp_le_length)

lemma bit_be16_lo: "bit (be16_lo x) n \<longleftrightarrow> n < 8 \<and> bit x n"
  by (auto simp: be16_lo_def bits dest: bit_imp_le_length)

lemma bit_segno: "g < 32 \<Longrightarrow> bit (segno_word l g) n \<longleftrightarrow>
    (if 10 \<le> n then n < 16 \<and> bit l (n - 8) else 5 \<le> n \<and> bit g (n - 5))"
  unfolding segno_word_def bit_constants
  by (auto simp: bits bit_be16 dest: bit_32D)

lemma bit_8000: "bit (0x8000 :: u16) n \<longleftrightarrow> n = 15"
  by (cases "n < 16") (auto simp: numeral_eq_Suc less_Suc_eq dest: bit_imp_le_length)

lemma bit_seq0: "bit (seq0_word s v) n \<longleftrightarrow> (n = 15 \<and> s) \<or> (2 \<le> n \<and> n < 15 \<and> bit v (n - 2))"
proof -
  have "be16 (if s then 0x80 else 0) 0 AND 0x8003 = (if s then 0x8000 else 0)"
    by (simp add: be16_def)
  then have "seq0_word s v = (if s then 0x8000 else 0) OR push_bit 2 (ucast v AND mask 13)"
    by (simp add: seq0_word_def mask13)
  then have "bit (seq0_word s v) n \<longleftrightarrow> (s \<and> bit (0x8000 :: u16) n) \<or> bit (push_bit 2 (ucast v AND mask 13) :: u16) n"
    by (simp only: bit_or_iff if_split) simp
  then show ?thesis unfolding bit_8000 by (auto simp: bits)
qed

lemma seq0_read:
  "g < 32 \<Longrightarrow> drop_bit 2 (be16 (be16_hi (seq0_word s v)) (be16_hi (segno_word (be16_lo (seq0_word s v)) g))) AND 0x1fff = ucast v AND 0x1fff"
  unfolding mask13
  by (rule bit_word_eqI) (auto simp: bits bit_be16 bit_be16_hi bit_be16_lo bit_segno bit_seq0)

lemma szmic_read: "bit (be16_hi (seq0_word s v)) 7 = s"
  by (simp add: bit_be16_hi bit_seq0)

lemma sego_read:
  "g < 32 \<Longrightarrow> n < 32 \<Longrightarrow> ucast (drop_bit 5 (be16 (be16_hi (segno_word l g)) ((be16_lo (segno_word l g) AND 0xe0) OR n)) AND 0x1f) = g"
  unfolding mask5 bit_constants
  by (rule bit_word_eqI) (auto simp: bits bit_be16 bit_be16_hi bit_be16_lo bit_segno dest: bit_32D)

lemma segn_read: "n < 32 \<Longrightarrow> ((x AND 0xe0) OR n) AND 0x1f = n" for n :: u8
  unfolding mask5 bit_constants
  by (rule bit_word_eqI) (auto simp: bits dest: bit_32D)

lemma be32_low24: "get_be32 d 1 AND 0xffffff = push_bit 16 (ucast (byte_at d 2)) OR push_bit 8 (ucast (byte_at d 3)) OR ucast (byte_at d 4)"
proof -
  have m: "0xffffff = (mask 24 :: u32)" by (simp add: mask_eq_exp_minus_1)
  have "get_be32 d 1 = push_bit 16 (ucast (be16 (byte_at d 1) (byte_at d 2))) OR ucast (be16 (byte_at d 3) (byte_at d 4))"
    by (simp add: get_be32_def get_be16_def eval_nat_numeral)
  then show ?thesis unfolding m
    by (simp only:) (rule bit_word_eqI, auto simp: bits bit_be16 dest: bit_imp_le_length)
qed

lemma seq_low24: "push_bit 16 (ucast (ucast (drop_bit 16 v) :: u8)) OR push_bit 8 (ucast (ucast (drop_bit 8 v) :: u8)) OR ucast (ucast v :: u8)
    = (v AND 0xffffff :: u32)"
proof -
  have m: "0xffffff = (mask 24 :: u32)" by (simp add: mask_eq_exp_minus_1)
  show ?thesis unfolding m
  proof (rule bit_word_eqI)
    fix n show "bit (push_bit 16 (ucast (ucast (drop_bit 16 v) :: u8)) OR push_bit 8 (ucast (ucast (drop_bit 8 v) :: u8)) OR
        ucast (ucast v :: u8) :: u32) n = bit (v AND mask 24 :: u32) n"
      by (cases "n < 16") (auto simp: bits)
  qed
qed

lemma flag_of_byte: "v < 128 \<Longrightarrow> bit ((if b then 0x80 else 0) OR v) 7 = b" for v :: u8
  using not_bit7 [of v] by (simp add: bits)

lemma segment_header_core:
  assumes "segmented sar" "\<not> sar_ctl sar" "nid part < 128" "sar_ttl sar < 128" "sar_akf_aid sar < 128"
    "segN sar < 32" "seg < 32" "d = fst (seg_build part sar seg seq)"
  shows "PKT_NID d = nid part \<and> PKT_IVI d = bit (sar_iv_index sar) 0 \<and> \<not> PKT_CTL d \<and> PKT_TTL d = sar_ttl sar \<and>
    PKT_SEQ d = seq AND 0xffffff \<and> PKT_SRC d = sar_src sar \<and> PKT_DST d = ucast (sar_dst sar) \<and> PKT_SEGMENTED d \<and>
    TRANS_AKF_AID (drop 9 d) = sar_akf_aid sar \<and> TRANS_SZMIC (drop 9 d) = szmic sar \<and>
    TRANS_SEQ0 (drop 9 d) = ucast (seqAuth sar) AND 0x1fff \<and> TRANS_SEGO (drop 9 d) = seg \<and> TRANS_SEGN (drop 9 d) = segN sar"
proof -
  note b = seg_build_bytes [OF assms(1-5,8) refl]
  have h: "k < 10 \<Longrightarrow> byte_at d k = byte_at (seg_header part sar seq) k" for k by (rule b(2))
  note hb = h [of 0] h [of 1] h [of 2] h [of 3] h [of 4] h [of 5] h [of 6] h [of 7] h [of 8] h [of 9]
    seg_header_bytes [OF assms(3,4), where seq = seq]
  have "PKT_SEQ d = seq AND 0xffffff"
    unfolding PKT_SEQ_def be32_low24 using hb(3-5) hb(14-16) assms(2,5) by (simp add: seq_low24)
  then show ?thesis
    using assms(1-7) b(3-5) hb low7_or_80 [OF assms(3)] low7_or_80 [OF assms(4), of False] low7_or_80 [OF assms(5), of True]
      flag_of_byte [OF assms(3)] flag_of_byte [OF assms(4), of False] flag_of_byte [OF assms(5), of True]
    by (simp add: PKT_NID_def PKT_IVI_def PKT_CTL_def PKT_TTL_def PKT_SRC_def PKT_DST_def PKT_SEGMENTED_def
        TRANS_AKF_AID_def TRANS_SZMIC_def TRANS_SEGMENTED_def TRANS_SEQ0_def TRANS_SEGO_def TRANS_SEGN_def
        get_low7_def get_flag_bit get_be16_def get_seq0_def byte_at_drop seq0_read szmic_read sego_read segn_read)
qed

section \<open>Reassembly\<close>

text \<open>What a stored segment of the message \<open>m\<close> must carry: segment \<open>i\<close> of \<open>m\<close>.\<close>

definition carries :: "mesh_sar_msg \<Rightarrow> nat \<Rightarrow> bytes \<Rightarrow> u16 \<Rightarrow> bool" where
  "carries m i tpdu len \<longleftrightarrow>
     unat (TRANS_SEGO tpdu) = i \<and> TRANS_SEGN tpdu = segN m \<and> i \<le> unat (segN m) \<and> 16 \<le> length tpdu \<and>
     (\<forall>k<12. 12 * i + k < unat (sar_len m) \<longrightarrow> byte_at tpdu (4 + k) = byte_at (sar_data m) (12 * i + k)) \<and>
     (i = unat (segN m) \<longrightarrow> unat len = unat (sar_len m) - 12 * i + 4)"

text \<open>The segments stored one after the other, as \<open>seg_rxed\<close> does.\<close>

fun store_all :: "(bytes \<times> u16) list \<Rightarrow> mesh_sar_msg \<Rightarrow> mesh_sar_msg cres" where
  "store_all [] s = Ret s"
| "store_all ((tpdu, len) # segs) s = cbind (store_segment tpdu len s) (store_all segs)"

text \<open>The state of the reassembly of \<open>m\<close> when the segments in \<open>S\<close> have been stored.\<close>

definition partial_of :: "mesh_sar_msg \<Rightarrow> nat set \<Rightarrow> mesh_sar_msg \<Rightarrow> bool" where
  "partial_of m S s \<longleftrightarrow>
     length (sar_data s) = 20 + 12 * unat (segN m) \<and> byte_at (sar_data s) 0 = sar_akf_aid m \<and>
     (\<forall>n. bit (ack s) n \<longleftrightarrow> n \<in> S) \<and>
     (\<forall>i\<in>S. \<forall>k<12. 12 * i + k < unat (sar_len m) \<longrightarrow> byte_at (sar_data s) (1 + 12 * i + k) = byte_at (sar_data m) (12 * i + k)) \<and>
     (unat (segN m) \<in> S \<longrightarrow> unat (sar_len s) = 1 + unat (sar_len m))"

text \<open>A message that needs \<open>segN + 1\<close> segments.\<close>

definition sar_sized :: "mesh_sar_msg \<Rightarrow> bool" where
  "sar_sized m \<longleftrightarrow> unat (segN m) \<le> 31 \<and> 12 * unat (segN m) < unat (sar_len m) \<and> unat (sar_len m) \<le> 12 * unat (segN m) + 12"

lemma block_disjoint:
  fixes i j k l :: nat
  assumes "k < 12" "l < 12" "12 * i + k = 12 * j + l"
  shows "i = j \<and> k = l"
  using assms by presburger

lemma store_segment_partial:
  assumes "partial_of m S s" "carries m i tpdu len" "sar_sized m"
  shows "\<exists>s'. store_segment tpdu len s = Ret s' \<and> partial_of m (insert i S) s'"
proof -
  have c: "unat (TRANS_SEGO tpdu) = i" "TRANS_SEGN tpdu = segN m" "i \<le> unat (segN m)" "16 \<le> length tpdu"
    and cd: "\<And>k. k < 12 \<Longrightarrow> 12 * i + k < unat (sar_len m) \<Longrightarrow> byte_at tpdu (4 + k) = byte_at (sar_data m) (12 * i + k)"
    and cl: "i = unat (segN m) \<Longrightarrow> unat len = unat (sar_len m) - 12 * i + 4"
    using assms(2) by (auto simp: carries_def)
  have p: "length (sar_data s) = 20 + 12 * unat (segN m)" "byte_at (sar_data s) 0 = sar_akf_aid m"
    and pa: "\<And>n. bit (ack s) n \<longleftrightarrow> n \<in> S"
    and pd: "\<And>i k. i \<in> S \<Longrightarrow> k < 12 \<Longrightarrow> 12 * i + k < unat (sar_len m) \<Longrightarrow> byte_at (sar_data s) (1 + 12 * i + k) = byte_at (sar_data m) (12 * i + k)"
    and pl: "unat (segN m) \<in> S \<Longrightarrow> unat (sar_len s) = 1 + unat (sar_len m)"
    using assms(1) by (auto simp: partial_of_def)
  have i31: "i \<le> 31" "unat (segN m) \<le> 31" "unat (sar_len m) \<le> 12 * unat (segN m) + 12" "12 * unat (segN m) < unat (sar_len m)"
    using c(3) assms(3) by (auto simp: sar_sized_def)
  define s' where "s' = s\<lparr>sar_len := (if TRANS_SEGN tpdu = TRANS_SEGO tpdu then of_nat (unat (TRANS_SEGN tpdu) * 12) + len - 3 else sar_len s),
      sar_data := memcpy (sar_data s) (1 + 12 * i) (sub_bytes tpdu 4 12), ack := ack s OR push_bit i 1\<rparr>"
  have fits: "1 + 12 * i + 12 \<le> length (sar_data s)" using c(3) p(1) by simp
  have r: "store_segment tpdu len s = Ret s'"
    using c fits by (simp add: store_segment_def s'_def)
  have data: "byte_at (sar_data s') j = (if 1 + 12 * i \<le> j \<and> j < 1 + 12 * i + 12 then byte_at tpdu (4 + (j - (1 + 12 * i))) else byte_at (sar_data s) j)" for j
    using fits by (auto simp: s'_def byte_at_memcpy)
  have "bit (ack s') n \<longleftrightarrow> n \<in> insert i S" for n
    using i31 by (auto simp: s'_def bits pa bit_exp_iff)
  moreover have "byte_at (sar_data s') (1 + 12 * j + k) = byte_at (sar_data m) (12 * j + k)"
    if "j \<in> insert i S" "k < 12" "12 * j + k < unat (sar_len m)" for j k
  proof (cases "j = i")
    case True
    with that cd [of k] show ?thesis by (simp add: data)
  next
    case False
    with that have "\<not> (1 + 12 * i \<le> 1 + 12 * j + k \<and> 1 + 12 * j + k < 1 + 12 * i + 12)" by auto
    with that False pd show ?thesis by (auto simp: data)
  qed
  moreover have "unat (sar_len s') = 1 + unat (sar_len m)" if "unat (segN m) \<in> insert i S"
  proof (cases "i = unat (segN m)")
    case True
    then have e: "TRANS_SEGN tpdu = TRANS_SEGO tpdu" using c by (simp add: word_unat_eq_iff)
    have "sar_len s' = of_nat (i * 12) + of_nat (unat len) - 3" using e c(1) by (simp add: s'_def)
    also have "\<dots> = of_nat (i * 12 + unat len - 3)"
      using cl [OF True] by (simp add: of_nat_diff)
    also have "i * 12 + unat len - 3 = 1 + unat (sar_len m)" using cl [OF True] i31 True by simp
    finally show ?thesis using i31 by (simp only: unat_of_nat_u16)
  next
    case False
    then have "TRANS_SEGN tpdu \<noteq> TRANS_SEGO tpdu" using c by metis
    with False that pl show ?thesis by (simp add: s'_def)
  qed
  moreover have "length (sar_data s') = 20 + 12 * unat (segN m)" "byte_at (sar_data s') 0 = sar_akf_aid m"
    using fits p data [of 0] by (simp_all add: s'_def)
  ultimately show ?thesis using r by (auto simp: partial_of_def)
qed

lemma store_all_partial:
  assumes "partial_of m S s" "sar_sized m" "list_all2 (\<lambda>i (tpdu, len). carries m i tpdu len) idxs segs"
  shows "\<exists>s'. store_all segs s = Ret s' \<and> partial_of m (S \<union> set idxs) s'"
  using assms(3,1)
proof (induction arbitrary: s S)
  case (Cons i idxs y segs)
  obtain tpdu len where y: "y = (tpdu, len)" by (cases y)
  with Cons.hyps(1) Cons.prems store_segment_partial [OF _ _ assms(2)]
  obtain s1 where s1: "store_segment tpdu len s = Ret s1" "partial_of m (insert i S) s1" by blast
  with Cons.IH [OF s1(2)] show ?case by (auto simp: y)
qed auto

lemma mod12_tail:
  fixes s l :: nat
  assumes "12 * s < l" "l \<le> 12 * s + 12"
  shows "l mod 12 = (if l - 12 * s = 12 then 0 else l - 12 * s)"
proof -
  define r where "r = l - 12 * s"
  have "l = 12 * s + r" "r \<le> 12" using assms by (simp_all add: r_def)
  then show ?thesis by auto
qed

lemma unat_13_add: "r \<le> 12 \<Longrightarrow> unat ((13 :: u8) + of_nat r) = 13 + r"
  by (simp add: unat_word_ariths unat_of_nat)

lemma seg_build_length:
  assumes "segmented m" "\<not> sar_ctl m" "sar_sized m" "i \<le> unat (segN m)"
  shows "unat (snd (seg_build part m (of_nat i) seq)) = 13 + (if i = unat (segN m) then unat (sar_len m) - 12 * i else 12)"
proof -
  have z: "unat (segN m) \<le> 31" "12 * unat (segN m) < unat (sar_len m)" "unat (sar_len m) \<le> 12 * unat (segN m) + 12"
    using assms(3) by (auto simp: sar_sized_def)
  have i: "segN m = of_nat i \<longleftrightarrow> i = unat (segN m)"
    using z(1) assms(4) by (auto simp: word_unat_eq_iff unat_of_nat)
  have s: "snd (seg_build part m (of_nat i) seq) =
      (let l = 13 + (if i = unat (segN m) then of_nat (unat (sar_len m) mod 12) else 0) in if l = 13 then l + 12 else l)"
    using assms(1,2) by (simp add: seg_build_def Let_def bool_nat_def i)
  define r where "r = unat (sar_len m) mod 12"
  have r: "r \<le> 12" "i = unat (segN m) \<Longrightarrow> r = (if unat (sar_len m) - 12 * i = 12 then 0 else unat (sar_len m) - 12 * i)"
    using mod12_tail [OF z(2,3)] by (simp_all add: r_def)
  have e: "(13 :: u8) + of_nat r = 13 \<longleftrightarrow> r = 0" using unat_13_add [OF r(1)] by (auto simp: word_unat_eq_iff)
  have "i = unat (segN m) \<Longrightarrow> 0 < unat (sar_len m) - 12 * i" using z by simp
  then show ?thesis
    using unat_13_add [OF r(1)] r(2) unfolding s r_def [symmetric] Let_def by (auto simp: e split: if_splits)
qed

lemma seg_build_carries:
  assumes m: "segmented m" "\<not> sar_ctl m" "nid part < 128" "sar_ttl m < 128" "sar_akf_aid m < 128" "sar_sized m"
    and i: "i \<le> unat (segN m)"
    and t: "16 \<le> length tpdu" "unat len = unat (snd (seg_build part m (of_nat i) seq)) - 9"
      "\<And>k. k < unat len \<Longrightarrow> byte_at tpdu k = byte_at (fst (seg_build part m (of_nat i) seq)) (9 + k)"
  shows "carries m i tpdu len"
proof -
  define d where "d = fst (seg_build part m (of_nat i) seq)"
  have z: "unat (segN m) \<le> 31" "12 * unat (segN m) < unat (sar_len m)" using m(6) by (auto simp: sar_sized_def)
  have i8: "unat (of_nat i :: u8) = i" using i z by (simp add: unat_of_nat)
  have lt: "segN m < 32" "(of_nat i :: u8) < 32" using z i i8 by (simp_all add: word_less_nat_alt)
  note h = segment_header_core [OF m(1-5) lt d_def]
  have len: "unat len = 4 + (if i = unat (segN m) then unat (sar_len m) - 12 * i else 12)"
    using t(2) seg_build_length [OF m(1,2,6) i] by simp
  have td: "byte_at tpdu k = byte_at d (9 + k)" if "k < unat len" for k using t(3) that by (simp add: d_def)
  have "byte_at tpdu 2 = byte_at d (9 + 2)" "byte_at tpdu 3 = byte_at d (9 + 3)"
    using td [of 2] td [of 3] z i by (simp_all add: len split: if_splits)
  then have "TRANS_SEGO tpdu = of_nat i" "TRANS_SEGN tpdu = segN m"
    using h by (simp_all add: TRANS_SEGO_def TRANS_SEGN_def get_be16_def byte_at_drop)
  moreover have "byte_at tpdu (4 + k) = byte_at (sar_data m) (12 * i + k)" if "k < 12" "12 * i + k < unat (sar_len m)" for k
  proof -
    have "4 + k < unat len" using that by (auto simp: len)
    then have "byte_at tpdu (4 + k) = byte_at d (13 + k)" using td [of "4 + k"] by simp
    also have "\<dots> = byte_at (sar_data m) (12 * i + k)"
      using seg_build_bytes(6) [OF m(1-5) d_def refl that(1)] by (simp add: i8 mult.commute)
    finally show ?thesis .
  qed
  ultimately show ?thesis using i t(1) i8 by (simp add: carries_def len)
qed

text \<open>A received transport PDU that agrees with the segment as far as its count goes.\<close>

definition received_segment :: "net_key_parts \<Rightarrow> mesh_sar_msg \<Rightarrow> nat \<Rightarrow> u32 \<Rightarrow> bytes \<Rightarrow> u16 \<Rightarrow> bool" where
  "received_segment part m i seq tpdu len \<longleftrightarrow>
     i \<le> unat (segN m) \<and> 16 \<le> length tpdu \<and> unat len = unat (snd (seg_build part m (of_nat i) seq)) - 9 \<and>
     (\<forall>k<unat len. byte_at tpdu k = byte_at (fst (seg_build part m (of_nat i) seq)) (9 + k))"

lemma bit_full_ack: "unat n \<le> 31 \<Longrightarrow> bit (full_ack n) k \<longleftrightarrow> k \<le> unat n"
proof -
  assume n: "unat n \<le> 31"
  have "(0xffffffff :: u32) = - 1" by simp
  then have "full_ack n = drop_bit (31 - unat n) (- 1)" by (simp only: full_ack_def)
  then show ?thesis using n by (auto simp: bits bit_minus_1_iff simp del: drop_bit_minus_one)
qed

lemma received_first:
  assumes m: "segmented m" "\<not> sar_ctl m" "nid part < 128" "sar_ttl m < 128" "sar_akf_aid m < 128" "sar_sized m"
    and r: "received_segment part m i seq tpdu len"
  shows "partial_of m {} (new_sar_in net_idx iv False ttl sa src dst tpdu)"
proof -
  have c: "carries m i tpdu len" using m r by (intro seg_build_carries) (auto simp: received_segment_def)
  define d where "d = fst (seg_build part m (of_nat i) seq)"
  have z: "unat (segN m) \<le> 31" "i \<le> unat (segN m)" using m(6) c by (auto simp: sar_sized_def carries_def)
  have "unat (of_nat i :: u8) = i" using z by (simp add: unat_of_nat)
  then have lt: "segN m < 32" "(of_nat i :: u8) < 32" using z by (simp_all add: word_less_nat_alt)
  have "0 < unat len" using r seg_build_length [OF m(1,2,6) z(2)] by (simp add: received_segment_def)
  then have "byte_at tpdu 0 = byte_at d 9" using r by (auto simp: received_segment_def d_def)
  moreover have "TRANS_AKF_AID (drop 9 d) = sar_akf_aid m" using segment_header_core [OF m(1-5) lt d_def] by simp
  ultimately have "byte_at tpdu 0 AND 0x7f = sar_akf_aid m"
    by (simp add: TRANS_AKF_AID_def get_low7_def byte_at_drop)
  moreover have "TRANS_SEGN tpdu = segN m" using c by (simp add: carries_def)
  ultimately show ?thesis
    by (simp add: partial_of_def new_sar_in_def Let_def blank_sar_def byte_at_update)
qed

lemma partial_complete:
  assumes "partial_of m {0..unat (segN m)} s" "sar_sized m" "unat (sar_len m) \<le> length (sar_data m)"
  shows "ack s = full_ack (segN m)"
    "take (unat (sar_len s)) (sar_data s) = sar_akf_aid m # take (unat (sar_len m)) (sar_data m)"
proof -
  let ?L = "unat (sar_len m)"
  have z: "unat (segN m) \<le> 31" "12 * unat (segN m) < ?L" "?L \<le> 12 * unat (segN m) + 12"
    using assms(2) by (auto simp: sar_sized_def)
  have p: "length (sar_data s) = 20 + 12 * unat (segN m)" "byte_at (sar_data s) 0 = sar_akf_aid m"
      "unat (sar_len s) = 1 + ?L"
    and a: "\<And>n. bit (ack s) n \<longleftrightarrow> n \<le> unat (segN m)"
    and b: "\<And>i k. i \<le> unat (segN m) \<Longrightarrow> k < 12 \<Longrightarrow> 12 * i + k < ?L \<Longrightarrow>
        byte_at (sar_data s) (1 + 12 * i + k) = byte_at (sar_data m) (12 * i + k)"
    using assms(1) by (auto simp: partial_of_def)
  show "ack s = full_ack (segN m)" by (rule bit_word_eqI) (simp add: a bit_full_ack z)
  have body: "byte_at (sar_data s) (1 + j) = byte_at (sar_data m) j" if "j < ?L" for j
  proof -
    have "j = 12 * (j div 12) + j mod 12" "j mod 12 < 12" by simp_all
    moreover have "j div 12 \<le> unat (segN m)" using that z by (simp add: less_Suc_eq_le [symmetric] div_less_iff_less_mult)
    ultimately show ?thesis using b [of "j div 12" "j mod 12"] that by simp
  qed
  show "take (unat (sar_len s)) (sar_data s) = sar_akf_aid m # take ?L (sar_data m)" (is "?a = ?b")
  proof (rule byte_at_eqI)
    show "length ?a = length ?b" using p z assms(3) by simp
    fix i assume i: "i < length ?a"
    show "byte_at ?a i = byte_at ?b i"
    proof (cases i)
      case (Suc j)
      have "byte_at ?b (Suc j) = byte_at (take ?L (sar_data m)) j" by (simp add: byte_at_def)
      with Suc i p z body [of j] show ?thesis by (simp add: byte_at_take)
    qed (use p i in \<open>simp_all add: byte_at_take byte_at_def\<close>)
  qed
qed

section \<open>Properties\<close>

text \<open>
  The header that \<open>send_seg\<close> writes is the header that \<open>net_data_ready\<close> and
  \<open>seg_rxed\<close> read: every field of a segment of an access message reads back,
  the sequence number modulo 2 to the 24.
\<close>

lemma segment_header_read:
  assumes "segmented sar" "\<not> sar_ctl sar" "nid part < 128" "sar_ttl sar < 128" "sar_akf_aid sar < 128"
    "segN sar < 32" "seg < 32" "d = fst (seg_build part sar seg seq)"
  shows "PKT_NID d = nid part \<and> PKT_IVI d = bit (sar_iv_index sar) 0 \<and> \<not> PKT_CTL d \<and> PKT_TTL d = sar_ttl sar \<and>
    PKT_SEQ d = seq AND 0xffffff \<and> PKT_SRC d = sar_src sar \<and> PKT_DST d = ucast (sar_dst sar) \<and> PKT_SEGMENTED d \<and>
    TRANS_AKF_AID (drop 9 d) = sar_akf_aid sar \<and> TRANS_SZMIC (drop 9 d) = szmic sar \<and>
    TRANS_SEQ0 (drop 9 d) = ucast (seqAuth sar) AND 0x1fff \<and> TRANS_SEGO (drop 9 d) = seg \<and> TRANS_SEGN (drop 9 d) = segN sar"
  by (rule segment_header_core [OF assms])

text \<open>
  C14. Segmentation and reassembly of access messages. The segments that
  \<open>seg_build\<close> cuts a message into, received and stored in any order and with any
  repetition, leave the receiver with every acknowledgement bit and with the
  message, preceded by its key octet.
\<close>

theorem segments_reassemble:
  assumes "segmented m" "\<not> sar_ctl m" "nid part < 128" "sar_ttl m < 128" "sar_akf_aid m < 128" "sar_sized m"
    and "unat (sar_len m) \<le> length (sar_data m)"
    and "list_all2 (\<lambda>(i, seq) (tpdu, len). received_segment part m i seq tpdu len) sent rcvd"
    and "fst ` set sent = {0..unat (segN m)}"
  shows "\<exists>s. store_all rcvd (new_sar_in net_idx iv False ttl sa src dst (fst (hd rcvd))) = Ret s \<and>
    ack s = full_ack (segN m) \<and>
    take (unat (sar_len s)) (sar_data s) = sar_akf_aid m # take (unat (sar_len m)) (sar_data m)"
proof -
  have "sent \<noteq> []" using assms(9) by auto
  then have r: "received_segment part m (fst (hd sent)) (snd (hd sent)) (fst (hd rcvd)) (snd (hd rcvd))"
    using assms(8) by (cases sent; cases rcvd) auto
  have "list_all2 (\<lambda>i (tpdu, len). carries m i tpdu len) (map fst sent) rcvd"
    unfolding list_all2_map1
    by (rule list_all2_mono [OF assms(8)]) (auto simp: received_segment_def intro: seg_build_carries [OF assms(1-6)])
  from store_all_partial [OF received_first [OF assms(1-6) r, of net_idx iv ttl sa src dst] assms(6) this] assms(9)
  obtain s where "store_all rcvd (new_sar_in net_idx iv False ttl sa src dst (fst (hd rcvd))) = Ret s"
    "partial_of m {0..unat (segN m)} s" by auto
  with partial_complete [OF _ assms(6,7)] show ?thesis by blast
qed

text \<open>A message of 20 octets in two segments, received in reverse order.\<close>

definition demo_part :: net_key_parts where
  "demo_part = \<lparr>nid = 0x21, enc_key = replicate 16 1, privacy_key = replicate 16 2, net_key = replicate 16 3,
     beacon_key = replicate 16 4, net_id = replicate 8 5\<rparr>"

definition demo_sar :: mesh_sar_msg where
  "demo_sar = (blank_sar 12)\<lparr>segmented := True, sar_ttl := 7, segN := 1, seqAuth := 0x2345, sar_src := 1,
     sar_dst := 5, sar_akf_aid := 0x4a, sar_len := 20, sar_data := map of_nat [0..<32]\<rparr>"

definition demo_tpdu :: "nat \<Rightarrow> u32 \<Rightarrow> bytes" where
  "demo_tpdu i seq = drop 9 (fst (seg_build demo_part demo_sar (of_nat i) seq))"

theorem segments_reassemble_witness:
  "\<exists>s. store_all [(demo_tpdu 1 0x2346, 12), (demo_tpdu 0 0x2345, 16)]
      (new_sar_in 0 0 False 7 0x2345 1 5 (demo_tpdu 1 0x2346)) = Ret s \<and>
    take (unat (sar_len s)) (sar_data s) = 0x4a # map of_nat [0..<20]"
proof -
  have len: "length (fst (seg_build demo_part demo_sar g q)) = 29" for g q
    by (simp add: seg_build_def Let_def demo_sar_def blank_sar_def seg_header_def field_defs)
  have "received_segment demo_part demo_sar i q (demo_tpdu i q) n"
    if "i \<le> 1" "unat n = unat (snd (seg_build demo_part demo_sar (of_nat i) q)) - 9" for i q n
    using that len by (simp add: received_segment_def demo_tpdu_def byte_at_drop) (simp add: demo_sar_def)
  moreover have "unat (12 :: u16) = unat (snd (seg_build demo_part demo_sar (of_nat 1) q)) - 9"
      "unat (16 :: u16) = unat (snd (seg_build demo_part demo_sar (of_nat 0) q)) - 9" for q
    by (simp_all add: seg_build_def Let_def demo_sar_def blank_sar_def bool_nat_def)
  ultimately have "list_all2 (\<lambda>(i, seq) (tpdu, len). received_segment demo_part demo_sar i seq tpdu len)
      [(1, 0x2346), (0, 0x2345)] [(demo_tpdu 1 0x2346, 12), (demo_tpdu 0 0x2345, 16)]"
    by simp
  moreover have "{Suc 0, 0} = {0..Suc 0}" by auto
  ultimately show ?thesis
    using segments_reassemble [of demo_sar demo_part "[(1, 0x2346), (0, 0x2345)]"
        "[(demo_tpdu 1 0x2346, 12), (demo_tpdu 0 0x2345, 16)]" 0 0 7 "0x2345" 1 5]
    by (auto simp: demo_sar_def demo_part_def blank_sar_def sar_sized_def take_map)
qed

lemma segment_header_read_witness:
  "PKT_SEQ (fst (seg_build demo_part demo_sar 1 0x1002346)) = 0x2346 \<and>
   TRANS_SEQ0 (drop 9 (fst (seg_build demo_part demo_sar 1 0x1002346))) = 0x345 \<and>
   TRANS_SEGO (drop 9 (fst (seg_build demo_part demo_sar 1 0x1002346))) = 1"
  using segment_header_read [of demo_sar demo_part 1 "fst (seg_build demo_part demo_sar 1 0x1002346)" "0x1002346"]
  by (simp add: demo_sar_def demo_part_def blank_sar_def)

end
