(* ===== verification/Mesh_NetSafety.thy ===== *)
theory Mesh_NetSafety
  imports Mesh_Segments
begin

text \<open>
  Properties of the network layer as a whole: the reservation of sequence
  numbers, the order of the packet queue, what an unauthenticated beacon or
  packet can change, and the invariant of the messages in progress.
\<close>

section \<open>Updates of the network state\<close>

lemma upd_net_simps [simp]:
  "net (upd_net f w) = f (net w)" "keys (upd_net f w) = keys w" "nodes (upd_net f w) = nodes w"
  "local_node (upd_net f w) = local_node w" "log (upd_net f w) = log w" "virt_addrs (upd_net f w) = virt_addrs w"
  "next_ref (upd_net f w) = next_ref w"
  by (simp_all add: upd_net_def)

lemma emit_simps [simp]: "log (emit e w) = log w @ [e]" "virt_addrs (emit e w) = virt_addrs w" "next_ref (emit e w) = next_ref w"
  by (simp_all add: emit_def)

section \<open>Sequence numbers\<close>

text \<open>The last sequence number written to the configuration file.\<close>

fun seq_saved :: "effect list \<Rightarrow> u32 option" where
  "seq_saved [] = None"
| "seq_saved (e # es) = (case seq_saved es of Some n \<Rightarrow> Some n
     | None \<Rightarrow> (case e of Db_local_seq_num n \<Rightarrow> Some n | _ \<Rightarrow> None))"

lemma seq_saved_append: "seq_saved (es @ fs) = (case seq_saved fs of Some n \<Rightarrow> Some n | None \<Rightarrow> seq_saved es)"
  by (induction es) (auto split: option.splits)

text \<open>
  The number on disk is the reserved one, and the next number lies below it.
\<close>

definition seq_reserved :: "'a world_scheme \<Rightarrow> bool" where
  "seq_reserved w \<longleftrightarrow> seq_saved (log w) = Some (seq_num_reserved (net w)) \<and>
     unat (seq_num (net w)) < unat (seq_num_reserved (net w))"

lemma get_next_seq_reserved:
  assumes "unat (seq_num (net w)) < 2 ^ 32 - 200" "get_next_seq w = (w', n)"
    and "seq_reserved w \<or> seq_num_reserved (net w) = 0"
  shows "seq_reserved w' \<and> n = seq_num (net w) \<and> seq_num (net w') = n + 1 \<and>
    (\<exists>r. seq_saved (log w') = Some r \<and> unat n < unat r)"
proof -
  let ?s = "seq_num (net w)" and ?r = "seq_num_reserved (net w)"
  have u: "unat (?s + 1) = unat ?s + 1" "unat (?s + 1 + 32) = unat ?s + 33" "unat (?s + 1 + 100) = unat ?s + 101"
    using assms(1) by (simp_all add: unat_word_ariths)
  show ?thesis
  proof (cases "?s + 1 + 32 \<ge> ?r")
    case True
    then show ?thesis using assms(2) u by (auto simp: get_next_seq_def Let_def seq_reserved_def seq_saved_append)
  next
    case False
    then have "unat ?s + 33 < unat ?r" using u by (simp add: word_le_nat_alt)
    then show ?thesis using False assms(2,3) u
      by (auto simp: get_next_seq_def Let_def seq_reserved_def split: if_splits)
  qed
qed

section \<open>The invariant\<close>

fun written :: "effect list \<Rightarrow> bytes list" where
  "written [] = []"
| "written (Gatt_write b # es) = b # written es"
| "written (_ # es) = written es"

lemma written_append [simp]: "written (es @ fs) = written es @ written fs"
  by (induction es rule: written.induct) auto

definition sar_in_ok :: "mesh_sar_msg list \<Rightarrow> bool" where
  "sar_in_ok xs \<longleftrightarrow> distinct (map sar_src xs) \<and>
     (\<forall>s\<in>set xs. unat (segN s) \<le> 31 \<and> length (sar_data s) = 20 + 12 * unat (segN s))"

definition sar_out_ok :: "mesh_sar_msg list \<Rightarrow> bool" where
  "sar_out_ok xs \<longleftrightarrow> distinct (map sar_dst xs) \<and> (\<forall>s\<in>set xs. segmented s \<and> IS_UNICAST (sar_dst s) \<and> unat (segN s) \<le> 32)"

text \<open>The packet at the head of the queue is the last one written to GATT.\<close>

definition queue_ok :: "bytes list \<Rightarrow> effect list \<Rightarrow> bool" where
  "queue_ok q l \<longleftrightarrow> (q \<noteq> [] \<longrightarrow> written l \<noteq> [] \<and> last (written l) = hd q)"

definition net_inv :: "'a world_scheme \<Rightarrow> bool" where
  "net_inv w \<longleftrightarrow> sar_in_ok (sar_in (net w)) \<and> sar_out_ok (msg_out (net w)) \<and> queue_ok (pkt_out (net w)) (log w)"

text \<open>States that agree on what the invariant reads.\<close>

definition same_io :: "'a world_scheme \<Rightarrow> 'a world_scheme \<Rightarrow> bool" where
  "same_io w w' \<longleftrightarrow> sar_in (net w) = sar_in (net w') \<and> msg_out (net w) = msg_out (net w') \<and>
     pkt_out (net w) = pkt_out (net w') \<and> written (log w) = written (log w')"

lemma net_inv_same: "same_io w w' \<Longrightarrow> net_inv w \<Longrightarrow> net_inv w'"
  by (simp add: same_io_def net_inv_def queue_ok_def)

lemma same_io_get_next_seq: "same_io w (fst (get_next_seq w))"
  by (simp add: same_io_def get_next_seq_def Let_def)

lemma net_inv_send_mesh_pkt: "net_inv w \<Longrightarrow> net_inv (send_mesh_pkt p w)"
  by (auto simp: net_inv_def send_mesh_pkt_def Let_def queue_ok_def)

lemma send_seg_cases:
  assumes "send_seg E sar i w = Ret w'"
  obtains "w' = w" "find_net_key_by_idx (keys w) (sar_net_idx sar) = None"
  | pkt where "w' = send_mesh_pkt pkt (fst (get_next_seq w))" "find_net_key_by_idx (keys w) (sar_net_idx sar) \<noteq> None"
  using assms by (auto simp: send_seg_def Let_def split: option.splits prod.splits cres.splits)

lemma net_inv_send_seg: "send_seg E sar i w = Ret w' \<Longrightarrow> net_inv w \<Longrightarrow> net_inv w'"
  by (erule send_seg_cases) (auto intro: net_inv_send_mesh_pkt net_inv_same same_io_get_next_seq)

text \<open>Sending leaves the lists of messages in progress, the keys and the nodes alone.\<close>

definition same_sar :: "'a world_scheme \<Rightarrow> 'a world_scheme \<Rightarrow> bool" where
  "same_sar w w' \<longleftrightarrow> sar_in (net w) = sar_in (net w') \<and> msg_out (net w) = msg_out (net w') \<and>
     keys w = keys w' \<and> nodes w = nodes w' \<and> local_node w = local_node w'"

lemma same_sar_refl [simp]: "same_sar w w" by (simp add: same_sar_def)
lemma same_sar_trans: "same_sar u v \<Longrightarrow> same_sar v w \<Longrightarrow> same_sar u w" by (simp add: same_sar_def)

lemma same_sar_send_seg: "send_seg E sar i w = Ret w' \<Longrightarrow> same_sar w w'"
  by (erule send_seg_cases) (simp_all add: same_sar_def send_mesh_pkt_def get_next_seq_def Let_def)

lemma send_segs_keeps:
  "send_segs E sar idxs w = Ret w' \<Longrightarrow> same_sar w w' \<and> (net_inv w \<longrightarrow> net_inv w')"
proof (induction idxs arbitrary: w)
  case (Cons i idxs)
  then obtain w1 where w1: "send_seg E sar i w = Ret w1" "send_segs E sar idxs w1 = Ret w'"
    by (auto simp: cbind_Ret_iff)
  with Cons.IH [OF w1(2)] show ?case
    by (auto intro: same_sar_trans same_sar_send_seg net_inv_send_seg)
qed simp

lemma set_update_first: "set (update_first P f xs) \<subseteq> set xs \<union> f ` {x \<in> set xs. P x}"
  by (induction xs) auto

definition out_ok :: "mesh_sar_msg \<Rightarrow> bool" where
  "out_ok s \<longleftrightarrow> segmented s \<and> IS_UNICAST (sar_dst s) \<and> unat (segN s) \<le> 32"

definition in_ok :: "mesh_sar_msg \<Rightarrow> bool" where
  "in_ok s \<longleftrightarrow> unat (segN s) \<le> 31 \<and> length (sar_data s) = 20 + 12 * unat (segN s)"

lemma sar_ok_alt:
  "sar_out_ok xs \<longleftrightarrow> distinct (map sar_dst xs) \<and> (\<forall>s\<in>set xs. out_ok s)"
  "sar_in_ok xs \<longleftrightarrow> distinct (map sar_src xs) \<and> (\<forall>s\<in>set xs. in_ok s)"
  by (simp_all add: sar_out_ok_def sar_in_ok_def out_ok_def in_ok_def)

lemma net_inv_upd_out:
  assumes "net_inv w" "\<And>s. sar_dst s = d \<Longrightarrow> sar_dst (f s) = d"
    and "\<And>s. s \<in> set (msg_out (net w)) \<Longrightarrow> sar_dst s = d \<Longrightarrow> out_ok (f s)"
  shows "net_inv (upd_out d f w)"
proof -
  let ?xs = "msg_out (net w)"
  have "map sar_dst (update_first (\<lambda>s. sar_dst s = d) f ?xs) = map sar_dst ?xs"
    by (rule map_update_first) (simp add: assms(2))
  moreover have "\<forall>s\<in>set (update_first (\<lambda>s. sar_dst s = d) f ?xs). out_ok s"
    using set_update_first [of "\<lambda>s. sar_dst s = d" f ?xs] assms(1,3) by (auto simp: net_inv_def sar_ok_alt)
  ultimately show ?thesis using assms(1) by (simp add: net_inv_def upd_out_def sar_ok_alt)
qed

lemma net_inv_upd_in:
  assumes "net_inv w" "\<And>s. sar_src s = d \<Longrightarrow> sar_src (f s) = d"
    and "\<And>s. s \<in> set (sar_in (net w)) \<Longrightarrow> sar_src s = d \<Longrightarrow> in_ok (f s)"
  shows "net_inv (upd_in d f w)"
proof -
  let ?xs = "sar_in (net w)"
  have "map sar_src (update_first (\<lambda>s. sar_src s = d) f ?xs) = map sar_src ?xs"
    by (rule map_update_first) (simp add: assms(2))
  moreover have "\<forall>s\<in>set (update_first (\<lambda>s. sar_src s = d) f ?xs). in_ok s"
    using set_update_first [of "\<lambda>s. sar_src s = d" f ?xs] assms(1,3) by (auto simp: net_inv_def sar_ok_alt)
  ultimately show ?thesis using assms(1) by (simp add: net_inv_def upd_in_def sar_ok_alt)
qed

lemma net_inv_flush_out: "net_inv w \<Longrightarrow> net_inv (flush_out d w)"
  using set_delete_first [of "\<lambda>s. sar_dst s = d" "msg_out (net w)"]
  by (auto simp: net_inv_def flush_out_def sar_out_ok_def intro: distinct_map_delete_first)

lemma net_inv_flush_in: "net_inv w \<Longrightarrow> net_inv (flush_in d w)"
  using set_delete_first [of "\<lambda>s. sar_src s = d" "sar_in (net w)"]
  by (auto simp: net_inv_def flush_in_def sar_in_ok_def intro: distinct_map_delete_first)

lemma out_ok_cnt [simp]: "out_ok (s\<lparr>activity_cnt := c\<rparr>) = out_ok s" "out_ok (s\<lparr>ack := a\<rparr>) = out_ok s"
  "in_ok (s\<lparr>activity_cnt := c\<rparr>) = in_ok s"
  by (simp_all add: out_ok_def in_ok_def)

lemma net_inv_out_ok: "net_inv w \<Longrightarrow> s \<in> set (msg_out (net w)) \<Longrightarrow> out_ok s"
  by (simp add: net_inv_def sar_ok_alt)

lemma net_inv_in_ok: "net_inv w \<Longrightarrow> s \<in> set (sar_in (net w)) \<Longrightarrow> in_ok s"
  by (simp add: net_inv_def sar_ok_alt)

lemma resend_segs_keeps:
  assumes "resend_segs E sar w = Ret w'" "net_inv w"
  shows "net_inv w'"
proof -
  have "net_inv (upd_out (sar_dst sar) (\<lambda>s. s\<lparr>activity_cnt := 0\<rparr>) w)"
    using assms(2) by (rule net_inv_upd_out) (auto intro: net_inv_out_ok [OF assms(2)])
  with assms(1) send_segs_keeps show ?thesis unfolding resend_segs_def by blast
qed

lemma resend_unacked_segs_keeps:
  "resend_unacked_segs E ss w = Ret w' \<Longrightarrow> net_inv w \<Longrightarrow> net_inv w'"
  by (induction ss arbitrary: w) (auto simp: cbind_Ret_iff split: if_splits dest: resend_segs_keeps)

lemma send_pkt_cmplt_keeps:
  assumes "send_pkt_cmplt E w = Ret w'" "net_inv w"
  shows "net_inv w'"
proof -
  let ?w1 = "upd_net (\<lambda>n. n\<lparr>pkt_out := drop 1 (pkt_out n)\<rparr>) w"
  show ?thesis
  proof (cases "drop 1 (pkt_out (net w))")
    case Nil
    then have "net_inv ?w1" using assms(2) by (simp add: net_inv_def queue_ok_def)
    with Nil assms(1) resend_unacked_segs_keeps show ?thesis by (simp add: send_pkt_cmplt_def Let_def)
  next
    case (Cons p ps)
    then show ?thesis using assms by (auto simp: send_pkt_cmplt_def Let_def net_inv_def queue_ok_def)
  qed
qed

lemma ack_rxed_keeps:
  assumes "ack_rxed E src dst obo seq0 fl w = Ret (w', b)" "net_inv w"
  shows "net_inv w'"
proof (cases "find_sar_out_by_dst w src")
  case None
  then show ?thesis using assms by (simp add: ack_rxed_def)
next
  case (Some sar0)
  then have "sar0 \<in> set (msg_out (net w))" by (auto simp: find_sar_out_by_dst_def dest: find_SomeD)
  then have ok: "out_ok sar0" using assms(2) by (rule net_inv_out_ok [rotated])
  define sar where "sar = sar0\<lparr>ack := ack sar0 OR (fl AND full_ack (segN sar0))\<rparr>"
  define sar1 where "sar1 = sar\<lparr>activity_cnt := activity_cnt sar + 1\<rparr>"
  have "net_inv (upd_out (sar_dst sar) (\<lambda>_. sar1) w)"
    using assms(2) by (rule net_inv_upd_out) (use ok in \<open>auto simp: sar1_def sar_def\<close>)
  then show ?thesis
    using assms Some
    by (auto simp: ack_rxed_def Let_def sar_def [symmetric] sar1_def [symmetric] cbind_Ret_iff
        intro: net_inv_flush_out resend_segs_keeps split: if_splits)
qed

lemma sar_out_ack_timeout_keeps:
  assumes "sar_out_ack_timeout E dst w = Ret w'" "net_inv w"
  shows "net_inv w'"
proof (cases "find (\<lambda>s. sar_dst s = dst) (msg_out (net w))")
  case (Some sar0)
  then have s: "sar0 \<in> set (msg_out (net w))" "sar_dst sar0 = dst" by (auto dest: find_SomeD)
  have "net_inv (upd_out dst (\<lambda>_. sar0\<lparr>activity_cnt := activity_cnt sar0 + 1\<rparr>) w)"
    using assms(2) by (rule net_inv_upd_out) (use s in \<open>auto intro: net_inv_out_ok [OF assms(2)]\<close>)
  then show ?thesis using assms Some
    by (auto simp: sar_out_ack_timeout_def Let_def intro: resend_segs_keeps split: if_splits)
qed (use assms in \<open>simp add: sar_out_ack_timeout_def\<close>)

lemma net_ctl_msg_send_keeps:
  "net_ctl_msg_send E ttl src dst buf w = Ret (w', b) \<Longrightarrow> same_sar w w' \<and> (net_inv w \<longrightarrow> net_inv w')"
  by (auto simp: net_ctl_msg_send_def Let_def cbind_Ret_iff split: if_splits intro: same_sar_send_seg net_inv_send_seg)

lemma access_sar_fields:
  assumes "access_sar E ttl src dst aad k3 buf n = Ret sar"
  shows "sar_dst sar = dst" "segN sar = of_nat (SEG_MAX (length buf + 4))" "segmented sar \<longleftrightarrow> SEG_MAX (length buf + 4) \<noteq> 0"
    "seqAuth sar = seq_num n"
  using assms by (auto simp: access_sar_def Let_def split: prod.splits cres.splits)

lemma unicast_u16: "IS_UNICAST d \<Longrightarrow> (ucast (ucast d :: u16) :: u32) = d" for d :: u32
  by (simp add: IS_UNICAST_def word_unat_eq_iff unat_ucast_mod word_less_nat_alt)

lemma access_send_keeps:
  assumes "access_send E ttl src dst aad k3 buf w = Ret (w', b)" "net_inv w" "\<not> 384 < length buf"
  shows "net_inv w'"
proof -
  let ?acked = "SEG_MAX (length buf + 4) \<noteq> 0 \<and> IS_UNICAST dst"
  define w1 where "w1 = (if ?acked \<and> find_sar_out_by_dst w (ucast dst) \<noteq> None then flush_out dst w else w)"
  from assms(1) obtain sar w2 segs where
    sar: "access_sar E ttl src dst aad k3 buf (net w1) = Ret sar" and w2: "send_segs E sar segs w1 = Ret w2" and
    w': "w' = (if ?acked then upd_net (\<lambda>n. n\<lparr>msg_out := msg_out n @ [sar\<lparr>ack_to := True, msg_to := True\<rparr>]\<rparr>) w2 else w2)"
    unfolding access_send_def Let_def w1_def [symmetric] by (auto simp only: cbind_Ret_iff cres.inject prod.inject)
  have "net_inv w1" using assms(2) by (auto simp: w1_def intro: net_inv_flush_out)
  then have k: "same_sar w1 w2" "net_inv w2" using send_segs_keeps [OF w2] by auto
  show ?thesis
  proof (cases ?acked)
    case True
    have fresh: "sar_dst s \<noteq> dst" if "s \<in> set (msg_out (net w1))" for s
    proof (cases "find_sar_out_by_dst w (ucast dst)")
      case None
      then have "w1 = w" by (simp add: w1_def)
      with None that True show ?thesis by (auto simp: find_sar_out_by_dst_def find_None_iff unicast_u16)
    next
      case Some
      have "find (\<lambda>s. sar_dst s = dst) (delete_first (\<lambda>s. sar_dst s = dst) (msg_out (net w))) = None"
        using assms(2) by (intro find_delete_first_same) (simp add: net_inv_def sar_ok_alt)
      with that True Some show ?thesis by (auto simp: w1_def flush_out_def find_None_iff)
    qed
    have "\<forall>s\<in>set (msg_out (net w1)). sar_dst s \<noteq> dst" using fresh by blast
    moreover have "msg_out (net w2) = msg_out (net w1)" using k(1) by (simp add: same_sar_def)
    moreover have "SEG_MAX (length buf + 4) \<le> 32" using assms(3) by (auto simp: SEG_MAX_def)
    then have "out_ok (sar\<lparr>ack_to := True, msg_to := True\<rparr>)"
      using True access_sar_fields [OF sar] by (simp add: out_ok_def unat_of_nat)
    ultimately show ?thesis
      using k(2) True access_sar_fields(1) [OF sar] by (auto simp: w' net_inv_def sar_ok_alt)
  next
    case False
    with k(2) show ?thesis by (simp only: w' if_False)
  qed
qed

lemma net_access_layer_send_keeps:
  assumes "net_access_layer_send E ttl src0 dst0 app_idx buf w = Ret (w', b)" "net_inv w"
  shows "net_inv w'"
  using assms by (auto simp: net_access_layer_send_def Let_def intro: access_send_keeps split: if_splits option.splits)

section \<open>Receiving keeps the invariant\<close>

text \<open>What the network layer needs of the receive callbacks of the models.\<close>

definition recv_keeps :: "(model_cb \<Rightarrow> u16 \<Rightarrow> bytes \<Rightarrow> 'a world_scheme \<Rightarrow> ('a world_scheme \<times> bool) cres) \<Rightarrow> bool" where
  "recv_keeps recv \<longleftrightarrow> (\<forall>cb src data w w' b. recv cb src data w = Ret (w', b) \<longrightarrow> net_inv w \<longrightarrow> net_inv w')"

lemma deliver_loop_keeps:
  "deliver_loop recv ms src app_idx data w = Ret (w', b) \<Longrightarrow> recv_keeps recv \<Longrightarrow> net_inv w \<Longrightarrow> net_inv w'"
proof (induction ms arbitrary: w)
  case (Cons m ms)
  then show ?case
    by (auto simp: cbind_Ret_iff recv_keeps_def split: if_splits option.splits prod.splits) blast+
qed simp

lemma same_io_nodes: "net w = net w' \<Longrightarrow> written (log w) = written (log w') \<Longrightarrow> same_io w w'"
  by (simp add: same_io_def)

lemma net_inv_node_update:
  "net_inv w \<Longrightarrow> net_inv (emit (Db_node_iv_seq r iv seq) (upd_node r f w))"
  by (rule net_inv_same [OF same_io_nodes]) (simp_all add: upd_node_def)

lemma deliver_from_keeps:
  assumes "deliver_from recv r src dst iv seq app_idx data w = Ret w'" "recv_keeps recv" "net_inv w"
  shows "net_inv w'"
  using assms(1,3)
  by (auto simp: deliver_from_def Let_def cbind_Ret_iff deliver_model_data_def
      split: option.splits if_splits prod.splits
      intro: net_inv_node_update deliver_loop_keeps [OF _ assms(2)])

lemma node_local_data_handler_keeps:
  assumes "node_local_data_handler recv src dst iv seq app_idx data w = Ret w'" "recv_keeps recv" "net_inv w"
  shows "net_inv w'"
proof -
  have "net_inv (fst (remote_for_src src w))"
    using assms(3) by (auto simp: remote_for_src_def add_node_def split: option.splits intro: net_inv_same [OF same_io_nodes])
  with assms(1,3) show ?thesis
    by (auto simp: node_local_data_handler_def split: option.splits if_splits prod.splits
        intro: deliver_from_keeps [OF _ assms(2)])
qed

lemma hand_over_keeps:
  assumes "hand_over recv src dst iv seq app_idx buf n w = Ret w'" "recv_keeps recv" "net_inv w"
  shows "net_inv w'"
proof -
  have "recv_keeps (over_long recv k)" for k
    using assms(2) by (auto simp: recv_keeps_def over_long_def cguard_def split: if_splits)
  then show ?thesis
    using assms by (auto simp: hand_over_def split: if_splits intro: node_local_data_handler_keeps)
qed

lemma access_rxed_keeps:
  "access_rxed A recv nonce net_idx iv seq src dst aid z tpdu len w = Ret (w', b) \<Longrightarrow> recv_keeps recv \<Longrightarrow> net_inv w \<Longrightarrow> net_inv w'"
  by (auto simp: access_rxed_def cbind_Ret_iff split: if_splits prod.splits intro: hand_over_keeps)

lemma try_virt_decrypt_keeps:
  "try_virt_decrypt A recv nonce net_idx iv seq src dst aid z tpdu len vs w = Ret (w', b) \<Longrightarrow> recv_keeps recv \<Longrightarrow> net_inv w \<Longrightarrow> net_inv w'"
  by (induction vs) (auto simp: cbind_Ret_iff split: if_splits prod.splits intro: hand_over_keeps)

lemma dev_rxed_keeps:
  "dev_rxed A recv nonce iv seq src dst z payload w = Ret (w', b) \<Longrightarrow> recv_keeps recv \<Longrightarrow> net_inv w \<Longrightarrow> net_inv w'"
  by (auto simp: dev_rxed_def Let_def cbind_Ret_iff split: if_splits prod.splits option.splits intro: node_local_data_handler_keeps)

lemma msg_rxed_keeps:
  "msg_rxed A recv net_idx iv z seq sa src dst tpdu len w = Ret (w', b) \<Longrightarrow> recv_keeps recv \<Longrightarrow> net_inv w \<Longrightarrow> net_inv w'"
  by (auto simp: msg_rxed_def Let_def virtual_rxed_def split: if_splits
      intro: dev_rxed_keeps access_rxed_keeps try_virt_decrypt_keeps)

lemma send_sar_ack_keeps:
  assumes "send_sar_ack E sar w = Ret w'" "net_inv w"
  shows "net_inv w'"
proof -
  have "net_inv (upd_in (sar_src sar) (\<lambda>s. s\<lparr>activity_cnt := 0\<rparr>) w)"
    using assms(2) by (rule net_inv_upd_in) (auto intro: net_inv_in_ok [OF assms(2)])
  with assms(1) show ?thesis
    by (auto simp: send_sar_ack_def cbind_Ret_iff dest!: net_ctl_msg_send_keeps)
qed

lemma store_segment_ok:
  "store_segment tpdu len s = Ret s' \<Longrightarrow> sar_src s' = sar_src s \<and> segN s' = segN s \<and> (in_ok s \<longrightarrow> in_ok s')"
  by (auto simp: store_segment_def Let_def in_ok_def)

lemma find_in_mem: "find_sar_in_by_src w src = Some s \<Longrightarrow> s \<in> set (sar_in (net w)) \<and> sar_src s = src"
  by (auto simp: find_sar_in_by_src_def dest: find_SomeD)

lemma seg_ack_keeps:
  assumes "seg_ack E src tpdu sar0 c w = Ret w'" "net_inv w"
  shows "net_inv w'"
proof -
  from assms(1) obtain s3 where s3: "find_sar_in_by_src w src = Some s3"
    by (auto simp: seg_ack_def split: option.splits)
  define s4 where "s4 = s3\<lparr>activity_cnt := activity_cnt s3 + 1\<rparr>"
  have "net_inv (upd_in src (\<lambda>_. s4) w)"
    using assms(2) by (rule net_inv_upd_in) (use find_in_mem [OF s3] net_inv_in_ok [OF assms(2)] in \<open>auto simp: s4_def\<close>)
  with assms(1) s3 show ?thesis
    by (auto simp: seg_ack_def Let_def s4_def [symmetric] split: if_splits intro: send_sar_ack_keeps)
qed

lemma seg_continue_keeps:
  assumes c: "seg_continue E recv ctl seq src dst tpdu len sar0 w = Ret (w', b)" and r: "recv_keeps recv" and w: "net_inv w"
    and s0: "in_ok sar0" "sar_src sar0 = src"
  shows "net_inv w'"
proof -
  from c obtain sar where sar: "store_segment tpdu len sar0 = Ret sar"
    by (auto simp: seg_continue_def cbind_Ret_iff)
  have "net_inv (upd_in src (\<lambda>_. sar) w)"
    using w by (rule net_inv_upd_in) (use store_segment_ok [OF sar] s0 in auto)
  with c sar show ?thesis
    by (auto simp: seg_continue_def Let_def cbind_Ret_iff seg_forward_def split: if_splits prod.splits
        intro: seg_ack_keeps msg_rxed_keeps [OF _ r])
qed

lemma new_sar_ok: "in_ok (new_sar_in net_idx iv ctl ttl sa src dst tpdu)"
proof -
  have "unat (TRANS_SEGN tpdu) \<le> 31" unfolding TRANS_SEGN_def mask5 using unat_and_mask [of "byte_at tpdu 3" 5] by simp
  then show ?thesis by (simp add: in_ok_def new_sar_in_def Let_def blank_sar_def)
qed

lemma net_inv_add_in:
  assumes "net_inv w" "in_ok s" "find_sar_in_by_src w (sar_src s) = None"
  shows "net_inv (upd_net (\<lambda>n. n\<lparr>sar_in := sar_in n @ [s]\<rparr>) w)"
  using assms by (auto simp: net_inv_def sar_ok_alt find_sar_in_by_src_def find_None_iff)

lemma find_in_flush: "net_inv w \<Longrightarrow> find_sar_in_by_src (flush_in src w) src = None"
  by (simp add: find_sar_in_by_src_def flush_in_def net_inv_def sar_ok_alt find_delete_first_same)

lemma seg_rxed_keeps:
  assumes c: "seg_rxed E recv net_idx iv ctl ttl seq src dst tpdu len w = Ret (w', b)" and r: "recv_keeps recv" and w: "net_inv w"
  shows "net_inv w'"
proof -
  define fresh where "fresh = new_sar_in net_idx iv ctl ttl (calc_seqAuth seq tpdu) src dst tpdu"
  have f: "in_ok fresh" "sar_src fresh = src" by (simp_all add: fresh_def new_sar_ok) (simp add: new_sar_in_def Let_def)
  let ?add = "\<lambda>w. upd_net (\<lambda>n. n\<lparr>sar_in := sar_in n @ [fresh]\<rparr>) w"
  show ?thesis
  proof (cases "sar_for_segment (find_sar_in_by_src w src) iv (calc_seqAuth seq tpdu) (TRANS_SEGN tpdu)")
    case (Reuse sar)
    then have "find_sar_in_by_src w src = Some sar" by (auto simp: sar_for_segment_def split: option.splits if_splits)
    then have "in_ok sar" "sar_src sar = src" using find_in_mem net_inv_in_ok [OF w] by blast+
    moreover have "seg_continue E recv ctl seq src dst tpdu len sar w = Ret (w', b)"
      using Reuse c by (simp add: seg_rxed_def Let_def)
    ultimately show ?thesis by (intro seg_continue_keeps [OF _ r w])
  next
    case Replace
    have "net_inv (?add (flush_in src w))"
      using find_in_flush [OF w] f by (intro net_inv_add_in net_inv_flush_in w) auto
    with Replace c f show ?thesis
      by (auto simp: seg_rxed_def Let_def fresh_def [symmetric] intro: seg_continue_keeps [OF _ r])
  next
    case Fresh
    then have "find_sar_in_by_src w src = None" by (auto simp: sar_for_segment_def split: option.splits if_splits)
    then have "net_inv (?add w)" using f w by (intro net_inv_add_in) auto
    with Fresh c f show ?thesis
      by (auto simp: seg_rxed_def Let_def fresh_def [symmetric] intro: seg_continue_keeps [OF _ r])
  qed (use c w in \<open>simp add: seg_rxed_def Let_def\<close>)
qed

lemma net_inv_upd_other:
  assumes "net_inv w" "\<And>n. sar_in (f n) = sar_in n \<and> msg_out (f n) = msg_out n \<and> pkt_out (f n) = pkt_out n"
  shows "net_inv (upd_net f w)"
  using assms by (simp add: net_inv_def)

lemma net_inv_emit: "net_inv w \<Longrightarrow> written [e] = [] \<Longrightarrow> net_inv (emit e w)"
  by (rule net_inv_same [of w]) (simp_all add: same_io_def)

lemma whitefilter_all_keeps:
  "whitefilter_all E ds (white, w) = Ret (white', w') \<Longrightarrow> net_inv w \<Longrightarrow> net_inv w'"
proof (induction ds arbitrary: white w)
  case (Cons d ds)
  then obtain white1 w1 where 1: "whitefilter_add E (snd d) (white, w) = Ret (white1, w1)"
      "whitefilter_all E ds (white1, w1) = Ret (white', w')"
    by (auto simp: cbind_Ret_iff)
  have "net_inv w1"
    using 1(1) Cons.prems(2) by (auto simp: whitefilter_add_def Let_def cbind_Ret_iff split: if_splits dest!: net_ctl_msg_send_keeps)
  with 1(2) Cons.IH show ?case by blast
qed simp

lemma setup_whitelist_keeps:
  assumes "setup_whitelist E w = Ret w'" "net_inv w"
  shows "net_inv w'"
proof -
  from assms(1) obtain w1 b where 1: "net_ctl_msg_send E 0 0 0 [FILTER_SETUP, WHITELIST_FILTER] w = Ret (w1, b)"
    and 2: "cbind (whitefilter_all E (dest (net w1)) ([], w1)) (\<lambda>(white, w2).
       if white = [] then Ret w2 else cbind (net_ctl_msg_send E 0 0 0 white w2) (\<lambda>(w3, _). Ret w3)) = Ret w'"
    unfolding setup_whitelist_def by (auto simp: cbind_Ret_iff)
  from 2 obtain white w2 where 3: "whitefilter_all E (dest (net w1)) ([], w1) = Ret (white, w2)"
    and 4: "(if white = [] then Ret w2 else cbind (net_ctl_msg_send E 0 0 0 white w2) (\<lambda>(w3, _). Ret w3)) = Ret w'"
    by (auto simp: cbind_Ret_iff)
  have "net_inv w1" using net_ctl_msg_send_keeps [OF 1] assms(2) by blast
  then have "net_inv w2" by (rule whitefilter_all_keeps [OF 3])
  with 4 show ?thesis by (auto simp: cbind_Ret_iff split: if_splits dest!: net_ctl_msg_send_keeps)
qed

lemma beacon_update_keeps:
  assumes "beacon_update E first upd iv w = Ret w'" "net_inv w"
  shows "net_inv w'"
proof -
  have st: "net_inv (upd_net (\<lambda>n. beacon_restart_seq upd iv (beacon_state first upd n)) w)"
    using assms(2) by (rule net_inv_upd_other) (simp add: beacon_restart_seq_def beacon_state_def)
  have sv: "net_inv (beacon_save upd iv w)" if "net_inv w" for w :: "'a world_scheme"
    using that by (auto simp: beacon_save_def Let_def intro!: net_inv_emit net_inv_upd_other)
  have "net_inv (upd_net (\<lambda>n. n\<lparr>iv_index := iv, iv_update := upd\<rparr>)
      (beacon_save upd iv (upd_net (\<lambda>n. beacon_restart_seq upd iv (beacon_state first upd n)) w)))"
    using sv [OF st] by (rule net_inv_upd_other) simp
  with assms show ?thesis
    by (auto simp: beacon_update_def Let_def cbind_Ret_iff split: if_splits intro!: net_inv_emit intro: setup_whitelist_keeps)
qed

lemma process_beacon_keeps:
  assumes "process_beacon E data n w = Ret (w', b)" "net_inv w"
  shows "net_inv w'"
  using assms
  by (auto simp: process_beacon_def Let_def cbind_Ret_iff split: if_splits option.splits cres.splits intro: beacon_update_keeps)

lemma proxy_ctl_keeps: "proxy_ctl_rxed tpdu len w = (w', b) \<Longrightarrow> net_inv w \<Longrightarrow> net_inv w'"
  by (auto simp: proxy_ctl_rxed_def split: if_splits intro: net_inv_upd_other)

lemma net_dispatch_keeps:
  assumes "net_dispatch E recv px net_idx iv p len w = Ret (w', b)" "recv_keeps recv" "net_inv w"
  shows "net_inv w'"
  using assms
  by (auto simp: net_dispatch_def Let_def split: if_splits
      intro: ack_rxed_keeps seg_rxed_keeps msg_rxed_keeps proxy_ctl_keeps)

lemma net_data_ready_keeps:
  assumes "net_data_ready E recv msg len w = Ret (w', b)" "recv_keeps recv" "net_inv w"
  shows "net_inv w'"
  using assms
  by (auto simp: net_data_ready_def Let_def split: if_splits option.splits cres.splits prod.splits
      intro: process_beacon_keeps net_dispatch_keeps)

section \<open>The network layer as a step system\<close>

text \<open>What the main loop, the timers, the GATT layer and the models call.\<close>

inductive net_step ::
  "tx_env \<Rightarrow> (model_cb \<Rightarrow> u16 \<Rightarrow> bytes \<Rightarrow> 'a world_scheme \<Rightarrow> ('a world_scheme \<times> bool) cres) \<Rightarrow>
   'a world_scheme \<Rightarrow> 'a world_scheme \<Rightarrow> bool"
  for E recv where
  net_rx: "net_data_ready E recv msg len w = Ret (w', b) \<Longrightarrow> net_step E recv w w'"
| net_tx_done: "pkt_out (net w) \<noteq> [] \<Longrightarrow> send_pkt_cmplt E w = Ret w' \<Longrightarrow> net_step E recv w w'"
| net_access: "net_access_layer_send E ttl src dst app_idx buf w = Ret (w', b) \<Longrightarrow> net_step E recv w w'"
| net_ctl: "net_ctl_msg_send E ttl src cdst buf w = Ret (w', b) \<Longrightarrow> net_step E recv w w'"
| net_ack_out: "sar_out_ack_timeout E dst w = Ret w' \<Longrightarrow> net_step E recv w w'"
| net_msg_out: "net_step E recv w (sar_out_msg_timeout dst w)"
| net_ack_in: "sar_in_ack_timeout E src w = Ret w' \<Longrightarrow> net_step E recv w w'"
| net_msg_in: "net_step E recv w (sar_in_msg_timeout src w)"
| net_ref: "net_step E recv w (net_dest_ref cdst w)"
| net_unref: "net_step E recv w (net_dest_unref cdst w)"
| net_open: "net_session_open px prov cb w = Ret (w', b) \<Longrightarrow> net_step E recv w w'"
| net_close: "net_session_close opx w = Ret w' \<Longrightarrow> net_step E recv w w'"
| net_iv: "net_step E recv w (net_set_iv_index iv upd w)"
| net_seq: "net_step E recv w (set_sequence_number seq w)"

inductive_cases net_stepE: "net_step E recv w w'"

lemma sar_in_ack_timeout_keeps:
  "sar_in_ack_timeout E src w = Ret w' \<Longrightarrow> net_inv w \<Longrightarrow> net_inv w'"
  by (auto simp: sar_in_ack_timeout_def split: option.splits if_splits intro: send_sar_ack_keeps)

lemma session_keeps:
  "net_session_open px prov cb w = Ret (w', b) \<Longrightarrow> net_inv w \<Longrightarrow> net_inv w'"
  "net_session_close opx w = Ret w' \<Longrightarrow> net_inv w \<Longrightarrow> net_inv w'"
  by (auto simp: net_session_open_def net_session_close_def cbind_Ret_iff flush_pkt_list_def net_inv_def
      queue_ok_def sar_ok_alt split: if_splits)

lemma dest_keeps: "net_inv w \<Longrightarrow> net_inv (net_dest_ref d w)" "net_inv w \<Longrightarrow> net_inv (net_dest_unref d w)"
  by (auto simp: net_dest_ref_def net_dest_unref_def split: option.splits intro!: net_inv_upd_other)

lemma net_step_keeps:
  assumes "net_step E recv w w'" "recv_keeps recv" "net_inv w"
  shows "net_inv w'"
  using assms(1)
proof cases
  case net_rx then show ?thesis using net_data_ready_keeps assms(2,3) by blast
next
  case net_tx_done then show ?thesis using send_pkt_cmplt_keeps assms(3) by blast
next
  case net_access then show ?thesis using net_access_layer_send_keeps assms(3) by blast
next
  case net_ctl then show ?thesis using net_ctl_msg_send_keeps assms(3) by blast
next
  case net_ack_out then show ?thesis using sar_out_ack_timeout_keeps assms(3) by blast
next
  case net_msg_out then show ?thesis using net_inv_flush_out assms(3) by (simp add: sar_out_msg_timeout_def)
next
  case net_ack_in then show ?thesis using sar_in_ack_timeout_keeps assms(3) by blast
next
  case net_msg_in then show ?thesis using net_inv_flush_in assms(3) by (simp add: sar_in_msg_timeout_def)
next
  case net_open then show ?thesis using session_keeps(1) assms(3) by blast
next
  case net_close then show ?thesis using session_keeps(2) assms(3) by blast
qed (use assms(3) in \<open>auto simp: net_set_iv_index_def set_sequence_number_def intro: dest_keeps net_inv_upd_other\<close>)

lemma blank_net_inv: "net_inv blank_world"
  by (simp add: net_inv_def blank_world_def blank_net_def sar_in_ok_def sar_out_ok_def queue_ok_def)

section \<open>Properties\<close>

text \<open>The receive callbacks as the network layer sees them.\<close>

locale message_receiver =
  fixes recv :: "model_cb \<Rightarrow> u16 \<Rightarrow> bytes \<Rightarrow> 'a world_scheme \<Rightarrow> ('a world_scheme \<times> bool) cres"
  assumes keeps: "recv_keeps recv"
begin

lemma network_step: "net_step E recv w w' \<Longrightarrow> net_inv w \<Longrightarrow> net_inv w'"
  by (rule net_step_keeps [OF _ keeps])

lemma local_delivery:
  "node_local_data_handler recv src dst iv seq app_idx data w = Ret w' \<Longrightarrow> net_inv w \<Longrightarrow> net_inv w'"
  by (rule node_local_data_handler_keeps [OF _ keeps])

end

lemma reach_net_inv:
  assumes "reach (\<lambda>w. net w = blank_net \<and> log w = []) (net_step E recv) w" "recv_keeps recv"
  shows "net_inv w"
  using assms(1)
proof induction
  case (reach_init w)
  then show ?case by (simp add: net_inv_def blank_net_def sar_in_ok_def sar_out_ok_def queue_ok_def)
next
  case (reach_step v w)
  then show ?case using net_step_keeps assms(2) by blast
qed

text \<open>
  The network layer's invariant. Whatever sequence of packets, completions,
  sends, timeouts and sessions follows the start, with callbacks that keep the
  invariant themselves: one message in progress per source, in a buffer with
  room for exactly its segments; one acknowledged message per destination; and
  the head of the packet queue is the packet last written to GATT.
\<close>

lemma network_invariant:
  assumes "reach (\<lambda>w. net w = blank_net \<and> log w = []) (net_step E recv) w" "recv_keeps recv"
  shows "distinct (map sar_src (sar_in (net w))) \<and>
    (\<forall>s\<in>set (sar_in (net w)). unat (segN s) \<le> 31 \<and> length (sar_data s) = 20 + 12 * unat (segN s)) \<and>
    distinct (map sar_dst (msg_out (net w))) \<and>
    (\<forall>s\<in>set (msg_out (net w)). segmented s \<and> IS_UNICAST (sar_dst s)) \<and>
    (pkt_out (net w) \<noteq> [] \<longrightarrow> last (written (log w)) = hd (pkt_out (net w)))"
  using reach_net_inv [OF assms] by (simp add: net_inv_def sar_in_ok_def sar_out_ok_def queue_ok_def)

definition ignore_recv :: "model_cb \<Rightarrow> u16 \<Rightarrow> bytes \<Rightarrow> world \<Rightarrow> (world \<times> bool) cres" where
  "ignore_recv cb src data w = Ret (w, False)"

definition demo_env :: tx_env where
  "demo_env = \<lparr>tx_alg = demo_alg, tx_left = id\<rparr>"

lemma network_invariant_witness:
  "distinct (map sar_src (sar_in (net (net_dest_ref 5 blank_world))))"
proof -
  have "reach (\<lambda>w. net w = blank_net \<and> log w = []) (net_step demo_env ignore_recv) blank_world"
    by (rule reach_init) (simp add: blank_world_def)
  then have "reach (\<lambda>w. net w = blank_net \<and> log w = []) (net_step demo_env ignore_recv) (net_dest_ref 5 blank_world)"
    by (rule reach_step) (rule net_ref)
  moreover have "recv_keeps ignore_recv" by (simp add: recv_keeps_def ignore_recv_def)
  ultimately show ?thesis using network_invariant [of demo_env ignore_recv "net_dest_ref 5 blank_world"] by blast
qed

lemma beacon_range:
  fixes cur iv :: u32
  assumes "\<not> cur + IV_IDX_DIFF_RANGE < iv" "\<not> iv < cur"
  shows "unat cur \<le> unat iv \<and> unat iv \<le> unat cur + 42"
proof -
  have "unat (cur + 42) \<le> unat cur + 42" by (simp add: unat_word_ariths)
  then show ?thesis using assms by (simp add: IV_IDX_DIFF_RANGE_def word_less_nat_alt word_le_nat_alt not_less)
qed

text \<open>
  C9. Beacons are authenticated. A beacon that changes anything has 22 octets,
  names the network of a stored key, carries the CMAC of its flags and IV index
  under that key's beacon key, and moves the IV index forward by at most 42.
\<close>

theorem beacon_authenticated:
  assumes "process_beacon E data n w = Ret (w', b)" "w' \<noteq> w"
  shows "n = 22 \<and> b \<and> (\<exists>nk\<in>set (net_keys (keys w)). \<exists>part\<in>{nk_current nk, nk_new nk}.
      net_id part = sub_bytes data 2 8 \<and>
      mesh_crypto_beacon_cmac (tx_alg E) (beacon_key part) (net_id part) (get_be32 data 10) (phase nk = 2)
        (byte_at data 1 AND 2 = 2) = Ret (get_be64 data 14)) \<and>
    unat (iv_index (net w)) \<le> unat (get_be32 data 10) \<and> unat (get_be32 data 10) \<le> unat (iv_index (net w)) + 42"
proof -
  let ?iv = "get_be32 data 10"
  from assms obtain nk where nk: "find_net_key_by_id (keys w) (sub_bytes data 2 8) = Some nk"
    by (auto simp: process_beacon_def Let_def split: if_splits option.splits)
  let ?part = "if phase nk \<noteq> 2 then nk_current nk else nk_new nk"
  have mem: "nk \<in> set (net_keys (keys w))" using nk by (auto simp: find_net_key_by_id_def dest: find_SomeD)
  from assms nk have f: "n = 22" "b" "net_id ?part = sub_bytes data 2 8"
      "\<not> iv_index (net w) + IV_IDX_DIFF_RANGE < ?iv" "\<not> ?iv < iv_index (net w)"
      "mesh_crypto_beacon_cmac (tx_alg E) (beacon_key ?part) (net_id ?part) ?iv (phase nk = 2)
        (byte_at data 1 AND 2 = 2) = Ret (get_be64 data 14)"
    by (auto simp: process_beacon_def Let_def cbind_Ret_iff split: if_splits cres.splits)
  have "?part \<in> {nk_current nk, nk_new nk}" by simp
  with f mem beacon_range [OF f(4,5)] show ?thesis by blast
qed

text \<open>A network key of identifier 5 5 5 5 5 5 5 5 and a beacon for IV index 1 with its CMAC.\<close>

definition demo_cmac_env :: tx_env where
  "demo_cmac_env = demo_env\<lparr>tx_alg := demo_alg\<lparr>cmac_op := (\<lambda>k m. Some (replicate 16 9))\<rparr>\<rparr>"

definition demo_beacon :: bytes where
  "demo_beacon = [1, 0] @ replicate 8 5 @ [0, 0, 0, 1] @ replicate 8 9"

definition demo_beacon_world :: world where
  "demo_beacon_world = blank_world\<lparr>keys := \<lparr>net_keys = [demo_net_key\<lparr>phase := 0, nk_current := demo_part\<rparr>], app_keys = []\<rparr>,
     net := blank_net\<lparr>iv_upd_state := IV_UPD_NORMAL\<rparr>\<rparr>"

lemma demo_beacon_fields:
  "get_be32 demo_beacon 10 = 1" "get_be64 demo_beacon 14 = get_be64 (replicate 16 9) 0" "sub_bytes demo_beacon 2 8 = replicate 8 5"
  "byte_at demo_beacon (Suc 0) = 0"
  by (simp_all add: demo_beacon_def get_be64_def get_be32_def get_be16_def be16_def byte_at_def sub_bytes_def
      numeral_eq_Suc upt_rec)

theorem beacon_authenticated_witness:
  "\<exists>w'. process_beacon demo_cmac_env demo_beacon 22 demo_beacon_world = Ret (w', True) \<and> iv_index (net w') = 1 \<and>
    mesh_crypto_beacon_cmac (tx_alg demo_cmac_env) (replicate 16 4) (replicate 8 5) 1 False False = Ret (get_be64 demo_beacon 14)"
proof -
  have cm: "mesh_crypto_beacon_cmac (tx_alg demo_cmac_env) k i iv kr iu = Ret (get_be64 (replicate 16 9) 0)" for k i iv kr iu
    by (simp add: mesh_crypto_beacon_cmac_def Let_def aes_cmac_one_def aes_cmac_setup_def aes_cmac_def alg_new_def
        CMAC_MSG_MAX_def demo_cmac_env_def demo_env_def demo_alg_def)
  obtain w' where w': "process_beacon demo_cmac_env demo_beacon 22 demo_beacon_world = Ret (w', True)" "iv_index (net w') = 1"
    using cm
    by (simp add: process_beacon_def Let_def demo_beacon_fields demo_beacon_world_def blank_world_def blank_net_def
        IV_UPD_NORMAL_def IV_UPD_INIT_def IV_UPD_UPDATING_def IV_IDX_DIFF_RANGE_def find_net_key_by_id_def match_net_id_def
        demo_net_key_def demo_part_def beacon_update_def beacon_rejected_def)
  moreover have "w' \<noteq> demo_beacon_world"
    using w'(2) by (auto simp: demo_beacon_world_def blank_world_def blank_net_def)
  ultimately show ?thesis
    using beacon_authenticated [OF w'(1)] demo_beacon_fields cm by auto
qed

lemma net_packet_decode_Ret:
  assumes "net_packet_decode A px iv packet nks = Ret (nk, out)"
  shows "nk \<in> set nks \<and> (\<exists>part\<in>{nk_current nk, nk_new nk}. nid part = byte_at packet 0 AND 0x7f \<and> length packet \<le> 29 \<and>
    mesh_crypto_packet_decode A packet px iv (enc_key part) (privacy_key part) = Ret out)"
  using assms
proof (induction nks)
  case (Cons k nks)
  then show ?case
    by (auto simp: try_decode_def try_part_def split: cres.splits if_splits)
qed simp

lemma packet_iv_index_range: "packet_iv_index cur msg = Some iv \<Longrightarrow> iv = cur \<or> iv + 1 = cur"
  by (auto simp: packet_iv_index_def split: if_splits)

text \<open>
  C1. Network packets are authenticated. A packet that changes anything in the
  program is one that a stored key, current or new, decodes under the local IV
  index or the one before it, with a unicast source; an access packet is
  exactly the encoding, under that key, of what it decodes to.
\<close>

theorem packet_authenticated:
  assumes "alg_wf (tx_alg E)" "net_data_ready E recv msg len w = Ret (w', b)" "w' \<noteq> w" "byte_at msg 0 \<noteq> PROXY_MESH_BEACON"
  defines "packet \<equiv> take (unat (len - 1)) (drop 1 msg)"
  shows "\<exists>nk\<in>set (net_keys (keys w)). \<exists>part\<in>{nk_current nk, nk_new nk}. \<exists>iv out.
    (iv = iv_index (net w) \<or> iv + 1 = iv_index (net w)) \<and> nid part = PKT_NID packet \<and>
    mesh_crypto_packet_decode (tx_alg E) packet (byte_at msg 0 = PROXY_CONFIG_PDU) iv (enc_key part) (privacy_key part) = Ret out \<and>
    IS_UNICAST (PKT_SRC out) \<and>
    (\<not> PKT_CTL out \<longrightarrow> mesh_crypto_packet_encode (tx_alg E) out (enc_key part) iv (privacy_key part) = Ret packet)"
proof -
  from assms(2-4) obtain iv nk out where
    iv: "packet_iv_index (iv_index (net w)) (drop 1 msg) = Some iv" and
    d: "net_packet_decode (tx_alg E) (byte_at msg 0 = PROXY_CONFIG_PDU) iv packet (net_keys (keys w)) = Ret (nk, out)"
    by (auto simp: net_data_ready_def Let_def packet_def split: if_splits option.splits cres.splits prod.splits)
  from net_packet_decode_Ret [OF d] obtain part where
    p: "nk \<in> set (net_keys (keys w))" "part \<in> {nk_current nk, nk_new nk}" "nid part = PKT_NID packet" "length packet \<le> 29"
      "mesh_crypto_packet_decode (tx_alg E) packet (byte_at msg 0 = PROXY_CONFIG_PDU) iv (enc_key part) (privacy_key part) = Ret out"
    by (auto simp: PKT_NID_def get_low7_def)
  have f: "14 \<le> length packet" "IS_UNICAST (PKT_SRC out)"
    using packet_decode_checks [OF p(5)] by (simp_all add: PKT_SRC_def)
  have "mesh_crypto_packet_encode (tx_alg E) out (enc_key part) iv (privacy_key part) = Ret packet" if "\<not> PKT_CTL out"
  proof -
    have "byte_at out 1 AND 0x80 = 0" using that by (simp add: PKT_CTL_def get_flag_def)
    with f(1) p(4) show ?thesis
      using packet_encode_decode_core [OF assms(1) p(5)] by (simp add: pkt_mic_size_def)
  qed
  with p f packet_iv_index_range [OF iv] show ?thesis by blast
qed

lemma packet_encode_first:
  assumes "mesh_crypto_packet_encode A p nk iv pk = Ret q"
  shows "byte_at q 0 = byte_at p 0 \<and> 14 \<le> length p"
proof -
  from assms obtain out tmp where o: "14 \<le> length p" "q = xor_header tmp (memcpy p 7 out)"
    by (rule packet_encode_Ret)
  then have "length (memcpy p 7 out) = length p" by simp
  then have "byte_at q 0 = byte_at (memcpy p 7 out) 0" using o byte_at_xor_header [of 0 "memcpy p 7 out" tmp] by (cases "p = []") auto
  with o show ?thesis by (simp add: byte_at_memcpy)
qed

text \<open>The first of two segments, to a group, and a network that has its key.\<close>

definition demo_segment :: bytes where
  "demo_segment = [0x92, 0x05, 0, 0, 7, 0x12, 0x34, 0xc0, 0x01, 0xc0, 0, 0, 1, 0xaa, 0, 0, 0, 0]"

definition demo_rx_key :: mesh_net_key where
  "demo_rx_key = demo_net_key\<lparr>nk_current :=
     \<lparr>nid = 0x12, enc_key = [1], privacy_key = [2], net_key = [], beacon_key = [], net_id = []\<rparr>\<rparr>"

definition demo_rx_world :: world where
  "demo_rx_world = blank_world\<lparr>net := blank_net\<lparr>iv_index := 5\<rparr>, keys := \<lparr>net_keys = [demo_rx_key], app_keys = []\<rparr>\<rparr>"

lemma demo_segment_decodes:
  assumes "mesh_crypto_packet_encode demo_alg demo_segment [1] 5 [2] = Ret q"
  shows "mesh_crypto_packet_decode demo_alg q False 5 [1] [2] = Ret demo_segment \<and> length q = 18 \<and> byte_at q 0 = 0x92"
proof -
  have "pkt_mic_size demo_segment = 4" "length demo_segment = 18" "get_be16 demo_segment 5 \<noteq> 0"
      "get_be16 demo_segment 5 < 0x8000" "byte_at demo_segment 1 AND 0x80 = 0"
      "take 14 demo_segment @ replicate 4 0 = demo_segment" "byte_at demo_segment 0 = 0x92"
    by code_simp+
  then show ?thesis
    using packet_decode_encode_core [OF demo_alg_wf assms, of False] packet_encode_first [OF assms] by simp
qed

lemma demo_seg_fields:
  fixes t :: bytes
  assumes "t = drop 9 demo_segment @ replicate 12 0"
  shows "TRANS_SEGN t = 1" "TRANS_SEGO t = 0" "length t = 21"
  unfolding assms by code_simp+

lemma demo_segment_stored:
  assumes "sar_in (net w) = []"
  shows "\<exists>w'. net_dispatch E recv False 7 5 (demo_segment @ replicate 12 0) 18 w = Ret (w', False) \<and>
     sar_in (net w') \<noteq> [] \<and> msg_out (net w') = msg_out (net w) \<and> pkt_out (net w') = pkt_out (net w)"
proof -
  define t where "t = drop 9 demo_segment @ replicate 12 0"
  have p: "PKT_CTL (demo_segment @ replicate 12 0) = False" "PKT_SEGMENTED (demo_segment @ replicate 12 0)"
      "PKT_DST (demo_segment @ replicate 12 0) = 0xc001" "drop 9 (demo_segment @ replicate 12 0) = t"
    unfolding t_def by code_simp+
  have f: "full_ack 1 = 3" by code_simp
  show ?thesis
    using p demo_seg_fields [OF t_def] f assms
    by (simp add: net_dispatch_def Let_def seg_rxed_def sar_for_segment_def find_sar_in_by_src_def
        seg_continue_def store_segment_def new_sar_in_def blank_sar_def seg_complete_def
        IS_UNICAST_def upd_in_def upd_net_def)
qed

lemma demo_packet_received:
  assumes "tx_alg E = demo_alg" "iv_index (net w) = 5" "net_keys (keys w) = [demo_rx_key]" "sar_in (net w) = []"
    and q: "mesh_crypto_packet_encode demo_alg demo_segment [1] 5 [2] = Ret q"
  shows "\<exists>w'. net_data_ready E recv (0 # q @ replicate 12 0) 19 w = Ret (w', False) \<and>
    sar_in (net w') \<noteq> [] \<and> msg_out (net w') = msg_out (net w) \<and> pkt_out (net w') = pkt_out (net w)"
proof -
  note d = demo_segment_decodes [OF q]
  let ?msg = "0 # q @ replicate 12 0"
  obtain w' where w': "net_dispatch E recv False 7 5 (demo_segment @ replicate 12 0) 18 w = Ret (w', False)"
      "sar_in (net w') \<noteq> []" "msg_out (net w') = msg_out (net w)" "pkt_out (net w') = pkt_out (net w)"
    using demo_segment_stored [OF assms(4)] by blast
  have m: "memcpy (q @ replicate 12 0) 0 demo_segment = demo_segment @ replicate 12 0"
    using d by (simp add: memcpy_def demo_segment_def)
  have b: "byte_at (q @ replicate 12 0) 0 = 0x92" using d by (simp add: byte_at_append_left)
  have nd: "net_packet_decode demo_alg False 5 q (net_keys (keys w)) = Ret (demo_rx_key, demo_segment)"
    using d assms(3) by (simp add: try_decode_def try_part_def demo_rx_key_def)
  have iv: "packet_iv_index (iv_index (net w)) (q @ replicate 12 0) = Some 5"
    using b assms(2) by (simp add: packet_iv_index_def get_flag_def)
  have idx: "nk_idx demo_rx_key = 7" by (simp add: demo_rx_key_def demo_net_key_def)
  have t: "byte_at ?msg 0 = PROXY_NETWORK_PDU" "drop 1 ?msg = q @ replicate 12 0" "take (unat (19 - 1 :: u8)) (q @ replicate 12 0) = q"
    using d by (simp_all add: byte_at_def PROXY_NETWORK_PDU_def)
  have "net_data_ready E recv ?msg 19 w = Ret (w', False)"
    unfolding net_data_ready_def Let_def t iv assms(1)
    using nd w'(1) by (simp add: m idx PROXY_NETWORK_PDU_def PROXY_MESH_BEACON_def PROXY_CONFIG_PDU_def)
  with w' show ?thesis by blast
qed

lemma demo_segment_encodes: "\<exists>q. mesh_crypto_packet_encode demo_alg demo_segment [1] 5 [2] = Ret q"
  by (rule packet_encode_total [OF demo_alg_ecb]) (auto simp: demo_segment_def pkt_mic_size_def byte_at_def)

theorem packet_authenticated_witness:
  "\<exists>q w'. net_data_ready demo_env ignore_recv (0 # q @ replicate 12 0) 19 demo_rx_world = Ret (w', False) \<and> w' \<noteq> demo_rx_world \<and>
    (\<exists>nk\<in>set (net_keys (keys demo_rx_world)). \<exists>part\<in>{nk_current nk, nk_new nk}. nid part = PKT_NID q)"
proof -
  obtain q where q: "mesh_crypto_packet_encode demo_alg demo_segment [1] 5 [2] = Ret q"
    using demo_segment_encodes by blast
  note d = demo_segment_decodes [OF q]
  let ?msg = "0 # q @ replicate 12 0"
  obtain w' where k: "net_data_ready demo_env ignore_recv ?msg 19 demo_rx_world = Ret (w', False)" and w': "sar_in (net w') \<noteq> []"
    using demo_packet_received [OF _ _ _ _ q, of demo_env demo_rx_world ignore_recv]
    by (auto simp: demo_env_def demo_rx_world_def blank_net_def blank_world_def)
  have t: "byte_at ?msg 0 = PROXY_NETWORK_PDU" "drop 1 ?msg = q @ replicate 12 0" "take (unat (19 - 1 :: u8)) (q @ replicate 12 0) = q"
    using d by (simp_all add: byte_at_def PROXY_NETWORK_PDU_def)
  have "w' \<noteq> demo_rx_world" using w' by (auto simp: demo_rx_world_def blank_net_def blank_world_def)
  moreover from packet_authenticated [OF _ k this]
  have "\<exists>nk\<in>set (net_keys (keys demo_rx_world)). \<exists>part\<in>{nk_current nk, nk_new nk}. nid part = PKT_NID q"
    using demo_alg_wf unfolding t by (auto simp: demo_env_def PROXY_NETWORK_PDU_def PROXY_MESH_BEACON_def)
  ultimately show ?thesis using k by blast
qed

end
