(* ===== verification/Mesh_NetSend.thy ===== *)
theory Mesh_NetSend
  imports Mesh_NetSafety
begin

text \<open>
  What the network layer sends, and how acknowledgements end a message: the
  packets of a message and their sequence numbers, the selective repeat of
  segments, the limits of the lengths the code handles.
\<close>

section \<open>Sending segments\<close>

text \<open>The packet of one segment, with its proxy PDU type, when the encoder succeeds.\<close>

definition seg_packet :: "tx_env \<Rightarrow> net_key_parts \<Rightarrow> mesh_sar_msg \<Rightarrow> u8 \<Rightarrow> u32 \<Rightarrow> bytes \<Rightarrow> bool" where
  "seg_packet E part sar i seq pkt \<longleftrightarrow>
     (let (d, l) = seg_build part sar i seq; len = l + (if sar_ctl sar then 8 else 4)
      in \<exists>out. mesh_crypto_packet_encode (tx_alg E) (take (unat len) d) (enc_key part) (sar_iv_index sar) (privacy_key part) = Ret out \<and>
        pkt = (if sar_proxy sar then PROXY_CONFIG_PDU else PROXY_NETWORK_PDU) # out)"

lemma send_mesh_pkt_out [simp]:
  "pkt_out (net (send_mesh_pkt p w)) = pkt_out (net w) @ [p]"
  "seq_num (net (send_mesh_pkt p w)) = seq_num (net w)"
  "seq_num_reserved (net (send_mesh_pkt p w)) = seq_num_reserved (net w)"
  "seq_saved (log (send_mesh_pkt p w)) = seq_saved (log w)"
  "keys (send_mesh_pkt p w) = keys w"
  by (simp_all add: send_mesh_pkt_def Let_def seq_saved_append)

lemma get_next_seq_keeps [simp]:
  "pkt_out (net (fst (get_next_seq w))) = pkt_out (net w)" "keys (fst (get_next_seq w)) = keys w"
  by (simp_all add: get_next_seq_def Let_def)

lemma seq_reserved_send [simp]: "seq_reserved (send_mesh_pkt p w) = seq_reserved w"
  by (simp add: seq_reserved_def)

definition seg_encodes :: "tx_env \<Rightarrow> net_key_parts \<Rightarrow> mesh_sar_msg \<Rightarrow> bool" where
  "seg_encodes E part sar \<longleftrightarrow> (\<forall>i seq. \<exists>pkt. seg_packet E part sar i seq pkt)"

lemma send_seg_one:
  assumes "find_net_key_by_idx (keys w) (sar_net_idx sar) = Some nk" "seg_encodes E (sar_part nk) sar"
    and "send_seg E sar i w = Ret w'" "unat (seq_num (net w)) < 2 ^ 32 - 200" "seq_reserved w"
  shows "\<exists>pkt. seg_packet E (sar_part nk) sar i (seq_num (net w)) pkt \<and> pkt_out (net w') = pkt_out (net w) @ [pkt] \<and>
    keys w' = keys w \<and> seq_num (net w') = seq_num (net w) + 1 \<and> seq_reserved w'"
proof -
  obtain w1 n where g: "get_next_seq w = (w1, n)" by (cases "get_next_seq w")
  note r = get_next_seq_reserved [OF assms(4) g disjI1 [OF assms(5)]]
  obtain pkt where p: "seg_packet E (sar_part nk) sar i (seq_num (net w)) pkt" using assms(2) by (auto simp: seg_encodes_def)
  then have "w' = send_mesh_pkt pkt w1"
    using assms(1,3) g r by (auto simp: send_seg_def Let_def seg_packet_def split: prod.splits cres.splits)
  moreover have "pkt_out (net w1) = pkt_out (net w)" "keys w1 = keys w" using get_next_seq_keeps [of w] g by simp_all
  ultimately show ?thesis using p r by auto
qed

lemma send_segs_all:
  assumes "find_net_key_by_idx (keys w) (sar_net_idx sar) = Some nk" "seg_encodes E (sar_part nk) sar"
    and "send_segs E sar idxs w = Ret w'" "unat (seq_num (net w)) + length idxs < 2 ^ 32 - 200" "seq_reserved w"
  shows "\<exists>pkts. pkt_out (net w') = pkt_out (net w) @ pkts \<and> length pkts = length idxs \<and>
    (\<forall>k<length idxs. seg_packet E (sar_part nk) sar (idxs ! k) (seq_num (net w) + of_nat k) (pkts ! k)) \<and>
    seq_num (net w') = seq_num (net w) + of_nat (length idxs) \<and> seq_reserved w'"
  using assms(1,3-5)
proof (induction idxs arbitrary: w)
  case (Cons i idxs)
  from Cons.prems(2) obtain w1 where w1: "send_seg E sar i w = Ret w1" "send_segs E sar idxs w1 = Ret w'"
    by (auto simp: cbind_Ret_iff)
  from send_seg_one [OF Cons.prems(1) assms(2) w1(1) _ Cons.prems(4)] Cons.prems(3) obtain pkt where
    p: "seg_packet E (sar_part nk) sar i (seq_num (net w)) pkt" "pkt_out (net w1) = pkt_out (net w) @ [pkt]"
      "keys w1 = keys w" "seq_num (net w1) = seq_num (net w) + 1" "seq_reserved w1" by auto
  have "unat (seq_num (net w1)) = unat (seq_num (net w)) + 1" using p(4) Cons.prems(3) by (simp add: unat_word_ariths)
  with Cons.IH [OF _ w1(2) _ p(5)] Cons.prems(1,3) p(3) obtain pkts where
    q: "pkt_out (net w') = pkt_out (net w1) @ pkts" "length pkts = length idxs"
      "\<forall>k<length idxs. seg_packet E (sar_part nk) sar (idxs ! k) (seq_num (net w1) + of_nat k) (pkts ! k)"
      "seq_num (net w') = seq_num (net w1) + of_nat (length idxs)" "seq_reserved w'" by auto
  have "seg_packet E (sar_part nk) sar ((i # idxs) ! k) (seq_num (net w) + of_nat k) ((pkt # pkts) ! k)" if "k < length (i # idxs)" for k
    using that p(1,4) q(3) by (cases k) (auto simp: add.assoc)
  then show ?case using p q by (intro exI [of _ "pkt # pkts"]) (auto simp: add.assoc)
qed auto

section \<open>Access messages\<close>

lemma nth_concat_replicate: "k < r * length xs \<Longrightarrow> concat (replicate r xs) ! k = xs ! (k mod length xs)"
proof (induction r arbitrary: k)
  case (Suc r)
  show ?case
  proof (cases "k < length xs")
    case False
    with Suc.prems have "k - length xs < r * length xs" by simp
    with Suc.IH False show ?thesis by (simp add: nth_append) (metis le_mod_geq not_less)
  qed (simp add: nth_append)
qed simp

lemma length_seg_build: "length (fst (seg_build part sar i seq)) = 29"
  by (simp add: seg_build_def Let_def seg_header_def field_defs)

lemma access_seg_len:
  assumes b: "seg_build part sar i seq = (d, n)" and s: "\<not> sar_ctl sar"
    and l: "segmented sar \<or> (4 \<le> unat (sar_len sar) \<and> unat (sar_len sar) \<le> 15)"
  shows "14 \<le> unat n" "unat n \<le> 25"
proof -
  have "14 \<le> unat n \<and> unat n \<le> 25"
  proof (cases "segmented sar")
    case True
    define r where "r = (if segN sar = i then unat (sar_len sar) mod 12 else 0)"
    have r: "r \<le> 12" by (simp add: r_def)
    have "n = (if (13 :: u8) + of_nat r = 13 then 13 + of_nat r + 12 else 13 + of_nat r)"
      using True s b by (auto simp: seg_build_def Let_def bool_nat_def r_def)
    moreover have "(13 :: u8) + of_nat r = 13 \<longleftrightarrow> r = 0" using unat_13_add [OF r] by (auto simp: word_unat_eq_iff)
    ultimately show ?thesis using unat_13_add [OF r] r by auto
  next
    case False
    then have "n = 10 + ucast (sar_len sar)" using s b by (simp add: seg_build_def Let_def bool_nat_def)
    with False l show ?thesis by (simp add: unat_word_ariths unat_ucast_mod)
  qed
  then show "14 \<le> unat n" "unat n \<le> 25" by auto
qed

lemma access_seg_encodes:
  assumes E: "\<And>k. ecb_is (tx_alg E) k (enc k)" and s: "\<not> sar_ctl sar"
    and l: "segmented sar \<or> (4 \<le> unat (sar_len sar) \<and> unat (sar_len sar) \<le> 15)"
  shows "seg_encodes E part sar"
  unfolding seg_encodes_def
proof (intro allI)
  fix i seq
  obtain d n where b: "seg_build part sar i seq = (d, n)" by (cases "seg_build part sar i seq")
  have d: "length d = 29" using length_seg_build [of part sar i seq] b by simp
  note n = access_seg_len [OF b s l]
  then have "unat (n + 4) = unat n + 4" by (simp add: unat_word_ariths)
  then have "length (take (unat (n + 4)) d) = unat n + 4" using d n by simp
  moreover have "pkt_mic_size (take (unat (n + 4)) d) \<le> 8" using pkt_mic_size_cases [of "take (unat (n + 4)) d"] by auto
  ultimately obtain out where "mesh_crypto_packet_encode (tx_alg E) (take (unat (n + 4)) d) (enc_key part) (sar_iv_index sar) (privacy_key part) = Ret out"
    using packet_encode_total [OF E, of "take (unat (n + 4)) d"] n by force
  then show "\<exists>pkt. seg_packet E part sar i seq pkt" using b s by (simp add: seg_packet_def)
qed

text \<open>Nothing of a send reads or writes outside its buffers, so that it returns.\<close>

lemma send_seg_total:
  assumes E: "\<And>k. ecb_is (tx_alg E) k (enc k)" and s: "\<not> sar_ctl sar"
    and l: "segmented sar \<or> (4 \<le> unat (sar_len sar) \<and> unat (sar_len sar) \<le> 15)" and r: "seg_reads_ok sar i"
  shows "\<exists>w'. send_seg E sar i w = Ret w'"
proof (cases "find_net_key_by_idx (keys w) (sar_net_idx sar)")
  case (Some nk)
  obtain w1 seq where g: "get_next_seq w = (w1, seq)" by fastforce
  obtain d n where b: "seg_build (sar_part nk) sar i seq = (d, n)" by fastforce
  have "unat (n + 4) \<le> 29" using access_seg_len [OF b s l] by (simp add: unat_word_ariths)
  moreover obtain out where "mesh_crypto_packet_encode (tx_alg E) (take (unat (n + 4)) d) (enc_key (sar_part nk)) (sar_iv_index sar)
      (privacy_key (sar_part nk)) = Ret out"
    using access_seg_encodes [OF E s l, of "sar_part nk", unfolded seg_encodes_def, rule_format, of i seq] b s
    by (auto simp: seg_packet_def)
  ultimately show ?thesis using Some g b r s by (simp add: send_seg_def Let_def)
qed (simp add: send_seg_def)

lemma send_segs_total:
  assumes E: "\<And>k. ecb_is (tx_alg E) k (enc k)" and s: "\<not> sar_ctl sar"
    and l: "segmented sar \<or> (4 \<le> unat (sar_len sar) \<and> unat (sar_len sar) \<le> 15)"
  shows "\<forall>i\<in>set idxs. seg_reads_ok sar i \<Longrightarrow> \<exists>w'. send_segs E sar idxs w = Ret w'"
proof (induction idxs arbitrary: w)
  case (Cons i idxs)
  then have "seg_reads_ok sar i" by simp
  from send_seg_total [OF E s l this, of w] obtain v where "send_seg E sar i w = Ret v" by blast
  with Cons show ?case by simp
qed simp

lemma access_sar_more:
  assumes "access_sar E ttl src dst aad (aid, k, net_idx) buf n = Ret sar"
  shows "\<not> sar_ctl sar" "sar_len sar = of_nat (length buf) + 4" "sar_net_idx sar = net_idx"
  using assms by (auto simp: access_sar_def Let_def blank_sar_def split: cres.splits prod.splits)

lemma ccm_encrypt_total_aad:
  assumes "ecb_is A k E" "unat n \<le> length msg" "mic_size \<le> 16" "aad = [] \<or> 15 \<le> length aad \<and> length aad < 0xff00"
  shows "\<exists>out mic. mesh_crypto_aes_ccm_encrypt A nonce k aad msg n mic_size = Ret (out, mic)"
proof -
  obtain cmic Xn where s: "ccm_start A nonce k aad n mic_size = Ret (cmic, Xn)"
  proof (cases "aad = []")
    case False
    then show ?thesis using that assms(4) ccm_aad_ref [OF assms(1) _ ecb_isD(2) [OF assms(1)], of aad]
      by (simp add: ccm_start_def Let_def ecb_isD(1) [OF assms(1)])
  qed (use that in \<open>simp add: ccm_start_def Let_def ecb_isD(1) [OF assms(1)]\<close>)
  obtain out mic where
    "ccm_enc_loop A k nonce msg (unat n) cmic (ccm_blk_cnt (unat n)) 0 Xn (uninit16 A) = Ret (out, mic)"
    using ccm_enc_loop_total [OF assms(1)] by blast
  with s assms show ?thesis by (auto simp: mesh_crypto_aes_ccm_encrypt_def ecb_is_def)
qed

lemma access_send_total:
  assumes E: "\<And>k. ecb_is (tx_alg E) k (enc k)" and aad: "aad = [] \<or> 15 \<le> length aad \<and> length aad < 0xff00"
    and len: "length buf \<le> 384"
  shows "\<exists>w'. access_send E ttl src dst aad (aid, k, net_idx) buf w = Ret (w', True)"
proof -
  let ?sN = "SEG_MAX (length buf + 4)"
  define w1 where "w1 = (if (?sN \<noteq> 0 \<and> IS_UNICAST dst) \<and> find_sar_out_by_dst w (ucast dst) \<noteq> None then flush_out dst w else w)"
  have "unat (ucast (of_nat (length buf) :: u8) :: u16) \<le> length buf"
    by (simp add: unat_ucast_mod unat_of_nat)
  then obtain out mic where
    enc: "mesh_crypto_application_encrypt (tx_alg E) aid (seq_num (net w1)) src (ucast dst) (tx_iv_index (net w1)) k aad buf
      (of_nat (length buf)) 4 = Ret (out, mic)"
    using ccm_encrypt_total_aad [OF E [of k] _ _ aad, of _ buf 4] unfolding mesh_crypto_application_encrypt_def Let_def by fastforce
  then obtain sar where sar: "access_sar E ttl src dst aad (aid, k, net_idx) buf (net w1) = Ret sar"
    by (simp add: access_sar_def Let_def)
  note f = access_sar_fields [OF sar] access_sar_more [OF sar]
  have sN: "?sN \<le> 32" using len by (auto simp: SEG_MAX_def)
  have segN: "unat (segN sar) = ?sN" using f(2) sN by (simp add: unat_of_nat)
  have d: "length (sar_data sar) = 20 + 12 * ?sN"
    using sar enc by (auto simp: access_sar_def Let_def blank_sar_def split: cres.splits)
  have "seg_reads_ok sar i" if "i \<in> set (all_segs sar)" for i
    using that segN d f(3,5) sN by (auto simp: all_segs_def seg_reads_ok_def bool_nat_def unat_of_nat)
  moreover have "unat (sar_len sar) = length buf + 4" using f(6) len by (simp add: unat_word_ariths unat_of_nat)
  then have "segmented sar \<or> (4 \<le> unat (sar_len sar) \<and> unat (sar_len sar) \<le> 15)"
    using f(3) by (auto simp: SEG_MAX_def split: if_splits)
  ultimately have "\<exists>w'. send_segs E sar (concat (replicate n (all_segs sar))) w1 = Ret w'" for n
    by (intro send_segs_total [OF E f(5)]) (auto split: if_splits)
  then show ?thesis using sar by (auto simp: access_send_def Let_def w1_def cbind_Ret_iff)
qed

lemma seq_flush [simp]: "seq_num (net (flush_out d w)) = seq_num (net w)" "pkt_out (net (flush_out d w)) = pkt_out (net w)"
  "keys (flush_out d w) = keys w" "seq_reserved (flush_out d w) = seq_reserved w"
  "access_sar E ttl src dst aad k3 buf (net (flush_out d w)) = access_sar E ttl src dst aad k3 buf (net w)"
  by (simp_all add: flush_out_def seq_reserved_def access_sar_def tx_iv_index_def)

lemma access_send_core:
  assumes s: "access_send E ttl src dst aad (aid, k, net_idx) buf w = Ret (w', b)"
    and E: "\<And>k. ecb_is (tx_alg E) k (enc k)" and nk: "find_net_key_by_idx (keys w) net_idx = Some nk"
    and r: "seq_reserved w" "unat (seq_num (net w)) < 2 ^ 32 - 400" and len: "length buf \<le> 384"
  defines "sN \<equiv> SEG_MAX (length buf + 4)"
  shows "\<exists>sar pkts. access_sar E ttl src dst aad (aid, k, net_idx) buf (net w) = Ret sar \<and>
    pkt_out (net w') = pkt_out (net w) @ pkts \<and>
    length pkts = (if IS_UNICAST dst \<or> sN = 0 then sN + 1 else 5 * (sN + 1)) \<and>
    (\<forall>j<length pkts. seg_packet E (sar_part nk) sar (of_nat (j mod (sN + 1))) (seq_num (net w) + of_nat j) (pkts ! j)) \<and>
    seq_num (net w') = seq_num (net w) + of_nat (length pkts) \<and> seq_reserved w' \<and>
    (sN \<noteq> 0 \<and> IS_UNICAST dst \<longrightarrow> last (msg_out (net w')) = sar\<lparr>ack_to := True, msg_to := True\<rparr>)"
proof -
  let ?acked = "sN \<noteq> 0 \<and> IS_UNICAST dst"
  let ?r = "if \<not> IS_UNICAST dst \<and> sN \<noteq> 0 then 5 else 1 :: nat"
  define w1 where "w1 = (if ?acked \<and> find_sar_out_by_dst w (ucast dst) \<noteq> None then flush_out dst w else w)"
  have e1: "seq_num (net w1) = seq_num (net w)" "pkt_out (net w1) = pkt_out (net w)" "keys w1 = keys w" "seq_reserved w1 = seq_reserved w"
      "access_sar E ttl src dst aad (aid, k, net_idx) buf (net w1) = access_sar E ttl src dst aad (aid, k, net_idx) buf (net w)"
    by (simp_all add: w1_def)
  from s obtain sar w2 where
    sar: "access_sar E ttl src dst aad (aid, k, net_idx) buf (net w1) = Ret sar" and
    w2: "send_segs E sar (concat (replicate ?r (all_segs sar))) w1 = Ret w2" and
    w': "w' = (if ?acked then upd_net (\<lambda>n. n\<lparr>msg_out := msg_out n @ [sar\<lparr>ack_to := True, msg_to := True\<rparr>]\<rparr>) w2 else w2)"
    unfolding access_send_def Let_def sN_def [symmetric] w1_def [symmetric]
    by (auto simp only: cbind_Ret_iff cres.inject prod.inject)
  note f = access_sar_fields [OF sar] access_sar_more [OF sar]
  have sN: "sN \<le> 32" using len by (auto simp: sN_def SEG_MAX_def)
  have segN: "unat (segN sar) = sN" using f(2) sN by (simp add: sN_def [symmetric] unat_of_nat)
  have "unat (sar_len sar) = length buf + 4" using f(6) len by (simp add: unat_word_ariths unat_of_nat)
  then have "segmented sar \<or> (4 \<le> unat (sar_len sar) \<and> unat (sar_len sar) \<le> 15)"
    using f(3) by (auto simp: SEG_MAX_def split: if_splits)
  then have enc: "seg_encodes E (sar_part nk) sar" by (rule access_seg_encodes [OF E f(5)])
  have l: "length (all_segs sar) = sN + 1" by (simp add: all_segs_def segN)
  define idxs where "idxs = concat (replicate ?r (all_segs sar))"
  have total: "length idxs = ?r * (sN + 1)" unfolding idxs_def by (simp add: length_concat sum_list_replicate l)
  have "length idxs \<le> 165" using sN unfolding total by simp
  then have "unat (seq_num (net w1)) + length idxs < 2 ^ 32 - 200" using r(2) e1(1) by simp
  from send_segs_all [OF _ enc w2 [folded idxs_def] this] nk e1 r(1) f(7) obtain pkts where
    p: "pkt_out (net w2) = pkt_out (net w) @ pkts" "length pkts = length idxs"
      "\<forall>j<length idxs. seg_packet E (sar_part nk) sar (idxs ! j) (seq_num (net w) + of_nat j) (pkts ! j)"
      "seq_num (net w2) = seq_num (net w) + of_nat (length pkts)" "seq_reserved w2"
    by auto
  have "idxs ! j = of_nat (j mod (sN + 1))" if "j < length pkts" for j
  proof -
    have "j < ?r * length (all_segs sar)" using that p(2) unfolding l total by simp
    then have "concat (replicate ?r (all_segs sar)) ! j = all_segs sar ! (j mod (sN + 1))"
      using nth_concat_replicate [of j ?r "all_segs sar"] l by simp
    moreover have "j mod (sN + 1) < sN + 1" by simp
    ultimately show ?thesis by (simp only: idxs_def all_segs_def segN nth_map length_upt nth_upt add_0 diff_zero)
  qed
  moreover have "length pkts = (if IS_UNICAST dst \<or> sN = 0 then sN + 1 else 5 * (sN + 1))" using p(2) unfolding total by simp
  ultimately show ?thesis using p sar e1(5) by (intro exI [of _ sar] exI [of _ pkts]) (auto simp: w' seq_reserved_def)
qed

section \<open>Acknowledgements\<close>

lemma ack_bits:
  assumes "unat n \<le> 31" "\<forall>i. bit a i \<longrightarrow> i \<le> unat n"
  shows "(a OR (fl AND full_ack n) = full_ack n) \<longleftrightarrow> (\<forall>i\<le>unat n. bit a i \<or> bit fl i)"
proof
  assume *: "a OR (fl AND full_ack n) = full_ack n"
  show "\<forall>i\<le>unat n. bit a i \<or> bit fl i"
  proof (intro allI impI)
    fix i assume "i \<le> unat n"
    then have "bit (a OR (fl AND full_ack n)) i" using bit_full_ack [OF assms(1)] * by simp
    then show "bit a i \<or> bit fl i" by (auto simp: bit_or_iff bit_and_iff)
  qed
next
  assume "\<forall>i\<le>unat n. bit a i \<or> bit fl i"
  then show "a OR (fl AND full_ack n) = full_ack n"
    using assms(2) bit_full_ack [OF assms(1)] by (intro bit_word_eqI) (auto simp: bit_or_iff bit_and_iff)
qed

lemma find_out_upd:
  assumes "\<And>s. sar_dst s = d \<Longrightarrow> sar_dst (f s) = d"
  shows "find_sar_out_by_dst (upd_out d f w) a = None \<longleftrightarrow> find_sar_out_by_dst w a = None"
proof -
  have m: "map sar_dst (update_first (\<lambda>s. sar_dst s = d) f (msg_out (net w))) = map sar_dst (msg_out (net w))"
    by (rule map_update_first) (simp add: assms)
  have F: "find (\<lambda>s. sar_dst s = x) xs = None \<longleftrightarrow> x \<notin> set (map sar_dst xs)" for x xs by (auto simp: find_None_iff)
  have "msg_out (net (upd_out d f w)) = update_first (\<lambda>s. sar_dst s = d) f (msg_out (net w))" by (simp add: upd_out_def)
  then show ?thesis unfolding find_sar_out_by_dst_def F by (simp only: m)
qed

lemma find_out_resend:
  assumes "resend_segs E sar w = Ret w'"
  shows "find_sar_out_by_dst w' a = None \<longleftrightarrow> find_sar_out_by_dst w a = None"
proof -
  have "same_sar (upd_out (sar_dst sar) (\<lambda>s. s\<lparr>activity_cnt := 0\<rparr>) w) w'"
    using assms send_segs_keeps unfolding resend_segs_def by blast
  then have "find_sar_out_by_dst w' a = find_sar_out_by_dst (upd_out (sar_dst sar) (\<lambda>s. s\<lparr>activity_cnt := 0\<rparr>) w) a"
    by (simp add: same_sar_def find_sar_out_by_dst_def)
  then show ?thesis by (simp add: find_out_upd)
qed

section \<open>Encryption reads only the message\<close>

lemma ccm_enc_loop_prefix:
  assumes "take L m1 = take L m2" "L \<le> length m1" "L \<le> length m2"
  shows "j + r = ccm_blk_cnt L \<Longrightarrow>
    ccm_enc_loop A K nonce m1 L cmic r j Xn mic = ccm_enc_loop A K nonce m2 L cmic r j Xn mic"
proof (induction r arbitrary: j Xn mic)
  case (Suc r)
  then have j: "j < ccm_blk_cnt L" by simp
  have b: "byte_at m1 (j * 16 + i) = byte_at m2 (j * 16 + i)" if "i < ccm_blk_len L j" for i
  proof -
    have "j * 16 + i < L" using ccm_blk_len_bounds(2) [OF j] that by simp
    with assms show ?thesis by (simp add: byte_at_def) (metis nth_take)
  qed
  have o: "map (\<lambda>i. byte_at m1 (j * 16 + i) XOR byte_at c i) [0..<ccm_blk_len L j] =
      map (\<lambda>i. byte_at m2 (j * 16 + i) XOR byte_at c i) [0..<ccm_blk_len L j]" for c by (simp add: b)
  have x: "xor_range Xn m1 0 (ccm_blk_len L j) (j * 16) p = xor_range Xn m2 0 (ccm_blk_len L j) (j * 16) p" for p
    by (simp add: xor_range_def b)
  have ih: "ccm_enc_loop A K nonce m1 L cmic r (Suc j) = ccm_enc_loop A K nonce m2 L cmic r (Suc j)"
    using Suc by (intro ext) simp
  show ?case by (simp only: ccm_enc_loop.simps Let_def o x ih Suc_eq_plus1 [symmetric])
qed simp

lemma ccm_reads_prefix:
  assumes "take (unat n) m1 = take (unat n) m2" "unat n \<le> length m1" "unat n \<le> length m2"
  shows "mesh_crypto_aes_ccm_encrypt A nonce k aad m1 n m = mesh_crypto_aes_ccm_encrypt A nonce k aad m2 n m"
  using assms(2,3) by (simp add: mesh_crypto_aes_ccm_encrypt_def ccm_enc_loop_prefix [OF assms])

section \<open>Properties\<close>

text \<open>
  The octets an access message carries, by the reference definition of CCM: the
  message and its MIC of four octets, under the nonce of a device key (\<open>aid\<close> 0) or
  of an application key.
\<close>

definition access_octets ::
  "(bytes \<Rightarrow> bytes) \<Rightarrow> u8 \<Rightarrow> u32 \<Rightarrow> u16 \<Rightarrow> u16 \<Rightarrow> u32 \<Rightarrow> bytes \<Rightarrow> bytes \<Rightarrow> bytes" where
  "access_octets e aid seq src dst iv aad msg =
     ccm_ref e (if aid = 0 then mesh_crypto_device_nonce seq src dst iv False
                else mesh_crypto_application_nonce seq src dst iv False) aad msg 4"

lemma length_ccm_ref:
  assumes "ecb_is A K e" "mic_size \<le> 16"
  shows "length (ccm_ref e nonce aad msg mic_size) = length msg + mic_size"
proof -
  have e: "length (e b) = 16" for b using assms(1) by (rule ecb_isD)
  have "length (cbc_mac e X bs) = 16" if "length X = 16" for X bs
    using that by (induction bs arbitrary: X) (simp_all add: e)
  moreover have "length (ctr_stream e nonce c n) = 16 * n" for c n
    by (induction n arbitrary: c) (simp_all add: e)
  ultimately show ?thesis
    using ccm_blk_cnt_bound [of "length msg"] assms(2) by (simp add: ccm_ref_def ccm_ref_mac_def xor_bytes_def e)
qed

lemma access_sar_data:
  assumes "access_sar E ttl src dst aad (aid, k, net_idx) buf n = Ret sar" "ecb_is (tx_alg E) k e"
    and "aad = [] \<or> 15 \<le> length aad \<and> length aad < 0xff00" "length buf mod 256 \<noteq> 0" "length buf < 512"
  shows "take (length buf mod 256 + 4) (sar_data sar) =
    access_octets e aid (seq_num n) src (ucast dst) (tx_iv_index n) aad (take (length buf mod 256) buf)"
proof -
  define L where "L = length buf mod 256"
  have L: "L < 256" "L \<le> length buf" "L \<noteq> 0" using assms(4) by (simp_all add: L_def)
  have c: "ucast (of_nat (length buf) :: u8) = (of_nat L :: u16)"
    by (rule word_unat_eq_iff [THEN iffD2]) (use L(1) in \<open>simp add: unat_ucast_mod unat_of_nat L_def\<close>)
  have u: "unat (of_nat L :: u16) = L" using L(1) by (simp add: unat_of_nat)
  let ?m = "take L buf"
  have m: "length ?m = L" using L by simp
  have "mesh_crypto_aes_ccm_encrypt (tx_alg E) nonce k aad buf (of_nat L) 4 =
      mesh_crypto_aes_ccm_encrypt (tx_alg E) nonce k aad ?m (of_nat (length ?m)) 4" for nonce
    using L u m by (simp add: ccm_reads_prefix [of "of_nat L" buf ?m])
  also have "\<dots> nonce = Ret (ccm_ref e nonce aad ?m 4, ccm_ref_mac e nonce aad ?m 4)" for nonce
    by (rule ccm_encrypt_ref_core [OF assms(2) _ _ _ assms(3)]) (use L in auto)
  finally have enc: "mesh_crypto_aes_ccm_encrypt (tx_alg E) nonce k aad buf (of_nat L) 4 =
      Ret (ccm_ref e nonce aad ?m 4, ccm_ref_mac e nonce aad ?m 4)" for nonce .
  have len: "length (access_octets e aid q s d i aad ?m) = L + 4" for q s d i
    using assms(2) m by (simp add: access_octets_def length_ccm_ref [OF assms(2)])
  have "sar_data sar = memcpy (replicate (20 + SEG_MAX (length buf + 4) * 12) 0) 0
      (access_octets e aid (seq_num n) src (ucast dst) (tx_iv_index n) aad ?m)"
    using assms(1) by (auto simp: access_sar_def Let_def mesh_crypto_application_encrypt_def c enc access_octets_def blank_sar_def
        split: if_splits)
  moreover have "L + 4 \<le> 20 + SEG_MAX (length buf + 4) * 12" using L(2) by (auto simp: SEG_MAX_def)
  ultimately show ?thesis using len by (simp add: memcpy_def L_def)
qed

text \<open>
  C15. Sending an access message. With a cipher that answers, a message to a known
  key is encrypted under that key with its source, destination, IV index and
  the next sequence number (of a message of 256 octets or more, only the first
  \<open>length mod 256\<close> octets), cut into its segments, and these are each encoded with
  the next sequence number and queued in order, five times over when a
  segmented message goes to an address that does not acknowledge; a message
  that is acknowledged is kept for repetition; and every number used stays
  below the one saved to disk.
\<close>

theorem access_message_sent:
  fixes src :: u16
  assumes "length buf \<le> 384" "local_node_rec w \<noteq> None" "dst0 \<noteq> 0"
    and "\<And>k. ecb_is (tx_alg E) k (enc k)"
    and "access_target w dst0 = Some (dst, aad)" "get_enc_keys w app_idx (ucast dst) = Some (aid, k, net_idx)"
    and "find_net_key_by_idx (keys w) net_idx = Some nk"
    and "seq_reserved w" "unat (seq_num (net w)) < 2 ^ 32 - 400"
    and "aad = [] \<or> length aad = 16"
  defines "sN \<equiv> SEG_MAX (length buf + 4)"
  defines "src1 \<equiv> if src = 0 then node_get_primary (local_node_rec w) else src"
  assumes "src1 \<noteq> 0"
  shows "\<exists>w' sar pkts. net_access_layer_send E ttl src dst0 app_idx buf w = Ret (w', True) \<and>
    sar_src sar = src1 \<and> sar_dst sar = dst \<and> sar_ttl sar = (if ttl = 0xff then default_ttl (net w) else ttl) \<and>
    sar_net_idx sar = net_idx \<and> sar_akf_aid sar = aid \<and> seqAuth sar = seq_num (net w) \<and>
    sar_iv_index sar = tx_iv_index (net w) \<and> sar_len sar = of_nat (length buf) + 4 \<and>
    segN sar = of_nat sN \<and> segmented sar = (sN \<noteq> 0) \<and> \<not> sar_ctl sar \<and> \<not> sar_proxy sar \<and> \<not> szmic sar \<and>
    (length buf mod 256 \<noteq> 0 \<longrightarrow> take (length buf mod 256 + 4) (sar_data sar) =
       access_octets (enc k) aid (seq_num (net w)) src1 (ucast dst) (tx_iv_index (net w)) aad (take (length buf mod 256) buf)) \<and>
    pkt_out (net w') = pkt_out (net w) @ pkts \<and>
    length pkts = (if IS_UNICAST dst \<or> sN = 0 then sN + 1 else 5 * (sN + 1)) \<and>
    (\<forall>j<length pkts. seg_packet E (sar_part nk) sar (of_nat (j mod (sN + 1))) (seq_num (net w) + of_nat j) (pkts ! j)) \<and>
    (sN \<noteq> 0 \<and> IS_UNICAST dst \<longrightarrow> last (msg_out (net w')) = sar\<lparr>ack_to := True, msg_to := True\<rparr>) \<and>
    seq_num (net w') = seq_num (net w) + of_nat (length pkts) \<and> seq_reserved w'"
proof -
  let ?ttl = "if ttl = 0xff then default_ttl (net w) else ttl"
  have aad: "aad = [] \<or> 15 \<le> length aad \<and> length aad < 0xff00" using assms(10) by auto
  obtain w' where s: "access_send E ?ttl src1 dst aad (aid, k, net_idx) buf w = Ret (w', True)"
    using access_send_total [OF assms(4) aad assms(1)] by blast
  then have send: "net_access_layer_send E ttl src dst0 app_idx buf w = Ret (w', True)"
    using assms(1-3,5,6,13) by (simp add: net_access_layer_send_def Let_def src1_def)
  from access_send_core [OF s assms(4,7-9,1)] obtain sar pkts where
    c: "access_sar E ?ttl src1 dst aad (aid, k, net_idx) buf (net w) = Ret sar"
      "pkt_out (net w') = pkt_out (net w) @ pkts"
      "length pkts = (if IS_UNICAST dst \<or> sN = 0 then sN + 1 else 5 * (sN + 1))"
      "\<forall>j<length pkts. seg_packet E (sar_part nk) sar (of_nat (j mod (sN + 1))) (seq_num (net w) + of_nat j) (pkts ! j)"
      "seq_num (net w') = seq_num (net w) + of_nat (length pkts)" "seq_reserved w'"
      "sN \<noteq> 0 \<and> IS_UNICAST dst \<longrightarrow> last (msg_out (net w')) = sar\<lparr>ack_to := True, msg_to := True\<rparr>"
    unfolding sN_def by blast
  have "sar_src sar = src1" "sar_ttl sar = ?ttl" "sar_akf_aid sar = aid" "sar_iv_index sar = tx_iv_index (net w)"
      "\<not> sar_proxy sar" "\<not> szmic sar"
    using c(1) by (auto simp: access_sar_def Let_def blank_sar_def split: cres.splits prod.splits)
  moreover have "length buf mod 256 \<noteq> 0 \<Longrightarrow> take (length buf mod 256 + 4) (sar_data sar) =
       access_octets (enc k) aid (seq_num (net w)) src1 (ucast dst) (tx_iv_index (net w)) aad (take (length buf mod 256) buf)"
    using aad assms(1) by (intro access_sar_data [OF c(1) assms(4)]) auto
  ultimately show ?thesis
    using c access_sar_fields [OF c(1)] access_sar_more [OF c(1)]
    by (intro exI [of _ w'] exI [of _ sar] exI [of _ pkts]) (simp add: sN_def send)
qed

text \<open>One octet sent to node 5 under the device key.\<close>

definition demo_send_world :: world where
  "demo_send_world = blank_world\<lparr>net := blank_net\<lparr>seq_num_reserved := 100\<rparr>, log := [Db_local_seq_num 100],
     keys := \<lparr>net_keys = [demo_net_key], app_keys = []\<rparr>, local_node := Some 1,
     nodes := [(blank_node 1)\<lparr>primary := 1, num_ele := 1, primary_net_idx := 7\<rparr>]\<rparr>"

theorem access_message_sent_witness:
  "\<exists>w' sar pkt. net_access_layer_send demo_env 7 1 5 APP_IDX_DEV [9] demo_send_world = Ret (w', True) \<and>
     pkt_out (net w') = [pkt] \<and> seg_packet demo_env (sar_part demo_net_key) sar 0 0 pkt \<and>
     sar_src sar = 1 \<and> sar_dst sar = 5 \<and> sar_ttl sar = 7 \<and>
     take 5 (sar_data sar) = access_octets (demo_E (replicate 16 0)) 0 0 1 5 0 [] [9]"
proof -
  let ?w = demo_send_world
  have E: "ecb_is (tx_alg demo_env) k (demo_E k)" for k by (simp add: demo_env_def demo_alg_ecb)
  have t: "access_target ?w 5 = Some (5, [])" by (simp add: access_target_def IS_VIRTUAL_def)
  have k: "get_enc_keys ?w APP_IDX_DEV (ucast (5 :: u32)) = Some (0, replicate 16 0, 7)"
    by (simp add: get_enc_keys_def demo_send_world_def blank_world_def blank_net_def blank_node_def local_node_rec_def node_at_def
        node_get_primary_net_idx_def)
  have nk: "find_net_key_by_idx (keys ?w) 7 = Some demo_net_key"
    by (simp add: find_net_key_by_idx_def demo_send_world_def demo_net_key_def)
  have r: "seq_reserved ?w" "unat (seq_num (net ?w)) < 2 ^ 32 - 400"
    by (simp_all add: seq_reserved_def demo_send_world_def blank_world_def blank_net_def)
  have m: "SEG_MAX (length [9 :: u8] + 4) = 0" by (simp add: SEG_MAX_def)
  have l: "local_node_rec ?w \<noteq> None" by (simp add: local_node_rec_def node_at_def demo_send_world_def blank_node_def)
  have z: "seq_num (net ?w) = 0" "tx_iv_index (net ?w) = 0" "pkt_out (net ?w) = []"
    by (simp_all add: demo_send_world_def blank_net_def tx_iv_index_def)
  obtain w' sar pkts where "net_access_layer_send demo_env 7 1 5 APP_IDX_DEV [9] ?w = Ret (w', True)"
    "sar_src sar = 1" "sar_dst sar = 5" "sar_ttl sar = 7" "pkt_out (net w') = pkts" "length pkts = 1"
    "seg_packet demo_env (sar_part demo_net_key) sar 0 0 (pkts ! 0)"
    "take 5 (sar_data sar) = access_octets (demo_E (replicate 16 0)) 0 0 1 5 0 [] [9]"
    using access_message_sent [OF _ l _ E t k nk r, where buf = "[9]" and src = 1 and ttl = 7] m z by (auto simp: IS_UNICAST_def)
  then show ?thesis by (auto simp: length_Suc_conv)
qed


text \<open>
  C16. The end of an acknowledged message. An acknowledgement for a message in
  progress whose acknowledged segments are within range ends the message when
  it and the earlier ones cover every segment; otherwise the message stays, and
  its unacknowledged segments are repeated when the packet queue is empty.
\<close>

theorem ack_ends_message:
  assumes "ack_rxed E src adst obo seq0 fl w = Ret (w', b)" "net_inv w" "find_sar_out_by_dst w src = Some sar"
    and "\<forall>i. bit (ack sar) i \<longrightarrow> i \<le> unat (segN sar)"
  shows "b \<and> (find_sar_out_by_dst w' src = None \<longleftrightarrow> (\<forall>i\<le>unat (segN sar). bit (ack sar) i \<or> bit fl i))"
proof -
  define sar1 where "sar1 = sar\<lparr>ack := ack sar OR (fl AND full_ack (segN sar))\<rparr>"
  define sar2 where "sar2 = sar1\<lparr>activity_cnt := activity_cnt sar1 + 1\<rparr>"
  have d: "sar_dst sar = ucast src" "sar_dst sar1 = ucast src" "sar_dst sar2 = ucast src"
    using assms(3) by (auto simp: find_sar_out_by_dst_def sar1_def sar2_def dest: find_SomeD)
  have n: "unat (segN sar) \<le> 31" using assms(1,3) by (auto simp: ack_rxed_def)
  have done_iff: "ack sar1 = full_ack (segN sar) \<longleftrightarrow> (\<forall>i\<le>unat (segN sar). bit (ack sar) i \<or> bit fl i)"
    unfolding sar1_def using ack_bits [OF n assms(4)] by simp
  show ?thesis
  proof (cases "ack sar1 = full_ack (segN sar)")
    case True
    have "ack_rxed E src adst obo seq0 fl w = Ret (flush_out (ucast src) w, True)"
      unfolding ack_rxed_def assms(3) option.case using True n d(1) by (simp add: sar1_def)
    then have w': "w' = flush_out (ucast src) w" and b using assms(1) by simp_all
    have "find_sar_out_by_dst (flush_out (ucast src) w) src = None"
      using assms(2) by (simp add: find_sar_out_by_dst_def flush_out_def net_inv_def sar_ok_alt find_delete_first_same)
    with w' \<open>b\<close> True done_iff show ?thesis by simp
  next
    case False
    have u: "find_sar_out_by_dst (upd_out (ucast src) (\<lambda>_. sar2) w) src \<noteq> None"
      using assms(3) by (simp add: find_out_upd d)
    let ?w1 = "upd_out (ucast src) (\<lambda>_. sar2) w"
    have s1: "segN sar1 = segN sar" by (simp add: sar1_def)
    have "ack_rxed E src adst obo seq0 fl w =
        (if pkt_out (net ?w1) = [] then cbind (resend_segs E sar2 ?w1) (\<lambda>w2. Ret (w2, True)) else Ret (?w1, True))"
      unfolding ack_rxed_def assms(3) option.case Let_def sar1_def [symmetric] sar2_def [symmetric] d(2)
      using n False by (simp add: s1)
    with assms(1) have "b \<and> (w' = ?w1 \<or> resend_segs E sar2 ?w1 = Ret w')"
      by (auto simp: cbind_Ret_iff split: if_splits)
    then have "b" "find_sar_out_by_dst w' src \<noteq> None" using u find_out_resend [of E sar2 ?w1 w' src] by auto
    with False done_iff show ?thesis by blast
  qed
qed

text \<open>A message of two segments to node 5, of which the first is acknowledged.\<close>

definition demo_tx_world :: world where
  "demo_tx_world = blank_world\<lparr>net := blank_net\<lparr>msg_out := [demo_sar\<lparr>ack := 1\<rparr>]\<rparr>\<rparr>"

theorem ack_ends_message_witness:
  "\<exists>w'. ack_rxed demo_env 5 1 False 0 2 demo_tx_world = Ret (w', True) \<and> find_sar_out_by_dst w' 5 = None"
proof -
  have f: "find_sar_out_by_dst demo_tx_world 5 = Some (demo_sar\<lparr>ack := 1\<rparr>)"
    by (simp add: find_sar_out_by_dst_def demo_tx_world_def demo_sar_def blank_sar_def)
  have i: "net_inv demo_tx_world"
    by (simp add: net_inv_def demo_tx_world_def blank_world_def blank_net_def sar_in_ok_def sar_out_ok_def queue_ok_def
        demo_sar_def IS_UNICAST_def)
  have "full_ack 1 = 3" by code_simp
  then obtain w' where w': "ack_rxed demo_env 5 1 False 0 2 demo_tx_world = Ret (w', True)"
    using f by (simp add: ack_rxed_def demo_sar_def)
  have "\<forall>i. bit (ack (demo_sar\<lparr>ack := 1\<rparr>)) i \<longrightarrow> i \<le> unat (segN (demo_sar\<lparr>ack := 1\<rparr>))" by (simp add: bit_1_iff)
  moreover have "\<forall>i\<le>unat (segN (demo_sar\<lparr>ack := 1\<rparr>)). bit (ack (demo_sar\<lparr>ack := 1\<rparr>)) i \<or> bit (2 :: u32) i"
    by (auto simp: demo_sar_def bit_1_iff le_Suc_eq)
  ultimately show ?thesis using ack_ends_message [OF w' i f] w' by blast
qed

text \<open>
  A segment numbered past the last one. The first segment received of a
  message whose segment number exceeds the number of its last segment is
  written outside the buffer allocated for the message.
\<close>

lemma segment_past_end_faults:
  assumes "find_sar_in_by_src w src = None" "TRANS_SEGN tpdu < TRANS_SEGO tpdu"
  shows "seg_rxed E recv net_idx iv ctl ttl seq src dst tpdu len w = Fault"
proof -
  have "Suc (unat (TRANS_SEGN tpdu)) \<le> unat (TRANS_SEGO tpdu)" using assms(2) by (simp add: word_less_nat_alt)
  then have "20 + 12 * unat (TRANS_SEGN tpdu) < 1 + 12 * unat (TRANS_SEGO tpdu) + 12" by simp
  then show ?thesis
    using assms(1)
    by (simp add: seg_rxed_def Let_def sar_for_segment_def seg_continue_def store_segment_def new_sar_in_def blank_sar_def cguard_def)
qed

lemma segment_past_end_faults_witness:
  "seg_rxed demo_env ignore_recv 0 5 False 7 9 0x1234 0xc001 [0xc0, 0, 0, 0x41] 5 blank_world = Fault"
proof (rule segment_past_end_faults)
  show "find_sar_in_by_src blank_world 0x1234 = None" by (simp add: find_sar_in_by_src_def blank_world_def blank_net_def)
  show "TRANS_SEGN [0xc0, 0, 0, 0x41] < TRANS_SEGO [0xc0, 0, 0, 0x41]" by code_simp
qed

text \<open>
  Long messages are cut. \<open>net_access_layer_send\<close> takes messages of up to 384
  octets, but the count it hands to the encryption has eight bits: of a message
  of 256 octets or more only the first \<open>length mod 256\<close> are sent.
\<close>

lemma long_message_truncated:
  assumes "length buf = length buf'" "256 \<le> length buf" "length buf < 512" "take (length buf - 256) buf = take (length buf - 256) buf'"
  shows "access_sar E ttl src dst aad keys3 buf n = access_sar E ttl src dst aad keys3 buf' n"
proof -
  have n1: "length buf - 256 < 256" using assms(2,3) by simp
  have "length buf mod 256 = length buf - 256" using assms(2,3) by (simp add: mod_if)
  then have "unat (ucast (of_nat (length buf) :: u8) :: u16) = length buf - 256"
    using n1 by (simp only: unat_ucast_mod unat_of_nat) simp
  then have n: "ucast (of_nat (length buf) :: u8) = (of_nat (length buf - 256) :: u16)" "length buf - 256 < 256"
    using n1 by (metis of_nat_unat ucast_id, simp)
  define L where "L = length buf - 256"
  have L: "L < 256" "L \<le> length buf" "L \<le> length buf'" "take L buf = take L buf'"
    using n(2) assms by (simp_all add: L_def)
  then have "unat (of_nat L :: u16) = L" by (simp add: unat_of_nat)
  then have "mesh_crypto_aes_ccm_encrypt A nonce k aad buf (of_nat L) m = mesh_crypto_aes_ccm_encrypt A nonce k aad buf' (of_nat L) m"
      for A nonce k m
    using L by (intro ccm_reads_prefix) simp_all
  then show ?thesis by (simp add: access_sar_def mesh_crypto_application_encrypt_def n(1) [folded L_def] assms(1) [symmetric] Let_def split: prod.split)
qed

text \<open>Two messages of 257 octets with the same first octet.\<close>

lemma long_message_truncated_witness:
  "access_sar demo_env 7 1 5 [] (0, [], 0) (9 # replicate 256 1) blank_net =
   access_sar demo_env 7 1 5 [] (0, [], 0) (9 # replicate 256 2) blank_net"
  by (rule long_message_truncated) simp_all

end
