(* ===== verification/Mesh_Models.thy ===== *)
theory Mesh_Models
  imports Mesh_Prov Mesh_NetSend
begin

text \<open>
  The client models: \<^verbatim>\<open>mesh/onoff-model.c\<close>, \<^verbatim>\<open>mesh/light-level-model.c\<close>,
  \<^verbatim>\<open>mesh/light-lightness-model.c\<close>, \<^verbatim>\<open>mesh/light-ctl-model.c\<close>, \<^verbatim>\<open>mesh/light-hsl-model.c\<close> and
  \<^verbatim>\<open>mesh/time-model.c\<close>.

  Each file keeps the same four static variables; they are the record
  \<open>client_state\<close>, one per client. Where two files have the same function on their own
  variables, the function is written once with the client as an argument and
  instantiated per file. A command returns the state and the status it passes to
  \<^verbatim>\<open>bt_shell_noninteractive_quit\<close>, or None when it returns without calling it. What a
  status message makes the client print is returned as a value.
\<close>

section \<open>State\<close>

record client_state =
  c_target :: u32
  c_parms :: "u32 list"
  c_trans_id :: u8
  c_app_idx :: u16

record cworld = pworld +
  clients :: "model_cb \<Rightarrow> client_state"

definition client_start :: client_state where
  "client_start = \<lparr>c_target = 0, c_parms = replicate 8 0, c_trans_id = 0, c_app_idx = APP_IDX_INVALID\<rparr>"

definition upd_client :: "model_cb \<Rightarrow> (client_state \<Rightarrow> client_state) \<Rightarrow> 'a cworld_scheme \<Rightarrow> 'a cworld_scheme" where
  "upd_client cb f w = w\<lparr>clients := (clients w)(cb := f (clients w cb))\<rparr>"

definition MESH_STATUS_SUCCESS :: u8 where "MESH_STATUS_SUCCESS = 0"
definition MESH_STATUS_INSUFF_RESOURCES :: int where "MESH_STATUS_INSUFF_RESOURCES = 5"
definition ACTION_ADD :: nat where "ACTION_ADD = 1"
definition OP_UNRELIABLE :: u32 where "OP_UNRELIABLE = 0x0100"

definition GENERIC_ONOFF_CLIENT_MODEL_ID :: u16 where "GENERIC_ONOFF_CLIENT_MODEL_ID = 0x1001"
definition OP_GENERIC_ONOFF_GET :: u32 where "OP_GENERIC_ONOFF_GET = 0x8201"
definition OP_GENERIC_ONOFF_SET :: u32 where "OP_GENERIC_ONOFF_SET = 0x8202"
definition OP_GENERIC_ONOFF_STATUS :: u32 where "OP_GENERIC_ONOFF_STATUS = 0x8204"
definition LEVEL_CLIENT_MODEL_ID :: u16 where "LEVEL_CLIENT_MODEL_ID = 0x1003"
definition OP_LEVEL_GET :: u32 where "OP_LEVEL_GET = 0x8205"
definition OP_LEVEL_SET :: u32 where "OP_LEVEL_SET = 0x8206"
definition OP_LEVEL_STATUS :: u32 where "OP_LEVEL_STATUS = 0x8208"
definition LIGHTNESS_CLIENT_MODEL_ID :: u16 where "LIGHTNESS_CLIENT_MODEL_ID = 0x1302"
definition OP_LIGHTNESS_GET :: u32 where "OP_LIGHTNESS_GET = 0x824B"
definition OP_LIGHTNESS_SET :: u32 where "OP_LIGHTNESS_SET = 0x824C"
definition OP_LIGHTNESS_STATUS :: u32 where "OP_LIGHTNESS_STATUS = 0x824E"
definition CTL_CLIENT_MODEL_ID :: u16 where "CTL_CLIENT_MODEL_ID = 0x1305"
definition OP_LIGHT_CTL_GET :: u32 where "OP_LIGHT_CTL_GET = 0x825D"
definition OP_LIGHT_CTL_SET :: u32 where "OP_LIGHT_CTL_SET = 0x825E"
definition OP_LIGHT_CTL_STATUS :: u32 where "OP_LIGHT_CTL_STATUS = 0x8260"
definition HSL_CLIENT_MODEL_ID :: u16 where "HSL_CLIENT_MODEL_ID = 0x1309"
definition OP_LIGHT_HSL_GET :: u32 where "OP_LIGHT_HSL_GET = 0x826D"
definition OP_LIGHT_HSL_SET :: u32 where "OP_LIGHT_HSL_SET = 0x8276"
definition OP_LIGHT_HSL_STATUS :: u32 where "OP_LIGHT_HSL_STATUS = 0x8278"
definition TIME_CLIENT_MODEL_ID :: u16 where "TIME_CLIENT_MODEL_ID = 0x1202"
definition OP_TIME_GET :: u32 where "OP_TIME_GET = 0x8237"
definition OP_TIME_SET :: u32 where "OP_TIME_SET = 0x5C"
definition OP_TIME_STATUS :: u32 where "OP_TIME_STATUS = 0x5D"

lemmas model_ops = OP_GENERIC_ONOFF_GET_def OP_GENERIC_ONOFF_SET_def OP_GENERIC_ONOFF_STATUS_def
  OP_LEVEL_GET_def OP_LEVEL_SET_def OP_LEVEL_STATUS_def OP_LIGHTNESS_GET_def OP_LIGHTNESS_SET_def
  OP_LIGHTNESS_STATUS_def OP_LIGHT_CTL_GET_def OP_LIGHT_CTL_SET_def OP_LIGHT_CTL_STATUS_def
  OP_LIGHT_HSL_GET_def OP_LIGHT_HSL_SET_def OP_LIGHT_HSL_STATUS_def OP_TIME_GET_def OP_TIME_SET_def
  OP_TIME_STATUS_def OP_UNRELIABLE_def

section \<open>Numbers in the text of a command\<close>

text \<open>
  \<^verbatim>\<open>strtol\<close> in base 16 and \<^verbatim>\<open>sscanf\<close> with \<^verbatim>\<open>%x\<close> and \<^verbatim>\<open>%d\<close>: white space, a sign, for base 16
  the prefix \<^verbatim>\<open>0x\<close>, then the longest run of digits; a value out of the range of a
  64-bit \<^verbatim>\<open>long\<close> is clamped, and what is stored in a 32-bit variable are the low bits.
  \<^verbatim>\<open>strtol\<close> takes the prefix only when a digit follows it, \<^verbatim>\<open>sscanf\<close> fails without one.
\<close>

definition scan_sign :: "string \<Rightarrow> bool \<times> string" where
  "scan_sign s = (case s of [] \<Rightarrow> (False, s)
     | c # cs \<Rightarrow> if c = CHR ''-'' then (True, cs) else if c = CHR ''+'' then (False, cs) else (False, s))"

definition has_0x :: "string \<Rightarrow> bool" where
  "has_0x s \<longleftrightarrow> take 2 s = ''0x'' \<or> take 2 s = ''0X''"

definition is_digit :: "nat \<Rightarrow> char \<Rightarrow> bool" where
  "is_digit b c \<longleftrightarrow> (case hexval c of None \<Rightarrow> False | Some d \<Rightarrow> d < b)"

definition digit_run :: "nat \<Rightarrow> string \<Rightarrow> string" where
  "digit_run b s = takeWhile (is_digit b) s"

definition digits_value :: "int \<Rightarrow> string \<Rightarrow> int" where
  "digits_value b ds = foldl (\<lambda>v c. b * v + (case hexval c of None \<Rightarrow> 0 | Some d \<Rightarrow> int d)) 0 ds"

definition to_long :: "bool \<Rightarrow> int \<Rightarrow> int" where
  "to_long neg m = (if neg then max (- (2 ^ 63)) (- m) else min (2 ^ 63 - 1) m)"

definition to_ulong :: "bool \<Rightarrow> int \<Rightarrow> int" where
  "to_ulong neg m = (if m \<ge> 2 ^ 64 then 2 ^ 64 - 1 else if neg then - m else m)"

text \<open>The value and the number of characters used.\<close>

definition strtol16 :: "string \<Rightarrow> int \<times> nat" where
  "strtol16 s =
     (let (neg, t) = scan_sign (dropWhile is_space s);
          u = (if has_0x t \<and> digit_run 16 (drop 2 t) \<noteq> [] then drop 2 t else t);
          ds = digit_run 16 u
      in if ds = [] then (0, 0)
         else (to_long neg (digits_value 16 ds), length s - (length u - length ds)))"

definition sscanf_x :: "string \<Rightarrow> u32 option" where
  "sscanf_x s =
     (let (neg, t) = scan_sign (dropWhile is_space s);
          ds = digit_run 16 (if has_0x t then drop 2 t else t)
      in if ds = [] then None else Some (of_int (to_ulong neg (digits_value 16 ds))))"

definition sscanf_d :: "string \<Rightarrow> u32 option" where
  "sscanf_d s =
     (let (neg, t) = scan_sign (dropWhile is_space s); ds = digit_run 10 t
      in if ds = [] then None else Some (of_int (to_long neg (digits_value 10 ds))))"

text \<open>In the time client the statement that would convert the argument is \<^verbatim>\<open>parms[i];\<close>.\<close>

definition scan_nothing :: "string \<Rightarrow> u32 option" where
  "scan_nothing s = None"

fun read_loop :: "(string \<Rightarrow> u32 option) \<Rightarrow> string list \<Rightarrow> nat \<Rightarrow> u32 list \<Rightarrow> u32 list \<times> nat" where
  "read_loop scan [] i ps = (ps, i)"
| "read_loop scan (a # as) i ps =
     (if i \<ge> 8 then (ps, i)
      else let ps1 = (case scan a of None \<Rightarrow> ps | Some v \<Rightarrow> ps[i := v])
           in if ps1 ! i = 0xffffffff then (ps1, i) else read_loop scan as (i + 1) ps1)"

definition read_input_parameters :: "(string \<Rightarrow> u32 option) \<Rightarrow> string list \<Rightarrow> u32 list \<Rightarrow> u32 list \<times> nat" where
  "read_input_parameters scan argv ps =
     (case argv of [] \<Rightarrow> (ps, 0)
      | _ # as \<Rightarrow>
          if as = [] \<or> hd as = [] then (ps, 0)
          else read_loop scan as 0 (replicate 8 0xffffffff))"

section \<open>What the clients share\<close>

definition client_bind :: "model_cb \<Rightarrow> u16 \<Rightarrow> nat \<Rightarrow> 'a cworld_scheme \<Rightarrow> 'a cworld_scheme \<times> int" where
  "client_bind cb app_idx action w =
     (let cur = c_app_idx (clients w cb) in
      if action = ACTION_ADD then
        (if cur \<noteq> APP_IDX_INVALID then (w, MESH_STATUS_INSUFF_RESOURCES)
         else (upd_client cb (\<lambda>c. c\<lparr>c_app_idx := app_idx\<rparr>) w, 0))
      else (if cur = app_idx then upd_client cb (\<lambda>c. c\<lparr>c_app_idx := APP_IDX_INVALID\<rparr>) w else w, 0))"

text \<open>Hours, minutes, seconds and milliseconds.\<close>

definition remaining_time :: "u8 \<Rightarrow> int \<times> int \<times> int \<times> int" where
  "remaining_time t =
     (let step = drop_bit 6 (t AND 0xc0); count = uint (t AND 0x3f) in
      if step = 0 then
        let msecs = 100 * count; secs = msecs div 1000 in (0, 0, secs, msecs - secs * 1000)
      else if step = 1 then
        let secs = count; minutes = secs div 60 in (0, minutes, secs - minutes * 60, 0)
      else if step = 2 then
        let secs = 10 * count; minutes = secs div 60 in (0, minutes, secs - minutes * 60, 0)
      else if step = 3 then
        let minutes = 10 * count; hours = minutes div 60 in (hours, minutes - hours * 60, 0, 0)
      else (0, 0, 0, 0))"

record shown_status =
  present :: bool
  transition :: "(bool \<times> int \<times> int \<times> int \<times> int) option"

definition status_recvd :: "u32 \<Rightarrow> bytes \<Rightarrow> bool \<times> shown_status option" where
  "status_recvd status_op msg =
     (case mesh_opcode_get msg (length msg) of None \<Rightarrow> (False, None)
      | Some (opcode, n) \<Rightarrow>
          let data = drop n msg; len = length data in
          if opcode AND NOT OP_UNRELIABLE \<noteq> status_op then (False, None)
          else if len \<noteq> 1 \<and> len \<noteq> 3 then (True, None)
          else (True, Some \<lparr>present = (byte_at data 0 \<noteq> 0),
                 transition = (if len = 3 then Some (byte_at data 1 \<noteq> 0, remaining_time (byte_at data 2)) else None)\<rparr>))"

text \<open>\<open>quits\<close> says whether the file's commands report a status to the shell.\<close>

definition quit :: "bool \<Rightarrow> bool \<Rightarrow> bool option" where
  "quit quits ok = (if quits then Some ok else None)"

definition cmd_set_node ::
  "model_cb \<Rightarrow> bool \<Rightarrow> string list \<Rightarrow> 'a cworld_scheme \<Rightarrow> ('a cworld_scheme \<times> bool option) cres" where
  "cmd_set_node cb quits argv w =
     cguard (1 < length argv)
       (let (dst, used) = strtol16 (argv ! 1) in
        if used \<noteq> 4 then Ret (upd_client cb (\<lambda>c. c\<lparr>c_target := 0\<rparr>) w, quit quits False)
        else Ret (upd_client cb (\<lambda>c. c\<lparr>c_target := of_int dst\<rparr>) w, quit quits True))"

definition send_cmd :: "tx_env \<Rightarrow> model_cb \<Rightarrow> bytes \<Rightarrow> 'a cworld_scheme \<Rightarrow> ('a cworld_scheme \<times> bool) cres" where
  "send_cmd E cb buf w =
     (case local_node w of None \<Rightarrow> Ret (w, False)
      | Some r \<Rightarrow>
          (case node_at w r of None \<Rightarrow> Fault
           | Some n \<Rightarrow>
               net_access_layer_send E (node_get_default_ttl w (Some r)) (primary n)
                 (c_target (clients w cb)) (c_app_idx (clients w cb)) buf w))"

text \<open>The tests every command starts with: a destination is set and its node known.\<close>

definition with_target ::
  "model_cb \<Rightarrow> bool \<Rightarrow> 'a cworld_scheme \<Rightarrow> ('a cworld_scheme \<times> bool option) cres \<Rightarrow> ('a cworld_scheme \<times> bool option) cres" where
  "with_target cb quits w k =
     (let t = c_target (clients w cb) in
      if IS_UNASSIGNED t then Ret (w, quit quits False)
      else if node_find_by_addr w (ucast t) = None then Ret (w, None)
      else k)"

definition cmd_get_status ::
  "tx_env \<Rightarrow> model_cb \<Rightarrow> bool \<Rightarrow> u32 \<Rightarrow> 'a cworld_scheme \<Rightarrow> ('a cworld_scheme \<times> bool option) cres" where
  "cmd_get_status E cb quits opcode w =
     with_target cb quits w
       (cbind (send_cmd E cb (mesh_opcode_set opcode) w) (\<lambda>(w1, ok). Ret (w1, quit quits ok)))"

text \<open>
  A set command: the parameters as the command leaves them, the transaction number
  in the message, and the number stepped on before the message is sent.
\<close>

definition send_set ::
  "tx_env \<Rightarrow> model_cb \<Rightarrow> bool \<Rightarrow> u32 list \<Rightarrow> (u8 \<Rightarrow> bytes) \<Rightarrow> 'a cworld_scheme \<Rightarrow> ('a cworld_scheme \<times> bool option) cres" where
  "send_set E cb quits ps mk w =
     (let tid = c_trans_id (clients w cb);
          w1 = upd_client cb (\<lambda>c. c\<lparr>c_parms := ps, c_trans_id := tid + 1\<rparr>) w
      in cbind (send_cmd E cb (mk tid) w1) (\<lambda>(w2, ok). Ret (w2, quit quits ok)))"

text \<open>The first octets of a 32-bit variable in memory, on a little-endian machine.\<close>

definition oct0 :: "u32 \<Rightarrow> u8" where "oct0 v = ucast v"
definition oct1 :: "u32 \<Rightarrow> u8" where "oct1 v = ucast (drop_bit 8 v)"

definition client_ops :: "model_cb \<Rightarrow> mesh_model_ops" where
  "client_ops cb = \<lparr>op_recv = Some cb, op_bind = Some cb, op_pub = None\<rparr>"

section \<open>The On/Off client\<close>

definition onoff_client_bind where "onoff_client_bind = client_bind Onoff_client"
definition onoff_client_msg_recvd where "onoff_client_msg_recvd = status_recvd OP_GENERIC_ONOFF_STATUS"
definition onoff_cmd_set_node where "onoff_cmd_set_node = cmd_set_node Onoff_client True"
definition onoff_cmd_get_status where "onoff_cmd_get_status E = cmd_get_status E Onoff_client True OP_GENERIC_ONOFF_GET"

definition onoff_cmd_set :: "tx_env \<Rightarrow> string list \<Rightarrow> 'a cworld_scheme \<Rightarrow> ('a cworld_scheme \<times> bool option) cres" where
  "onoff_cmd_set E argv w =
     with_target Onoff_client True w
       (let (ps, n) = read_input_parameters sscanf_x argv (c_parms (clients w Onoff_client)) in
        if n \<noteq> 1 \<and> ps ! 0 \<noteq> 0 \<and> ps ! 0 \<noteq> 1 then
          Ret (upd_client Onoff_client (\<lambda>c. c\<lparr>c_parms := ps\<rparr>) w, Some False)
        else send_set E Onoff_client True ps
          (\<lambda>tid. mesh_opcode_set OP_GENERIC_ONOFF_SET @ [oct0 (ps ! 0), tid]) w)"

definition onoff_client_init :: "u8 \<Rightarrow> 'a cworld_scheme \<Rightarrow> 'a cworld_scheme \<times> bool" where
  "onoff_client_init ele w = node_local_model_register ele GENERIC_ONOFF_CLIENT_MODEL_ID (client_ops Onoff_client) w"

section \<open>The Level client\<close>

definition level_client_bind where "level_client_bind = client_bind Level_client"
definition level_client_msg_recvd where "level_client_msg_recvd = status_recvd OP_LEVEL_STATUS"
definition level_cmd_set_node where "level_cmd_set_node = cmd_set_node Level_client True"
definition level_cmd_get_status where "level_cmd_get_status E = cmd_get_status E Level_client True OP_LEVEL_GET"

text \<open>
  The message of the Level and Lightness clients. \<open>ps\<close> are the parameters before the
  third, the delay in milliseconds, is divided by five.
\<close>

definition level_message :: "u32 \<Rightarrow> u32 list \<Rightarrow> u8 \<Rightarrow> bytes" where
  "level_message opcode ps tid =
     mesh_opcode_set opcode @ [oct0 (ps ! 0), oct1 (ps ! 0), tid, oct0 (ps ! 1), oct0 (ps ! 2 div 5)]"

definition level_cmd_set :: "tx_env \<Rightarrow> string list \<Rightarrow> 'a cworld_scheme \<Rightarrow> ('a cworld_scheme \<times> bool option) cres" where
  "level_cmd_set E argv w =
     with_target Level_client True w
       (let (ps, n) = read_input_parameters sscanf_d argv (c_parms (clients w Level_client)) in
        if n \<noteq> 1 \<and> ps ! 0 < 0 \<and> ps ! 0 > 100 then
          Ret (upd_client Level_client (\<lambda>c. c\<lparr>c_parms := ps\<rparr>) w, Some False)
        else send_set E Level_client True (ps[2 := ps ! 2 div 5]) (level_message OP_LEVEL_SET ps) w)"

definition level_client_init :: "u8 \<Rightarrow> 'a cworld_scheme \<Rightarrow> 'a cworld_scheme \<times> bool" where
  "level_client_init ele w = node_local_model_register ele LEVEL_CLIENT_MODEL_ID (client_ops Level_client) w"

section \<open>The Lightness client\<close>

definition lightness_client_bind where "lightness_client_bind = client_bind Lightness_client"
definition lightness_client_msg_recvd where "lightness_client_msg_recvd = status_recvd OP_LIGHTNESS_STATUS"
definition lightness_cmd_set_node where "lightness_cmd_set_node = cmd_set_node Lightness_client True"
definition lightness_cmd_get_status where "lightness_cmd_get_status E = cmd_get_status E Lightness_client True OP_LIGHTNESS_GET"

definition lightness_cmd_set :: "tx_env \<Rightarrow> string list \<Rightarrow> 'a cworld_scheme \<Rightarrow> ('a cworld_scheme \<times> bool option) cres" where
  "lightness_cmd_set E argv w =
     with_target Lightness_client True w
       (let (ps, n) = read_input_parameters sscanf_d argv (c_parms (clients w Lightness_client)) in
        if n \<noteq> 1 \<and> ps ! 0 < 0 \<and> ps ! 0 > 100 then
          Ret (upd_client Lightness_client (\<lambda>c. c\<lparr>c_parms := ps\<rparr>) w, Some False)
        else send_set E Lightness_client True (ps[2 := ps ! 2 div 5]) (level_message OP_LIGHTNESS_SET ps) w)"

definition lightness_client_init :: "u8 \<Rightarrow> 'a cworld_scheme \<Rightarrow> 'a cworld_scheme \<times> bool" where
  "lightness_client_init ele w = node_local_model_register ele LIGHTNESS_CLIENT_MODEL_ID (client_ops Lightness_client) w"

section \<open>The CTL client\<close>

definition ctl_client_bind where "ctl_client_bind = client_bind Ctl_client"
definition ctl_client_msg_recvd where "ctl_client_msg_recvd = status_recvd OP_LIGHT_CTL_STATUS"
definition ctl_cmd_set_node where "ctl_cmd_set_node = cmd_set_node Ctl_client False"
definition ctl_cmd_get_status where "ctl_cmd_get_status E = cmd_get_status E Ctl_client False OP_LIGHT_CTL_GET"

text \<open>Lightness, temperature, a delta UV of zero, transaction, transition time, delay.\<close>

definition ctl_message :: "u32 list \<Rightarrow> u8 \<Rightarrow> bytes" where
  "ctl_message ps tid =
     mesh_opcode_set OP_LIGHT_CTL_SET @
       [oct0 (ps ! 1), oct1 (ps ! 1), oct0 (ps ! 0), oct1 (ps ! 0), oct0 0, oct1 0, tid,
        oct0 (ps ! 2), oct0 (ps ! 3 div 5)]"

definition ctl_cmd_set :: "tx_env \<Rightarrow> string list \<Rightarrow> 'a cworld_scheme \<Rightarrow> ('a cworld_scheme \<times> bool option) cres" where
  "ctl_cmd_set E argv w =
     with_target Ctl_client False w
       (let (ps, n) = read_input_parameters sscanf_d argv (c_parms (clients w Ctl_client)) in
        if n \<noteq> 1 \<and> (ps ! 0 > 20000 \<and> ps ! 0 < 800) \<and> (ps ! 1 > 100 \<and> ps ! 1 < 0) \<and>
          (ps ! 2 > 64 \<and> ps ! 2 < 0) \<and> (ps ! 3 > 1280 \<and> ps ! 3 < 0) then
          Ret (upd_client Ctl_client (\<lambda>c. c\<lparr>c_parms := ps\<rparr>) w, None)
        else send_set E Ctl_client False (ps[1 := 0, 3 := ps ! 3 div 5]) (ctl_message ps) w)"

definition ctl_client_init :: "u8 \<Rightarrow> 'a cworld_scheme \<Rightarrow> 'a cworld_scheme \<times> bool" where
  "ctl_client_init ele w = node_local_model_register ele CTL_CLIENT_MODEL_ID (client_ops Ctl_client) w"

section \<open>The HSL client\<close>

definition hsl_client_bind where "hsl_client_bind = client_bind Hsl_client"
definition hsl_client_msg_recvd where "hsl_client_msg_recvd = status_recvd OP_LIGHT_HSL_STATUS"
definition hsl_cmd_set_node where "hsl_cmd_set_node = cmd_set_node Hsl_client False"
definition hsl_cmd_get_status where "hsl_cmd_get_status E = cmd_get_status E Hsl_client False OP_LIGHT_HSL_GET"

text \<open>Third, first and second parameter, transaction, transition time, delay; also the time client's.\<close>

definition hsl_message :: "u32 \<Rightarrow> u32 list \<Rightarrow> u8 \<Rightarrow> bytes" where
  "hsl_message opcode ps tid =
     mesh_opcode_set opcode @
       [oct0 (ps ! 2), oct1 (ps ! 2), oct0 (ps ! 0), oct1 (ps ! 0), oct0 (ps ! 1), oct1 (ps ! 1), tid,
        oct0 (ps ! 3), oct0 (ps ! 4 div 5)]"

definition hsl_cmd_set :: "tx_env \<Rightarrow> string list \<Rightarrow> 'a cworld_scheme \<Rightarrow> ('a cworld_scheme \<times> bool option) cres" where
  "hsl_cmd_set E argv w =
     with_target Hsl_client False w
       (let (ps, n) = read_input_parameters sscanf_d argv (c_parms (clients w Hsl_client)) in
        if n \<noteq> 1 \<and> (ps ! 0 > 360 \<or> ps ! 0 < 0) \<and> (ps ! 1 > 100 \<or> ps ! 1 < 0) \<and> (ps ! 2 > 100 \<or> ps ! 2 < 0) then
          Ret (upd_client Hsl_client (\<lambda>c. c\<lparr>c_parms := ps\<rparr>) w, None)
        else send_set E Hsl_client False (ps[4 := ps ! 4 div 5]) (hsl_message OP_LIGHT_HSL_SET ps) w)"

definition hsl_client_init :: "u8 \<Rightarrow> 'a cworld_scheme \<Rightarrow> 'a cworld_scheme \<times> bool" where
  "hsl_client_init ele w = node_local_model_register ele HSL_CLIENT_MODEL_ID (client_ops Hsl_client) w"

section \<open>The Time client\<close>

definition time_client_bind where "time_client_bind = client_bind Time_client"
definition time_client_msg_recvd where "time_client_msg_recvd = status_recvd OP_TIME_STATUS"
definition time_cmd_set_node where "time_cmd_set_node = cmd_set_node Time_client False"
definition time_cmd_get_status where "time_cmd_get_status E = cmd_get_status E Time_client False OP_TIME_GET"

definition time_cmd_set :: "tx_env \<Rightarrow> string list \<Rightarrow> 'a cworld_scheme \<Rightarrow> ('a cworld_scheme \<times> bool option) cres" where
  "time_cmd_set E argv w =
     with_target Time_client False w
       (let (ps, n) = read_input_parameters scan_nothing argv (c_parms (clients w Time_client)) in
        if n \<noteq> 1 \<and> (ps ! 0 > 360 \<and> ps ! 0 < 0) \<and> (ps ! 1 > 100 \<and> ps ! 1 < 0) \<and> (ps ! 2 > 100 \<and> ps ! 2 < 0) then
          Ret (upd_client Time_client (\<lambda>c. c\<lparr>c_parms := ps\<rparr>) w, None)
        else send_set E Time_client False (ps[4 := ps ! 4 div 5]) (hsl_message OP_TIME_SET ps) w)"

definition time_client_init :: "u8 \<Rightarrow> 'a cworld_scheme \<Rightarrow> 'a cworld_scheme \<times> bool" where
  "time_client_init ele w = node_local_model_register ele TIME_CLIENT_MODEL_ID (client_ops Time_client) w"

text \<open>The receive callback a client registered.\<close>

definition client_recv :: "model_cb \<Rightarrow> bytes \<Rightarrow> bool" where
  "client_recv cb msg = fst ((case cb of
       Level_client \<Rightarrow> level_client_msg_recvd | Lightness_client \<Rightarrow> lightness_client_msg_recvd
     | Ctl_client \<Rightarrow> ctl_client_msg_recvd | Hsl_client \<Rightarrow> hsl_client_msg_recvd
     | Time_client \<Rightarrow> time_client_msg_recvd | _ \<Rightarrow> onoff_client_msg_recvd) msg)"

section \<open>What sending leaves alone\<close>

text \<open>Only the network layer's record and the log differ.\<close>

definition only_net :: "'a world_scheme \<Rightarrow> 'a world_scheme \<Rightarrow> bool" where
  "only_net w w' \<longleftrightarrow> (\<exists>n l. w' = w\<lparr>net := n, log := l\<rparr>)"

lemma only_netI: "only_net w (w\<lparr>net := n, log := l\<rparr>)"
  unfolding only_net_def by blast

lemma only_netE:
  assumes "only_net w w'"
  obtains n l where "w' = w\<lparr>net := n, log := l\<rparr>"
  using assms unfolding only_net_def by blast

lemma only_net_refl [simp]: "only_net w w"
  using only_netI [where w = w and n = "net w" and l = "log w"] by simp

lemma only_net_trans: "only_net w w1 \<Longrightarrow> only_net w1 w2 \<Longrightarrow> only_net w w2"
  by (erule only_netE, erule only_netE) (simp add: only_netI)

lemma only_net_upd: "only_net w w' \<Longrightarrow> only_net w (upd_net f w')" "only_net w w' \<Longrightarrow> only_net w (emit e w')"
proof -
  have "only_net w' (w'\<lparr>net := f (net w'), log := log w'\<rparr>)" by (rule only_netI)
  moreover have "only_net w' (w'\<lparr>net := net w', log := log w' @ [e]\<rparr>)" by (rule only_netI)
  ultimately show "only_net w w' \<Longrightarrow> only_net w (upd_net f w')" "only_net w w' \<Longrightarrow> only_net w (emit e w')"
    by (auto simp: upd_net_def emit_def elim: only_net_trans)
qed

lemma only_net_same:
  assumes "only_net w w'"
  shows "nodes w' = nodes w" "local_node w' = local_node w" "keys w' = keys w" "virt_addrs w' = virt_addrs w"
    "next_ref w' = next_ref w"
  using assms by (auto elim: only_netE)

lemma only_net_clients: "only_net w w' \<Longrightarrow> clients w' = clients w" for w :: "'a cworld_scheme"
  by (auto elim: only_netE)

lemma send_mesh_pkt_only_net: "only_net w w' \<Longrightarrow> only_net w (send_mesh_pkt p w')"
  by (simp add: send_mesh_pkt_def Let_def only_net_upd)

lemma get_next_seq_only_net: "get_next_seq w = (w', s) \<Longrightarrow> only_net w w'"
  by (auto simp: get_next_seq_def Let_def only_net_upd split: if_splits)

lemma send_seg_only_net: "send_seg E sar i w = Ret w' \<Longrightarrow> only_net w w'"
  by (auto simp: send_seg_def Let_def send_mesh_pkt_only_net get_next_seq_only_net
      split: option.splits prod.splits cres.splits)

lemma send_segs_only_net: "send_segs E sar is w = Ret w' \<Longrightarrow> only_net w w'"
proof (induction "is" arbitrary: w)
  case (Cons i "is")
  then show ?case by (auto simp: cbind_Ret_iff dest!: send_seg_only_net intro: only_net_trans)
qed simp

lemma net_access_layer_send_only_net:
  assumes "net_access_layer_send E ttl src dst app_idx buf w = Ret (w', b)"
  shows "only_net w w'"
proof -
  have f: "only_net (flush_out d w) v \<Longrightarrow> only_net w v" for d v
    by (rule only_net_trans [OF only_net_upd(1) [OF only_net_refl]]) (simp add: flush_out_def)
  have "access_send E t s d aad k buf w = Ret (w', b) \<Longrightarrow> only_net w w'" for t s d aad k
    by (auto simp: access_send_def Let_def cbind_Ret_iff
        dest!: send_segs_only_net dest: f intro: only_net_upd split: if_splits)
  with assms show ?thesis
    by (auto simp: net_access_layer_send_def Let_def split: if_splits option.splits)
qed

lemma send_cmd_only_net: "send_cmd E cb buf w = Ret (w', b) \<Longrightarrow> only_net w w'"
  by (auto simp: send_cmd_def split: option.splits dest: net_access_layer_send_only_net)

section \<open>Properties\<close>

text \<open>The time one unit of a transition's number of steps stands for, in milliseconds.\<close>

definition step_ms :: "nat \<Rightarrow> int" where
  "step_ms n = [100, 1000, 10000, 600000] ! n"

lemma step_bits: "unat (drop_bit 6 (t AND 0xc0)) = unat t div 64" "unat (t AND 0x3f) = unat t mod 64" for t :: u8
proof -
  have "drop_bit 6 (t AND 0xc0) = drop_bit 6 t"
  proof (rule bit_word_eqI)
    have m: "(0xc0 :: u8) = push_bit 6 (mask 2)" by (simp add: mask_eq_exp_minus_1)
    show "bit (drop_bit 6 (t AND 0xc0)) n = bit (drop_bit 6 t) n" for n
      unfolding m by (auto simp: bit_simps dest: bit_imp_le_length)
  qed
  then show "unat (drop_bit 6 (t AND 0xc0)) = unat t div 64" by (simp add: unat_drop)
  have "t AND 0x3f = t AND mask 6" by (simp add: mask_eq_exp_minus_1)
  then show "unat (t AND 0x3f) = unat t mod 64" by (simp add: unat_and_mask)
qed

lemma split_units:
  fixes x k b :: int
  assumes "0 \<le> x" "x < b * k" "0 < k"
  shows "0 \<le> x div k \<and> x div k < b \<and> 0 \<le> x - x div k * k \<and> x - x div k * k < k"
proof -
  have "\<not> b \<le> x div k"
    using mult_right_mono [of b "x div k" k] assms pos_mod_sign [OF assms(3), of x] div_mult_mod_eq [of x k] by linarith
  then show ?thesis using assms by (simp add: minus_div_mult_eq_mod pos_imp_zdiv_nonneg_iff)
qed

text \<open>
  The remaining time a status message carries is shown exactly: the hours,
  minutes, seconds and milliseconds add up to the number of steps times the
  resolution, every part is in its range, and none is negative.
\<close>

lemma remaining_time_exact:
  "case remaining_time t of (h, m, s, ms) \<Rightarrow>
     h * 3600000 + m * 60000 + s * 1000 + ms = step_ms (unat t div 64) * int (unat t mod 64) \<and>
     0 \<le> h \<and> h \<le> 10 \<and> 0 \<le> m \<and> m < 60 \<and> 0 \<le> s \<and> s < 60 \<and> 0 \<le> ms \<and> ms < 1000"
proof -
  define step where "step = drop_bit 6 (t AND 0xc0)"
  define c where "c = uint (t AND 0x3f)"
  have c: "c = int (unat t mod 64)" unfolding c_def uint_nat step_bits ..
  then have c2: "0 \<le> c" "c < 64" by simp_all
  have u: "unat step = unat t div 64" unfolding step_def step_bits ..
  moreover have "unat t div 64 < 4" using unat_u8_less [of t] by simp
  ultimately have "unat step \<in> {0, 1, 2, 3}" by auto
  moreover have "step = of_nat (unat step)" by simp
  ultimately have cases4: "step = 0 \<and> unat t div 64 = 0 \<or> step = 1 \<and> unat t div 64 = 1 \<or>
      step = 2 \<and> unat t div 64 = 2 \<or> step = 3 \<and> unat t div 64 = 3"
    using u by auto
  have r: "remaining_time t =
    (if step = 0 then (0, 0, 100 * c div 1000, 100 * c - 100 * c div 1000 * 1000)
     else if step = 1 then (0, c div 60, c - c div 60 * 60, 0)
     else if step = 2 then (0, 10 * c div 60, 10 * c - 10 * c div 60 * 60, 0)
     else if step = 3 then (10 * c div 60, 10 * c - 10 * c div 60 * 60, 0, 0) else (0, 0, 0, 0))"
    by (simp only: remaining_time_def Let_def step_def c_def)
  note s = split_units [of "100 * c" 11 1000] split_units [of c 11 60] split_units [of "10 * c" 11 60]
  from cases4 show ?thesis unfolding r c [symmetric]
    by (elim disjE conjE) (use c2 s in \<open>simp_all add: step_ms_def\<close>)
qed

lemma send_set_clients:
  assumes "send_set E cb quits ps mk w = Ret (w', q)"
  shows "clients w' = (clients w)(cb := (clients w cb)\<lparr>c_parms := ps, c_trans_id := c_trans_id (clients w cb) + 1\<rparr>)"
  using assms by (auto simp: send_set_def Let_def cbind_Ret_iff upd_client_def dest!: send_cmd_only_net only_net_clients)

text \<open>A destination is set for the client and its node is known.\<close>

definition target_known :: "model_cb \<Rightarrow> 'a cworld_scheme \<Rightarrow> bool" where
  "target_known cb w \<longleftrightarrow> c_target (clients w cb) \<noteq> 0 \<and> node_find_by_addr w (ucast (c_target (clients w cb))) \<noteq> None"

lemma with_target_known [simp]: "target_known cb w \<Longrightarrow> with_target cb quits w k = k"
  by (auto simp: with_target_def target_known_def IS_UNASSIGNED_def Let_def)

text \<open>
  The range checks of the level, lightness, CTL and time clients refuse nothing:
  whatever the arguments are, the set command goes on to send its message.
\<close>

lemma set_range_checks_refuse_nothing:
  assumes "target_known Level_client w" "target_known Lightness_client w" "target_known Ctl_client w" "target_known Time_client w"
  shows "(\<exists>ps. level_cmd_set E argv w = send_set E Level_client True (ps[2 := ps ! 2 div 5]) (level_message OP_LEVEL_SET ps) w) \<and>
    (\<exists>ps. lightness_cmd_set E argv w = send_set E Lightness_client True (ps[2 := ps ! 2 div 5]) (level_message OP_LIGHTNESS_SET ps) w) \<and>
    (\<exists>ps. ctl_cmd_set E argv w = send_set E Ctl_client False (ps[1 := 0, 3 := ps ! 3 div 5]) (ctl_message ps) w) \<and>
    (\<exists>ps. time_cmd_set E argv w = send_set E Time_client False (ps[4 := ps ! 4 div 5]) (hsl_message OP_TIME_SET ps) w)"
  using assms
  by (auto simp: level_cmd_set_def lightness_cmd_set_def ctl_cmd_set_def time_cmd_set_def case_prod_beta Let_def)

text \<open>
  The time client sends the same values whatever time it is given: its loop over
  the arguments converts none of them, so every parameter is still
  \<^verbatim>\<open>0xffffffff\<close> when the message is built.
\<close>

lemma time_set_ignores_arguments:
  assumes "target_known Time_client w" "a \<noteq> []"
  shows "time_cmd_set E (cmd # a # as) w =
    send_set E Time_client False ((replicate 8 0xffffffff)[4 := 0x33333333])
      (\<lambda>tid. [0x5c, 0xff, 0xff, 0xff, 0xff, 0xff, 0xff, tid, 0xff, 0x33]) w"
proof -
  have m: "hsl_message OP_TIME_SET (replicate 8 0xffffffff) = (\<lambda>tid. [0x5c, 0xff, 0xff, 0xff, 0xff, 0xff, 0xff, tid, 0xff, 0x33])"
    by (simp add: hsl_message_def mesh_opcode_set_def OP_TIME_SET_def oct0_def oct1_def fun_eq_iff)
  then show ?thesis using assms
    by (simp add: time_cmd_set_def read_input_parameters_def scan_nothing_def Let_def)
qed

lemma oct_le16: "be16 (oct1 v) (oct0 v) = ucast v" for v :: u32
  by (rule bit_word_eqI) (auto simp: be16_def oct0_def oct1_def bit_simps)

lemma unat_oct0: "unat (oct0 v) = unat v mod 256"
  by (simp add: oct0_def unat_ucast_mod)

lemma set_opcodes:
  assumes "opcode \<in> {OP_LEVEL_SET, OP_LIGHTNESS_SET, OP_LIGHT_CTL_SET, OP_LIGHT_HSL_SET}"
  shows "length (mesh_opcode_set opcode) = 2"
    "mesh_opcode_get (mesh_opcode_set opcode @ d) (length (mesh_opcode_set opcode @ d)) = Some (opcode, 2)"
proof -
  show l: "length (mesh_opcode_set opcode) = 2"
    using assms by (auto simp: mesh_opcode_set_length model_ops)
  have "opcode_valid opcode" using assms by (auto simp: opcode_valid_def model_ops)
  from mesh_opcode_get_set [OF this, of "length (mesh_opcode_set opcode @ d)" d] l
  show "mesh_opcode_get (mesh_opcode_set opcode @ d) (length (mesh_opcode_set opcode @ d)) = Some (opcode, 2)" by simp
qed

text \<open>
  The set messages carry what the command was given: the opcode reads back, the
  16-bit values are little endian, the transaction number and the transition
  time follow, and the delay is counted in steps of five milliseconds. The last octet
  holds the delay only below 1280 ms.
\<close>

lemma set_messages_decode:
  assumes "ps ! 0 < 0x10000" "ps ! 1 < 0x100" "ps ! 2 < 1280" "opcode \<in> {OP_LEVEL_SET, OP_LIGHTNESS_SET}"
    and "msg = level_message opcode ps tid"
  shows "mesh_opcode_get msg (length msg) = Some (opcode, 2) \<and> unat (get_le16 msg 2) = unat (ps ! 0) \<and>
    byte_at msg 4 = tid \<and> unat (byte_at msg 5) = unat (ps ! 1) \<and> unat (byte_at msg 6) = unat (ps ! 2) div 5"
proof -
  have op: "opcode \<in> {OP_LEVEL_SET, OP_LIGHTNESS_SET, OP_LIGHT_CTL_SET, OP_LIGHT_HSL_SET}" using assms(4) by auto
  note l = set_opcodes [OF op]
  have b: "unat (ps ! 0) < 65536" "unat (ps ! 1) < 256" "unat (ps ! 2) < 1280"
    using assms(1-3) by (simp_all add: word_less_nat_alt)
  have d: "unat (oct0 (ps ! 2 div 5)) = unat (ps ! 2) div 5" using b(3) by (simp add: unat_oct0 unat_div)
  have m: "msg = mesh_opcode_set opcode @ [oct0 (ps ! 0), oct1 (ps ! 0), tid, oct0 (ps ! 1), oct0 (ps ! 2 div 5)]"
    by (simp add: assms(5) level_message_def)
  have "get_le16 msg 2 = ucast (ps ! 0)"
    unfolding m get_le16_def by (simp add: byte_at_def nth_append l(1) oct_le16)
  moreover have "byte_at msg 4 = tid" "byte_at msg 5 = oct0 (ps ! 1)" "byte_at msg 6 = oct0 (ps ! 2 div 5)"
    unfolding m by (simp_all add: byte_at_def nth_append l(1))
  moreover have "mesh_opcode_get msg (length msg) = Some (opcode, 2)" unfolding m by (rule l(2))
  ultimately show ?thesis using b d by (simp add: unat_oct0 unat_ucast_mod)
qed


subsection \<open>The text of a command\<close>

text \<open>The text \<^verbatim>\<open>%x\<close> and \<^verbatim>\<open>%d\<close> print for a number that is not negative.\<close>

function num_text :: "nat \<Rightarrow> nat \<Rightarrow> string" where
  "num_text b n = (if n < b \<or> b < 2 then [hexdigit (n mod 16)] else num_text b (n div b) @ [hexdigit (n mod b)])"
  by pat_completeness auto
termination by (relation "measure snd") (auto intro: div_less_dividend)

declare num_text.simps [simp del]

lemma num_text_digits:
  assumes "2 \<le> b" "b \<le> 16"
  shows "num_text b n \<noteq> [] \<and> set (num_text b n) \<subseteq> hexdigit ` {..<b} \<and> digits_value (int b) (num_text b n) = int n"
  using assms
proof (induction b n rule: num_text.induct)
  case (1 b n)
  show ?case
  proof (cases "n < b")
    case True
    then show ?thesis using 1(2,3) hexdigit_props [of n] by (auto simp: num_text.simps [of b n] digits_value_def)
  next
    case False
    then have "num_text b n = num_text b (n div b) @ [hexdigit (n mod b)]" using 1(2) by (simp add: num_text.simps [of b n])
    moreover have "hexval (hexdigit (n mod b)) = Some (n mod b)" "n mod b < b" using 1(2,3) hexdigit_props [of "n mod b"]
      by (simp_all add: less_le_trans [OF mod_less_divisor])
    moreover have "int b * int (n div b) + int (n mod b) = int n"
      by (metis mult_div_mod_eq of_nat_add of_nat_mult)
    ultimately show ?thesis using 1 False by (auto simp: digits_value_def)
  qed
qed

lemma num_text_scan:
  assumes "b = 10 \<or> b = 16" "s = num_text b n"
  shows "scan_sign (dropWhile is_space s) = (False, s)" "\<not> has_0x s" "digit_run b s = s" "s \<noteq> []"
proof -
  from assms(1) have b: "2 \<le> b" "b \<le> 16" by auto
  note d = num_text_digits [OF b, of n, folded assms(2)]
  from d show ne: "s \<noteq> []" by blast
  have each: "is_digit b c \<and> \<not> is_space c \<and> c \<noteq> CHR ''-'' \<and> c \<noteq> CHR ''+'' \<and> c \<noteq> CHR ''x'' \<and> c \<noteq> CHR ''X''"
    if "c \<in> set s" for c
  proof -
    from that d obtain k where k: "c = hexdigit k" "k < b" by auto
    then have "hexval c = Some k" using b hexdigit_props [of k] by simp
    moreover have "hexval (CHR ''x'') = None" "hexval (CHR ''X'') = None" by (simp_all add: hexval_def)
    ultimately show ?thesis using k b hexdigit_props [of k] by (auto simp: is_digit_def)
  qed
  obtain c cs where s: "s = c # cs" using ne by (cases s) auto
  show "scan_sign (dropWhile is_space s) = (False, s)" using each [of c] by (simp add: s scan_sign_def)
  show "\<not> has_0x s" using each by (cases cs) (auto simp: has_0x_def s)
  show "digit_run b s = s" using each by (simp add: digit_run_def takeWhile_eq_all_conv)
qed

lemma sscanf_num_text:
  "sscanf_x (num_text 16 (unat v)) = Some v" "sscanf_d (num_text 10 (unat v)) = Some v" for v :: u32
proof -
  have u: "uint v < 4294967296" using unsigned_less [of v, where 'a = int] by simp
  have "digits_value 16 (num_text 16 (unat v)) = int (unat v)" "digits_value 10 (num_text 10 (unat v)) = int (unat v)"
    using num_text_digits [of 16 "unat v"] num_text_digits [of 10 "unat v"] by simp_all
  then show "sscanf_x (num_text 16 (unat v)) = Some v" "sscanf_d (num_text 10 (unat v)) = Some v"
    using u num_text_scan [OF _ refl, of 16 "unat v"] num_text_scan [OF _ refl, of 10 "unat v"]
    by (simp_all add: sscanf_x_def sscanf_d_def Let_def to_ulong_def to_long_def)
qed

lemma read_loop_scanned:
  assumes "\<And>v. v \<in> set vs \<Longrightarrow> scan (f v) = Some v" "length pre + length vs \<le> 8" "0xffffffff \<notin> set vs"
  shows "read_loop scan (map f vs) (length pre) (pre @ replicate (8 - length pre) 0xffffffff) =
    (pre @ vs @ replicate (8 - length pre - length vs) 0xffffffff, length pre + length vs)"
  using assms
proof (induction vs arbitrary: pre)
  case (Cons v vs)
  have r: "replicate (8 - length pre) (0xffffffff :: u32) = 0xffffffff # replicate (7 - length pre) 0xffffffff"
    using Cons.prems(2) by (cases "8 - length pre") (auto simp: replicate_Suc [symmetric] simp del: replicate_Suc)
  have "read_loop scan (map f vs) (length (pre @ [v])) ((pre @ [v]) @ replicate (8 - length (pre @ [v])) 0xffffffff) =
    ((pre @ [v]) @ vs @ replicate (8 - length (pre @ [v]) - length vs) 0xffffffff, length (pre @ [v]) + length vs)"
    by (rule Cons.IH) (use Cons.prems in auto)
  then show ?case using Cons.prems r by (auto simp: list_update_append nth_append)
qed simp

text \<open>
  Arguments read back: the numbers of a command line, printed in hexadecimal (in
  decimal for the clients that read decimal numbers), are the parameters the command
  works with, and their number is what it returns. It holds for up to eight numbers
  other than \<^verbatim>\<open>0xffffffff\<close>, which the code takes for the end of the arguments.
\<close>

lemma arguments_read_back:
  assumes "vs \<noteq> []" "length vs \<le> 8" "0xffffffff \<notin> set vs"
  shows "read_input_parameters sscanf_x (cmd # map (num_text 16 \<circ> unat) vs) ps =
      (vs @ replicate (8 - length vs) 0xffffffff, length vs) \<and>
    read_input_parameters sscanf_d (cmd # map (num_text 10 \<circ> unat) vs) ps =
      (vs @ replicate (8 - length vs) 0xffffffff, length vs)"
proof -
  have ne: "num_text b n \<noteq> []" if "b = 10 \<or> b = 16" for b n using num_text_scan(4) [OF that refl] .
  have h: "hd (map f vs) = f (hd vs)" for f :: "u32 \<Rightarrow> string" using assms(1) by (cases vs) auto
  show ?thesis
    using assms ne read_loop_scanned [of vs sscanf_x "num_text 16 \<circ> unat" "[]"] read_loop_scanned [of vs sscanf_d "num_text 10 \<circ> unat" "[]"]
    by (simp add: read_input_parameters_def sscanf_num_text h)
qed


subsection \<open>Binding an application key\<close>

lemma upd_client_same [simp]:
  "nodes (upd_client cb f w) = nodes w" "local_node (upd_client cb f w) = local_node w" "net (upd_client cb f w) = net w"
  "log (upd_client cb f w) = log w" "keys (upd_client cb f w) = keys w" "virt_addrs (upd_client cb f w) = virt_addrs w"
  "next_ref (upd_client cb f w) = next_ref w"
  by (simp_all add: upd_client_def)

lemma client_bind_same [simp]:
  "nodes (fst (client_bind cb i a w)) = nodes w" "local_node (fst (client_bind cb i a w)) = local_node w"
  by (simp_all add: client_bind_def Let_def)

lemma clients_upd_node [simp]: "clients (upd_node r f w) = clients w"
  by (simp add: upd_node_def)

text \<open>
  The first two application keys bound to a client model of the local node: the
  client takes the first and refuses the second, while the node, which reads the status
  the other way round, reports a failure for the first and records only the
  second. The client then sends with a key that its model is not bound to, and is
  given the messages of a key it refused.
\<close>

lemma binding_recorded_inverted:
  assumes "local_node w = Some r" "get_model w (Some r) ele i = Some m" "op_bind (cbs m) = Some cb"
    and "c_app_idx (clients w cb) = APP_IDX_INVALID" "a \<noteq> APP_IDX_INVALID" "a \<notin> set (bindings m)" "b \<notin> set (bindings m)"
    and "node_add_binding client_bind (Some r) ele i a w = (w1, ok1)"
    and "node_add_binding client_bind (Some r) ele i b w1 = (w2, ok2)"
  shows "\<not> ok1 \<and> ok2 \<and> c_app_idx (clients w2 cb) = a \<and>
    (\<exists>m2. get_model w2 (Some r) ele i = Some m2 \<and> bindings m2 = bindings m @ [b])"
proof -
  have w1: "w1 = upd_client cb (\<lambda>c. c\<lparr>c_app_idx := a\<rparr>) w" and ok1: "\<not> ok1"
    using assms(1-6,8) by (auto simp: node_add_binding_def client_bind_def ACTION_ADD_def Let_def)
  have c1: "c_app_idx (clients w1 cb) = a" by (simp add: w1 upd_client_def)
  have m1: "get_model w1 (Some r) ele i = Some m" using assms(2) by (simp add: w1 get_model_def node_at_def)
  have s1: "snd (client_bind cb b 1 w1) \<noteq> 0" and same: "fst (client_bind cb b 1 w1) = w1"
    using c1 assms(5) by (simp_all add: client_bind_def ACTION_ADD_def MESH_STATUS_INSUFF_RESOURCES_def)
  have "local_node w1 = Some r" using assms(1) by (simp add: w1)
  then have "clients w2 = clients w1" using assms(3,7,9) m1 s1 same
    by (auto simp: node_add_binding_def Let_def case_prod_beta)
  moreover from node_add_binding_status [OF m1 assms(7,9)] s1 assms(3)
  have "ok2 \<and> get_model w2 (Some r) ele i = Some (m\<lparr>bindings := bindings m @ [b]\<rparr>)" by auto
  ultimately show ?thesis using ok1 c1 by simp
qed

subsection \<open>Each client keeps its own variables\<close>

definition set_step :: "model_cb \<Rightarrow> 'a cworld_scheme \<Rightarrow> 'a cworld_scheme \<Rightarrow> bool" where
  "set_step cb w w' \<longleftrightarrow> (\<forall>k. k \<noteq> cb \<longrightarrow> clients w' k = clients w k) \<and>
     c_target (clients w' cb) = c_target (clients w cb) \<and> c_app_idx (clients w' cb) = c_app_idx (clients w cb) \<and>
     c_trans_id (clients w' cb) \<in> {c_trans_id (clients w cb), c_trans_id (clients w cb) + 1} \<and>
     nodes w' = nodes w \<and> keys w' = keys w \<and>
     (log w' \<noteq> log w \<longrightarrow> c_trans_id (clients w' cb) = c_trans_id (clients w cb) + 1)"

lemma send_set_step:
  assumes "send_set E cb quits ps mk w = Ret (w', q)"
  shows "set_step cb w w'"
proof -
  from assms obtain w1 b where "send_cmd E cb (mk (c_trans_id (clients w cb)))
      (upd_client cb (\<lambda>c. c\<lparr>c_parms := ps, c_trans_id := c_trans_id (clients w cb) + 1\<rparr>) w) = Ret (w1, b)" "w1 = w'"
    by (auto simp: send_set_def Let_def cbind_Ret_iff)
  then have "nodes w' = nodes w" "keys w' = keys w" using only_net_same [OF send_cmd_only_net] by fastforce+
  then show ?thesis using send_set_clients [OF assms] by (simp add: set_step_def)
qed

lemma set_step_refl: "set_step cb w w" "set_step cb w (upd_client cb (\<lambda>c. c\<lparr>c_parms := ps\<rparr>) w)"
  by (simp_all add: set_step_def upd_client_def)

lemma with_target_step:
  assumes "with_target cb quits w k = Ret (w', q)" "k = Ret (w', q) \<Longrightarrow> set_step cb w w'"
  shows "set_step cb w w'"
  using assms by (auto simp: with_target_def Let_def set_step_refl split: if_splits)

text \<open>
  A set command changes only its own client's parameters and transaction
  number; nothing is written to the network without a step of the number, so that
  two messages of a client carry the same number only 256 messages apart.
\<close>

lemma set_commands_independent:
  "(onoff_cmd_set E argv w = Ret (w', q) \<longrightarrow> set_step Onoff_client w w') \<and>
   (level_cmd_set E argv w = Ret (w', q) \<longrightarrow> set_step Level_client w w') \<and>
   (lightness_cmd_set E argv w = Ret (w', q) \<longrightarrow> set_step Lightness_client w w') \<and>
   (ctl_cmd_set E argv w = Ret (w', q) \<longrightarrow> set_step Ctl_client w w') \<and>
   (hsl_cmd_set E argv w = Ret (w', q) \<longrightarrow> set_step Hsl_client w w') \<and>
   (time_cmd_set E argv w = Ret (w', q) \<longrightarrow> set_step Time_client w w')"
  unfolding onoff_cmd_set_def level_cmd_set_def lightness_cmd_set_def ctl_cmd_set_def hsl_cmd_set_def time_cmd_set_def
  by (intro conjI impI; erule with_target_step;
      auto simp: Let_def case_prod_beta set_step_refl send_set_step split: if_splits)


subsection \<open>Witnesses\<close>

text \<open>The world of \<open>demo_world\<close>, with address 5 as the destination of every client.\<close>

definition demo_cworld :: cworld where
  "demo_cworld = \<lparr>net = net demo_world, keys = keys demo_world, virt_addrs = [], nodes = nodes demo_world, next_ref = 3,
     local_node = Some 1, log = [], pending_request = no_request, prov_sec_level = 0,
     clients = (\<lambda>_. client_start\<lparr>c_target := 5\<rparr>)\<rparr>"

lemma demo_cworld_same:
  "nodes demo_cworld = nodes demo_world" "local_node demo_cworld = Some 1" "net demo_cworld = net demo_world"
  "keys demo_cworld = keys demo_world" "clients demo_cworld cb = client_start\<lparr>c_target := 5\<rparr>"
  by (simp_all add: demo_cworld_def)

lemma demo_target_known: "target_known cb demo_cworld"
  by (simp add: target_known_def demo_cworld_same demo_simps)

lemma set_range_checks_refuse_nothing_witness:
  "\<exists>ps. level_cmd_set E [''level'', ''1000''] demo_cworld =
     send_set E Level_client True (ps[2 := ps ! 2 div 5]) (level_message OP_LEVEL_SET ps) demo_cworld"
  using set_range_checks_refuse_nothing [OF demo_target_known demo_target_known demo_target_known demo_target_known, of E "[''level'', ''1000'']"]
  by blast

lemma time_set_ignores_arguments_witness:
  "time_cmd_set E [''time'', ''17''] demo_cworld = time_cmd_set E [''time'', ''99''] demo_cworld"
  using time_set_ignores_arguments [OF demo_target_known, of "''17''" E "''time''" "[]"]
    time_set_ignores_arguments [OF demo_target_known, of "''99''" E "''time''" "[]"] by simp

lemma set_messages_decode_witness:
  "unat (byte_at (level_message OP_LEVEL_SET [50, 7, 1000] 3) 6) = 200"
  using set_messages_decode [of "[50, 7, 1000]" OP_LEVEL_SET _ 3, OF _ _ _ _ refl] by simp

text \<open>The largest delay the command's help text names is sent as zero.\<close>

lemma delay_1280_wraps: "byte_at (level_message OP_LEVEL_SET [50, 7, 1280] 3) 6 = 0"
  by (simp add: level_message_def OP_LEVEL_SET_def mesh_opcode_set_def byte_at_def oct0_def)

lemma arguments_read_back_witness:
  "read_input_parameters sscanf_d [''level'', ''50'', ''7''] (replicate 8 0) =
     ([50, 7] @ replicate 6 0xffffffff, 2)"
proof -
  have "num_text 10 50 = ''50''" "num_text 10 7 = ''7''" by (simp_all add: num_text.simps hexdigit_def)
  then show ?thesis using arguments_read_back [of "[50, 7]" "''level''" "replicate 8 0"] by simp
qed

lemma binding_recorded_inverted_witness:
  "c_app_idx (clients (fst (node_add_binding client_bind (Some 1) 0 0xffff1001 4
      (fst (node_add_binding client_bind (Some 1) 0 0xffff1001 3 demo_cworld)))) Onoff_client) = 3"
proof -
  have "\<exists>m. get_model demo_cworld (Some 1) 0 0xffff1001 = Some m \<and> (3 :: u16) \<notin> set (bindings m) \<and> 4 \<notin> set (bindings m) \<and>
      op_bind (cbs m) = Some Onoff_client"
    by (simp add: get_model_def find_element_def find_model_def demo_simps demo_cworld_same)
  then obtain m where m: "get_model demo_cworld (Some 1) 0 0xffff1001 = Some m" "3 \<notin> set (bindings m)" "4 \<notin> set (bindings m)"
    "op_bind (cbs m) = Some Onoff_client" by blast
  show ?thesis
    using binding_recorded_inverted [OF _ m(1,4) _ _ m(2,3) prod.collapse [symmetric] prod.collapse [symmetric]]
    by (simp add: demo_cworld_same client_start_def APP_IDX_INVALID_def)
qed

lemma demo_send_fails:
  assumes "nodes w = nodes demo_world" "local_node w = Some 1" "keys w = keys demo_world" "c_app_idx (clients w cb) = APP_IDX_INVALID"
    and "length buf \<le> 384" "c_target (clients w cb) = 5"
  shows "send_cmd E cb buf w = Ret (w, False)"
  using assms by (simp add: send_cmd_def net_access_layer_send_def access_target_def get_enc_keys_def demo_simps
      no_keys_def find_app_key_by_idx_def APP_IDX_INVALID_def APP_IDX_DEV_def IS_VIRTUAL_def Let_def)

lemma set_commands_independent_witness:
  "\<exists>w'. level_cmd_set demo_env [''level'', ''50''] demo_cworld = Ret (w', Some False) \<and>
     clients w' Onoff_client = clients demo_cworld Onoff_client"
proof -
  obtain ps where "level_cmd_set demo_env [''level'', ''50''] demo_cworld =
      send_set demo_env Level_client True (ps[2 := ps ! 2 div 5]) (level_message OP_LEVEL_SET ps) demo_cworld"
    using demo_target_known [of Level_client] by (auto simp: level_cmd_set_def case_prod_beta Let_def)
  moreover have "length (level_message OP_LEVEL_SET ps t) \<le> 384" for ps t
    by (simp add: level_message_def mesh_opcode_set_length)
  ultimately obtain w' where w': "level_cmd_set demo_env [''level'', ''50''] demo_cworld = Ret (w', Some False)"
    using demo_send_fails [of "upd_client Level_client f demo_cworld" Level_client for f]
    by (simp add: send_set_def Let_def demo_send_fails demo_cworld_same upd_client_def quit_def client_start_def)
  then show ?thesis using set_commands_independent [of demo_env "[''level'', ''50'']" demo_cworld w' "Some False"]
    by (simp add: set_step_def)
qed

end
