(* ===== verification/Mesh_Config.thy ===== *)
theory Mesh_Config
  imports Mesh_Models
begin

text \<open>
  The configuration models: \<^verbatim>\<open>mesh/config-client.c\<close> and \<^verbatim>\<open>mesh/config-server.c\<close>, and the
  receive callbacks of all models together.

  The client's static variables are the entry \<open>Cfg_client\<close> of \<open>clients\<close>. The messages the client
  receives lie in a buffer that is longer than the message: \<open>cfg_tail\<close> are the octets
  that follow it there (4 or 8 zero octets when the message was decrypted with a device
  key, the rest of a 32-octet array when it comes from the local node). A read past
  them is a fault. \<open>cfg_credential\<close> is the value of the one field of \<^verbatim>\<open>struct mesh_publication\<close>
  that neither model sets. What is printed is left out.
\<close>

section \<open>Constants\<close>

record cfg_env =
  cfg_tx :: tx_env
  cfg_tail :: bytes
  cfg_credential :: u8

definition CONFIG_SERVER_MODEL_ID :: u16 where "CONFIG_SERVER_MODEL_ID = 0x0000"
definition CONFIG_CLIENT_MODEL_ID :: u16 where "CONFIG_CLIENT_MODEL_ID = 0x0001"
definition MESH_STATUS_IDX_ALREADY_STORED :: u8 where "MESH_STATUS_IDX_ALREADY_STORED = 6"
definition MIN_COMPOSITION_LEN :: nat where "MIN_COMPOSITION_LEN = 16"
definition TTL_MASK :: u8 where "TTL_MASK = 0x7f"

definition OP_APPKEY_ADD :: u32 where "OP_APPKEY_ADD = 0x00"
definition OP_APPKEY_DELETE :: u32 where "OP_APPKEY_DELETE = 0x8000"
definition OP_APPKEY_STATUS :: u32 where "OP_APPKEY_STATUS = 0x8003"
definition OP_DEV_COMP_GET :: u32 where "OP_DEV_COMP_GET = 0x8008"
definition OP_DEV_COMP_STATUS :: u32 where "OP_DEV_COMP_STATUS = 0x02"
definition OP_CONFIG_BEACON_GET :: u32 where "OP_CONFIG_BEACON_GET = 0x8009"
definition OP_CONFIG_BEACON_SET :: u32 where "OP_CONFIG_BEACON_SET = 0x800A"
definition OP_CONFIG_BEACON_STATUS :: u32 where "OP_CONFIG_BEACON_STATUS = 0x800B"
definition OP_CONFIG_DEFAULT_TTL_GET :: u32 where "OP_CONFIG_DEFAULT_TTL_GET = 0x800C"
definition OP_CONFIG_DEFAULT_TTL_SET :: u32 where "OP_CONFIG_DEFAULT_TTL_SET = 0x800D"
definition OP_CONFIG_DEFAULT_TTL_STATUS :: u32 where "OP_CONFIG_DEFAULT_TTL_STATUS = 0x800E"
definition OP_CONFIG_PROXY_GET :: u32 where "OP_CONFIG_PROXY_GET = 0x8012"
definition OP_CONFIG_PROXY_SET :: u32 where "OP_CONFIG_PROXY_SET = 0x8013"
definition OP_CONFIG_PROXY_STATUS :: u32 where "OP_CONFIG_PROXY_STATUS = 0x8014"
definition OP_CONFIG_MODEL_PUB_GET :: u32 where "OP_CONFIG_MODEL_PUB_GET = 0x8018"
definition OP_CONFIG_MODEL_PUB_SET :: u32 where "OP_CONFIG_MODEL_PUB_SET = 0x03"
definition OP_CONFIG_MODEL_PUB_STATUS :: u32 where "OP_CONFIG_MODEL_PUB_STATUS = 0x8019"
definition OP_CONFIG_MODEL_SUB_ADD :: u32 where "OP_CONFIG_MODEL_SUB_ADD = 0x801B"
definition OP_CONFIG_MODEL_SUB_STATUS :: u32 where "OP_CONFIG_MODEL_SUB_STATUS = 0x801F"
definition OP_CONFIG_RELAY_GET :: u32 where "OP_CONFIG_RELAY_GET = 0x8026"
definition OP_CONFIG_RELAY_SET :: u32 where "OP_CONFIG_RELAY_SET = 0x8027"
definition OP_CONFIG_RELAY_STATUS :: u32 where "OP_CONFIG_RELAY_STATUS = 0x8028"
definition OP_CONFIG_MODEL_SUB_GET :: u32 where "OP_CONFIG_MODEL_SUB_GET = 0x8029"
definition OP_CONFIG_MODEL_SUB_LIST :: u32 where "OP_CONFIG_MODEL_SUB_LIST = 0x802A"
definition OP_CONFIG_HEARTBEAT_PUB_GET :: u32 where "OP_CONFIG_HEARTBEAT_PUB_GET = 0x8038"
definition OP_CONFIG_HEARTBEAT_PUB_SET :: u32 where "OP_CONFIG_HEARTBEAT_PUB_SET = 0x8039"
definition OP_CONFIG_HEARTBEAT_PUB_STATUS :: u32 where "OP_CONFIG_HEARTBEAT_PUB_STATUS = 0x06"
definition OP_CONFIG_HEARTBEAT_SUB_GET :: u32 where "OP_CONFIG_HEARTBEAT_SUB_GET = 0x803A"
definition OP_CONFIG_HEARTBEAT_SUB_SET :: u32 where "OP_CONFIG_HEARTBEAT_SUB_SET = 0x803B"
definition OP_CONFIG_HEARTBEAT_SUB_STATUS :: u32 where "OP_CONFIG_HEARTBEAT_SUB_STATUS = 0x803C"
definition OP_MODEL_APP_BIND :: u32 where "OP_MODEL_APP_BIND = 0x803D"
definition OP_MODEL_APP_STATUS :: u32 where "OP_MODEL_APP_STATUS = 0x803E"
definition OP_NETKEY_ADD :: u32 where "OP_NETKEY_ADD = 0x8040"
definition OP_NETKEY_DELETE :: u32 where "OP_NETKEY_DELETE = 0x8041"
definition OP_NETKEY_STATUS :: u32 where "OP_NETKEY_STATUS = 0x8044"
definition OP_NODE_IDENTITY_GET :: u32 where "OP_NODE_IDENTITY_GET = 0x8046"
definition OP_NODE_IDENTITY_SET :: u32 where "OP_NODE_IDENTITY_SET = 0x8047"
definition OP_NODE_IDENTITY_STATUS :: u32 where "OP_NODE_IDENTITY_STATUS = 0x8048"
definition OP_NODE_RESET :: u32 where "OP_NODE_RESET = 0x8049"
definition OP_NODE_RESET_STATUS :: u32 where "OP_NODE_RESET_STATUS = 0x804A"
definition OP_MODEL_APP_GET :: u32 where "OP_MODEL_APP_GET = 0x804B"
definition OP_MODEL_APP_LIST :: u32 where "OP_MODEL_APP_LIST = 0x804C"

lemmas cfg_ops = OP_APPKEY_ADD_def OP_APPKEY_DELETE_def OP_APPKEY_STATUS_def OP_DEV_COMP_GET_def OP_DEV_COMP_STATUS_def
  OP_CONFIG_BEACON_GET_def OP_CONFIG_BEACON_SET_def OP_CONFIG_BEACON_STATUS_def OP_CONFIG_DEFAULT_TTL_GET_def
  OP_CONFIG_DEFAULT_TTL_SET_def OP_CONFIG_DEFAULT_TTL_STATUS_def OP_CONFIG_PROXY_GET_def OP_CONFIG_PROXY_SET_def
  OP_CONFIG_PROXY_STATUS_def OP_CONFIG_MODEL_PUB_GET_def OP_CONFIG_MODEL_PUB_SET_def OP_CONFIG_MODEL_PUB_STATUS_def
  OP_CONFIG_MODEL_SUB_ADD_def OP_CONFIG_MODEL_SUB_STATUS_def OP_CONFIG_RELAY_GET_def OP_CONFIG_RELAY_SET_def
  OP_CONFIG_RELAY_STATUS_def OP_CONFIG_MODEL_SUB_GET_def OP_CONFIG_MODEL_SUB_LIST_def OP_CONFIG_HEARTBEAT_PUB_GET_def
  OP_CONFIG_HEARTBEAT_PUB_SET_def OP_CONFIG_HEARTBEAT_PUB_STATUS_def OP_CONFIG_HEARTBEAT_SUB_GET_def
  OP_CONFIG_HEARTBEAT_SUB_SET_def OP_CONFIG_HEARTBEAT_SUB_STATUS_def OP_MODEL_APP_BIND_def OP_MODEL_APP_STATUS_def
  OP_NETKEY_ADD_def OP_NETKEY_DELETE_def OP_NETKEY_STATUS_def OP_NODE_IDENTITY_GET_def OP_NODE_IDENTITY_SET_def
  OP_NODE_IDENTITY_STATUS_def OP_NODE_RESET_def OP_NODE_RESET_STATUS_def OP_MODEL_APP_GET_def OP_MODEL_APP_LIST_def

section \<open>The client's receive callback\<close>

text \<open>The model identifier at a position; a company identifier precedes a vendor model's.\<close>

definition print_mod_id :: "bytes \<Rightarrow> nat \<Rightarrow> bool \<Rightarrow> u32" where
  "print_mod_id data i vendor =
     (if \<not> vendor then 0xffff0000 OR ucast (get_le16 data i)
      else push_bit 16 (ucast (get_le16 data i)) OR ucast (get_le16 data (i + 2)))"

definition save_app_keys :: "nat \<Rightarrow> 'a world_scheme \<Rightarrow> 'a world_scheme" where
  "save_app_keys r w = (case node_at w r of None \<Rightarrow> w | Some n \<Rightarrow> emit (Db_call r (Db_app_keys (n_app_keys n))) w)"

definition save_net_keys :: "nat \<Rightarrow> 'a world_scheme \<Rightarrow> 'a world_scheme" where
  "save_net_keys r w = (case node_at w r of None \<Rightarrow> w | Some n \<Rightarrow> emit (Db_call r (Db_net_keys (n_net_keys n))) w)"

text \<open>A change that is recorded in the database only when it was made.\<close>

definition if_done :: "('a world_scheme \<Rightarrow> 'a world_scheme) \<Rightarrow> 'a world_scheme \<times> bool \<Rightarrow> 'a world_scheme" where
  "if_done save = (\<lambda>(w, ok). if ok then save w else w)"

text \<open>
  The branches of the switch. \<open>buf\<close> are the octets that may be read, \<open>len\<close> is the length of the
  parameters.
\<close>

definition comp_status_recvd :: "nat \<Rightarrow> bytes \<Rightarrow> nat \<Rightarrow> 'a world_scheme \<Rightarrow> 'a world_scheme cres" where
  "comp_status_recvd r buf len w =
     (if len < MIN_COMPOSITION_LEN then Ret w
      else cbind (node_parse_composition r buf (of_nat len) w) (\<lambda>(w1, ok).
        Ret (if ok then emit (Db_call r (Db_node_composition (take len buf))) w1 else w1)))"

definition appkey_status_recvd :: "nat \<Rightarrow> bytes \<Rightarrow> nat \<Rightarrow> 'a world_scheme \<Rightarrow> 'a world_scheme" where
  "appkey_status_recvd r buf len w =
     (if len \<noteq> 4 then w
      else let net_idx = get_le16 buf 1 AND 0xfff; app_idx = drop_bit 4 (get_le16 buf 2) in
        if byte_at buf 0 \<noteq> MESH_STATUS_SUCCESS \<and> byte_at buf 0 \<noteq> MESH_STATUS_IDX_ALREADY_STORED
        then if_done (save_app_keys r) (node_app_key_delete (Some r) net_idx app_idx w) else w)"

definition netkey_status_recvd :: "nat \<Rightarrow> bytes \<Rightarrow> nat \<Rightarrow> 'a world_scheme \<Rightarrow> 'a world_scheme" where
  "netkey_status_recvd r buf len w =
     (if len \<noteq> 3 then w
      else let net_idx = get_le16 buf 1 AND 0xfff in
        if byte_at buf 0 \<noteq> MESH_STATUS_SUCCESS \<and> byte_at buf 0 \<noteq> MESH_STATUS_IDX_ALREADY_STORED
        then if_done (save_net_keys r) (node_net_key_delete (Some r) net_idx w) else w)"

definition model_app_status_recvd :: "nat \<Rightarrow> u16 \<Rightarrow> bytes \<Rightarrow> nat \<Rightarrow> 'a cworld_scheme \<Rightarrow> 'a cworld_scheme" where
  "model_app_status_recvd r src buf len w =
     (if len \<noteq> 7 \<and> len \<noteq> 9 then w
      else let ele = ucast (get_le16 buf 1 - src); app_idx = get_le16 buf 3; m = print_mod_id buf 5 (len = 9) in
        if byte_at buf 0 = MESH_STATUS_SUCCESS
        then if_done (emit (Db_call r (Db_binding ele m app_idx))) (node_add_binding client_bind (Some r) ele m app_idx w)
        else w)"

definition ttl_status_recvd :: "nat \<Rightarrow> bytes \<Rightarrow> nat \<Rightarrow> 'a world_scheme \<Rightarrow> 'a world_scheme" where
  "ttl_status_recvd r buf len w =
     (if len \<noteq> 1 then w
      else if_done (emit (Db_call r (Db_ttl (byte_at buf 0)))) (node_set_default_ttl (Some r) (byte_at buf 0) w))"

text \<open>A publication as both models read it from a message, at the position of its address.\<close>

definition read_publication :: "cfg_env \<Rightarrow> bytes \<Rightarrow> nat \<Rightarrow> mesh_publication" where
  "read_publication E data i =
     \<lparr>pub_app_idx = get_le16 data (i + 2), pub_u = Addr16 (get_le16 data i), pub_ttl = byte_at data (i + 4),
      pub_credential = cfg_credential E, pub_period = byte_at data (i + 5), pub_retransmit = byte_at data (i + 6)\<rparr>"

definition set_publication :: "nat \<Rightarrow> u8 \<Rightarrow> u32 \<Rightarrow> mesh_publication \<Rightarrow> 'a world_scheme \<Rightarrow> 'a world_scheme" where
  "set_publication r ele m p w =
     if_done (\<lambda>w1. emit (Db_call r (Db_model_pub ele m (node_model_pub_get w1 (Some r) ele m))) w1)
       (node_model_pub_set (Some r) ele m p w)"

definition pub_status_recvd :: "cfg_env \<Rightarrow> nat \<Rightarrow> u16 \<Rightarrow> bytes \<Rightarrow> nat \<Rightarrow> 'a world_scheme \<Rightarrow> 'a world_scheme" where
  "pub_status_recvd E r prim buf len w =
     (if len \<noteq> 12 \<and> len \<noteq> 14 then w
      else if byte_at buf 0 \<noteq> MESH_STATUS_SUCCESS then w
      else if Some r = local_node w then w
      else set_publication r (ucast (get_le16 buf 1 - prim)) (print_mod_id buf 10 (len = 14)) (read_publication E buf 3) w)"

definition sub_status_recvd :: "nat \<Rightarrow> u16 \<Rightarrow> bytes \<Rightarrow> nat \<Rightarrow> 'a world_scheme \<Rightarrow> 'a world_scheme cres" where
  "sub_status_recvd r prim buf len w =
     cguard (1 \<le> length buf)
       (if byte_at buf 0 \<noteq> MESH_STATUS_SUCCESS then Ret w
        else cguard (7 \<le> length buf)
          (let ele = ucast (get_le16 buf 1 - prim); addr = get_le16 buf 3; m = print_mod_id buf 5 (len = 9)
           in Ret (if_done (emit (Db_call r (Db_subscription ele m addr))) (node_add_subscription (Some r) ele m addr w))))"

text \<open>The two lists are only printed: the loop reads two octets from 5 on until it passes the length.\<close>

definition list_status_recvd :: "bytes \<Rightarrow> nat \<Rightarrow> 'a world_scheme \<Rightarrow> 'a world_scheme cres" where
  "list_status_recvd buf len w =
     cguard (1 \<le> length buf)
       (if byte_at buf 0 \<noteq> MESH_STATUS_SUCCESS then Ret w
        else cguard (5 \<le> length buf \<and> (\<forall>i\<in>set [5..<len]. odd i \<longrightarrow> i + 2 \<le> length buf)) (Ret w))"

text \<open>The heartbeat states are printed from a message of \<open>need\<close> octets whose length is not tested.\<close>

definition heartbeat_status_recvd :: "nat \<Rightarrow> bytes \<Rightarrow> 'a world_scheme \<Rightarrow> 'a world_scheme cres" where
  "heartbeat_status_recvd need buf w =
     cguard (1 \<le> length buf)
       (if byte_at buf 0 \<noteq> MESH_STATUS_SUCCESS then Ret w else cguard (need \<le> length buf) (Ret w))"

definition reset_status_recvd :: "nat \<Rightarrow> bytes \<Rightarrow> 'a world_scheme \<Rightarrow> 'a world_scheme cres" where
  "reset_status_recvd r buf w =
     cguard (1 \<le> length buf)
       (case node_at w r of None \<Rightarrow> Fault
        | Some n \<Rightarrow>
            Ret (node_free (Some r)
              (upd_net (\<lambda>k. k\<lparr>address_pool := net_release_address (primary n) (num_ele n) (address_pool k)\<rparr>) w)))"

definition client_msg_recvd :: "cfg_env \<Rightarrow> u16 \<Rightarrow> bytes \<Rightarrow> 'a cworld_scheme \<Rightarrow> ('a cworld_scheme \<times> bool) cres" where
  "client_msg_recvd E src msg w =
     (case mesh_opcode_get msg (length msg) of None \<Rightarrow> Ret (w, False)
      | Some (opcode, n) \<Rightarrow>
          (case (if IS_UNICAST src then node_find_by_addr w src else None) of None \<Rightarrow> Ret (w, False)
           | Some r \<Rightarrow>
               let len = length msg - n; buf = drop n msg @ cfg_tail E; op = opcode AND NOT OP_UNRELIABLE;
                   taken = (\<lambda>w1. Ret (w1, True))
               in if node_get_primary (node_at w r) \<noteq> src then Ret (w, False)
                  else if op = OP_DEV_COMP_STATUS then cbind (comp_status_recvd r buf len w) taken
                  else if op = OP_APPKEY_STATUS then taken (appkey_status_recvd r buf len w)
                  else if op = OP_NETKEY_STATUS then taken (netkey_status_recvd r buf len w)
                  else if op = OP_MODEL_APP_STATUS then taken (model_app_status_recvd r src buf len w)
                  else if op = OP_NODE_IDENTITY_STATUS then taken w
                  else if op = OP_CONFIG_BEACON_STATUS then taken w
                  else if op = OP_CONFIG_RELAY_STATUS then taken w
                  else if op = OP_CONFIG_PROXY_STATUS then taken w
                  else if op = OP_CONFIG_DEFAULT_TTL_STATUS then taken (ttl_status_recvd r buf len w)
                  else if op = OP_CONFIG_MODEL_PUB_STATUS then taken (pub_status_recvd E r src buf len w)
                  else if op = OP_CONFIG_MODEL_SUB_STATUS then cbind (sub_status_recvd r src buf len w) taken
                  else if op = OP_CONFIG_MODEL_SUB_LIST then cbind (list_status_recvd buf len w) taken
                  else if op = OP_MODEL_APP_LIST then cbind (list_status_recvd buf len w) taken
                  else if op = OP_CONFIG_HEARTBEAT_PUB_STATUS then cbind (heartbeat_status_recvd 10 buf w) taken
                  else if op = OP_CONFIG_HEARTBEAT_SUB_STATUS then cbind (heartbeat_status_recvd 9 buf w) taken
                  else if op = OP_NODE_RESET_STATUS then cbind (reset_status_recvd r buf w) taken
                  else Ret (w, False)))"

section \<open>The server's receive callback\<close>

text \<open>
  \<open>recv\<close> are the receive callbacks the local node's models registered, this one
  included: an answer to the local node itself is delivered to them at once.
\<close>

definition server_reply where
  "server_reply E recv r src msg w =
     (case node_at w r of None \<Rightarrow> Fault
      | Some n \<Rightarrow>
          if src \<noteq> primary n then
            cbind (net_access_layer_send (cfg_tx E) (node_get_default_ttl w (Some r)) (primary n) (ucast src) APP_IDX_DEV msg w)
              (\<lambda>(w1, _). Ret (w1, True))
          else
            cbind (node_local_data_handler recv (primary n) (ucast src) (node_get_iv_index w (Some r))
                (node_get_sequence_number w (Some r)) APP_IDX_DEV msg w)
              (\<lambda>w1. Ret (w1, True)))"

definition ttl_status_msg :: "nat \<Rightarrow> 'a world_scheme \<Rightarrow> bytes" where
  "ttl_status_msg r w = mesh_opcode_set OP_CONFIG_DEFAULT_TTL_STATUS @ [node_get_default_ttl w (Some r)]"

text \<open>The length 14 of the test for a vendor model is not among the lengths accepted.\<close>

definition server_pub_set :: "cfg_env \<Rightarrow> nat \<Rightarrow> bytes \<Rightarrow> nat \<Rightarrow> 'a world_scheme \<Rightarrow> 'a world_scheme cres" where
  "server_pub_set E r data len w =
     (if len \<noteq> 11 \<and> len \<noteq> 13 then Ret w
      else (case node_at w r of None \<Rightarrow> Fault
        | Some n \<Rightarrow>
            let m = (if len = 14 then push_bit 16 (ucast (get_le16 data 9)) OR ucast (get_le16 data 11)
                     else ucast (get_le16 data 9) OR 0xffff0000)
            in Ret (set_publication r (ucast (get_le16 data 0 - primary n)) m (read_publication E data 2) w)))"

definition server_msg_recvd where
  "server_msg_recvd E recv src msg w =
     (case mesh_opcode_get msg (length msg) of None \<Rightarrow> Ret (w, False)
      | Some (opcode, n) \<Rightarrow>
          (case local_node w of None \<Rightarrow> Ret (w, True)
           | Some r \<Rightarrow>
               let data = drop n msg; len = length data; op = opcode AND NOT OP_UNRELIABLE in
               if op = OP_CONFIG_DEFAULT_TTL_SET then
                 (if len \<noteq> 1 \<or> byte_at data 0 > TTL_MASK \<or> byte_at data 0 = 1 then Ret (w, True)
                  else
                    let w1 = (if byte_at data 0 \<le> TTL_MASK
                              then emit (Db_call r (Db_ttl (byte_at data 0))) (fst (node_set_default_ttl (Some r) (byte_at data 0) w))
                              else w)
                    in server_reply E recv r src (ttl_status_msg r w1) w1)
               else if op = OP_CONFIG_DEFAULT_TTL_GET then server_reply E recv r src (ttl_status_msg r w) w
               else if op = OP_CONFIG_MODEL_PUB_SET then cbind (server_pub_set E r data len w) (\<lambda>w1. Ret (w1, True))
               else Ret (w, False)))"

section \<open>All receive callbacks\<close>

text \<open>
  The server's answer to the local node calls the callbacks again. A call at a
  depth of more than \<open>fuel\<close> is not run: its outcome is that of \<open>stop\<close>, which is
  a parameter, so that running out of depth is no outcome of the code. \<open>callbacks\<close>
  allows two, and no message needs more: \<open>callback_depth\<close> below shows that the
  outcome of \<open>stop\<close> is never used.
\<close>

fun model_recv ::
  "(model_cb \<Rightarrow> u16 \<Rightarrow> bytes \<Rightarrow> 'a cworld_scheme \<Rightarrow> ('a cworld_scheme \<times> bool) cres) \<Rightarrow> cfg_env \<Rightarrow> nat \<Rightarrow>
   model_cb \<Rightarrow> u16 \<Rightarrow> bytes \<Rightarrow> 'a cworld_scheme \<Rightarrow> ('a cworld_scheme \<times> bool) cres" where
  "model_recv stop E 0 cb src msg w = stop cb src msg w"
| "model_recv stop E (Suc fuel) cb src msg w =
     (if cb = Cfg_server then server_msg_recvd E (model_recv stop E fuel) src msg w
      else if cb = Cfg_client then client_msg_recvd E src msg w
      else Ret (w, client_recv cb msg))"

definition callbacks :: "cfg_env \<Rightarrow> model_cb \<Rightarrow> u16 \<Rightarrow> bytes \<Rightarrow> 'a cworld_scheme \<Rightarrow> ('a cworld_scheme \<times> bool) cres" where
  "callbacks E = model_recv (\<lambda>_ _ _ _. Fault) E 2"

definition config_ops :: "model_cb \<Rightarrow> mesh_model_ops" where
  "config_ops cb = \<lparr>op_recv = Some cb, op_bind = None, op_pub = None\<rparr>"

definition config_server_init :: "'a cworld_scheme \<Rightarrow> 'a cworld_scheme \<times> bool" where
  "config_server_init w = node_local_model_register 0 CONFIG_SERVER_MODEL_ID (config_ops Cfg_server) w"

definition config_client_init :: "'a cworld_scheme \<Rightarrow> 'a cworld_scheme \<times> bool" where
  "config_client_init w = node_local_model_register 0 CONFIG_CLIENT_MODEL_ID (config_ops Cfg_client) w"

section \<open>The commands of the client\<close>

definition cfg_target :: "'a cworld_scheme \<Rightarrow> u32" where
  "cfg_target w = c_target (clients w Cfg_client)"

definition cmd_node_set :: "string list \<Rightarrow> 'a cworld_scheme \<Rightarrow> ('a cworld_scheme \<times> bool option) cres" where
  "cmd_node_set argv w = cmd_set_node Cfg_client True argv w"

definition config_send :: "cfg_env \<Rightarrow> bytes \<Rightarrow> 'a cworld_scheme \<Rightarrow> ('a cworld_scheme \<times> bool) cres" where
  "config_send E buf w =
     (case local_node w of None \<Rightarrow> Ret (w, False)
      | Some r \<Rightarrow>
          (case node_at w r of None \<Rightarrow> Fault
           | Some n \<Rightarrow>
               if cfg_target w \<noteq> ucast (primary n) then
                 net_access_layer_send (cfg_tx E) DEFAULT_TTL (primary n) (cfg_target w) APP_IDX_DEV buf w
               else
                 cbind (node_local_data_handler (callbacks E) (primary n) (cfg_target w) (node_get_iv_index w (Some r))
                     (node_get_sequence_number w (Some r)) APP_IDX_DEV buf w)
                   (\<lambda>w1. Ret (w1, True))))"

text \<open>The end of a command: a failure to send is reported to the shell, or only printed.\<close>

definition sent :: "cfg_env \<Rightarrow> bytes \<Rightarrow> 'a cworld_scheme \<Rightarrow> ('a cworld_scheme \<times> bool option) cres" where
  "sent E buf w = cbind (config_send E buf w) (\<lambda>(w1, ok). Ret (w1, Some ok))"

definition sent_quiet :: "cfg_env \<Rightarrow> bytes \<Rightarrow> 'a cworld_scheme \<Rightarrow> ('a cworld_scheme \<times> bool option) cres" where
  "sent_quiet E buf w = cbind (config_send E buf w) (\<lambda>(w1, ok). Ret (w1, if ok then Some True else None))"

text \<open>The parameters are static: a command that is refused leaves them changed.\<close>

definition with_parms ::
  "string list \<Rightarrow> 'a cworld_scheme \<Rightarrow> (nat \<Rightarrow> u32 list \<Rightarrow> 'a cworld_scheme \<Rightarrow> 'b) \<Rightarrow> 'b" where
  "with_parms argv w k =
     (let (ps, n) = read_input_parameters sscanf_x argv (c_parms (clients w Cfg_client))
      in k n ps (upd_client Cfg_client (\<lambda>c. c\<lparr>c_parms := ps\<rparr>) w))"

definition le16 :: "u32 \<Rightarrow> bytes" where
  "le16 v = [be16_lo (ucast v), be16_hi (ucast v)]"

definition cmd_default :: "cfg_env \<Rightarrow> u32 \<Rightarrow> 'a cworld_scheme \<Rightarrow> ('a cworld_scheme \<times> bool option) cres" where
  "cmd_default E opcode w =
     (if IS_UNASSIGNED (cfg_target w) then Ret (w, Some False) else sent E (mesh_opcode_set opcode) w)"

text \<open>A destination that is not set, or not known, is only printed here.\<close>

definition cmd_composition_get :: "cfg_env \<Rightarrow> string list \<Rightarrow> 'a cworld_scheme \<Rightarrow> ('a cworld_scheme \<times> bool option) cres" where
  "cmd_composition_get E argv w =
     with_parms argv w (\<lambda>n ps w1.
       cbind (config_send E (mesh_opcode_set OP_DEV_COMP_GET @ [if n = 1 then ucast (ps ! 0) else 0]) w1)
         (\<lambda>(w2, ok). Ret (w2, None)))"

definition cmd_net_key :: "cfg_env \<Rightarrow> string list \<Rightarrow> u32 \<Rightarrow> 'a cworld_scheme \<Rightarrow> ('a cworld_scheme \<times> bool option) cres" where
  "cmd_net_key E argv opcode w =
     (if IS_UNASSIGNED (cfg_target w) then Ret (w, Some False)
      else with_parms argv w (\<lambda>n ps w1.
        if n \<noteq> 1 then Ret (w1, Some False)
        else (case node_find_by_addr w1 (ucast (cfg_target w1)) of None \<Rightarrow> Ret (w1, Some False)
          | Some r \<Rightarrow>
              let net_idx = ucast (ps ! 0) :: u16 in
              (case (if opcode = OP_NETKEY_DELETE then Some []
                     else map_option (\<lambda>k. le16 (ucast net_idx) @ k) (keys_net_key_get (keys w1) net_idx True)) of
                 None \<Rightarrow> Ret (w1, Some False)
               | Some body \<Rightarrow>
                   cbind (config_send E (mesh_opcode_set opcode @ body) w1) (\<lambda>(w2, ok).
                     if \<not> ok then Ret (w2, Some False)
                     else Ret (if_done (save_net_keys r)
                       (if opcode \<noteq> OP_NETKEY_DELETE then node_net_key_add (Some r) net_idx w2
                        else node_net_key_delete (Some r) net_idx w2), Some True))))))"

definition cmd_netkey_add where "cmd_netkey_add E argv = cmd_net_key E argv OP_NETKEY_ADD"
definition cmd_netkey_del where "cmd_netkey_del E argv = cmd_net_key E argv OP_NETKEY_DELETE"

text \<open>The two key indexes in three octets, as the code packs them.\<close>

definition pack_indexes :: "u16 \<Rightarrow> u16 \<Rightarrow> bytes" where
  "pack_indexes net_idx app_idx =
     [ucast (net_idx AND 0xf), ucast ((drop_bit 8 net_idx AND 0xf) OR (push_bit 4 app_idx AND 0xf0)), ucast (drop_bit 4 app_idx)]"

text \<open>A missing key ends the command without a status.\<close>

definition cmd_app_key :: "cfg_env \<Rightarrow> string list \<Rightarrow> u32 \<Rightarrow> 'a cworld_scheme \<Rightarrow> ('a cworld_scheme \<times> bool option) cres" where
  "cmd_app_key E argv opcode w =
     (if IS_UNASSIGNED (cfg_target w) then Ret (w, Some False)
      else with_parms argv w (\<lambda>n ps w1.
        if n \<noteq> 1 then Ret (w1, Some False)
        else (case node_find_by_addr w1 (ucast (cfg_target w1)) of None \<Rightarrow> Ret (w1, Some False)
          | Some r \<Rightarrow>
              let app_idx = ucast (ps ! 0) :: u16; net_idx = keys_app_key_get_bound (keys w1) app_idx in
              if net_idx = NET_IDX_INVALID then Ret (w1, Some False)
              else (case (if opcode = OP_APPKEY_DELETE then Some [] else keys_app_key_get (keys w1) app_idx True) of
                  None \<Rightarrow> Ret (w1, None)
                | Some k \<Rightarrow>
                    cbind (config_send E (mesh_opcode_set opcode @ pack_indexes net_idx app_idx @ k) w1) (\<lambda>(w2, ok).
                      if \<not> ok then Ret (w2, Some False)
                      else Ret (if_done (save_app_keys r)
                        (if opcode \<noteq> OP_APPKEY_DELETE then node_app_key_add (Some r) app_idx w2
                         else node_app_key_delete (Some r) net_idx app_idx w2), Some True))))))"

definition cmd_appkey_add where "cmd_appkey_add E argv = cmd_app_key E argv OP_APPKEY_ADD"
definition cmd_appkey_del where "cmd_appkey_del E argv = cmd_app_key E argv OP_APPKEY_DELETE"

definition verify_config_target :: "u32 \<Rightarrow> 'a world_scheme \<Rightarrow> bool" where
  "verify_config_target dst w \<longleftrightarrow>
     \<not> IS_UNASSIGNED dst \<and>
     (case Option.bind (node_find_by_addr w (ucast dst)) (node_at w) of None \<Rightarrow> False | Some n \<Rightarrow> comp n \<noteq> None)"

text \<open>
  The frame of the remaining commands: the test of the destination, the number of
  parameters, the message.
\<close>

definition cfg_command ::
  "('a cworld_scheme \<Rightarrow> bool) \<Rightarrow> nat set \<Rightarrow> string list \<Rightarrow> (bytes \<Rightarrow> 'a cworld_scheme \<Rightarrow> ('a cworld_scheme \<times> bool option) cres) \<Rightarrow>
   (nat \<Rightarrow> u32 list \<Rightarrow> bytes) \<Rightarrow> 'a cworld_scheme \<Rightarrow> ('a cworld_scheme \<times> bool option) cres" where
  "cfg_command ok counts argv fin mk w =
     (if \<not> ok w then Ret (w, Some False)
      else with_parms argv w (\<lambda>n ps w1. if n \<notin> counts then Ret (w1, Some False) else fin (mk n ps) w1))"

definition verified :: "'a cworld_scheme \<Rightarrow> bool" where "verified w = verify_config_target (cfg_target w) w"
definition assigned :: "'a cworld_scheme \<Rightarrow> bool" where "assigned w \<longleftrightarrow> \<not> IS_UNASSIGNED (cfg_target w)"

definition cmd_bind :: "cfg_env \<Rightarrow> string list \<Rightarrow> 'a cworld_scheme \<Rightarrow> ('a cworld_scheme \<times> bool option) cres" where
  "cmd_bind E argv w =
     cfg_command verified {3, 4} argv (sent E) (\<lambda>n ps.
       mesh_opcode_set OP_MODEL_APP_BIND @ le16 (cfg_target w + ps ! 0) @ le16 (ps ! 1) @
       (if n = 4 then le16 (ps ! 3) @ le16 (ps ! 2) else le16 (ps ! 2))) w"

definition cmd_beacon_set where
  "cmd_beacon_set E argv w =
     cfg_command verified {1} argv (sent_quiet E) (\<lambda>n ps. mesh_opcode_set OP_CONFIG_BEACON_SET @ [ucast (ps ! 0)]) w"

definition cmd_beacon_get where "cmd_beacon_get E = cmd_default E OP_CONFIG_BEACON_GET"

definition cmd_ident_set where
  "cmd_ident_set E argv w =
     cfg_command verified {2} argv (sent_quiet E) (\<lambda>n ps.
       mesh_opcode_set OP_NODE_IDENTITY_SET @ le16 (ps ! 0) @ [ucast (ps ! 1)]) w"

definition cmd_ident_get where
  "cmd_ident_get E argv w =
     cfg_command verified {1} argv (sent E) (\<lambda>n ps. mesh_opcode_set OP_NODE_IDENTITY_GET @ le16 (ps ! 0)) w"

definition cmd_proxy_set where
  "cmd_proxy_set E argv w =
     cfg_command verified {1} argv (sent E) (\<lambda>n ps. mesh_opcode_set OP_CONFIG_PROXY_SET @ [ucast (ps ! 0)]) w"

definition cmd_proxy_get where "cmd_proxy_get E = cmd_default E OP_CONFIG_PROXY_GET"

definition cmd_relay_set where
  "cmd_relay_set E argv w =
     cfg_command verified {3} argv (sent E) (\<lambda>n ps.
       mesh_opcode_set OP_CONFIG_RELAY_SET @ [ucast (ps ! 0), ucast (push_bit 5 (ps ! 1) OR ps ! 2)]) w"

definition cmd_relay_get where "cmd_relay_get E = cmd_default E OP_CONFIG_RELAY_GET"

text \<open>Without a parameter the local node's own default is sent.\<close>

definition cmd_ttl_set where
  "cmd_ttl_set E argv w =
     cfg_command assigned UNIV argv (sent E) (\<lambda>n ps.
       mesh_opcode_set OP_CONFIG_DEFAULT_TTL_SET @
       [if n \<noteq> 0 then ucast (ps ! 0 AND ucast TTL_MASK) else node_get_default_ttl w (local_node w)]) w"

definition pub_set_message :: "nat \<Rightarrow> u32 list \<Rightarrow> bytes" where
  "pub_set_message n ps =
     mesh_opcode_set OP_CONFIG_MODEL_PUB_SET @ le16 (ps ! 0) @ le16 (ps ! 1) @ le16 (ps ! 2) @
     [DEFAULT_TTL, ucast (ps ! 3), ucast (ps ! 4)] @
     (if n = 7 then le16 (ps ! 6) @ le16 (ps ! 5) else le16 (ps ! 5))"

definition cmd_pub_set where
  "cmd_pub_set E argv w = cfg_command verified {6, 7} argv (sent E) pub_set_message w"

definition cmd_pub_get where
  "cmd_pub_get E argv w =
     cfg_command assigned {2, 3} argv (sent E) (\<lambda>n ps.
       mesh_opcode_set OP_CONFIG_MODEL_PUB_GET @ le16 (ps ! 0) @
       (if n = 3 then le16 (ps ! 2) @ le16 (ps ! 1) else le16 (ps ! 1))) w"

definition cmd_sub_add where
  "cmd_sub_add E argv w =
     cfg_command assigned {3} argv (sent E) (\<lambda>n ps.
       mesh_opcode_set OP_CONFIG_MODEL_SUB_ADD @ le16 (ps ! 0) @ le16 (ps ! 1) @ le16 (ps ! 2)) w"

definition cmd_sub_get where
  "cmd_sub_get E argv w =
     cfg_command assigned {2} argv (sent E) (\<lambda>n ps. mesh_opcode_set OP_CONFIG_MODEL_SUB_GET @ le16 (ps ! 0) @ le16 (ps ! 1)) w"

definition cmd_mod_appidx_get where
  "cmd_mod_appidx_get E argv w =
     cfg_command assigned {2} argv (sent E) (\<lambda>n ps. mesh_opcode_set OP_MODEL_APP_GET @ le16 (ps ! 0) @ le16 (ps ! 1)) w"

definition cmd_hb_pub_set where
  "cmd_hb_pub_set E argv w =
     cfg_command assigned {6} argv (sent E) (\<lambda>n ps.
       mesh_opcode_set OP_CONFIG_HEARTBEAT_PUB_SET @ le16 (ps ! 0) @
       [ucast (ps ! 1), ucast (ps ! 2), ucast (ps ! 3)] @ le16 (ps ! 4) @ le16 (ps ! 5)) w"

definition cmd_hb_pub_get where "cmd_hb_pub_get E = cmd_default E OP_CONFIG_HEARTBEAT_PUB_GET"

definition cmd_hb_sub_set where
  "cmd_hb_sub_set E argv w =
     cfg_command assigned {3} argv (sent E) (\<lambda>n ps.
       mesh_opcode_set OP_CONFIG_HEARTBEAT_SUB_SET @ le16 (ps ! 0) @ le16 (ps ! 1) @ [ucast (ps ! 2)]) w"

definition cmd_hb_sub_get where "cmd_hb_sub_get E = cmd_default E OP_CONFIG_HEARTBEAT_SUB_GET"
definition cmd_ttl_get where "cmd_ttl_get E = cmd_default E OP_CONFIG_DEFAULT_TTL_GET"
definition cmd_node_reset where "cmd_node_reset E = cmd_default E OP_NODE_RESET"

definition set_cfg_target :: "u32 \<Rightarrow> 'a cworld_scheme \<Rightarrow> 'a cworld_scheme" where
  "set_cfg_target dst = upd_client Cfg_client (\<lambda>c. c\<lparr>c_target := dst\<rparr>)"

definition config_client_get_composition :: "cfg_env \<Rightarrow> u32 \<Rightarrow> 'a cworld_scheme \<Rightarrow> 'a cworld_scheme cres" where
  "config_client_get_composition E dst w =
     cbind (cmd_composition_get E [] (set_cfg_target dst w)) (\<lambda>(w1, _). Ret (set_cfg_target (cfg_target w) w1))"

section \<open>The depth of the callbacks\<close>

lemma deliver_loop_ext:
  assumes "\<And>cb. recv1 cb src data = recv2 cb src data"
  shows "deliver_loop recv1 ms src app_idx data = deliver_loop recv2 ms src app_idx data"
proof (induction ms)
  case (Cons m ms)
  show ?case by (intro ext) (unfold deliver_loop.simps Cons.IH assms, rule refl)
qed (intro ext, simp)

lemma local_data_handler_cong:
  assumes "\<And>cb. recv1 cb src data = recv2 cb src data"
  shows "node_local_data_handler recv1 src dst iv seq app_idx data w = node_local_data_handler recv2 src dst iv seq app_idx data w"
  unfolding node_local_data_handler_def deliver_from_def deliver_model_data_def deliver_loop_ext [of recv1 src data recv2, OF assms] ..

lemma ttl_status_opcode:
  "mesh_opcode_get (ttl_status_msg r w) (length (ttl_status_msg r w)) = Some (OP_CONFIG_DEFAULT_TTL_STATUS, 2)"
proof -
  have "opcode_valid OP_CONFIG_DEFAULT_TTL_STATUS" "length (mesh_opcode_set OP_CONFIG_DEFAULT_TTL_STATUS) = 2"
    by (simp_all add: opcode_valid_def mesh_opcode_set_length cfg_ops)
  from mesh_opcode_get_set [OF this(1), of 3] this(2) show ?thesis by (simp add: ttl_status_msg_def)
qed

lemma server_ignores_status: "server_msg_recvd E recv src (ttl_status_msg r w) v = Ret (v, local_node v = None)"
  by (simp add: server_msg_recvd_def ttl_status_opcode Let_def cfg_ops OP_UNRELIABLE_def split: option.split)

lemma model_recv_status:
  "model_recv stop E (Suc k) cb src (ttl_status_msg r w) = model_recv stop' E (Suc j) cb src (ttl_status_msg r w)"
  by (intro ext) (simp add: server_ignores_status)

lemma server_reply_depth:
  "server_reply E (model_recv stop E (Suc k)) r src (ttl_status_msg q w) v =
   server_reply E (model_recv stop' E (Suc j)) r src (ttl_status_msg q w) v"
proof -
  have "node_local_data_handler (model_recv stop E (Suc k)) s d iv seq a (ttl_status_msg q w) v =
      node_local_data_handler (model_recv stop' E (Suc j)) s d iv seq a (ttl_status_msg q w) v" for s d iv seq a
    by (rule local_data_handler_cong) (rule model_recv_status)
  then show ?thesis by (simp only: server_reply_def)
qed

text \<open>
  C10. The receive callbacks end. Whatever a third nested call is taken to do - fail,
  answer, or call on for ever - the outcome of a message is the same: no run gets that
  far. A message makes the callbacks call each other at most once, when the
  configuration server answers the local node itself, and that answer is a status
  message, which no callback answers. So callbacks cut off at a depth of two are the
  callbacks of the code, and those return.
\<close>

theorem callback_depth:
  "model_recv stop E (Suc (Suc k)) cb src msg w = callbacks E cb src msg w"
proof -
  have "server_msg_recvd E (model_recv stop E (Suc k)) src msg w =
      server_msg_recvd E (model_recv (\<lambda>_ _ _ _. Fault) E (Suc 0)) src msg w"
    unfolding server_msg_recvd_def Let_def server_reply_depth [of E stop k _ _ _ _ _ "\<lambda>_ _ _ _. Fault" 0] ..
  then show ?thesis by (simp only: callbacks_def numeral_2_eq_2 model_recv.simps)
qed

section \<open>Properties\<close>

text \<open>
  The key indexes of an application key command. Read back the way the status
  message is read, the application key index comes out right, but the network key
  index only when its bits 4 to 7 are zero: the code keeps four bits of its low
  octet.
\<close>

lemma key_indexes_packed:
  assumes "net_idx < 0x1000" "app_idx < 0x1000" "buf = st # pack_indexes net_idx app_idx"
  shows "(get_le16 buf 1 AND 0xfff = net_idx \<longleftrightarrow> net_idx AND 0xf0 = 0) \<and> drop_bit 4 (get_le16 buf 2) = app_idx"
proof -
  have m: "(0xfff :: u16) = mask 12" "(0xf :: u16) = mask 4" "(0xf0 :: u16) = push_bit 4 (mask 4)"
    by (simp_all add: mask_eq_exp_minus_1)
  have lt: "i < 12" if "x < 0x1000" "bit x i" for x :: u16 and i
  proof -
    have "x AND mask 12 = x" using that(1) by (simp add: word_unat_eq_iff unat_and_mask word_less_nat_alt)
    then have "bit x i \<longleftrightarrow> bit (x AND mask 12) i" by simp
    then show ?thesis using that(2) by (auto simp: bit_simps)
  qed
  have b: "get_le16 buf 1 = be16 (ucast ((drop_bit 8 net_idx AND 0xf) OR (push_bit 4 app_idx AND 0xf0))) (ucast (net_idx AND 0xf))"
    "get_le16 buf 2 = be16 (ucast (drop_bit 4 app_idx)) (ucast ((drop_bit 8 net_idx AND 0xf) OR (push_bit 4 app_idx AND 0xf0)))"
    by (simp_all add: assms(3) pack_indexes_def get_le16_def byte_at_def)
  have n: "get_le16 buf 1 AND 0xfff = net_idx AND NOT 0xf0"
    unfolding b m be16_def by (rule bit_word_eqI) (auto simp: bit_simps dest: lt [OF assms(1)])
  have a: "drop_bit 4 (get_le16 buf 2) = app_idx"
  proof (rule bit_word_eqI)
    show "bit (drop_bit 4 (get_le16 buf 2)) n = bit app_idx n" for n
      unfolding b m be16_def by (cases "4 \<le> n") (auto simp: bit_simps dest: lt [OF assms(2)])
  qed
  have "net_idx AND NOT 0xf0 = net_idx \<longleftrightarrow> net_idx AND 0xf0 = 0"
    by (auto simp: bit_eq_iff bit_simps)
  then show ?thesis using n a by simp
qed


lemma key_indexes_packed_witness:
  "get_le16 (0 # pack_indexes 0x010 0x123) 1 AND 0xfff \<noteq> (0x010 :: u16) \<and> drop_bit 4 (get_le16 (0 # pack_indexes 0x010 0x123) 2) = (0x123 :: u16)"
  using key_indexes_packed [where net_idx = "0x010" and app_idx = "0x123" and st = 0, OF _ _ refl] by simp

subsection \<open>Publications\<close>

lemma cfg_opcode:
  assumes "opcode_valid opcode"
  shows "mesh_opcode_get (mesh_opcode_set opcode @ d) (length (mesh_opcode_set opcode @ d)) = Some (opcode, length (mesh_opcode_set opcode))"
    "mesh_opcode_get (mesh_opcode_set opcode @ d) (length (mesh_opcode_set opcode) + length d) = Some (opcode, length (mesh_opcode_set opcode))"
  using mesh_opcode_get_set [OF assms, of "length (mesh_opcode_set opcode @ d)" d] by simp_all

lemma le16_read: "be16 (be16_hi (ucast v)) (be16_lo (ucast v)) = (ucast v :: u16)" for v :: u32
  by simp

text \<open>
  C38. A publication set on the local node: the message the command builds makes the
  server store exactly the address, application key index, period and retransmission
  of the command line, for the element address given, and record them in the
  database. The model is the SIG model of the command line; when the command names a vendor model
  (seven parameters), the server stores the publication under the SIG model
  numbered by the company identifier.
\<close>

theorem publication_reaches_server:
  assumes "local_node w = Some r" "node_at w r = Some nd" "n \<in> {6, 7}"
    and "ele = ucast (ucast (ps ! 0) - primary nd)"
    and "m = 0xffff0000 OR ucast (ucast (ps ! (if n = 7 then 6 else 5)) :: u16)"
    and "get_model w (Some r) ele m = Some mdl" "op_pub (cbs mdl) = None"
    and "p = \<lparr>pub_app_idx = ucast (ps ! 2), pub_u = Addr16 (ucast (ps ! 1)), pub_ttl = DEFAULT_TTL,
      pub_credential = cfg_credential E, pub_period = ucast (ps ! 3), pub_retransmit = ucast (ps ! 4)\<rparr>"
  shows "\<exists>w'. server_msg_recvd E recv src (pub_set_message n ps) w = Ret (w', True) \<and>
    node_model_pub_get w' (Some r) ele m = Some p \<and>
    log w' = log w @ [Db_call r (Db_model_pub ele m (Some p))] \<and> net w' = net w"
proof -
  define d where "d = le16 (ps ! 0) @ le16 (ps ! 1) @ le16 (ps ! 2) @ [DEFAULT_TTL, ucast (ps ! 3), ucast (ps ! 4)] @
     (if n = 7 then le16 (ps ! 6) @ le16 (ps ! 5) else le16 (ps ! 5))"
  have msg: "pub_set_message n ps = mesh_opcode_set OP_CONFIG_MODEL_PUB_SET @ d" by (simp add: pub_set_message_def d_def)
  have "opcode_valid OP_CONFIG_MODEL_PUB_SET" by (simp add: opcode_valid_def cfg_ops)
  note op = cfg_opcode(1) [OF this, of d, folded msg]
  have l1: "length (mesh_opcode_set OP_CONFIG_MODEL_PUB_SET) = 1" by (simp add: mesh_opcode_set_length cfg_ops)
  have dr: "drop 1 (pub_set_message n ps) = d" by (simp add: msg l1)
  have len: "length d = (if n = 7 then 13 else 11)" using assms(3) by (auto simp: d_def le16_def)
  have f: "get_le16 d 0 = ucast (ps ! 0)" "get_le16 d 9 = ucast (ps ! (if n = 7 then 6 else 5))" "read_publication E d 2 = p"
    using assms(3) by (auto simp: d_def le16_def get_le16_def byte_at_def read_publication_def assms(8))
  let ?w1 = "upd_node r (upd_model ele m (\<lambda>x. x\<lparr>pub := Some p\<rparr>)) w"
  have g: "node_model_pub_get ?w1 (Some r) ele m = Some p"
    using get_model_upd [OF assms(6), of "\<lambda>x. x\<lparr>pub := Some p\<rparr>"] by (simp add: node_model_pub_get_def)
  have "set_publication r ele m p w = emit (Db_call r (Db_model_pub ele m (Some p))) ?w1"
    using assms(6,7) g by (simp add: set_publication_def node_model_pub_set_def if_done_def)
  moreover have "server_msg_recvd E recv src (pub_set_message n ps) w = Ret (set_publication r ele m p w, True)"
    using assms(1,2) op l1 dr len f assms(3)
    by (auto simp: server_msg_recvd_def server_pub_set_def Let_def cfg_ops OP_UNRELIABLE_def assms(4,5) or.commute)
  ultimately show ?thesis using g by (simp add: node_model_pub_get_def get_model_def) (simp add: emit_def upd_node_def)
qed


subsection \<open>Delivery to the configuration models\<close>

text \<open>
  The models of the primary element that are bound to the device key are the two
  configuration models, as after their registration.
\<close>

definition config_models :: "mesh_model list \<Rightarrow> bool" where
  "config_models ms \<longleftrightarrow>
     (\<forall>m\<in>set ms. APP_IDX_DEV \<in> set (bindings m) \<longrightarrow> op_recv (cbs m) \<in> {None, Some Cfg_server, Some Cfg_client}) \<and>
     (\<forall>cb\<in>{Cfg_server, Cfg_client}. \<exists>m\<in>set ms. APP_IDX_DEV \<in> set (bindings m) \<and> op_recv (cbs m) = Some cb)"

lemma deliver_taker:
  assumes "\<forall>m\<in>set ms. app_idx \<in> set (bindings m) \<longrightarrow> op_recv (cbs m) \<in> {None, Some other, Some cb}"
    and "\<exists>m\<in>set ms. app_idx \<in> set (bindings m) \<and> op_recv (cbs m) = Some cb"
    and "recv other src data w = Ret (w, False)" "recv cb src data w = res" "\<And>v. res \<noteq> Ret (v, False)"
  shows "deliver_loop recv ms src app_idx data w = res"
  using assms(1,2)
proof (induction ms)
  case (Cons m ms)
  show ?case
  proof (cases "app_idx \<in> set (bindings m) \<and> op_recv (cbs m) = Some cb")
    case True then show ?thesis using assms(4,5) by (cases res) auto
  next
    case False
    then have "deliver_loop recv (m # ms) src app_idx data w = deliver_loop recv ms src app_idx data w"
      using Cons.prems(1) assms(3) by auto
    then show ?thesis using Cons False by auto
  qed
qed simp

lemma callbacks_config:
  "callbacks E Cfg_server = server_msg_recvd E (model_recv (\<lambda>_ _ _ _. Fault) E 1)" "callbacks E Cfg_client = client_msg_recvd E"
  by (intro ext, simp add: callbacks_def numeral_2_eq_2)+

lemma server_refuses:
  assumes "opcode_valid opcode" "opcode AND NOT OP_UNRELIABLE \<notin> {OP_CONFIG_DEFAULT_TTL_SET, OP_CONFIG_DEFAULT_TTL_GET, OP_CONFIG_MODEL_PUB_SET}"
    and "local_node w \<noteq> None"
  shows "server_msg_recvd E recv src (mesh_opcode_set opcode @ d) w = Ret (w, False)"
  using assms(2,3) by (auto simp: server_msg_recvd_def cfg_opcode [OF assms(1)] Let_def)

lemma node_free_gone: "nodes_wf w \<Longrightarrow> node_at (node_free (Some r) w) r = None"
proof -
  assume "nodes_wf w"
  then have "find (\<lambda>n. nref n = r) (delete_first (\<lambda>n. nref n = r) (nodes w)) = None"
    by (intro find_delete_first_same) (simp add: nodes_wf_def)
  then show ?thesis by (simp add: node_free_def node_at_def)
qed

text \<open>
  C39. A node that confirms its reset is used after it was freed. The client frees the
  sender's node when it receives the status; the handler that called it then stores
  the sequence number in that node.
\<close>

theorem reset_status_use_after_free:
  assumes "nodes_wf w" "local_node_rec w = Some ln" "seq \<le> 0xffffff" "node_find_by_addr w src = Some r" "node_at w r = Some remote"
    "primary remote = src" "\<not> is_loopback ln src" "\<not> replay_detected remote iv seq"
    "\<not> IS_GROUP dst" "\<not> IS_VIRTUAL dst" "local_ele_idx ln dst = Some i" "find_element ln i = Some e" "config_models (models e)"
  shows "node_local_data_handler (callbacks E) src dst iv seq APP_IDX_DEV (mesh_opcode_set OP_NODE_RESET_STATUS @ d) w = Fault"
proof -
  let ?msg = "mesh_opcode_set OP_NODE_RESET_STATUS @ d"
  have v: "opcode_valid OP_NODE_RESET_STATUS" by (simp add: opcode_valid_def cfg_ops)
  have u: "IS_UNICAST src" using assms(4) by (auto simp: node_find_by_addr_def split: if_splits)
  have ln: "local_node w \<noteq> None" using assms(2) by (auto simp: local_node_rec_def split: option.splits)
  have s: "callbacks E Cfg_server src ?msg w = Ret (w, False)"
    unfolding callbacks_config by (rule server_refuses [OF v _ ln]) (simp add: cfg_ops OP_UNRELIABLE_def)
  let ?w1 = "node_free (Some r) (upd_net (\<lambda>k. k\<lparr>address_pool := net_release_address (primary remote) (num_ele remote) (address_pool k)\<rparr>) w)"
  have c: "callbacks E Cfg_client src ?msg w = (if d @ cfg_tail E = [] then Fault else Ret (?w1, True))"
    unfolding callbacks_config client_msg_recvd_def cfg_opcode(1) [OF v] using assms(4-6) u
    by (simp add: Let_def node_get_primary_def reset_status_recvd_def cguard_def Suc_le_eq cfg_ops OP_UNRELIABLE_def)
  have m1: "\<forall>m\<in>set (models e). APP_IDX_DEV \<in> set (bindings m) \<longrightarrow> op_recv (cbs m) \<in> {None, Some Cfg_server, Some Cfg_client}"
    "\<exists>m\<in>set (models e). APP_IDX_DEV \<in> set (bindings m) \<and> op_recv (cbs m) = Some Cfg_client"
    using assms(13) by (auto simp: config_models_def)
  have gone: "node_at ?w1 r = None"
    using assms(1) by (intro node_free_gone) (simp add: nodes_wf_def upd_net_def)
  have "deliver_loop (callbacks E) (models e) src APP_IDX_DEV ?msg w = (if d @ cfg_tail E = [] then Fault else Ret (?w1, True))"
    by (rule deliver_taker [where recv = "callbacks E", OF m1 s c]) simp
  moreover have "\<not> 0xffffff < seq" using assms(3) by (simp add: not_less)
  ultimately show ?thesis using assms gone
    by (simp add: node_local_data_handler_def remote_for_src_def deliver_from_def deliver_model_data_def cguard_def)
qed

text \<open>
  A subscription status without parameters makes the client read past the message:
  its length is not tested, the status octet is read from the four zero octets
  that follow the message in its buffer, and the fields after it lie outside. A node of the
  network sends such a message at will.
\<close>

lemma subscription_status_overread:
  assumes "cfg_tail E = replicate k 0" "k < 7" "node_find_by_addr w src = Some r" "node_at w r = Some nd" "primary nd = src"
  shows "callbacks E Cfg_client src (mesh_opcode_set OP_CONFIG_MODEL_SUB_STATUS) w = Fault"
proof -
  have v: "opcode_valid OP_CONFIG_MODEL_SUB_STATUS" by (simp add: opcode_valid_def cfg_ops)
  have u: "IS_UNICAST src" using assms(3) by (auto simp: node_find_by_addr_def split: if_splits)
  have t: "sub_status_recvd r src (cfg_tail E) 0 w = Fault"
    using assms(1,2) by (cases k) (simp_all add: sub_status_recvd_def byte_at_def MESH_STATUS_SUCCESS_def cguard_def)
  show ?thesis
    unfolding callbacks_config client_msg_recvd_def cfg_opcode(1) [OF v, of "[]", unfolded append_Nil2] using assms(3-5) u t
    by (simp add: Let_def node_get_primary_def cfg_ops OP_UNRELIABLE_def)
qed

subsection \<open>The default TTL of the local node\<close>

lemma local_delivery_eq:
  assumes "local_node w = Some r" "node_at w r = Some n" "node_find_by_addr w (primary n) = Some r" "num_ele n \<noteq> 0"
    and "seq \<le> 0xffffff" "find_element n 0 = Some e"
  shows "node_local_data_handler recv (primary n) (ucast (primary n)) iv seq a data w =
    cbind (deliver_loop recv (models e) (primary n) a data w) (\<lambda>(w1, res). Ret w1)"
proof -
  let ?d = "ucast (primary n) :: u32"
  have u: "IS_UNICAST (primary n)" using assms(3) by (auto simp: node_find_by_addr_def split: if_splits)
  then have p: "unat (primary n) < 0x8000" by (simp add: IS_UNICAST_def word_less_nat_alt)
  have d: "unat ?d = unat (primary n)" using unat_u16_less [of "primary n"] by (simp add: unat_ucast_mod)
  have du: "uint ?d = uint (primary n)" by (metis d uint_nat)
  have nu: "0 < uint (num_ele n)" using assms(4) by (metis unsigned_eq_0_iff order_le_less unsigned_greater_eq)
  have "is_loopback n (primary n)" using nu by (simp add: is_loopback_def)
  moreover have "\<not> IS_GROUP ?d" "\<not> IS_VIRTUAL ?d" "\<not> IS_ALL_NODES ?d"
    using p d by (auto simp: IS_GROUP_def IS_VIRTUAL_def IS_ALL_NODES_def word_le_nat_alt)
  moreover from this have "local_ele_idx n ?d = Some 0" using nu du by (simp add: local_ele_idx_def)
  moreover have "\<not> 0xffffff < seq" using assms(5) by (simp add: not_less)
  ultimately show ?thesis using assms
    by (simp add: node_local_data_handler_def local_node_rec_def remote_for_src_def deliver_from_def deliver_model_data_def)
qed

lemma set_ttl_local:
  assumes "local_node w = Some r" "node_at w r = Some n" "t \<le> 0x7f" "w1 = fst (node_set_default_ttl (Some r) t w)"
  shows "snd (node_set_default_ttl (Some r) t w)" "local_node w1 = Some r" "node_at w1 r = Some (n\<lparr>n_ttl := t\<rparr>)"
    "node_find_by_addr w1 a = node_find_by_addr w a" "default_ttl (net w1) = t" "log w1 = log w" "seq_num (net w1) = seq_num (net w)"
    "clients w1 = clients (w :: 'a cworld_scheme)"
proof -
  have t: "\<not> 0x7f < t" using assms(3) by (simp add: not_less)
  have w1: "w1 = (upd_node r (\<lambda>n. n\<lparr>n_ttl := t\<rparr>) w)\<lparr>net := (net w)\<lparr>default_ttl := t\<rparr>\<rparr>"
    using t assms(1,4) by (simp add: node_set_default_ttl_def net_set_default_ttl_def is_local_def Let_def upd_node_def)
  have "map_option nref (find (match_node_unicast a) (update_first (\<lambda>n. nref n = r) (\<lambda>n. n\<lparr>n_ttl := t\<rparr>) xs)) =
      map_option nref (find (match_node_unicast a) xs)" for xs
    by (induction xs) (auto simp: match_node_unicast_def)
  then show "node_find_by_addr w1 a = node_find_by_addr w a" by (simp add: node_find_by_addr_def w1 upd_node_def)
  have "node_at (upd_node r (\<lambda>n. n\<lparr>n_ttl := t\<rparr>) w) r = Some (n\<lparr>n_ttl := t\<rparr>)"
    using assms(2) by (subst node_at_upd) simp_all
  then show "node_at w1 r = Some (n\<lparr>n_ttl := t\<rparr>)" by (simp add: w1 node_at_def)
  show "snd (node_set_default_ttl (Some r) t w)"
    using t assms(1) by (simp add: node_set_default_ttl_def net_set_default_ttl_def is_local_def Let_def)
  show "local_node w1 = Some r" "default_ttl (net w1) = t" "log w1 = log w" "seq_num (net w1) = seq_num (net w)" "clients w1 = clients w"
    using assms(1) by (simp_all add: w1 upd_node_def)
qed

text \<open>The local node with its two configuration models, as the server and the client find it.\<close>

definition config_node :: "nat \<Rightarrow> mesh_node \<Rightarrow> mesh_element \<Rightarrow> 'a cworld_scheme \<Rightarrow> bool" where
  "config_node r n e w \<longleftrightarrow> local_node w = Some r \<and> node_at w r = Some n \<and> node_find_by_addr w (primary n) = Some r \<and>
     num_ele n \<noteq> 0 \<and> seq_num (net w) \<le> 0xffffff \<and> find_element n 0 = Some e \<and> config_models (models e)"

lemma config_nodeD:
  assumes "config_node r n e w"
  shows "local_node w = Some r" "node_at w r = Some n" "node_find_by_addr w (primary n) = Some r" "num_ele n \<noteq> 0"
    "seq_num (net w) \<le> 0xffffff" "find_element n 0 = Some e"
    "\<forall>m\<in>set (models e). APP_IDX_DEV \<in> set (bindings m) \<longrightarrow> op_recv (cbs m) \<in> {None, Some Cfg_server, Some Cfg_client}"
    "\<forall>m\<in>set (models e). APP_IDX_DEV \<in> set (bindings m) \<longrightarrow> op_recv (cbs m) \<in> {None, Some Cfg_client, Some Cfg_server}"
    "\<exists>m\<in>set (models e). APP_IDX_DEV \<in> set (bindings m) \<and> op_recv (cbs m) = Some Cfg_server"
    "\<exists>m\<in>set (models e). APP_IDX_DEV \<in> set (bindings m) \<and> op_recv (cbs m) = Some Cfg_client"
    "node_get_sequence_number w (Some r) = seq_num (net w)" "node_get_default_ttl w (Some r) = default_ttl (net w)"
  using assms
  by (auto simp: config_node_def config_models_def node_get_sequence_number_def node_get_default_ttl_def is_local_def dest: node_at_nref)

lemma config_local_handler:
  assumes "config_node r n e w"
  shows "node_local_data_handler recv (primary n) (ucast (primary n)) iv (node_get_sequence_number w (Some r)) a data w =
    cbind (deliver_loop recv (models e) (primary n) a data w) (\<lambda>(w1, res). Ret w1)"
  unfolding config_nodeD(11) [OF assms] using config_nodeD(1-6) [OF assms] by (rule local_delivery_eq)

lemma client_refuses_set:
  assumes "config_node r n e w"
  shows "client_msg_recvd E (primary n) (mesh_opcode_set OP_CONFIG_DEFAULT_TTL_SET @ d) w = Ret (w, False)"
proof -
  have v: "opcode_valid OP_CONFIG_DEFAULT_TTL_SET" by (simp add: opcode_valid_def cfg_ops)
  have u: "IS_UNICAST (primary n)" using config_nodeD(3) [OF assms] by (auto simp: node_find_by_addr_def split: if_splits)
  show ?thesis
    unfolding client_msg_recvd_def cfg_opcode(1) [OF v] using config_nodeD(2,3) [OF assms] u
    by (simp add: Let_def node_get_primary_def cfg_ops OP_UNRELIABLE_def)
qed

lemma client_takes_status:
  assumes "config_node r n e w" "t \<le> 0x7f"
  shows "client_msg_recvd E (primary n) (mesh_opcode_set OP_CONFIG_DEFAULT_TTL_STATUS @ [t]) w =
    Ret (emit (Db_call r (Db_ttl t)) (fst (node_set_default_ttl (Some r) t w)), True)"
proof -
  have v: "opcode_valid OP_CONFIG_DEFAULT_TTL_STATUS" by (simp add: opcode_valid_def cfg_ops)
  have u: "IS_UNICAST (primary n)" using config_nodeD(3) [OF assms(1)] by (auto simp: node_find_by_addr_def split: if_splits)
  have s: "snd (node_set_default_ttl (Some r) t w)" by (rule set_ttl_local [OF config_nodeD(1,2) [OF assms(1)] assms(2) refl])
  have "ttl_status_recvd r ([t] @ tl) 1 w = emit (Db_call r (Db_ttl t)) (fst (node_set_default_ttl (Some r) t w))" for tl
    using s by (simp add: ttl_status_recvd_def byte_at_def if_done_def case_prod_beta)
  then show ?thesis
    unfolding client_msg_recvd_def cfg_opcode(1) [OF v] using config_nodeD(2,3) [OF assms(1)] u
    by (simp add: Let_def node_get_primary_def cfg_ops OP_UNRELIABLE_def)
qed

lemma server_sets_ttl:
  assumes "t \<le> 0x7f" "t \<noteq> 1" "local_node w = Some r"
    and "w1 = emit (Db_call r (Db_ttl t)) (fst (node_set_default_ttl (Some r) t w))"
  shows "server_msg_recvd E recv src (mesh_opcode_set OP_CONFIG_DEFAULT_TTL_SET @ [t]) w = server_reply E recv r src (ttl_status_msg r w1) w1"
proof -
  have v: "opcode_valid OP_CONFIG_DEFAULT_TTL_SET" by (simp add: opcode_valid_def cfg_ops)
  have "\<not> 0x7f < t" using assms(1) by (simp add: not_less)
  then show ?thesis
    unfolding server_msg_recvd_def cfg_opcode(1) [OF v] using assms
    by (simp add: Let_def TTL_MASK_def byte_at_def cfg_ops OP_UNRELIABLE_def)
qed

lemma config_node_ttl:
  assumes "config_node r n e w" "t \<le> 0x7f" "w1 = emit x (fst (node_set_default_ttl (Some r) t w))"
  shows "config_node r (n\<lparr>n_ttl := t\<rparr>) e w1" "default_ttl (net w1) = t" "log w1 = log w @ [x]"
proof -
  note s = set_ttl_local [OF config_nodeD(1,2) [OF assms(1)] assms(2) refl]
  have "find_element (n\<lparr>n_ttl := t\<rparr>) 0 = find_element n 0" by (simp add: find_element_def)
  moreover have "node_find_by_addr w1 a = node_find_by_addr (fst (node_set_default_ttl (Some r) t w)) a" for a
    by (simp add: assms(3) node_find_by_addr_def)
  ultimately show "config_node r (n\<lparr>n_ttl := t\<rparr>) e w1"
    using assms(1) s by (simp add: config_node_def assms(3))
  show "default_ttl (net w1) = t" "log w1 = log w @ [x]" using s by (simp_all add: assms(3) emit_def)
qed

lemma server_local_ttl:
  assumes "config_node r n e w" "t \<le> 0x7f" "t \<noteq> 1"
    and "w1 = emit (Db_call r (Db_ttl t)) (fst (node_set_default_ttl (Some r) t w))"
    and "w2 = emit (Db_call r (Db_ttl t)) (fst (node_set_default_ttl (Some r) t w1))"
  shows "callbacks E Cfg_server (primary n) (mesh_opcode_set OP_CONFIG_DEFAULT_TTL_SET @ [t]) w = Ret (w2, True)"
proof -
  let ?recv = "model_recv (\<lambda>_ _ _ _. Fault) E 1"
  note c1 = config_node_ttl [OF assms(1,2,4)]
  have msg: "ttl_status_msg r w1 = mesh_opcode_set OP_CONFIG_DEFAULT_TTL_STATUS @ [t]"
    using config_nodeD(12) [OF c1(1)] c1(2) by (simp add: ttl_status_msg_def)
  have s: "?recv Cfg_server (primary n) (ttl_status_msg r w1) w1 = Ret (w1, False)"
    using config_nodeD(1) [OF c1(1)] by (simp add: server_ignores_status)
  have c: "?recv Cfg_client (primary n) (ttl_status_msg r w1) w1 = Ret (w2, True)"
    using client_takes_status [OF c1(1) assms(2), of E] by (simp add: msg assms(5))
  have d: "deliver_loop ?recv (models e) (primary n) APP_IDX_DEV (ttl_status_msg r w1) w1 = Ret (w2, True)"
    by (rule deliver_taker [where recv = "?recv", OF config_nodeD(7,10) [OF assms(1)] s c]) simp
  have "server_reply E ?recv r (primary n) (ttl_status_msg r w1) w1 = Ret (w2, True)"
    using config_nodeD(2) [OF c1(1)] config_local_handler [OF c1(1), of "?recv"] d by (simp add: server_reply_def)
  then show ?thesis
    unfolding callbacks_config by (subst server_sets_ttl [OF assms(2,3) config_nodeD(1) [OF assms(1)] assms(4)])
qed

text \<open>
  C11. Setting the default TTL of the local node. The command's message goes to the
  configuration server without the network, the server stores the value and answers
  with a status message, and the client takes the answer: the node and the network layer
  have the value, and it is recorded twice in the database.
\<close>

theorem ttl_set_on_local_node:
  assumes "config_node r n e w" "cfg_target w = ucast (primary n)" "t < 0x80" "t \<noteq> 1"
  shows "\<exists>w'. cmd_ttl_set E [cmd, num_text 16 (unat t)] w = Ret (w', Some True) \<and> default_ttl (net w') = t \<and>
    (\<exists>n'. node_at w' r = Some n' \<and> n_ttl n' = t) \<and> log w' = log w @ [Db_call r (Db_ttl t), Db_call r (Db_ttl t)]"
proof -
  have t7: "t \<le> 0x7f" using assms(3) by (simp add: word_le_nat_alt word_less_nat_alt)
  let ?ps = "ucast t # replicate 7 (0xffffffff :: u32)"
  define v where "v = upd_client Cfg_client (\<lambda>c. c\<lparr>c_parms := ?ps\<rparr>) w"
  define w1 where "w1 = emit (Db_call r (Db_ttl t)) (fst (node_set_default_ttl (Some r) t v))"
  define w2 where "w2 = emit (Db_call r (Db_ttl t)) (fst (node_set_default_ttl (Some r) t w1))"
  have cv: "config_node r n e v"
    using assms(1) by (auto simp: config_node_def v_def node_at_def node_find_by_addr_def split: if_splits)
  have m: "read_input_parameters sscanf_x [cmd, num_text 16 (unat t)] ps = (?ps, 1)" for ps
  proof -
    have ut: "unat (ucast t :: u32) = unat t" using unat_u8_less [of t] by (simp add: unat_ucast_mod)
    have "ucast t \<noteq> (0xffffffff :: u32)" using ut unat_u8_less [of t] by (auto simp: word_unat_eq_iff)
    then show ?thesis
      using read_loop_scanned [of "[ucast t]" sscanf_x "num_text 16 \<circ> unat" "[]"] sscanf_num_text(1) [of "ucast t"]
        num_text_scan(4) [of 16, OF _ refl] ut by (simp add: read_input_parameters_def)
  qed
  have tm: "ucast ((ucast t :: u32) AND ucast TTL_MASK) = t"
  proof -
    have "ucast TTL_MASK = (mask 7 :: u32)" by (simp add: TTL_MASK_def mask_eq_exp_minus_1)
    then have "unat ((ucast t :: u32) AND ucast TTL_MASK) = unat t"
      using assms(3) unat_u8_less [of t] by (simp only: unat_and_mask) (simp add: unat_ucast_mod word_less_nat_alt)
    then show ?thesis using unat_u8_less [of t] by (simp add: word_unat_eq_iff unat_ucast_mod)
  qed
  have d: "deliver_loop (callbacks E) (models e) (primary n) APP_IDX_DEV (mesh_opcode_set OP_CONFIG_DEFAULT_TTL_SET @ [t]) v = Ret (w2, True)"
    by (rule deliver_taker [where recv = "callbacks E", OF config_nodeD(8,9) [OF cv] _ server_local_ttl [OF cv t7 assms(4) w1_def w2_def]])
      (simp_all add: callbacks_config client_refuses_set [OF cv])
  have tv: "cfg_target v = ucast (primary n)" using assms(2) by (simp add: cfg_target_def v_def upd_client_def)
  have "primary n \<noteq> 0" using config_nodeD(3) [OF cv] by (auto simp: node_find_by_addr_def IS_UNICAST_def split: if_splits)
  then have "ucast (primary n) \<noteq> (0 :: u32)" using unat_u16_less [of "primary n"] by (simp add: word_unat_eq_iff unat_ucast_mod)
  then have "cmd_ttl_set E [cmd, num_text 16 (unat t)] w = sent E (mesh_opcode_set OP_CONFIG_DEFAULT_TTL_SET @ [t]) v"
    using tm by (simp add: cmd_ttl_set_def cfg_command_def assigned_def assms(2) IS_UNASSIGNED_def with_parms_def m flip: v_def)
  also have "\<dots> = Ret (w2, Some True)"
    using d config_local_handler [OF cv, of "callbacks E"] config_nodeD(1,2) [OF cv] tv by (simp add: sent_def config_send_def)
  finally have run: "cmd_ttl_set E [cmd, num_text 16 (unat t)] w = Ret (w2, Some True)" .
  note c1 = config_node_ttl [OF cv t7 w1_def] and c2 = config_node_ttl [OF config_node_ttl(1) [OF cv t7 w1_def] t7 w2_def]
  have "log v = log w" by (simp add: v_def)
  then have "log w2 = log w @ [Db_call r (Db_ttl t), Db_call r (Db_ttl t)]" using c1(3) c2(3) by simp
  then show ?thesis using run c2(2) config_nodeD(2) [OF c2(1)] by auto
qed


subsection \<open>Witnesses\<close>

text \<open>A local node at address 1 with both configuration models and an On/Off client, and a node at address 5.\<close>

definition demo_cfg :: cfg_env where
  "demo_cfg = \<lparr>cfg_tx = demo_env, cfg_tail = [0, 0, 0, 0], cfg_credential = 0\<rparr>"

definition demo_element :: mesh_element where
  "demo_element = \<lparr>models =
     [(blank_model 0xffff0000)\<lparr>bindings := [APP_IDX_DEV], cbs := config_ops Cfg_server\<rparr>,
      (blank_model 0xffff0001)\<lparr>bindings := [APP_IDX_DEV], cbs := config_ops Cfg_client\<rparr>,
      (blank_model 0xffff1001)\<lparr>bindings := [0], cbs := client_ops Onoff_client\<rparr>], loc = 0, ele_index = 0\<rparr>"

definition demo_local :: mesh_node where
  "demo_local = (blank_node 1)\<lparr>primary := 1, num_ele := 1, n_provisioner := True, elements := [demo_element]\<rparr>"

definition demo_remote :: mesh_node where
  "demo_remote = (blank_node 2)\<lparr>primary := 5, num_ele := 2\<rparr>"

definition demo_config :: cworld where
  "demo_config = demo_cworld\<lparr>nodes := [demo_local, demo_remote], clients := (\<lambda>_. client_start\<lparr>c_target := 1\<rparr>)\<rparr>"

lemma demo_models: "config_models (models demo_element)"
  by (simp add: config_models_def demo_element_def config_ops_def client_ops_def blank_model_def APP_IDX_DEV_def)

lemma demo_config_facts:
  "local_node demo_config = Some 1" "node_at demo_config 1 = Some demo_local" "node_at demo_config 2 = Some demo_remote"
  "local_node_rec demo_config = Some demo_local" "node_find_by_addr demo_config 1 = Some 1" "node_find_by_addr demo_config 5 = Some 2"
  "primary demo_local = 1" "num_ele demo_local = 1" "primary demo_remote = 5" "find_element demo_local 0 = Some demo_element"
  "nodes_wf demo_config" "cfg_target demo_config = 1" "seq_num (net demo_config) = 0" "node_at demo_config (Suc 0) = Some demo_local"
  by (simp_all add: demo_config_def demo_cworld_def demo_local_def demo_remote_def node_at_def local_node_rec_def
      node_find_by_addr_def match_node_unicast_def IS_UNICAST_def blank_node_def find_element_def demo_element_def
      nodes_wf_def cfg_target_def client_start_def demo_world_def blank_world_def blank_net_def)

theorem publication_reaches_server_witness:
  "\<exists>w'. server_msg_recvd demo_cfg (callbacks demo_cfg) 1 (pub_set_message 6 [1, 0xc000, 0, 7, 2, 0x1001]) demo_config = Ret (w', True) \<and>
     (\<exists>p. node_model_pub_get w' (Some 1) 0 0xffff1001 = Some p \<and> pub_u p = Addr16 0xc000)"
proof -
  have "\<exists>mdl. get_model demo_config (Some 1) 0 0xffff1001 = Some mdl \<and> op_pub (cbs mdl) = None"
    by (simp add: get_model_def demo_config_facts) (simp add: demo_element_def find_model_def blank_model_def client_ops_def)
  then obtain mdl where "get_model demo_config (Some 1) 0 0xffff1001 = Some mdl" "op_pub (cbs mdl) = None" by blast
  with publication_reaches_server [OF demo_config_facts(1,2), of 6 0 "[1, 0xc000, 0, 7, 2, 0x1001]" "0xffff1001" mdl _ demo_cfg "callbacks demo_cfg" 1, OF _ _ _ _ _ refl]
  show ?thesis by (fastforce simp: demo_config_facts)
qed

theorem reset_status_use_after_free_witness:
  "node_local_data_handler (callbacks demo_cfg) 5 1 7 9 APP_IDX_DEV [0x80, 0x4a] demo_config = Fault"
proof -
  have "\<not> replay_detected demo_remote 7 9"
    by (subst replay_detected_iff) (simp_all add: demo_remote_def blank_node_def)
  moreover have "\<not> is_loopback demo_local 5" "local_ele_idx demo_local 1 = Some 0"
    by (simp_all add: is_loopback_def local_ele_idx_def IS_ALL_NODES_def demo_config_facts)
  moreover have "mesh_opcode_set OP_NODE_RESET_STATUS = [0x80, 0x4a]"
    by (simp add: mesh_opcode_set_def cfg_ops be16_hi_def be16_lo_def)
  ultimately show ?thesis
    using reset_status_use_after_free [OF demo_config_facts(11,4) _ demo_config_facts(6,3,9) _ _ _ _ _ demo_config_facts(10) demo_models, of 9 7 1 demo_cfg "[]"]
    by (simp add: IS_GROUP_def IS_VIRTUAL_def word_le_nat_alt)
qed

lemma subscription_status_overread_witness:
  "callbacks demo_cfg Cfg_client 5 [0x80, 0x1f] demo_config = Fault"
proof -
  have "mesh_opcode_set OP_CONFIG_MODEL_SUB_STATUS = [0x80, 0x1f]"
    by (simp add: mesh_opcode_set_def cfg_ops be16_hi_def be16_lo_def)
  moreover have "cfg_tail demo_cfg = replicate 4 0" by (simp add: demo_cfg_def numeral_eq_Suc)
  ultimately show ?thesis
    using subscription_status_overread [of demo_cfg 4, OF _ _ demo_config_facts(6,3,9)] by simp
qed

theorem ttl_set_on_local_node_witness:
  "\<exists>w'. cmd_ttl_set demo_cfg [''ttl-set'', ''a''] demo_config = Ret (w', Some True) \<and> default_ttl (net w') = 10"
proof -
  have "config_node 1 demo_local demo_element demo_config"
    by (simp add: config_node_def demo_config_facts demo_models)
  moreover have "num_text 16 10 = ''a''" by (simp add: num_text.simps hexdigit_def)
  ultimately show ?thesis
    using ttl_set_on_local_node [of 1 demo_local demo_element demo_config 10 demo_cfg "''ttl-set''"] by (auto simp: demo_config_facts)
qed

text \<open>
  The local node sets its own default TTL: the server is called, and from it the
  client. One call deep, the outcome would be that of \<open>stop\<close>.
\<close>

theorem callback_depth_witness:
  "\<exists>w'. model_recv (\<lambda>_ _ _ w. Ret (w, False)) demo_cfg 3 Cfg_server 1 (mesh_opcode_set OP_CONFIG_DEFAULT_TTL_SET @ [10]) demo_config = Ret (w', True) \<and>
     default_ttl (net w') = 10 \<and> log w' = log demo_config @ [Db_call 1 (Db_ttl 10), Db_call 1 (Db_ttl 10)]"
proof -
  have n: "config_node 1 demo_local demo_element demo_config"
    by (simp add: config_node_def demo_config_facts demo_models)
  have t: "(10 :: u8) \<le> 0x7f" "(10 :: u8) \<noteq> 1" by simp_all
  note c1 = config_node_ttl [OF n t(1) refl]
  note c2 = config_node_ttl [OF c1(1) t(1) refl]
  have "callbacks demo_cfg Cfg_server 1 (mesh_opcode_set OP_CONFIG_DEFAULT_TTL_SET @ [10]) demo_config =
      Ret (emit (Db_call 1 (Db_ttl 10)) (fst (node_set_default_ttl (Some 1) 10
        (emit (Db_call 1 (Db_ttl 10)) (fst (node_set_default_ttl (Some 1) 10 demo_config))))), True)"
    using server_local_ttl [OF n t refl refl, of demo_cfg] by (simp add: demo_config_facts)
  then show ?thesis
    using c2(2) c2(3) [of "Db_call 1 (Db_ttl 10)"] c1(3) [of "Db_call 1 (Db_ttl 10)"]
      callback_depth [of "\<lambda>_ _ _ w. Ret (w, False)" demo_cfg 1 Cfg_server 1 _ demo_config]
    by (simp add: numeral_3_eq_3)
qed

end
