(* ===== verification/Mesh_Program.thy ===== *)
theory Mesh_Program
  imports Mesh_Config Mesh_NetSend
begin

text \<open>
  The parts together: the receive callbacks of the models satisfy what the network
  layer asks of them, and the invariant of the network layer holds in every state that
  the events of the network, the commands of the shell and the registration of the
  models reach.
\<close>

section \<open>The callbacks keep the network layer's invariant\<close>

named_theorems io_same \<open>operations that change nothing the network layer's invariant reads\<close>

lemma same_io_refl [io_same]: "same_io w w"
  by (simp add: same_io_def)

lemma same_io_trans: "same_io w v \<Longrightarrow> same_io v u \<Longrightarrow> same_io w u"
  by (simp add: same_io_def)

lemma same_io_upd_node [io_same]: "same_io w v \<Longrightarrow> same_io w (upd_node r f v)"
  by (simp add: same_io_def upd_node_def)

lemma same_io_emit [io_same]: "same_io w v \<Longrightarrow> written [e] = [] \<Longrightarrow> same_io w (emit e v)"
  by (simp add: same_io_def)

lemma same_io_upd_client [io_same]: "same_io w v \<Longrightarrow> same_io w (upd_client cb f v)"
  by (simp add: same_io_def)

lemma same_io_db [io_same]: "same_io w v \<Longrightarrow> same_io w (emit (Db_call r d) v)"
  by (rule same_io_emit) simp_all

lemma same_io_client_bind [io_same]: "same_io w (fst (client_bind cb i a w))"
  by (auto simp: client_bind_def Let_def io_same)


text \<open>The operations on nodes leave the network layer's record alone, but for the default TTL, and write nothing.\<close>

lemma node_ops_io [io_same]:
  "same_io w (fst (node_net_key_add r1 i w))" "same_io w (fst (node_net_key_delete r1 i w))"
  "same_io w (fst (node_app_key_add r1 i w))" "same_io w (fst (node_app_key_delete r1 n i w))"
  "same_io w (fst (node_add_subscription r1 ele m a w))" "same_io w (fst (node_set_model r1 ele m w))"
  "same_io w (fst (node_set_default_ttl r1 ttl w))"
  by (auto simp: node_net_key_add_def node_net_key_delete_def node_app_key_add_def node_app_key_delete_def
      node_add_subscription_def node_set_model_def Let_def io_same split: option.splits)
    (auto simp: node_set_default_ttl_def net_set_default_ttl_def same_io_def upd_node_def Let_def split: option.split)

lemma node_model_pub_set_io [io_same]: "same_io w (fst (node_model_pub_set r1 ele m p w))"
  by (auto simp: node_model_pub_set_def Let_def io_same split: option.split)

lemma node_add_binding_io [io_same]: "same_io w (fst (node_add_binding client_bind r1 ele m a w))"
  by (auto simp: node_add_binding_def Let_def case_prod_beta io_same split: option.split)

lemma if_done_io [io_same]:
  assumes "same_io w (fst p)" "\<And>v. same_io v (save v)"
  shows "same_io w (if_done save p)"
  using assms(1) same_io_trans [OF assms(1) assms(2)] by (simp add: if_done_def case_prod_beta)

lemma save_io [io_same]: "same_io w (save_app_keys r w)" "same_io w (save_net_keys r w)" "same_io w (set_publication r ele m p w)"
  by (auto simp: save_app_keys_def save_net_keys_def set_publication_def io_same split: option.split)

lemma comp_models_io:
  "comp_models width get_id node ele m data len w = Ret (w', ok, d, l) \<Longrightarrow> same_io w w'"
proof (induction width get_id node ele m data len w rule: comp_models.induct)
  case (2 width get_id node ele m data len w)
  obtain w1 ok1 where s: "node_set_model node ele (get_id data) w = (w1, ok1)" by fastforce
  then have "same_io w w1" using node_ops_io(6) [of w node ele "get_id data"] by simp
  with 2 s show ?case by (auto simp: Let_def io_same split: if_splits intro: same_io_trans)
qed (simp add: io_same)

lemma comp_elements_io: "comp_elements node n i data len w = Ret (w', ok) \<Longrightarrow> same_io w w'"
proof (induction n arbitrary: i data len w)
  case (Suc n)
  have u: "same_io (upd_node r f w) v \<Longrightarrow> same_io w v" for r f v by (simp add: same_io_def upd_node_def)
  from Suc.prems show ?case
    by (auto simp: Let_def cbind_Ret_iff split: if_splits dest!: comp_models_io Suc.IH u intro: same_io_trans)
qed (simp add: io_same)

lemma node_parse_composition_io: "node_parse_composition r data len w = Ret (w', ok) \<Longrightarrow> same_io w w'"
  by (auto simp: node_parse_composition_def Let_def cbind_Ret_iff split: option.splits if_splits
      dest!: comp_elements_io intro: io_same)

lemma client_msg_recvd_io:
  assumes "client_msg_recvd E src msg w = Ret (w', b)"
  shows "same_io w w'"
proof -
  have pool: "same_io w (node_free r (upd_net (\<lambda>k. k\<lparr>address_pool := p (address_pool k)\<rparr>) w))" for r p
    by (auto simp: node_free_def same_io_def split: option.split)
  show ?thesis using assms
    by (auto simp: client_msg_recvd_def comp_status_recvd_def appkey_status_recvd_def netkey_status_recvd_def
        model_app_status_recvd_def ttl_status_recvd_def pub_status_recvd_def sub_status_recvd_def list_status_recvd_def
        heartbeat_status_recvd_def reset_status_recvd_def Let_def cbind_Ret_iff io_same pool
        split: option.splits if_splits prod.splits dest!: node_parse_composition_io)
qed

lemma server_reply_keeps:
  "server_reply E recv r src msg w = Ret (w', b) \<Longrightarrow> recv_keeps recv \<Longrightarrow> net_inv w \<Longrightarrow> net_inv w'"
  by (auto simp: server_reply_def cbind_Ret_iff split: option.splits if_splits
      dest: net_access_layer_send_keeps node_local_data_handler_keeps)

lemma server_msg_recvd_keeps:
  assumes "server_msg_recvd E recv src msg w = Ret (w', b)" "recv_keeps recv" "net_inv w"
  shows "net_inv w'"
proof -
  have t: "net_inv (emit (Db_call r (Db_ttl d)) (fst (node_set_default_ttl (Some r) d w)))" for r d
    by (rule net_inv_same [OF _ assms(3)]) (intro io_same)
  have p: "server_pub_set E r data len w = Ret v \<Longrightarrow> net_inv v" for r data len v
    by (auto simp: server_pub_set_def Let_def assms(3) split: if_splits option.splits intro: net_inv_same [OF _ assms(3)] io_same)
  show ?thesis using assms(1,3)
    by (auto simp: server_msg_recvd_def Let_def cbind_Ret_iff split: option.splits if_splits prod.splits
        dest!: server_reply_keeps [OF _ assms(2)] intro: t p)
qed

lemma model_recv_keeps: "recv_keeps stop \<Longrightarrow> recv_keeps (model_recv stop E k)"
proof (induction k)
  case (Suc k)
  note IH = Suc.IH [OF Suc.prems]
  then show ?case
    by (auto simp: recv_keeps_def split: if_splits dest: server_msg_recvd_keeps [OF _ IH] client_msg_recvd_io intro: net_inv_same)
qed (simp add: recv_keeps_def)

interpretation models: message_receiver "callbacks E" for E
  by unfold_locales (unfold callbacks_def, rule model_recv_keeps, simp add: recv_keeps_def)

section \<open>The program\<close>

text \<open>
  The commands of the shell that act on the network, and the steps of the program: an event
  of the network layer with the real callbacks, a command, the registration of
  a model.
\<close>

definition client_commands ::
  "tx_env \<Rightarrow> string list \<Rightarrow> ('a cworld_scheme \<Rightarrow> ('a cworld_scheme \<times> bool option) cres) list" where
  "client_commands E argv =
     [onoff_cmd_set_node argv, onoff_cmd_get_status E, onoff_cmd_set E argv,
      level_cmd_set_node argv, level_cmd_get_status E, level_cmd_set E argv,
      lightness_cmd_set_node argv, lightness_cmd_get_status E, lightness_cmd_set E argv,
      ctl_cmd_set_node argv, ctl_cmd_get_status E, ctl_cmd_set E argv,
      hsl_cmd_set_node argv, hsl_cmd_get_status E, hsl_cmd_set E argv,
      time_cmd_set_node argv, time_cmd_get_status E, time_cmd_set E argv]"

definition config_commands ::
  "cfg_env \<Rightarrow> string list \<Rightarrow> ('a cworld_scheme \<Rightarrow> ('a cworld_scheme \<times> bool option) cres) list" where
  "config_commands E argv =
     [cmd_node_set argv, cmd_composition_get E argv, cmd_netkey_add E argv, cmd_netkey_del E argv,
      cmd_appkey_add E argv, cmd_appkey_del E argv, cmd_bind E argv, cmd_beacon_set E argv, cmd_beacon_get E,
      cmd_ident_set E argv, cmd_ident_get E argv, cmd_proxy_set E argv, cmd_proxy_get E, cmd_relay_set E argv,
      cmd_relay_get E, cmd_ttl_set E argv, cmd_ttl_get E, cmd_pub_set E argv, cmd_pub_get E argv, cmd_sub_add E argv,
      cmd_sub_get E argv, cmd_mod_appidx_get E argv, cmd_hb_pub_set E argv, cmd_hb_pub_get E, cmd_hb_sub_set E argv,
      cmd_hb_sub_get E, cmd_node_reset E]"

definition model_inits :: "u8 \<Rightarrow> ('a cworld_scheme \<Rightarrow> 'a cworld_scheme \<times> bool) list" where
  "model_inits ele =
     [config_client_init, config_server_init, onoff_client_init ele, hsl_client_init ele, ctl_client_init ele,
      level_client_init ele, lightness_client_init ele, time_client_init ele]"

inductive program_step :: "cfg_env \<Rightarrow> 'a cworld_scheme \<Rightarrow> 'a cworld_scheme \<Rightarrow> bool" for E where
  step_net: "net_step (cfg_tx E) (callbacks E) w w' \<Longrightarrow> program_step E w w'"
| step_client: "c \<in> set (client_commands (cfg_tx E) argv) \<Longrightarrow> c w = Ret (w', q) \<Longrightarrow> program_step E w w'"
| step_config: "c \<in> set (config_commands E argv) \<Longrightarrow> c w = Ret (w', q) \<Longrightarrow> program_step E w w'"
| step_composition: "config_client_get_composition E dst w = Ret w' \<Longrightarrow> program_step E w w'"
| step_init: "c \<in> set (model_inits ele) \<Longrightarrow> c w = (w', ok) \<Longrightarrow> program_step E w w'"
| step_restore: "program_step E w (restore_model_state client_bind m w)"

lemma net_inv_upd_client [simp]: "net_inv (upd_client cb f w) = net_inv w"
  by (simp add: net_inv_def)

lemma config_send_keeps: "config_send E buf w = Ret (w', b) \<Longrightarrow> net_inv w \<Longrightarrow> net_inv w'"
  by (auto simp: config_send_def cbind_Ret_iff split: option.splits if_splits
      dest: net_access_layer_send_keeps models.local_delivery)

lemma sent_keeps:
  "sent E buf w = Ret (w', q) \<Longrightarrow> net_inv w \<Longrightarrow> net_inv w'"
  "sent_quiet E buf w = Ret (w', q) \<Longrightarrow> net_inv w \<Longrightarrow> net_inv w'"
  by (auto simp: sent_def sent_quiet_def cbind_Ret_iff dest: config_send_keeps)

lemma cfg_command_keeps:
  assumes "cfg_command ok counts argv fin mk w = Ret (w', q)" "net_inv w"
    and "\<And>buf v. fin buf v = Ret (w', q) \<Longrightarrow> net_inv v \<Longrightarrow> net_inv w'"
  shows "net_inv w'"
  using assms(1,2) by (auto simp: cfg_command_def with_parms_def Let_def split: if_splits prod.splits dest: assms(3))

lemma cmd_default_keeps: "cmd_default E opcode w = Ret (w', q) \<Longrightarrow> net_inv w \<Longrightarrow> net_inv w'"
  by (auto simp: cmd_default_def split: if_splits dest: sent_keeps)

lemma net_inv_if_done: "net_inv (fst p) \<Longrightarrow> (\<And>v. same_io v (save v)) \<Longrightarrow> net_inv (if_done save p)"
  using net_inv_same [of "fst p" "save (fst p)"] by (simp add: if_done_def case_prod_beta)

lemma key_commands_keep:
  assumes "net_inv w"
  shows "cmd_net_key E argv opcode w = Ret (w', q) \<Longrightarrow> net_inv w'" "cmd_app_key E argv opcode w = Ret (w', q) \<Longrightarrow> net_inv w'"
  using assms
  by (auto simp: cmd_net_key_def cmd_app_key_def with_parms_def Let_def cbind_Ret_iff split: if_splits prod.splits option.splits
      dest!: config_send_keeps intro!: net_inv_if_done io_same intro: net_inv_same io_same)

lemma composition_get_keeps: "cmd_composition_get E argv w = Ret (w', q) \<Longrightarrow> net_inv w \<Longrightarrow> net_inv w'"
  by (auto simp: cmd_composition_get_def with_parms_def Let_def cbind_Ret_iff split: prod.splits dest: config_send_keeps)

lemma config_commands_keep:
  assumes "c \<in> set (config_commands E argv)" "c w = Ret (w', q)" "net_inv w"
  shows "net_inv w'"
proof -
  note d = cmd_bind_def cmd_beacon_set_def cmd_ident_set_def cmd_ident_get_def cmd_proxy_set_def cmd_relay_set_def
    cmd_ttl_set_def cmd_pub_set_def cmd_pub_get_def cmd_sub_add_def cmd_sub_get_def cmd_mod_appidx_get_def
    cmd_hb_pub_set_def cmd_hb_sub_set_def
  note g = cmd_beacon_get_def cmd_proxy_get_def cmd_relay_get_def cmd_ttl_get_def cmd_hb_pub_get_def cmd_hb_sub_get_def
    cmd_node_reset_def cmd_netkey_add_def cmd_netkey_del_def cmd_appkey_add_def cmd_appkey_del_def
  have set_node: "cmd_node_set argv w = Ret (w', q) \<Longrightarrow> net_inv w'"
    using assms(3) by (auto simp: cmd_node_set_def cmd_set_node_def Let_def split: if_splits prod.splits)
  have cfg: "cfg_command ok counts argv (fin E) mk w = Ret (w', q) \<Longrightarrow> fin = sent \<or> fin = sent_quiet \<Longrightarrow> net_inv w'" for ok counts mk fin
    by (erule cfg_command_keeps [OF _ assms(3)]) (auto dest: sent_keeps)
  show ?thesis using assms(1,2)
    by (auto simp: config_commands_def d g dest: cfg set_node cmd_default_keeps [OF _ assms(3)] composition_get_keeps [OF _ assms(3)]
        key_commands_keep [OF assms(3)])
qed

lemma send_cmd_keeps: "send_cmd E cb buf w = Ret (w', b) \<Longrightarrow> net_inv w \<Longrightarrow> net_inv w'"
  by (auto simp: send_cmd_def split: option.splits dest: net_access_layer_send_keeps)

lemma client_commands_keep:
  assumes "c \<in> set (client_commands E argv)" "c w = Ret (w', q)" "net_inv w"
  shows "net_inv w'"
proof -
  have set_node: "cmd_set_node cb quits argv w = Ret (w', q) \<Longrightarrow> net_inv w'" for cb quits
    using assms(3) by (auto simp: cmd_set_node_def Let_def split: if_splits prod.splits)
  have set: "send_set E cb quits ps mk w = Ret (w', q) \<Longrightarrow> net_inv w'" for cb quits ps mk
    using assms(3) by (auto simp: send_set_def Let_def cbind_Ret_iff dest: send_cmd_keeps)
  have get: "cmd_get_status E cb quits opcode w = Ret (w', q) \<Longrightarrow> net_inv w'" for cb quits opcode
    using assms(3) by (auto simp: cmd_get_status_def with_target_def Let_def cbind_Ret_iff split: if_splits dest: send_cmd_keeps)
  have tgt: "with_target cb quits w k = Ret (w', q) \<Longrightarrow> (k = Ret (w', q) \<Longrightarrow> net_inv w') \<Longrightarrow> net_inv w'" for cb quits k
    using assms(3) by (auto simp: with_target_def Let_def split: if_splits)
  note d = onoff_cmd_set_node_def onoff_cmd_get_status_def onoff_cmd_set_def level_cmd_set_node_def level_cmd_get_status_def
    level_cmd_set_def lightness_cmd_set_node_def lightness_cmd_get_status_def lightness_cmd_set_def ctl_cmd_set_node_def
    ctl_cmd_get_status_def ctl_cmd_set_def hsl_cmd_set_node_def hsl_cmd_get_status_def hsl_cmd_set_def
    time_cmd_set_node_def time_cmd_get_status_def time_cmd_set_def
  show ?thesis using assms(1,2)
    by (auto simp: client_commands_def d dest: set_node get elim!: tgt)
      (use assms(3) in \<open>auto simp: Let_def case_prod_beta split: if_splits dest: set\<close>)
qed

lemma model_inits_keep: "c \<in> set (model_inits ele) \<Longrightarrow> c w = (w', ok) \<Longrightarrow> net_inv w \<Longrightarrow> net_inv w'"
  by (erule net_inv_same [rotated])
    (auto simp: model_inits_def config_client_init_def config_server_init_def onoff_client_init_def hsl_client_init_def
      ctl_client_init_def level_client_init_def lightness_client_init_def time_client_init_def node_local_model_register_def
      node_local_vendor_model_register_def Let_def io_same split: option.splits if_splits)

lemma restore_bindings_io: "same_io w (restore_bindings client_bind cb is w)"
proof (induction "is" arbitrary: w)
  case (Cons i "is")
  then show ?case using same_io_client_bind [of w cb i 1]
    by (auto simp: Let_def case_prod_beta intro: same_io_trans)
qed (simp add: io_same)

lemma restore_io: "same_io w (restore_model_state client_bind m w)"
  by (auto simp: restore_model_state_def Let_def restore_bindings_io io_same split: option.splits)

lemma program_step_keeps:
  assumes "program_step E w w'" "net_inv w"
  shows "net_inv w'"
  using assms(1)
proof cases
  case (step_composition dst)
  then obtain v q where v: "cmd_composition_get E [] (set_cfg_target dst w) = Ret (v, q)" "w' = set_cfg_target (cfg_target w) v"
    by (auto simp: config_client_get_composition_def cbind_Ret_iff)
  then show ?thesis using assms(2) composition_get_keeps by (fastforce simp: set_cfg_target_def)
next
  case step_net then show ?thesis using models.network_step assms(2) by blast
next
  case step_client then show ?thesis using client_commands_keep assms(2) by blast
next
  case step_config then show ?thesis using config_commands_keep assms(2) by blast
next
  case step_init then show ?thesis using model_inits_keep assms(2) by blast
next
  case step_restore then show ?thesis using net_inv_same [OF restore_io assms(2)] by simp
qed

interpretation program: invariant_system "\<lambda>w. net w = blank_net \<and> log w = []" "program_step E" net_inv for E
proof
  show "net_inv w" if "net w = blank_net \<and> log w = []" for w :: "'a cworld_scheme"
    using that by (simp add: net_inv_def blank_net_def sar_in_ok_def sar_out_ok_def queue_ok_def)
qed (rule program_step_keeps)

text \<open>
  When a segment of a message in progress stays inside the buffer of the message:
  exactly when its number is not past that of the last segment.
\<close>

lemma store_segment_fault:
  assumes "length (sar_data s) = 20 + 12 * unat (TRANS_SEGN tpdu)" "16 \<le> length tpdu"
  shows "store_segment tpdu len s = Fault \<longleftrightarrow> TRANS_SEGN tpdu < TRANS_SEGO tpdu"
  using assms by (auto simp: store_segment_def Let_def cguard_def word_less_nat_alt)

text \<open>
  C3. The invariant of the whole program. A step is an operation that returns: a
  packet received, a completed write, a timeout, a session opened or closed, a
  command of the shell, the registration of a model, with the receive callbacks
  the models really have. In every state such steps reach from the start:
  there is one incoming message in progress per source, its buffer has exactly
  20 octets and twelve for each segment past the first, and a further segment
  of it is written outside the buffer exactly when its number is past the last
  one (no step leads out of a state in which the code does that); there is
  one acknowledged outgoing message per destination, segmented and to a unicast
  address; and the packet at the head of the queue is the one last written to GATT.
\<close>

theorem program_invariant:
  assumes "reach (\<lambda>w. net w = blank_net \<and> log w = []) (program_step E) w"
  shows "distinct (map sar_src (sar_in (net w))) \<and>
    (\<forall>s\<in>set (sar_in (net w)). unat (segN s) \<le> 31 \<and> length (sar_data s) = 20 + 12 * unat (segN s) \<and>
      (\<forall>tpdu len. TRANS_SEGN tpdu = segN s \<and> 16 \<le> length tpdu \<longrightarrow>
        (store_segment tpdu len s = Fault \<longleftrightarrow> TRANS_SEGN tpdu < TRANS_SEGO tpdu))) \<and>
    distinct (map sar_dst (msg_out (net w))) \<and>
    (\<forall>s\<in>set (msg_out (net w)). segmented s \<and> IS_UNICAST (sar_dst s)) \<and>
    (pkt_out (net w) \<noteq> [] \<longrightarrow> written (log w) \<noteq> [] \<and> last (written (log w)) = hd (pkt_out (net w)))"
proof -
  have i: "sar_in_ok (sar_in (net w))" "sar_out_ok (msg_out (net w))" "queue_ok (pkt_out (net w)) (log w)"
    using program.reach_inv [OF assms] by (simp_all add: net_inv_def)
  have "\<forall>s\<in>set (sar_in (net w)). \<forall>tpdu len. TRANS_SEGN tpdu = segN s \<and> 16 \<le> length tpdu \<longrightarrow>
      (store_segment tpdu len s = Fault \<longleftrightarrow> TRANS_SEGN tpdu < TRANS_SEGO tpdu)"
    using i(1) by (auto simp: sar_in_ok_def store_segment_fault)
  with i show ?thesis by (auto simp: sar_in_ok_def sar_out_ok_def queue_ok_def)
qed

text \<open>
  A node that sent a message of two segments to node 5, then received the first
  of two segments of another message.
\<close>

definition demo_program :: cworld where
  "demo_program = demo_cworld\<lparr>keys := \<lparr>net_keys = [demo_rx_key], app_keys = []\<rparr>,
     nodes := [(blank_node 1)\<lparr>primary := 1, num_ele := 1, primary_net_idx := 7\<rparr>]\<rparr>"

lemma demo_program_simps:
  "net demo_program = blank_net" "log demo_program = []" "keys demo_program = \<lparr>net_keys = [demo_rx_key], app_keys = []\<rparr>"
  "local_node_rec demo_program = Some ((blank_node 1)\<lparr>primary := 1, num_ele := 1, primary_net_idx := 7\<rparr>)"
  by (simp_all add: demo_program_def demo_cworld_def demo_world_def blank_world_def local_node_rec_def node_at_def blank_node_def)

lemma send_segs_queues:
  assumes "send_segs E sar idxs w = Ret w'" "find_net_key_by_idx (keys w) (sar_net_idx sar) \<noteq> None" "idxs \<noteq> [] \<or> pkt_out (net w) \<noteq> []"
  shows "pkt_out (net w') \<noteq> []"
  using assms
proof (induction idxs arbitrary: w)
  case (Cons i idxs)
  then obtain v where v: "send_seg E sar i w = Ret v" "send_segs E sar idxs v = Ret w'" by (auto simp: cbind_Ret_iff)
  from v(1) Cons.prems(2) have "pkt_out (net v) \<noteq> [] \<and> keys v = keys w"
    by (elim send_seg_cases) auto
  with Cons.IH [OF v(2)] Cons.prems show ?case by simp
qed simp

lemma demo_program_sends:
  "\<exists>w. net_access_layer_send (cfg_tx demo_cfg) 7 1 5 APP_IDX_DEV (replicate 20 9) demo_program = Ret (w, True) \<and>
     msg_out (net w) \<noteq> [] \<and> pkt_out (net w) \<noteq> [] \<and> same_sar (w\<lparr>net := (net w)\<lparr>msg_out := []\<rparr>\<rparr>) demo_program"
proof -
  let ?E = "cfg_tx demo_cfg"
  have E: "ecb_is (tx_alg ?E) k (demo_E k)" for k by (simp add: demo_cfg_def demo_env_def demo_alg_ecb)
  have k: "get_enc_keys demo_program APP_IDX_DEV (ucast (5 :: u32)) = Some (0, replicate 16 0, 7)"
    by (simp add: get_enc_keys_def demo_program_simps blank_net_def node_get_primary_net_idx_def blank_node_def)
  have sN: "SEG_MAX (length (replicate 20 9 :: bytes) + 4) = 1" by (simp add: SEG_MAX_def)
  have f: "find_sar_out_by_dst demo_program 5 = None"
    by (simp add: find_sar_out_by_dst_def demo_program_simps blank_net_def)
  obtain w where s: "access_send ?E 7 1 5 [] (0, replicate 16 0, 7) (replicate 20 9) demo_program = Ret (w, True)"
    using access_send_total [OF E, of "[]" "replicate 20 9"] by fastforce
  then obtain sar w2 where
    sar: "access_sar ?E 7 1 5 [] (0, replicate 16 0, 7) (replicate 20 9) (net demo_program) = Ret sar" and
    w2: "send_segs ?E sar (all_segs sar) demo_program = Ret w2" and
    w: "w = upd_net (\<lambda>n. n\<lparr>msg_out := msg_out n @ [sar\<lparr>ack_to := True, msg_to := True\<rparr>]\<rparr>) w2"
    by (auto simp: access_send_def Let_def cbind_Ret_iff sN f IS_UNICAST_def SEG_MAX_def)
  have "find_net_key_by_idx (keys demo_program) (sar_net_idx sar) \<noteq> None"
    using access_sar_more(3) [OF sar] by (simp add: find_net_key_by_idx_def demo_program_simps demo_rx_key_def demo_net_key_def)
  then have "pkt_out (net w2) \<noteq> []" by (rule send_segs_queues [OF w2]) (simp add: all_segs_def)
  moreover have "same_sar demo_program w2" using send_segs_keeps [OF w2] by simp
  moreover have "net_access_layer_send ?E 7 1 5 APP_IDX_DEV (replicate 20 9) demo_program = Ret (w, True)"
    using k s by (simp add: net_access_layer_send_def Let_def demo_program_simps access_target_def IS_VIRTUAL_def)
  ultimately show ?thesis by (auto simp: w same_sar_def demo_program_simps blank_net_def upd_net_def)
qed

theorem program_invariant_witness:
  "\<exists>w. reach (\<lambda>w. net w = blank_net \<and> log w = []) (program_step demo_cfg) (w :: cworld) \<and>
     sar_in (net w) \<noteq> [] \<and> msg_out (net w) \<noteq> [] \<and> pkt_out (net w) \<noteq> [] \<and>
     distinct (map sar_src (sar_in (net w))) \<and> last (written (log w)) = hd (pkt_out (net w))"
proof -
  let ?R = "reach (\<lambda>w. net w = blank_net \<and> log w = []) (program_step demo_cfg)"
  have r0: "?R demo_program" by (rule reach_init) (simp add: demo_program_simps)
  obtain w1 where w1: "net_access_layer_send (cfg_tx demo_cfg) 7 1 5 APP_IDX_DEV (replicate 20 9) demo_program = Ret (w1, True)"
    "msg_out (net w1) \<noteq> []" "pkt_out (net w1) \<noteq> []" "same_sar (w1\<lparr>net := (net w1)\<lparr>msg_out := []\<rparr>\<rparr>) demo_program"
    using demo_program_sends by blast
  have r1: "?R w1" using r0 step_net [OF net_access [OF w1(1)]] by (rule reach_step)
  define w2 where "w2 = net_set_iv_index 5 False w1"
  have r2: "?R w2" unfolding w2_def using r1 step_net [OF net_iv] by (rule reach_step)
  obtain q where q: "mesh_crypto_packet_encode demo_alg demo_segment [1] 5 [2] = Ret q" using demo_segment_encodes by blast
  obtain w3 where w3: "net_data_ready (cfg_tx demo_cfg) (callbacks demo_cfg) (0 # q @ replicate 12 0) 19 w2 = Ret (w3, False)"
    "sar_in (net w3) \<noteq> []" "msg_out (net w3) = msg_out (net w2)" "pkt_out (net w3) = pkt_out (net w2)"
    using demo_packet_received [OF _ _ _ _ q, of "cfg_tx demo_cfg" w2 "callbacks demo_cfg"] w1(4)
    by (auto simp: demo_cfg_def demo_env_def w2_def net_set_iv_index_def same_sar_def demo_program_simps blank_net_def)
  have r3: "?R w3" using r2 step_net [OF net_rx [OF w3(1)]] by (rule reach_step)
  from program_invariant [OF this] w3 w1(2,3) r3 show ?thesis
    by (intro exI [of _ w3]) (simp add: w2_def net_set_iv_index_def)
qed

end
