(* ===== verification/Mesh_Json.thy ===== *)
theory Mesh_Json
  imports Mesh_Models
begin

text \<open>
  The JSON library \<^verbatim>\<open>json-c\<close>, which \<^verbatim>\<open>mesh/prov-db.c\<close> keeps its files with, is not part
  of the repository. Its functions are the fields of the record \<open>json_c\<close>, an argument
  of every definition that uses them, and the locale \<open>json_lib\<close> states what its
  documentation promises of them.

  A \<^verbatim>\<open>json_object *\<close> is a value of type \<open>'j\<close> or null (None); JSON's \<^verbatim>\<open>null\<close> is the null
  pointer. The code changes parts of a document in place through a pointer to
  the part. Here such a pointer is the path from the root to the part, and a
  change through it replaces the part in the document.

  At the end stands a datatype of JSON values with a printer and a parser, on which
  \<open>json_lib\<close> is interpreted.
\<close>

section \<open>The functions of json-c\<close>

record 'j json_c =
  j_parse :: "string \<Rightarrow> 'j option"
  j_text :: "'j \<Rightarrow> string"
  j_is_object :: "'j \<Rightarrow> bool"
  j_is_array :: "'j \<Rightarrow> bool"
  j_get :: "'j option \<Rightarrow> string \<Rightarrow> 'j option"
  j_add :: "'j \<Rightarrow> string \<Rightarrow> 'j \<Rightarrow> 'j"
  j_del :: "'j \<Rightarrow> string \<Rightarrow> 'j"
  j_length :: "'j \<Rightarrow> nat"
  j_idx :: "'j \<Rightarrow> nat \<Rightarrow> 'j option"
  j_append :: "'j \<Rightarrow> 'j \<Rightarrow> 'j"
  j_put_idx :: "'j \<Rightarrow> nat \<Rightarrow> 'j \<Rightarrow> 'j"
  j_new_object :: 'j
  j_new_array :: 'j
  j_new_string :: "string \<Rightarrow> 'j"
  j_new_int :: "int \<Rightarrow> 'j"
  j_new_boolean :: "bool \<Rightarrow> 'j"
  j_get_string :: "'j option \<Rightarrow> string option"
  j_get_int :: "'j option \<Rightarrow> int"
  j_get_boolean :: "'j option \<Rightarrow> bool"

text \<open>The entries of an array in order; a null entry is None.\<close>

definition j_items :: "'j json_c \<Rightarrow> 'j \<Rightarrow> 'j option list" where
  "j_items J a = map (j_idx J a) [0..<j_length J a]"

section \<open>Parts of a document\<close>

datatype jstep = Member string | Item nat

fun jat :: "'j json_c \<Rightarrow> jstep list \<Rightarrow> 'j \<Rightarrow> 'j option" where
  "jat J [] j = Some j"
| "jat J (Member k # p) j = Option.bind (j_get J (Some j) k) (jat J p)"
| "jat J (Item i # p) j = Option.bind (j_idx J j i) (jat J p)"

fun jset :: "'j json_c \<Rightarrow> jstep list \<Rightarrow> 'j \<Rightarrow> 'j \<Rightarrow> 'j" where
  "jset J [] v j = v"
| "jset J (Member k # p) v j =
     (case j_get J (Some j) k of None \<Rightarrow> j | Some c \<Rightarrow> j_add J j k (jset J p v c))"
| "jset J (Item i # p) v j =
     (case j_idx J j i of None \<Rightarrow> j | Some c \<Rightarrow> j_put_idx J j i (jset J p v c))"

text \<open>Two paths that part at some step lead to separate parts.\<close>

fun apart :: "jstep list \<Rightarrow> jstep list \<Rightarrow> bool" where
  "apart (Member k # p) (Member l # q) \<longleftrightarrow> k \<noteq> l \<or> apart p q"
| "apart (Item i # p) (Item n # q) \<longleftrightarrow> i \<noteq> n \<or> apart p q"
| "apart _ _ \<longleftrightarrow> False"

section \<open>What json-c promises\<close>

locale json_lib =
  fixes J :: "'j json_c"
  assumes get_null [simp]: "j_get J None k = None"
    and get_object: "j_get J (Some j) k = Some v \<Longrightarrow> j_is_object J j"
    and add_object [simp]: "j_is_object J j \<Longrightarrow> j_is_object J (j_add J j k v)"
    and get_add [simp]: "j_is_object J j \<Longrightarrow>
      j_get J (Some (j_add J j k v)) k' = (if k' = k then Some v else j_get J (Some j) k')"
    and del_object [simp]: "j_is_object J j \<Longrightarrow> j_is_object J (j_del J j k)"
    and get_del [simp]: "j_is_object J j \<Longrightarrow>
      j_get J (Some (j_del J j k)) k' = (if k' = k then None else j_get J (Some j) k')"
    and new_object [simp]: "j_is_object J (j_new_object J)"
    and get_new [simp]: "j_get J (Some (j_new_object J)) k = None"
    and new_array [simp]: "j_is_array J (j_new_array J)"
    and length_new [simp]: "j_length J (j_new_array J) = 0"
    and idx_array: "j_idx J a i = Some v \<Longrightarrow> j_is_array J a \<and> i < j_length J a"
    and append_array [simp]: "j_is_array J a \<Longrightarrow> j_is_array J (j_append J a v)"
    and length_append [simp]: "j_is_array J a \<Longrightarrow> j_length J (j_append J a v) = Suc (j_length J a)"
    and idx_append [simp]: "j_is_array J a \<Longrightarrow>
      j_idx J (j_append J a v) i = (if i = j_length J a then Some v else j_idx J a i)"
    and put_array [simp]: "j_is_array J a \<Longrightarrow> i < j_length J a \<Longrightarrow> j_is_array J (j_put_idx J a i v)"
    and length_put [simp]: "j_is_array J a \<Longrightarrow> i < j_length J a \<Longrightarrow> j_length J (j_put_idx J a i v) = j_length J a"
    and idx_put [simp]: "j_is_array J a \<Longrightarrow> i < j_length J a \<Longrightarrow>
      j_idx J (j_put_idx J a i v) i' = (if i' = i then Some v else j_idx J a i')"
    and string_new [simp]: "j_get_string J (Some (j_new_string J s)) = Some s"
    and string_null [simp]: "j_get_string J None = None"
    and int_new [simp]: "- (2 ^ 31) \<le> n \<Longrightarrow> n < 2 ^ 31 \<Longrightarrow> j_get_int J (Some (j_new_int J n)) = n"
    and int_null [simp]: "j_get_int J None = 0"
    and int_string: "s \<noteq> [] \<Longrightarrow> length s \<le> 9 \<Longrightarrow> digit_run 10 s = s \<Longrightarrow>
      j_get_int J (Some (j_new_string J s)) = digits_value 10 s"
    and boolean_new [simp]: "j_get_boolean J (Some (j_new_boolean J b)) = b"
    and boolean_null [simp]: "j_get_boolean J None = False"
    and parse_text [simp]: "j_parse J (j_text J j) = Some j"
begin

lemma items_new [simp]: "j_items J (j_new_array J) = []"
  by (simp add: j_items_def)

lemma items_append [simp]: "j_is_array J a \<Longrightarrow> j_items J (j_append J a v) = j_items J a @ [Some v]"
  by (auto simp: j_items_def)

lemma length_items [simp]: "length (j_items J a) = j_length J a"
  by (simp add: j_items_def)

lemma nth_items [simp]: "i < j_length J a \<Longrightarrow> j_items J a ! i = j_idx J a i"
  by (simp add: j_items_def)

lemma items_put: "j_is_array J a \<Longrightarrow> i < j_length J a \<Longrightarrow> j_items J (j_put_idx J a i v) = (j_items J a)[i := Some v]"
  by (rule nth_equalityI) (auto simp: nth_list_update)

text \<open>Reading a part after a change of it, and after a change of another part.\<close>

lemma jat_append: "jat J (p @ q) j = Option.bind (jat J p j) (jat J q)"
proof (induction p arbitrary: j)
  case (Cons s p)
  show ?case by (cases s) (auto simp: Cons.IH split: bind_split)
qed simp

lemma jat_jset_same: "jat J p j \<noteq> None \<Longrightarrow> jat J p (jset J p v j) = Some v"
proof (induction p arbitrary: j)
  case (Cons s p)
  show ?case
  proof (cases s)
    case (Member k)
    with Cons show ?thesis by (cases "j_get J (Some j) k") (auto dest: get_object)
  next
    case (Item i)
    with Cons show ?thesis by (cases "j_idx J j i") (auto dest: idx_array)
  qed
qed simp

lemma jat_jset_apart: "apart p q \<Longrightarrow> jat J q (jset J p v j) = jat J q j"
proof (induction p q arbitrary: j rule: apart.induct)
  case (1 k p l q)
  then show ?case using get_object [of j k] by (cases "j_get J (Some j) k") auto
next
  case (2 i p n q)
  then show ?case using idx_array [of j i] by (cases "j_idx J j i") auto
qed simp_all

lemma jat_jset_below: "jat J p j \<noteq> None \<Longrightarrow> jat J (p @ q) (jset J p v j) = jat J q v"
  by (simp add: jat_append jat_jset_same)

lemma jset_append: "jat J p j = Some c \<Longrightarrow> jset J (p @ q) v j = jset J p (jset J q v c) j"
proof (induction p arbitrary: j)
  case (Cons s p)
  then show ?case by (cases s) (auto split: bind_splits option.splits)
qed simp

end

section \<open>JSON values\<close>

text \<open>
  Objects keep their members in order, arrays may hold null entries. The text has no
  blanks; the parser reads what the printer writes.
\<close>

datatype json = JObj "(string \<times> json option) list" | JArr "json option list" | JStr string | JInt int | JBool bool

definition quote_text :: "string \<Rightarrow> string" where
  "quote_text s = CHR 34 # concat (map (\<lambda>c. if c = CHR 34 \<or> c = CHR 92 then [CHR 92, c] else [c]) s) @ [CHR 34]"

definition int_text :: "int \<Rightarrow> string" where
  "int_text i = (if i < 0 then CHR 45 # num_text 10 (nat (- i)) else num_text 10 (nat i))"

definition null_text :: "string option \<Rightarrow> string" where
  "null_text v = (case v of None \<Rightarrow> ''null'' | Some s \<Rightarrow> s)"

text \<open>The entries with a comma before each; the first comma is dropped by the printer and put back by the parser.\<close>

definition items_text :: "string option list \<Rightarrow> string" where
  "items_text vs = concat (map (\<lambda>v. CHR 44 # null_text v) vs)"

definition members_text :: "(string \<times> string option) list \<Rightarrow> string" where
  "members_text ms = concat (map (\<lambda>(k, v). CHR 44 # quote_text k @ CHR 58 # null_text v) ms)"

primrec json_text :: "json \<Rightarrow> string" where
  "json_text (JObj ms) = CHR 123 # tl (members_text (map (map_prod id (map_option json_text)) ms)) @ [CHR 125]"
| "json_text (JArr vs) = CHR 91 # tl (items_text (map (map_option json_text) vs)) @ [CHR 93]"
| "json_text (JStr s) = quote_text s"
| "json_text (JInt i) = int_text i"
| "json_text (JBool b) = (if b then ''true'' else ''false'')"

fun read_quoted :: "string \<Rightarrow> (string \<times> string) option" where
  "read_quoted [] = None"
| "read_quoted (c # r) =
     (if c = CHR 34 then Some ([], r)
      else if c = CHR 92 then (case r of [] \<Rightarrow> None | d # r' \<Rightarrow> map_option (\<lambda>(t, q). (d # t, q)) (read_quoted r'))
      else map_option (\<lambda>(t, q). (c # t, q)) (read_quoted r))"

definition read_int :: "string \<Rightarrow> (json \<times> string) option" where
  "read_int s =
     (let neg = (take 1 s = ''-''); t = (if neg then tl s else s); ds = digit_run 10 t; v = digits_value 10 ds
      in if ds = [] then None else Some (JInt (if neg then - v else v), drop (length ds) t))"

fun read_value :: "nat \<Rightarrow> string \<Rightarrow> (json option \<times> string) option"
  and read_items :: "nat \<Rightarrow> string \<Rightarrow> (json option list \<times> string) option"
  and read_members :: "nat \<Rightarrow> string \<Rightarrow> ((string \<times> json option) list \<times> string) option" where
  "read_value 0 s = None"
| "read_value (Suc n) s =
     (case s of [] \<Rightarrow> None
      | c # r \<Rightarrow>
          if c = CHR 123 then map_option (map_prod (Some \<circ> JObj) id) (read_members n (if take 1 r = [CHR 125] then r else CHR 44 # r))
          else if c = CHR 91 then map_option (map_prod (Some \<circ> JArr) id) (read_items n (if take 1 r = [CHR 93] then r else CHR 44 # r))
          else if c = CHR 34 then map_option (map_prod (Some \<circ> JStr) id) (read_quoted r)
          else if take 4 s = ''null'' then Some (None, drop 4 s)
          else if take 4 s = ''true'' then Some (Some (JBool True), drop 4 s)
          else if take 5 s = ''false'' then Some (Some (JBool False), drop 5 s)
          else map_option (map_prod Some id) (read_int s))"
| "read_items 0 s = None"
| "read_items (Suc n) s =
     (case s of [] \<Rightarrow> None
      | c # r \<Rightarrow>
          if c = CHR 93 then Some ([], r)
          else if c = CHR 44 then
            Option.bind (read_value n r) (\<lambda>(v, r1). map_option (map_prod ((#) v) id) (read_items n r1))
          else None)"
| "read_members 0 s = None"
| "read_members (Suc n) s =
     (case s of [] \<Rightarrow> None
      | c # r \<Rightarrow>
          if c = CHR 125 then Some ([], r)
          else if take 2 s = [CHR 44, CHR 34] then
            Option.bind (read_quoted (drop 2 s)) (\<lambda>(k, r1).
              if take 1 r1 = '':'' then
                Option.bind (read_value n (tl r1)) (\<lambda>(v, r2). map_option (map_prod ((#) (k, v)) id) (read_members n r2))
              else None)
          else None)"

definition json_parse :: "string \<Rightarrow> json option" where
  "json_parse s = (case read_value (Suc (length s)) s of Some (v, []) \<Rightarrow> v | _ \<Rightarrow> None)"

lemma read_quoted_text:
  "read_quoted (concat (map (\<lambda>c. if c = CHR 34 \<or> c = CHR 92 then [CHR 92, c] else [c]) s) @ CHR 34 # r) = Some (s, r)"
  by (induction s) auto

text \<open>The text that follows a value: not a digit, so that a number ends where it was printed.\<close>

definition no_digit :: "string \<Rightarrow> bool" where
  "no_digit r \<longleftrightarrow> r = [] \<or> \<not> is_digit 10 (hd r)"

lemma digit_run_append: "digit_run b s = s \<Longrightarrow> (r = [] \<or> \<not> is_digit b (hd r)) \<Longrightarrow> digit_run b (s @ r) = s"
  by (cases r) (auto simp: digit_run_def takeWhile_append takeWhile_eq_all_conv)

lemma digits10_head: "digit_run 10 s = s \<Longrightarrow> s \<noteq> [] \<Longrightarrow> \<exists>c cs. s = c # cs \<and> is_digit 10 c"
  by (cases s) (auto simp: digit_run_def split: if_splits)

lemma read_int_text: "no_digit r \<Longrightarrow> read_int (int_text i @ r) = Some (JInt i, r)"
proof -
  assume r: "no_digit r"
  have n: "digit_run 10 (num_text 10 m @ r) = num_text 10 m" "num_text 10 m \<noteq> []"
    "digits_value 10 (num_text 10 m) = int m" for m
    using num_text_scan(3,4) [of 10, OF _ refl, of m] num_text_digits [of 10 m] r
    by (auto intro: digit_run_append simp: no_digit_def)
  have "take 1 (num_text 10 m @ r) \<noteq> ''-''" for m
    using digits10_head [OF num_text_scan(3,4) [of 10, OF _ refl, of m]] by (auto simp: is_digit_def hexval_def split: if_splits)
  then show ?thesis using n by (simp add: read_int_def int_text_def Let_def)
qed

lemma int_text_head: "\<exists>c cs. int_text i = c # cs \<and> (c = CHR 45 \<or> is_digit 10 c)"
  using digits10_head [OF num_text_scan(3,4) [of 10, OF _ refl]] by (force simp: int_text_def)

lemma json_text_head: "\<exists>c cs. json_text v = c # cs \<and> c \<noteq> CHR 93"
proof (cases v)
  case (JInt i)
  then show ?thesis using int_text_head [of i] by (auto simp: is_digit_def hexval_def split: if_splits)
qed (auto simp: quote_text_def)

lemma read_items_text:
  assumes "\<And>v n r. Some v \<in> set vs \<Longrightarrow> length (json_text v) < n \<Longrightarrow> no_digit r \<Longrightarrow> read_value n (json_text v @ r) = Some (Some v, r)"
    and "length (items_text (map (map_option json_text) vs)) < n"
  shows "read_items n (items_text (map (map_option json_text) vs) @ CHR 93 # r) = Some (vs, r)"
  using assms
proof (induction vs arbitrary: n)
  case Nil
  then show ?case by (cases n) (simp_all add: items_text_def)
next
  case (Cons v vs)
  obtain m where m: "n = Suc m" using Cons.prems by (cases n) auto
  let ?rest = "items_text (map (map_option json_text) vs) @ CHR 93 # r"
  have rest: "no_digit ?rest" by (cases vs) (auto simp: no_digit_def items_text_def is_digit_def hexval_def)
  have "read_value m (null_text (map_option json_text v) @ ?rest) = Some (v, ?rest)"
  proof (cases v)
    case None
    with Cons.prems(2) show ?thesis by (cases m) (simp_all add: null_text_def m items_text_def)
  next
    case (Some x)
    have "length (json_text x) < m" using Cons.prems(2) Some by (simp add: null_text_def m items_text_def)
    from Cons.prems(1) [OF _ this rest] show ?thesis using Some by (simp add: null_text_def)
  qed
  moreover have "read_items m ?rest = Some (vs, r)"
    by (rule Cons.IH) (use Cons.prems in \<open>auto simp: m items_text_def\<close>)
  moreover have "items_text (map (map_option json_text) (v # vs)) @ CHR 93 # r = CHR 44 # null_text (map_option json_text v) @ ?rest"
    by (simp add: items_text_def)
  ultimately show ?case by (simp only: m) simp
qed

lemma read_members_text:
  assumes "\<And>k v n r. (k, Some v) \<in> set ms \<Longrightarrow> length (json_text v) < n \<Longrightarrow> no_digit r \<Longrightarrow> read_value n (json_text v @ r) = Some (Some v, r)"
    and "length (members_text (map (map_prod id (map_option json_text)) ms)) < n"
  shows "read_members n (members_text (map (map_prod id (map_option json_text)) ms) @ CHR 125 # r) = Some (ms, r)"
  using assms
proof (induction ms arbitrary: n)
  case Nil
  then show ?case by (cases n) (simp_all add: members_text_def)
next
  case (Cons kv ms)
  obtain k v where kv: "kv = (k, v)" by (cases kv)
  obtain m where m: "n = Suc m" using Cons.prems by (cases n) auto
  let ?rest = "members_text (map (map_prod id (map_option json_text)) ms) @ CHR 125 # r"
  have rest: "no_digit ?rest" by (cases ms) (auto simp: no_digit_def members_text_def is_digit_def hexval_def)
  have "read_value m (null_text (map_option json_text v) @ ?rest) = Some (v, ?rest)"
  proof (cases v)
    case None
    with Cons.prems(2) show ?thesis by (cases m) (simp_all add: null_text_def m members_text_def kv)
  next
    case (Some x)
    have "length (json_text x) < m" using Cons.prems(2) Some by (simp add: null_text_def m members_text_def kv)
    from Cons.prems(1) [OF _ this rest, of k] show ?thesis using Some by (simp add: null_text_def kv)
  qed
  moreover have "read_members m ?rest = Some (ms, r)"
    by (rule Cons.IH) (use Cons.prems in \<open>auto simp: m members_text_def kv\<close>)
  moreover have "members_text (map (map_prod id (map_option json_text)) (kv # ms)) @ CHR 125 # r =
      CHR 44 # CHR 34 # concat (map (\<lambda>c. if c = CHR 34 \<or> c = CHR 92 then [CHR 92, c] else [c]) k) @
        CHR 34 # CHR 58 # null_text (map_option json_text v) @ ?rest"
    by (simp add: members_text_def kv quote_text_def)
  ultimately show ?case by (simp only: m) (simp add: read_quoted_text kv)
qed

lemma read_json_text:
  "length (json_text v) < n \<Longrightarrow> no_digit r \<Longrightarrow> read_value n (json_text v @ r) = Some (Some v, r)"
proof (induction v arbitrary: n r)
  case (JObj ms)
  then obtain m where m: "n = Suc m" by (cases n) auto
  let ?t = "members_text (map (map_prod id (map_option json_text)) ms)"
  have "length ?t < m" using JObj(2) m by (cases ms) (auto simp: members_text_def)
  then have "read_members m (?t @ CHR 125 # r) = Some (ms, r)"
    using JObj(1,3) by (intro read_members_text) auto
  then show ?case by (cases ms) (auto simp: m members_text_def quote_text_def)
next
  case (JArr vs)
  then obtain m where m: "n = Suc m" by (cases n) auto
  let ?t = "items_text (map (map_option json_text) vs)"
  have "length ?t < m" using JArr(2) m by (cases vs) (auto simp: items_text_def)
  then have "read_items m (?t @ CHR 93 # r) = Some (vs, r)"
    using JArr(1,3) by (intro read_items_text) auto
  moreover have "take 1 (tl ?t @ CHR 93 # r) \<noteq> [CHR 93] \<and> ?t @ CHR 93 # r = CHR 44 # tl ?t @ CHR 93 # r" if vs: "vs \<noteq> []"
  proof -
    obtain c cs where "null_text (map_option json_text (hd vs)) = c # cs" "c \<noteq> CHR 93"
      using json_text_head by (cases "hd vs") (force simp: null_text_def)+
    with vs show ?thesis by (cases vs) (simp_all add: items_text_def)
  qed
  ultimately show ?case using items_text_def [of "[]"] by (cases "vs = []") (simp_all add: m)
next
  case (JStr s)
  then show ?case by (cases n) (simp_all add: quote_text_def read_quoted_text)
next
  case (JInt i)
  then obtain m where m: "n = Suc m" by (cases n) auto
  obtain c cs where c: "int_text i = c # cs" "c = CHR 45 \<or> is_digit 10 c" using int_text_head by blast
  have "c \<noteq> CHR 123" "c \<noteq> CHR 91" "c \<noteq> CHR 34" "c \<noteq> CHR ''n''" "c \<noteq> CHR ''t''" "c \<noteq> CHR ''f''"
    using c(2) by (auto simp: is_digit_def hexval_def)
  then show ?case using read_int_text [OF JInt(2), of i] c(1) by (simp add: m)
next
  case (JBool b)
  then show ?case by (cases n) auto
qed

lemma json_parse_text: "json_parse (json_text v) = Some v"
  using read_json_text [of v "Suc (length (json_text v))" "[]"] by (simp add: json_parse_def no_digit_def)

section \<open>The library on JSON values\<close>

definition json_members :: "json \<Rightarrow> (string \<times> json option) list" where
  "json_members j = (case j of JObj ms \<Rightarrow> ms | _ \<Rightarrow> [])"

definition json_items :: "json \<Rightarrow> json option list" where
  "json_items j = (case j of JArr vs \<Rightarrow> vs | _ \<Rightarrow> [])"

fun put_member :: "string \<Rightarrow> json \<Rightarrow> (string \<times> json option) list \<Rightarrow> (string \<times> json option) list" where
  "put_member k v [] = [(k, Some v)]"
| "put_member k v ((k', v') # ms) = (if k' = k then (k, Some v) # ms else (k', v') # put_member k v ms)"

definition json_string :: "json option \<Rightarrow> string option" where
  "json_string v = (case v of None \<Rightarrow> None | Some (JStr s) \<Rightarrow> Some s | Some j \<Rightarrow> Some (json_text j))"

definition json_int :: "json option \<Rightarrow> int" where
  "json_int v = (case v of Some (JInt i) \<Rightarrow> max (- (2 ^ 31)) (min (2 ^ 31 - 1) i)
     | Some (JBool b) \<Rightarrow> of_bool b
     | Some (JStr s) \<Rightarrow>
         (let (neg, t) = scan_sign (dropWhile is_space s); n = digits_value 10 (digit_run 10 t)
          in max (- (2 ^ 31)) (min (2 ^ 31 - 1) (if neg then - n else n)))
     | _ \<Rightarrow> 0)"

definition json_boolean :: "json option \<Rightarrow> bool" where
  "json_boolean v = (case v of Some (JBool b) \<Rightarrow> b | Some (JInt i) \<Rightarrow> i \<noteq> 0 | Some (JStr s) \<Rightarrow> s \<noteq> [] | _ \<Rightarrow> False)"

definition json_impl :: "json json_c" where
  "json_impl = \<lparr>j_parse = json_parse, j_text = json_text, j_is_object = (\<lambda>j. case j of JObj _ \<Rightarrow> True | _ \<Rightarrow> False),
     j_is_array = (\<lambda>j. case j of JArr _ \<Rightarrow> True | _ \<Rightarrow> False),
     j_get = (\<lambda>j k. Option.bind j (\<lambda>j. Option.bind (map_of (json_members j) k) id)),
     j_add = (\<lambda>j k v. JObj (put_member k v (json_members j))),
     j_del = (\<lambda>j k. JObj (filter (\<lambda>m. fst m \<noteq> k) (json_members j))),
     j_length = (\<lambda>a. length (json_items a)),
     j_idx = (\<lambda>a i. if i < length (json_items a) then json_items a ! i else None),
     j_append = (\<lambda>a v. JArr (json_items a @ [Some v])),
     j_put_idx = (\<lambda>a i v. JArr ((json_items a)[i := Some v])),
     j_new_object = JObj [], j_new_array = JArr [], j_new_string = JStr, j_new_int = JInt, j_new_boolean = JBool,
     j_get_string = json_string, j_get_int = json_int, j_get_boolean = json_boolean\<rparr>"

lemma map_of_put_member: "map_of (put_member k v ms) k' = (if k' = k then Some (Some v) else map_of ms k')"
  by (induction k v ms rule: put_member.induct) auto

lemma map_of_filter_member: "map_of (filter (\<lambda>m. fst m \<noteq> k) ms) k' = (if k' = k then None else map_of ms k')"
  by (induction ms) auto

lemma digits10_bound: "digit_run 10 s = s \<Longrightarrow> 0 \<le> digits_value 10 s \<and> digits_value 10 s < 10 ^ length s"
proof (induction s rule: rev_induct)
  case (snoc c s)
  then have "digit_run 10 s = s" "is_digit 10 c" by (auto simp: digit_run_def takeWhile_eq_all_conv)
  with snoc show ?case by (auto simp: digits_value_def is_digit_def split: option.splits)
qed (simp add: digits_value_def)

lemma json_int_digits:
  assumes "s \<noteq> []" "length s \<le> 9" "digit_run 10 s = s"
  shows "json_int (Some (JStr s)) = digits_value 10 s"
proof -
  obtain c cs where s: "s = c # cs" "is_digit 10 c" using digits10_head assms(1,3) by blast
  then have "scan_sign (dropWhile is_space s) = (False, s)"
    by (auto simp: scan_sign_def is_digit_def hexval_def is_space_def Let_def split: if_splits)
  moreover have "(10::int) ^ length s \<le> 10 ^ 9" using assms(2) by (intro power_increasing) auto
  ultimately show ?thesis using digits10_bound [OF assms(3)] assms(3) by (simp add: json_int_def)
qed

interpretation json_values: json_lib json_impl
proof unfold_locales
  show "j_get_int json_impl (Some (j_new_string json_impl s)) = digits_value 10 s"
    if "s \<noteq> []" "length s \<le> 9" "digit_run 10 s = s" for s
    using json_int_digits [OF that] by (simp add: json_impl_def)
qed (auto simp: json_impl_def json_parse_text json_members_def json_items_def map_of_put_member map_of_filter_member nth_append
    json_string_def json_int_def json_boolean_def bind_eq_Some_conv split: json.splits if_splits)

end
