(* ===== verification/Mesh_Db.thy ===== *)
theory Mesh_Db
  imports Mesh_Json Mesh_Config
begin

text \<open>
  \<^verbatim>\<open>mesh/prov-db.c\<close>: the two files of the program, the provisioning database with the
  keys, addresses and nodes of the network and the file of the local node. Every
  change reads the whole file, changes the document and writes it back.

  The record \<open>db\<close> has the two static names, the files and what the
  successive calls of \<^verbatim>\<open>mesh_get_random_bytes\<close> return. A function of \<^verbatim>\<open>json-c\<close> that is
  called on a part of the wrong kind aborts the program, and \<^verbatim>\<open>sscanf\<close> or \<^verbatim>\<open>strlen\<close> of a
  null pointer is undefined: both are a \<open>Fault\<close>.
\<close>

section \<open>Files\<close>

record db =
  prov_filename :: "string option"
  local_filename :: "string option"
  files :: "string \<Rightarrow> string option"
  writable :: "string \<Rightarrow> bool"
  urandom :: "bytes option list"

definition prov_file_read :: "string option \<Rightarrow> db \<Rightarrow> string option" where
  "prov_file_read filename d = (case filename of None \<Rightarrow> None | Some f \<Rightarrow> files d f)"

definition prov_file_write :: "'j json_c \<Rightarrow> 'j \<Rightarrow> bool \<Rightarrow> db \<Rightarrow> db cres" where
  "prov_file_write J jmain is_loc d =
     (case (if is_loc then local_filename d else prov_filename d) of
        None \<Rightarrow> Fault
      | Some f \<Rightarrow> Ret (if writable d f then d\<lparr>files := (files d)(f := Some (j_text J jmain))\<rparr> else d))"

text \<open>The document in a file, if the file can be read and parsed; and a change that is written back.\<close>

definition db_load :: "'j json_c \<Rightarrow> string option \<Rightarrow> db \<Rightarrow> 'j option" where
  "db_load J filename d = Option.bind (prov_file_read filename d) (j_parse J)"

definition db_save :: "'j json_c \<Rightarrow> 'j \<Rightarrow> bool \<Rightarrow> db \<Rightarrow> (db \<times> bool) cres" where
  "db_save J jmain is_loc d = cbind (prov_file_write J jmain is_loc d) (\<lambda>d'. Ret (d', True))"

section \<open>Numbers as text\<close>

text \<open>\<^verbatim>\<open>snprintf\<close> with \<^verbatim>\<open>%4.4x\<close> and \<^verbatim>\<open>%8.8x\<close>, and \<^verbatim>\<open>sscanf\<close> with \<^verbatim>\<open>%04hx\<close>, \<^verbatim>\<open>%04x\<close> and \<^verbatim>\<open>%08x\<close>.\<close>

primrec hex_pad :: "nat \<Rightarrow> nat \<Rightarrow> string" where
  "hex_pad 0 n = []"
| "hex_pad (Suc k) n = hex_pad k (n div 16) @ [hexdigit (n mod 16)]"

definition scan_hex :: "nat \<Rightarrow> string \<Rightarrow> int option" where
  "scan_hex width s =
     (let (neg, t) = scan_sign (take width (dropWhile is_space s));
          ds = digit_run 16 (if has_0x t then drop 2 t else t)
      in if ds = [] then None else Some (to_ulong neg (digits_value 16 ds)))"

definition sscanf_04hx :: "string \<Rightarrow> u16 option" where
  "sscanf_04hx s = map_option of_int (scan_hex 4 s)"

definition sscanf_08x :: "string \<Rightarrow> u32 option" where
  "sscanf_08x s = map_option of_int (scan_hex 8 s)"

text \<open>The characters of a string value that the code reads without a check for null.\<close>

definition c_string :: "'j json_c \<Rightarrow> 'j option \<Rightarrow> string cres" where
  "c_string J v = (case j_get_string J v of None \<Rightarrow> Fault | Some s \<Rightarrow> Ret s)"

text \<open>The identifier of a model, of four digits for a SIG model and eight for a vendor model.\<close>

definition text_model_id :: "string \<Rightarrow> u32 option" where
  "text_model_id s =
     (if length s \<noteq> 4 \<and> length s \<noteq> 8 then None
      else map_option (\<lambda>i. if length s = 4 then i + 0xffff0000 else i) (sscanf_08x s))"

definition CHECK_KEY_IDX_RANGE :: "int \<Rightarrow> bool" where
  "CHECK_KEY_IDX_RANGE x \<longleftrightarrow> x \<ge> 0 \<and> x \<le> 4095"

section \<open>Writing values\<close>

definition put_uint16 :: "'j json_c \<Rightarrow> 'j \<Rightarrow> string \<Rightarrow> u16 \<Rightarrow> 'j" where
  "put_uint16 J j desc v = j_add J j desc (j_new_string J (hex_pad 4 (unat v)))"

definition put_uint32 :: "'j json_c \<Rightarrow> 'j \<Rightarrow> string \<Rightarrow> u32 \<Rightarrow> 'j" where
  "put_uint32 J j desc v = j_add J j desc (j_new_string J (hex_pad 8 (unat v)))"

definition put_uint16_array_entry :: "'j json_c \<Rightarrow> 'j \<Rightarrow> u16 \<Rightarrow> 'j" where
  "put_uint16_array_entry J a v = j_append J a (j_new_string J (hex_pad 4 (unat v)))"

definition put_uint32_array_entry :: "'j json_c \<Rightarrow> 'j \<Rightarrow> u32 \<Rightarrow> 'j" where
  "put_uint32_array_entry J a v = j_append J a (j_new_string J (hex_pad 8 (unat v)))"

definition put_uint16_list :: "'j json_c \<Rightarrow> 'j \<Rightarrow> u32 list \<Rightarrow> 'j" where
  "put_uint16_list J a l = foldl (\<lambda>a v. put_uint16_array_entry J a (ucast v)) a l"

definition add_node_idxs :: "'j json_c \<Rightarrow> 'j \<Rightarrow> string \<Rightarrow> u32 list \<Rightarrow> 'j" where
  "add_node_idxs J j desc idxs = j_add J j desc (put_uint16_list J (j_new_array J) idxs)"

definition add_key :: "'j json_c \<Rightarrow> 'j \<Rightarrow> string \<Rightarrow> bytes \<Rightarrow> 'j" where
  "add_key J j desc k = j_add J j desc (j_new_string J (the (hex2str (sub_bytes k 0 16) 33)))"

section \<open>Reading values\<close>

fun unicast_ranges :: "'j json_c \<Rightarrow> 'j option list \<Rightarrow> 'a world_scheme \<Rightarrow> ('a world_scheme \<times> bool) cres" where
  "unicast_ranges J [] w = Ret (w, True)"
| "unicast_ranges J (jrange # js) w =
     cbind (c_string J (j_get J jrange ''lowAddress'')) (\<lambda>lo.
       (case sscanf_04hx lo of None \<Rightarrow> Ret (w, False)
        | Some low \<Rightarrow>
            cbind (c_string J (j_get J jrange ''highAddress'')) (\<lambda>hi.
              (case sscanf_04hx hi of None \<Rightarrow> Ret (w, False)
               | Some high \<Rightarrow>
                   if high < low then Ret (w, False)
                   else unicast_ranges J js
                     (upd_net (\<lambda>n. n\<lparr>address_pool := fst (net_add_address_pool low high (address_pool n))\<rparr>) w)))))"

definition parse_unicast_range :: "'j json_c \<Rightarrow> 'j \<Rightarrow> 'a world_scheme \<Rightarrow> ('a world_scheme \<times> bool) cres" where
  "parse_unicast_range J a w = cguard (j_is_array J a) (unicast_ranges J (j_items J a) w)"

fun node_keys_loop :: "'j json_c \<Rightarrow> nat \<Rightarrow> bool \<Rightarrow> 'j option list \<Rightarrow> nat \<Rightarrow> 'a world_scheme \<Rightarrow> 'a world_scheme \<times> nat" where
  "node_keys_loop J r is_app_key [] i w = (w, i)"
| "node_keys_loop J r is_app_key (x # xs) i w =
     (case x of None \<Rightarrow> (w, i)
      | Some _ \<Rightarrow>
          let idx = j_get_int J x in
          if \<not> CHECK_KEY_IDX_RANGE idx then (w, i)
          else node_keys_loop J r is_app_key xs (i + 1)
            (fst (if is_app_key then node_app_key_add (Some r) (of_int idx) w
                  else node_net_key_add (Some r) (of_int idx) w)))"

definition parse_node_keys :: "'j json_c \<Rightarrow> nat \<Rightarrow> 'j \<Rightarrow> bool \<Rightarrow> 'a world_scheme \<Rightarrow> ('a world_scheme \<times> nat) cres" where
  "parse_node_keys J r a is_app_key w =
     cguard (j_is_array J a) (Ret (node_keys_loop J r is_app_key (j_items J a) 0 w))"

fun composition_models :: "'j json_c \<Rightarrow> nat \<Rightarrow> int \<Rightarrow> 'j option list \<Rightarrow> 'a world_scheme \<Rightarrow> ('a world_scheme \<times> bool) cres" where
  "composition_models J r index [] w = Ret (w, True)"
| "composition_models J r index (jmodel # js) w =
     cbind (c_string J jmodel) (\<lambda>s.
       (case text_model_id s of None \<Rightarrow> Ret (w, False)
        | Some model_id \<Rightarrow>
            composition_models J r index js (fst (node_set_model (Some r) (of_int index) model_id w))))"

definition parse_composition_models :: "'j json_c \<Rightarrow> nat \<Rightarrow> int \<Rightarrow> 'j \<Rightarrow> 'a world_scheme \<Rightarrow> ('a world_scheme \<times> bool) cres" where
  "parse_composition_models J r index jmodels w =
     cguard (j_is_array J jmodels) (composition_models J r index (j_items J jmodels) w)"

fun composition_elements :: "'j json_c \<Rightarrow> nat \<Rightarrow> int \<Rightarrow> 'j option list \<Rightarrow> 'a world_scheme \<Rightarrow> ('a world_scheme \<times> bool) cres" where
  "composition_elements J r el_cnt [] w = Ret (w, True)"
| "composition_elements J r el_cnt (jelement # js) w =
     (case j_get J jelement ''elementIndex'' of
        None \<Rightarrow> Ret (w, False)
      | Some v \<Rightarrow>
          let index = j_get_int J (Some v) in
          if index \<ge> el_cnt then Ret (w, False)
          else
            let (w1, done) = node_set_element (Some r) (of_int index) w in
            if \<not> done then Ret (w1, False)
            else (case j_get J jelement ''models'' of
                None \<Rightarrow> composition_elements J r el_cnt js w1
              | Some jmodels \<Rightarrow>
                  cbind (parse_composition_models J r index jmodels w1) (\<lambda>(w2, ok).
                    if ok then composition_elements J r el_cnt js w2 else Ret (w2, False))))"

definition parse_composition_elements :: "'j json_c \<Rightarrow> nat \<Rightarrow> 'j \<Rightarrow> 'a world_scheme \<Rightarrow> ('a world_scheme \<times> bool) cres" where
  "parse_composition_elements J r jelements w =
     cguard (j_is_array J jelements)
       (composition_elements J r (int (j_length J jelements)) (j_items J jelements)
         (node_set_num_elements r (of_nat (j_length J jelements)) w))"

definition parse_model_pub :: "'j json_c \<Rightarrow> nat \<Rightarrow> int \<Rightarrow> u32 \<Rightarrow> 'j \<Rightarrow> 'a world_scheme \<Rightarrow> ('a world_scheme \<times> bool) cres" where
  "parse_model_pub J r ele_idx model_id jpub w =
     (case j_get J (Some jpub) ''address'' of None \<Rightarrow> Ret (w, False)
      | Some ja \<Rightarrow>
          cbind (c_string J (Some ja)) (\<lambda>sa.
            (case sscanf_04hx sa of None \<Rightarrow> Ret (w, False)
             | Some addr \<Rightarrow>
                 (case j_get J (Some jpub) ''index'' of None \<Rightarrow> Ret (w, False)
                  | Some ji \<Rightarrow>
                      cbind (c_string J (Some ji)) (\<lambda>si.
                        (case sscanf_04hx si of None \<Rightarrow> Ret (w, False)
                         | Some app_idx \<Rightarrow>
                             Ret (node_model_pub_set (Some r) (of_int ele_idx) model_id
                               \<lparr>pub_app_idx = app_idx, pub_u = Addr16 addr,
                                pub_ttl = of_int (j_get_int J (j_get J (Some jpub) ''ttl'')),
                                pub_credential = 0, pub_period = 0, pub_retransmit = 0\<rparr> w)))))))"

text \<open>\<open>bnd\<close> is the bind callback of a client, as for \<open>node_add_binding\<close>.\<close>

fun bindings_loop ::
  "(model_cb \<Rightarrow> u16 \<Rightarrow> nat \<Rightarrow> 'a world_scheme \<Rightarrow> 'a world_scheme \<times> int) \<Rightarrow> 'j json_c \<Rightarrow> nat \<Rightarrow> int \<Rightarrow> u32 \<Rightarrow>
   'j option list \<Rightarrow> 'a world_scheme \<Rightarrow> 'a world_scheme \<times> bool" where
  "bindings_loop bnd J r ele_idx model_id [] w = (w, True)"
| "bindings_loop bnd J r ele_idx model_id (x # xs) w =
     (case x of None \<Rightarrow> (w, True)
      | Some _ \<Rightarrow>
          let key_idx = j_get_int J x in
          if \<not> CHECK_KEY_IDX_RANGE key_idx then (w, False)
          else
            let (w1, done) = node_add_binding bnd (Some r) (of_int ele_idx) model_id (of_int key_idx) w in
            if done then bindings_loop bnd J r ele_idx model_id xs w1 else (w1, False))"

definition parse_bindings where
  "parse_bindings bnd J r ele_idx model_id jbindings w =
     cguard (j_is_array J jbindings) (Ret (bindings_loop bnd J r ele_idx model_id (j_items J jbindings) w))"

fun find_configured_model :: "'j json_c \<Rightarrow> 'j option list \<Rightarrow> u32 \<Rightarrow> nat \<Rightarrow> nat option cres" where
  "find_configured_model J [] target_id i = Ret None"
| "find_configured_model J (jmodel # js) target_id i =
     cbind (c_string J (j_get J jmodel ''modelId'')) (\<lambda>s.
       (case text_model_id s of None \<Rightarrow> Ret None
        | Some model_id \<Rightarrow>
            if model_id = target_id then Ret (Some i) else find_configured_model J js target_id (i + 1)))"

fun subscriptions_loop ::
  "'j json_c \<Rightarrow> nat \<Rightarrow> int \<Rightarrow> u32 \<Rightarrow> 'j option list \<Rightarrow> 'a world_scheme \<Rightarrow> ('a world_scheme \<times> bool) cres" where
  "subscriptions_loop J r ele_idx model_id [] w = Ret (w, True)"
| "subscriptions_loop J r ele_idx model_id (x # xs) w =
     (case x of None \<Rightarrow> Ret (w, False)
      | Some _ \<Rightarrow>
          cbind (c_string J x) (\<lambda>s.
            (case scan_hex 4 s of None \<Rightarrow> Ret (w, False)
             | Some addr \<Rightarrow>
                 let (w1, done) = node_add_subscription (Some r) (of_int ele_idx) model_id (of_int addr) w in
                 if done then subscriptions_loop J r ele_idx model_id xs w1 else Ret (w1, False))))"

definition parse_subscriptions where
  "parse_subscriptions J r ele_idx model_id jsubscriptions w =
     cguard (j_is_array J jsubscriptions) (subscriptions_loop J r ele_idx model_id (j_items J jsubscriptions) w)"

text \<open>A member that may be missing: nothing is done then, which is success.\<close>

definition if_member :: "'j option \<Rightarrow> ('j \<Rightarrow> 'w \<Rightarrow> ('w \<times> bool) cres) \<Rightarrow> 'w \<Rightarrow> ('w \<times> bool) cres" where
  "if_member v f w = (case v of None \<Rightarrow> Ret (w, True) | Some j \<Rightarrow> f j w)"

definition parse_configuration_model where
  "parse_configuration_model bnd J r ele_idx model_id jmodel w =
     cbind (if_member (j_get J jmodel ''bind'') (parse_bindings bnd J r ele_idx model_id) w) (\<lambda>(w1, ok1).
       if \<not> ok1 then Ret (w1, False)
       else cbind (if_member (j_get J jmodel ''subscribe'') (parse_subscriptions J r ele_idx model_id) w1) (\<lambda>(w2, ok2).
         if \<not> ok2 then Ret (w2, False)
         else if_member (j_get J jmodel ''publish'') (parse_model_pub J r ele_idx model_id) w2))"

fun configuration_models ::
  "(model_cb \<Rightarrow> u16 \<Rightarrow> nat \<Rightarrow> 'a world_scheme \<Rightarrow> 'a world_scheme \<times> int) \<Rightarrow> 'j json_c \<Rightarrow> nat \<Rightarrow> int \<Rightarrow>
   'j option list \<Rightarrow> 'a world_scheme \<Rightarrow> ('a world_scheme \<times> bool) cres" where
  "configuration_models bnd J r ele_idx [] w = Ret (w, True)"
| "configuration_models bnd J r ele_idx (jmodel # js) w =
     cbind (c_string J (j_get J jmodel ''modelId'')) (\<lambda>s.
       (case text_model_id s of None \<Rightarrow> Ret (w, False)
        | Some model_id \<Rightarrow>
            cbind (parse_configuration_model bnd J r ele_idx model_id jmodel w) (\<lambda>(w1, ok).
              if ok then configuration_models bnd J r ele_idx js w1 else Ret (w1, False))))"

definition parse_configuration_models where
  "parse_configuration_models bnd J r ele_idx jmodels w =
     cguard (j_is_array J jmodels) (configuration_models bnd J r ele_idx (j_items J jmodels) w)"

text \<open>The element with index 0 has the primary address; the addresses of a remote node are taken from the pool.\<close>

definition parse_primary :: "'j json_c \<Rightarrow> nat \<Rightarrow> nat \<Rightarrow> bool \<Rightarrow> 'j option \<Rightarrow> 'a world_scheme \<Rightarrow> ('a world_scheme \<times> bool) cres" where
  "parse_primary J r el_cnt is_loc jelement w =
     cbind (c_string J (j_get J jelement ''unicastAddress'')) (\<lambda>s.
       (case sscanf_04hx s of None \<Rightarrow> Ret (w, False)
        | Some addr \<Rightarrow>
            if is_loc then Ret (node_set_primary r addr w, True)
            else
              let (pool, done) = net_reserve_address_range addr (of_nat el_cnt) (address_pool (net w));
                  w1 = upd_net (\<lambda>n. n\<lparr>address_pool := pool\<rparr>) w
              in if done then Ret (node_set_primary r addr w1, True) else Ret (w1, False)))"

fun configuration_elements ::
  "(model_cb \<Rightarrow> u16 \<Rightarrow> nat \<Rightarrow> 'a world_scheme \<Rightarrow> 'a world_scheme \<times> int) \<Rightarrow> 'j json_c \<Rightarrow> nat \<Rightarrow> nat \<Rightarrow> bool \<Rightarrow>
   'j option list \<Rightarrow> 'a world_scheme \<Rightarrow> ('a world_scheme \<times> bool) cres" where
  "configuration_elements bnd J r el_cnt is_loc [] w = Ret (w, True)"
| "configuration_elements bnd J r el_cnt is_loc (jelement # js) w =
     (case j_get J jelement ''elementIndex'' of
        None \<Rightarrow> Ret (w, False)
      | Some v \<Rightarrow>
          let index = j_get_int J (Some v) in
          if index \<ge> int el_cnt then Ret (w, False)
          else
            cbind (if index = 0 then parse_primary J r el_cnt is_loc jelement w else Ret (w, True)) (\<lambda>(w1, ok1).
              if \<not> ok1 then Ret (w1, False)
              else cbind (if_member (j_get J jelement ''models'') (parse_configuration_models bnd J r index) w1) (\<lambda>(w2, ok2).
                if ok2 then configuration_elements bnd J r el_cnt is_loc js w2 else Ret (w2, False))))"

definition parse_configuration_elements where
  "parse_configuration_elements bnd J r jelements is_loc w =
     cguard (j_is_array J jelements)
       (configuration_elements bnd J r (j_length J jelements) is_loc (j_items J jelements)
         (node_set_num_elements r (of_nat (j_length J jelements)) w))"

definition comp_field :: "'j json_c \<Rightarrow> 'j \<Rightarrow> string \<Rightarrow> u16 option cres" where
  "comp_field J jcomp k =
     (case j_get J (Some jcomp) k of None \<Rightarrow> Ret None
      | Some v \<Rightarrow> cbind (c_string J (Some v)) (\<lambda>s. Ret (sscanf_04hx s)))"

definition parse_features :: "'j json_c \<Rightarrow> 'j \<Rightarrow> u16 \<Rightarrow> u16 \<Rightarrow> u16 \<Rightarrow> u16 \<Rightarrow> mesh_node_composition" where
  "parse_features J f c p v l =
     \<lparr>relay = j_get_boolean J (j_get J (Some f) ''relay''), proxy = j_get_boolean J (j_get J (Some f) ''proxy''),
      lpn = j_get_boolean J (j_get J (Some f) ''lowPower''), friend = j_get_boolean J (j_get J (Some f) ''friend''),
      cid = c, pid = p, vid = v, crpl = l\<rparr>"

definition parse_node_composition :: "'j json_c \<Rightarrow> nat \<Rightarrow> 'j \<Rightarrow> 'a world_scheme \<Rightarrow> ('a world_scheme \<times> bool) cres" where
  "parse_node_composition J r jcomp w =
     cbind (comp_field J jcomp ''cid'') (\<lambda>c. case c of None \<Rightarrow> Ret (w, False) | Some c \<Rightarrow>
     cbind (comp_field J jcomp ''pid'') (\<lambda>p. case p of None \<Rightarrow> Ret (w, False) | Some p \<Rightarrow>
     cbind (comp_field J jcomp ''vid'') (\<lambda>v. case v of None \<Rightarrow> Ret (w, False) | Some v \<Rightarrow>
     cbind (comp_field J jcomp ''crpl'') (\<lambda>l. case l of None \<Rightarrow> Ret (w, False) | Some l \<Rightarrow>
       (case j_get J (Some jcomp) ''features'' of None \<Rightarrow> Ret (w, False)
        | Some f \<Rightarrow>
            let (w1, done) = node_set_composition (Some r) (Some (parse_features J f c p v l)) w in
            if \<not> done then Ret (w1, False)
            else (case j_get J (Some jcomp) ''elements'' of None \<Rightarrow> Ret (w1, False)
                  | Some es \<Rightarrow> parse_composition_elements J r es w1))))))"

section \<open>Changing the files\<close>

text \<open>The node with an address: the path to it in the document.\<close>

fun find_node_loop :: "'j json_c \<Rightarrow> u16 \<Rightarrow> 'j option list \<Rightarrow> nat \<Rightarrow> jstep list option cres" where
  "find_node_loop J addr [] i = Ret None"
| "find_node_loop J addr (jnode # js) i =
     (case j_get J jnode ''configuration'' of None \<Rightarrow> Ret None
      | Some jconfig \<Rightarrow>
        (case j_get J (Some jconfig) ''elements'' of None \<Rightarrow> Ret None
         | Some jelements \<Rightarrow>
           cguard (j_is_array J jelements)
             (case j_idx J jelements 0 of None \<Rightarrow> Ret None
              | Some jelement \<Rightarrow>
                cbind (c_string J (j_get J (Some jelement) ''unicastAddress'')) (\<lambda>s.
                  (case sscanf_04hx s of None \<Rightarrow> Ret None
                   | Some a \<Rightarrow> if a = addr then Ret (Some [Member ''nodes'', Item i])
                               else find_node_loop J addr js (i + 1))))))"

definition find_node_by_primary :: "'j json_c \<Rightarrow> 'j \<Rightarrow> u16 \<Rightarrow> jstep list option cres" where
  "find_node_by_primary J jmain addr =
     (case j_get J (Some jmain) ''nodes'' of None \<Rightarrow> Ret None
      | Some jarray \<Rightarrow> cguard (j_is_array J jarray) (find_node_loop J addr (j_items J jarray) 0))"

text \<open>The node in the file it belongs to: \<^verbatim>\<open>node\<close> of the local file, or an entry of \<^verbatim>\<open>nodes\<close>.\<close>

definition db_file :: "bool \<Rightarrow> db \<Rightarrow> string option" where
  "db_file is_loc d = (if is_loc then local_filename d else prov_filename d)"

definition db_node :: "'j json_c \<Rightarrow> bool \<Rightarrow> u16 \<Rightarrow> 'j \<Rightarrow> jstep list option cres" where
  "db_node J is_loc addr jmain =
     (if is_loc then (case j_get J (Some jmain) ''node'' of None \<Rightarrow> Ret None | Some _ \<Rightarrow> Ret (Some [Member ''node'']))
      else find_node_by_primary J jmain addr)"

text \<open>
  The frame of the operations that change the document of a node: \<open>look\<close> yields the
  path to the part to be changed, \<open>change\<close> its new value.
\<close>

definition db_update ::
  "'j json_c \<Rightarrow> bool \<Rightarrow> ('j \<Rightarrow> jstep list option cres) \<Rightarrow> ('j \<Rightarrow> 'j cres) \<Rightarrow> db \<Rightarrow> (db \<times> bool) cres" where
  "db_update J is_loc look change d =
     (case db_load J (db_file is_loc d) d of None \<Rightarrow> Ret (d, False)
      | Some jmain \<Rightarrow>
          cbind (look jmain) (\<lambda>p.
            (case p of None \<Rightarrow> Ret (d, False)
             | Some p \<Rightarrow>
                 (case jat J p jmain of None \<Rightarrow> Ret (d, False)
                  | Some part \<Rightarrow>
                      cbind (change part) (\<lambda>part'. db_save J (jset J p part' jmain) is_loc d)))))"

definition in_configuration :: "jstep list option cres \<Rightarrow> jstep list option cres" where
  "in_configuration m = cbind m (\<lambda>p. Ret (map_option (\<lambda>p. p @ [Member ''configuration'']) p))"

definition replace_member :: "'j json_c \<Rightarrow> string \<Rightarrow> 'j \<Rightarrow> 'j \<Rightarrow> 'j cres" where
  "replace_member J k v j = cguard (j_is_object J j) (Ret (j_add J (j_del J j k) k v))"

definition prov_db_node_set_ttl :: "'j json_c \<Rightarrow> 'a world_scheme \<Rightarrow> nat \<Rightarrow> u8 \<Rightarrow> db \<Rightarrow> (db \<times> bool) cres" where
  "prov_db_node_set_ttl J w r ttl d =
     (case node_at w r of None \<Rightarrow> Fault
      | Some n \<Rightarrow>
          db_update J (is_local w r) (\<lambda>j. in_configuration (db_node J (is_local w r) (primary n) j))
            (replace_member J ''defaultTTL'' (j_new_int J (uint ttl))) d)"

definition set_local_iv_index :: "'j json_c \<Rightarrow> 'j \<Rightarrow> u32 \<Rightarrow> bool \<Rightarrow> 'j cres" where
  "set_local_iv_index J j idx update =
     cbind (replace_member J ''IVindex'' (j_new_int J (sint idx)) j)
       (replace_member J ''IVupdate'' (j_new_int J (if update then 1 else 0)))"

text \<open>
  Unless the caller is the provisioner, the function goes on to free the text and the
  document of the local file a second time.
\<close>

definition prov_db_local_set_iv_index :: "'j json_c \<Rightarrow> u32 \<Rightarrow> bool \<Rightarrow> bool \<Rightarrow> db \<Rightarrow> (db \<times> bool) cres" where
  "prov_db_local_set_iv_index J iv update prov d =
     (case db_load J (local_filename d) d of None \<Rightarrow> Ret (d, False)
      | Some jmain \<Rightarrow>
          (case j_get J (Some jmain) ''node'' of None \<Rightarrow> Fault
           | Some jnode \<Rightarrow>
               cbind (set_local_iv_index J jnode iv update) (\<lambda>jnode'.
                 cbind (prov_file_write J (jset J [Member ''node''] jnode' jmain) True d) (\<lambda>d1.
                   if \<not> prov then Fault
                   else
                     (case db_load J (prov_filename d1) d1 of None \<Rightarrow> Ret (d1, False)
                      | Some jm \<Rightarrow>
                          cbind (set_local_iv_index J jm iv update) (\<lambda>jm'. db_save J jm' False d1))))))"

definition prov_db_local_set_seq_num :: "'j json_c \<Rightarrow> u32 \<Rightarrow> db \<Rightarrow> (db \<times> bool) cres" where
  "prov_db_local_set_seq_num J seq d =
     (case db_load J (local_filename d) d of None \<Rightarrow> Ret (d, False)
      | Some jmain \<Rightarrow>
          (case j_get J (Some jmain) ''node'' of None \<Rightarrow> Fault
           | Some jnode \<Rightarrow>
               cbind (replace_member J ''sequenceNumber'' (j_new_int J (sint seq)) jnode) (\<lambda>jnode'.
                 db_save J (jset J [Member ''node''] jnode' jmain) True d)))"

definition prov_db_node_set_iv_seq ::
  "'j json_c \<Rightarrow> 'a world_scheme \<Rightarrow> nat \<Rightarrow> u32 \<Rightarrow> u32 \<Rightarrow> db \<Rightarrow> (db \<times> bool) cres" where
  "prov_db_node_set_iv_seq J w r iv seq d =
     (case node_at w r of None \<Rightarrow> Fault
      | Some n \<Rightarrow>
          db_update J False (\<lambda>j. find_node_by_primary J j (primary n))
            (\<lambda>j. cbind (replace_member J ''IVindex'' (j_new_int J (sint iv)) j)
                   (replace_member J ''sequenceNumber'' (j_new_int J (sint seq)))) d)"

text \<open>Also for the local node, the node is looked for in \<^verbatim>\<open>nodes\<close> of the file.\<close>

definition prov_db_node_keys ::
  "'j json_c \<Rightarrow> 'a world_scheme \<Rightarrow> nat \<Rightarrow> u32 list \<Rightarrow> string \<Rightarrow> db \<Rightarrow> (db \<times> bool) cres" where
  "prov_db_node_keys J w r idxs desc d =
     (case node_at w r of None \<Rightarrow> Fault
      | Some n \<Rightarrow>
          db_update J (is_local w r) (\<lambda>j. in_configuration (find_node_by_primary J j (primary n)))
            (\<lambda>j. cguard (j_is_object J j)
               (Ret (if idxs \<noteq> [] then j_add J (j_del J j desc) desc (put_uint16_list J (j_new_array J) idxs)
                     else j_del J j desc))) d)"

text \<open>The entry of a model that has none yet.\<close>

definition new_jmodel :: "'j json_c \<Rightarrow> u32 \<Rightarrow> 'j" where
  "new_jmodel J model_id =
     (if model_id AND 0xffff0000 = 0xffff0000
      then put_uint16 J (j_new_object J) ''modelId'' (ucast (model_id AND 0xffff))
      else put_uint32 J (j_new_object J) ''modelId'' model_id)"

text \<open>
  The element with the entry of a model in it, and the position of the entry among the
  models: \<open>get_jmodel_obj\<close> adds the list of models and the entry where they are missing.
\<close>

definition jelement_with_model :: "'j json_c \<Rightarrow> u32 \<Rightarrow> 'j \<Rightarrow> ('j \<times> nat) cres" where
  "jelement_with_model J model_id jelement =
     (case j_get J (Some jelement) ''models'' of
        None \<Rightarrow> cguard (j_is_object J jelement)
          (Ret (j_add J jelement ''models'' (j_append J (j_new_array J) (new_jmodel J model_id)), 0))
      | Some jmodels \<Rightarrow> cguard (j_is_array J jmodels)
          (cbind (find_configured_model J (j_items J jmodels) model_id 0) (\<lambda>found.
             (case found of
                Some i \<Rightarrow> Ret (jelement, i)
              | None \<Rightarrow> Ret (j_add J jelement ''models'' (j_append J jmodels (new_jmodel J model_id)), j_length J jmodels)))))"

definition get_jmodel_obj ::
  "'j json_c \<Rightarrow> 'a world_scheme \<Rightarrow> nat \<Rightarrow> u8 \<Rightarrow> u32 \<Rightarrow> db \<Rightarrow> ('j \<times> jstep list) option cres" where
  "get_jmodel_obj J w r ele_idx model_id d =
     (case node_at w r of None \<Rightarrow> Fault
      | Some n \<Rightarrow>
          (case db_load J (db_file (is_local w r) d) d of None \<Rightarrow> Ret None
           | Some jmain \<Rightarrow>
               cbind (db_node J (is_local w r) (primary n) jmain) (\<lambda>p.
                 (case p of None \<Rightarrow> Ret None
                  | Some p \<Rightarrow>
                      let q = p @ [Member ''configuration'', Member ''elements''] in
                      (case jat J q jmain of None \<Rightarrow> Ret None
                       | Some jelements \<Rightarrow>
                           cguard (j_is_array J jelements)
                             (case j_idx J jelements (unat ele_idx) of None \<Rightarrow> Ret None
                              | Some jelement \<Rightarrow>
                                  cbind (jelement_with_model J model_id jelement) (\<lambda>(jelement', i).
                                    let e = q @ [Item (unat ele_idx)] in
                                    Ret (Some (jset J e jelement' jmain, e @ [Member ''models'', Item i])))))))))"

text \<open>A change of the entry of a model, and a value added to a list that the entry may not have yet.\<close>

definition db_model_update ::
  "'j json_c \<Rightarrow> 'a world_scheme \<Rightarrow> nat \<Rightarrow> u8 \<Rightarrow> u32 \<Rightarrow> ('j \<Rightarrow> 'j cres) \<Rightarrow> db \<Rightarrow> (db \<times> bool) cres" where
  "db_model_update J w r ele_idx model_id change d =
     cbind (get_jmodel_obj J w r ele_idx model_id d) (\<lambda>m.
       (case m of None \<Rightarrow> Ret (d, False)
        | Some (jmain, p) \<Rightarrow>
            (case jat J p jmain of None \<Rightarrow> Ret (d, False)
             | Some jmodel \<Rightarrow>
                 cbind (change jmodel) (\<lambda>jmodel'. db_save J (jset J p jmodel' jmain) (is_local w r) d))))"

definition add_to_list :: "'j json_c \<Rightarrow> string \<Rightarrow> 'j \<Rightarrow> 'j \<Rightarrow> 'j cres" where
  "add_to_list J k v j =
     (case j_get J (Some j) k of
        None \<Rightarrow> cguard (j_is_object J j) (Ret (j_add J j k (j_append J (j_new_array J) v)))
      | Some a \<Rightarrow> cguard (j_is_array J a) (Ret (j_add J j k (j_append J a v))))"

definition prov_db_add_binding ::
  "'j json_c \<Rightarrow> 'a world_scheme \<Rightarrow> nat \<Rightarrow> u8 \<Rightarrow> u32 \<Rightarrow> u16 \<Rightarrow> db \<Rightarrow> (db \<times> bool) cres" where
  "prov_db_add_binding J w r ele_idx model_id app_idx d =
     db_model_update J w r ele_idx model_id (add_to_list J ''bind'' (j_new_int J (uint app_idx))) d"

definition prov_db_add_subscription ::
  "'j json_c \<Rightarrow> 'a world_scheme \<Rightarrow> nat \<Rightarrow> u8 \<Rightarrow> u32 \<Rightarrow> u16 \<Rightarrow> db \<Rightarrow> (db \<times> bool) cres" where
  "prov_db_add_subscription J w r ele_idx model_id addr d =
     db_model_update J w r ele_idx model_id
       (add_to_list J ''subscribe'' (j_new_string J (hex_pad 4 (unat addr)))) d"

text \<open>The first two octets of the union of an address and a label UUID.\<close>

definition pub_addr16 :: "mesh_publication \<Rightarrow> u16" where
  "pub_addr16 p = (case pub_u p of Addr16 a \<Rightarrow> a | Va128 b \<Rightarrow> get_le16 b 0)"

definition pub_json :: "'j json_c \<Rightarrow> mesh_publication \<Rightarrow> 'j" where
  "pub_json J p =
     j_add J (put_uint16 J (put_uint16 J (j_new_object J) ''address'' (pub_addr16 p)) ''index'' (pub_app_idx p))
       ''ttl'' (j_new_int J (uint (pub_ttl p)))"

definition prov_db_node_set_model_pub ::
  "'j json_c \<Rightarrow> 'a world_scheme \<Rightarrow> nat \<Rightarrow> u8 \<Rightarrow> u32 \<Rightarrow> mesh_publication option \<Rightarrow> db \<Rightarrow> (db \<times> bool) cres" where
  "prov_db_node_set_model_pub J w r ele_idx model_id p d =
     db_model_update J w r ele_idx model_id
       (\<lambda>j. cguard (j_is_object J j)
          (Ret (case p of None \<Rightarrow> j_del J j ''publish''
                | Some x \<Rightarrow> j_add J (j_del J j ''publish'') ''publish'' (pub_json J x)))) d"

section \<open>Adding a node and its composition\<close>

definition node_jelement :: "'j json_c \<Rightarrow> u16 \<Rightarrow> nat \<Rightarrow> 'j" where
  "node_jelement J addr i =
     put_uint16 J (j_add J (j_new_object J) ''elementIndex'' (j_new_int J (int i))) ''unicastAddress'' (addr + of_nat i)"

definition node_json :: "'j json_c \<Rightarrow> mesh_node \<Rightarrow> 'j" where
  "node_json J n =
     (let jconfig = add_node_idxs J (j_new_object J) ''netKeys'' (map ucast (n_net_keys n));
          jelements = foldl (\<lambda>a i. j_append J a (node_jelement J (primary n) i)) (j_new_array J) [0..<unat (num_ele n)]
      in j_add J (add_key J (j_new_object J) ''deviceKey'' (dev_key n)) ''configuration''
           (j_add J jconfig ''elements'' jelements))"

definition prov_db_add_new_node :: "'j json_c \<Rightarrow> 'a world_scheme \<Rightarrow> nat \<Rightarrow> db \<Rightarrow> (db \<times> bool) cres" where
  "prov_db_add_new_node J w r d =
     (case node_at w r of None \<Rightarrow> Fault
      | Some n \<Rightarrow>
          (case db_load J (prov_filename d) d of None \<Rightarrow> Ret (d, False)
           | Some jmain \<Rightarrow>
               if num_ele n = 0 \<or> IS_UNASSIGNED (primary n) then Ret (d, False)
               else (case j_get J (Some jmain) ''nodes'' of
                   None \<Rightarrow> cguard (j_is_object J jmain)
                     (db_save J (j_add J jmain ''nodes'' (j_append J (j_new_array J) (node_json J n))) False d)
                 | Some jarray \<Rightarrow> cguard (j_is_array J jarray)
                     (db_save J (jset J [Member ''nodes''] (j_append J jarray (node_json J n)) jmain) False d))))"

text \<open>\<open>data\<close> are the octets that may be read, \<open>len\<close> the count of the code, as in \<open>node_parse_composition\<close>.\<close>

fun db_models :: "nat \<Rightarrow> ('j \<Rightarrow> bytes \<Rightarrow> 'j) \<Rightarrow> nat \<Rightarrow> bytes \<Rightarrow> u16 \<Rightarrow> 'j \<Rightarrow> ('j \<times> bytes \<times> u16) cres" where
  "db_models width entry 0 data len jmodels = Ret (jmodels, data, len)"
| "db_models width entry (Suc m) data len jmodels =
     (if unat len < width then Ret (jmodels, data, len)
      else cguard (width \<le> length data)
        (db_models width entry m (drop width data) (len - of_nat width) (entry jmodels data)))"

fun db_elements :: "'j json_c \<Rightarrow> nat \<Rightarrow> nat \<Rightarrow> bytes \<Rightarrow> u16 \<Rightarrow> 'j \<Rightarrow> 'j cres" where
  "db_elements J 0 i data len jelements = Ret jelements"
| "db_elements J (Suc n) i data len jelements =
     cguard (4 \<le> length data)
       (let jelement = put_uint16 J (j_add J (j_new_object J) ''elementIndex'' (j_new_int J (int i)))
              ''location'' (get_le16 data 0);
            m = unat (byte_at data 2); v = unat (byte_at data 3)
        in cbind (db_models 2 (\<lambda>a b. put_uint16_array_entry J a (get_le16 b 0)) m (drop 4 data) (len - 4) (j_new_array J))
             (\<lambda>(jmodels1, data1, len1).
               cbind (db_models 4 (\<lambda>a b. put_uint32_array_entry J a (ucast (get_le16 b 2) OR push_bit 16 (ucast (get_le16 b 0))))
                        v data1 len1 jmodels1)
                 (\<lambda>(jmodels2, data2, len2).
                   db_elements J n (i + 1) data2 len2
                     (j_append J jelements (j_add J jelement ''models'' jmodels2)))))"

definition features_json :: "'j json_c \<Rightarrow> mesh_node_composition \<Rightarrow> 'j" where
  "features_json J c =
     j_add J (j_add J (j_add J (j_add J (j_new_object J) ''relay'' (j_new_boolean J (relay c)))
       ''proxy'' (j_new_boolean J (proxy c))) ''friend'' (j_new_boolean J (friend c))) ''lpn'' (j_new_boolean J (lpn c))"

definition composition_json :: "'j json_c \<Rightarrow> mesh_node_composition \<Rightarrow> 'j \<Rightarrow> 'j" where
  "composition_json J c jelements =
     j_add J (j_add J (put_uint16 J (put_uint16 J (put_uint16 J (put_uint16 J (j_new_object J) ''cid'' (cid c))
       ''pid'' (pid c)) ''vid'' (vid c)) ''crpl'' (crpl c)) ''features'' (features_json J c)) ''elements'' jelements"

definition prov_db_add_node_composition ::
  "'j json_c \<Rightarrow> 'a world_scheme \<Rightarrow> nat \<Rightarrow> bytes \<Rightarrow> u16 \<Rightarrow> db \<Rightarrow> (db \<times> bool) cres" where
  "prov_db_add_node_composition J w r data len d =
     (case node_at w r of None \<Rightarrow> Fault
      | Some n \<Rightarrow>
          (case comp n of None \<Rightarrow> Ret (d, False)
           | Some c \<Rightarrow>
               db_update J False (\<lambda>j. find_node_by_primary J j (primary n))
                 (\<lambda>jnode. cguard (j_is_object J jnode)
                    (cbind (db_elements J (unat (num_ele n)) 0 (drop 11 data) (len - 11) (j_new_array J))
                       (\<lambda>jelements. Ret (j_add J jnode ''composition'' (composition_json J c jelements))))) d))"

text \<open>What is shown of a file and of a composition: the text, and whether there is any.\<close>

definition prov_db_show :: "string option \<Rightarrow> db \<Rightarrow> string option" where
  "prov_db_show filename d = prov_file_read filename d"

definition prov_db_print_node_composition ::
  "'j json_c \<Rightarrow> 'a world_scheme \<Rightarrow> nat option \<Rightarrow> db \<Rightarrow> (u16 \<times> string option) option cres" where
  "prov_db_print_node_composition J w node d =
     (case node of None \<Rightarrow> Ret None
      | Some r \<Rightarrow>
        (case node_at w r of None \<Rightarrow> Fault
         | Some n \<Rightarrow>
             if comp n = None then Ret None
             else (case prov_file_read (db_file (is_local w r) d) d of None \<Rightarrow> Ret None
               | Some s \<Rightarrow>
                   (case j_parse J s of None \<Rightarrow> Ret (Some (primary n, None))
                    | Some jmain \<Rightarrow>
                        cbind (find_node_by_primary J jmain (primary n)) (\<lambda>p.
                          Ret (Some (primary n,
                            Option.bind p (\<lambda>p. map_option (j_text J) (jat J (p @ [Member ''composition'']) jmain)))))))))"

section \<open>Reading the files\<close>

text \<open>
  What a node's entry says, once it has its device key. A node that is given up is freed;
  the addresses taken from the pool for it are not given back.
\<close>

definition parse_node_settings :: "'j json_c \<Rightarrow> nat \<Rightarrow> 'j \<Rightarrow> bool \<Rightarrow> 'a world_scheme \<Rightarrow> 'a world_scheme" where
  "parse_node_settings J r jnode is_loc w =
     (let idx = (case j_get J (Some jnode) ''IVindex'' of None \<Rightarrow> 0 | Some v \<Rightarrow> of_int (j_get_int J (Some v)));
          w1 = fst (node_set_iv_index (Some r) idx w);
          w2 = (if is_loc then
                  net_set_iv_index idx
                    (case j_get J (Some jnode) ''IVupdate'' of None \<Rightarrow> False | Some v \<Rightarrow> j_get_int J (Some v) \<noteq> 0) w1
                else w1)
      in (case j_get J (Some jnode) ''sequenceNumber'' of None \<Rightarrow> w2
          | Some v \<Rightarrow> fst (node_set_sequence_number (Some r) (of_int (j_get_int J (Some v))) w2)))"

definition parse_node_key_lists :: "'j json_c \<Rightarrow> nat \<Rightarrow> 'j \<Rightarrow> 'a world_scheme \<Rightarrow> ('a world_scheme \<times> bool) cres" where
  "parse_node_key_lists J r jconfig w =
     (case j_get J (Some jconfig) ''netKeys'' of None \<Rightarrow> Ret (w, False)
      | Some jidxs \<Rightarrow>
          cbind (parse_node_keys J r jidxs False w) (\<lambda>(w1, cnt).
            if cnt = 0 then Ret (w1, False)
            else cbind (case j_get J (Some jconfig) ''appKeys'' of None \<Rightarrow> Ret w1
                        | Some ja \<Rightarrow> cbind (parse_node_keys J r ja True w1) (\<lambda>(w2, _). Ret w2)) (\<lambda>w2.
              Ret (case j_get J (Some jconfig) ''defaultTTL'' of None \<Rightarrow> w2
                   | Some v \<Rightarrow> fst (node_set_default_ttl (Some r) (of_int (j_get_int J (Some v)) AND TTL_MASK) w2), True))))"

definition parse_node_configuration where
  "parse_node_configuration bnd J r jconfig is_loc w =
     (case j_get J (Some jconfig) ''elements'' of None \<Rightarrow> Ret (w, False)
      | Some jelements \<Rightarrow>
          cbind (parse_configuration_elements bnd J r jelements is_loc w) (\<lambda>(w1, ok).
            if ok then parse_node_key_lists J r jconfig w1 else Ret (w1, False)))"

definition finish_node :: "nat \<Rightarrow> bool \<Rightarrow> 'a world_scheme \<Rightarrow> 'a world_scheme \<times> bool" where
  "finish_node r is_loc w =
     (if is_loc then
        let (w1, done) = node_set_local_node r w in
        if done then (w1, True) else (node_free (Some r) w1, False)
      else (w, True))"

definition parse_node_with_key where
  "parse_node_with_key bnd J k jnode is_loc w =
     (let (w0, r) = node_new w;
          w1 = parse_node_settings J r jnode is_loc (node_set_device_key (Some r) k w0)
      in cbind (case j_get J (Some jnode) ''composition'' of
                  None \<Rightarrow> Ret (w1, \<not> is_loc)
                | Some jcomp \<Rightarrow> parse_node_composition J r jcomp w1) (\<lambda>(w2, ok2).
           if \<not> ok2 then Ret (node_free (Some r) w2, False)
           else (case j_get J (Some jnode) ''configuration'' of
               None \<Rightarrow> if is_loc then Ret (finish_node r is_loc w2) else Ret (node_free (Some r) w2, False)
             | Some jconfig \<Rightarrow>
                 cbind (parse_node_configuration bnd J r jconfig is_loc w2) (\<lambda>(w3, ok3).
                   if ok3 then Ret (finish_node r is_loc w3) else Ret (node_free (Some r) w3, False)))))"

text \<open>
  A node without a device key gets a random one, which is put into the document. \<open>rnd\<close>
  are the results of the calls of \<^verbatim>\<open>mesh_get_random_bytes\<close> to come.
\<close>

definition draw_key :: "bytes option list \<Rightarrow> bytes option \<times> bytes option list" where
  "draw_key rnd = (case rnd of [] \<Rightarrow> (None, []) | x # xs \<Rightarrow> (map_option (\<lambda>b. sub_bytes b 0 16) x, xs))"

definition parse_node where
  "parse_node bnd J jnode is_loc rnd w =
     (case j_get J (Some jnode) ''deviceKey'' of
        None \<Rightarrow>
          (case draw_key rnd of
             (None, rnd1) \<Rightarrow> Ret (w, jnode, rnd1, False)
           | (Some k, rnd1) \<Rightarrow>
               cguard (j_is_object J jnode)
                 (let jnode1 = add_key J jnode ''deviceKey'' k in
                  cbind (parse_node_with_key bnd J k jnode1 is_loc w) (\<lambda>(w1, ok). Ret (w1, jnode1, rnd1, ok))))
      | Some v \<Rightarrow>
          cbind (c_string J (Some v)) (\<lambda>s.
            (case str2hex s (length s) 16 of
               None \<Rightarrow> Ret (w, jnode, rnd, False)
             | Some k \<Rightarrow>
                 cbind (parse_node_with_key bnd J k jnode is_loc w) (\<lambda>(w1, ok). Ret (w1, jnode, rnd, ok)))))"

text \<open>
  The variables of \<^verbatim>\<open>read_json_db\<close>: the document, the buffer of the last key, which a
  failed conversion of an application key leaves as it got, and whether a key was made
  up, so that the file is written again.
\<close>

record 'j db_reader =
  rd_main :: 'j
  rd_key :: bytes
  rd_refresh :: bool
  rd_rand :: "bytes option list"

fun str2hex_written :: "string \<Rightarrow> nat \<Rightarrow> nat \<Rightarrow> bytes" where
  "str2hex_written str i 0 = []"
| "str2hex_written str i (Suc n) =
     (case sscanf_02hhx (drop (i * 2) str) of None \<Rightarrow> [] | Some v \<Rightarrow> v # str2hex_written str (i + 1) n)"

definition str2hex_out :: "string \<Rightarrow> bytes \<Rightarrow> bytes" where
  "str2hex_out str out =
     (if length str < length out * 2 then out else memcpy out 0 (str2hex_written str 0 (length out)))"

definition read_key ::
  "'j json_c \<Rightarrow> bool \<Rightarrow> jstep list \<Rightarrow> 'j option \<Rightarrow> 'j db_reader \<Rightarrow> ('j db_reader \<times> bool) cres" where
  "read_key J checked p jtemp rd =
     (case j_get J jtemp ''key'' of
        None \<Rightarrow>
          (case draw_key (rd_rand rd) of
             (None, rnd) \<Rightarrow> Ret (rd\<lparr>rd_rand := rnd\<rparr>, False)
           | (Some k, rnd) \<Rightarrow>
               (case jtemp of None \<Rightarrow> Fault
                | Some j \<Rightarrow>
                    cguard (j_is_object J j)
                      (Ret (rd\<lparr>rd_main := jset J p (add_key J j ''key'' k) (rd_main rd), rd_key := k,
                               rd_refresh := True, rd_rand := rnd\<rparr>, True))))
      | Some v \<Rightarrow>
          cbind (c_string J (Some v)) (\<lambda>s.
            Ret (rd\<lparr>rd_key := str2hex_out s (rd_key rd)\<rparr>, \<not> checked \<or> str2hex s (length s) 16 \<noteq> None)))"

text \<open>The memory that the program finds: \<open>db_nk_mem\<close>, \<open>db_ak_mem\<close> fresh from \<^verbatim>\<open>g_new\<close>, \<open>db_key_mem\<close> on the stack.\<close>

record 'j db_env =
  db_json :: "'j json_c"
  db_alg :: af_alg
  db_nk_mem :: mesh_net_key
  db_ak_mem :: mesh_app_key
  db_key_mem :: bytes

fun read_net_keys ::
  "'j db_env \<Rightarrow> nat \<Rightarrow> nat \<Rightarrow> 'j db_reader \<Rightarrow> 'a world_scheme \<Rightarrow> ('a world_scheme \<times> 'j db_reader \<times> bool) cres" where
  "read_net_keys E 0 i rd w = Ret (w, rd, True)"
| "read_net_keys E (Suc n) i rd w =
     (let J = db_json E; p = [Member ''netKeys'', Item i]; jtemp = jat J p (rd_main rd) in
      (case j_get J jtemp ''index'' of None \<Rightarrow> Ret (w, rd, False)
       | Some v \<Rightarrow>
           let idx = of_int (j_get_int J (Some v)) in
           cbind (read_key J True p jtemp rd) (\<lambda>(rd1, ok).
             if \<not> ok then Ret (w, rd1, False)
             else
               let (ks, added) = keys_net_key_add (db_alg E) (db_nk_mem E) idx (rd_key rd1) False (keys w) in
               if \<not> added then Ret (w\<lparr>keys := ks\<rparr>, rd1, False)
               else (case j_get J (jat J p (rd_main rd1)) ''keyRefresh'' of
                   None \<Rightarrow> Ret (w\<lparr>keys := ks\<rparr>, rd1, False)
                 | Some k \<Rightarrow>
                     read_net_keys E n (i + 1) rd1
                       (w\<lparr>keys := fst (keys_set_kr_phase idx (of_int (j_get_int J (Some k))) ks)\<rparr>)))))"

fun read_app_keys ::
  "'j db_env \<Rightarrow> nat \<Rightarrow> nat \<Rightarrow> 'j db_reader \<Rightarrow> 'a world_scheme \<Rightarrow> ('a world_scheme \<times> 'j db_reader \<times> bool) cres" where
  "read_app_keys E 0 i rd w = Ret (w, rd, True)"
| "read_app_keys E (Suc n) i rd w =
     (let J = db_json E; p = [Member ''appKeys'', Item i]; jtemp = jat J p (rd_main rd) in
      (case j_get J jtemp ''index'' of None \<Rightarrow> Ret (w, rd, False)
       | Some v \<Rightarrow>
           let app_idx = j_get_int J (Some v) in
           if \<not> CHECK_KEY_IDX_RANGE app_idx then Ret (w, rd, False)
           else cbind (read_key J False p jtemp rd) (\<lambda>(rd1, ok).
             if \<not> ok then Ret (w, rd1, False)
             else (case j_get J (jat J p (rd_main rd1)) ''boundNetKey'' of
                 None \<Rightarrow> Ret (w, rd1, False)
               | Some b \<Rightarrow>
                   let net_idx = j_get_int J (Some b) in
                   if \<not> CHECK_KEY_IDX_RANGE net_idx then Ret (w, rd1, False)
                   else read_app_keys E n (i + 1) rd1
                     (w\<lparr>keys := fst (keys_app_key_add (db_alg E) (db_ak_mem E) (of_int net_idx) (of_int app_idx)
                                      (rd_key rd1) False (keys w))\<rparr>)))))"

fun read_provisioners :: "'j json_c \<Rightarrow> 'j option list \<Rightarrow> 'a world_scheme \<Rightarrow> ('a world_scheme \<times> bool) cres" where
  "read_provisioners J [] w = Ret (w, True)"
| "read_provisioners J (jprov # js) w =
     (case j_get J jprov ''allocatedUnicastRange'' of None \<Rightarrow> Ret (w, False)
      | Some ranges \<Rightarrow>
          cbind (parse_unicast_range J ranges w) (\<lambda>(w1, ok).
            if ok then read_provisioners J js w1 else Ret (w1, False)))"

fun read_nodes ::
  "(model_cb \<Rightarrow> u16 \<Rightarrow> nat \<Rightarrow> 'a world_scheme \<Rightarrow> 'a world_scheme \<times> int) \<Rightarrow> 'j json_c \<Rightarrow> nat \<Rightarrow> nat \<Rightarrow>
   'j db_reader \<Rightarrow> 'a world_scheme \<Rightarrow> ('a world_scheme \<times> 'j db_reader \<times> bool) cres" where
  "read_nodes bnd J 0 i rd w = Ret (w, rd, True)"
| "read_nodes bnd J (Suc n) i rd w =
     (let p = [Member ''nodes'', Item i] in
      (case jat J p (rd_main rd) of None \<Rightarrow> Ret (w, rd, False)
       | Some jnode \<Rightarrow>
           cbind (parse_node bnd J jnode False (rd_rand rd) w) (\<lambda>(w1, jnode1, rnd, ok).
             let rd1 = rd\<lparr>rd_main := jset J p jnode1 (rd_main rd), rd_rand := rnd\<rparr> in
             if ok then read_nodes bnd J n (i + 1) rd1 w1 else Ret (w1, rd1, False))))"

text \<open>The IV index, then the keys, the ranges of addresses and the nodes, each only if all before it were read.\<close>

definition then_read ::
  "('w \<times> 'j db_reader \<times> bool) cres \<Rightarrow> ('j db_reader \<Rightarrow> 'w \<Rightarrow> ('w \<times> 'j db_reader \<times> bool) cres) \<Rightarrow>
   ('w \<times> 'j db_reader \<times> bool) cres" where
  "then_read m f = cbind m (\<lambda>(w, rd, ok). if ok then f rd w else Ret (w, rd, False))"

definition read_iv_index :: "'j json_c \<Rightarrow> 'j db_reader \<Rightarrow> 'a world_scheme \<Rightarrow> ('a world_scheme \<times> 'j db_reader \<times> bool) cres" where
  "read_iv_index J rd w =
     (case (j_get J (Some (rd_main rd)) ''IVindex'', j_get J (Some (rd_main rd)) ''IVupdate'') of
        (Some i, Some u) \<Rightarrow> Ret (net_set_iv_index (of_int (j_get_int J (Some i))) (j_get_int J (Some u) \<noteq> 0) w, rd, True)
      | _ \<Rightarrow> Ret (w, rd, False))"

definition read_network where
  "read_network bnd E rd w =
     (let J = db_json E; member = (\<lambda>rd k. j_get J (Some (rd_main rd)) k) in
      then_read (read_iv_index J rd w) (\<lambda>rd w.
      then_read (case member rd ''netKeys'' of None \<Rightarrow> Ret (w, rd, False)
                 | Some a \<Rightarrow> cguard (j_is_array J a) (read_net_keys E (j_length J a) 0 rd w)) (\<lambda>rd w.
      then_read (case member rd ''appKeys'' of None \<Rightarrow> Ret (w, rd, True)
                 | Some a \<Rightarrow> cguard (j_is_array J a) (read_app_keys E (j_length J a) 0 rd w)) (\<lambda>rd w.
      then_read (case member rd ''provisioners'' of None \<Rightarrow> Ret (w, rd, False)
                 | Some a \<Rightarrow> cguard (j_is_array J a)
                     (cbind (read_provisioners J (j_items J a) w) (\<lambda>(w1, ok). Ret (w1, rd, ok)))) (\<lambda>rd w.
      (case member rd ''nodes'' of None \<Rightarrow> Ret (w, rd, True)
       | Some a \<Rightarrow> cguard (j_is_array J a) (read_nodes bnd J (j_length J a) 0 rd w)))))))"

definition read_local_node where
  "read_local_node bnd J rd w =
     (case j_get J (Some (rd_main rd)) ''node'' of None \<Rightarrow> Ret (w, rd, None)
      | Some jnode \<Rightarrow>
          cbind (parse_node bnd J jnode True (rd_rand rd) w) (\<lambda>(w1, jnode1, rnd, ok).
            Ret (w1, rd\<lparr>rd_main := jset J [Member ''node''] jnode1 (rd_main rd), rd_rand := rnd\<rparr>, Some ok)))"

text \<open>The file is written again to the provisioning database, whichever file was read.\<close>

definition finish_read ::
  "'j json_c \<Rightarrow> db \<Rightarrow> ('w \<times> 'j db_reader \<times> bool) cres \<Rightarrow> ('w \<times> db \<times> bool) cres" where
  "finish_read J d m =
     cbind m (\<lambda>(w, rd, res).
       let d1 = d\<lparr>urandom := rd_rand rd\<rparr> in
       cbind (if res \<and> rd_refresh rd then prov_file_write J (rd_main rd) False d1 else Ret d1) (\<lambda>d2. Ret (w, d2, res)))"

definition read_json_db where
  "read_json_db bnd E filename prov is_loc d w =
     (let J = db_json E in
      (case db_load J filename d of None \<Rightarrow> Ret (w, d, False)
       | Some jmain \<Rightarrow>
           let rd = \<lparr>rd_main = jmain, rd_key = db_key_mem E, rd_refresh = False, rd_rand = urandom d\<rparr> in
           finish_read J d
             (if is_loc then
                cbind (read_local_node bnd J rd w) (\<lambda>(w1, rd1, result).
                  (case result of None \<Rightarrow> Ret (w1, rd1, False)
                   | Some ok \<Rightarrow> if prov then Ret (w1, rd1, ok) else read_network bnd E rd1 w1))
              else read_network bnd E rd w)))"

definition prov_db_read where
  "prov_db_read bnd E filename d w = read_json_db bnd E filename True False (d\<lparr>prov_filename := filename\<rparr>) w"

definition prov_db_read_local_node where
  "prov_db_read_local_node bnd E filename prov d w =
     read_json_db bnd E filename prov True (d\<lparr>local_filename := filename\<rparr>) w"

end
