(* ===== verification/Mesh_DbProps.thy ===== *)
theory Mesh_DbProps
  imports Mesh_Db
begin

text \<open>
  What the database of \<^verbatim>\<open>mesh/prov-db.c\<close> keeps: numbers as text and back, the change that
  a call of the configuration client makes in the file, and what the next start reads of it - the
  configuration of a model, a new node, the IV index.
\<close>

section \<open>Numbers in a file\<close>

lemma hex_pad_digits:
  "n < 16 ^ k \<Longrightarrow> length (hex_pad k n) = k \<and> set (hex_pad k n) \<subseteq> hexdigit ` {..<16} \<and> digits_value 16 (hex_pad k n) = int n"
proof (induction k arbitrary: n)
  case (Suc k)
  then have "n div 16 < 16 ^ k" by (simp add: less_mult_imp_div_less)
  moreover have "16 * int (n div 16) + int (n mod 16) = int n" by (simp add: zdiv_int zmod_int)
  ultimately show ?case using Suc.IH [of "n div 16"] hexdigit_props [of "n mod 16"]
    by (auto simp: digits_value_def)
qed (simp add: digits_value_def)

lemma hex_pad_scan:
  assumes "n < 16 ^ k" "0 < k" "s = hex_pad k n"
  shows "dropWhile is_space s = s" "scan_sign s = (False, s)" "\<not> has_0x s" "digit_run 16 s = s" "s \<noteq> []"
proof -
  note d = hex_pad_digits [OF assms(1), folded assms(3)]
  have each: "hexval c \<noteq> None \<and> \<not> is_space c \<and> c \<noteq> CHR ''-'' \<and> c \<noteq> CHR ''+'' \<and> is_digit 16 c \<and> c \<noteq> CHR ''x'' \<and> c \<noteq> CHR ''X''"
    if c: "c \<in> set s" for c
  proof -
    obtain i where "i < 16" "c = hexdigit i" using d c by auto
    with hexdigit_props [of i] show ?thesis by (auto simp: is_digit_def hexval_def)
  qed
  obtain c cs where s: "s = c # cs" using d assms(2) by (cases s) auto
  then show "s \<noteq> []" by simp
  show "dropWhile is_space s = s" "scan_sign s = (False, s)" using each [of c] by (simp_all add: s scan_sign_def)
  show "\<not> has_0x s" using each by (cases cs) (auto simp: has_0x_def s)
  show "digit_run 16 s = s" using each by (simp add: digit_run_def takeWhile_eq_all_conv)
qed

lemma scan_hex_pad:
  assumes "n < 16 ^ k" "0 < k" "k \<le> 8" "k \<le> width"
  shows "scan_hex width (hex_pad k n) = Some (int n)"
proof -
  have "length (hex_pad k n) = k" using hex_pad_digits [OF assms(1)] by simp
  moreover have "int n < 2 ^ 64"
  proof -
    have "(16::nat) ^ k \<le> 16 ^ 8" using assms(3) by (intro power_increasing) auto
    with assms(1) show ?thesis by simp
  qed
  ultimately show ?thesis
    using hex_pad_scan [OF assms(1,2) refl] hex_pad_digits [OF assms(1)] assms(4)
    by (simp add: scan_hex_def Let_def to_ulong_def)
qed

lemma sscanf_pad16 [simp]: "sscanf_04hx (hex_pad 4 (unat v)) = Some v" for v :: u16
  using unat_u16_less [of v] by (simp add: sscanf_04hx_def scan_hex_pad)

lemma scan_pad16 [simp]: "scan_hex 4 (hex_pad 4 (unat v)) = Some (uint v)" for v :: u16
  using unat_u16_less [of v] by (simp add: scan_hex_pad)

lemma length_pad [simp]: "length (hex_pad 4 (unat v)) = 4" "length (hex_pad 8 (unat u)) = 8" for v :: u16 and u :: u32
  using hex_pad_digits [of "unat v" 4] hex_pad_digits [of "unat u" 8] unat_u16_less [of v] unat_u32_less [of u] by simp_all

lemma text_model_id_pad:
  "text_model_id (hex_pad 4 (unat v)) = Some (ucast v + 0xffff0000)" "text_model_id (hex_pad 8 (unat u)) = Some u"
  for v :: u16 and u :: u32
  using scan_hex_pad [of "unat v" 4 8] scan_hex_pad [of "unat u" 8 8] unat_u16_less [of v] unat_u32_less [of u]
  by (simp_all add: text_model_id_def sscanf_08x_def)

lemma sig_model_id: "model_id AND 0xffff0000 = 0xffff0000 \<Longrightarrow> ucast (ucast (model_id AND 0xffff) :: u16) + 0xffff0000 = model_id"
  for model_id :: u32
proof -
  assume h: "model_id AND 0xffff0000 = 0xffff0000"
  have m: "(0xffff :: u32) = mask 16" by (simp add: mask_eq_exp_minus_1)
  have "ucast (ucast (model_id AND mask 16) :: u16) = (model_id AND mask 16 :: u32)"
    by (rule bit_word_eqI) (auto simp: bit_simps)
  then have low: "ucast (ucast (model_id AND 0xffff) :: u16) = (model_id AND 0xffff :: u32)" unfolding m .
  have "(model_id AND k) + (model_id AND NOT k) = model_id" for k
  proof -
    have "(model_id AND k) AND (model_id AND NOT k) = 0" "(model_id AND k) OR (model_id AND NOT k) = model_id"
      by (rule bit_word_eqI, auto simp: bit_and_iff bit_or_iff bit_not_iff)+
    then show ?thesis by (simp only: disjunctive_add_eq_or)
  qed
  moreover have "(NOT 0xffff :: u32) = 0xffff0000" by code_simp
  ultimately have "(model_id AND 0xffff) + (model_id AND 0xffff0000) = model_id" by metis
  then show ?thesis using h low by simp
qed

lemma jat_Nil [simp]: "jat J [] = Some"
  by (rule ext) simp

section \<open>The entries of the models\<close>

text \<open>
  What a document says of a model: the entry of the model in the element with that
  position, of the node with that address.
\<close>

definition entry_id :: "'j json_c \<Rightarrow> 'j option \<Rightarrow> string cres" where
  "entry_id J x = c_string J (j_get J x ''modelId'')"

definition element_entry :: "'j json_c \<Rightarrow> u32 \<Rightarrow> 'j \<Rightarrow> 'j option" where
  "element_entry J m je =
     (case j_get J (Some je) ''models'' of None \<Rightarrow> None
      | Some ms \<Rightarrow> (case find_configured_model J (j_items J ms) m 0 of Ret (Some i) \<Rightarrow> j_idx J ms i | _ \<Rightarrow> None))"

abbreviation element_path :: "jstep list \<Rightarrow> nat \<Rightarrow> jstep list" where
  "element_path p e \<equiv> p @ [Member ''configuration'', Member ''elements'', Item e]"

definition db_entry :: "'j json_c \<Rightarrow> bool \<Rightarrow> u16 \<Rightarrow> nat \<Rightarrow> u32 \<Rightarrow> 'j \<Rightarrow> 'j option" where
  "db_entry J is_loc addr e m jmain =
     (case db_node J is_loc addr jmain of
        Ret (Some p) \<Rightarrow> Option.bind (jat J (element_path p e) jmain) (element_entry J m)
      | _ \<Rightarrow> None)"

text \<open>Every entry of an element names its model.\<close>

definition ids_ok :: "'j json_c \<Rightarrow> 'j option list \<Rightarrow> bool" where
  "ids_ok J xs \<longleftrightarrow> (\<forall>x\<in>set xs. \<exists>s i. entry_id J x = Ret s \<and> text_model_id s = Some i)"

definition models_named :: "'j json_c \<Rightarrow> 'j \<Rightarrow> bool" where
  "models_named J je \<longleftrightarrow> (\<forall>ms. j_get J (Some je) ''models'' = Some ms \<longrightarrow> ids_ok J (j_items J ms))"

lemma find_model_cong:
  "map (entry_id J) xs = map (entry_id J) ys \<Longrightarrow> find_configured_model J xs m i = find_configured_model J ys m i"
proof (induction xs arbitrary: ys i)
  case (Cons x xs)
  then obtain y zs where y: "ys = y # zs" "entry_id J x = entry_id J y" "map (entry_id J) xs = map (entry_id J) zs"
    by (cases ys) auto
  show ?case using y(2) unfolding y(1) entry_id_def by (simp only: find_configured_model.simps Cons.IH [OF y(3)])
qed simp

lemma find_model_found:
  "find_configured_model J xs m i = Ret (Some k) \<Longrightarrow>
   i \<le> k \<and> k < i + length xs \<and> (\<exists>s. entry_id J (xs ! (k - i)) = Ret s \<and> text_model_id s = Some m)"
proof (induction xs arbitrary: i)
  case (Cons x xs)
  from Cons.prems obtain s a where s: "entry_id J x = Ret s" "text_model_id s = Some a"
    by (auto simp: entry_id_def cbind_Ret_iff split: option.splits)
  show ?case
  proof (cases "a = m")
    case True
    with Cons.prems s show ?thesis by (auto simp: entry_id_def)
  next
    case False
    with Cons.prems s have "find_configured_model J xs m (i + 1) = Ret (Some k)" by (simp add: entry_id_def)
    from Cons.IH [OF this] show ?thesis by (auto simp: nth_Cons')
  qed
qed simp

lemma find_model_ok: "ids_ok J xs \<Longrightarrow> \<exists>k. find_configured_model J xs m i = Ret k"
  by (induction xs arbitrary: i) (force simp: ids_ok_def entry_id_def)+

lemma find_model_append:
  "ids_ok J xs \<Longrightarrow> find_configured_model J (xs @ ys) m i =
     (case find_configured_model J xs m i of Ret (Some k) \<Rightarrow> Ret (Some k) | _ \<Rightarrow> find_configured_model J ys m (i + length xs))"
proof (induction xs arbitrary: i)
  case (Cons x xs)
  then obtain s a where s: "c_string J (j_get J x ''modelId'') = Ret s" "text_model_id s = Some a"
    by (auto simp: ids_ok_def entry_id_def)
  moreover have "find_configured_model J (xs @ ys) m (Suc i) = (case find_configured_model J xs m (Suc i) of
      Ret (Some k) \<Rightarrow> Ret (Some k) | _ \<Rightarrow> find_configured_model J ys m (Suc i + length xs))"
    using Cons by (auto simp: ids_ok_def)
  moreover have len: "i + length (x # xs) = Suc i + length xs" by simp
  ultimately show ?case unfolding len by (cases "a = m") simp_all
qed simp

text \<open>The configuration of a model, and the entry that stands for it.\<close>

record model_cfg =
  cfg_bind :: "u16 list"
  cfg_sub :: "u16 list"
  cfg_pub :: "mesh_publication option"

definition no_cfg :: model_cfg where
  "no_cfg = \<lparr>cfg_bind = [], cfg_sub = [], cfg_pub = None\<rparr>"

definition list_is :: "'j json_c \<Rightarrow> 'j \<Rightarrow> string \<Rightarrow> 'j list \<Rightarrow> bool" where
  "list_is J j k vs \<longleftrightarrow>
     (case j_get J (Some j) k of None \<Rightarrow> vs = [] | Some a \<Rightarrow> j_is_array J a \<and> j_items J a = map Some vs)"

definition entry_holds :: "'j json_c \<Rightarrow> 'j \<Rightarrow> model_cfg \<Rightarrow> bool" where
  "entry_holds J j c \<longleftrightarrow>
     j_is_object J j \<and>
     list_is J j ''bind'' (map (\<lambda>b. j_new_int J (uint b)) (cfg_bind c)) \<and>
     list_is J j ''subscribe'' (map (\<lambda>a. j_new_string J (hex_pad 4 (unat a))) (cfg_sub c)) \<and>
     j_get J (Some j) ''publish'' = map_option (pub_json J) (cfg_pub c)"

text \<open>A model without an entry has no configuration.\<close>

definition db_holds :: "'j json_c \<Rightarrow> bool \<Rightarrow> u16 \<Rightarrow> nat \<Rightarrow> u32 \<Rightarrow> 'j \<Rightarrow> model_cfg \<Rightarrow> bool" where
  "db_holds J is_loc addr e m jmain c \<longleftrightarrow>
     (case db_entry J is_loc addr e m jmain of None \<Rightarrow> c = no_cfg | Some j \<Rightarrow> entry_holds J j c)"

text \<open>The calls that \<^verbatim>\<open>config-client.c\<close> and \<^verbatim>\<open>config-server.c\<close> make, carried out; and what they mean for a model.\<close>

definition save_call :: "'j json_c \<Rightarrow> 'a world_scheme \<Rightarrow> nat \<Rightarrow> db_call \<Rightarrow> db \<Rightarrow> (db \<times> bool) cres" where
  "save_call J w r c d =
     (case c of
        Db_node_composition data \<Rightarrow> prov_db_add_node_composition J w r data (of_nat (length data)) d
      | Db_app_keys ks \<Rightarrow> prov_db_node_keys J w r ks ''appKeys'' d
      | Db_net_keys ks \<Rightarrow> prov_db_node_keys J w r (map ucast ks) ''netKeys'' d
      | Db_binding ele m a \<Rightarrow> prov_db_add_binding J w r ele m a d
      | Db_subscription ele m a \<Rightarrow> prov_db_add_subscription J w r ele m a d
      | Db_ttl ttl \<Rightarrow> prov_db_node_set_ttl J w r ttl d
      | Db_model_pub ele m p \<Rightarrow> prov_db_node_set_model_pub J w r ele m p d)"

fun cfg_call :: "db_call \<Rightarrow> model_cfg \<Rightarrow> model_cfg" where
  "cfg_call (Db_binding ele m a) c = c\<lparr>cfg_bind := cfg_bind c @ [a]\<rparr>"
| "cfg_call (Db_subscription ele m a) c = c\<lparr>cfg_sub := cfg_sub c @ [a]\<rparr>"
| "cfg_call (Db_model_pub ele m p) c = c\<lparr>cfg_pub := p\<rparr>"
| "cfg_call _ c = c"

fun call_model :: "db_call \<Rightarrow> (u8 \<times> u32) option" where
  "call_model (Db_binding ele m a) = Some (ele, m)"
| "call_model (Db_subscription ele m a) = Some (ele, m)"
| "call_model (Db_model_pub ele m p) = Some (ele, m)"
| "call_model _ = None"

text \<open>The address of a node's entry decides which entry is found.\<close>

definition node_addr :: "'j json_c \<Rightarrow> 'j option \<Rightarrow> u16 option cres" where
  "node_addr J jnode =
     (case j_get J jnode ''configuration'' of None \<Rightarrow> Ret None
      | Some jconfig \<Rightarrow>
        (case j_get J (Some jconfig) ''elements'' of None \<Rightarrow> Ret None
         | Some jelements \<Rightarrow>
           cguard (j_is_array J jelements)
             (case j_idx J jelements 0 of None \<Rightarrow> Ret None
              | Some jelement \<Rightarrow>
                cbind (c_string J (j_get J (Some jelement) ''unicastAddress'')) (\<lambda>s. Ret (sscanf_04hx s)))))"

lemma find_node_addr:
  "find_node_loop J addr (x # xs) i =
     cbind (node_addr J x) (\<lambda>a. case a of None \<Rightarrow> Ret None
       | Some a \<Rightarrow> if a = addr then Ret (Some [Member ''nodes'', Item i]) else find_node_loop J addr xs (i + 1))"
  by (simp add: node_addr_def cguard_def c_string_def split: option.split)

lemma find_node_cong:
  "map (node_addr J) xs = map (node_addr J) ys \<Longrightarrow> find_node_loop J addr xs i = find_node_loop J addr ys i"
proof (induction xs arbitrary: ys i)
  case (Cons x xs)
  then obtain y zs where y: "ys = y # zs" "node_addr J x = node_addr J y" "map (node_addr J) xs = map (node_addr J) zs"
    by (cases ys) auto
  show ?case unfolding y(1) find_node_addr y(2) Cons.IH [OF y(3)] ..
qed simp

lemma find_node_found:
  "find_node_loop J addr xs i = Ret (Some p) \<Longrightarrow>
   \<exists>k. p = [Member ''nodes'', Item (i + k)] \<and> k < length xs \<and> node_addr J (xs ! k) = Ret (Some addr)"
proof (induction xs arbitrary: i)
  case (Cons x xs)
  from Cons.prems obtain a where a: "node_addr J x = Ret (Some a)"
    by (auto simp: find_node_addr cbind_Ret_iff simp del: find_node_loop.simps split: option.splits)
  show ?case
  proof (cases "a = addr")
    case True
    with Cons.prems a show ?thesis by (auto simp: find_node_addr simp del: find_node_loop.simps)
  next
    case False
    with Cons.prems a have "find_node_loop J addr xs (i + 1) = Ret (Some p)"
      by (simp add: find_node_addr del: find_node_loop.simps)
    from Cons.IH [OF this] obtain k where "p = [Member ''nodes'', Item (i + 1 + k)]" "k < length xs"
      "node_addr J (xs ! k) = Ret (Some addr)" by blast
    then show ?thesis by (intro exI [of _ "Suc k"]) simp
  qed
qed simp

context json_lib
begin

lemma entry_id_new: "\<exists>s. entry_id J (Some (new_jmodel J m)) = Ret s \<and> text_model_id s = Some m"
  by (auto simp: entry_id_def new_jmodel_def put_uint16_def put_uint32_def c_string_def text_model_id_pad sig_model_id)

lemma new_jmodel_object [simp]: "j_is_object J (new_jmodel J m)"
  by (simp add: new_jmodel_def put_uint16_def put_uint32_def)

lemma new_jmodel_members: "k \<noteq> ''modelId'' \<Longrightarrow> j_get J (Some (new_jmodel J m)) k = None"
  by (simp add: new_jmodel_def put_uint16_def put_uint32_def)

text \<open>The element that \<open>get_jmodel_obj\<close> makes has the entry of the model; all else in it is as before.\<close>

lemma element_with_model:
  assumes "jelement_with_model J m je = Ret (je1, i)" "models_named J je"
  obtains ms jm where "j_get J (Some je1) ''models'' = Some ms" "j_is_array J ms" "j_idx J ms i = Some jm"
    "find_configured_model J (j_items J ms) m 0 = Ret (Some i)"
    "jm = (case element_entry J m je of None \<Rightarrow> new_jmodel J m | Some j \<Rightarrow> j)"
    "\<And>k. k \<noteq> ''models'' \<Longrightarrow> j_get J (Some je1) k = j_get J (Some je) k"
    "\<And>m'. m' \<noteq> m \<Longrightarrow> element_entry J m' je1 = element_entry J m' je"
proof (cases "j_get J (Some je) ''models''")
  case None
  obtain s where s: "entry_id J (Some (new_jmodel J m)) = Ret s" "text_model_id s = Some m" using entry_id_new by blast
  let ?ms = "j_append J (j_new_array J) (new_jmodel J m)"
  from None assms(1) have je1: "je1 = j_add J je ''models'' ?ms" "i = 0" "j_is_object J je"
    by (auto simp: jelement_with_model_def)
  have "find_configured_model J (j_items J ?ms) m' 0 = (if m' = m then Ret (Some 0) else Ret None)" for m'
    using s by (simp add: entry_id_def)
  then show thesis using je1 None by (intro that [of ?ms "new_jmodel J m"]) (simp_all add: element_entry_def)
next
  case (Some a)
  then have a: "j_is_array J a" "ids_ok J (j_items J a)" "j_is_object J je"
    using assms by (auto simp: jelement_with_model_def models_named_def intro: get_object)
  obtain k where k: "find_configured_model J (j_items J a) m 0 = Ret k" using find_model_ok [OF a(2)] by blast
  show thesis
  proof (cases k)
    case (Some l)
    with k \<open>j_get J (Some je) _ = _\<close> a assms(1) have "je1 = je" "i = l" by (auto simp: jelement_with_model_def)
    moreover obtain jm where "j_idx J a l = Some jm"
    proof -
      from find_model_found [OF k [unfolded Some]] obtain s where l: "l < j_length J a" "entry_id J (j_items J a ! l) = Ret s" by auto
      then show thesis using that by (cases "j_idx J a l") (auto simp: entry_id_def c_string_def)
    qed
    ultimately show thesis using k Some \<open>j_get J (Some je) _ = _\<close> a
      by (intro that [of a jm]) (simp_all add: element_entry_def)
  next
    case None
    obtain s where s: "entry_id J (Some (new_jmodel J m)) = Ret s" "text_model_id s = Some m" using entry_id_new by blast
    let ?ms = "j_append J a (new_jmodel J m)"
    from None k Some a assms(1) have je1: "je1 = j_add J je ''models'' ?ms" "i = j_length J a"
      by (auto simp: jelement_with_model_def)
    have "find_configured_model J (j_items J ?ms) m 0 = Ret (Some i)"
      using s a k None je1(2) by (simp add: find_model_append entry_id_def)
    moreover have "element_entry J m' je1 = element_entry J m' je" if "m' \<noteq> m" for m'
    proof -
      obtain k' where k': "find_configured_model J (j_items J a) m' 0 = Ret k'" using find_model_ok [OF a(2)] by blast
      have "find_configured_model J (j_items J ?ms) m' 0 = Ret k'"
        using s a k' that by (auto simp: find_model_append entry_id_def split: option.split)
      moreover have "l < j_length J a" if "k' = Some l" for l using find_model_found [OF k' [unfolded that]] by simp
      ultimately show ?thesis using je1 a Some k' by (auto simp: element_entry_def split: option.split)
    qed
    ultimately show thesis using je1 Some None k a
      by (intro that [of ?ms "new_jmodel J m"]) (simp_all add: element_entry_def)
  qed
qed

text \<open>Changing the entry, but not the model it names.\<close>

lemma element_set_entry:
  assumes "j_get J (Some je1) ''models'' = Some ms" "j_is_array J ms" "j_idx J ms i = Some jm"
    and "find_configured_model J (j_items J ms) m 0 = Ret (Some i)"
    and "j_get J (Some jm') ''modelId'' = j_get J (Some jm) ''modelId''"
  defines "je2 \<equiv> jset J [Member ''models'', Item i] jm' je1"
  shows "element_entry J m je2 = Some jm'" "m' \<noteq> m \<Longrightarrow> element_entry J m' je2 = element_entry J m' je1"
    "k \<noteq> ''models'' \<Longrightarrow> j_get J (Some je2) k = j_get J (Some je1) k"
proof -
  let ?ms = "j_put_idx J ms i jm'"
  have i: "i < j_length J ms" using idx_array [OF assms(3)] by simp
  have obj: "j_is_object J je1" using get_object [OF assms(1)] .
  have je2: "je2 = j_add J je1 ''models'' ?ms" using assms(1,3) by (simp add: je2_def)
  then show "k \<noteq> ''models'' \<Longrightarrow> j_get J (Some je2) k = j_get J (Some je1) k" using obj by simp
  have items: "j_items J ?ms = (j_items J ms)[i := Some jm']" by (rule items_put [OF assms(2) i])
  have "map (entry_id J) (j_items J ?ms) = map (entry_id J) (j_items J ms)"
    unfolding items by (rule nth_equalityI) (use i assms(3,5) in \<open>auto simp: nth_list_update entry_id_def\<close>)
  from find_model_cong [OF this]
  have find: "find_configured_model J (j_items J ?ms) m' 0 = find_configured_model J (j_items J ms) m' 0" for m' .
  show "element_entry J m je2 = Some jm'" using je2 obj assms(2,4) i by (simp add: element_entry_def find)
  show "element_entry J m' je2 = element_entry J m' je1" if "m' \<noteq> m"
  proof -
    have "l \<noteq> i" if l: "find_configured_model J (j_items J ms) m' 0 = Ret (Some l)" for l
      using find_model_found [OF l] find_model_found [OF assms(4)] \<open>m' \<noteq> m\<close> by auto
    then show ?thesis using je2 obj assms(1,2) i by (auto simp: element_entry_def find split: cres.split option.split)
  qed
qed

text \<open>A change of an element that leaves all but its models alone moves no node.\<close>

lemma node_addr_set:
  assumes "jat J [Member ''configuration'', Member ''elements'', Item e] jnode = Some je"
    and "\<And>k. k \<noteq> ''models'' \<Longrightarrow> j_get J (Some je2) k = j_get J (Some je) k"
  shows "node_addr J (Some (jset J [Member ''configuration'', Member ''elements'', Item e] je2 jnode)) = node_addr J (Some jnode)"
proof -
  from assms(1) obtain c es where c: "j_get J (Some jnode) ''configuration'' = Some c" "j_get J (Some c) ''elements'' = Some es"
    "j_idx J es e = Some je" by (auto simp: bind_eq_Some_conv)
  have "j_is_object J jnode" "j_is_object J c" "j_is_array J es" "e < j_length J es"
    using c get_object idx_array by blast+
  with c assms(2) show ?thesis by (auto simp: node_addr_def)
qed

lemma db_node_nodes:
  assumes "db_node J False addr jmain = Ret (Some p)"
  obtains a i where "p = [Member ''nodes'', Item i]" "j_get J (Some jmain) ''nodes'' = Some a" "j_is_array J a"
    "i < j_length J a" "node_addr J (j_idx J a i) = Ret (Some addr)"
proof -
  from assms obtain a where a: "j_get J (Some jmain) ''nodes'' = Some a" "j_is_array J a"
    "find_node_loop J addr (j_items J a) 0 = Ret (Some p)"
    by (auto simp: db_node_def find_node_by_primary_def split: option.splits)
  from find_node_found [OF a(3)] show thesis using that [OF _ a(1,2)] by auto
qed

lemma find_node_set:
  assumes p: "find_node_by_primary J jmain addr = Ret (Some p)" "jat J p jmain = Some jnode"
    and same: "node_addr J (Some jnode') = node_addr J (Some jnode)"
  shows "find_node_by_primary J (jset J p jnode' jmain) addr' = find_node_by_primary J jmain addr'"
proof -
  from p(1) have "db_node J False addr jmain = Ret (Some p)" by (simp add: db_node_def)
  then obtain a i where a: "p = [Member ''nodes'', Item i]" "j_get J (Some jmain) ''nodes'' = Some a" "j_is_array J a"
    "i < j_length J a" "node_addr J (j_idx J a i) = Ret (Some addr)" by (rule db_node_nodes)
  from p(2) a have n: "j_idx J a i = Some jnode" by simp
  have "jset J p jnode' jmain = j_add J jmain ''nodes'' (j_put_idx J a i jnode')" using a n by simp
  moreover have "map (node_addr J) (j_items J (j_put_idx J a i jnode')) = map (node_addr J) (j_items J a)"
    unfolding items_put [OF a(3,4)]
    by (rule nth_equalityI) (use a n same in \<open>auto simp: nth_list_update\<close>)
  moreover have "j_is_object J jmain" using get_object [OF a(2)] .
  ultimately show ?thesis using a find_node_cong by (simp add: find_node_by_primary_def)
qed

lemma db_node_set:
  assumes p: "db_node J is_loc addr jmain = Ret (Some p)" "jat J (element_path p e) jmain = Some je"
    and same: "\<And>k. k \<noteq> ''models'' \<Longrightarrow> j_get J (Some je2) k = j_get J (Some je) k"
  shows "db_node J is_loc addr' (jset J (element_path p e) je2 jmain) = db_node J is_loc addr' jmain"
proof (cases is_loc)
  case True
  with p obtain c where "p = [Member ''node'']" "j_get J (Some jmain) ''node'' = Some c"
    by (auto simp: db_node_def split: option.splits)
  with True get_object show ?thesis by (simp add: db_node_def)
next
  case False
  from p(2) obtain jnode where n: "jat J p jmain = Some jnode"
    "jat J [Member ''configuration'', Member ''elements'', Item e] jnode = Some je"
    by (auto simp: jat_append bind_eq_Some_conv)
  from False p(1) have "find_node_by_primary J jmain addr = Ret (Some p)" by (simp add: db_node_def)
  from find_node_set [OF this n(1) node_addr_set [OF n(2) same]] False jset_append [OF n(1)] show ?thesis
    by (simp add: db_node_def)
qed

lemma db_entry_set:
  assumes p: "db_node J is_loc addr jmain = Ret (Some p)" "jat J (element_path p e) jmain = Some je"
    and same: "\<And>k. k \<noteq> ''models'' \<Longrightarrow> j_get J (Some je2) k = j_get J (Some je) k"
  defines "jmain' \<equiv> jset J (element_path p e) je2 jmain"
  shows "db_entry J is_loc addr e m jmain' = element_entry J m je2"
    "\<not> is_loc \<and> addr' \<noteq> addr \<or> e' \<noteq> e \<Longrightarrow> db_entry J is_loc addr' e' m' jmain' = db_entry J is_loc addr' e' m' jmain"
proof -
  note node = db_node_set [OF p same, folded jmain'_def]
  have "jat J (element_path p e) jmain' = Some je2" using p(2) by (simp add: jmain'_def jat_jset_same del: append_assoc)
  then show "db_entry J is_loc addr e m jmain' = element_entry J m je2"
    using node [of addr] p(1) by (simp add: db_entry_def)
  assume other: "\<not> is_loc \<and> addr' \<noteq> addr \<or> e' \<noteq> e"
  show "db_entry J is_loc addr' e' m' jmain' = db_entry J is_loc addr' e' m' jmain"
  proof (cases "\<exists>p'. db_node J is_loc addr' jmain = Ret (Some p')")
    case True
    then obtain p' where p': "db_node J is_loc addr' jmain = Ret (Some p')" by blast
    have "apart (element_path p e) (element_path p' e')"
    proof (cases is_loc)
      case True
      with p(1) p' have "p = [Member ''node'']" "p' = [Member ''node'']" by (auto simp: db_node_def split: option.splits)
      with True other show ?thesis by simp
    next
      case False
      with p(1) p' have "db_node J False addr jmain = Ret (Some p)" "db_node J False addr' jmain = Ret (Some p')" by simp_all
      then show ?thesis using other False by (elim db_node_nodes) auto
    qed
    then have "jat J (element_path p' e') jmain' = jat J (element_path p' e') jmain"
      unfolding jmain'_def by (rule jat_jset_apart)
    then show ?thesis using node [of addr'] p' by (simp add: db_entry_def)
  qed (use node [of addr'] in \<open>auto simp: db_entry_def split: cres.split option.split\<close>)
qed

lemma element_with_model_returns:
  assumes "j_is_object J je" "\<And>ms. j_get J (Some je) ''models'' = Some ms \<Longrightarrow> j_is_array J ms" "models_named J je"
  shows "\<exists>x. jelement_with_model J m je = Ret x"
proof (cases "j_get J (Some je) ''models''")
  case (Some ms)
  then obtain k where "find_configured_model J (j_items J ms) m 0 = Ret k"
    using find_model_ok [of J "j_items J ms"] assms(3) by (auto simp: models_named_def)
  then show ?thesis using Some assms(2) by (cases k) (simp_all add: jelement_with_model_def)
qed (simp add: jelement_with_model_def assms(1))

text \<open>A written document is read again.\<close>

lemma save_load:
  assumes "db_file is_loc d = Some f" "writable d f"
  shows "\<exists>d'. db_save J j is_loc d = Ret (d', True) \<and> db_load J (db_file is_loc d') d' = Some j"
  using assms by (auto simp: db_save_def prov_file_write_def db_file_def db_load_def prov_file_read_def)

lemma model_update_saved:
  fixes w :: "'a world_scheme"
  defines "is_loc \<equiv> \<lambda>r. is_local w r"
  assumes n: "node_at w r = Some n" and f: "db_file (is_loc r) d = Some f" "writable d f"
    and load: "db_load J (db_file (is_loc r) d) d = Some jmain"
    and p: "db_node J (is_loc r) (primary n) jmain = Ret (Some p)" "jat J (element_path p (unat ele)) jmain = Some je"
    and je: "j_is_object J je" "\<And>ms. j_get J (Some je) ''models'' = Some ms \<Longrightarrow> j_is_array J ms" "models_named J je"
    and jm: "jm = (case element_entry J m je of None \<Rightarrow> new_jmodel J m | Some j \<Rightarrow> j)"
    and ch: "change jm = Ret jm'" "j_get J (Some jm') ''modelId'' = j_get J (Some jm) ''modelId''"
  shows "\<exists>d' jmain'. db_model_update J w r ele m change d = Ret (d', True) \<and>
    db_load J (db_file (is_loc r) d') d' = Some jmain' \<and>
    db_entry J (is_loc r) (primary n) (unat ele) m jmain' = Some jm' \<and>
    (\<forall>addr' e' m'. \<not> is_loc r \<and> addr' \<noteq> primary n \<or> e' \<noteq> unat ele \<or> m' \<noteq> m \<longrightarrow>
       db_entry J (is_loc r) addr' e' m' jmain' = db_entry J (is_loc r) addr' e' m' jmain)"
proof -
  let ?e = "element_path p (unat ele)"
  obtain es where es: "jat J (p @ [Member ''configuration'', Member ''elements'']) jmain = Some es" "j_idx J es (unat ele) = Some je"
    using p(2) jat_append [of "p @ [Member ''configuration'', Member ''elements'']" "[Item (unat ele)]" jmain]
    by (cases "jat J (p @ [Member ''configuration'', Member ''elements'']) jmain") auto
  obtain je1 i where je1: "jelement_with_model J m je = Ret (je1, i)"
    using element_with_model_returns [OF je, of m] by auto
  from je1 je(3) obtain ms jm0 where ms: "j_get J (Some je1) ''models'' = Some ms" "j_is_array J ms" "j_idx J ms i = Some jm0"
    "find_configured_model J (j_items J ms) m 0 = Ret (Some i)" and jm0: "jm0 = jm"
    and same1: "\<And>k. k \<noteq> ''models'' \<Longrightarrow> j_get J (Some je1) k = j_get J (Some je) k"
      "\<And>m'. m' \<noteq> m \<Longrightarrow> element_entry J m' je1 = element_entry J m' je"
    unfolding jm by (rule element_with_model) blast
  let ?j1 = "jset J ?e je1 jmain" and ?je2 = "jset J [Member ''models'', Item i] jm' je1"
  note e2 = element_set_entry [OF ms ch(2) [folded jm0]]
  have at1: "jat J ?e ?j1 = Some je1" using p(2) jat_jset_same by blast
  have get: "get_jmodel_obj J w r ele m d = Ret (Some (?j1, ?e @ [Member ''models'', Item i]))"
    using n load p(1) es je1 idx_array [OF es(2)] by (simp add: get_jmodel_obj_def is_loc_def Let_def)
  have "jat J (?e @ [Member ''models'', Item i]) ?j1 = Some jm"
    unfolding jat_append [of ?e] at1 using ms jm0 by simp
  moreover have "jset J (?e @ [Member ''models'', Item i]) jm' ?j1 = jset J ?e ?je2 ?j1"
    by (rule jset_append [OF at1])
  ultimately have upd: "db_model_update J w r ele m change d = db_save J (jset J ?e ?je2 ?j1) (is_loc r) d"
    using ch by (simp add: db_model_update_def get is_loc_def)
  note d1 = db_entry_set [OF p same1(1)] and n1 = db_node_set [OF p same1(1), of "primary n"]
  note d2 = db_entry_set [OF n1 [unfolded p(1)] at1 e2(3)]
  obtain d' where d': "db_save J (jset J ?e ?je2 ?j1) (is_loc r) d = Ret (d', True)"
    "db_load J (db_file (is_loc r) d') d' = Some (jset J ?e ?je2 ?j1)" using save_load f by blast
  have "db_entry J (is_loc r) addr' e' m' (jset J ?e ?je2 ?j1) = db_entry J (is_loc r) addr' e' m' jmain"
    if "\<not> is_loc r \<and> addr' \<noteq> primary n \<or> e' \<noteq> unat ele \<or> m' \<noteq> m" for addr' e' m'
  proof (cases "\<not> is_loc r \<and> addr' \<noteq> primary n \<or> e' \<noteq> unat ele")
    case True
    then show ?thesis using d1(2) d2(2) by metis
  next
    case False
    with that have m': "m' \<noteq> m" "e' = unat ele" and a: "is_loc r \<or> addr' = primary n" by auto
    from a have "db_entry J (is_loc r) addr' e' m' x = db_entry J (is_loc r) (primary n) e' m' x" for x
      by (auto simp: db_entry_def db_node_def)
    then show ?thesis using d2(1) e2(2) [OF m'(1)] same1(2) [OF m'(1)] p m'(2) by (simp add: db_entry_def)
  qed
  then show ?thesis using upd d' d2(1) e2(1) by (intro exI [of _ d'] exI [of _ "jset J ?e ?je2 ?j1"]) auto
qed

lemma add_to_list_entry:
  assumes "j_is_object J j" "list_is J j k vs"
  shows "\<exists>j'. add_to_list J k v j = Ret j' \<and> j_is_object J j' \<and> list_is J j' k (vs @ [v]) \<and>
    (\<forall>k'. k' \<noteq> k \<longrightarrow> j_get J (Some j') k' = j_get J (Some j) k')"
  using assms by (cases "j_get J (Some j) k") (auto simp: list_is_def add_to_list_def)

lemma list_is_cong: "j_get J (Some j') k = j_get J (Some j) k \<Longrightarrow> list_is J j' k vs = list_is J j k vs"
  by (simp add: list_is_def)

lemma entry_new: "entry_holds J (new_jmodel J m) no_cfg"
  by (simp add: entry_holds_def list_is_def no_cfg_def new_jmodel_members)

text \<open>The change that a call makes to the entry of its model.\<close>

lemma call_changes_entry:
  assumes "call_model c = Some (ele, m)" "entry_holds J j cfg"
  obtains change j' where "\<And>d. save_call J w r c d = db_model_update J w r ele m change d" "change j = Ret j'"
    "entry_holds J j' (cfg_call c cfg)" "j_get J (Some j') ''modelId'' = j_get J (Some j) ''modelId''"
proof (cases c)
  case (Db_binding e' m' a)
  with assms add_to_list_entry [of j "''bind''" _ "j_new_int J (uint a)"] obtain j' where
    "add_to_list J ''bind'' (j_new_int J (uint a)) j = Ret j'" "j_is_object J j'"
    "list_is J j' ''bind'' (map (\<lambda>b. j_new_int J (uint b)) (cfg_bind cfg @ [a]))"
    "\<forall>k'. k' \<noteq> ''bind'' \<longrightarrow> j_get J (Some j') k' = j_get J (Some j) k'"
    by (auto simp: entry_holds_def)
  with assms Db_binding show thesis
    by (intro that [of "add_to_list J ''bind'' (j_new_int J (uint a))" j'])
      (auto simp: save_call_def prov_db_add_binding_def entry_holds_def list_is_cong [of j' "''subscribe''" j])
next
  case (Db_subscription e' m' a)
  with assms add_to_list_entry [of j "''subscribe''" _ "j_new_string J (hex_pad 4 (unat a))"] obtain j' where
    "add_to_list J ''subscribe'' (j_new_string J (hex_pad 4 (unat a))) j = Ret j'" "j_is_object J j'"
    "list_is J j' ''subscribe'' (map (\<lambda>b. j_new_string J (hex_pad 4 (unat b))) (cfg_sub cfg @ [a]))"
    "\<forall>k'. k' \<noteq> ''subscribe'' \<longrightarrow> j_get J (Some j') k' = j_get J (Some j) k'"
    by (auto simp: entry_holds_def)
  with assms Db_subscription show thesis
    by (intro that [of "add_to_list J ''subscribe'' (j_new_string J (hex_pad 4 (unat a)))" j'])
      (auto simp: save_call_def prov_db_add_subscription_def entry_holds_def list_is_cong [of j' "''bind''" j])
next
  case (Db_model_pub e' m' q)
  let ?del = "j_del J j ''publish''"
  let ?j' = "case q of None \<Rightarrow> ?del | Some x \<Rightarrow> j_add J ?del ''publish'' (pub_json J x)"
  have obj: "j_is_object J j" using assms(2) by (simp add: entry_holds_def)
  then have "j_is_object J ?j'" "j_get J (Some ?j') k = (if k = ''publish'' then map_option (pub_json J) q else j_get J (Some j) k)" for k
    by (auto split: option.split)
  with assms Db_model_pub obj show thesis
    by (intro that [of "\<lambda>j. cguard (j_is_object J j) (Ret (case q of None \<Rightarrow> j_del J j ''publish''
          | Some x \<Rightarrow> j_add J (j_del J j ''publish'') ''publish'' (pub_json J x)))" ?j'])
      (auto simp: save_call_def prov_db_node_set_model_pub_def entry_holds_def list_is_def)
qed (use assms(1) in simp_all)

end

text \<open>An element whose entries name their models.\<close>

definition element_ok :: "'j json_c \<Rightarrow> 'j \<Rightarrow> bool" where
  "element_ok J je \<longleftrightarrow> j_is_object J je \<and>
     (\<forall>ms. j_get J (Some je) ''models'' = Some ms \<longrightarrow> j_is_array J ms \<and> ids_ok J (j_items J ms))"

text \<open>
  C23. What the configuration client and server save. When the file of the node can be read
  and written and has the node and its element, a new binding, a new subscription and a
  publication are saved: the written file reads as a document in which the
  model has the new configuration, and the entries of all other models, of other elements and
  of other nodes are the same.
\<close>

theorem configuration_saved:
  assumes "json_lib J" "call_model c = Some (ele, m)" "node_at w r = Some n" "is_loc = is_local w r"
    and "db_file is_loc d = Some f" "writable d f" "db_load J (db_file is_loc d) d = Some jmain"
    and "db_node J is_loc (primary n) jmain = Ret (Some p)" "jat J (element_path p (unat ele)) jmain = Some je" "element_ok J je"
    and "db_holds J is_loc (primary n) (unat ele) m jmain cfg"
  shows "\<exists>d' jmain'. save_call J w r c d = Ret (d', True) \<and> db_load J (db_file is_loc d') d' = Some jmain' \<and>
    db_holds J is_loc (primary n) (unat ele) m jmain' (cfg_call c cfg) \<and>
    (\<forall>addr' e' m'. \<not> is_loc \<and> addr' \<noteq> primary n \<or> e' \<noteq> unat ele \<or> m' \<noteq> m \<longrightarrow>
       db_entry J is_loc addr' e' m' jmain' = db_entry J is_loc addr' e' m' jmain)"
proof -
  let ?jm = "case element_entry J m je of None \<Rightarrow> new_jmodel J m | Some j \<Rightarrow> j"
  have "db_entry J is_loc (primary n) (unat ele) m jmain = element_entry J m je" using assms(8,9) by (simp add: db_entry_def)
  then have "entry_holds J ?jm cfg"
    using assms(11) json_lib.entry_new [OF assms(1)] by (auto simp: db_holds_def split: option.splits)
  then obtain change j' where c: "\<And>d. save_call J w r c d = db_model_update J w r ele m change d" "change ?jm = Ret j'"
    "entry_holds J j' (cfg_call c cfg)" "j_get J (Some j') ''modelId'' = j_get J (Some ?jm) ''modelId''"
    using json_lib.call_changes_entry [OF assms(1,2)] by blast
  have named: "models_named J je" "j_is_object J je" "\<And>ms. j_get J (Some je) ''models'' = Some ms \<Longrightarrow> j_is_array J ms"
    using assms(10) by (auto simp: element_ok_def models_named_def)
  from json_lib.model_update_saved [where change = change, OF assms(1,3) assms(5-9) [unfolded assms(4)] named(2,3,1) refl c(2,4)]
  obtain d' jmain' where "db_model_update J w r ele m change d = Ret (d', True)" "db_load J (db_file is_loc d') d' = Some jmain'"
    "db_entry J is_loc (primary n) (unat ele) m jmain' = Some j'"
    "\<forall>addr' e' m'. \<not> is_loc \<and> addr' \<noteq> primary n \<or> e' \<noteq> unat ele \<or> m' \<noteq> m \<longrightarrow>
       db_entry J is_loc addr' e' m' jmain' = db_entry J is_loc addr' e' m' jmain"
    unfolding assms(4) by blast
  then show ?thesis using c(3) by (intro exI [of _ d'] exI [of _ jmain']) (simp add: c(1) db_holds_def)
qed

section \<open>Reading the configuration of a model\<close>

definition saved_pub :: "mesh_publication \<Rightarrow> mesh_publication" where
  "saved_pub p = \<lparr>pub_app_idx = pub_app_idx p, pub_u = Addr16 (pub_addr16 p), pub_ttl = pub_ttl p,
     pub_credential = 0, pub_period = 0, pub_retransmit = 0\<rparr>"

context json_lib
begin

lemma int_new_nonneg: "0 \<le> n \<Longrightarrow> n < 2 ^ 31 \<Longrightarrow> j_get_int J (Some (j_new_int J n)) = n"
  by (rule int_new, rule order.trans [of _ 0]) simp_all

lemma int_u16 [simp]: "j_get_int J (Some (j_new_int J (uint a))) = uint a" for a :: u16
proof -
  have "0 \<le> uint a" "uint a < 2 ^ 16" using uint_lt2p [of a] by simp_all
  then show ?thesis by (intro int_new_nonneg) simp_all
qed

lemma int_u8 [simp]: "j_get_int J (Some (j_new_int J (uint a))) = uint a" for a :: u8
proof -
  have "0 \<le> uint a" "uint a < 2 ^ 8" using uint_lt2p [of a] by simp_all
  then show ?thesis by (intro int_new_nonneg) simp_all
qed

lemma bindings_read:
  assumes "get_model w (Some r) ele m = Some mdl" "op_bind (cbs mdl) = None" "distinct (bindings mdl @ bs)" "\<forall>b\<in>set bs. b \<le> 4095"
  shows "\<exists>w'. bindings_loop bnd J r (uint ele) m (map Some (map (\<lambda>b. j_new_int J (uint b)) bs)) w = (w', True) \<and>
    get_model w' (Some r) ele m = Some (mdl\<lparr>bindings := bindings mdl @ bs\<rparr>)"
  using assms
proof (induction bs arbitrary: w mdl)
  case (Cons b bs)
  let ?w1 = "upd_node r (upd_model ele m (\<lambda>m. m\<lparr>bindings := bindings m @ [b]\<rparr>)) w"
  let ?m1 = "mdl\<lparr>bindings := bindings mdl @ [b]\<rparr>"
  have "uint b \<le> 4095" using Cons.prems(4) by (simp add: word_le_def)
  then have "CHECK_KEY_IDX_RANGE (uint b)" by (simp add: CHECK_KEY_IDX_RANGE_def)
  moreover have "node_add_binding bnd (Some r) ele m b w = (?w1, True)"
    using Cons.prems(1-3) by (simp add: node_add_binding_def Let_def)
  moreover have "get_model ?w1 (Some r) ele m = Some ?m1" using get_model_upd [OF Cons.prems(1)] by simp
  from Cons.IH [OF this] Cons.prems(2-4) obtain w' where
    "bindings_loop bnd J r (uint ele) m (map Some (map (\<lambda>b. j_new_int J (uint b)) bs)) ?w1 = (w', True)"
    "get_model w' (Some r) ele m = Some (mdl\<lparr>bindings := bindings mdl @ b # bs\<rparr>)" by auto
  ultimately show ?case by (auto simp: Let_def)
qed simp

lemma subscriptions_read:
  assumes "get_model w (Some r) ele m = Some mdl" "distinct (subscriptions mdl @ ss)"
  shows "\<exists>w'. subscriptions_loop J r (uint ele) m (map Some (map (\<lambda>a. j_new_string J (hex_pad 4 (unat a))) ss)) w = Ret (w', True) \<and>
    get_model w' (Some r) ele m = Some (mdl\<lparr>subscriptions := subscriptions mdl @ ss\<rparr>)"
  using assms
proof (induction ss arbitrary: w mdl)
  case (Cons a ss)
  let ?w1 = "upd_node r (upd_model ele m (\<lambda>m. m\<lparr>subscriptions := subscriptions m @ [a]\<rparr>)) w"
  let ?m1 = "mdl\<lparr>subscriptions := subscriptions mdl @ [a]\<rparr>"
  have "node_add_subscription (Some r) ele m a w = (?w1, True)"
    using Cons.prems by (simp add: node_add_subscription_def Let_def)
  moreover have "get_model ?w1 (Some r) ele m = Some ?m1" using get_model_upd [OF Cons.prems(1)] by simp
  from Cons.IH [OF this] Cons.prems(2) obtain w' where
    "subscriptions_loop J r (uint ele) m (map Some (map (\<lambda>a. j_new_string J (hex_pad 4 (unat a))) ss)) ?w1 = Ret (w', True)"
    "get_model w' (Some r) ele m = Some (mdl\<lparr>subscriptions := subscriptions mdl @ a # ss\<rparr>)" by auto
  ultimately show ?case by (auto simp: Let_def c_string_def)
qed simp

lemma publication_read:
  assumes "get_model w (Some r) ele m = Some mdl" "op_pub (cbs mdl) = None"
  shows "\<exists>w'. parse_model_pub J r (uint ele) m (pub_json J p) w = Ret (w', True) \<and>
    get_model w' (Some r) ele m = Some (mdl\<lparr>pub := Some (saved_pub p)\<rparr>)"
  using get_model_upd [OF assms(1), of "\<lambda>m. m\<lparr>pub := Some (saved_pub p)\<rparr>"] assms
  by (simp add: parse_model_pub_def pub_json_def put_uint16_def c_string_def node_model_pub_set_def Let_def saved_pub_def)

lemma configuration_read:
  assumes "entry_holds J j c" "get_model w (Some r) ele m = Some mdl" "op_bind (cbs mdl) = None" "op_pub (cbs mdl) = None"
    and "bindings mdl = []" "subscriptions mdl = []" "pub mdl = None"
    and "distinct (cfg_bind c)" "\<forall>b\<in>set (cfg_bind c). b \<le> 4095" "distinct (cfg_sub c)"
  shows "\<exists>w'. parse_configuration_model bnd J r (uint ele) m (Some j) w = Ret (w', True) \<and>
    get_model w' (Some r) ele m = Some (mdl\<lparr>bindings := cfg_bind c, subscriptions := cfg_sub c, pub := map_option saved_pub (cfg_pub c)\<rparr>)"
proof -
  let ?m1 = "mdl\<lparr>bindings := cfg_bind c\<rparr>" and ?m2 = "mdl\<lparr>bindings := cfg_bind c, subscriptions := cfg_sub c\<rparr>"
  note e = assms(1) [unfolded entry_holds_def]
  obtain w1 where w1: "if_member (j_get J (Some j) ''bind'') (parse_bindings bnd J r (uint ele) m) w = Ret (w1, True)"
    "get_model w1 (Some r) ele m = Some ?m1"
    using bindings_read [OF assms(2,3), of "cfg_bind c" bnd] assms e
    by (auto simp: list_is_def if_member_def parse_bindings_def split: option.splits)
  obtain w2 where w2: "if_member (j_get J (Some j) ''subscribe'') (parse_subscriptions J r (uint ele) m) w1 = Ret (w2, True)"
    "get_model w2 (Some r) ele m = Some ?m2"
    using subscriptions_read [OF w1(2), of "cfg_sub c"] w1 assms e
    by (auto simp: list_is_def if_member_def parse_subscriptions_def split: option.splits)
  obtain w3 where "if_member (j_get J (Some j) ''publish'') (parse_model_pub J r (uint ele) m) w2 = Ret (w3, True)"
    "get_model w3 (Some r) ele m = Some (?m2\<lparr>pub := map_option saved_pub (cfg_pub c)\<rparr>)"
    using publication_read [OF w2(2)] w2 assms e by (cases "cfg_pub c") (auto simp: if_member_def)
  then show ?thesis using w1(1) w2(1) by (simp add: parse_configuration_model_def)
qed

end

section \<open>The entry of a node\<close>

text \<open>A world with one more node, which is the last of the list.\<close>

definition with_node :: "mesh_node \<Rightarrow> 'a world_scheme \<Rightarrow> 'a world_scheme" where
  "with_node x w = w\<lparr>nodes := nodes w @ [x], next_ref := next_ref w + 1\<rparr>"

lemma update_first_last:
  "(\<And>x. x \<in> set xs \<Longrightarrow> \<not> P x) \<Longrightarrow> P y \<Longrightarrow> update_first P f (xs @ [y]) = xs @ [f y]"
  by (induction xs) auto

lemma with_node_facts:
  assumes "nodes_wf w" "nref x = next_ref w"
  shows "node_at (with_node x w) (next_ref w) = Some x" "upd_node (next_ref w) f (with_node x w) = with_node (f x) w"
    "upd_net g (with_node x w) = with_node x (upd_net g w)" "net (with_node x w) = net w" "keys (with_node x w) = keys w"
    "local_node (with_node x w) = local_node w"
proof -
  have "nref n \<noteq> next_ref w" if "n \<in> set (nodes w)" for n using assms(1) that by (auto simp: nodes_wf_def)
  then show "node_at (with_node x w) (next_ref w) = Some x" "upd_node (next_ref w) f (with_node x w) = with_node (f x) w"
    using assms by (auto simp: with_node_def node_at_def upd_node_def find_append_single update_first_last find_None_iff
        split: option.split dest: find_SomeD)
qed (simp_all add: with_node_def upd_net_def)

lemma nodes_wf_upd_net [simp]: "nodes_wf (upd_net g w) = nodes_wf w" "next_ref (upd_net g w) = next_ref w"
  by (simp_all add: nodes_wf_def upd_net_def)

lemma hex_pad_small: "v < 10 \<Longrightarrow> hex_pad 4 v = ''000'' @ [hexdigit v]"
proof -
  assume v: "v < 10"
  have e: "(4::nat) = Suc (Suc (Suc (Suc 0)))" by simp
  show ?thesis unfolding e using v by (simp add: hexdigit_def [of 0])
qed

lemma small_index_text:
  fixes v :: u16
  assumes "unat v < 10"
  shows "hex_pad 4 (unat v) \<noteq> []" "digit_run 10 (hex_pad 4 (unat v)) = hex_pad 4 (unat v)" "digits_value 10 (hex_pad 4 (unat v)) = uint v"
  using hexdigit_props [of "unat v"] assms hexdigit_props [of 0]
  unfolding hex_pad_small [OF assms]
  by (auto simp: digit_run_def is_digit_def digits_value_def hexdigit_def [of 0] hexval_def)

context json_lib
begin

lemma put_list_items:
  "j_is_array J a \<Longrightarrow> j_is_array J (put_uint16_list J a l) \<and>
   j_items J (put_uint16_list J a l) = j_items J a @ map (\<lambda>v. Some (j_new_string J (hex_pad 4 (unat (ucast v :: u16))))) l"
  by (induction l arbitrary: a) (simp_all add: put_uint16_list_def put_uint16_array_entry_def)

lemma small_indexes_read:
  assumes "nodes_wf w" "nref x = next_ref w" "distinct (n_net_keys x @ ks)" "\<forall>k\<in>set ks. k < 10"
  shows "node_keys_loop J (next_ref w) False (map (\<lambda>v. Some (j_new_string J (hex_pad 4 (unat (v :: u16))))) ks) i (with_node x w) =
    (with_node (x\<lparr>n_net_keys := n_net_keys x @ ks\<rparr>) w, i + length ks)"
  using assms
proof (induction ks arbitrary: x i)
  case (Cons k ks)
  have k: "unat k < 10" using Cons.prems(4) by (simp add: word_less_nat_alt)
  note s = small_index_text [OF k]
  have "j_get_int J (Some (j_new_string J (hex_pad 4 (unat k)))) = uint k"
    using int_string [OF s(1) _ s(2)] s(3) by simp
  moreover have "CHECK_KEY_IDX_RANGE (uint k)" using Cons.prems(4) by (simp add: CHECK_KEY_IDX_RANGE_def word_less_def)
  moreover have "node_net_key_add (Some (next_ref w)) k (with_node x w) = (with_node (x\<lparr>n_net_keys := n_net_keys x @ [k]\<rparr>) w, True)"
    using Cons.prems with_node_facts [OF Cons.prems(1,2)] by (simp add: node_net_key_add_def)
  ultimately show ?case using Cons.IH [of "x\<lparr>n_net_keys := n_net_keys x @ [k]\<rparr>" "i + 1"] Cons.prems by (simp add: Let_def)
qed simp

lemma foldl_append_items:
  "j_is_array J a \<Longrightarrow> j_is_array J (foldl (\<lambda>a i. j_append J a (g i)) a is) \<and>
   j_items J (foldl (\<lambda>a i. j_append J a (g i)) a is) = j_items J a @ map (\<lambda>i. Some (g i)) is"
  by (induction "is" arbitrary: a) simp_all

text \<open>The members of the entry that \<open>prov_db_add_new_node\<close> writes.\<close>

lemma node_json_members:
  obtains c es ks where
    "j_get J (Some (node_json J n)) ''deviceKey'' = Some (j_new_string J (the (hex2str (sub_bytes (dev_key n) 0 16) 33)))"
    "j_get J (Some (node_json J n)) ''configuration'' = Some c"
    "\<And>k. k \<noteq> ''deviceKey'' \<Longrightarrow> k \<noteq> ''configuration'' \<Longrightarrow> j_get J (Some (node_json J n)) k = None"
    "j_get J (Some c) ''elements'' = Some es" "j_get J (Some c) ''netKeys'' = Some ks"
    "\<And>k. k \<noteq> ''elements'' \<Longrightarrow> k \<noteq> ''netKeys'' \<Longrightarrow> j_get J (Some c) k = None"
    "j_is_array J es" "j_items J es = map (\<lambda>i. Some (node_jelement J (primary n) i)) [0..<unat (num_ele n)]"
    "j_is_array J ks" "j_items J ks = map (\<lambda>v. Some (j_new_string J (hex_pad 4 (unat v)))) (n_net_keys n)"
proof -
  let ?es = "foldl (\<lambda>a i. j_append J a (node_jelement J (primary n) i)) (j_new_array J) [0..<unat (num_ele n)]"
  let ?ks = "put_uint16_list J (j_new_array J) (map ucast (n_net_keys n))"
  let ?c = "j_add J (add_node_idxs J (j_new_object J) ''netKeys'' (map ucast (n_net_keys n))) ''elements'' ?es"
  have u: "(ucast (ucast v :: u32) :: u16) = v" for v :: u16 by (rule bit_word_eqI) (auto simp: bit_simps)
  show thesis
    by (rule that [of ?c ?es ?ks])
      (simp_all add: node_json_def add_key_def add_node_idxs_def Let_def foldl_append_items put_list_items u)
qed

lemma other_elements_read:
  assumes "\<forall>i\<in>set is. 0 < i \<and> i < el_cnt" "el_cnt < 2 ^ 31"
  shows "configuration_elements bnd J r el_cnt is_loc (map (\<lambda>i. Some (node_jelement J a i)) is) w = Ret (w, True)"
  using assms(1)
proof (induction "is")
  case (Cons i "is")
  then have i: "0 < i" "i < el_cnt" by auto
  have "int el_cnt < 2 ^ 31" using assms(2) by simp
  with i have "j_get_int J (Some (j_new_int J (int i))) = int i" by (intro int_new_nonneg) simp_all
  with i Cons show ?case by (simp add: node_jelement_def put_uint16_def if_member_def Let_def)
qed simp

lemma new_node_elements_read:
  assumes wf: "nodes_wf w" "nref x = next_ref w"
    and es: "j_is_array J es" "j_items J es = map (\<lambda>i. Some (node_jelement J a i)) [0..<unat k]" "k \<noteq> 0"
    and pool: "net_reserve_address_range a k (address_pool (net w)) = (pool, True)"
  shows "parse_configuration_elements bnd J (next_ref w) es False (with_node x w) =
    Ret (with_node (x\<lparr>num_ele := k, primary := a\<rparr>) (upd_net (\<lambda>n. n\<lparr>address_pool := pool\<rparr>) w), True)"
proof -
  have len: "j_length J es = unat k" using es(2) length_items [of es] by simp
  have pos: "0 < unat k" "unat k < 2 ^ 31" using es(3) unat_u8_less [of k] by (simp_all add: unat_gt_0)
  have u: "uint k \<noteq> 0" using es(3) by (simp add: unsigned_eq_0_iff)
  from pos have ups: "[0..<unat k] = 0 # [1..<unat k]" by (simp add: upt_conv_Cons)
  let ?w = "with_node (x\<lparr>num_ele := k, primary := a\<rparr>) (upd_net (\<lambda>n. n\<lparr>address_pool := pool\<rparr>) w)"
  note f = with_node_facts [OF wf] and f1 = with_node_facts [OF wf(1), of "x\<lparr>num_ele := k\<rparr>"]
  have "j_get_int J (Some (j_new_int J 0)) = 0" by (rule int_new_nonneg) simp_all
  moreover have "parse_primary J (next_ref w) (unat k) False (Some (node_jelement J a 0)) (with_node (x\<lparr>num_ele := k\<rparr>) w) = Ret (?w, True)"
    using wf pool f1 with_node_facts [of "upd_net (\<lambda>n. n\<lparr>address_pool := pool\<rparr>) w" "x\<lparr>num_ele := k\<rparr>"]
    by (simp add: parse_primary_def node_jelement_def put_uint16_def c_string_def node_set_primary_def Let_def)
  ultimately have "configuration_elements bnd J (next_ref w) (unat k) False (j_items J es) (with_node (x\<lparr>num_ele := k\<rparr>) w) = Ret (?w, True)"
    using pos u other_elements_read [of "[1..<unat k]" "unat k" bnd "next_ref w" False a ?w] unfolding es(2) ups
    by (simp add: node_jelement_def put_uint16_def if_member_def Let_def)
  then show ?thesis using es(1) f by (simp add: parse_configuration_elements_def len node_set_num_elements_def)
qed

lemma new_node_read:
  assumes wf: "nodes_wf w" and n: "length (dev_key n) = 16" "num_ele n \<noteq> 0"
    and ks: "n_net_keys n \<noteq> []" "distinct (n_net_keys n)" "\<forall>k\<in>set (n_net_keys n). k < 10"
    and pool: "net_reserve_address_range (primary n) (num_ele n) (address_pool (net w)) = (pool, True)"
  shows "parse_node bnd J (node_json J n) False rnd w =
    Ret (with_node ((blank_node (next_ref w))\<lparr>dev_key := dev_key n, num_ele := num_ele n, primary := primary n, n_net_keys := n_net_keys n\<rparr>)
           (upd_net (\<lambda>m. m\<lparr>address_pool := pool\<rparr>) w), node_json J n, rnd, True)"
proof -
  obtain c es idx where m: "j_get J (Some (node_json J n)) ''deviceKey'' = Some (j_new_string J (the (hex2str (sub_bytes (dev_key n) 0 16) 33)))"
    "j_get J (Some (node_json J n)) ''configuration'' = Some c"
    "\<And>k. k \<noteq> ''deviceKey'' \<Longrightarrow> k \<noteq> ''configuration'' \<Longrightarrow> j_get J (Some (node_json J n)) k = None"
    "j_get J (Some c) ''elements'' = Some es" "j_get J (Some c) ''netKeys'' = Some idx"
    "\<And>k. k \<noteq> ''elements'' \<Longrightarrow> k \<noteq> ''netKeys'' \<Longrightarrow> j_get J (Some c) k = None"
    "j_is_array J es" "j_items J es = map (\<lambda>i. Some (node_jelement J (primary n) i)) [0..<unat (num_ele n)]"
    "j_is_array J idx" "j_items J idx = map (\<lambda>v. Some (j_new_string J (hex_pad 4 (unat v)))) (n_net_keys n)"
    by (rule node_json_members [of n]) blast
  let ?b = "(blank_node (next_ref w))\<lparr>dev_key := dev_key n\<rparr>"
  let ?w1 = "upd_net (\<lambda>m. m\<lparr>address_pool := pool\<rparr>) w"
  have b: "nref ?b = next_ref w" by (simp add: blank_node_def)
  have "sub_bytes (dev_key n) 0 16 = dev_key n" using n(1) by (simp add: sub_bytes_eq_take_drop)
  then have "case hex2str (dev_key n) 33 of Some s \<Rightarrow> str2hex s (length s) 16 = Some (dev_key n) | None \<Rightarrow> False"
    and sub: "sub_bytes (dev_key n) 0 16 = dev_key n"
    using hex_round_trip [of 33 "dev_key n"] n(1) by (auto split: option.splits)
  then obtain s where s: "hex2str (dev_key n) 33 = Some s" "str2hex s (length s) 16 = Some (dev_key n)"
    by (auto split: option.splits)
  have new: "node_new w = (with_node (blank_node (next_ref w)) w, next_ref w)"
    by (simp add: node_new_def add_node_def with_node_def)
  have set: "node_set_device_key (Some (next_ref w)) (dev_key n) (with_node (blank_node (next_ref w)) w) = with_node ?b w"
    using with_node_facts [OF wf, of "blank_node (next_ref w)"] by (simp add: node_set_device_key_def blank_node_def)
  have settings: "parse_node_settings J (next_ref w) (node_json J n) False (with_node ?b w) = with_node ?b w"
    using with_node_facts [OF wf b] m(3) by (simp add: parse_node_settings_def node_set_iv_index_def Let_def) (simp add: blank_node_def)
  note els = new_node_elements_read [OF wf b m(7,8) n(2) pool]
  let ?x = "?b\<lparr>num_ele := num_ele n, primary := primary n\<rparr>"
  have keys: "parse_node_key_lists J (next_ref w) c (with_node ?x ?w1) =
      Ret (with_node (?x\<lparr>n_net_keys := n_net_keys n\<rparr>) ?w1, True)"
    using small_indexes_read [of ?w1 ?x "n_net_keys n" 0] wf ks m(5,6,9,10) b
    by (simp add: parse_node_key_lists_def parse_node_keys_def blank_node_def)
  show ?thesis
    using m(1-4) s sub els keys
    by (simp add: parse_node_def c_string_def parse_node_with_key_def new set settings parse_node_configuration_def finish_node_def)
qed

end

text \<open>The file after \<open>prov_db_add_new_node\<close> has the entry of the node behind the others.\<close>

lemma new_node_saved:
  assumes "json_lib J" "node_at w r = Some n" "prov_filename d = Some f" "writable d f"
    and "db_load J (prov_filename d) d = Some jmain" "j_is_object J jmain" "\<And>a. j_get J (Some jmain) ''nodes'' = Some a \<Longrightarrow> j_is_array J a"
    and "primary n \<noteq> 0" "num_ele n \<noteq> 0"
  obtains d' jmain' a' where "prov_db_add_new_node J w r d = Ret (d', True)" "db_load J (prov_filename d') d' = Some jmain'"
    "j_get J (Some jmain') ''nodes'' = Some a'"
    "j_items J a' = (case j_get J (Some jmain) ''nodes'' of None \<Rightarrow> [] | Some a \<Rightarrow> j_items J a) @ [Some (node_json J n)]"
proof -
  let ?old = "case j_get J (Some jmain) ''nodes'' of None \<Rightarrow> j_new_array J | Some a \<Rightarrow> a"
  let ?a = "j_append J ?old (node_json J n)"
  note lib = assms(1)
  have old: "j_is_array J ?old" using assms(7) json_lib.new_array [OF lib] by (auto split: option.split)
  obtain d' where d': "db_save J (j_add J jmain ''nodes'' ?a) False d = Ret (d', True)"
    "db_load J (prov_filename d') d' = Some (j_add J jmain ''nodes'' ?a)"
    using json_lib.save_load [OF lib, of False d f] assms(3,4) by (auto simp: db_file_def)
  have "prov_db_add_new_node J w r d = Ret (d', True)"
    using assms(2,5-9) d'(1) by (auto simp: prov_db_add_new_node_def IS_UNASSIGNED_def split: option.split)
  moreover have "j_items J ?a = (case j_get J (Some jmain) ''nodes'' of None \<Rightarrow> [] | Some a \<Rightarrow> j_items J a) @ [Some (node_json J n)]"
    using json_lib.items_append [OF lib old] json_lib.items_new [OF lib] by (auto split: option.split)
  ultimately show thesis using that [OF _ d'(2)] json_lib.get_add [OF lib assms(6)] by simp
qed

text \<open>
  C24. A provisioned node is found again. \<open>prov_db_add_new_node\<close> writes a file whose list of
  nodes has one more entry, with the others unchanged; and reading that entry at the next
  start of the program gives a node with the device key, the address, the number of
  elements and the network keys of the node that was provisioned, whose addresses are taken
  from the pool. The indexes of the network keys have to be below 10.
\<close>

theorem new_node_reads_back:
  assumes "json_lib J" "node_at w r = Some n" "prov_filename d = Some f" "writable d f"
    and "db_load J (prov_filename d) d = Some jmain" "j_is_object J jmain" "\<And>a. j_get J (Some jmain) ''nodes'' = Some a \<Longrightarrow> j_is_array J a"
    and "primary n \<noteq> 0" "num_ele n \<noteq> 0" "length (dev_key n) = 16"
    and "n_net_keys n \<noteq> []" "distinct (n_net_keys n)" "\<forall>k\<in>set (n_net_keys n). k < 10"
    and "nodes_wf v" "net_reserve_address_range (primary n) (num_ele n) (address_pool (net v)) = (pool, True)"
  shows "\<exists>d' jmain' a' jnode. prov_db_add_new_node J w r d = Ret (d', True) \<and> db_load J (prov_filename d') d' = Some jmain' \<and>
    j_get J (Some jmain') ''nodes'' = Some a' \<and> 
    j_items J a' = (case j_get J (Some jmain) ''nodes'' of None \<Rightarrow> [] | Some a \<Rightarrow> j_items J a) @ [Some jnode] \<and>
    parse_node bnd J jnode False rnd v =
      Ret (with_node ((blank_node (next_ref v))\<lparr>dev_key := dev_key n, num_ele := num_ele n, primary := primary n, n_net_keys := n_net_keys n\<rparr>)
             (upd_net (\<lambda>m. m\<lparr>address_pool := pool\<rparr>) v), jnode, rnd, True)"
proof -
  from new_node_saved [OF assms(1-9)] obtain d' jmain' a' where saved: "prov_db_add_new_node J w r d = Ret (d', True)"
    "db_load J (prov_filename d') d' = Some jmain'" "j_get J (Some jmain') ''nodes'' = Some a'"
    "j_items J a' = (case j_get J (Some jmain) ''nodes'' of None \<Rightarrow> [] | Some a \<Rightarrow> j_items J a) @ [Some (node_json J n)]"
    by blast
  with json_lib.new_node_read [OF assms(1,14,10,9,11-13,15)] show ?thesis by blast
qed

text \<open>
  C40. The key indexes of a node are written as hexadecimal digits and read as a decimal number: an
  index whose digits are all decimal is read as another index unless it is below 10.
\<close>

theorem key_index_misread:
  fixes v :: u16
  assumes "json_lib J" "v \<le> 0xfff" "digit_run 10 (hex_pad 4 (unat v)) = hex_pad 4 (unat v)"
  shows "\<exists>k. parse_node_keys J r (put_uint16_list J (j_new_array J) [ucast v]) False w =
      Ret (fst (node_net_key_add (Some r) k w), 1) \<and>
    unat k = 100 * (unat v div 256) + 10 * (unat v div 16 mod 16) + unat v mod 16 \<and> (k = v \<longleftrightarrow> v < 10)"
proof -
  let ?s = "hex_pad 4 (unat v)" and ?dec = "100 * (unat v div 256) + 10 * (unat v div 16 mod 16) + unat v mod 16"
  have v: "unat v \<le> 4095" using assms(2) by (simp add: word_le_nat_alt)
  have e: "(4::nat) = Suc (Suc (Suc (Suc 0)))" by simp
  have digit: "hexval (hexdigit n) = Some n" if "n < 16" for n using hexdigit_props that by blast
  have "?s = [hexdigit (unat v div 16 div 16 div 16 mod 16), hexdigit (unat v div 16 div 16 mod 16),
      hexdigit (unat v div 16 mod 16), hexdigit (unat v mod 16)]" unfolding e by simp
  moreover have "unat v div 16 div 16 div 16 = 0" "unat v div 16 div 16 mod 16 = unat v div 256"
    using v by (simp_all flip: div_mult2_eq)
  ultimately have s: "?s = [hexdigit 0, hexdigit (unat v div 256), hexdigit (unat v div 16 mod 16), hexdigit (unat v mod 16)]"
    by simp
  have small: "unat v div 256 < 10" "unat v div 16 mod 16 < 10" "unat v mod 16 < 10"
    using assms(3) v unfolding s by (auto simp: digit_run_def is_digit_def digit split: if_splits)
  have "digits_value 10 ?s = int ?dec" unfolding s using v by (simp add: digits_value_def digit)
  then have read: "j_get_int J (Some (j_new_string J ?s)) = int ?dec"
    using json_lib.int_string [OF assms(1) _ _ assms(3)] s by simp
  have mult_16_16: "(16::nat) * 16 = 256" by simp
  define k where "k = ?dec"
  have k: "k < 1000" unfolding k_def using small by linarith
  then have uk: "unat (of_nat k :: u16) = k" by (intro unat_of_nat_u16) simp
  have "unat v = 256 * (unat v div 256) + 16 * (unat v div 16 mod 16) + unat v mod 16"
    using div_mult2_eq [of "unat v" 16 16, unfolded mult_16_16] mult_div_mod_eq [of 16 "unat v div 16"] mult_div_mod_eq [of 16 "unat v"] by linarith
  moreover have "(100 * a + 10 * b + c = x) = (x < 10)" if "x = 256 * a + 16 * b + c" "c < 10" for a b c x :: nat
    using that by (cases a; cases b) auto
  ultimately have "k = unat v \<longleftrightarrow> unat v < 10" unfolding k_def using small by blast
  with uk have "(of_nat k :: u16) = v \<longleftrightarrow> v < 10" by (simp add: word_unat_eq_iff word_less_nat_alt)
  moreover have u: "(ucast (ucast v :: u32) :: u16) = v" by (rule bit_word_eqI) (auto simp: bit_simps)
  have "parse_node_keys J r (put_uint16_list J (j_new_array J) [ucast v]) False w = Ret (fst (node_net_key_add (Some r) (of_nat k) w), 1)"
    using json_lib.put_list_items [OF assms(1) json_lib.new_array [OF assms(1)], of "[ucast v]"] json_lib.items_new [OF assms(1)]
      read [folded k_def] k
    by (simp add: parse_node_keys_def u CHECK_KEY_IDX_RANGE_def Let_def)
  ultimately show ?thesis using uk [unfolded k_def] unfolding k_def by blast
qed

section \<open>Counters\<close>

context json_lib
begin

text \<open>A 32-bit counter is stored as a signed number and comes back.\<close>

lemma int_u32 [simp]: "j_get_int J (Some (j_new_int J (sint a))) = sint a" for a :: u32
  using sint_ge [of a] sint_lt [of a] by (intro int_new) simp_all

lemma replace_member_get:
  assumes "j_is_object J j"
  shows "\<exists>j'. replace_member J k v j = Ret j' \<and> j_is_object J j' \<and>
    (\<forall>k'. j_get J (Some j') k' = (if k' = k then Some v else j_get J (Some j) k'))"
  using assms by (simp add: replace_member_def)

lemma set_local_iv_index_get:
  assumes "j_is_object J j"
  shows "\<exists>j'. set_local_iv_index J j iv upd = Ret j' \<and> j_is_object J j' \<and>
    j_get J (Some j') ''IVindex'' = Some (j_new_int J (sint iv)) \<and>
    j_get J (Some j') ''IVupdate'' = Some (j_new_int J (if upd then 1 else 0))"
  using assms by (simp add: set_local_iv_index_def replace_member_def)

lemma iv_update_flag: "j_get_int J (Some (j_new_int J (if upd then 1 else 0))) \<noteq> 0 \<longleftrightarrow> upd"
  by (cases upd) (simp_all add: int_new_nonneg)

end

lemma net_set_sequence [simp]:
  "iv_index (net (fst (node_set_sequence_number r s w))) = iv_index (net w)"
  "iv_update (net (fst (node_set_sequence_number r s w))) = iv_update (net w)"
  by (auto simp: node_set_sequence_number_def net_set_seq_num_def upd_node_def Let_def split: option.split)

text \<open>
  The IV index is saved in both files. When the files are there and may be written, the call of
  the provisioner stores the index and the state of the update so that the next start
  reads both values, for every 32-bit index; the call with \<^verbatim>\<open>prov\<close> false frees the text and the document
  of the local file twice.
\<close>

lemma iv_index_saved:
  assumes "json_lib J" "local_filename d = Some lf" "prov_filename d = Some pf" "lf \<noteq> pf" "writable d lf" "writable d pf"
    and "db_load J (Some lf) d = Some jl" "j_get J (Some jl) ''node'' = Some jn" "j_is_object J jn"
    and "db_load J (Some pf) d = Some jp" "j_is_object J jp"
  shows "prov_db_local_set_iv_index J iv upd False d = Fault \<and>
    (\<exists>d' jl' jn' jp'. prov_db_local_set_iv_index J iv upd True d = Ret (d', True) \<and>
      db_load J (Some lf) d' = Some jl' \<and> j_get J (Some jl') ''node'' = Some jn' \<and> db_load J (Some pf) d' = Some jp' \<and>
      iv_index (net (parse_node_settings J r jn' True w)) = iv \<and> iv_update (net (parse_node_settings J r jn' True w)) = upd \<and>
      (\<forall>rd. rd_main rd = jp' \<longrightarrow> read_iv_index J rd w = Ret (net_set_iv_index iv upd w, rd, True)))"
proof -
  note lib = assms(1)
  obtain jn' where jn': "set_local_iv_index J jn iv upd = Ret jn'" "j_is_object J jn'"
    "j_get J (Some jn') ''IVindex'' = Some (j_new_int J (sint iv))" "j_get J (Some jn') ''IVupdate'' = Some (j_new_int J (if upd then 1 else 0))"
    using json_lib.set_local_iv_index_get [OF lib assms(9)] by blast
  obtain jp' where jp': "set_local_iv_index J jp iv upd = Ret jp'"
    "j_get J (Some jp') ''IVindex'' = Some (j_new_int J (sint iv))" "j_get J (Some jp') ''IVupdate'' = Some (j_new_int J (if upd then 1 else 0))"
    using json_lib.set_local_iv_index_get [OF lib assms(11)] by blast
  let ?jl' = "j_add J jl ''node'' jn'"
  let ?d1 = "d\<lparr>files := (files d)(lf \<mapsto> j_text J ?jl')\<rparr>"
  let ?d2 = "?d1\<lparr>files := (files ?d1)(pf \<mapsto> j_text J jp')\<rparr>"
  have w1: "prov_file_write J (jset J [Member ''node''] jn' jl) True d = Ret ?d1"
    using assms(2,5,8) by (simp add: prov_file_write_def)
  have load1: "db_load J (Some pf) ?d1 = Some jp" using assms(4,10) by (simp add: db_load_def prov_file_read_def)
  have "db_save J jp' False ?d1 = Ret (?d2, True)" using assms(3,6) by (simp add: db_save_def prov_file_write_def)
  then have run: "prov_db_local_set_iv_index J iv upd True d = Ret (?d2, True)"
    using assms(2,3,7,8) jn'(1) jp'(1) w1 load1 by (simp add: prov_db_local_set_iv_index_def)
  have fault: "prov_db_local_set_iv_index J iv upd False d = Fault"
    using assms(2,7,8) jn'(1) w1 by (simp add: prov_db_local_set_iv_index_def)
  have loads: "db_load J (Some lf) ?d2 = Some ?jl'" "db_load J (Some pf) ?d2 = Some jp'"
    using assms(4) json_lib.parse_text [OF lib] by (simp_all add: db_load_def prov_file_read_def)
  have "j_get J (Some ?jl') ''node'' = Some jn'" using json_lib.get_add [OF lib json_lib.get_object [OF lib assms(8)]] by simp
  moreover have "iv_index (net (parse_node_settings J r jn' True w)) = iv \<and> iv_update (net (parse_node_settings J r jn' True w)) = upd"
    using jn'(3,4) json_lib.int_u32 [OF lib, of iv] json_lib.iv_update_flag [OF lib, of upd]
    by (auto simp: parse_node_settings_def net_set_iv_index_def upd_net_def Let_def split: option.split)
  moreover have "read_iv_index J rd w = Ret (net_set_iv_index iv upd w, rd, True)" if "rd_main rd = jp'" for rd
    using jp'(2,3) json_lib.int_u32 [OF lib, of iv] json_lib.iv_update_flag [OF lib, of upd] that by (simp add: read_iv_index_def)
  ultimately show ?thesis using run fault loads by blast
qed

text \<open>
  C26. A model finds its configuration again. From the entry that stands for a configuration - what
  the calls above leave in the file - the next start of the program gives a new
  model the same bindings and subscriptions, and the publication with its address, key and time to
  live; the period, the retransmission and the credential of the publication are not kept.
\<close>

theorem configuration_reads_back:
  assumes "json_lib J" "db_holds J is_loc addr e m jmain c" "c \<noteq> no_cfg"
    and "get_model w (Some r) ele m = Some mdl" "op_bind (cbs mdl) = None" "op_pub (cbs mdl) = None"
    and "bindings mdl = []" "subscriptions mdl = []" "pub mdl = None"
    and "distinct (cfg_bind c)" "\<forall>b\<in>set (cfg_bind c). b \<le> 4095" "distinct (cfg_sub c)"
  shows "\<exists>j w'. db_entry J is_loc addr e m jmain = Some j \<and>
    parse_configuration_model bnd J r (uint ele) m (Some j) w = Ret (w', True) \<and>
    get_model w' (Some r) ele m = Some (mdl\<lparr>bindings := cfg_bind c, subscriptions := cfg_sub c, pub := map_option saved_pub (cfg_pub c)\<rparr>)"
  using assms(2,3) json_lib.configuration_read [OF assms(1) _ assms(4-12), of _ bnd] by (auto simp: db_holds_def split: option.splits)

section \<open>A concrete database\<close>

text \<open>A file with a node at address 5, of two elements, whose second element has a model.\<close>

definition demo_jelement :: json where
  "demo_jelement = JObj [(''elementIndex'', Some (JInt 1)), (''unicastAddress'', Some (JStr ''0006'')),
     (''models'', Some (JArr [Some (JObj [(''modelId'', Some (JStr ''1000'')), (''bind'', Some (JArr [Some (JInt 7)]))])]))]"

definition demo_jnode :: json where
  "demo_jnode = JObj [(''deviceKey'', Some (JStr (replicate 32 (CHR ''0'')))), (''configuration'', Some (JObj
     [(''netKeys'', Some (JArr [Some (JStr ''0000'')])),
      (''elements'', Some (JArr [Some (JObj [(''elementIndex'', Some (JInt 0)), (''unicastAddress'', Some (JStr ''0005''))]), Some demo_jelement]))]))]"

definition demo_prov :: json where
  "demo_prov = JObj [(''IVindex'', Some (JInt 0)), (''IVupdate'', Some (JInt 0)), (''nodes'', Some (JArr [Some demo_jnode]))]"

definition demo_loc :: json where
  "demo_loc = JObj [(''node'', Some demo_jnode)]"

definition demo_db :: db where
  "demo_db = \<lparr>prov_filename = Some ''prov'', local_filename = Some ''local'',
     files = [''prov'' \<mapsto> json_text demo_prov, ''local'' \<mapsto> json_text demo_loc], writable = (\<lambda>_. True), urandom = []\<rparr>"

definition demo_bnd :: "model_cb \<Rightarrow> u16 \<Rightarrow> nat \<Rightarrow> cworld \<Rightarrow> cworld \<times> int" where
  "demo_bnd cb a i w = (w, 0)"

lemma demo_db_facts:
  "prov_filename demo_db = Some ''prov''" "local_filename demo_db = Some ''local''" "writable demo_db f"
  "db_load json_impl (Some ''prov'') demo_db = Some demo_prov" "db_load json_impl (Some ''local'') demo_db = Some demo_loc"
  by (simp_all add: demo_db_def db_load_def prov_file_read_def json_impl_def json_parse_text)

lemma demo_doc_facts:
  "j_is_object json_impl demo_prov" "j_is_object json_impl demo_jnode" "j_get json_impl (Some demo_loc) ''node'' = Some demo_jnode"
  "j_get json_impl (Some demo_prov) ''nodes'' = Some (JArr [Some demo_jnode])"
  "jat json_impl [Member ''nodes'', Item 0] demo_prov = Some demo_jnode"
  "find_node_by_primary json_impl demo_prov 5 = Ret (Some [Member ''nodes'', Item 0])"
  "jat json_impl (element_path [Member ''nodes'', Item 0] 1) demo_prov = Some demo_jelement"
  "element_entry json_impl 0xffff1000 demo_jelement = Some (JObj [(''modelId'', Some (JStr ''1000'')), (''bind'', Some (JArr [Some (JInt 7)]))])"
  by code_simp+

lemma demo_jmodel_facts:
  "j_get json_impl (Some demo_jelement) ''models'' = Some (JArr [Some (JObj [(''modelId'', Some (JStr ''1000'')), (''bind'', Some (JArr [Some (JInt 7)]))])])"
  "entry_id json_impl (Some (JObj [(''modelId'', Some (JStr ''1000'')), (''bind'', Some (JArr [Some (JInt 7)]))])) = Ret ''1000''"
  "text_model_id ''1000'' = Some 0xffff1000" "j_is_object json_impl demo_jelement" "j_is_array json_impl (JArr vs)" "j_items json_impl (JArr [v]) = [v]"
  by (code_simp, code_simp, code_simp, code_simp, simp_all add: json_impl_def j_items_def json_items_def)

lemma demo_element_ok: "element_ok json_impl demo_jelement"
  by (simp add: element_ok_def ids_ok_def demo_jmodel_facts)

lemma demo_entry: "db_entry json_impl False 5 1 0xffff1000 demo_prov = Some (JObj [(''modelId'', Some (JStr ''1000'')), (''bind'', Some (JArr [Some (JInt 7)]))])"
  by code_simp

lemma demo_holds: "db_holds json_impl False 5 1 0xffff1000 demo_prov \<lparr>cfg_bind = [7], cfg_sub = [], cfg_pub = None\<rparr>"
proof -
  have "entry_holds json_impl (JObj [(''modelId'', Some (JStr ''1000'')), (''bind'', Some (JArr [Some (JInt 7)]))])
    \<lparr>cfg_bind = [7], cfg_sub = [], cfg_pub = None\<rparr>" by code_simp
  then show ?thesis unfolding db_holds_def demo_entry by simp
qed

theorem configuration_saved_witness:
  "\<exists>d' jmain'. save_call json_impl demo_config 2 (Db_binding 1 0xffff1000 3) demo_db = Ret (d', True) \<and>
     db_load json_impl (db_file False d') d' = Some jmain' \<and>
     db_holds json_impl False 5 1 0xffff1000 jmain' \<lparr>cfg_bind = [7, 3], cfg_sub = [], cfg_pub = None\<rparr>"
proof -
  have loc: "False = is_local demo_config 2" by (simp add: is_local_def demo_config_facts)
  have ele: "unat (1 :: u8) = 1" by simp
  have dbf: "db_file False demo_db = Some ''prov''" by (simp add: db_file_def demo_db_facts)
  have node: "db_node json_impl False (primary demo_remote) demo_prov = Ret (Some [Member ''nodes'', Item 0])"
    unfolding demo_config_facts db_node_def using demo_doc_facts(6) by simp
  show ?thesis
    using configuration_saved [OF json_values.json_lib_axioms, of "Db_binding 1 0xffff1000 3" 1 "0xffff1000" demo_config 2 demo_remote False demo_db "''prov''" demo_prov
        "[Member ''nodes'', Item 0]" demo_jelement, OF _ demo_config_facts(3) loc dbf demo_db_facts(3) _ node _ demo_element_ok, unfolded dbf ele demo_config_facts,
        OF _ demo_db_facts(4) demo_doc_facts(7) demo_holds]
    by auto
qed

text \<open>The program after the next start: the node has the model again, still without bindings.\<close>

definition demo_restart :: cworld where
  "demo_restart = with_node ((blank_node 3)\<lparr>elements := [\<lparr>models = [blank_model 0xffff1000], loc = 0, ele_index = 1\<rparr>]\<rparr>) demo_config"

lemma demo_next_ref: "next_ref demo_config = 3"
  by (simp add: demo_config_def demo_cworld_def)

theorem configuration_reads_back_witness:
  "\<exists>j w'. db_entry json_impl False 5 1 0xffff1000 demo_prov = Some j \<and>
     parse_configuration_model demo_bnd json_impl 3 (uint (1 :: u8)) 0xffff1000 (Some j) demo_restart = Ret (w', True) \<and>
     get_model w' (Some 3) 1 0xffff1000 = Some ((blank_model 0xffff1000)\<lparr>bindings := [7]\<rparr>)"
proof -
  have "get_model demo_restart (Some 3) 1 0xffff1000 = Some (blank_model 0xffff1000)"
    using with_node_facts(1) [OF demo_config_facts(11), of "(blank_node 3)\<lparr>elements := [\<lparr>models = [blank_model 0xffff1000], loc = 0, ele_index = 1\<rparr>]\<rparr>"]
    by (simp add: demo_restart_def get_model_def demo_next_ref find_element_def find_model_def) (simp add: blank_node_def blank_model_def)
  from configuration_reads_back [OF json_values.json_lib_axioms demo_holds _ this, of demo_bnd] show ?thesis
    by (fastforce simp: no_cfg_def blank_model_def)
qed

text \<open>A node to be added, and the program that reads the file again, which has addresses to give.\<close>

definition demo_new :: mesh_node where
  "demo_new = (blank_node 2)\<lparr>primary := 0x150, num_ele := 2, n_net_keys := [0]\<rparr>"

definition demo_adding :: cworld where
  "demo_adding = demo_config\<lparr>nodes := [demo_local, demo_new]\<rparr>"

definition demo_reading :: cworld where
  "demo_reading = demo_config\<lparr>net := (net demo_config)\<lparr>address_pool := [mk_range 0x100 0x1ff]\<rparr>\<rparr>"

theorem new_node_reads_back_witness:
  "\<exists>d' jmain' a' jnode w'. prov_db_add_new_node json_impl demo_adding 2 demo_db = Ret (d', True) \<and>
     db_load json_impl (prov_filename d') d' = Some jmain' \<and> j_get json_impl (Some jmain') ''nodes'' = Some a' \<and>
     j_items json_impl a' = [Some demo_jnode, Some jnode] \<and>
     parse_node demo_bnd json_impl jnode False [] demo_reading = Ret (w', jnode, [], True) \<and>
     map primary (nodes w') = [1, 5, 0x150] \<and> address_pool (net w') = [mk_range 0x152 0x1ff, mk_range 0x100 0x14f]"
proof -
  have n: "node_at demo_adding 2 = Some demo_new"
    by (simp add: demo_adding_def node_at_def demo_local_def demo_new_def blank_node_def)
  have load: "db_load json_impl (prov_filename demo_db) demo_db = Some demo_prov" by (simp add: demo_db_facts)
  have pool: "net_reserve_address_range 0x150 2 [mk_range 0x100 0x1ff] = ([mk_range 0x152 0x1ff, mk_range 0x100 0x14f], True)"
    by code_simp
  have wf: "nodes_wf demo_reading" using demo_config_facts(11) by (simp add: demo_reading_def nodes_wf_def)
  have nodes: "map primary (nodes demo_reading) = [1, 5]"
    by (simp add: demo_reading_def demo_config_def demo_local_def demo_remote_def)
  show ?thesis
    using new_node_reads_back [OF json_values.json_lib_axioms n demo_db_facts(1,3) load demo_doc_facts(1) _ _ _ _ _ _ _ wf, of "[mk_range 0x152 0x1ff, mk_range 0x100 0x14f]" demo_bnd "[]"]
      pool nodes demo_doc_facts(4) demo_jmodel_facts(5,6)
    by (fastforce simp: demo_new_def blank_node_def demo_reading_def with_node_def upd_net_def)
qed

theorem key_index_misread_witness:
  "\<exists>k. parse_node_keys json_impl 2 (put_uint16_list json_impl (j_new_array json_impl) [ucast (0x10 :: u16)]) False demo_config =
      Ret (fst (node_net_key_add (Some 2) k demo_config), 1) \<and> unat k = 10"
proof -
  have "digit_run 10 (hex_pad 4 (unat (0x10 :: u16))) = hex_pad 4 (unat (0x10 :: u16))" by code_simp
  from key_index_misread [OF json_values.json_lib_axioms _ this, of 2 demo_config] show ?thesis by auto
qed

lemma iv_index_saved_witness:
  "prov_db_local_set_iv_index json_impl 0xfffffffe True False demo_db = Fault \<and>
   (\<exists>d' jl' jn'. prov_db_local_set_iv_index json_impl 0xfffffffe True True demo_db = Ret (d', True) \<and>
      db_load json_impl (Some ''local'') d' = Some jl' \<and> j_get json_impl (Some jl') ''node'' = Some jn' \<and>
      iv_index (net (parse_node_settings json_impl 1 jn' True demo_config)) = 0xfffffffe)"
  using iv_index_saved [OF json_values.json_lib_axioms demo_db_facts(2,1) _ demo_db_facts(3,3,5) demo_doc_facts(3,2) demo_db_facts(4) demo_doc_facts(1),
      of "0xfffffffe" True 1 demo_config] by auto

end
