(* ===== verification/Mesh_DbRead.thy ===== *)
theory Mesh_DbRead
  imports Mesh_DbProps
begin

text \<open>
  Reading the files: what an entry of a node may change, what a node's counters and
  composition become when they are written and read again.
\<close>

section \<open>A node that is being read\<close>

text \<open>
  While an entry is read, the world is the one from before, with the network layer's
  record changed, and one more node without callbacks at the end of the list.
\<close>

definition no_cbs :: "mesh_node \<Rightarrow> bool" where
  "no_cbs x \<longleftrightarrow> (\<forall>e\<in>set (elements x). \<forall>m\<in>set (models e). op_bind (cbs m) = None \<and> op_pub (cbs m) = None)"

definition building :: "'a world_scheme \<Rightarrow> 'a world_scheme \<Rightarrow> bool" where
  "building v w \<longleftrightarrow> (\<exists>x N. w = with_node x (v\<lparr>net := N\<rparr>) \<and> nref x = next_ref v \<and> no_cbs x)"

lemma building_upd:
  assumes "nodes_wf v" "building v w" "\<And>x. nref (f x) = nref x" "\<And>x. no_cbs x \<Longrightarrow> no_cbs (f x)"
  shows "building v (upd_node (next_ref v) f w)"
proof -
  from assms(2) obtain x N where w: "w = with_node x (v\<lparr>net := N\<rparr>)" "nref x = next_ref v" "no_cbs x"
    by (auto simp: building_def)
  have wf: "nodes_wf (v\<lparr>net := N\<rparr>)" using assms(1) by (simp add: nodes_wf_def)
  from w have x: "nref x = next_ref (v\<lparr>net := N\<rparr>)" by simp
  have "upd_node (next_ref v) f w = with_node (f x) (v\<lparr>net := N\<rparr>)"
    using with_node_facts(2) [OF wf x, of f] w(1) by simp
  moreover have "nref (f x) = next_ref v" "no_cbs (f x)" using assms(3,4) w by auto
  ultimately show ?thesis unfolding building_def by blast
qed

lemma building_net: "building v w \<Longrightarrow> building v (w\<lparr>net := N\<rparr>)"
proof -
  assume "building v w"
  then obtain x M where w: "w = with_node x (v\<lparr>net := M\<rparr>)" "nref x = next_ref v" "no_cbs x" by (auto simp: building_def)
  have "w\<lparr>net := N\<rparr> = with_node x (v\<lparr>net := N\<rparr>)" unfolding w(1) by (simp add: with_node_def)
  with w show ?thesis unfolding building_def by blast
qed

lemma building_upd_net: "building v w \<Longrightarrow> building v (upd_net g w)"
  by (simp add: upd_net_def building_net)

lemma building_node:
  assumes "nodes_wf v" "building v w"
  obtains x where "node_at w (next_ref v) = Some x" "nref x = next_ref v" "no_cbs x"
proof -
  from assms(2) obtain x N where w: "w = with_node x (v\<lparr>net := N\<rparr>)" "nref x = next_ref v" "no_cbs x"
    by (auto simp: building_def)
  have wf: "nodes_wf (v\<lparr>net := N\<rparr>)" using assms(1) by (simp add: nodes_wf_def)
  from with_node_facts(1) [OF wf, of x] w show thesis by (intro that [of x]) simp_all
qed

named_theorems keeps_building

lemma no_cbs_elements: "no_cbs x \<Longrightarrow> elements y = elements x \<Longrightarrow> no_cbs y"
  by (simp add: no_cbs_def)

lemma building_field:
  assumes "nodes_wf v" "building v w" "\<And>x. nref (f x) = nref x" "\<And>x. elements (f x) = elements x"
  shows "building v (upd_node (next_ref v) f w)"
  using assms by (intro building_upd) (auto intro: no_cbs_elements)

lemma update_first_set: "y \<in> set (update_first P f xs) \<Longrightarrow> y \<in> set xs \<or> (\<exists>x\<in>set xs. P x \<and> y = f x)"
  by (induction xs) (auto split: if_splits)

lemma no_cbs_upd_model: "no_cbs x \<Longrightarrow> (\<And>m. cbs (f m) = cbs m) \<Longrightarrow> no_cbs (upd_model ele i f x)"
  by (fastforce simp: no_cbs_def upd_model_def dest!: update_first_set)

lemma nref_upd_model: "nref (upd_model ele i f x) = nref x"
  by (simp add: upd_model_def)

lemma building_model:
  assumes "nodes_wf v" "building v w" "\<And>m. cbs (f m) = cbs m"
  shows "building v (upd_node (next_ref v) (upd_model ele i f) w)"
  using assms by (intro building_upd) (auto simp: no_cbs_upd_model nref_upd_model)

lemma fresh_model_cbs:
  assumes "nodes_wf v" "building v w" "get_model w (Some (next_ref v)) ele i = Some m"
  shows "op_bind (cbs m) = None" "op_pub (cbs m) = None"
proof -
  obtain x where "node_at w (next_ref v) = Some x" "no_cbs x" using building_node [OF assms(1,2)] .
  with assms(3) show "op_bind (cbs m) = None" "op_pub (cbs m) = None"
    by (auto simp: get_model_def find_element_def find_model_def no_cbs_def bind_eq_Some_conv dest!: find_SomeD)
qed

lemma building_new: "building v (with_node (blank_node (next_ref v)) v)"
  unfolding building_def by (intro exI [of _ "blank_node (next_ref v)"] exI [of _ "net v"]) (simp add: blank_node_def no_cbs_def)

text \<open>The operations on the node keep this form.\<close>

lemma node_ops_building [keeps_building]:
  assumes v: "nodes_wf v" "building v w"
  shows "building v (fst (node_set_iv_index (Some (next_ref v)) iv w))"
    "building v (fst (node_set_sequence_number (Some (next_ref v)) s w))"
    "building v (fst (node_set_default_ttl (Some (next_ref v)) ttl w))"
    "building v (fst (node_net_key_add (Some (next_ref v)) k w))"
    "building v (fst (node_app_key_add (Some (next_ref v)) k w))"
    "building v (node_set_num_elements (next_ref v) n w)"
    "building v (node_set_primary (next_ref v) a w)"
    "building v (node_set_device_key (Some (next_ref v)) dk w)"
    "building v (fst (node_set_composition (Some (next_ref v)) c w))"
    "building v (fst (node_set_element (Some (next_ref v)) ele w))"
    "building v (fst (node_set_model (Some (next_ref v)) ele i w))"
    "building v (fst (node_add_binding bnd (Some (next_ref v)) ele i a w))"
    "building v (fst (node_add_subscription (Some (next_ref v)) ele i a w))"
    "building v (fst (node_model_pub_set (Some (next_ref v)) ele i p w))"
proof -
  note field = building_field [OF v] and model = building_model [OF v]
  obtain x where x: "node_at w (next_ref v) = Some x" "nref x = next_ref v" "no_cbs x" using building_node [OF v] .
  have seq: "building v (fst (net_set_seq_num s u))" if "building v u" for u
    using that by (simp add: net_set_seq_num_def building_net)
  have dttl: "building v (fst (net_set_default_ttl ttl u))" if "building v u" for u
    using that by (simp add: net_set_default_ttl_def building_net)
  show "building v (fst (node_set_iv_index (Some (next_ref v)) iv w))"
    "building v (node_set_num_elements (next_ref v) n w)" "building v (node_set_primary (next_ref v) a w)"
    "building v (node_set_device_key (Some (next_ref v)) dk w)"
    by (simp_all add: node_set_iv_index_def node_set_num_elements_def node_set_primary_def node_set_device_key_def field)
  show "building v (fst (node_set_sequence_number (Some (next_ref v)) s w))"
    by (simp add: node_set_sequence_number_def Let_def field seq)
  show "building v (fst (node_set_default_ttl (Some (next_ref v)) ttl w))"
    by (simp add: node_set_default_ttl_def Let_def field dttl)
  show "building v (fst (node_net_key_add (Some (next_ref v)) k w))" "building v (fst (node_app_key_add (Some (next_ref v)) k w))"
    using x v by (simp_all add: node_net_key_add_def node_app_key_add_def Let_def field)
  show "building v (fst (node_set_composition (Some (next_ref v)) c w))"
    using x v by (cases c) (simp_all add: node_set_composition_def field)
  have els: "no_cbs (y\<lparr>elements := elements y @ [\<lparr>models = [], loc = 0, ele_index = ele\<rparr>]\<rparr>)" if "no_cbs y" for y
    using that by (simp add: no_cbs_def)
  show "building v (fst (node_set_element (Some (next_ref v)) ele w))"
    using x v by (auto simp: node_set_element_def els intro!: building_upd split: option.split)
  have mod: "no_cbs (y\<lparr>elements := update_first P (\<lambda>e. e\<lparr>models := models e @ [blank_model i]\<rparr>) (elements y)\<rparr>)" if "no_cbs y" for y P
    using that by (fastforce simp: no_cbs_def blank_model_def dest!: update_first_set)
  show "building v (fst (node_set_model (Some (next_ref v)) ele i w))"
    using x v by (auto simp: node_set_model_def mod intro!: building_upd split: option.split)
  show "building v (fst (node_add_binding bnd (Some (next_ref v)) ele i a w))"
    using v fresh_model_cbs(1) [OF v] by (auto simp: node_add_binding_def Let_def model split: option.split)
  show "building v (fst (node_add_subscription (Some (next_ref v)) ele i a w))"
    using v by (auto simp: node_add_subscription_def model split: option.split)
  show "building v (fst (node_model_pub_set (Some (next_ref v)) ele i p w))"
    using v fresh_model_cbs(2) [OF v] by (auto simp: node_model_pub_set_def Let_def model split: option.split)
qed

text \<open>What holds of the results of a function, when it returns.\<close>

definition rets :: "('b \<Rightarrow> bool) \<Rightarrow> 'b cres \<Rightarrow> bool" where
  "rets Q m \<longleftrightarrow> (\<forall>x. m = Ret x \<longrightarrow> Q x)"

lemma rets_simps [simp]: "rets Q (Ret x) = Q x" "rets Q Fault" "rets Q Fail" "rets Q (cguard b m) = (b \<longrightarrow> rets Q m)"
  by (auto simp: rets_def)

lemma rets_any: "(\<And>x. rets Q (f x)) \<Longrightarrow> rets Q (cbind m f)"
  by (cases m) (auto simp: rets_def)

lemma rets_bind: "rets P m \<Longrightarrow> (\<And>x. P x \<Longrightarrow> rets Q (f x)) \<Longrightarrow> rets Q (cbind m f)"
  by (cases m) (auto simp: rets_def)

lemma rets_seq:
  "rets (\<lambda>y. P (fst y)) m \<Longrightarrow> (\<And>w ok. P w \<Longrightarrow> rets Q (f (w, ok))) \<Longrightarrow> rets Q (cbind m f)"
  by (erule rets_bind) auto

abbreviation builds :: "'a world_scheme \<Rightarrow> ('a world_scheme \<times> 'b) cres \<Rightarrow> bool" where
  "builds v \<equiv> rets (\<lambda>y. building v (fst y))"

lemma builds_if_member:
  "building v w \<Longrightarrow> (\<And>j. x = Some j \<Longrightarrow> builds v (f j w)) \<Longrightarrow> builds v (if_member x f w)"
  by (cases x) (auto simp: if_member_def)

lemma node_keys_building:
  "nodes_wf v \<Longrightarrow> building v w \<Longrightarrow> building v (fst (node_keys_loop J (next_ref v) is_app xs i w))"
proof (induction xs arbitrary: i w)
  case (Cons x xs)
  then show ?case by (cases x) (auto simp: Let_def keeps_building)
qed simp

lemma parse_node_keys_building:
  "nodes_wf v \<Longrightarrow> building v w \<Longrightarrow> builds v (parse_node_keys J (next_ref v) a is_app w)"
  by (simp add: parse_node_keys_def node_keys_building)

lemma composition_models_building:
  "nodes_wf v \<Longrightarrow> building v w \<Longrightarrow> builds v (composition_models J (next_ref v) ix xs w)"
  by (induction xs arbitrary: w) (auto intro!: rets_any simp: keeps_building split: option.split)

lemma composition_elements_building:
  "nodes_wf v \<Longrightarrow> building v w \<Longrightarrow> builds v (composition_elements J (next_ref v) cnt xs w)"
proof (induction xs arbitrary: w)
  case (Cons x xs)
  then show ?case
    by (auto simp: Let_def case_prod_beta parse_composition_models_def keeps_building split: option.split
        intro!: rets_seq [where P = "building v"] composition_models_building)
qed simp

lemma parse_composition_elements_building:
  "nodes_wf v \<Longrightarrow> building v w \<Longrightarrow> builds v (parse_composition_elements J (next_ref v) es w)"
  by (simp add: parse_composition_elements_def composition_elements_building keeps_building)

lemma parse_node_composition_building:
  "nodes_wf v \<Longrightarrow> building v w \<Longrightarrow> builds v (parse_node_composition J (next_ref v) jcomp w)"
  by (auto simp: parse_node_composition_def Let_def case_prod_beta keeps_building split: option.split
      intro!: rets_any parse_composition_elements_building)

lemma bindings_building:
  "nodes_wf v \<Longrightarrow> building v w \<Longrightarrow> building v (fst (bindings_loop bnd J (next_ref v) ele i xs w))"
  by (induction xs arbitrary: w) (auto simp: Let_def case_prod_beta keeps_building split: option.split)

lemma subscriptions_building:
  "nodes_wf v \<Longrightarrow> building v w \<Longrightarrow> builds v (subscriptions_loop J (next_ref v) ele i xs w)"
  by (induction xs arbitrary: w) (auto simp: Let_def case_prod_beta keeps_building split: option.split intro!: rets_any)

lemma publication_building:
  "nodes_wf v \<Longrightarrow> building v w \<Longrightarrow> builds v (parse_model_pub J (next_ref v) ele i jpub w)"
  by (auto simp: parse_model_pub_def keeps_building split: option.split intro!: rets_any)

lemma configuration_model_building:
  "nodes_wf v \<Longrightarrow> building v w \<Longrightarrow> builds v (parse_configuration_model bnd J (next_ref v) ele i jm w)"
  by (auto simp: parse_configuration_model_def parse_bindings_def parse_subscriptions_def bindings_building
      intro!: rets_seq [where P = "building v"] builds_if_member subscriptions_building publication_building)

lemma configuration_models_building:
  "nodes_wf v \<Longrightarrow> building v w \<Longrightarrow> builds v (configuration_models bnd J (next_ref v) ele xs w)"
proof (induction xs arbitrary: w)
  case (Cons x xs)
  then show ?case unfolding configuration_models.simps
    by (intro rets_any) (auto split: option.split intro!: rets_seq [OF configuration_model_building])
qed simp

lemma parse_primary_building:
  "nodes_wf v \<Longrightarrow> building v w \<Longrightarrow> builds v (parse_primary J (next_ref v) cnt is_loc je w)"
  by (auto simp: parse_primary_def Let_def case_prod_beta keeps_building building_upd_net split: option.split intro!: rets_any)

lemma configuration_elements_building:
  "nodes_wf v \<Longrightarrow> building v w \<Longrightarrow> builds v (configuration_elements bnd J (next_ref v) cnt is_loc xs w)"
proof (induction xs arbitrary: w)
  case (Cons x xs)
  then show ?case
    by (auto simp: Let_def parse_configuration_models_def configuration_models_building parse_primary_building split: option.split
        intro!: rets_seq [where P = "building v"] builds_if_member)
qed simp

lemma settings_building:
  "nodes_wf v \<Longrightarrow> building v w \<Longrightarrow> building v (parse_node_settings J (next_ref v) jnode is_loc w)"
  by (auto simp: parse_node_settings_def Let_def keeps_building net_set_iv_index_def building_upd_net split: option.split)

lemma key_lists_building:
  "nodes_wf v \<Longrightarrow> building v w \<Longrightarrow> builds v (parse_node_key_lists J (next_ref v) jconfig w)"
proof -
  assume v: "nodes_wf v" "building v w"
  have app: "rets (building v) (case x of None \<Rightarrow> Ret w1 | Some ja \<Rightarrow> cbind (parse_node_keys J (next_ref v) ja True w1) (\<lambda>(w2, _). Ret w2))"
    if "building v w1" for x w1
    using that v by (cases x) (auto intro!: rets_seq [OF parse_node_keys_building])
  have ttl: "building v (case x of None \<Rightarrow> w2 | Some j \<Rightarrow> fst (node_set_default_ttl (Some (next_ref v)) (g j) w2))"
    if "building v w2" for x w2 g
    using that v by (cases x) (simp_all add: keeps_building)
  show ?thesis
  proof (cases "j_get J (Some jconfig) ''netKeys''")
    case (Some a)
    show ?thesis unfolding parse_node_key_lists_def Some option.case
      by (rule rets_seq [OF parse_node_keys_building [OF v]]) (auto intro!: rets_bind [OF app] ttl)
  qed (simp add: parse_node_key_lists_def v)
qed

lemma configuration_building:
  "nodes_wf v \<Longrightarrow> building v w \<Longrightarrow> builds v (parse_node_configuration bnd J (next_ref v) jconfig is_loc w)"
  by (auto simp: parse_node_configuration_def parse_configuration_elements_def configuration_elements_building key_lists_building keeps_building
      split: option.split intro!: rets_seq [where P = "building v"])

text \<open>Freeing the node gives the world from before, but for the network layer's record.\<close>

lemma building_free:
  assumes "nodes_wf v" "building v w"
  shows "\<exists>N. node_free (Some (next_ref v)) w = v\<lparr>net := N, next_ref := next_ref v + 1\<rparr>"
proof -
  from assms(2) obtain x N where w: "w = with_node x (v\<lparr>net := N\<rparr>)" "nref x = next_ref v" by (auto simp: building_def)
  have "delete_first (\<lambda>n. nref n = r) (xs @ [x]) = xs" if "nref x = r" "\<forall>n\<in>set xs. nref n \<noteq> r" for r xs
    using that by (induction xs) auto
  moreover have "\<forall>n\<in>set (nodes v). nref n \<noteq> next_ref v" using assms(1) by (auto simp: nodes_wf_def)
  ultimately show ?thesis using w by (intro exI [of _ N]) (simp add: node_free_def with_node_def)
qed

definition node_added :: "'a world_scheme \<Rightarrow> bool \<Rightarrow> 'a world_scheme \<Rightarrow> bool" where
  "node_added v is_loc w \<longleftrightarrow> (\<exists>x N. nref x = next_ref v \<and>
     w = (with_node x (v\<lparr>net := N\<rparr>))\<lparr>local_node := (if is_loc then Some (next_ref v) else local_node v)\<rparr>)"

definition node_refused :: "'a world_scheme \<Rightarrow> 'a world_scheme \<Rightarrow> bool" where
  "node_refused v w \<longleftrightarrow> (\<exists>N k. w = v\<lparr>net := N, next_ref := k\<rparr> \<and> next_ref v \<le> k)"

lemma node_refusedI: "next_ref v \<le> k \<Longrightarrow> node_refused v (v\<lparr>net := N, next_ref := k\<rparr>)"
  unfolding node_refused_def by blast

definition node_outcome :: "'a world_scheme \<Rightarrow> bool \<Rightarrow> 'a world_scheme \<times> bool \<Rightarrow> bool" where
  "node_outcome v is_loc y \<longleftrightarrow> (if snd y then node_added v is_loc (fst y) else node_refused v (fst y))"

lemma finish_node_result:
  assumes "nodes_wf v" "building v w"
  shows "node_outcome v is_loc (finish_node (next_ref v) is_loc w)"
proof -
  obtain w' ok where fin: "finish_node (next_ref v) is_loc w = (w', ok)" by fastforce
  from assms(2) obtain x N where w: "w = with_node x (v\<lparr>net := N\<rparr>)" "nref x = next_ref v" by (auto simp: building_def)
  have wf: "nodes_wf (v\<lparr>net := N\<rparr>)" using assms(1) by (simp add: nodes_wf_def)
  have loc: "local_node w = local_node v" using w by (simp add: with_node_def)
  obtain M where free: "node_free (Some (next_ref v)) w = v\<lparr>net := M, next_ref := next_ref v + 1\<rparr>"
    using building_free [OF assms(1,2)] by blast
  show ?thesis
  proof (cases is_loc)
    case False
    with fin w have w': "w' = with_node x (v\<lparr>net := N\<rparr>)" ok by (auto simp: finish_node_def)
    moreover have "with_node x (v\<lparr>net := N\<rparr>) = (with_node x (v\<lparr>net := N\<rparr>))\<lparr>local_node := local_node v\<rparr>"
      by (simp add: with_node_def)
    ultimately show ?thesis using False w(2) fin unfolding node_added_def node_outcome_def by auto
  next
    case True
    show ?thesis
    proof (cases "local_node v")
      case None
      let ?x = "x\<lparr>n_provisioner := True\<rparr>"
      have "update_first (\<lambda>n. nref n = next_ref v) (\<lambda>n. n\<lparr>n_provisioner := True\<rparr>) (nodes v @ [x]) = nodes v @ [?x]"
        using assms(1) w(2) by (intro update_first_last) (auto simp: nodes_wf_def)
      then have "upd_node (next_ref v) (\<lambda>n. n\<lparr>n_provisioner := True\<rparr>) (w\<lparr>local_node := Some (next_ref v)\<rparr>) =
          (with_node ?x (v\<lparr>net := N\<rparr>))\<lparr>local_node := Some (next_ref v)\<rparr>"
        unfolding w(1) by (simp add: with_node_def upd_node_def)
      with True None fin loc have "w' = (with_node ?x (v\<lparr>net := N\<rparr>))\<lparr>local_node := Some (next_ref v)\<rparr>" ok
        by (auto simp: finish_node_def node_set_local_node_def)
      then show ?thesis using True w(2) fin unfolding node_added_def node_outcome_def by (auto intro!: exI [of _ ?x])
    next
      case (Some r)
      with True fin loc free have "w' = v\<lparr>net := M, next_ref := next_ref v + 1\<rparr>" "\<not> ok"
        by (auto simp: finish_node_def node_set_local_node_def)
      then show ?thesis using fin by (auto simp: node_outcome_def intro!: node_refusedI)
    qed
  qed
qed

lemma parse_node_with_key_result:
  assumes "nodes_wf v"
  shows "rets (node_outcome v is_loc) (parse_node_with_key bnd J k jnode is_loc v)"
proof -
  let ?r = "next_ref v"
  have new: "node_new v = (with_node (blank_node ?r) v, ?r)" by (simp add: node_new_def add_node_def with_node_def)
  have b: "building v (parse_node_settings J ?r jnode is_loc (node_set_device_key (Some ?r) k (with_node (blank_node ?r) v)))"
    using assms building_new by (intro settings_building keeps_building)
  have free: "node_outcome v l (node_free (Some ?r) w, False)" if "building v w" for w l
    using building_free [OF assms that] by (auto simp: node_outcome_def intro!: node_refusedI)
  note fin = finish_node_result [OF assms]
  have comp: "builds v (case x of None \<Rightarrow> Ret (w, \<not> is_loc) | Some jcomp \<Rightarrow> parse_node_composition J ?r jcomp w)" if "building v w" for x w
    using that assms parse_node_composition_building by (cases x) auto
  show ?thesis unfolding parse_node_with_key_def new Let_def case_prod_conv
    by (rule rets_seq [OF comp [OF b]])
      (auto simp: free fin split: option.split intro!: rets_seq [OF configuration_building [OF assms]])
qed

lemma parse_node_result:
  assumes "nodes_wf v" "parse_node bnd J jnode is_loc rnd v = Ret (w, jnode', rnd', ok)"
  shows "if ok then node_added v is_loc w else node_refused v w"
proof -
  have same: "node_refused v v" unfolding node_refused_def by (intro exI [of _ "net v"] exI [of _ "next_ref v"]) simp
  have run: "node_outcome v is_loc (u, k)" if "parse_node_with_key bnd J dk j is_loc v = Ret (u, k)" for dk j u k
    using parse_node_with_key_result [OF assms(1)] that by (metis rets_def)
  show ?thesis using assms(2) same
    by (auto simp: parse_node_def cbind_Ret_iff Let_def split: option.splits prod.splits
        dest!: run simp: node_outcome_def split: if_splits)
qed

text \<open>
  C28. Reading the entry of a node adds one node or none. Whatever the entry holds, when \<open>parse_node\<close>
  succeeds the list of nodes has one new node at its end, which is the local node if the local
  file was read; when it fails the list is the one from before. Keys, virtual addresses, the other
  nodes and what was sent are not touched in either case, and no callback of a model is called.
\<close>

theorem node_entry_all_or_nothing:
  assumes "nodes_wf v" "parse_node bnd J jnode is_loc rnd v = Ret (w, jnode', rnd', ok)"
  shows "if ok then \<exists>x N. nref x = next_ref v \<and>
       w = v\<lparr>net := N, nodes := nodes v @ [x], next_ref := next_ref v + 1, local_node := (if is_loc then Some (next_ref v) else local_node v)\<rparr>
     else \<exists>N k. w = v\<lparr>net := N, next_ref := k\<rparr>"
proof (cases ok)
  case True
  with parse_node_result [OF assms] have "node_added v is_loc w" by simp
  with True show ?thesis by (auto simp: node_added_def with_node_def)
next
  case False
  with parse_node_result [OF assms] have "node_refused v w" by simp
  with False show ?thesis by (auto simp: node_refused_def)
qed

section \<open>Reading a file\<close>

text \<open>
  The parts of a file before the nodes change keys, addresses and the IV index, and in the document at most
  the keys.
\<close>

definition before_nodes :: "'j json_c \<Rightarrow> 'a world_scheme \<Rightarrow> 'j db_reader \<Rightarrow> 'a world_scheme \<times> 'j db_reader \<times> bool \<Rightarrow> bool" where
  "before_nodes J w rd y \<longleftrightarrow>
     nodes (fst y) = nodes w \<and> next_ref (fst y) = next_ref w \<and> local_node (fst y) = local_node w \<and>
     (keys_wf (keys w) \<longrightarrow> keys_wf (keys (fst y))) \<and>
     j_get J (Some (rd_main (fst (snd y)))) ''nodes'' = j_get J (Some (rd_main rd)) ''nodes''"

lemma before_nodes_refl [simp]: "before_nodes J w rd (w, rd, ok)"
  by (simp add: before_nodes_def)

lemma before_nodes_trans:
  "before_nodes J w rd (w1, rd1, ok1) \<Longrightarrow> before_nodes J w1 rd1 y \<Longrightarrow> before_nodes J w rd y"
  by (simp add: before_nodes_def)

lemma before_nodes_keys:
  "j_get J (Some (rd_main rd1)) ''nodes'' = j_get J (Some (rd_main rd)) ''nodes'' \<Longrightarrow> before_nodes J w rd (w, rd1, ok)"
  "j_get J (Some (rd_main rd1)) ''nodes'' = j_get J (Some (rd_main rd)) ''nodes'' \<Longrightarrow> (keys_wf (keys w) \<Longrightarrow> keys_wf ks) \<Longrightarrow>
     before_nodes J w rd (w\<lparr>keys := ks\<rparr>, rd1, ok)"
  by (simp_all add: before_nodes_def)

lemma rets_mono: "rets P m \<Longrightarrow> (\<And>x. P x \<Longrightarrow> Q x) \<Longrightarrow> rets Q m"
  by (auto simp: rets_def)

lemma keys_wf_phase: "keys_wf ks \<Longrightarrow> keys_wf (fst (keys_set_kr_phase i ph ks))"
  by (rule keys_delete_wf)

lemma then_read_before:
  assumes "rets (before_nodes J w rd) m" "\<And>rd1 w1. rets (before_nodes J w1 rd1) (f rd1 w1)"
  shows "rets (before_nodes J w rd) (then_read m f)"
  unfolding then_read_def
proof (rule rets_bind [OF assms(1)])
  fix y assume y: "before_nodes J w rd y"
  obtain w1 rd1 ok where "y = (w1, rd1, ok)" by (cases y)
  with y assms(2) [of w1 rd1] show "rets (before_nodes J w rd) (case y of (w, rd, ok) \<Rightarrow> if ok then f rd w else Ret (w, rd, False))"
    by (auto intro: rets_mono before_nodes_trans simp: before_nodes_def)
qed

context json_lib
begin

lemma read_key_nodes:
  "k \<noteq> ''nodes'' \<Longrightarrow>
   rets (\<lambda>y. j_get J (Some (rd_main (fst y))) ''nodes'' = j_get J (Some (rd_main rd)) ''nodes'') (read_key J checked [Member k, Item i] jtemp rd)"
  using jat_jset_apart [of "[Member k, Item i]" "[Member ''nodes'']"]
  by (auto simp: read_key_def split: option.split prod.split intro!: rets_any simp del: jset.simps)

end

lemma read_net_keys_before:
  assumes "json_lib (db_json E)"
  shows "rets (before_nodes (db_json E) w rd) (read_net_keys E n i rd w)"
proof (induction n arbitrary: i rd w)
  case (Suc n)
  have key: "rets (\<lambda>y. j_get (db_json E) (Some (rd_main (fst y))) ''nodes'' = j_get (db_json E) (Some (rd_main rd)) ''nodes'')
      (read_key (db_json E) True [Member ''netKeys'', Item i] jt rd)" for jt
    by (rule json_lib.read_key_nodes [OF assms]) simp
  have step: "rets (before_nodes (db_json E) w rd) (read_net_keys E n (Suc i) rd1 (w\<lparr>keys := ks\<rparr>))"
    if "j_get (db_json E) (Some (rd_main rd1)) ''nodes'' = j_get (db_json E) (Some (rd_main rd)) ''nodes''"
      "keys_wf (keys w) \<Longrightarrow> keys_wf ks" for rd1 ks
    by (rule rets_mono [OF Suc.IH]) (use that in \<open>simp add: before_nodes_def\<close>)
  show ?case
    by (auto simp: Let_def case_prod_beta keys_net_key_add_wf split: option.split
        intro!: rets_bind [OF key] step keys_wf_phase before_nodes_keys)
qed simp

lemma read_app_keys_before:
  assumes "json_lib (db_json E)"
  shows "rets (before_nodes (db_json E) w rd) (read_app_keys E n i rd w)"
proof (induction n arbitrary: i rd w)
  case (Suc n)
  have key: "rets (\<lambda>y. j_get (db_json E) (Some (rd_main (fst y))) ''nodes'' = j_get (db_json E) (Some (rd_main rd)) ''nodes'')
      (read_key (db_json E) False [Member ''appKeys'', Item i] jt rd)" for jt
    by (rule json_lib.read_key_nodes [OF assms]) simp
  have step: "rets (before_nodes (db_json E) w rd) (read_app_keys E n (Suc i) rd1 (w\<lparr>keys := ks\<rparr>))"
    if "j_get (db_json E) (Some (rd_main rd1)) ''nodes'' = j_get (db_json E) (Some (rd_main rd)) ''nodes''"
      "keys_wf (keys w) \<Longrightarrow> keys_wf ks" for rd1 ks
    by (rule rets_mono [OF Suc.IH]) (use that in \<open>simp add: before_nodes_def\<close>)
  show ?case
    by (auto simp: Let_def case_prod_beta keys_app_key_add_wf split: option.split
        intro!: rets_bind [OF key] step before_nodes_keys)
qed simp

lemma unicast_ranges_same:
  "rets (\<lambda>y. nodes (fst y) = nodes w \<and> next_ref (fst y) = next_ref w \<and> local_node (fst y) = local_node w \<and> keys (fst y) = keys w)
     (unicast_ranges J xs w)"
proof (induction xs arbitrary: w)
  case (Cons x xs)
  show ?case using Cons.IH by (auto simp: upd_net_def split: option.split intro!: rets_any rets_mono [OF Cons.IH])
qed simp

lemma provisioners_same:
  fixes w :: "'a world_scheme"
  shows "rets (\<lambda>y. nodes (fst y) = nodes w \<and> next_ref (fst y) = next_ref w \<and> local_node (fst y) = local_node w \<and> keys (fst y) = keys w)
     (read_provisioners J xs w)"
proof (induction xs arbitrary: w)
  case (Cons x xs)
  let ?P = "\<lambda>w' :: 'a world_scheme. nodes w' = nodes w \<and> next_ref w' = next_ref w \<and> local_node w' = local_node w \<and> keys w' = keys w"
  have "rets (\<lambda>y. ?P (fst y)) (parse_unicast_range J a w)" for a by (simp add: parse_unicast_range_def unicast_ranges_same)
  moreover have "rets (\<lambda>y. ?P (fst y)) (read_provisioners J xs w1)" if "?P w1" for w1 using Cons.IH [of w1] that by simp
  ultimately show ?case by (auto split: option.split intro!: rets_seq [where P = ?P])
qed simp

text \<open>The invariant of the nodes and keys, and how reading the list of nodes extends the world.\<close>

definition start_inv :: "'a world_scheme \<Rightarrow> bool" where
  "start_inv w \<longleftrightarrow> nodes_wf w \<and> keys_wf (keys w) \<and> (\<forall>r. local_node w = Some r \<longrightarrow> r \<in> nref ` set (nodes w))"

definition extends :: "'a world_scheme \<Rightarrow> nat \<Rightarrow> 'a world_scheme \<Rightarrow> bool \<Rightarrow> bool" where
  "extends w n w' ok \<longleftrightarrow> start_inv w' \<and> local_node w' = local_node w \<and>
     (\<exists>xs. nodes w' = nodes w @ xs \<and> (if ok then length xs = n else length xs \<le> n))"

lemma node_added_inv:
  assumes "start_inv v" "node_added v False w"
  shows "start_inv w" "\<exists>x. nodes w = nodes v @ [x]" "local_node w = local_node v"
  using assms by (force simp: start_inv_def node_added_def with_node_def nodes_wf_def less_Suc_eq)+

lemma node_refused_inv:
  assumes "start_inv v" "node_refused v w"
  shows "start_inv w" "nodes w = nodes v" "local_node w = local_node v"
  using assms by (fastforce simp: start_inv_def node_refused_def nodes_wf_def)+

lemma read_nodes_extends:
  "start_inv w \<Longrightarrow> rets (\<lambda>y. extends w n (fst y) (snd (snd y))) (read_nodes bnd J n i rd w)"
proof (induction n arbitrary: i rd w)
  case 0
  then show ?case by (simp add: extends_def)
next
  case (Suc n)
  have self: "extends w (Suc n) w False" using Suc.prems by (simp add: extends_def)
  show ?case
  proof (cases "jat J [Member ''nodes'', Item i] (rd_main rd)")
    case (Some jnode)
    have wf: "nodes_wf w" using Suc.prems by (simp add: start_inv_def)
    have "rets (\<lambda>y. if snd (snd (snd y)) then node_added w False (fst y) else node_refused w (fst y))
        (parse_node bnd J jnode False (rd_rand rd) w)"
      using parse_node_result [OF wf] by (fastforce simp: rets_def)
    moreover have "rets (\<lambda>y. extends w (Suc n) (fst y) (snd (snd y))) (read_nodes bnd J n (i + 1) rd1 w1)"
      if "node_added w False w1" for rd1 w1
    proof -
      note a = node_added_inv [OF Suc.prems that]
      from a(2) obtain x where x: "nodes w1 = nodes w @ [x]" by blast
      have "extends w (Suc n) w' ok" if "extends w1 n w' ok" for w' ok
        using that a(3) x by (auto simp: extends_def split: if_splits)
      then show ?thesis by (rule rets_mono [OF Suc.IH [OF a(1)]])
    qed
    moreover have "extends w (Suc n) w1 False" if "node_refused w w1" for w1
      using node_refused_inv [OF Suc.prems that] by (simp add: extends_def)
    ultimately show ?thesis using Some by (simp add: Let_def) (erule rets_bind, auto split: if_splits)
  qed (simp add: self)
qed

definition node_entries :: "'j json_c \<Rightarrow> 'j \<Rightarrow> nat" where
  "node_entries J jmain = (case j_get J (Some jmain) ''nodes'' of None \<Rightarrow> 0 | Some a \<Rightarrow> j_length J a)"

abbreviation reads_nodes :: "'j json_c \<Rightarrow> 'a world_scheme \<Rightarrow> 'j db_reader \<Rightarrow> 'a world_scheme \<times> 'j db_reader \<times> bool \<Rightarrow> bool" where
  "reads_nodes J w rd y \<equiv> extends w (node_entries J (rd_main rd)) (fst y) (snd (snd y))"

lemma then_read_extends:
  fixes w :: "'a world_scheme"
  assumes "rets (before_nodes J w rd) m" "start_inv w"
    and "\<And>rd1 (w1 :: 'a world_scheme). start_inv w1 \<Longrightarrow> rets (reads_nodes J w1 rd1) (f rd1 w1)"
  shows "rets (reads_nodes J w rd) (then_read m f)"
  unfolding then_read_def
proof (rule rets_bind [OF assms(1)])
  fix y assume "before_nodes J w rd y"
  then obtain w1 rd1 ok where y: "y = (w1, rd1, ok)" "before_nodes J w rd (w1, rd1, ok)" by (cases y) auto
  have inv: "start_inv w1" and same: "nodes w1 = nodes w" "local_node w1 = local_node w" "node_entries J (rd_main rd1) = node_entries J (rd_main rd)"
    using y(2) assms(2) by (auto simp: before_nodes_def start_inv_def nodes_wf_def node_entries_def)
  have "rets (reads_nodes J w rd) (f rd1 w1)"
    by (rule rets_mono [OF assms(3) [OF inv]]) (use same in \<open>simp add: extends_def\<close>)
  moreover have "extends w k w1 False" for k using inv same by (simp add: extends_def)
  ultimately show "rets (reads_nodes J w rd) (case y of (w, rd, ok) \<Rightarrow> if ok then f rd w else Ret (w, rd, False))"
    using y(1) by simp
qed

lemma provisioners_before:
  "rets (before_nodes J w rd) (cbind (read_provisioners J xs w) (\<lambda>(w1, ok). Ret (w1, rd, ok)))"
  by (rule rets_bind [OF provisioners_same]) (auto simp: before_nodes_def)

lemma read_network_extends:
  fixes E :: "'j db_env" and w :: "'a world_scheme"
  assumes lib: "json_lib (db_json E)" and inv: "start_inv w"
  shows "rets (reads_nodes (db_json E) w rd) (read_network bnd E rd w)"
proof -
  let ?J = "db_json E"
  have iv: "rets (before_nodes ?J w rd) (read_iv_index ?J rd w)"
    by (auto simp: read_iv_index_def before_nodes_def net_set_iv_index_def upd_net_def split: option.split)
  have nk: "rets (before_nodes ?J w rd) (case x of None \<Rightarrow> Ret (w, rd, False)
      | Some a \<Rightarrow> cguard (j_is_array ?J a) (read_net_keys E (j_length ?J a) 0 rd w))" for x rd and w :: "'a world_scheme"
    using read_net_keys_before [OF lib] by (cases x) auto
  have ak: "rets (before_nodes ?J w rd) (case x of None \<Rightarrow> Ret (w, rd, True)
      | Some a \<Rightarrow> cguard (j_is_array ?J a) (read_app_keys E (j_length ?J a) 0 rd w))" for x rd and w :: "'a world_scheme"
    using read_app_keys_before [OF lib] by (cases x) auto
  have pr: "rets (before_nodes ?J w rd) (case x of None \<Rightarrow> Ret (w, rd, False)
      | Some a \<Rightarrow> cguard (j_is_array ?J a) (cbind (read_provisioners ?J (j_items ?J a) w) (\<lambda>(w1, ok). Ret (w1, rd, ok))))"
    for x rd and w :: "'a world_scheme"
    by (cases x) (auto intro: provisioners_before)
  have nd: "rets (reads_nodes ?J w rd) (case j_get ?J (Some (rd_main rd)) ''nodes'' of None \<Rightarrow> Ret (w, rd, True)
      | Some a \<Rightarrow> cguard (j_is_array ?J a) (read_nodes bnd ?J (j_length ?J a) 0 rd w))" if "start_inv w" for rd and w :: "'a world_scheme"
  proof (cases "j_get ?J (Some (rd_main rd)) ''nodes''")
    case None
    then show ?thesis using that by (simp add: node_entries_def extends_def)
  next
    case (Some a)
    then show ?thesis using read_nodes_extends [OF that, of "j_length ?J a" bnd ?J 0 rd] by (simp add: node_entries_def)
  qed
  show ?thesis unfolding read_network_def Let_def
    by (intro then_read_extends iv nk ak pr nd inv)
qed

lemma node_added_local:
  assumes "start_inv v" "node_added v True w" "local_node v = None"
  shows "start_inv w \<and> (\<exists>x. nodes w = nodes v @ [x] \<and> local_node w = Some (nref x))"
  using assms by (force simp: start_inv_def node_added_def with_node_def nodes_wf_def less_Suc_eq)

section \<open>The start of the program\<close>

text \<open>
  \<^verbatim>\<open>main\<close> reads the file of the local node and then the provisioning database, and gives up when
  either cannot be read.
\<close>

definition mesh_start where
  "mesh_start bnd E lf pf d w =
     cbind (prov_db_read_local_node bnd E lf True d w) (\<lambda>(w1, d1, ok).
       if \<not> ok then Ret (w1, d1, False) else prov_db_read bnd E pf d1 w1)"

lemma prov_db_read_extends:
  assumes "json_lib (db_json E)" "start_inv w" "prov_db_read bnd E f d w = Ret (w', d', ok)"
  shows "case db_load (db_json E) f d of None \<Rightarrow> w' = w \<and> \<not> ok | Some jmain \<Rightarrow> extends w (node_entries (db_json E) jmain) w' ok"
proof -
  let ?J = "db_json E" and ?d = "d\<lparr>prov_filename := f\<rparr>"
  have load: "db_load ?J f ?d = db_load ?J f d" by (simp add: db_load_def prov_file_read_def split: option.split)
  show ?thesis
  proof (cases "db_load ?J f d")
    case None
    then show ?thesis using assms(3) load by (simp add: prov_db_read_def read_json_db_def Let_def)
  next
    case (Some jmain)
    let ?rd = "\<lparr>rd_main = jmain, rd_key = db_key_mem E, rd_refresh = False, rd_rand = urandom d\<rparr>"
    from assms(3) Some load obtain rd1 where "read_network bnd E ?rd w = Ret (w', rd1, ok)"
      by (auto simp: prov_db_read_def read_json_db_def finish_read_def Let_def cbind_Ret_iff)
    with read_network_extends [OF assms(1,2), of ?rd bnd] Some show ?thesis by (auto simp: rets_def)
  qed
qed

lemma read_local_result:
  assumes "nodes_wf w" "prov_db_read_local_node bnd E lf True d w = Ret (w1, d1, ok)"
  shows "files d1 = files d \<and> (if ok then node_added w True w1 else node_refused w w1 \<or> w1 = w)"
proof -
  let ?J = "db_json E" and ?d = "d\<lparr>local_filename := lf\<rparr>"
  show ?thesis
  proof (cases "db_load ?J lf ?d")
    case None
    with assms(2) have "w1 = w" "d1 = ?d" "\<not> ok" by (simp_all add: prov_db_read_local_node_def read_json_db_def)
    then show ?thesis by simp
  next
    case (Some jmain)
    let ?rd = "\<lparr>rd_main = jmain, rd_key = db_key_mem E, rd_refresh = False, rd_rand = urandom d\<rparr>"
    note run = assms(2) [unfolded prov_db_read_local_node_def read_json_db_def Let_def Some option.case finish_read_def read_local_node_def]
    show ?thesis
    proof (cases "j_get ?J (Some jmain) ''node''")
      case None
      with run show ?thesis by auto
    next
      case (Some jnode)
      with run obtain jn rnd where p: "parse_node bnd ?J jnode True (urandom d) w = Ret (w1, jn, rnd, ok)" "files d1 = files d"
        by (auto simp: cbind_Ret_iff)
      then show ?thesis using parse_node_result [OF assms(1) p(1)] by (cases ok) simp_all
    qed
  qed
qed

text \<open>
  C25. The start of the program. When both files are read, the first node is the local node, one
  node was made for each entry of the database, the pointers of the nodes are distinct and in use and the key store satisfies its
  invariant; and whenever the start fails without a fault, the invariants hold too.
\<close>

theorem start_reads_all_nodes:
  assumes "json_lib (db_json E)" "start_inv w" "local_node w = None" "mesh_start bnd E lf pf d w = Ret (w', d', ok)"
  shows "start_inv w' \<and>
    (ok \<longrightarrow> (\<exists>x xs jmain. nodes w' = nodes w @ x # xs \<and> local_node w' = Some (nref x) \<and>
       db_load (db_json E) pf d = Some jmain \<and> length xs = node_entries (db_json E) jmain))"
proof -
  let ?J = "db_json E" and ?d = "d\<lparr>local_filename := lf\<rparr>"
  from assms(4) obtain w1 d1 ok1 where l: "prov_db_read_local_node bnd E lf True d w = Ret (w1, d1, ok1)"
    and rest: "(if \<not> ok1 then Ret (w1, d1, False) else prov_db_read bnd E pf d1 w1) = Ret (w', d', ok)"
    by (auto simp: mesh_start_def cbind_Ret_iff)
  have wf: "nodes_wf w" using assms(2) by (simp add: start_inv_def)
  note r = read_local_result [OF wf l]
  from r have files: "files d1 = files d" and w1: "if ok1 then node_added w True w1 else node_refused w w1 \<or> w1 = w" by blast+
  show ?thesis
  proof (cases ok1)
    case False
    then show ?thesis using rest w1 assms(2) node_refused_inv(1) [OF assms(2)] by auto
  next
    case True
    with w1 node_added_local [OF assms(2) _ assms(3)] obtain x where x: "start_inv w1" "nodes w1 = nodes w @ [x]" "local_node w1 = Some (nref x)"
      by auto
    from True rest have "prov_db_read bnd E pf d1 w1 = Ret (w', d', ok)" by simp
    moreover have "db_load ?J pf d1 = db_load ?J pf d" using files by (simp add: db_load_def prov_file_read_def split: option.split)
    ultimately show ?thesis using prov_db_read_extends [OF assms(1) x(1)] x
      by (cases "db_load ?J pf d") (fastforce simp: extends_def)+
  qed
qed

section \<open>A concrete start\<close>

text \<open>The files of a local node with one element and of a network with a remote node at address 0x150.\<close>

definition start_loc :: json where
  "start_loc = JObj [(''node'', Some (JObj [(''deviceKey'', Some (JStr (replicate 32 (CHR ''0'')))),
     (''composition'', Some (JObj [(''cid'', Some (JStr ''0001'')), (''pid'', Some (JStr ''0002'')), (''vid'', Some (JStr ''0003'')),
        (''crpl'', Some (JStr ''000a'')), (''features'', Some (JObj [(''relay'', Some (JBool True))])),
        (''elements'', Some (JArr [Some (JObj [(''elementIndex'', Some (JInt 0)), (''models'', Some (JArr [Some (JStr ''0000'')]))])]))])),
     (''configuration'', Some (JObj [(''netKeys'', Some (JArr [Some (JStr ''0000'')])),
        (''elements'', Some (JArr [Some (JObj [(''elementIndex'', Some (JInt 0)), (''unicastAddress'', Some (JStr ''0001''))])]))]))]))]"

definition start_prov :: json where
  "start_prov = JObj [(''IVindex'', Some (JInt 0)), (''IVupdate'', Some (JInt 0)), (''netKeys'', Some (JArr [])),
     (''provisioners'', Some (JArr [Some (JObj [(''allocatedUnicastRange'', Some (JArr [Some (JObj
        [(''lowAddress'', Some (JStr ''0100'')), (''highAddress'', Some (JStr ''01ff''))])]))])])),
     (''nodes'', Some (JArr [Some (JObj [(''deviceKey'', Some (JStr (replicate 32 (CHR ''0'')))), (''configuration'', Some (JObj
        [(''netKeys'', Some (JArr [Some (JStr ''0000'')])),
         (''elements'', Some (JArr [Some (JObj [(''elementIndex'', Some (JInt 0)), (''unicastAddress'', Some (JStr ''0150''))])]))]))])]))]"

definition start_db :: db where
  "start_db = \<lparr>prov_filename = None, local_filename = None,
     files = [''prov'' \<mapsto> json_text start_prov, ''local'' \<mapsto> json_text start_loc], writable = (\<lambda>_. True), urandom = []\<rparr>"

definition start_env :: "json db_env" where
  "start_env = \<lparr>db_json = json_impl, db_alg = demo_alg, db_nk_mem = demo_net_key,
     db_ak_mem = \<lparr>ak_idx = 0, ak_net_idx = 0, ak_current = \<lparr>key = [], akf_aid = 0\<rparr>, ak_new = \<lparr>key = [], akf_aid = 0\<rparr>\<rparr>, db_key_mem = replicate 16 0\<rparr>"

definition no_bnd :: "model_cb \<Rightarrow> u16 \<Rightarrow> nat \<Rightarrow> world \<Rightarrow> world \<times> int" where
  "no_bnd cb a i w = (w, 0)"

definition start_rd :: "json \<Rightarrow> json db_reader" where
 "start_rd j = \<lparr>rd_main = j, rd_key = replicate 16 0, rd_refresh = False, rd_rand = []\<rparr>"


lemma start_docs:
  "db_load json_impl (Some ''local'') start_db = Some start_loc"
  "db_load json_impl (Some ''prov'') start_db = Some start_prov"
  by (simp_all add: start_db_def db_load_def prov_file_read_def json_impl_def json_parse_text)

lemma start_run:
  "case read_local_node no_bnd json_impl (start_rd start_loc) blank_world of
     Ret (w, rd, ok) \<Rightarrow> ok = Some True \<and> \<not> rd_refresh rd \<and> rd_rand rd = [] \<and>
       (case read_network no_bnd start_env (start_rd start_prov) w of Ret (w, rd, ok) \<Rightarrow> ok \<and> \<not> rd_refresh rd | _ \<Rightarrow> False)
   | _ \<Rightarrow> False"
  by code_simp

lemma start_returns: "\<exists>w' d'. mesh_start no_bnd start_env (Some ''local'') (Some ''prov'') start_db blank_world = Ret (w', d', True)"
proof -
  obtain w1 rd1 w2 rd2 where 1: "read_local_node no_bnd json_impl (start_rd start_loc) blank_world = Ret (w1, rd1, Some True)"
      "\<not> rd_refresh rd1" "rd_rand rd1 = []"
    and 2: "read_network no_bnd start_env (start_rd start_prov) w1 = Ret (w2, rd2, True)" "\<not> rd_refresh rd2"
    using start_run by (auto split: cres.splits)
  have E: "db_json start_env = json_impl" "db_key_mem start_env = replicate 16 0" by (simp_all add: start_env_def)
  have load: "db_load json_impl f (start_db\<lparr>local_filename := a\<rparr>) = db_load json_impl f start_db"
    "db_load json_impl f (start_db\<lparr>local_filename := a, urandom := u, prov_filename := b\<rparr>) = db_load json_impl f start_db" for a b u f
    by (simp_all add: db_load_def prov_file_read_def split: option.split)
  have u: "urandom start_db = []" by (simp add: start_db_def)
  have "prov_db_read_local_node no_bnd start_env (Some ''local'') True start_db blank_world =
      Ret (w1, start_db\<lparr>local_filename := Some ''local'', urandom := []\<rparr>, True)"
    using 1 by (simp add: prov_db_read_local_node_def read_json_db_def E load start_docs u finish_read_def start_rd_def Let_def)
  moreover have "\<exists>d'. prov_db_read no_bnd start_env (Some ''prov'') (start_db\<lparr>local_filename := Some ''local'', urandom := []\<rparr>) w1 = Ret (w2, d', True)"
    using 2 by (simp add: prov_db_read_def read_json_db_def E load start_docs u finish_read_def start_rd_def Let_def)
  ultimately show ?thesis by (auto simp: mesh_start_def)
qed

theorem start_reads_all_nodes_witness:
  "\<exists>w' d'. mesh_start no_bnd start_env (Some ''local'') (Some ''prov'') start_db blank_world = Ret (w', d', True) \<and>
     length (nodes w') = 2 \<and> local_node w' = Some (nref (hd (nodes w'))) \<and> distinct (map nref (nodes w'))"
proof -
  obtain w' d' where run: "mesh_start no_bnd start_env (Some ''local'') (Some ''prov'') start_db blank_world = Ret (w', d', True)"
    using start_returns by blast
  have E: "json_lib (db_json start_env)" "db_json start_env = json_impl"
    using json_values.json_lib_axioms by (simp_all add: start_env_def)
  have "start_inv blank_world" by (simp add: start_inv_def nodes_wf_def blank_world_def keys_wf_def no_keys_def net_keys_unique_def app_keys_unique_def)
  moreover have "local_node blank_world = None" "nodes blank_world = []" by (simp_all add: blank_world_def)
  moreover have "node_entries json_impl start_prov = 1" by code_simp
  ultimately show ?thesis
    using start_reads_all_nodes [OF E(1) _ _ run] run start_docs(2) by (auto simp: E(2) start_inv_def nodes_wf_def)
qed

lemma entry_run:
  "case parse_node no_bnd json_impl (the (jat json_impl [Member ''node''] start_loc)) True [] blank_world of
     Ret (w, j, rnd, ok) \<Rightarrow> ok | _ \<Rightarrow> False"
  "case parse_node no_bnd json_impl (JObj [(''deviceKey'', Some (JStr (replicate 32 (CHR ''0''))))]) True [] blank_world of
     Ret (w, j, rnd, ok) \<Rightarrow> \<not> ok | _ \<Rightarrow> False"
  by code_simp+

theorem node_entry_all_or_nothing_witness:
  "(\<exists>w j rnd. parse_node no_bnd json_impl (the (jat json_impl [Member ''node''] start_loc)) True [] blank_world = Ret (w, j, rnd, True) \<and>
      length (nodes w) = 1 \<and> local_node w = Some 0) \<and>
   (\<exists>w j rnd. parse_node no_bnd json_impl (JObj [(''deviceKey'', Some (JStr (replicate 32 (CHR ''0''))))]) True [] blank_world = Ret (w, j, rnd, False) \<and>
      nodes w = [] \<and> local_node w = None)"
proof -
  obtain w j rnd where 1: "parse_node no_bnd json_impl (the (jat json_impl [Member ''node''] start_loc)) True [] blank_world = Ret (w, j, rnd, True)"
    using entry_run(1) by (auto split: cres.splits)
  obtain w' j' rnd' where 2: "parse_node no_bnd json_impl (JObj [(''deviceKey'', Some (JStr (replicate 32 (CHR ''0''))))]) True [] blank_world = Ret (w', j', rnd', False)"
    using entry_run(2) by (auto split: cres.splits)
  have wf: "nodes_wf blank_world" by (simp add: nodes_wf_def blank_world_def)
  have b: "nodes blank_world = []" "local_node blank_world = None" "next_ref blank_world = 0" by (simp_all add: blank_world_def)
  show ?thesis using node_entry_all_or_nothing [OF wf 1] node_entry_all_or_nothing [OF wf 2] 1 2 b by auto
qed

end
