(* ===== verification/Mesh_DbComp.thy ===== *)
theory Mesh_DbComp
  imports Mesh_DbRead
begin

text \<open>
  The composition data of a node: what \<^verbatim>\<open>node.c\<close> makes of the octets, and what the database
  stores of them and gives back at the next start.
\<close>

section \<open>Composition data as octets\<close>

text \<open>An element: its location, its SIG models and its vendor models.\<close>

type_synonym element_data = "u16 \<times> u16 list \<times> u32 list"

definition le16 :: "u16 \<Rightarrow> bytes" where
  "le16 v = [be16_lo v, be16_hi v]"

definition le_vendor :: "u32 \<Rightarrow> bytes" where
  "le_vendor v = le16 (ucast (drop_bit 16 v)) @ le16 (ucast v)"

fun enc_element :: "element_data \<Rightarrow> bytes" where
  "enc_element (l, ss, vs) =
     le16 l @ [of_nat (length ss), of_nat (length vs)] @ concat (map le16 ss) @ concat (map le_vendor vs)"

fun element_fits :: "element_data \<Rightarrow> bool" where
  "element_fits (l, ss, vs) \<longleftrightarrow> length ss < 256 \<and> length vs < 256"

text \<open>The models of an element, in the order of the data and each once.\<close>

definition add_model :: "mesh_model list \<Rightarrow> u32 \<Rightarrow> mesh_model list" where
  "add_model ms i = (if find (\<lambda>m. mod_id m = i) ms = None then ms @ [blank_model i] else ms)"

fun element_ids :: "element_data \<Rightarrow> u32 list" where
  "element_ids (l, ss, vs) = map (\<lambda>s. ucast s + 0xffff0000) ss @ vs"

definition element_of :: "bool \<Rightarrow> nat \<Rightarrow> element_data \<Rightarrow> mesh_element" where
  "element_of with_loc i d =
     \<lparr>models = foldl add_model [] (element_ids d), loc = (if with_loc then fst d else 0), ele_index = of_nat i\<rparr>"

fun elements_of :: "bool \<Rightarrow> nat \<Rightarrow> element_data list \<Rightarrow> mesh_element list" where
  "elements_of with_loc i [] = []"
| "elements_of with_loc i (d # ds) = element_of with_loc i d # elements_of with_loc (Suc i) ds"

lemma length_le [simp]: "length (le16 v) = 2" "length (le_vendor u) = 4"
  by (simp_all add: le16_def le_vendor_def)

lemma get_le16_le16 [simp]: "get_le16 (le16 v @ rest) 0 = v"
  by (simp add: get_le16_def le16_def byte_at_def)

lemma vendor_id: "ucast (get_le16 (le_vendor v @ rest) 2) OR push_bit 16 (ucast (get_le16 (le_vendor v @ rest) 0)) = v"
proof -
  have "get_le16 (le_vendor v @ rest) 2 = ucast v" "get_le16 (le_vendor v @ rest) 0 = ucast (drop_bit 16 v)"
    by (simp_all add: get_le16_def le_vendor_def le16_def byte_at_def)
  then show ?thesis by simp (rule bit_word_eqI, auto simp: bit_simps)
qed

lemma sig_id: "ucast s OR 0xffff0000 = (ucast s + 0xffff0000 :: u32)" for s :: u16
proof -
  have "(0xffff0000 :: u32) = push_bit 16 (mask 16)" by code_simp
  moreover have "(ucast s :: u32) AND push_bit 16 (mask 16) = 0"
    by (rule bit_word_eqI) (auto simp: bit_simps dest: bit_imp_le_length)
  ultimately show ?thesis by (simp only: disjunctive_add_eq_or)
qed

section \<open>Setting the models of an element\<close>

lemma find_element_last:
  assumes "i \<notin> ele_index ` set es" "ele_index e = i"
  shows "find (\<lambda>e. ele_index e = i) (es @ [e]) = Some e" "update_first (\<lambda>e. ele_index e = i) f (es @ [e]) = es @ [f e]"
  using assms by (induction es) auto

lemma node_set_model_last:
  assumes "nodes_wf w" "nref x = next_ref w" "elements x = es @ [e]" "i \<notin> ele_index ` set es" "ele_index e = i"
  shows "node_set_model (Some (next_ref w)) i m (with_node x w) =
    (with_node (x\<lparr>elements := es @ [e\<lparr>models := add_model (models e) m\<rparr>]\<rparr>) w, True)"
proof -
  note f = with_node_facts [OF assms(1,2)] and l = find_element_last [OF assms(4,5)]
  have e: "find_element x i = Some e" using l(1) assms(3) by (simp add: find_element_def)
  show ?thesis
  proof (cases "find_model e m")
    case None
    then show ?thesis using f e l assms(2,3)
      by (simp add: node_set_model_def add_model_def find_model_def)
  next
    case (Some y)
    then have "x\<lparr>elements := es @ [e\<lparr>models := add_model (models e) m\<rparr>]\<rparr> = x"
      using assms(3) by (simp add: add_model_def find_model_def)
    then show ?thesis using Some f(1) e by (simp add: node_set_model_def)
  qed
qed

lemma set_models_last:
  assumes "nodes_wf w" "r = next_ref w" "nref x = r" "elements x = es @ [e]" "i \<notin> ele_index ` set es" "ele_index e = i"
  shows "foldl (\<lambda>w m. fst (node_set_model (Some r) i m w)) (with_node x w) ids =
    with_node (x\<lparr>elements := es @ [e\<lparr>models := foldl add_model (models e) ids\<rparr>]\<rparr>) w"
  using assms
proof (induction ids arbitrary: x e)
  case Nil
  then have "x\<lparr>elements := es @ [e\<lparr>models := models e\<rparr>]\<rparr> = x" by simp
  then show ?case by simp
next
  case (Cons m ids)
  let ?e = "e\<lparr>models := add_model (models e) m\<rparr>"
  have "node_set_model (Some r) i m (with_node x w) = (with_node (x\<lparr>elements := es @ [?e]\<rparr>) w, True)"
    unfolding Cons.prems(2) by (rule node_set_model_last) (use Cons.prems in simp_all)
  then show ?case using Cons.IH [of "x\<lparr>elements := es @ [?e]\<rparr>" ?e] Cons.prems by simp
qed

section \<open>Reading the octets\<close>

text \<open>A run of models of one kind: \<open>en\<close> writes an identifier, \<open>gid\<close> is the identifier that is set.\<close>

lemma comp_models_run:
  assumes "\<And>v. length (en v) = width" "\<And>v rest. get_id (en v @ rest) = gid v" "0 < width"
    and "nodes_wf w" "nref x = next_ref w" "elements x = es @ [e]" "i \<notin> ele_index ` set es" "ele_index e = i"
    and "width * length vs \<le> unat len"
  shows "comp_models width get_id (Some (next_ref w)) i (length vs) (concat (map en vs) @ rest) len (with_node x w) =
    Ret (with_node (x\<lparr>elements := es @ [e\<lparr>models := foldl add_model (models e) (map gid vs)\<rparr>]\<rparr>) w, True, rest, len - of_nat (width * length vs))"
  using assms(5-9)
proof (induction vs arbitrary: x e len)
  case Nil
  then have "x\<lparr>elements := es @ [e\<lparr>models := models e\<rparr>]\<rparr> = x" by simp
  then show ?case by simp
next
  case (Cons v vs)
  let ?e = "e\<lparr>models := add_model (models e) (gid v)\<rparr>"
  note set = node_set_model_last [OF assms(4) Cons.prems(1-4), of "gid v"]
  have le: "width \<le> unat len" "of_nat width \<le> len"
    using Cons.prems(5) by (simp_all add: word_le_nat_alt unat_of_nat)
  have sub: "unat (len - of_nat width) = unat len - width"
    using le unsigned_less [of len, where 'a = nat] by (simp add: unat_sub unat_of_nat)
  have "width * length vs \<le> unat (len - of_nat width)" using Cons.prems(5) by (simp add: sub)
  from Cons.IH [OF _ _ _ _ this, of "x\<lparr>elements := es @ [?e]\<rparr>" ?e] Cons.prems le set assms(1-3)
  show ?case by (simp add: algebra_simps)
qed

lemma db_models_run:
  assumes "\<And>v. length (en v) = width" "\<And>a v rest. entry a (en v @ rest) = ent a v" "0 < width" "width * length vs \<le> unat len"
  shows "db_models width entry (length vs) (concat (map en vs) @ rest) len a = Ret (foldl ent a vs, rest, len - of_nat (width * length vs))"
  using assms(4)
proof (induction vs arbitrary: a len)
  case (Cons v vs)
  have le: "width \<le> unat len" "of_nat width \<le> len"
    using Cons.prems by (simp_all add: word_le_nat_alt unat_of_nat)
  have sub: "unat (len - of_nat width) = unat len - width"
    using le unsigned_less [of len, where 'a = nat] by (simp add: unat_sub unat_of_nat)
  have "width * length vs \<le> unat (len - of_nat width)" using Cons.prems by (simp add: sub)
  from Cons.IH [OF this] le assms(1-3) show ?case by (simp add: algebra_simps)
qed simp

lemma unat_sub_of_nat: "k \<le> unat len \<Longrightarrow> unat (len - of_nat k) = unat len - k" for len :: u16
proof -
  assume k: "k \<le> unat len"
  have "k < 2 ^ 16" using k unsigned_less [of len, where 'a = nat] by simp
  then have "unat (of_nat k :: u16) = k" by (simp add: unat_of_nat)
  with k show ?thesis by (simp add: unat_sub word_le_nat_alt)
qed

lemma element_header:
  assumes "length ss < 256" "length vs < 256"
  shows "get_le16 (enc_element (l, ss, vs) @ rest) 0 = l" "unat (byte_at (enc_element (l, ss, vs) @ rest) 2) = length ss"
    "unat (byte_at (enc_element (l, ss, vs) @ rest) 3) = length vs" "4 \<le> length (enc_element (l, ss, vs) @ rest)"
    "drop 4 (enc_element (l, ss, vs) @ rest) = concat (map le16 ss) @ concat (map le_vendor vs) @ rest"
  using assms by (simp_all add: get_le16_def le16_def byte_at_def unat_of_nat)

lemma length_concat_le: "length (concat (map le16 ss)) = 2 * length ss" "length (concat (map le_vendor vs)) = 4 * length vs"
  by (induction ss) (simp_all, induction vs, simp_all)

lemma length_enc: "length (enc_element (l, ss, vs)) = 4 + 2 * length ss + 4 * length vs"
  by (simp add: length_concat_le)

text \<open>An element appended to the node gets its models.\<close>

lemma elements_fresh_index:
  assumes "ele_index ` set es = of_nat ` {..<i}" "i < 256"
  shows "(of_nat i :: u8) \<notin> ele_index ` set es"
proof -
  have "(of_nat i :: u8) \<noteq> of_nat j" if "j < i" for j
    using that assms(2) by (simp add: word_unat_eq_iff unat_of_nat)
  then show ?thesis using assms(1) by auto
qed

lemma comp_elements_run:
  assumes "nodes_wf w" "nref x = next_ref w" "ele_index ` set (elements x) = of_nat ` {..<i}" "i + length ds \<le> 256"
    and "list_all element_fits ds" "length (concat (map enc_element ds)) \<le> unat len"
  shows "comp_elements (Some (next_ref w)) (length ds) i (concat (map enc_element ds)) len (with_node x w) =
    Ret (with_node (x\<lparr>elements := elements x @ elements_of True i ds\<rparr>) w, True)"
  using assms(2-6)
proof (induction ds arbitrary: x i len)
  case (Cons d ds)
  obtain l ss vs where d: "d = (l, ss, vs)" by (cases d)
  have fit: "length ss < 256" "length vs < 256" using Cons.prems(4) by (simp_all add: d)
  let ?rest = "concat (map enc_element ds)"
  note h = element_header [OF fit, of l ?rest]
  let ?e0 = "\<lparr>models = [], loc = l, ele_index = of_nat i\<rparr>"
  let ?x0 = "x\<lparr>elements := elements x @ [?e0]\<rparr>"
  let ?x1 = "?x0\<lparr>elements := elements x @ [?e0\<lparr>models := foldl add_model [] (map (\<lambda>s. ucast s + 0xffff0000) ss)\<rparr>]\<rparr>"
  let ?x2 = "x\<lparr>elements := elements x @ [element_of True i d]\<rparr>"
  have fresh: "(of_nat i :: u8) \<notin> ele_index ` set (elements x)" using Cons.prems(2,3) by (intro elements_fresh_index) auto
  have L: "4 + 2 * length ss + 4 * length vs + length ?rest \<le> unat len" using Cons.prems(5) by (simp add: d length_concat_le)
  have l1: "unat (len - 2) = unat len - 2" using unat_sub_of_nat [of 2 len] L by simp
  have l2: "unat (len - 2 - of_nat (2 * length ss)) = unat len - 2 - 2 * length ss"
    using unat_sub_of_nat [of "2 * length ss" "len - 2"] l1 L by simp
  have l3: "unat (len - 2 - of_nat (2 * length ss) - of_nat (4 * length vs)) = unat len - 2 - 2 * length ss - 4 * length vs"
    using unat_sub_of_nat [of "4 * length vs" "len - 2 - of_nat (2 * length ss)"] l2 L by simp
  have new: "upd_node (next_ref w) (\<lambda>nd. nd\<lparr>elements := elements nd @ [?e0]\<rparr>) (with_node x w) = with_node ?x0 w"
    using with_node_facts(2) [OF assms(1) Cons.prems(1)] .
  have m1: "comp_models 2 (\<lambda>d. ucast (get_le16 d 0) OR 0xffff0000) (Some (next_ref w)) (of_nat i) (length ss)
      (concat (map le16 ss) @ concat (map le_vendor vs) @ ?rest) (len - 2) (with_node ?x0 w) =
      Ret (with_node ?x1 w, True, concat (map le_vendor vs) @ ?rest, len - 2 - of_nat (2 * length ss))"
    using comp_models_run [of le16 2 "\<lambda>d. ucast (get_le16 d 0) OR 0xffff0000" "\<lambda>s. ucast s + 0xffff0000" w ?x0 "elements x" ?e0 "of_nat i" ss "len - 2"]
      assms(1) Cons.prems(1) fresh l1 L by (simp add: sig_id)
  have m2: "comp_models 4 (\<lambda>d. ucast (get_le16 d 2) OR push_bit 16 (ucast (get_le16 d 0))) (Some (next_ref w)) (of_nat i) (length vs)
      (concat (map le_vendor vs) @ ?rest) (len - 2 - of_nat (2 * length ss)) (with_node ?x1 w) =
      Ret (with_node ?x2 w, True, ?rest, len - 2 - of_nat (2 * length ss) - of_nat (4 * length vs))"
    using comp_models_run [of le_vendor 4 "\<lambda>d. ucast (get_le16 d 2) OR push_bit 16 (ucast (get_le16 d 0))" "\<lambda>v. v" w ?x1 "elements x"
        "?e0\<lparr>models := foldl add_model [] (map (\<lambda>s. ucast s + 0xffff0000) ss)\<rparr>" "of_nat i" vs "len - 2 - of_nat (2 * length ss)" ?rest]
      assms(1) Cons.prems(1) fresh l2 L by (simp add: vendor_id element_of_def d)
  have idx: "ele_index ` set (elements ?x2) = of_nat ` {..<Suc i}"
    using Cons.prems(2) by (auto simp: lessThan_Suc element_of_def)
  have ih: "comp_elements (Some (next_ref w)) (length ds) (Suc i) ?rest (len - 2 - of_nat (2 * length ss) - of_nat (4 * length vs)) (with_node ?x2 w) =
      Ret (with_node (?x2\<lparr>elements := elements ?x2 @ elements_of True (Suc i) ds\<rparr>) w, True)"
    by (rule Cons.IH [OF _ idx]) (use Cons.prems l3 L in simp_all)
  have "comp_elements (Some (next_ref w)) (Suc (length ds)) i (enc_element d @ ?rest) len (with_node x w) =
      Ret (with_node (x\<lparr>elements := elements x @ elements_of True i (d # ds)\<rparr>) w, True)"
    unfolding d comp_elements.simps h Let_def option.sel new m1 using h(4) ih m2 by (simp add: d)
  then show ?case by simp
qed simp

section \<open>The composition in the document\<close>

text \<open>The entry of an element, as \<open>db_elements\<close> writes it.\<close>

fun comp_jelement :: "'j json_c \<Rightarrow> nat \<times> element_data \<Rightarrow> 'j" where
  "comp_jelement J (i, l, ss, vs) =
     j_add J (put_uint16 J (j_add J (j_new_object J) ''elementIndex'' (j_new_int J (int i))) ''location'' l) ''models''
       (foldl (put_uint32_array_entry J) (foldl (put_uint16_array_entry J) (j_new_array J) ss) vs)"

lemma db_elements_run:
  assumes "list_all element_fits ds" "length (concat (map enc_element ds)) \<le> unat len"
  shows "db_elements J (length ds) i (concat (map enc_element ds)) len a =
    Ret (foldl (\<lambda>a x. j_append J a (comp_jelement J x)) a (enumerate i ds))"
  using assms
proof (induction ds arbitrary: i len a)
  case (Cons d ds)
  obtain l ss vs where d: "d = (l, ss, vs)" by (cases d)
  have fit: "length ss < 256" "length vs < 256" using Cons.prems(1) by (simp_all add: d)
  let ?rest = "concat (map enc_element ds)"
  note h = element_header [OF fit, of l ?rest]
  have L: "4 + 2 * length ss + 4 * length vs + length ?rest \<le> unat len" using Cons.prems(2) by (simp add: d length_concat_le)
  have l1: "unat (len - 4) = unat len - 4" using unat_sub_of_nat [of 4 len] L by simp
  have l2: "unat (len - 4 - of_nat (2 * length ss)) = unat len - 4 - 2 * length ss"
    using unat_sub_of_nat [of "2 * length ss" "len - 4"] l1 L by simp
  have l3: "unat (len - 4 - of_nat (2 * length ss) - of_nat (4 * length vs)) = unat len - 4 - 2 * length ss - 4 * length vs"
    using unat_sub_of_nat [of "4 * length vs" "len - 4 - of_nat (2 * length ss)"] l2 L by simp
  have m1: "db_models 2 (\<lambda>a b. put_uint16_array_entry J a (get_le16 b 0)) (length ss)
      (concat (map le16 ss) @ concat (map le_vendor vs) @ ?rest) (len - 4) a =
      Ret (foldl (put_uint16_array_entry J) a ss, concat (map le_vendor vs) @ ?rest, len - 4 - of_nat (2 * length ss))" for a
    using db_models_run [of le16 2 "\<lambda>a b. put_uint16_array_entry J a (get_le16 b 0)" "put_uint16_array_entry J" ss "len - 4"] l1 L
    by simp
  have m2: "db_models 4 (\<lambda>a b. put_uint32_array_entry J a (ucast (get_le16 b 2) OR push_bit 16 (ucast (get_le16 b 0)))) (length vs)
      (concat (map le_vendor vs) @ ?rest) (len - 4 - of_nat (2 * length ss)) a =
      Ret (foldl (put_uint32_array_entry J) a vs, ?rest, len - 4 - of_nat (2 * length ss) - of_nat (4 * length vs))" for a
    using db_models_run [of le_vendor 4 "\<lambda>a b. put_uint32_array_entry J a (ucast (get_le16 b 2) OR push_bit 16 (ucast (get_le16 b 0)))"
        "put_uint32_array_entry J" vs "len - 4 - of_nat (2 * length ss)"] l2 L
    by (simp add: vendor_id)
  have ih: "db_elements J (length ds) (Suc i) ?rest (len - 4 - of_nat (2 * length ss) - of_nat (4 * length vs)) a =
      Ret (foldl (\<lambda>a x. j_append J a (comp_jelement J x)) a (enumerate (Suc i) ds))" for a
    by (rule Cons.IH) (use Cons.prems(1) l3 L in simp_all)
  have "db_elements J (Suc (length ds)) i (enc_element d @ ?rest) len a =
      Ret (foldl (\<lambda>a x. j_append J a (comp_jelement J x)) a (enumerate i (d # ds)))"
    unfolding d db_elements.simps h Let_def m1 using h(4) ih by (simp add: m2 d del: of_nat_mult enumerate_simps) (simp add: d)
  then show ?case by simp
qed simp

context json_lib
begin

lemma comp_models_items:
  "j_is_array J (foldl (put_uint32_array_entry J) (foldl (put_uint16_array_entry J) (j_new_array J) ss) vs)"
  "j_items J (foldl (put_uint32_array_entry J) (foldl (put_uint16_array_entry J) (j_new_array J) ss) vs) =
     map (\<lambda>s. Some (j_new_string J (hex_pad 4 (unat s)))) ss @ map (\<lambda>v. Some (j_new_string J (hex_pad 8 (unat v)))) vs"
  using foldl_append_items [OF new_array, of "\<lambda>s. j_new_string J (hex_pad 4 (unat s))" ss]
    foldl_append_items [of "foldl (put_uint16_array_entry J) (j_new_array J) ss" "\<lambda>v. j_new_string J (hex_pad 8 (unat v))" vs]
  by (simp_all add: put_uint16_array_entry_def [abs_def] put_uint32_array_entry_def [abs_def])

text \<open>Identifiers are read as they were written.\<close>

lemma composition_models_fold:
  assumes "list_all2 (\<lambda>x i. \<exists>s. x = Some (j_new_string J s) \<and> text_model_id s = Some i) xs ids"
  shows "composition_models J r index xs w = Ret (foldl (\<lambda>w i. fst (node_set_model (Some r) (of_int index) i w)) w ids, True)"
  using assms by (induction xs ids arbitrary: w rule: list_all2_induct) (auto simp: c_string_def)

lemma comp_models_named:
  "list_all2 (\<lambda>x i. \<exists>s. x = Some (j_new_string J s) \<and> text_model_id s = Some i)
     (map (\<lambda>s. Some (j_new_string J (hex_pad 4 (unat s)))) ss @ map (\<lambda>v. Some (j_new_string J (hex_pad 8 (unat v)))) vs)
     (element_ids (l, ss, vs))"
  by (simp, intro list_all2_appendI) (auto simp: list_all2_map1 list_all2_map2 intro!: list.rel_refl text_model_id_pad)

lemma composition_element_read:
  assumes "nodes_wf w" "nref x = next_ref w" "ele_index ` set (elements x) = of_nat ` {..<i}" "i < n" "n \<le> 255"
  shows "composition_elements J (next_ref w) (int n) (Some (comp_jelement J (i, d)) # js) (with_node x w) =
    composition_elements J (next_ref w) (int n) js (with_node (x\<lparr>elements := elements x @ [element_of False i d]\<rparr>) w)"
proof -
  obtain l ss vs where d: "d = (l, ss, vs)" by (cases d)
  have fresh: "(of_nat i :: u8) \<notin> ele_index ` set (elements x)" using assms(3-5) by (intro elements_fresh_index) auto
  then have none: "find_element x (of_nat i) = None" by (force simp: find_element_def find_None_iff)
  have idx: "j_get_int J (Some (j_new_int J (int i))) = int i" using assms(4,5) by (intro int_new_nonneg) simp_all
  let ?e0 = "\<lparr>models = [], loc = 0, ele_index = of_nat i\<rparr>"
  let ?x0 = "x\<lparr>elements := elements x @ [?e0]\<rparr>"
  have set: "node_set_element (Some (next_ref w)) (of_nat i) (with_node x w) = (with_node ?x0 w, True)"
    using with_node_facts(1,2) [OF assms(1,2)] none assms(2) by (simp add: node_set_element_def)
  have "composition_models J (next_ref w) (int i)
      (map (\<lambda>s. Some (j_new_string J (hex_pad 4 (unat s)))) ss @ map (\<lambda>v. Some (j_new_string J (hex_pad 8 (unat v)))) vs) (with_node ?x0 w) =
      Ret (with_node (?x0\<lparr>elements := elements x @ [?e0\<lparr>models := foldl add_model [] (element_ids d)\<rparr>]\<rparr>) w, True)"
    using composition_models_fold [OF comp_models_named [of ss vs l], of "next_ref w" "int i" "with_node ?x0 w"]
      set_models_last [OF assms(1) refl, of ?x0 "elements x" ?e0 "of_nat i" "element_ids d"] assms(2) fresh
    by (simp only: d) simp
  then show ?thesis using idx set assms(4)
    by (simp add: d put_uint16_def parse_composition_models_def comp_models_items element_of_def Let_def)
qed

lemma composition_elements_read:
  assumes "nodes_wf w" "nref x = next_ref w" "ele_index ` set (elements x) = of_nat ` {..<i}" "i + length ds \<le> n" "n \<le> 255"
  shows "composition_elements J (next_ref w) (int n) (map (\<lambda>x. Some (comp_jelement J x)) (enumerate i ds)) (with_node x w) =
    Ret (with_node (x\<lparr>elements := elements x @ elements_of False i ds\<rparr>) w, True)"
  using assms(2-4)
proof (induction ds arbitrary: x i)
  case (Cons d ds)
  let ?x = "x\<lparr>elements := elements x @ [element_of False i d]\<rparr>"
  have "ele_index ` set (elements ?x) = of_nat ` {..<Suc i}"
    using Cons.prems(2) by (auto simp: lessThan_Suc element_of_def)
  moreover have "composition_elements J (next_ref w) (int n) (Some (comp_jelement J (i, d)) # js) (with_node x w) =
      composition_elements J (next_ref w) (int n) js (with_node ?x w)" for js
    using Cons.prems by (intro composition_element_read [OF assms(1) _ _ _ assms(5)]) simp_all
  ultimately show ?case using Cons.IH [of ?x "Suc i"] Cons.prems by (simp del: composition_elements.simps)
qed simp

text \<open>What is read of a composition that was written: all but one of the features.\<close>

lemma composition_read:
  assumes "nodes_wf w" "nref x = next_ref w" "comp x = None" "elements x = []" "length ds \<le> 255"
  shows "parse_node_composition J (next_ref w)
      (composition_json J c (foldl (\<lambda>a x. j_append J a (comp_jelement J x)) (j_new_array J) (enumerate 0 ds))) (with_node x w) =
    Ret (with_node (x\<lparr>comp := Some (c\<lparr>lpn := False\<rparr>), num_ele := of_nat (length ds), elements := elements_of False 0 ds\<rparr>) w, True)"
proof -
  let ?a = "foldl (\<lambda>a x. j_append J a (comp_jelement J x)) (j_new_array J) (enumerate 0 ds)"
  let ?x = "x\<lparr>comp := Some (c\<lparr>lpn := False\<rparr>)\<rparr>"
  have a: "j_is_array J ?a" "j_items J ?a = map (\<lambda>x. Some (comp_jelement J x)) (enumerate 0 ds)"
    using foldl_append_items [OF new_array, of "comp_jelement J" "enumerate 0 ds"] by simp_all
  have len: "j_length J ?a = length ds" using length_items [of ?a] unfolding a(2) by simp
  have feat: "parse_features J (features_json J c) (cid c) (pid c) (vid c) (crpl c) = c\<lparr>lpn := False\<rparr>"
    by (simp add: parse_features_def features_json_def)
  have set: "node_set_composition (Some (next_ref w)) (Some (c\<lparr>lpn := False\<rparr>)) (with_node x w) = (with_node ?x w, True)"
    using with_node_facts(1,2) [OF assms(1,2)] assms(2,3) by (simp add: node_set_composition_def)
  have num: "node_set_num_elements (next_ref w) (of_nat (length ds)) (with_node ?x w) =
      with_node (?x\<lparr>num_ele := of_nat (length ds)\<rparr>) w"
    using with_node_facts(2) [OF assms(1), of ?x] assms(2) by (simp add: node_set_num_elements_def)
  have "parse_composition_elements J (next_ref w) ?a (with_node ?x w) =
      Ret (with_node (x\<lparr>comp := Some (c\<lparr>lpn := False\<rparr>), num_ele := of_nat (length ds), elements := elements_of False 0 ds\<rparr>) w, True)"
    using composition_elements_read [OF assms(1), of "?x\<lparr>num_ele := of_nat (length ds)\<rparr>" 0 ds "length ds"] assms(2,4,5)
    by (simp add: parse_composition_elements_def a len num)
  then show ?thesis using feat set
    by (simp add: parse_node_composition_def comp_field_def composition_json_def put_uint16_def c_string_def)
qed

end

text \<open>The fields of the header of composition data.\<close>

definition header_composition :: "bytes \<Rightarrow> mesh_node_composition" where
  "header_composition hdr =
     (let features = get_le16 hdr 9 in
      \<lparr>relay = (features AND 1 \<noteq> 0), proxy = (features AND 2 \<noteq> 0), lpn = (features AND 8 \<noteq> 0),
       friend = (features AND 4 \<noteq> 0), cid = get_le16 hdr 1, pid = get_le16 hdr 3, vid = get_le16 hdr 5, crpl = get_le16 hdr 7\<rparr>)"

lemma composition_parsed:
  assumes "nodes_wf w" "nref x = next_ref w" "elements x = []" "num_ele x = of_nat (length ds)" "length ds \<le> 255"
    and "list_all element_fits ds" "length hdr = 11" "length (hdr @ concat (map enc_element ds)) < 65536"
  shows "node_parse_composition (next_ref w) (hdr @ concat (map enc_element ds)) (of_nat (length (hdr @ concat (map enc_element ds)))) (with_node x w) =
    Ret (with_node (x\<lparr>elements := elements_of True 0 ds, comp := Some (header_composition hdr)\<rparr>) w, True)"
proof -
  let ?ds = "concat (map enc_element ds)"
  let ?x = "x\<lparr>elements := elements_of True 0 ds\<rparr>"
  have n: "unat (num_ele x) = length ds" using assms(4,5) by (simp add: unat_of_nat)
  have "unat (of_nat (length ?ds) :: u16) = length ?ds" using assms(7,8) by (simp add: unat_of_nat)
  then have run: "comp_elements (Some (next_ref w)) (length ds) 0 ?ds (of_nat (length ?ds)) (with_node x w) = Ret (with_node ?x w, True)"
    using comp_elements_run [OF assms(1,2), of 0 ds "of_nat (length ?ds)"] assms(3,5,6) by simp
  have "(of_nat (length (hdr @ ?ds)) - 1 - 10 :: u16) = of_nat (length ?ds)" using assms(7) by simp
  moreover have "get_le16 (drop 1 (hdr @ ?ds)) k = get_le16 hdr (k + 1)" if "k \<le> 8" for k
    using that assms(7) by (simp add: get_le16_def byte_at_def nth_append)
  moreover have "drop 10 (drop 1 (hdr @ ?ds)) = ?ds" "11 \<le> length (hdr @ ?ds)" using assms(7) by simp_all
  ultimately show ?thesis
    using with_node_facts(1,2) [OF assms(1,2)] with_node_facts(2) [OF assms(1), of ?x] assms(2,7) run n
    by (simp add: node_parse_composition_def header_composition_def Let_def del: drop_append of_nat_add length_append)
qed

text \<open>
  C27. The composition of a node survives a restart. From the same octets of composition
  data \<open>node_parse_composition\<close> fills the node in memory, and \<open>prov_db_add_node_composition\<close>
  writes an entry from which \<open>parse_node_composition\<close>, at the next start, gives a node
  with the same models under the same elements and the same features and numbers. Two
  things are lost: whether the node is a low power node, which is written as \<^verbatim>\<open>lpn\<close> and
  looked for as \<^verbatim>\<open>lowPower\<close>, and the location of each element, which is not read.
\<close>

theorem composition_reads_back:
  assumes "json_lib J" "nodes_wf w" "nref x = next_ref w" "elements x = []" "num_ele x = of_nat (length ds)" "length ds \<le> 255"
    and "list_all element_fits ds" "length hdr = 11" "data = hdr @ concat (map enc_element ds)" "length data < 65536"
    and "prov_filename d = Some f" "writable d f" "db_load J (prov_filename d) d = Some jmain"
    and "find_node_by_primary J jmain (primary x) = Ret (Some p)" "jat J p jmain = Some jnode" "j_is_object J jnode"
    and "nodes_wf v" "nref y = next_ref v" "elements y = []" "comp y = None"
  shows "\<exists>x' d' jmain' jcomp y'.
    node_parse_composition (next_ref w) data (of_nat (length data)) (with_node x w) = Ret (with_node x' w, True) \<and>
    prov_db_add_node_composition J (with_node x' w) (next_ref w) data (of_nat (length data)) d = Ret (d', True) \<and>
    db_load J (prov_filename d') d' = Some jmain' \<and> jat J (p @ [Member ''composition'']) jmain' = Some jcomp \<and>
    parse_node_composition J (next_ref v) jcomp (with_node y v) = Ret (with_node y' v, True) \<and>
    length (elements x') = length ds \<and> num_ele y' = num_ele x' \<and>
    comp y' = map_option (\<lambda>c. c\<lparr>lpn := False\<rparr>) (comp x') \<and>
    elements y' = map (\<lambda>e. e\<lparr>loc := 0\<rparr>) (elements x')"
proof -
  note lib = assms(1)
  let ?c = "header_composition hdr"
  let ?x = "x\<lparr>elements := elements_of True 0 ds, comp := Some ?c\<rparr>"
  let ?jc = "composition_json J ?c (foldl (\<lambda>a x. j_append J a (comp_jelement J x)) (j_new_array J) (enumerate 0 ds))"
  let ?jn = "j_add J jnode ''composition'' ?jc"
  let ?y = "y\<lparr>comp := Some (?c\<lparr>lpn := False\<rparr>), num_ele := of_nat (length ds), elements := elements_of False 0 ds\<rparr>"
  have parsed: "node_parse_composition (next_ref w) data (of_nat (length data)) (with_node x w) = Ret (with_node ?x w, True)"
    unfolding assms(9) by (rule composition_parsed) (use assms in simp_all)
  obtain d' where d': "db_save J (jset J p ?jn jmain) False d = Ret (d', True)" "db_load J (prov_filename d') d' = Some (jset J p ?jn jmain)"
    using json_lib.save_load [OF lib, of False d f] assms(11,12) by (auto simp: db_file_def)
  have written: "db_elements J (unat (num_ele ?x)) 0 (drop 11 data) (of_nat (length data) - 11) (j_new_array J) =
      Ret (foldl (\<lambda>a x. j_append J a (comp_jelement J x)) (j_new_array J) (enumerate 0 ds))"
    using db_elements_run [OF assms(7), of "of_nat (length data) - 11" J 0] assms(5,6,8-10) by (simp add: unat_of_nat)
  have saved: "prov_db_add_node_composition J (with_node ?x w) (next_ref w) data (of_nat (length data)) d = Ret (d', True)"
    using with_node_facts(1) [OF assms(2), of ?x] assms(3,13-16) written d'(1)
    by (simp add: prov_db_add_node_composition_def db_update_def db_file_def)
  have at: "jat J (p @ [Member ''composition'']) (jset J p ?jn jmain) = Some ?jc"
    using json_lib.jat_jset_below [OF lib, of p jmain "[Member ''composition'']" ?jn] assms(15) json_lib.get_add [OF lib assms(16)] by simp
  have "parse_node_composition J (next_ref v) ?jc (with_node y v) = Ret (with_node ?y v, True)"
    by (rule json_lib.composition_read [OF lib]) (use assms in simp_all)
  moreover have "length (elements_of b i ds) = length ds" "elements_of False i ds = map (\<lambda>e. e\<lparr>loc := 0\<rparr>) (elements_of True i ds)" for b i
    by (induction ds arbitrary: i) (simp_all add: element_of_def)
  ultimately show ?thesis using parsed saved d'(2) at assms(5)
    by (intro exI [of _ ?x] exI [of _ d'] exI [of _ "jset J p ?jn jmain"] exI [of _ ?jc] exI [of _ ?y]) simp
qed

text \<open>A low power node with one element, of two SIG models and a vendor model.\<close>

definition demo_elements :: "element_data list" where
  "demo_elements = [(0x0100, [0, 0x1000], [0x12345678])]"

definition demo_header :: bytes where
  "demo_header = [0, 0x34, 0x12, 1, 0, 2, 0, 10, 0, 9, 0]"

theorem composition_reads_back_witness:
  "\<exists>x' d' jmain' jcomp y'.
     node_parse_composition 3 (demo_header @ concat (map enc_element demo_elements)) 23
       (with_node ((blank_node 3)\<lparr>primary := 5, num_ele := 1\<rparr>) demo_config) = Ret (with_node x' demo_config, True) \<and>
     prov_db_add_node_composition json_impl (with_node x' demo_config) 3 (demo_header @ concat (map enc_element demo_elements)) 23 demo_db = Ret (d', True) \<and>
     db_load json_impl (prov_filename d') d' = Some jmain' \<and>
     jat json_impl [Member ''nodes'', Item 0, Member ''composition''] jmain' = Some jcomp \<and>
     parse_node_composition json_impl 3 jcomp (with_node (blank_node 3) demo_config) = Ret (with_node y' demo_config, True) \<and>
     length (elements x') = 1 \<and> elements y' = map (\<lambda>e. e\<lparr>loc := 0\<rparr>) (elements x')"
proof -
  let ?x = "(blank_node 3)\<lparr>primary := 5, num_ele := 1\<rparr>"
  let ?data = "demo_header @ concat (map enc_element demo_elements)"
  have x: "nref ?x = next_ref demo_config" "elements ?x = []" "num_ele ?x = of_nat (length demo_elements)"
    by (simp_all add: blank_node_def demo_next_ref demo_elements_def)
  have y: "nref (blank_node 3) = next_ref demo_config" "elements (blank_node 3) = []" "comp (blank_node 3) = None"
    by (simp_all add: blank_node_def demo_next_ref)
  have data: "length demo_elements \<le> 255" "list_all element_fits demo_elements" "length demo_header = 11" "length ?data = 23"
    by (simp_all add: demo_elements_def demo_header_def)
  have load: "db_load json_impl (prov_filename demo_db) demo_db = Some demo_prov" by (simp add: demo_db_facts)
  have find: "find_node_by_primary json_impl demo_prov (primary ?x) = Ret (Some [Member ''nodes'', Item 0])"
    using demo_doc_facts(6) by simp
  have small: "length ?data < 65536" using data(4) by simp
  have len: "length demo_elements = 1" by (simp add: demo_elements_def)
  show ?thesis
    using composition_reads_back [OF json_values.json_lib_axioms demo_config_facts(11) x data(1-3) refl small demo_db_facts(1,3) load
        find demo_doc_facts(5,2) demo_config_facts(11) y,
        unfolded data(4) demo_next_ref len of_nat_numeral append_Cons append_Nil] by blast
qed

end
