(* ===== verification/Mesh_Main.thy ===== *)
theory Mesh_Main
  imports Mesh_DbComp Mesh_Gatt Mesh_Prov
begin

text \<open>
  The connections of \<^verbatim>\<open>mesh/main.c\<close>: which device the program connects to, what it does when a
  connection is there, and what follows when a device has been provisioned.

  D-Bus proxies are numbers. What the bus says of them is the record \<open>dbus\<close>; calls of
  methods go to \<open>app_out\<close> with the reply that the code waits for, and each reply and each signal is
  an operation of its own. What is printed is left out.
\<close>

section \<open>The bus\<close>

text \<open>The UUIDs that the code compares with.\<close>

datatype mesh_uuid = Prov_svc | Proxy_svc | Prov_data_in | Prov_data_out | Proxy_data_in | Proxy_data_out | Other_uuid

text \<open>An entry of the property \<^verbatim>\<open>ServiceData\<close>; the code gives up at an entry that is not of octets.\<close>

datatype service_entry = Service mesh_uuid bytes | Bad_entry

datatype reply =
    No_reply
  | Connect_reply nat
  | Start_discovery_reply
  | Prov_disconn_reply nat
  | Disconn_reply "nat option"
  | Notify_prov_out "nat option"
  | Notify_proxy_out "nat option"
  | Disc_notify reply

datatype main_effect =
    Method_call nat string reply
  | Start_notify nat bool reply
  | Discovery_filter mesh_uuid
  | Get_composition u16

record dbus =
  service_data :: "nat \<Rightarrow> service_entry list option"
  has_address :: "nat \<Rightarrow> bool"
  has_alias :: "nat \<Rightarrow> bool"
  uuid_of :: "nat \<Rightarrow> mesh_uuid option"
  path_of :: "nat \<Rightarrow> string \<Rightarrow> nat option"
  value_of :: "nat \<Rightarrow> bytes option"
  has_notifying :: "nat \<Rightarrow> bool"
  call_ok :: "nat \<Rightarrow> string \<Rightarrow> bool"
  notify_ok :: "nat \<Rightarrow> bool \<Rightarrow> bool"

section \<open>The state\<close>

definition CONN_TYPE_NETWORK :: u8 where "CONN_TYPE_NETWORK = 0x00"
definition CONN_TYPE_IDENTITY :: u8 where "CONN_TYPE_IDENTITY = 0x01"
definition CONN_TYPE_PROVISION :: u8 where "CONN_TYPE_PROVISION = 0x02"
definition CONN_TYPE_INVALID :: u8 where "CONN_TYPE_INVALID = 0xff"

definition NET_IDX_PRIMARY :: u16 where "NET_IDX_PRIMARY = 0"

record mesh_device =
  md_proxy :: nat
  md_uuid :: bytes
  md_hide :: bool

record adapter =
  ad_proxy :: nat
  mesh_devices :: "mesh_device list"

record connection =
  con_device :: "nat option"
  con_service :: "nat option"
  con_data_in :: "nat option"
  con_data_out :: "nat option"
  con_session_open :: bool
  con_unicast :: u16
  con_net_idx :: u16
  con_dev_uuid :: bytes
  con_type :: u8

record 'w app =
  conn :: connection
  ctrl_list :: "adapter list"
  default_ctrl :: "nat option"
  service_list :: "nat list"
  char_list :: "nat list"
  discovering :: bool
  discover_mesh :: bool
  prov_net_key_index :: u16
  app_gatt :: gatt_state
  app_db :: db
  mesh :: 'w
  app_out :: "main_effect list"

text \<open>\<^verbatim>\<open>memset(&connection, 0, sizeof(connection))\<close>.\<close>

definition no_connection :: connection where
  "no_connection = \<lparr>con_device = None, con_service = None, con_data_in = None, con_data_out = None, con_session_open = False,
     con_unicast = 0, con_net_idx = 0, con_dev_uuid = replicate 16 0, con_type = 0\<rparr>"

definition upd_conn :: "(connection \<Rightarrow> connection) \<Rightarrow> 'w app \<Rightarrow> 'w app" where
  "upd_conn f a = a\<lparr>conn := f (conn a)\<rparr>"

definition out :: "main_effect \<Rightarrow> 'w app \<Rightarrow> 'w app" where
  "out e a = a\<lparr>app_out := app_out a @ [e]\<rparr>"

text \<open>A call of a method, and whether it could be sent.\<close>

definition method_call :: "dbus \<Rightarrow> nat \<Rightarrow> string \<Rightarrow> reply \<Rightarrow> 'w app \<Rightarrow> 'w app" where
  "method_call D p m r a = (if call_ok D p m then out (Method_call p m r) a else a)"

text \<open>A call of the default controller, which the code dereferences without a check.\<close>

definition ctrl_call :: "dbus \<Rightarrow> string \<Rightarrow> reply \<Rightarrow> 'w app \<Rightarrow> 'w app cres" where
  "ctrl_call D m r a = (case default_ctrl a of None \<Rightarrow> Fault | Some c \<Rightarrow> Ret (method_call D c m r a))"

definition set_scan_filter_uuids :: "dbus \<Rightarrow> mesh_uuid \<Rightarrow> 'w app \<Rightarrow> 'w app cres" where
  "set_scan_filter_uuids D u a =
     (case default_ctrl a of None \<Rightarrow> Fault
      | Some c \<Rightarrow> Ret (if call_ok D c ''SetDiscoveryFilter'' then out (Discovery_filter u) a else a))"

definition upd_adapter :: "nat \<Rightarrow> (adapter \<Rightarrow> adapter) \<Rightarrow> 'w app \<Rightarrow> 'w app" where
  "upd_adapter p f a = a\<lparr>ctrl_list := update_first (\<lambda>x. ad_proxy x = p) f (ctrl_list a)\<rparr>"

definition forget_mesh_devices :: "'w app \<Rightarrow> 'w app cres" where
  "forget_mesh_devices a =
     (case default_ctrl a of None \<Rightarrow> Fault | Some c \<Rightarrow> Ret (upd_adapter c (\<lambda>x. x\<lparr>mesh_devices := []\<rparr>) a))"

definition find_device_by_uuid :: "mesh_device list \<Rightarrow> bytes \<Rightarrow> mesh_device option" where
  "find_device_by_uuid source uuid = find (\<lambda>d. md_uuid d = uuid) source"

text \<open>The variable of the loop hides the parameter: each device is compared with itself.\<close>

definition find_device_by_proxy :: "mesh_device list \<Rightarrow> nat \<Rightarrow> mesh_device option" where
  "find_device_by_proxy source prx = find (\<lambda>d. let prx = md_proxy d in md_proxy d = prx) source"

definition device_is_child :: "dbus \<Rightarrow> nat \<Rightarrow> nat option \<Rightarrow> bool" where
  "device_is_child D device master =
     (case master of None \<Rightarrow> False | Some m \<Rightarrow> path_of D device ''Adapter'' = Some m)"

definition find_parent :: "dbus \<Rightarrow> nat \<Rightarrow> 'w app \<Rightarrow> adapter option" where
  "find_parent D device a = find (\<lambda>x. device_is_child D device (Some (ad_proxy x))) (ctrl_list a)"

definition mesh_gatt_is_child :: "dbus \<Rightarrow> nat \<Rightarrow> nat option \<Rightarrow> string \<Rightarrow> bool" where
  "mesh_gatt_is_child D prx parent name =
     (case parent of None \<Rightarrow> False | Some p \<Rightarrow> path_of D prx name = Some p)"

text \<open>Without a wanted UUID, a service passes when it differs from one of the two.\<close>

definition service_is_mesh :: "dbus \<Rightarrow> nat \<Rightarrow> mesh_uuid option \<Rightarrow> bool" where
  "service_is_mesh D prx target =
     (case uuid_of D prx of None \<Rightarrow> False
      | Some u \<Rightarrow> (case target of Some t \<Rightarrow> u = t | None \<Rightarrow> u \<noteq> Prov_svc \<or> u \<noteq> Proxy_svc))"

definition char_is_mesh :: "dbus \<Rightarrow> nat \<Rightarrow> mesh_uuid option \<Rightarrow> bool" where
  "char_is_mesh D prx target =
     (case uuid_of D prx of None \<Rightarrow> False
      | Some u \<Rightarrow> (case target of Some t \<Rightarrow> u = t
          | None \<Rightarrow> u = Prov_data_in \<or> u = Prov_data_out \<or> u = Proxy_data_in \<or> u = Proxy_data_out))"

section \<open>Service data\<close>

definition parse_prov_service_data :: "bytes \<Rightarrow> (bytes \<times> u16) option" where
  "parse_prov_service_data d = (if length d < 18 then None else Some (sub_bytes d 0 16, get_be16 d 16))"

definition parse_mesh_service_data :: "af_alg \<Rightarrow> bytes \<Rightarrow> 'a world_scheme app \<Rightarrow> bool cres" where
  "parse_mesh_service_data A d a =
     (if \<not> (length d = 9 \<and> byte_at d 0 = 0x00) \<and> \<not> (length d = 17 \<and> byte_at d 0 = 0x01) then Ret False
      else if byte_at d 0 \<noteq> con_type (conn a) then Ret False
      else if byte_at d 0 = CONN_TYPE_IDENTITY then
        (if IS_UNASSIGNED (con_unicast (conn a)) then Ret False
         else (case keys_net_key_get (keys (mesh a)) (prov_net_key_index a) True of
             None \<Rightarrow> Ret False
           | Some k \<Rightarrow>
               (case mesh_crypto_identity_check A k (con_unicast (conn a)) (drop 1 d) of
                  Ret _ \<Rightarrow> Ret True | Fail \<Rightarrow> Ret False | Fault \<Rightarrow> Fault)))
      else if byte_at d 0 = CONN_TYPE_NETWORK then
        (let net_idx = net_validate_proxy_beacon (keys (mesh a)) (drop 1 d)
         in Ret (net_idx \<noteq> NET_IDX_INVALID \<and> net_idx = con_net_idx (conn a)))
      else Ret True)"

fun service_entries :: "service_entry list \<Rightarrow> mesh_uuid \<Rightarrow> bytes option" where
  "service_entries [] target = None"
| "service_entries (Bad_entry # es) target = None"
| "service_entries (Service u d # es) target = (if u = target then Some d else service_entries es target)"

definition parse_service_data :: "dbus \<Rightarrow> nat \<Rightarrow> mesh_uuid \<Rightarrow> bytes option" where
  "parse_service_data D prx target =
     (case service_data D prx of None \<Rightarrow> None | Some es \<Rightarrow> service_entries es target)"

section \<open>Devices\<close>

text \<open>A device that was advertised with provisioning data.\<close>

definition prov_device_found :: "nat \<Rightarrow> bytes \<Rightarrow> u16 \<Rightarrow> adapter \<Rightarrow> 'a world_scheme app \<Rightarrow> 'a world_scheme app" where
  "prov_device_found prx uuid ob ad a =
     (case find_device_by_uuid (mesh_devices ad) uuid of
        Some _ \<Rightarrow>
          upd_adapter (ad_proxy ad) (\<lambda>x. x\<lparr>mesh_devices := update_first (\<lambda>d. md_uuid d = uuid)
            (\<lambda>d. d\<lparr>md_proxy := prx, md_hide := discovering a\<rparr>) (mesh_devices x)\<rparr>) a
      | None \<Rightarrow>
          let a1 = upd_adapter (ad_proxy ad) (\<lambda>x. x\<lparr>mesh_devices := mesh_devices x @
                     [\<lparr>md_proxy = prx, md_uuid = uuid, md_hide = discovering a\<rparr>]\<rparr>) a
          in a1\<lparr>mesh := fst (node_create_new ob uuid (mesh a1))\<rparr>)"

definition mesh_device_found :: "dbus \<Rightarrow> nat \<Rightarrow> 'w app \<Rightarrow> 'w app cres" where
  "mesh_device_found D prx a =
     cbind (ctrl_call D ''StopDiscovery'' No_reply a) (\<lambda>a1.
     cbind (forget_mesh_devices (a1\<lparr>discover_mesh := False\<rparr>)) (\<lambda>a2.
       Ret (method_call D prx ''Connect'' (Connect_reply prx) a2)))"

definition update_device_info :: "dbus \<Rightarrow> af_alg \<Rightarrow> nat \<Rightarrow> 'a world_scheme app \<Rightarrow> 'a world_scheme app cres" where
  "update_device_info D A prx a =
     (case find_parent D prx a of
        None \<Rightarrow> Ret a
      | Some ad \<Rightarrow>
          if Some (ad_proxy ad) \<noteq> default_ctrl a \<or> \<not> has_address D prx then Ret a
          else
            (case Option.bind (parse_service_data D prx Prov_svc) parse_prov_service_data of
               Some (uuid, ob) \<Rightarrow> Ret (prov_device_found prx uuid ob ad a)
             | None \<Rightarrow>
                 cbind (case parse_service_data D prx Proxy_svc of
                          None \<Rightarrow> Ret False | Some d \<Rightarrow> parse_mesh_service_data A d a) (\<lambda>ours.
                   if ours \<and> discover_mesh a then mesh_device_found D prx a else Ret a)))"

text \<open>
  The name of a connected device is read from an iterator that was not set, when the device
  has none and the connection is one to a mesh.
\<close>

definition set_connected_device :: "dbus \<Rightarrow> nat option \<Rightarrow> 'w app \<Rightarrow> 'w app cres" where
  "set_connected_device D prx a =
     (case prx of
        None \<Rightarrow> Ret (a\<lparr>conn := no_connection\<lparr>con_type := CONN_TYPE_INVALID\<rparr>\<rparr>)
      | Some p \<Rightarrow>
          let on_mesh = (con_type (conn a) = CONN_TYPE_IDENTITY \<or> con_type (conn a) = CONN_TYPE_NETWORK)
          in cguard (has_alias D p \<or> \<not> on_mesh) (Ret (upd_conn (\<lambda>c. c\<lparr>con_device := Some p\<rparr>) a)))"

definition connect_reply :: "dbus \<Rightarrow> bool \<Rightarrow> nat \<Rightarrow> 'w app \<Rightarrow> 'w app cres" where
  "connect_reply D failed prx a = set_connected_device D (if failed then None else Some prx) a"

definition adapter_added :: "nat \<Rightarrow> 'w app \<Rightarrow> 'w app" where
  "adapter_added prx a =
     a\<lparr>ctrl_list := ctrl_list a @ [\<lparr>ad_proxy = prx, mesh_devices = []\<rparr>],
       default_ctrl := (case default_ctrl a of None \<Rightarrow> Some prx | Some c \<Rightarrow> Some c)\<rparr>"

section \<open>Connections\<close>

definition disconnect :: "dbus \<Rightarrow> reply \<Rightarrow> 'w app \<Rightarrow> 'w app cres" where
  "disconnect D cb a =
     (case con_device (conn a) of
        None \<Rightarrow> Ret a
      | Some p \<Rightarrow>
          if \<not> call_ok D p ''Disconnect'' then Ret a
          else cguard (has_address D p) (Ret (out (Method_call p ''Disconnect'' cb) a)))"

definition disc_notify_cb :: "dbus \<Rightarrow> reply \<Rightarrow> 'w app \<Rightarrow> 'w app cres" where
  "disc_notify_cb D cb a = disconnect D cb a"

definition close_session :: "'a world_scheme app \<Rightarrow> 'a world_scheme app cres" where
  "close_session a = cbind (net_session_close (con_data_in (conn a)) (mesh a)) (\<lambda>w. Ret (a\<lparr>mesh := w\<rparr>))"

definition disconnect_device :: "dbus \<Rightarrow> reply \<Rightarrow> 'a world_scheme app \<Rightarrow> 'a world_scheme app cres" where
  "disconnect_device D cb a =
     cbind (close_session a) (\<lambda>a1.
       (case con_data_out (conn a1) of
          Some p \<Rightarrow>
            if has_notifying D p \<and> notify_ok D p False then Ret (out (Start_notify p False (Disc_notify cb)) a1)
            else disconnect D cb a1
        | None \<Rightarrow> disconnect D cb a1))"

text \<open>The replies of the notifications get the node as it was when they were asked for.\<close>

definition data_out_notify ::
  "dbus \<Rightarrow> nat \<Rightarrow> bool \<Rightarrow> (nat option \<Rightarrow> reply) \<Rightarrow> 'a world_scheme app \<Rightarrow> 'a world_scheme app" where
  "data_out_notify D prx enable cb a =
     (if notify_ok D prx enable then
        out (Start_notify prx enable (cb (node_find_by_uuid (mesh a) (con_dev_uuid (conn a))))) a
      else a)"

definition notify_prov_out_cb ::
  "dbus \<Rightarrow> prov_env \<Rightarrow> bool \<Rightarrow> nat option \<Rightarrow> 'a pworld_scheme app \<Rightarrow> 'a pworld_scheme app cres" where
  "notify_prov_out_cb D E failed node a =
     (if failed \<or> con_type (conn a) \<noteq> CONN_TYPE_PROVISION then Ret a
      else (case (con_data_in (conn a), node) of
          (Some data_in, Some r) \<Rightarrow>
            cbind (prov_open E r data_in (prov_net_key_index a) True (mesh a)) (\<lambda>(w, done).
              if done then Ret (a\<lparr>mesh := w\<rparr>)
              else disconnect_device D No_reply (a\<lparr>mesh := node_free (Some r) w\<rparr>))
        | _ \<Rightarrow> Ret a))"

definition session_open_cb :: "dbus \<Rightarrow> nat \<Rightarrow> 'a world_scheme app \<Rightarrow> 'a world_scheme app cres" where
  "session_open_cb D status a =
     (if status \<noteq> 0 then disconnect_device D No_reply a
      else Ret (if con_type (conn a) = CONN_TYPE_IDENTITY then out (Get_composition (con_unicast (conn a))) a else a))"

definition notify_proxy_out_cb :: "bool \<Rightarrow> 'a world_scheme app \<Rightarrow> 'a world_scheme app cres" where
  "notify_proxy_out_cb failed a =
     (if failed \<or> con_type (conn a) \<noteq> CONN_TYPE_IDENTITY \<and> con_type (conn a) \<noteq> CONN_TYPE_NETWORK then Ret a
      else (case con_data_in (conn a) of None \<Rightarrow> Ret a
        | Some data_in \<Rightarrow>
            cbind (net_session_open data_in True True (mesh a)) (\<lambda>(w, _).
              Ret (upd_conn (\<lambda>c. c\<lparr>con_session_open := True\<rparr>) (a\<lparr>mesh := w\<rparr>)))))"

definition get_characteristic :: "dbus \<Rightarrow> nat option \<Rightarrow> mesh_uuid \<Rightarrow> 'w app \<Rightarrow> nat option" where
  "get_characteristic D device char_uuid a =
     (let svc_uuid = (if con_type (conn a) = CONN_TYPE_PROVISION then Prov_svc else Proxy_svc)
      in (case find (\<lambda>s. mesh_gatt_is_child D s device ''Device'' \<and> service_is_mesh D s (Some svc_uuid)) (service_list a) of
            None \<Rightarrow> None
          | Some s \<Rightarrow>
              find (\<lambda>x. mesh_gatt_is_child D x (Some s) ''Service'' \<and> char_is_mesh D x (Some char_uuid)) (char_list a)))"

text \<open>The two characteristics, and the notifications of the second.\<close>

definition setup_data ::
  "dbus \<Rightarrow> nat option \<Rightarrow> mesh_uuid \<Rightarrow> mesh_uuid \<Rightarrow> (nat option \<Rightarrow> reply) \<Rightarrow> 'a world_scheme app \<Rightarrow> 'a world_scheme app" where
  "setup_data D prx uin uout cb a =
     (let din = get_characteristic D prx uin a; a1 = upd_conn (\<lambda>c. c\<lparr>con_data_in := din\<rparr>) a
      in if din = None then a1
         else let dout = get_characteristic D prx uout a1; a2 = upd_conn (\<lambda>c. c\<lparr>con_data_out := dout\<rparr>) a1
           in (case dout of None \<Rightarrow> a2 | Some p \<Rightarrow> data_out_notify D p True cb a2))"

definition mesh_session_setup :: "dbus \<Rightarrow> nat option \<Rightarrow> 'a world_scheme app \<Rightarrow> 'a world_scheme app" where
  "mesh_session_setup D prx a =
     (if con_type (conn a) = CONN_TYPE_PROVISION then setup_data D prx Prov_data_in Prov_data_out Notify_prov_out a
      else if con_type (conn a) \<noteq> CONN_TYPE_INVALID then setup_data D prx Proxy_data_in Proxy_data_out Notify_proxy_out a
      else a)"

section \<open>Signals of the bus\<close>

datatype interface = Device1 | Adapter1 | GattService1 | GattCharacteristic1

definition device_removed :: "dbus \<Rightarrow> nat \<Rightarrow> 'w app \<Rightarrow> 'w app cres" where
  "device_removed D prx a =
     (case find_parent D prx a of
        None \<Rightarrow> Ret a
      | Some ad \<Rightarrow>
          let a1 = (case find_device_by_proxy (mesh_devices ad) prx of None \<Rightarrow> a
                    | Some d \<Rightarrow> upd_adapter (ad_proxy ad) (\<lambda>x. x\<lparr>mesh_devices := remove1 d (mesh_devices x)\<rparr>) a)
          in if con_device (conn a1) = Some prx then set_connected_device D None a1 else Ret a1)"

definition adapter_removed :: "dbus \<Rightarrow> nat \<Rightarrow> 'w app \<Rightarrow> 'w app cres" where
  "adapter_removed D prx a =
     (case find (\<lambda>x. ad_proxy x = prx) (ctrl_list a) of
        None \<Rightarrow> Ret a
      | Some ad \<Rightarrow>
          cbind (if default_ctrl a = Some prx then set_connected_device D None (a\<lparr>default_ctrl := None\<rparr>) else Ret a) (\<lambda>a1.
            Ret (a1\<lparr>ctrl_list := delete_first (\<lambda>x. ad_proxy x = prx) (ctrl_list a1)\<rparr>)))"

definition proxy_added :: "dbus \<Rightarrow> af_alg \<Rightarrow> interface \<Rightarrow> nat \<Rightarrow> 'a world_scheme app \<Rightarrow> 'a world_scheme app cres" where
  "proxy_added D A i prx a =
     (case i of
        Device1 \<Rightarrow> update_device_info D A prx a
      | Adapter1 \<Rightarrow> Ret (adapter_added prx a)
      | GattService1 \<Rightarrow> Ret (if service_is_mesh D prx None then a\<lparr>service_list := service_list a @ [prx]\<rparr> else a)
      | GattCharacteristic1 \<Rightarrow> Ret (if char_is_mesh D prx None then a\<lparr>char_list := char_list a @ [prx]\<rparr> else a))"

definition service_removed :: "dbus \<Rightarrow> nat \<Rightarrow> 'a world_scheme app \<Rightarrow> 'a world_scheme app cres" where
  "service_removed D prx a =
     (if con_service (conn a) = Some prx then
        cbind (if service_is_mesh D prx (Some Proxy_svc) then
                 (case con_data_out (conn a) of None \<Rightarrow> Fault
                  | Some p \<Rightarrow> close_session (data_out_notify D p False (\<lambda>_. No_reply) a))
               else Ret a) (\<lambda>a1.
          Ret (upd_conn (\<lambda>c. c\<lparr>con_service := None, con_data_in := None, con_data_out := None\<rparr>) a1))
      else Ret a)"

definition proxy_removed :: "dbus \<Rightarrow> interface \<Rightarrow> nat \<Rightarrow> 'a world_scheme app \<Rightarrow> 'a world_scheme app cres" where
  "proxy_removed D i prx a =
     (case i of
        Device1 \<Rightarrow> device_removed D prx a
      | Adapter1 \<Rightarrow> adapter_removed D prx a
      | GattService1 \<Rightarrow> cbind (service_removed D prx a) (\<lambda>a1. Ret (a1\<lparr>service_list := remove1 prx (service_list a1)\<rparr>))
      | GattCharacteristic1 \<Rightarrow> Ret (a\<lparr>char_list := remove1 prx (char_list a)\<rparr>))"

text \<open>The value is copied into a buffer of 256 octets before its length is looked at.\<close>

definition process_mesh_characteristic where
  "process_mesh_characteristic D E tx recv prx a =
     (case (uuid_of D prx, value_of D prx) of
        (Some u, Some v) \<Rightarrow>
          if u \<noteq> Prov_data_out \<and> u \<noteq> Proxy_data_out then Ret (a, False)
          else cguard (length v \<le> 256)
            (if v = [] \<or> length v > 69 then Ret (a, False)
             else
               let (g, pdu) = mesh_gatt_sar (app_gatt a) v; a1 = a\<lparr>app_gatt := g\<rparr> in
               (case pdu of
                  None \<Rightarrow> Ret (a1, False)
                | Some res \<Rightarrow>
                    if res = [] then Ret (a1, False)
                    else if u = Prov_data_out then
                      (case node_find_by_uuid (mesh a1) (con_dev_uuid (conn a1)) of
                         None \<Rightarrow> Ret (a1, False)
                       | Some r \<Rightarrow> cbind (prov_data_ready E r res (mesh a1)) (\<lambda>(w, done). Ret (a1\<lparr>mesh := w\<rparr>, done)))
                    else
                      cbind (net_data_ready tx recv res (of_nat (length res)) (mesh a1)) (\<lambda>(w, done). Ret (a1\<lparr>mesh := w\<rparr>, done))))
      | _ \<Rightarrow> Ret (a, False))"

datatype property =
    Connected bool
  | Alias
  | Service_data
  | Services_resolved bool
  | Discovering bool
  | Characteristic_value

definition device_changed :: "dbus \<Rightarrow> af_alg \<Rightarrow> nat \<Rightarrow> property \<Rightarrow> 'a world_scheme app \<Rightarrow> 'a world_scheme app cres" where
  "device_changed D A prx prop a =
     (case prop of
        Connected c \<Rightarrow>
          if c \<and> con_device (conn a) = None then set_connected_device D (Some prx) a
          else if \<not> c \<and> con_device (conn a) = Some prx then cbind (close_session a) (set_connected_device D None)
          else Ret a
      | Alias \<Rightarrow> if con_device (conn a) = Some prx then set_connected_device D (Some prx) a else Ret a
      | Service_data \<Rightarrow> update_device_info D A prx a
      | Services_resolved r \<Rightarrow> Ret (if r then mesh_session_setup D (con_device (conn a)) a else a)
      | _ \<Rightarrow> Ret a)"

definition property_changed where
  "property_changed D E tx recv i prx prop a =
     (case i of
        Device1 \<Rightarrow>
          if default_ctrl a \<noteq> None \<and> device_is_child D prx (default_ctrl a) then device_changed D (p_alg E) prx prop a else Ret a
      | Adapter1 \<Rightarrow> Ret (case prop of Discovering t \<Rightarrow> a\<lparr>discovering := t\<rparr> | _ \<Rightarrow> a)
      | GattService1 \<Rightarrow> Ret a
      | GattCharacteristic1 \<Rightarrow>
          if prop = Characteristic_value \<and> (con_type (conn a) = CONN_TYPE_PROVISION \<or> con_session_open (conn a))
          then cbind (process_mesh_characteristic D E tx recv prx a) (\<lambda>(a1, _). Ret a1)
          else Ret a)"

section \<open>Commands\<close>

definition cmd_scan_unprovisioned :: "dbus \<Rightarrow> int \<Rightarrow> 'w app \<Rightarrow> 'w app cres" where
  "cmd_scan_unprovisioned D onoff a =
     cbind (if onoff = 1 then set_scan_filter_uuids D Prov_svc (a\<lparr>discover_mesh := False\<rparr>) else Ret a) (\<lambda>a1.
       ctrl_call D (if onoff = 1 then ''StartDiscovery'' else ''StopDiscovery'') Start_discovery_reply a1)"

text \<open>The looking for a network or a node, with the connection set; the discovery is started twice.\<close>

definition start_looking :: "dbus \<Rightarrow> 'w app \<Rightarrow> 'w app cres" where
  "start_looking D a =
     cbind (if discovering a then ctrl_call D ''StopDiscovery'' No_reply a else Ret a) (\<lambda>a1.
     cbind (set_scan_filter_uuids D Proxy_svc a1) (\<lambda>a2.
       let t = (if con_unicast (conn a2) = UNASSIGNED_ADDRESS then CONN_TYPE_NETWORK else CONN_TYPE_IDENTITY) in
       cbind (ctrl_call D ''StartDiscovery'' Start_discovery_reply (upd_conn (\<lambda>c. c\<lparr>con_type := t\<rparr>) (a2\<lparr>discover_mesh := True\<rparr>)))
         (\<lambda>a3. if (case default_ctrl a3 of None \<Rightarrow> False | Some c \<Rightarrow> call_ok D c ''StartDiscovery'')
               then ctrl_call D ''StartDiscovery'' No_reply a3 else Ret a3)))"

definition cmd_connect :: "dbus \<Rightarrow> string list \<Rightarrow> 'w app \<Rightarrow> 'w app cres" where
  "cmd_connect D argv a =
     (if default_ctrl a = None then Ret a
      else if length argv < 2 \<or> argv ! 1 = [] then
        start_looking D (a\<lparr>conn := no_connection\<lparr>con_net_idx := NET_IDX_PRIMARY\<rparr>\<rparr>)
      else
        let (n, used) = strtol16 (argv ! 1) in
        if used = 0 then Ret (a\<lparr>conn := no_connection\<lparr>con_net_idx := NET_IDX_INVALID\<rparr>\<rparr>)
        else start_looking D (a\<lparr>conn := no_connection\<lparr>con_net_idx := of_int n,
               con_unicast := (if length argv > 2 then of_int (fst (strtol16 (argv ! 2))) else 0)\<rparr>\<rparr>))"

definition prov_disconn_reply :: "dbus \<Rightarrow> bool \<Rightarrow> nat \<Rightarrow> 'a world_scheme app \<Rightarrow> 'a world_scheme app cres" where
  "prov_disconn_reply D failed node a =
     (if failed then Ret a
      else
        cbind (set_connected_device D None a) (\<lambda>a1.
        cbind (set_scan_filter_uuids D Proxy_svc a1) (\<lambda>a2.
          (case node_at (mesh a2) node of None \<Rightarrow> Fault
           | Some n \<Rightarrow>
               ctrl_call D ''StartDiscovery'' Start_discovery_reply
                 (upd_conn (\<lambda>c. c\<lparr>con_type := CONN_TYPE_IDENTITY, con_data_in := None, con_data_out := None, con_unicast := primary n\<rparr>)
                   (a2\<lparr>discover_mesh := True\<rparr>))))))"

definition disconn_reply :: "dbus \<Rightarrow> bool \<Rightarrow> nat option \<Rightarrow> 'w app \<Rightarrow> 'w app cres" where
  "disconn_reply D failed prx a =
     (if failed \<or> prx \<noteq> con_device (conn a) then Ret a else set_connected_device D None a)"

definition cmd_disconn :: "dbus \<Rightarrow> 'a world_scheme app \<Rightarrow> 'a world_scheme app cres" where
  "cmd_disconn D a =
     (let a1 = (if con_type (conn a) = CONN_TYPE_PROVISION
                then a\<lparr>mesh := node_free (node_find_by_uuid (mesh a) (con_dev_uuid (conn a))) (mesh a)\<rparr> else a)
      in disconnect_device D (Disconn_reply (con_device (conn a1))) a1)"

text \<open>The callback of the end of provisioning, which \<^verbatim>\<open>prov.c\<close> calls with the node and the status.\<close>

definition mesh_prov_done ::
  "'j json_c \<Rightarrow> dbus \<Rightarrow> nat \<Rightarrow> nat \<Rightarrow> 'a world_scheme app \<Rightarrow> 'a world_scheme app cres" where
  "mesh_prov_done J D node status a =
     (if status \<noteq> 0 then disconnect_device D No_reply (a\<lparr>mesh := node_free (Some node) (mesh a)\<rparr>)
      else
        cbind (prov_db_add_new_node J (mesh a) node (app_db a)) (\<lambda>(d, _).
          disconnect_device D (Prov_disconn_reply node) (a\<lparr>app_db := d\<rparr>)))"

text \<open>A UUID of more than 32 digits is reported as an error, and written behind the 16 octets there is room for.\<close>

definition cmd_start_prov :: "dbus \<Rightarrow> string \<Rightarrow> 'a world_scheme app \<Rightarrow> 'a world_scheme app cres" where
  "cmd_start_prov D uuid a =
     cbind (disconnect_device D No_reply a) (\<lambda>a1.
       let written = str2hex_written uuid 0 (length uuid div 2) in
       cguard (length written \<le> 16)
         (let id = memcpy (replicate 16 0) 0 written; a2 = upd_conn (\<lambda>c. c\<lparr>con_dev_uuid := id\<rparr>) a1 in
          (case Option.bind (node_find_by_uuid (mesh a2) id) (node_at (mesh a2)) of
             None \<Rightarrow> Ret a2
           | Some n \<Rightarrow>
               if node_is_provisioned n then Ret a2
               else (case Option.bind (default_ctrl a2) (\<lambda>c. find (\<lambda>x. ad_proxy x = c) (ctrl_list a2)) of
                   None \<Rightarrow> Fault
                 | Some ad \<Rightarrow>
                     (case find_device_by_uuid (mesh_devices ad) id of
                        None \<Rightarrow> Ret (upd_conn (\<lambda>c. c\<lparr>con_dev_uuid := replicate 16 0\<rparr>) a2)
                      | Some dev \<Rightarrow>
                          cbind (if discovering a2 then ctrl_call D ''StopDiscovery'' No_reply a2 else Ret a2) (\<lambda>a3.
                          cbind (forget_mesh_devices a3) (\<lambda>a4.
                            Ret (method_call D (md_proxy dev) ''Connect'' (Connect_reply (md_proxy dev))
                              (upd_conn (\<lambda>c. c\<lparr>con_type := CONN_TYPE_PROVISION\<rparr>) a4)))))))))"

text \<open>The level is cut to eight bits when it is set.\<close>

definition cmd_security :: "int \<Rightarrow> 'a pworld_scheme app \<Rightarrow> 'a pworld_scheme app \<times> bool" where
  "cmd_security lvl a = (let (w, done) = prov_set_sec_level (of_int lvl) (mesh a) in (a\<lparr>mesh := w\<rparr>, done))"

section \<open>The main loop\<close>

text \<open>
  The function that is called when a call is answered, with or without an error. The reply of
  \<^verbatim>\<open>StartDiscovery\<close> only prints, and the end of the notifications is not looked at.
\<close>

definition reply_to :: "dbus \<Rightarrow> prov_env \<Rightarrow> bool \<Rightarrow> reply \<Rightarrow> 'a pworld_scheme app \<Rightarrow> 'a pworld_scheme app cres" where
  "reply_to D E failed r a =
     (case r of
        No_reply \<Rightarrow> Ret a
      | Connect_reply prx \<Rightarrow> connect_reply D failed prx a
      | Start_discovery_reply \<Rightarrow> Ret a
      | Prov_disconn_reply node \<Rightarrow> prov_disconn_reply D failed node a
      | Disconn_reply prx \<Rightarrow> disconn_reply D failed prx a
      | Notify_prov_out node \<Rightarrow> notify_prov_out_cb D E failed node a
      | Notify_proxy_out _ \<Rightarrow> notify_proxy_out_cb failed a
      | Disc_notify cb \<Rightarrow> disc_notify_cb D cb a)"

fun reply_of :: "main_effect \<Rightarrow> reply" where
  "reply_of (Method_call p m r) = r"
| "reply_of (Start_notify p on r) = r"
| "reply_of (Discovery_filter u) = No_reply"
| "reply_of (Get_composition u) = No_reply"

text \<open>The calls from the \<open>k\<close>th on are answered in their order, each with the reply it asked for.\<close>

fun answer_all :: "dbus \<Rightarrow> prov_env \<Rightarrow> nat \<Rightarrow> nat \<Rightarrow> 'a pworld_scheme app \<Rightarrow> (nat \<times> 'a pworld_scheme app) cres" where
  "answer_all D E 0 k a = Ret (k, a)"
| "answer_all D E (Suc n) k a =
     (if k < length (app_out a) then cbind (reply_to D E False (reply_of (app_out a ! k)) a) (answer_all D E n (Suc k)) else Ret (k, a))"

text \<open>
  What the daemon does for the controller \<open>c\<close> and the device \<open>dev\<close> after the calls: the filter it looks with,
  whether it looks, and whether the device is connected.
\<close>

definition daemon_call :: "nat \<Rightarrow> nat \<Rightarrow> main_effect \<Rightarrow> mesh_uuid option \<times> bool \<times> bool \<Rightarrow> mesh_uuid option \<times> bool \<times> bool" where
  "daemon_call c dev e s =
     (case (e, s) of
        (Discovery_filter u, (flt, scan, link)) \<Rightarrow> (Some u, scan, link)
      | (Method_call p m r, (flt, scan, link)) \<Rightarrow>
          if p = c \<and> m = ''StartDiscovery'' then (flt, True, link)
          else if p = c \<and> m = ''StopDiscovery'' then (flt, False, link)
          else if p = dev \<and> m = ''Connect'' then (flt, scan, True)
          else if p = dev \<and> m = ''Disconnect'' then (flt, scan, False)
          else s
      | _ \<Rightarrow> s)"

text \<open>
  What the main loop calls: signals of the bus, replies, the callbacks that were given to the network layer and
  to provisioning, and the commands that have to do with connections.
\<close>

datatype main_event =
    Proxy_added interface nat
  | Proxy_removed interface nat
  | Property_changed interface nat property
  | Replied bool reply
  | Session_opened nat
  | Prov_done nat nat
  | Cmd_scan_unprovisioned int
  | Cmd_connect "string list"
  | Cmd_disconn
  | Cmd_start_prov string
  | Cmd_security int

definition main_handle where
  "main_handle J D E tx recv ev a =
     (case ev of
        Proxy_added i prx \<Rightarrow> proxy_added D (p_alg E) i prx a
      | Proxy_removed i prx \<Rightarrow> proxy_removed D i prx a
      | Property_changed i prx prop \<Rightarrow> property_changed D E tx recv i prx prop a
      | Replied failed r \<Rightarrow> reply_to D E failed r a
      | Session_opened status \<Rightarrow> session_open_cb D status a
      | Prov_done node status \<Rightarrow> mesh_prov_done J D node status a
      | Cmd_scan_unprovisioned onoff \<Rightarrow> cmd_scan_unprovisioned D onoff a
      | Cmd_connect argv \<Rightarrow> cmd_connect D argv a
      | Cmd_disconn \<Rightarrow> cmd_disconn D a
      | Cmd_start_prov uuid \<Rightarrow> cmd_start_prov D uuid a
      | Cmd_security lvl \<Rightarrow> Ret (fst (cmd_security lvl a)))"

end
