(* ===== verification/Mesh_MainProps.thy ===== *)
theory Mesh_MainProps
  imports Mesh_Main
begin

text \<open>
  What \<^verbatim>\<open>mesh/main.c\<close> connects to, what follows when a node was provisioned, and two commands and
  signals that do what they should not.
\<close>

lemmas conn_types = CONN_TYPE_NETWORK_def CONN_TYPE_IDENTITY_def CONN_TYPE_PROVISION_def CONN_TYPE_INVALID_def

lemma app_conn_simps [simp]:
  "conn (upd_conn f a) = f (conn a)" "mesh (upd_conn f a) = mesh a" "app_out (upd_conn f a) = app_out a"
  "ctrl_list (upd_conn f a) = ctrl_list a" "default_ctrl (upd_conn f a) = default_ctrl a" "app_db (upd_conn f a) = app_db a"
  "service_list (upd_conn f a) = service_list a" "char_list (upd_conn f a) = char_list a"
  "discovering (upd_conn f a) = discovering a" "discover_mesh (upd_conn f a) = discover_mesh a"
  "prov_net_key_index (upd_conn f a) = prov_net_key_index a"
  by (simp_all add: upd_conn_def)

lemma app_out_simps [simp]:
  "conn (out e a) = conn a" "mesh (out e a) = mesh a" "app_out (out e a) = app_out a @ [e]"
  "ctrl_list (out e a) = ctrl_list a" "default_ctrl (out e a) = default_ctrl a" "app_db (out e a) = app_db a"
  "service_list (out e a) = service_list a" "char_list (out e a) = char_list a"
  "discovering (out e a) = discovering a" "discover_mesh (out e a) = discover_mesh a"
  "prov_net_key_index (out e a) = prov_net_key_index a"
  by (simp_all add: out_def)

lemma app_adapter_simps [simp]:
  "conn (upd_adapter p f a) = conn a" "mesh (upd_adapter p f a) = mesh a" "app_out (upd_adapter p f a) = app_out a"
  "default_ctrl (upd_adapter p f a) = default_ctrl a" "app_db (upd_adapter p f a) = app_db a"
  "service_list (upd_adapter p f a) = service_list a" "char_list (upd_adapter p f a) = char_list a"
  "discovering (upd_adapter p f a) = discovering a" "discover_mesh (upd_adapter p f a) = discover_mesh a"
  "prov_net_key_index (upd_adapter p f a) = prov_net_key_index a"
  by (simp_all add: upd_adapter_def)

section \<open>Which devices the program connects to\<close>

text \<open>The devices that the controllers list, and steps that neither list one nor connect to one.\<close>

fun connects :: "main_effect \<Rightarrow> bool" where
  "connects (Method_call p m r) \<longleftrightarrow> m = ''Connect''"
| "connects _ \<longleftrightarrow> False"

definition listing :: "adapter \<Rightarrow> (nat \<times> bytes) set" where
  "listing ad = (\<lambda>d. (md_proxy d, md_uuid d)) ` set (mesh_devices ad)"

definition listed :: "'w app \<Rightarrow> (nat \<times> bytes) set" where
  "listed a = \<Union> (listing ` set (ctrl_list a))"

definition calm :: "'w app \<Rightarrow> 'w app \<Rightarrow> bool" where
  "calm a b \<longleftrightarrow> (\<exists>es. app_out b = app_out a @ es \<and> \<not> list_ex connects es) \<and> listed b \<subseteq> listed a"

definition calmly :: "'w app \<Rightarrow> 'w app cres \<Rightarrow> bool" where
  "calmly a m \<longleftrightarrow> (\<forall>b. m = Ret b \<longrightarrow> calm a b)"

named_theorems calm_intros

lemma calmlyD: "calmly a m \<Longrightarrow> m = Ret b \<Longrightarrow> calm a b"
  by (simp add: calmly_def)

lemma calm_refl [simp]: "calm a a"
  by (simp add: calm_def)

lemma calm_trans: "calm a b \<Longrightarrow> calm b c \<Longrightarrow> calm a c"
  by (fastforce simp: calm_def)

lemma calm_after: "calm a b \<Longrightarrow> app_out c = app_out b \<Longrightarrow> ctrl_list c = ctrl_list b \<Longrightarrow> calm a c"
  by (simp add: calm_def listed_def)

lemma calm_fields [calm_intros]:
  assumes "calm a b"
  shows "calm a (upd_conn f b)" "calm a (b\<lparr>conn := c\<rparr>)" "calm a (b\<lparr>mesh := w\<rparr>)" "calm a (b\<lparr>app_db := d\<rparr>)" "calm a (b\<lparr>app_gatt := g\<rparr>)"
    "calm a (b\<lparr>discover_mesh := x\<rparr>)" "calm a (b\<lparr>discovering := x\<rparr>)" "calm a (b\<lparr>default_ctrl := y\<rparr>)"
    "calm a (b\<lparr>service_list := ps\<rparr>)" "calm a (b\<lparr>char_list := ps\<rparr>)"
  by (rule calm_after [OF assms]; simp)+

lemma calm_out [calm_intros]: "calm a b \<Longrightarrow> \<not> connects e \<Longrightarrow> calm a (out e b)"
  by (fastforce simp: calm_def listed_def)

lemma calm_call [calm_intros]: "calm a b \<Longrightarrow> m \<noteq> ''Connect'' \<Longrightarrow> calm a (method_call D p m r b)"
  by (simp add: method_call_def calm_out)

lemma update_first_listing:
  "(\<And>x. listing (f x) \<subseteq> listing x \<union> N) \<Longrightarrow> \<Union> (listing ` set (update_first P f xs)) \<subseteq> \<Union> (listing ` set xs) \<union> N"
  by (induction xs) (simp, simp, blast)

lemma upd_adapter_listed:
  "(\<And>x. listing (f x) \<subseteq> listing x \<union> N) \<Longrightarrow> listed (upd_adapter p f a) \<subseteq> listed a \<union> N"
  by (simp add: listed_def upd_adapter_def update_first_listing)

lemma calm_adapter [calm_intros]:
  assumes "calm a b" "\<And>x. set (mesh_devices (f x)) \<subseteq> set (mesh_devices x)"
  shows "calm a (upd_adapter p f b)"
proof -
  have "listing (f x) \<subseteq> listing x \<union> {}" for x using assms(2) [of x] by (auto simp: listing_def)
  from upd_adapter_listed [OF this] assms(1) show ?thesis by (fastforce simp: calm_def)
qed

lemma calmly_basic [calm_intros]:
  "calm a b \<Longrightarrow> calmly a (Ret b)" "calmly a Fault" "calmly a Fail" "(ok \<Longrightarrow> calmly a m) \<Longrightarrow> calmly a (cguard ok m)"
  by (simp_all add: calmly_def)

lemma calmly_bind [calm_intros]: "calmly a m \<Longrightarrow> (\<And>x. calm a x \<Longrightarrow> calmly a (f x)) \<Longrightarrow> calmly a (cbind m f)"
  by (auto simp: calmly_def cbind_Ret_iff)

lemma calmly_pair [calm_intros]: "(\<And>w x. calmly a (f w x)) \<Longrightarrow> calmly a (cbind m (\<lambda>(w, x). f w x))"
  by (auto simp: calmly_def cbind_Ret_iff)

lemma set_connected_device_calm [calm_intros]: "calm a b \<Longrightarrow> calmly a (set_connected_device D prx b)"
  by (auto simp: set_connected_device_def Let_def intro!: calm_intros split: option.split)

lemma ctrl_call_calm [calm_intros]: "calm a b \<Longrightarrow> m \<noteq> ''Connect'' \<Longrightarrow> calmly a (ctrl_call D m r b)"
  by (auto simp: ctrl_call_def intro!: calm_intros split: option.split)

lemma set_scan_filter_uuids_calm [calm_intros]: "calm a b \<Longrightarrow> calmly a (set_scan_filter_uuids D u b)"
  by (auto simp: set_scan_filter_uuids_def intro!: calm_intros split: option.split)

lemma forget_mesh_devices_calm [calm_intros]: "calm a b \<Longrightarrow> calmly a (forget_mesh_devices b)"
  by (auto simp: forget_mesh_devices_def intro!: calm_intros split: option.split)

lemma disconnect_calm [calm_intros]: "calm a b \<Longrightarrow> calmly a (disconnect D r b)"
  by (auto simp: disconnect_def intro!: calm_intros split: option.split)

lemma close_session_calm [calm_intros]: "calm a b \<Longrightarrow> calmly a (close_session b)"
  by (auto simp: close_session_def calmly_def cbind_Ret_iff intro!: calm_intros)

lemma disconnect_device_calm [calm_intros]: "calm a b \<Longrightarrow> calmly a (disconnect_device D r b)"
  by (auto simp: disconnect_device_def intro!: calm_intros split: option.split)

lemma data_out_notify_calm [calm_intros]: "calm a b \<Longrightarrow> calm a (data_out_notify D prx on cb b)"
  by (auto simp: data_out_notify_def intro!: calm_intros)

lemma session_open_cb_calm [calm_intros]: "calm a b \<Longrightarrow> calmly a (session_open_cb D status b)"
  by (auto simp: session_open_cb_def intro!: calm_intros)

lemma notify_prov_out_cb_calm: "calmly a (notify_prov_out_cb D E failed node a)"
  by (auto simp: notify_prov_out_cb_def intro!: calm_intros split: option.split)

lemma notify_proxy_out_cb_calm: "calmly a (notify_proxy_out_cb failed a)"
  by (auto simp: notify_proxy_out_cb_def intro!: calm_intros split: option.split)

lemma prov_disconn_reply_calm: "calmly a (prov_disconn_reply D failed node a)"
  by (auto simp: prov_disconn_reply_def intro!: calm_intros split: option.split)

lemma reply_calm: "calmly a (reply_to D E failed r a)"
  using notify_prov_out_cb_calm notify_proxy_out_cb_calm prov_disconn_reply_calm
  by (auto simp: reply_to_def connect_reply_def disconn_reply_def disc_notify_cb_def intro!: calm_intros split: reply.split)

lemma mesh_session_setup_calm: "calm a (mesh_session_setup D prx a)"
  by (auto simp: mesh_session_setup_def setup_data_def Let_def intro!: calm_intros split: option.split)

lemma delete_first_set: "set (delete_first P xs) \<subseteq> set xs"
  by (induction xs) auto

lemma proxy_removed_calm: "calmly a (proxy_removed D i prx a)"
proof -
  have dev: "calmly a (device_removed D prx a)"
    by (auto simp: device_removed_def Let_def intro!: calm_intros split: option.split dest: set_remove1_subset [THEN subsetD])
  have del: "calm x (y\<lparr>ctrl_list := delete_first P (ctrl_list y)\<rparr>)" if "calm x y" for x y :: "'a world_scheme app" and P
    using that delete_first_set [of P "ctrl_list y"] by (fastforce simp: calm_def listed_def)
  have "calmly a (adapter_removed D prx a)"
    by (auto simp: adapter_removed_def intro!: calm_intros del split: option.split)
  moreover have "calmly a (service_removed D prx a)"
    by (auto simp: service_removed_def intro!: calm_intros split: option.split)
  ultimately show ?thesis using dev by (auto simp: proxy_removed_def intro!: calm_intros split: interface.split)
qed

lemma start_looking_calm [calm_intros]: "calm a b \<Longrightarrow> calmly a (start_looking D b)"
  by (auto simp: start_looking_def Let_def intro!: calm_intros split: option.split)

lemma commands_calm:
  "calmly a (cmd_scan_unprovisioned D onoff a)" "calmly a (cmd_connect D argv a)" "calmly a (cmd_disconn D a)"
  "calmly a (mesh_prov_done J D node status a)"
  by (auto simp: cmd_scan_unprovisioned_def cmd_connect_def cmd_disconn_def mesh_prov_done_def Let_def intro!: calm_intros split: prod.split)

lemma security_calm: "calm a (fst (cmd_security lvl a))"
  by (auto simp: cmd_security_def intro!: calm_intros split: prod.split)

lemma process_mesh_characteristic_calm: "process_mesh_characteristic D E tx recv prx a = Ret (b, ok) \<Longrightarrow> calm a b"
  by (auto simp: process_mesh_characteristic_def cbind_Ret_iff Let_def intro!: calm_intros split: option.splits if_splits prod.splits)

text \<open>A signal that brings the service data of a device, and the device that is advertised as unprovisioned by them.\<close>

definition brings_data :: "nat \<Rightarrow> main_event \<Rightarrow> bool" where
  "brings_data prx ev \<longleftrightarrow> ev = Proxy_added Device1 prx \<or> ev = Property_changed Device1 prx Service_data"

definition unprovisioned_data :: "dbus \<Rightarrow> nat \<Rightarrow> bytes \<Rightarrow> bool" where
  "unprovisioned_data D prx uuid \<longleftrightarrow>
     (\<exists>d ob. parse_service_data D prx Prov_svc = Some d \<and> parse_prov_service_data d = Some (uuid, ob))"

text \<open>
  Service data of the own mesh: the identifier of a stored network key with the index that is looked for,
  or an identity made with the provisioning network key for the address that is looked for.
\<close>

definition own_mesh_data :: "af_alg \<Rightarrow> bytes \<Rightarrow> 'a world_scheme app \<Rightarrow> bool" where
  "own_mesh_data A d a \<longleftrightarrow> byte_at d 0 = con_type (conn a) \<and>
    (con_type (conn a) = CONN_TYPE_IDENTITY \<and> length d = 17 \<and> con_unicast (conn a) \<noteq> 0 \<and>
       (\<exists>k i. keys_net_key_get (keys (mesh a)) (prov_net_key_index a) True = Some k \<and>
          mesh_crypto_identity_check A k (con_unicast (conn a)) (drop 1 d) = Ret i) \<or>
     con_type (conn a) = CONN_TYPE_NETWORK \<and> length d = 9 \<and>
       (\<exists>nk\<in>set (net_keys (keys (mesh a))). nk_idx nk = con_net_idx (conn a) \<and> match_net_id (drop 1 d) nk))"

lemma service_data_accepted: "parse_mesh_service_data A d a = Ret True \<Longrightarrow> own_mesh_data A d a"
proof -
  assume acc: "parse_mesh_service_data A d a = Ret True"
  have "sub_bytes (drop 1 d) 0 8 = drop 1 d" if "length d = 9" using that by (simp add: sub_bytes_eq_take_drop)
  then show ?thesis using acc
    by (auto simp: own_mesh_data_def parse_mesh_service_data_def conn_types IS_UNASSIGNED_def net_validate_proxy_beacon_def find_net_key_by_id_def Let_def
        dest!: find_SomeD split: if_splits option.splits cres.splits)
qed

text \<open>The calls of a step, and what it lists.\<close>

definition new_calls :: "'w app \<Rightarrow> 'w app \<Rightarrow> main_effect set" where
  "new_calls a b = set (drop (length (app_out a)) (app_out b))"

lemma calm_step: "calm a b \<Longrightarrow> Method_call p ''Connect'' r \<notin> new_calls a b" "calm a b \<Longrightarrow> listed b \<subseteq> listed a"
  by (force simp: calm_def new_calls_def list_ex_iff) (simp add: calm_def)

lemma prov_device_found_listed:
  "listed (prov_device_found prx uuid ob ad a) \<subseteq> listed a \<union> {(prx, uuid)}" "app_out (prov_device_found prx uuid ob ad a) = app_out a"
proof -
  have first: "(\<lambda>d. (md_proxy d, md_uuid d)) ` set (update_first (\<lambda>d. md_uuid d = uuid) (\<lambda>d. d\<lparr>md_proxy := prx, md_hide := h\<rparr>) ds) \<subseteq>
      (\<lambda>d. (md_proxy d, md_uuid d)) ` set ds \<union> {(prx, uuid)}" for h ds
    by (induction ds) auto
  have "listed (a\<lparr>mesh := w\<rparr>) = listed a" for a :: "'a world_scheme app" and w by (simp add: listed_def)
  moreover have "listed (upd_adapter (ad_proxy ad) (\<lambda>x. x\<lparr>mesh_devices := update_first (\<lambda>d. md_uuid d = uuid)
      (\<lambda>d. d\<lparr>md_proxy := prx, md_hide := discovering a\<rparr>) (mesh_devices x)\<rparr>) a) \<subseteq> listed a \<union> {(prx, uuid)}"
    using first by (intro upd_adapter_listed) (simp add: listing_def)
  moreover have "listed (upd_adapter (ad_proxy ad) (\<lambda>x. x\<lparr>mesh_devices := mesh_devices x @
      [\<lparr>md_proxy = prx, md_uuid = uuid, md_hide = discovering a\<rparr>]\<rparr>) a) \<subseteq> listed a \<union> {(prx, uuid)}"
    by (intro upd_adapter_listed) (auto simp: listing_def)
  ultimately show "listed (prov_device_found prx uuid ob ad a) \<subseteq> listed a \<union> {(prx, uuid)}"
    by (simp add: prov_device_found_def Let_def split: option.split)
qed (simp add: prov_device_found_def Let_def split: option.split)

lemma method_call_simps [simp]:
  "conn (method_call D p m r a) = conn a" "mesh (method_call D p m r a) = mesh a" "ctrl_list (method_call D p m r a) = ctrl_list a"
  "default_ctrl (method_call D p m r a) = default_ctrl a" "discover_mesh (method_call D p m r a) = discover_mesh a"
  by (simp_all add: method_call_def)

lemma stop_and_forget:
  assumes "(if on then ctrl_call D ''StopDiscovery'' No_reply a else Ret a) = Ret b" "forget_mesh_devices (b\<lparr>discover_mesh := x b\<rparr>) = Ret b'"
  shows "calm a b'" "conn b' = conn a" "mesh b' = mesh a" "discover_mesh b' = x b"
proof -
  have "calmly a (if on then ctrl_call D ''StopDiscovery'' No_reply a else Ret a)" by (auto intro!: calm_intros)
  then have "calm a (b\<lparr>discover_mesh := x b\<rparr>)" using assms(1) by (auto simp: calmly_def intro!: calm_intros)
  from forget_mesh_devices_calm [OF this] assms(2) show "calm a b'" by (simp add: calmly_def)
  show "conn b' = conn a" "mesh b' = mesh a" "discover_mesh b' = x b"
    using assms by (auto simp: ctrl_call_def forget_mesh_devices_def split: if_splits option.splits)
qed

text \<open>A call of \<^verbatim>\<open>Connect\<close> after steps that do not connect.\<close>

lemma connect_call:
  assumes "calm a x" "b = method_call D prx ''Connect'' (Connect_reply prx) x"
  shows "listed b \<subseteq> listed a" "Method_call p ''Connect'' r \<in> new_calls a b \<Longrightarrow> p = prx \<and> r = Connect_reply prx"
  using assms by (auto simp: calm_def method_call_def new_calls_def list_ex_iff listed_def split: if_splits)

lemma mesh_device_found_effects:
  assumes "mesh_device_found D prx a = Ret b"
  shows "\<not> discover_mesh b \<and> conn b = conn a \<and> listed b \<subseteq> listed a \<and>
    (Method_call p ''Connect'' r \<in> new_calls a b \<longrightarrow> p = prx \<and> r = Connect_reply prx)"
proof -
  from assms obtain x y where x: "ctrl_call D ''StopDiscovery'' No_reply a = Ret x" "forget_mesh_devices (x\<lparr>discover_mesh := False\<rparr>) = Ret y"
    "b = method_call D prx ''Connect'' (Connect_reply prx) y" by (auto simp: mesh_device_found_def cbind_Ret_iff)
  with stop_and_forget [of True D a x "\<lambda>_. False" y] connect_call(1) [of a y b D prx] connect_call(2) [of a y b D prx p r] show ?thesis by auto
qed

lemma update_device_info_effects:
  assumes "update_device_info D A prx a = Ret b"
  shows "listed b \<subseteq> listed a \<union> {(prx, u) |u. unprovisioned_data D prx u}"
    and "Method_call p ''Connect'' r \<in> new_calls a b \<Longrightarrow> p = prx \<and> r = Connect_reply prx \<and> discover_mesh a \<and> \<not> discover_mesh b \<and> conn b = conn a \<and>
      (\<exists>d. parse_service_data D prx Proxy_svc = Some d \<and> own_mesh_data A d a)"
proof -
  consider "b = a" | u ob ad where "unprovisioned_data D prx u" "b = prov_device_found prx u ob ad a" |
    d where "parse_service_data D prx Proxy_svc = Some d" "parse_mesh_service_data A d a = Ret True" "discover_mesh a" "mesh_device_found D prx a = Ret b"
    using assms by (auto simp: update_device_info_def cbind_Ret_iff unprovisioned_data_def bind_eq_Some_conv split: option.splits if_splits)
  then have "listed b \<subseteq> listed a \<union> {(prx, u) |u. unprovisioned_data D prx u} \<and>
    (Method_call p ''Connect'' r \<in> new_calls a b \<longrightarrow> p = prx \<and> r = Connect_reply prx \<and> discover_mesh a \<and> \<not> discover_mesh b \<and> conn b = conn a \<and>
      (\<exists>d. parse_service_data D prx Proxy_svc = Some d \<and> own_mesh_data A d a))"
  proof cases
    case 2
    then show ?thesis using prov_device_found_listed [of prx u ob ad a] by (auto simp: new_calls_def)
  next
    case 3
    then show ?thesis using mesh_device_found_effects [of D prx a b p r] service_data_accepted by blast
  qed (simp add: new_calls_def)
  then show "listed b \<subseteq> listed a \<union> {(prx, u) |u. unprovisioned_data D prx u}"
    "Method_call p ''Connect'' r \<in> new_calls a b \<Longrightarrow> p = prx \<and> r = Connect_reply prx \<and> discover_mesh a \<and> \<not> discover_mesh b \<and> conn b = conn a \<and>
      (\<exists>d. parse_service_data D prx Proxy_svc = Some d \<and> own_mesh_data A d a)" by blast+
qed

lemma cmd_start_prov_cases:
  assumes "cmd_start_prov D uuid a = Ret b"
  obtains a1 f where "disconnect_device D No_reply a = Ret a1" "b = upd_conn f a1"
  | a1 a2 ad dev node n x where "disconnect_device D No_reply a = Ret a1" "conn a2 = (conn a1)\<lparr>con_dev_uuid := x\<rparr>" "mesh a2 = mesh a1" "calm a1 a2"
    "node_find_by_uuid (mesh a1) x = Some node" "node_at (mesh a1) node = Some n" "\<not> node_is_provisioned n"
    "ad \<in> set (ctrl_list a1)" "find_device_by_uuid (mesh_devices ad) x = Some dev"
    "b = method_call D (md_proxy dev) ''Connect'' (Connect_reply (md_proxy dev)) (upd_conn (\<lambda>c. c\<lparr>con_type := CONN_TYPE_PROVISION\<rparr>) a2)"
    "x = memcpy (replicate 16 0) 0 (str2hex_written uuid 0 (length uuid div 2))"
proof -
  from assms obtain a1 where a1: "disconnect_device D No_reply a = Ret a1" by (auto simp: cmd_start_prov_def cbind_Ret_iff)
  let ?x = "memcpy (replicate 16 0) 0 (str2hex_written uuid 0 (length uuid div 2))"
  let ?a2 = "upd_conn (\<lambda>c. c\<lparr>con_dev_uuid := ?x\<rparr>) a1"
  have twice: "upd_conn f (upd_conn g a1) = upd_conn (f \<circ> g) a1" for f g by (simp add: upd_conn_def)
  show thesis
  proof (cases "\<exists>f. b = upd_conn f a1")
    case True
    then show thesis using that(1) a1 by blast
  next
    case False
    with assms a1 obtain node n ad dev a3 a4 where s: "node_find_by_uuid (mesh a1) ?x = Some node" "node_at (mesh a1) node = Some n" "\<not> node_is_provisioned n"
      "find (\<lambda>x. Some (ad_proxy x) = default_ctrl a1) (ctrl_list a1) = Some ad" "find_device_by_uuid (mesh_devices ad) ?x = Some dev"
      "(if discovering ?a2 then ctrl_call D ''StopDiscovery'' No_reply ?a2 else Ret ?a2) = Ret a3" "forget_mesh_devices a3 = Ret a4"
      "b = method_call D (md_proxy dev) ''Connect'' (Connect_reply (md_proxy dev)) (upd_conn (\<lambda>c. c\<lparr>con_type := CONN_TYPE_PROVISION\<rparr>) a4)"
      by (auto simp: cmd_start_prov_def cbind_Ret_iff Let_def bind_eq_Some_conv twice split: option.splits if_splits)
    have "calm a1 a3'" if "calm ?a2 a3'" for a3' using that by (simp add: calm_def listed_def)
    with stop_and_forget [of _ D ?a2 a3 discover_mesh a4] s(6,7) have "calm a1 a4" "conn a4 = (conn a1)\<lparr>con_dev_uuid := ?x\<rparr>" "mesh a4 = mesh a1"
      by (simp_all add: upd_conn_def)
    with s find_SomeD [OF s(4)] show thesis using that(2) a1 by blast
  qed
qed

lemma cmd_start_prov_effects:
  assumes "cmd_start_prov D uuid a = Ret b"
  shows "listed b \<subseteq> listed a"
    and "Method_call p ''Connect'' r \<in> new_calls a b \<Longrightarrow> r = Connect_reply p \<and> con_type (conn b) = CONN_TYPE_PROVISION \<and>
      con_dev_uuid (conn b) = memcpy (replicate 16 0) 0 (str2hex_written uuid 0 (length uuid div 2)) \<and> (p, con_dev_uuid (conn b)) \<in> listed a \<and>
      (\<exists>node n. node_find_by_uuid (mesh b) (con_dev_uuid (conn b)) = Some node \<and> node_at (mesh b) node = Some n \<and> \<not> node_is_provisioned n)"
proof -
  have "listed b \<subseteq> listed a \<and> (Method_call p ''Connect'' r \<in> new_calls a b \<longrightarrow> r = Connect_reply p \<and> con_type (conn b) = CONN_TYPE_PROVISION \<and>
      con_dev_uuid (conn b) = memcpy (replicate 16 0) 0 (str2hex_written uuid 0 (length uuid div 2)) \<and> (p, con_dev_uuid (conn b)) \<in> listed a \<and>
      (\<exists>node n. node_find_by_uuid (mesh b) (con_dev_uuid (conn b)) = Some node \<and> node_at (mesh b) node = Some n \<and> \<not> node_is_provisioned n))"
    using assms
  proof (cases rule: cmd_start_prov_cases)
    case (1 a1 f)
    then have "calm a b" using disconnect_device_calm [of a a D No_reply] by (auto simp: calmly_def intro!: calm_intros)
    then show ?thesis using calm_step by blast
  next
    case (2 a1 a2 ad dev node n x)
    then have c: "calm a a1" using disconnect_device_calm [of a a D No_reply] by (auto simp: calmly_def)
    then have "calm a (upd_conn (\<lambda>c. c\<lparr>con_type := CONN_TYPE_PROVISION\<rparr>) a2)" using 2(4) calm_trans by (blast intro: calm_intros)
    note call = connect_call [OF this 2(10)]
    have "(md_proxy dev, x) \<in> listed a1"
      using 2(8,9) by (force simp: listed_def listing_def find_device_by_uuid_def dest!: find_SomeD)
    then have "(md_proxy dev, x) \<in> listed a" using c by (auto simp: calm_def)
    moreover have "conn b = (conn a1)\<lparr>con_dev_uuid := x, con_type := CONN_TYPE_PROVISION\<rparr>" "mesh b = mesh a1" using 2(2,3,10) by simp_all
    ultimately show ?thesis using call(1) call(2) [of p r] 2(5-7,11) by (simp, blast)
  qed
  then show "listed b \<subseteq> listed a"
    "Method_call p ''Connect'' r \<in> new_calls a b \<Longrightarrow> r = Connect_reply p \<and> con_type (conn b) = CONN_TYPE_PROVISION \<and>
      con_dev_uuid (conn b) = memcpy (replicate 16 0) 0 (str2hex_written uuid 0 (length uuid div 2)) \<and> (p, con_dev_uuid (conn b)) \<in> listed a \<and>
      (\<exists>node n. node_find_by_uuid (mesh b) (con_dev_uuid (conn b)) = Some node \<and> node_at (mesh b) node = Some n \<and> \<not> node_is_provisioned n)"
    by blast+
qed

text \<open>
  Runs of the main loop from a start with no device listed. The bus differs from step to step and is remembered
  with the event; between the events the layers below do what they like with their own state.
\<close>

inductive main_run for J E tx recv where
  started: "app_out a = [] \<Longrightarrow> listed a = {} \<Longrightarrow> main_run J E tx recv [] a"
| handled: "main_run J E tx recv h a \<Longrightarrow> main_handle J D E tx recv ev a = Ret b \<Longrightarrow> main_run J E tx recv (h @ [(D, ev)]) b"
| layers: "main_run J E tx recv h a \<Longrightarrow> main_run J E tx recv h (a\<lparr>mesh := w, app_db := d\<rparr>)"

lemma handle_cases:
  assumes "main_handle J D E tx recv ev a = Ret b"
  obtains "calm a b" | prx where "brings_data prx ev" "update_device_info D (p_alg E) prx a = Ret b"
  | uuid where "ev = Cmd_start_prov uuid" "cmd_start_prov D uuid a = Ret b"
proof -
  have added: "calm a (adapter_added prx a)" for prx by (auto simp: adapter_added_def calm_def listed_def listing_def)
  have changed: "calmly a (device_changed D (p_alg E) prx pc a)" if "pc \<noteq> Service_data" for prx pc
    using that by (auto simp: device_changed_def intro!: calm_intros mesh_session_setup_calm split: property.split)
  have other: "calmly a (property_changed D E tx recv i prx pc a)" if "\<not> (i = Device1 \<and> pc = Service_data)" for i prx pc
    using that changed [of pc prx] process_mesh_characteristic_calm [of D E tx recv prx a]
    by (auto simp: property_changed_def calmly_def cbind_Ret_iff intro!: calm_intros split: interface.split property.split)
  have signal: "property_changed D E tx recv i prx pc a = Ret b \<Longrightarrow> calm a b \<or> i = Device1 \<and> pc = Service_data \<and> update_device_info D (p_alg E) prx a = Ret b" for i prx pc
    using other [of i pc prx] by (cases "i = Device1 \<and> pc = Service_data") (auto simp: property_changed_def device_changed_def calmly_def split: if_splits)
  show thesis
  proof (cases "\<exists>prx. brings_data prx ev \<and> update_device_info D (p_alg E) prx a = Ret b")
    case True
    then show thesis using that(2) by blast
  next
    case False
    then have "calm a b \<or> (\<exists>uuid. ev = Cmd_start_prov uuid \<and> cmd_start_prov D uuid a = Ret b)"
      using assms added security_calm
      by (auto simp: main_handle_def brings_data_def proxy_added_def intro!: calm_intros split: main_event.splits interface.splits
          dest: signal calmlyD [OF proxy_removed_calm] calmlyD [OF reply_calm] calmlyD [OF session_open_cb_calm [OF calm_refl]] commands_calm [THEN calmlyD])
    then show thesis using that(1,3) by blast
  qed
qed

lemma listed_was_advertised:
  "main_run J E tx recv h a \<Longrightarrow> (p, u) \<in> listed a \<Longrightarrow> \<exists>(D, ev)\<in>set h. brings_data p ev \<and> unprovisioned_data D p u"
proof (induction rule: main_run.induct)
  case (handled h a D ev b)
  have "(p, u) \<in> listed a \<or> brings_data p ev \<and> unprovisioned_data D p u"
    using handled.hyps(2) handled.prems
    by (cases rule: handle_cases) (blast dest: calm_step(2) update_device_info_effects(1) cmd_start_prov_effects(1))+
  then show ?case using handled.IH by auto
qed (simp_all add: listed_def)


section \<open>After provisioning\<close>

text \<open>A disconnection with an empty queue leaves the connection, the lists and the nodes as they are.\<close>

definition quiet :: "'a world_scheme app \<Rightarrow> 'a world_scheme app \<Rightarrow> bool" where
  "quiet a b \<longleftrightarrow> conn b = conn a \<and> ctrl_list b = ctrl_list a \<and> default_ctrl b = default_ctrl a \<and>
     service_list b = service_list a \<and> char_list b = char_list a \<and> prov_net_key_index b = prov_net_key_index a \<and> app_db b = app_db a \<and>
     nodes (mesh b) = nodes (mesh a) \<and> keys (mesh b) = keys (mesh a) \<and> pkt_out (net (mesh b)) = [] \<and>
     (proxy_in (net (mesh a)) = None \<longrightarrow> proxy_in (net (mesh b)) = None)"

lemma close_session_quiet:
  assumes "pkt_out (net (mesh a)) = []"
  obtains b where "close_session a = Ret b" "quiet a b" "app_out b = app_out a"
proof (rule that)
  show "close_session a = Ret (a\<lparr>mesh := upd_net (\<lambda>n. n\<lparr>proxy_in := (if proxy_in n = con_data_in (conn a) then None else proxy_in n),
      sar_in := [], msg_out := [], pkt_out := []\<rparr>) (mesh a)\<rparr>)"
    using assms by (simp add: close_session_def net_session_close_def flush_pkt_list_def)
qed (simp_all add: quiet_def upd_net_def)

lemma quiet_out: "quiet a b \<Longrightarrow> quiet a (out e b)"
  by (simp add: quiet_def)

lemma node_at_nodes: "nodes w = nodes v \<Longrightarrow> node_at w r = node_at v r"
  by (simp add: node_at_def)

text \<open>The characteristics of a service of the device are found when there is one of each kind.\<close>

definition has_service :: "dbus \<Rightarrow> nat \<Rightarrow> nat \<Rightarrow> nat \<Rightarrow> nat \<Rightarrow> 'w app \<Rightarrow> bool" where
  "has_service D dev s din dout a \<longleftrightarrow>
     s \<in> set (service_list a) \<and> din \<in> set (char_list a) \<and> dout \<in> set (char_list a) \<and>
     (\<forall>x\<in>set (service_list a). path_of D x ''Device'' = Some dev \<and> uuid_of D x = Some Proxy_svc \<longleftrightarrow> x = s) \<and>
     (\<forall>x\<in>set (char_list a). path_of D x ''Service'' = Some s \<and> uuid_of D x = Some Proxy_data_in \<longleftrightarrow> x = din) \<and>
     (\<forall>x\<in>set (char_list a). path_of D x ''Service'' = Some s \<and> uuid_of D x = Some Proxy_data_out \<longleftrightarrow> x = dout)"

lemma find_only: "x \<in> set xs \<Longrightarrow> (\<And>y. y \<in> set xs \<Longrightarrow> P y \<longleftrightarrow> y = x) \<Longrightarrow> find P xs = Some x"
  by (induction xs) auto

lemma characteristics_found:
  assumes "has_service D dev s din dout a" "con_type (conn a) = CONN_TYPE_IDENTITY"
  shows "get_characteristic D (Some dev) Proxy_data_in a = Some din" "get_characteristic D (Some dev) Proxy_data_out a = Some dout"
proof -
  have "find (\<lambda>x. mesh_gatt_is_child D x (Some dev) ''Device'' \<and> service_is_mesh D x (Some Proxy_svc)) (service_list a) = Some s"
    using assms(1) by (intro find_only) (auto simp: has_service_def mesh_gatt_is_child_def service_is_mesh_def split: option.split)
  moreover have "find (\<lambda>x. mesh_gatt_is_child D x (Some s) ''Service'' \<and> char_is_mesh D x (Some Proxy_data_in)) (char_list a) = Some din"
    "find (\<lambda>x. mesh_gatt_is_child D x (Some s) ''Service'' \<and> char_is_mesh D x (Some Proxy_data_out)) (char_list a) = Some dout"
    using assms(1) by (intro find_only; auto simp: has_service_def mesh_gatt_is_child_def char_is_mesh_def split: option.split)+
  ultimately show "get_characteristic D (Some dev) Proxy_data_in a = Some din" "get_characteristic D (Some dev) Proxy_data_out a = Some dout"
    using assms(2) by (simp_all add: get_characteristic_def conn_types)
qed

text \<open>
  The bus as it answers when all goes well: the calls are sent, and the device \<open>dev\<close> of
  the controller \<open>c\<close> is advertised with the octets \<open>d\<close>.
\<close>

definition good_bus :: "dbus \<Rightarrow> nat \<Rightarrow> nat \<Rightarrow> bytes \<Rightarrow> bool" where
  "good_bus D c dev d \<longleftrightarrow> (\<forall>p m. call_ok D p m) \<and> (\<forall>p b. notify_ok D p b) \<and> (\<forall>p. has_address D p) \<and>
     has_alias D dev \<and> path_of D dev ''Adapter'' = Some c \<and> service_data D dev = Some [Service Proxy_svc d]"

text \<open>
  What happens after provisioning, from the callback of its end on. The bus answers each call with the reply that
  the program asked for; the device advertises itself when it is not connected and the controller looks for its
  proxy service, and its services are resolved when it was connected. Eight answers at a time are more than the program asks for.
\<close>

definition daemon_after where
  "daemon_after c dev a a' = fold (daemon_call c dev) (drop (length (app_out a)) (app_out a')) (None, False, con_device (conn a) = Some dev)"

definition come_back where
  "come_back J D E tx recv c node dev a =
     cbind (mesh_prov_done J D node 0 a) (\<lambda>a1.
     cbind (answer_all D E 8 (length (app_out a)) a1) (\<lambda>(k2, a2).
     cbind (if daemon_after c dev a a2 = (Some Proxy_svc, True, False)
            then property_changed D E tx recv Device1 dev Service_data a2 else Ret a2) (\<lambda>a3.
     cbind (answer_all D E 8 k2 a3) (\<lambda>(k4, a4).
     cbind (if snd (snd (daemon_after c dev a a4))
            then property_changed D E tx recv Device1 dev (Services_resolved True) a4 else Ret a4) (\<lambda>a5.
       answer_all D E 8 k4 a5)))))"

lemma answer_done [simp]: "k = length (app_out a) \<Longrightarrow> answer_all D E n k a = Ret (k, a)"
  by (cases n) simp_all

lemma answer_next:
  "app_out a = xs @ e # ys \<Longrightarrow> k = length xs \<Longrightarrow>
   answer_all D E (Suc n) k a = cbind (reply_to D E False (reply_of e) a) (answer_all D E n (Suc k))"
  by simp

text \<open>A disconnection calls back when the bus has answered, be it at once or after the notifications were stopped.\<close>

lemma disconnect_answered:
  assumes "good_bus D c dev d" "pkt_out (net (mesh a)) = []" "con_device (conn a) = Some p"
  obtains a1 b m xs where "disconnect_device D r a = Ret a1" "quiet a b" "6 \<le> m"
    "answer_all D E 8 (length (app_out a)) a1 = cbind (reply_to D E False r b) (answer_all D E m (length (app_out b)))"
    "app_out b = app_out a @ xs @ [Method_call p ''Disconnect'' r]" "\<And>s. fold (daemon_call c dev) xs s = s"
proof -
  obtain b where b: "close_session a = Ret b" "quiet a b" "app_out b = app_out a" by (rule close_session_quiet [OF assms(2)])
  have q: "con_device (conn b) = Some p" "con_data_out (conn b) = con_data_out (conn a)" using b(2) assms(3) by (simp_all add: quiet_def)
  let ?dis = "Method_call p ''Disconnect'' r"
  have dis: "disconnect D r x = Ret (out ?dis x)" if "conn x = conn b" for x using that q(1) assms(1) by (simp add: disconnect_def good_bus_def)
  show thesis
  proof (cases "\<exists>q. con_data_out (conn b) = Some q \<and> has_notifying D q")
    case True
    then obtain q where q: "con_data_out (conn b) = Some q" "has_notifying D q" by blast
    let ?e = "Start_notify q False (Disc_notify r)" and ?b = "out ?dis (out (Start_notify q False (Disc_notify r)) b)"
    have "answer_all D E 8 (length (app_out a)) (out ?e b) = answer_all D E 7 (Suc (length (app_out a))) ?b"
      using answer_next [of "out ?e b" "app_out b" ?e "[]" "length (app_out a)" D E 7] b(3) dis [of "out ?e b"]
      by (simp add: reply_to_def disc_notify_cb_def)
    also have "\<dots> = cbind (reply_to D E False r ?b) (answer_all D E 6 (length (app_out ?b)))"
      using answer_next [of ?b "app_out (out ?e b)" ?dis "[]" "Suc (length (app_out a))" D E 6] b(3) by simp
    finally show thesis using that [of "out ?e b" ?b 6 "[?e]"] q b(1,3) quiet_out [OF quiet_out [OF b(2)]] assms(1)
      by (simp add: disconnect_device_def good_bus_def daemon_call_def)
  next
    case False
    let ?b = "out ?dis b"
    have "answer_all D E 8 (length (app_out a)) ?b = cbind (reply_to D E False r ?b) (answer_all D E 7 (length (app_out ?b)))"
      using answer_next [of ?b "app_out b" ?dis "[]" "length (app_out a)" D E 7] b(3) by simp
    moreover have "disconnect_device D r a = Ret ?b" using False b(1) dis [of b] by (auto simp: disconnect_device_def split: option.split)
    ultimately show thesis using that [of ?b ?b 7 "[]"] b(3) quiet_out [OF b(2)] by simp
  qed
qed

lemma node_looked_for:
  assumes "good_bus D c dev d" "default_ctrl a = Some c" "node_at (mesh a) r = Some n"
  obtains b where "prov_disconn_reply D False r a = Ret b" "mesh b = mesh a" "discover_mesh b" "default_ctrl b = Some c"
    "conn b = no_connection\<lparr>con_type := CONN_TYPE_IDENTITY, con_unicast := primary n\<rparr>" "ctrl_list b = ctrl_list a"
    "service_list b = service_list a" "char_list b = char_list a" "prov_net_key_index b = prov_net_key_index a" "app_db b = app_db a"
    "app_out b = app_out a @ [Discovery_filter Proxy_svc, Method_call c ''StartDiscovery'' Start_discovery_reply]"
proof -
  let ?out = "app_out a @ [Discovery_filter Proxy_svc, Method_call c ''StartDiscovery'' Start_discovery_reply]"
  have "prov_disconn_reply D False r a = Ret (a\<lparr>conn := no_connection\<lparr>con_type := CONN_TYPE_IDENTITY, con_unicast := primary n\<rparr>,
      discover_mesh := True, app_out := ?out\<rparr>)"
    using assms by (simp add: prov_disconn_reply_def set_connected_device_def set_scan_filter_uuids_def ctrl_call_def method_call_def
        good_bus_def out_def upd_conn_def no_connection_def)
  then show thesis by (rule that) (use assms(2) in simp_all)
qed

lemma identity_connected:
  assumes "good_bus D c dev (1 # i)" "default_ctrl a = Some c" "\<exists>ad\<in>set (ctrl_list a). ad_proxy ad = c" "discover_mesh a"
    and "con_type (conn a) = CONN_TYPE_IDENTITY" "con_unicast (conn a) \<noteq> 0" "length i = 16"
    and "keys_net_key_get (keys (mesh a)) (prov_net_key_index a) True = Some k"
    and "mesh_crypto_identity_check (p_alg E) k (con_unicast (conn a)) i = Ret j"
  obtains b where "property_changed D E tx recv Device1 dev Service_data a = Ret b" "mesh b = mesh a" "conn b = conn a"
    "default_ctrl b = Some c" "service_list b = service_list a" "char_list b = char_list a" "app_db b = app_db a"
    "app_out b = app_out a @ [Method_call c ''StopDiscovery'' No_reply, Method_call dev ''Connect'' (Connect_reply dev)]"
proof -
  obtain ad where ad: "find_parent D dev a = Some ad" "ad_proxy ad = c"
  proof -
    have "find (\<lambda>x. device_is_child D dev (Some (ad_proxy x))) (ctrl_list a) \<noteq> None"
      using assms(1,3) by (auto simp: find_None_iff device_is_child_def good_bus_def)
    then obtain ad where ad: "find_parent D dev a = Some ad" by (auto simp: find_parent_def)
    then have "device_is_child D dev (Some (ad_proxy ad))" using find_SomeD unfolding find_parent_def by fast
    then show thesis using that [OF ad] assms(1) by (simp add: device_is_child_def good_bus_def)
  qed
  have "parse_mesh_service_data (p_alg E) (1 # i) a = Ret True"
    using assms(5-9) by (simp add: parse_mesh_service_data_def conn_types IS_UNASSIGNED_def byte_at_def)
  then have "property_changed D E tx recv Device1 dev Service_data a = mesh_device_found D dev a"
    using assms(1,2,4) ad by (simp add: property_changed_def device_changed_def update_device_info_def device_is_child_def good_bus_def
        parse_service_data_def)
  then have "property_changed D E tx recv Device1 dev Service_data a = Ret (out (Method_call dev ''Connect'' (Connect_reply dev))
      (upd_adapter c (\<lambda>x. x\<lparr>mesh_devices := []\<rparr>) ((out (Method_call c ''StopDiscovery'' No_reply) a)\<lparr>discover_mesh := False\<rparr>)))"
    using assms(1,2) by (simp add: mesh_device_found_def ctrl_call_def method_call_def forget_mesh_devices_def good_bus_def)
  then show thesis by (rule that) (use assms(2) in simp_all)
qed

lemma characteristics_set_up:
  assumes "good_bus D c dev d" "default_ctrl a = Some c" "has_service D dev s din dout a"
    and "con_type (conn a) = CONN_TYPE_IDENTITY" "con_device (conn a) = Some dev"
  obtains b where "property_changed D E tx recv Device1 dev (Services_resolved True) a = Ret b" "mesh b = mesh a" "app_db b = app_db a"
    "conn b = (conn a)\<lparr>con_data_in := Some din, con_data_out := Some dout\<rparr>"
    "app_out b = app_out a @ [Start_notify dout True (Notify_proxy_out (node_find_by_uuid (mesh a) (con_dev_uuid (conn a))))]"
proof -
  let ?a1 = "upd_conn (\<lambda>c. c\<lparr>con_data_in := Some din\<rparr>) a"
  have "has_service D dev s din dout ?a1" using assms(3) by (simp add: has_service_def)
  then have "get_characteristic D (Some dev) Proxy_data_out ?a1 = Some dout" using characteristics_found(2) [of D dev s din dout ?a1] assms(4) by simp
  moreover have "get_characteristic D (Some dev) Proxy_data_in a = Some din" using characteristics_found(1) assms(3,4) by blast
  ultimately have "property_changed D E tx recv Device1 dev (Services_resolved True) a =
      Ret (data_out_notify D dout True Notify_proxy_out (upd_conn (\<lambda>c. c\<lparr>con_data_out := Some dout\<rparr>) ?a1))"
    using assms by (simp add: property_changed_def device_changed_def mesh_session_setup_def setup_data_def conn_types good_bus_def device_is_child_def Let_def)
  then show thesis by (rule that) (use assms(1) in \<open>simp_all add: data_out_notify_def good_bus_def\<close>)
qed

text \<open>The steps of the way back: the node is looked for, the device is connected, its session is open.\<close>

lemma looks_after_prov:
  assumes "good_bus D c dev i" "default_ctrl a = Some c" "pkt_out (net (mesh a)) = []" "proxy_in (net (mesh a)) = None"
    and "con_device (conn a) = Some p" "node_at (mesh a) r = Some n" "prov_db_add_new_node J (mesh a) r (app_db a) = Ret (d', saved)"
  obtains a1 b where "mesh_prov_done J D r 0 a = Ret a1" "answer_all D E 8 (length (app_out a)) a1 = Ret (length (app_out b), b)"
    "daemon_after c dev a b = (Some Proxy_svc, True, False)" "discover_mesh b" "default_ctrl b = Some c" "app_db b = d'"
    "conn b = no_connection\<lparr>con_type := CONN_TYPE_IDENTITY, con_unicast := primary n\<rparr>" "ctrl_list b = ctrl_list a"
    "service_list b = service_list a" "char_list b = char_list a" "prov_net_key_index b = prov_net_key_index a"
    "keys (mesh b) = keys (mesh a)" "pkt_out (net (mesh b)) = []" "proxy_in (net (mesh b)) = None"
    "\<exists>xs. app_out b = app_out a @ xs"
proof -
  let ?a0 = "a\<lparr>app_db := d'\<rparr>"
  obtain a1 x m xs where x: "disconnect_device D (Prov_disconn_reply r) ?a0 = Ret a1" "quiet ?a0 x" "6 \<le> m"
    "answer_all D E 8 (length (app_out ?a0)) a1 = cbind (reply_to D E False (Prov_disconn_reply r) x) (answer_all D E m (length (app_out x)))"
    "app_out x = app_out ?a0 @ xs @ [Method_call p ''Disconnect'' (Prov_disconn_reply r)]" "\<And>s. fold (daemon_call c dev) xs s = s"
    by (rule disconnect_answered [OF assms(1), of ?a0 p "Prov_disconn_reply r" E]) (use assms(3,5) in simp_all)
  have q: "default_ctrl x = Some c" "node_at (mesh x) r = Some n"
    using x(2) assms(2,6) node_at_nodes [of "mesh x" "mesh a" r] by (simp_all add: quiet_def)
  obtain b where b: "prov_disconn_reply D False r x = Ret b" "mesh b = mesh x" "discover_mesh b" "default_ctrl b = Some c"
    "conn b = no_connection\<lparr>con_type := CONN_TYPE_IDENTITY, con_unicast := primary n\<rparr>" "ctrl_list b = ctrl_list x"
    "service_list b = service_list x" "char_list b = char_list x" "prov_net_key_index b = prov_net_key_index x" "app_db b = app_db x"
    "app_out b = app_out x @ [Discovery_filter Proxy_svc, Method_call c ''StartDiscovery'' Start_discovery_reply]"
    by (rule node_looked_for [OF assms(1) q])
  obtain m' where m: "m = Suc (Suc m')" using x(3) that [of "m - 2"] by simp
  have "answer_all D E m (length (app_out x)) b = Ret (length (app_out b), b)"
    using b(11) answer_next [of b "app_out x @ [Discovery_filter Proxy_svc]" "Method_call c ''StartDiscovery'' Start_discovery_reply" "[]"
        "Suc (length (app_out x))" D E m'] by (simp add: m answer_next [OF b(11) refl] reply_to_def)
  with x(4) b(1) have ans: "answer_all D E 8 (length (app_out a)) a1 = Ret (length (app_out b), b)" by (simp add: reply_to_def)
  have "daemon_after c dev a b = (Some Proxy_svc, True, False)"
    using b(11) x(5,6) assms(5) by (simp add: daemon_after_def daemon_call_def)
  moreover have "mesh_prov_done J D r 0 a = Ret a1" using assms(7) x(1) by (simp add: mesh_prov_done_def)
  ultimately show thesis using that [of a1 b] ans b x(2,5) assms(4) by (simp add: quiet_def)
qed

lemma connects_to_device:
  assumes "good_bus D c dev (1 # i)" "app_out a = app_out a0 @ xs" "default_ctrl a = Some c" "\<exists>ad\<in>set (ctrl_list a). ad_proxy ad = c" "discover_mesh a"
    and "con_type (conn a) = CONN_TYPE_IDENTITY" "con_unicast (conn a) \<noteq> 0" "length i = 16"
    and "keys_net_key_get (keys (mesh a)) (prov_net_key_index a) True = Some k"
    and "mesh_crypto_identity_check (p_alg E) k (con_unicast (conn a)) i = Ret j"
  obtains a1 b where "property_changed D E tx recv Device1 dev Service_data a = Ret a1"
    "answer_all D E 8 (length (app_out a)) a1 = Ret (length (app_out b), b)" "snd (snd (daemon_after c dev a0 b))"
    "mesh b = mesh a" "conn b = (conn a)\<lparr>con_device := Some dev\<rparr>" "default_ctrl b = Some c" "service_list b = service_list a"
    "char_list b = char_list a" "app_db b = app_db a"
    "app_out b = app_out a @ [Method_call c ''StopDiscovery'' No_reply, Method_call dev ''Connect'' (Connect_reply dev)]"
proof -
  obtain a1 where a1: "property_changed D E tx recv Device1 dev Service_data a = Ret a1" "mesh a1 = mesh a" "conn a1 = conn a"
    "default_ctrl a1 = Some c" "service_list a1 = service_list a" "char_list a1 = char_list a" "app_db a1 = app_db a"
    "app_out a1 = app_out a @ [Method_call c ''StopDiscovery'' No_reply, Method_call dev ''Connect'' (Connect_reply dev)]"
    by (rule identity_connected [OF assms(1,3-10)])
  let ?b = "upd_conn (\<lambda>c. c\<lparr>con_device := Some dev\<rparr>) a1"
  have "connect_reply D False dev a1 = Ret ?b" using assms(1) by (simp add: connect_reply_def set_connected_device_def good_bus_def)
  moreover have "answer_all D E 8 (length (app_out a)) a1 = answer_all D E 7 (Suc (length (app_out a))) a1"
    using answer_next [OF a1(8) refl, of D E 7] by (simp add: reply_to_def)
  ultimately have "answer_all D E 8 (length (app_out a)) a1 = Ret (length (app_out ?b), ?b)"
    using answer_next [of a1 "app_out a @ [Method_call c ''StopDiscovery'' No_reply]" "Method_call dev ''Connect'' (Connect_reply dev)" "[]"
        "Suc (length (app_out a))" D E 6] a1(8) by (simp add: reply_to_def)
  moreover have "snd (snd (daemon_after c dev a0 ?b))" using assms(2) a1(8) by (simp add: daemon_after_def daemon_call_def split: prod.split)
  ultimately show thesis using that [of a1 ?b] a1 by simp
qed

lemma opens_session:
  assumes "good_bus D c dev d" "default_ctrl a = Some c" "has_service D dev s din dout a" "pkt_out (net (mesh a)) = []" "proxy_in (net (mesh a)) = None"
    and "con_type (conn a) = CONN_TYPE_IDENTITY" "con_device (conn a) = Some dev"
  obtains a1 b where "property_changed D E tx recv Device1 dev (Services_resolved True) a = Ret a1"
    "answer_all D E 8 (length (app_out a)) a1 = Ret (length (app_out b), b)" "app_db b = app_db a" "app_out b = app_out a @ [last (app_out b)]"
    "conn b = (conn a)\<lparr>con_data_in := Some din, con_data_out := Some dout, con_session_open := True\<rparr>"
    "proxy_in (net (mesh b)) = Some din" "open_cb (net (mesh b))"
proof -
  let ?e = "Start_notify dout True (Notify_proxy_out (node_find_by_uuid (mesh a) (con_dev_uuid (conn a))))"
  obtain a1 where a1: "property_changed D E tx recv Device1 dev (Services_resolved True) a = Ret a1" "mesh a1 = mesh a" "app_db a1 = app_db a"
    "conn a1 = (conn a)\<lparr>con_data_in := Some din, con_data_out := Some dout\<rparr>" "app_out a1 = app_out a @ [?e]"
    by (rule characteristics_set_up [OF assms(1-3,6,7)])
  let ?w = "upd_net (\<lambda>n. n\<lparr>proxy_in := Some din, iv_upd_state := IV_UPD_INIT, blacklist := False, provisioner := True, open_cb := True, pkt_out := []\<rparr>) (mesh a1)"
  let ?b = "upd_conn (\<lambda>c. c\<lparr>con_session_open := True\<rparr>) (a1\<lparr>mesh := ?w\<rparr>)"
  have "net_session_open din True True (mesh a1) = Ret (?w, True)"
    using assms(4,5) a1(2) by (simp add: net_session_open_def flush_pkt_list_def)
  then have "notify_proxy_out_cb False a1 = Ret ?b" using a1(4) assms(6) by (simp add: notify_proxy_out_cb_def)
  then have "answer_all D E 8 (length (app_out a)) a1 = Ret (length (app_out ?b), ?b)"
    using a1(5) answer_next [OF a1(5) refl, of D E 7] by (simp add: reply_to_def)
  then show thesis using that [of a1 ?b] a1 by (simp add: upd_net_def)
qed

text \<open>
  C12. A provisioned node comes back. When provisioning has succeeded and the bus answers each call of
  the program with the reply that was asked for, the entry of the node is behind the others in the file of the
  network, the program has disconnected, has looked for the node by its address, has connected to the device whose
  advertised identity was made with the provisioning network key and that address, and has opened a
  session through its proxy service; no call is left unanswered, and the callback that
  the network layer was given, which it calls with the first beacon, asks the node for its composition data. The device
  advertises itself only when it was disconnected and the controller was told to look for the proxy
  service; its services are resolved only when it was told to connect.
\<close>

theorem provisioned_node_comes_back:
  assumes "alg_wf (p_alg E)" "good_bus D c dev (1 # i)" "default_ctrl a = Some c" "\<exists>ad\<in>set (ctrl_list a). ad_proxy ad = c"
    and "has_service D dev s din dout a" "pkt_out (net (mesh a)) = []" "proxy_in (net (mesh a)) = None" "con_device (conn a) = Some p"
    and "node_at (mesh a) r = Some n" "primary n \<noteq> 0" "num_ele n \<noteq> 0"
    and "json_lib J" "prov_filename (app_db a) = Some f" "writable (app_db a) f" "db_load J (prov_filename (app_db a)) (app_db a) = Some jmain"
    and "j_is_object J jmain" "\<And>x. j_get J (Some jmain) ''nodes'' = Some x \<Longrightarrow> j_is_array J x"
    and "keys_net_key_get (keys (mesh a)) (prov_net_key_index a) True = Some k"
    and "length junk = 16" "mesh_crypto_identity (p_alg E) rnd k (primary n) junk = Ret i"
  shows "\<exists>b jmain' x. come_back J D E tx recv c r dev a = Ret (length (app_out b), b) \<and>
    db_load J (prov_filename (app_db b)) (app_db b) = Some jmain' \<and> j_get J (Some jmain') ''nodes'' = Some x \<and>
    j_items J x = (case j_get J (Some jmain) ''nodes'' of None \<Rightarrow> [] | Some y \<Rightarrow> j_items J y) @ [Some (node_json J n)] \<and>
    Method_call dev ''Connect'' (Connect_reply dev) \<in> set (drop (length (app_out a)) (app_out b)) \<and>
    con_device (conn b) = Some dev \<and> con_type (conn b) = CONN_TYPE_IDENTITY \<and> con_unicast (conn b) = primary n \<and>
    con_session_open (conn b) \<and> proxy_in (net (mesh b)) = Some din \<and> open_cb (net (mesh b)) \<and>
    session_open_cb D 0 b = Ret (out (Get_composition (primary n)) b)"
proof -
  from new_node_saved [OF assms(12,9,13-17,10,11)] obtain d' jmain' x where saved: "prov_db_add_new_node J (mesh a) r (app_db a) = Ret (d', True)"
    "db_load J (prov_filename d') d' = Some jmain'" "j_get J (Some jmain') ''nodes'' = Some x"
    "j_items J x = (case j_get J (Some jmain) ''nodes'' of None \<Rightarrow> [] | Some y \<Rightarrow> j_items J y) @ [Some (node_json J n)]" by blast
  note looks = looks_after_prov [OF assms(2,3,6-9) saved(1), of E]
  obtain a1 a2 xs where a2: "mesh_prov_done J D r 0 a = Ret a1" "answer_all D E 8 (length (app_out a)) a1 = Ret (length (app_out a2), a2)"
    "daemon_after c dev a a2 = (Some Proxy_svc, True, False)" "discover_mesh a2" "default_ctrl a2 = Some c" "app_db a2 = d'"
    "conn a2 = no_connection\<lparr>con_type := CONN_TYPE_IDENTITY, con_unicast := primary n\<rparr>" "ctrl_list a2 = ctrl_list a"
    "service_list a2 = service_list a" "char_list a2 = char_list a" "prov_net_key_index a2 = prov_net_key_index a"
    "keys (mesh a2) = keys (mesh a)" "pkt_out (net (mesh a2)) = []" "proxy_in (net (mesh a2)) = None" "app_out a2 = app_out a @ xs"
    by (rule looks) blast
  from identity_check_accepts [OF assms(1,19,20)] have i: "length i = 16" "mesh_crypto_identity_check (p_alg E) k (primary n) i = Ret i" by auto
  obtain a3 a4 where a4: "property_changed D E tx recv Device1 dev Service_data a2 = Ret a3"
    "answer_all D E 8 (length (app_out a2)) a3 = Ret (length (app_out a4), a4)" "snd (snd (daemon_after c dev a a4))"
    "mesh a4 = mesh a2" "conn a4 = (conn a2)\<lparr>con_device := Some dev\<rparr>" "default_ctrl a4 = Some c" "service_list a4 = service_list a2"
    "char_list a4 = char_list a2" "app_db a4 = app_db a2"
    "app_out a4 = app_out a2 @ [Method_call c ''StopDiscovery'' No_reply, Method_call dev ''Connect'' (Connect_reply dev)]"
    by (rule connects_to_device [OF assms(2) a2(15,5) _ a2(4), of k E i tx recv]) (use assms(4,10,18) a2 i in simp_all)
  have svc: "has_service D dev s din dout a4" using assms(5) a2(9,10) a4(7,8) by (simp add: has_service_def)
  obtain a5 b where b: "property_changed D E tx recv Device1 dev (Services_resolved True) a4 = Ret a5"
    "answer_all D E 8 (length (app_out a4)) a5 = Ret (length (app_out b), b)" "app_db b = app_db a4" "app_out b = app_out a4 @ [last (app_out b)]"
    "conn b = (conn a4)\<lparr>con_data_in := Some din, con_data_out := Some dout, con_session_open := True\<rparr>"
    "proxy_in (net (mesh b)) = Some din" "open_cb (net (mesh b))"
    by (rule opens_session [OF assms(2) a4(6) svc, of E tx recv]) (use a2 a4 in simp_all)
  have "come_back J D E tx recv c r dev a = Ret (length (app_out b), b)"
    by (simp add: come_back_def a2(1-3) a4(1-3) b(1,2))
  moreover have "Method_call dev ''Connect'' (Connect_reply dev) \<in> set (drop (length (app_out a)) (app_out b))"
    by (subst b(4)) (simp add: a4(10) a2(15))
  moreover have "app_db b = d'" "conn b = no_connection\<lparr>con_type := CONN_TYPE_IDENTITY, con_unicast := primary n, con_device := Some dev,
      con_data_in := Some din, con_data_out := Some dout, con_session_open := True\<rparr>"
    using b(3,5) a4(5,9) a2(6,7) by simp_all
  ultimately show ?thesis using saved b(6,7)
    by (intro exI [of _ b] exI [of _ jmain'] exI [of _ x]) (simp add: session_open_cb_def)
qed

section \<open>A device that is removed, and a long UUID\<close>

text \<open>
  When any device is removed, the first device of the list is dropped: if the device that was removed is another
  one, it stays in the list and a device that is there is forgotten.
\<close>

lemma removed_device_is_first:
  assumes "find_parent D prx a = Some ad" "mesh_devices ad = d # ds" "con_device (conn a) \<noteq> Some prx"
  shows "\<exists>b. device_removed D prx a = Ret b \<and> find_parent D prx b = Some (ad\<lparr>mesh_devices := ds\<rparr>)"
proof -
  have f: "find (\<lambda>x. device_is_child D prx (Some (ad_proxy x))) xs = Some ad \<Longrightarrow> (\<And>x. ad_proxy (f x) = ad_proxy x) \<Longrightarrow>
      find (\<lambda>x. device_is_child D prx (Some (ad_proxy x))) (update_first (\<lambda>x. ad_proxy x = ad_proxy ad) f xs) = Some (f ad)" for xs f
    by (induction xs) (auto split: if_splits dest: find_SomeD)
  show ?thesis
    using f [OF assms(1) [unfolded find_parent_def], of "\<lambda>x. x\<lparr>mesh_devices := remove1 d (mesh_devices x)\<rparr>"] assms
    by (auto simp: device_removed_def find_device_by_proxy_def find_parent_def upd_adapter_def Let_def)
qed

lemma hex_written_all: "str2hex_loop s i n = Some bs \<Longrightarrow> str2hex_written s i n = bs"
  by (induction n arbitrary: i bs) (auto split: option.splits)

text \<open>A UUID of 34 or more hexadecimal digits is written past the end of the buffer.\<close>

lemma long_uuid_overflows:
  assumes "str2hex uuid (length uuid) (length uuid div 2) = Some bs" "length uuid \<ge> 34"
  shows "cmd_start_prov D uuid a \<noteq> Ret b"
proof -
  have len: "str2hex_loop s i n = Some xs \<Longrightarrow> length xs = n" for s i n xs
    by (induction n arbitrary: i xs) (auto split: option.splits)
  from assms(1) have "str2hex_loop uuid 0 (length uuid div 2) = Some bs" by (auto simp: str2hex_def split: if_splits)
  with hex_written_all len [OF this] assms(2) show ?thesis by (auto simp: cmd_start_prov_def cbind_Ret_iff Let_def)
qed

text \<open>A security level is cut to eight bits before it is checked.\<close>

lemma security_level_cut: "snd (cmd_security 256 a) \<and> prov_sec_level (mesh (fst (cmd_security 256 a))) = 0"
  by (simp add: cmd_security_def prov_set_sec_level_def MESH_PROV_SEC_HIGH_def)

section \<open>A concrete bus\<close>

text \<open>A controller 1 with a device 10, whose proxy service is 20 with the characteristics 21 and 22.\<close>

definition main_bus :: "bytes \<Rightarrow> dbus" where
  "main_bus d = \<lparr>service_data = (\<lambda>_. Some [Service Proxy_svc d]), has_address = (\<lambda>_. True), has_alias = (\<lambda>_. True),
     uuid_of = (\<lambda>p. if p = 20 then Some Proxy_svc else if p = 21 then Some Proxy_data_in else if p = 22 then Some Proxy_data_out else None),
     path_of = (\<lambda>p m. if p = 10 then Some 1 else if p = 20 then Some 10 else Some 20),
     value_of = (\<lambda>_. None), has_notifying = (\<lambda>_. True), call_ok = (\<lambda>_ _. True), notify_ok = (\<lambda>_ _. True)\<rparr>"

definition main_key :: mesh_net_key where
  "main_key = demo_net_key\<lparr>nk_idx := 0, nk_current := \<lparr>nid = 0x21, enc_key = [], privacy_key = [], net_key = replicate 16 7,
     beacon_key = [], net_id = replicate 8 5\<rparr>\<rparr>"

definition main_world :: pworld where
  "main_world = \<lparr>net = blank_net, keys = \<lparr>net_keys = [main_key], app_keys = []\<rparr>, virt_addrs = [], nodes = [demo_new], next_ref = 3,
     local_node = None, log = [], pending_request = no_request, prov_sec_level = 0\<rparr>"

definition main_app :: "pworld app" where
  "main_app = \<lparr>conn = no_connection\<lparr>con_device := Some 10, con_type := CONN_TYPE_PROVISION\<rparr>, ctrl_list = [\<lparr>ad_proxy = 1, mesh_devices = []\<rparr>],
     default_ctrl = Some 1, service_list = [20], char_list = [21, 22], discovering = True, discover_mesh = False, prov_net_key_index = 0,
     app_gatt = gatt_init,
     app_db = demo_db, mesh = main_world, app_out = []\<rparr>"

definition main_env :: prov_env where
  "main_env = \<lparr>p_alg = demo_alg, p_rand = (\<lambda>n. replicate n 9), key_rnd = (\<lambda>_. None), key_junk = \<lparr>px = [], py = []\<rparr>,
     dh_rnd = None, p_junk = (\<lambda>n. replicate n 0), p_left = (\<lambda>b. b), gatt_ok = True\<rparr>"

definition main_recv :: "model_cb \<Rightarrow> u16 \<Rightarrow> bytes \<Rightarrow> pworld \<Rightarrow> (pworld \<times> bool) cres" where
  "main_recv cb a d w = Ret (w, False)"

lemma main_bus_good: "good_bus (main_bus d) 1 10 d" "has_service (main_bus d) 10 20 21 22 main_app"
  by (simp_all add: good_bus_def has_service_def main_bus_def main_app_def)

text \<open>The program while it looks for its network, and a bus on which the device is not provisioned.\<close>

definition looking_app :: "pworld app" where
  "looking_app = main_app\<lparr>conn := no_connection, discover_mesh := True\<rparr>"

definition prov_bus :: dbus where
  "prov_bus = (main_bus [])\<lparr>service_data := (\<lambda>_. Some [Service Prov_svc (replicate 16 0x11 @ [0, 0])])\<rparr>"

lemma looking_run: "main_run json_impl main_env demo_env main_recv [] looking_app"
  by (rule main_run.started) (simp_all add: looking_app_def main_app_def listed_def listing_def)

lemma own_mesh_announced:
  "\<exists>b. main_handle json_impl (main_bus (0 # replicate 8 5)) main_env demo_env main_recv (Property_changed Device1 10 Service_data) looking_app = Ret b \<and>
     Method_call 10 ''Connect'' (Connect_reply 10) \<in> new_calls looking_app b"
proof -
  have "net_validate_proxy_beacon (keys main_world) (replicate 8 5) = 0" "NET_IDX_INVALID \<noteq> 0" by code_simp+
  then have "parse_mesh_service_data demo_alg (0 # replicate 8 5) looking_app = Ret True"
    by (simp add: parse_mesh_service_data_def looking_app_def main_app_def no_connection_def conn_types byte_at_def)
  then show ?thesis
    by (simp add: main_handle_def property_changed_def device_changed_def update_device_info_def find_parent_def looking_app_def main_app_def main_env_def
        device_is_child_def main_bus_def parse_service_data_def mesh_device_found_def ctrl_call_def method_call_def forget_mesh_devices_def new_calls_def)
qed

lemma unprovisioned_announced:
  "\<exists>a b. main_handle json_impl prov_bus main_env demo_env main_recv (Proxy_added Device1 10) looking_app = Ret a \<and>
     main_handle json_impl prov_bus main_env demo_env main_recv (Cmd_start_prov (replicate 32 (CHR ''1''))) a = Ret b \<and>
     Method_call 10 ''Connect'' (Connect_reply 10) \<in> new_calls a b"
proof -
  have hex: "str2hex_written (replicate 32 (CHR ''1'')) 0 16 = replicate 16 0x11" by code_simp
  have prov: "parse_prov_service_data (replicate 16 0x11 @ [0, 0]) = Some (replicate 16 0x11, 0)" by code_simp
  let ?uuid = "replicate 16 0x11 :: bytes"
  let ?n = "(blank_node 3)\<lparr>dev_uuid := ?uuid, oob := 0\<rparr>"
  let ?a = "looking_app\<lparr>ctrl_list := [\<lparr>ad_proxy = 1, mesh_devices = [\<lparr>md_proxy = 10, md_uuid = ?uuid, md_hide = True\<rparr>]\<rparr>],
    mesh := main_world\<lparr>nodes := [demo_new, ?n], next_ref := 4\<rparr>\<rparr>"
  have ne: "dev_uuid demo_new \<noteq> ?uuid" "nref demo_new \<noteq> 3" "primary (blank_node 3) = 0" "nref (blank_node 3) = 3" by (simp_all add: demo_new_def blank_node_def)
  have new: "node_create_new 0 ?uuid main_world = (main_world\<lparr>nodes := [demo_new, ?n], next_ref := 4\<rparr>, Some 3)"
    using ne by (simp add: node_create_new_def node_find_by_uuid_def add_node_def main_world_def Let_def)
  have a: "main_handle json_impl prov_bus main_env demo_env main_recv (Proxy_added Device1 10) looking_app = Ret ?a"
    by (simp add: main_handle_def proxy_added_def update_device_info_def find_parent_def looking_app_def main_app_def prov_bus_def main_bus_def
        device_is_child_def parse_service_data_def prov prov_device_found_def find_device_by_uuid_def upd_adapter_def new Let_def)
  have disc: "disconnect_device prov_bus No_reply ?a = Ret ?a"
    by (simp add: disconnect_device_def close_session_def net_session_close_def looking_app_def main_app_def no_connection_def flush_pkt_list_def
        upd_net_def main_world_def blank_net_def disconnect_def)
  have id: "memcpy (replicate 16 0) 0 ?uuid = ?uuid" by code_simp
  have b: "\<exists>b. main_handle json_impl prov_bus main_env demo_env main_recv (Cmd_start_prov (replicate 32 (CHR ''1''))) ?a = Ret b \<and>
      Method_call 10 ''Connect'' (Connect_reply 10) \<in> new_calls ?a b"
    unfolding main_handle_def cmd_start_prov_def main_event.case disc using ne by (simp add: hex id Let_def node_find_by_uuid_def node_at_def node_is_provisioned_def IS_UNASSIGNED_def
        looking_app_def main_app_def find_device_by_uuid_def ctrl_call_def forget_mesh_devices_def method_call_def prov_bus_def main_bus_def new_calls_def upd_conn_def)
  from a b show ?thesis by blast
qed


theorem provisioned_node_comes_back_witness:
  "\<exists>i b. mesh_crypto_identity demo_alg [1, 2, 3, 4, 5, 6, 7, 8] (replicate 16 7) 0x150 (replicate 16 0) = Ret i \<and>
     come_back json_impl (main_bus (1 # i)) main_env demo_env main_recv 1 2 10 main_app = Ret (length (app_out b), b) \<and>
     con_session_open (conn b) \<and> proxy_in (net (mesh b)) = Some 21 \<and>
     session_open_cb (main_bus (1 # i)) 0 b = Ret (out (Get_composition 0x150) b)"
proof -
  obtain i where i: "mesh_crypto_identity demo_alg [1, 2, 3, 4, 5, 6, 7, 8] (replicate 16 7) 0x150 (replicate 16 0) = Ret i"
    by (simp add: mesh_crypto_identity_def identity_calc_def mesh_crypto_nkik_def crypto_128_def mesh_crypto_k1_def
        mesh_crypto_s1_def aes_cmac_one_def aes_cmac_setup_def alg_new_def aes_cmac_def demo_alg_def CMAC_MSG_MAX_def
        str_bytes_def aes_ecb_one_def aes_ecb_setup_def aes_ecb_def Let_def)
  have node: "node_at (mesh main_app) 2 = Some demo_new" "primary demo_new = 0x150" "num_ele demo_new \<noteq> 0"
    by (simp_all add: main_app_def main_world_def node_at_def demo_new_def blank_node_def)
  have app: "default_ctrl main_app = Some 1" "\<exists>ad\<in>set (ctrl_list main_app). ad_proxy ad = 1" "pkt_out (net (mesh main_app)) = []"
    "proxy_in (net (mesh main_app)) = None" "keys_net_key_get (keys (mesh main_app)) (prov_net_key_index main_app) True = Some (replicate 16 7)"
    "p_alg main_env = demo_alg" "con_device (conn main_app) = Some 10" "app_db main_app = demo_db"
    by (simp_all add: main_app_def main_world_def blank_net_def keys_net_key_get_def find_net_key_by_idx_def main_key_def main_env_def)
  have db: "prov_filename (app_db main_app) = Some ''prov''" "writable (app_db main_app) ''prov''"
    "db_load json_impl (prov_filename (app_db main_app)) (app_db main_app) = Some demo_prov"
    unfolding app(8) by (simp_all add: demo_db_facts)
  have arr: "j_get json_impl (Some demo_prov) ''nodes'' = Some x \<Longrightarrow> j_is_array json_impl x" for x
    using demo_doc_facts(4) demo_jmodel_facts(5) by auto
  show ?thesis
    using provisioned_node_comes_back [OF _ main_bus_good(1) app(1,2) main_bus_good(2) app(3,4,7) node(1) _ node(3) json_values.json_lib_axioms db
        demo_doc_facts(1) arr app(5), of main_env "replicate 16 0" _ i demo_env main_recv] i demo_alg_wf by (fastforce simp: node(2) app(6))
qed

end
