(* ===== verification/Spec2Isabelle.thy ===== *)
theory Spec2Isabelle
  imports Mesh_Gatt Mesh_ProvInv Mesh_Program Mesh_MainProps
begin

text \<open>
  Verification of the mesh provisioner \<^verbatim>\<open>meshctl\<close> (sources under \<^verbatim>\<open>src/blueZ/mesh/\<close>
  and the elliptic-curve code \<^verbatim>\<open>src/blueZ/src/shared/ecc.c\<close> it uses).

  \<^bold>\<open>The program.\<close> \<^verbatim>\<open>meshctl\<close> talks to a Bluetooth mesh through one GATT connection.
  \<^verbatim>\<open>gatt.c\<close> cuts PDUs into pieces of the size of the connection and joins what
  arrives. \<^verbatim>\<open>net.c\<close> keeps the network and application keys, the pool of addresses,
  the sequence number and the IV index; it encrypts, segments and queues outgoing
  messages, decrypts and reassembles incoming ones, and acknowledges segments.
  \<^verbatim>\<open>crypto.c\<close> has AES-CCM, the key derivations, the nonces and the encoding of
  network packets, over the ciphers of the kernel. \<^verbatim>\<open>node.c\<close> keeps the nodes with
  their elements and models and hands messages to the models. \<^verbatim>\<open>prov.c\<close> adds a
  device to the network, with \<^verbatim>\<open>ecc.c\<close> for the exchange of keys and \<^verbatim>\<open>agent.c\<close> for
  what the user has to read or enter. \<^verbatim>\<open>config-client.c\<close> and \<^verbatim>\<open>config-server.c\<close> configure
  the nodes, the six files \<^verbatim>\<open>*-model.c\<close> control lights: each registers a receive
  callback with \<^verbatim>\<open>node.c\<close> and has commands that send through \<^verbatim>\<open>net.c\<close>. \<^verbatim>\<open>prov-db.c\<close>
  keeps the keys, addresses and nodes of the network and the local node in two
  JSON files, which are read at the start and changed when a node is added or configured. \<^verbatim>\<open>main.c\<close>
  finds the devices on D-Bus, connects to one, starts provisioning or a session, and hands
  what arrives to \<^verbatim>\<open>gatt.c\<close>, \<^verbatim>\<open>prov.c\<close> and \<^verbatim>\<open>net.c\<close>.

  \<^bold>\<open>The theories\<close> and what they model.
  \<^item> \<open>Mesh_Prelude\<close>: octet buffers, byte order, results of C functions (\<open>cres\<close>:
    \<open>Ret\<close>, \<open>Fail\<close>, and \<open>Fault\<close> for what C leaves undefined: a read or write outside a
    buffer, a null or freed pointer), GLib lists.
  \<^item> \<open>Mesh_Util\<close>: \<^verbatim>\<open>util.c\<close>, the macros of \<^verbatim>\<open>mesh-net.h\<close>; opcodes and hexadecimal text
    round trip, the in-place swap of 32 octets is their reversal.
  \<^item> \<open>Mesh_Crypto\<close>, \<open>Mesh_CCM\<close>, \<open>Mesh_NetPDU\<close>: \<^verbatim>\<open>crypto.c\<close>. The kernel's AES-ECB and CMAC
    sockets are the record \<open>af_alg\<close>. CCM is the CCM of RFC 3610; decryption inverts
    encryption; a network packet is accepted only if encoding the result gives
    its octets; nonces determine their inputs.
  \<^item> \<open>Mesh_Gatt\<close>: \<^verbatim>\<open>gatt.c\<close>. Segmentation and reassembly are inverse, the buffer stays
    within its bound.
  \<^item> \<open>Mesh_Keys\<close>, \<open>Mesh_AddressPool\<close>: the key store and the address pool of \<^verbatim>\<open>net.c\<close>.
    The lists refine maps (locale \<open>key_table\<close>), the pool is an allocator of
    disjoint blocks (locale \<open>address_allocator\<close>).
  \<^item> \<open>Mesh_World\<close>: the data structures shared by \<^verbatim>\<open>net.c\<close>, \<^verbatim>\<open>node.c\<close> and \<^verbatim>\<open>prov.c\<close>, in one
    record \<open>world\<close>; pointers to nodes are numbers; what leaves the program
    (writes, database updates, prompts, callbacks) is appended to \<open>log\<close>.
  \<^item> \<open>Mesh_Packet\<close>, \<open>Mesh_NetOut\<close>, \<open>Mesh_NetIn\<close>: the packet macros, sending and
    receiving of \<^verbatim>\<open>net.c\<close>. \<open>Mesh_Segments\<close>: segments built by the one side are read
    and joined by the other, in any order. \<open>Mesh_NetSafety\<close>: the invariant of the
    network layer over all steps, and that packets and beacons act only when they
    verify. \<open>Mesh_NetSend\<close>: what a message becomes in the queue, and when an
    acknowledgement ends it.
  \<^item> \<open>Mesh_Node\<close>: \<^verbatim>\<open>node.c\<close>. Only bound models are called; lookup by address.
  \<^item> \<open>Mesh_Vli\<close>, \<open>Mesh_Ecc\<close>: \<^verbatim>\<open>ecc.c\<close>. The operations on 256-bit numbers against
    arithmetic on integers (\<open>vli_val\<close>), including the carries the product loses;
    the fast reduction is the remainder, the inversion ends with the inverse,
    validity of a public key is the equation of the curve.
  \<^item> \<open>Mesh_Prov\<close>: \<^verbatim>\<open>prov.c\<close> and \<^verbatim>\<open>agent.c\<close>. \<open>Mesh_ProvSafety\<close>: the steps of
    provisioning as a relation (\<open>prov_step\<close>), what may leave and when, and the ways
    around the exchange of keys. \<open>Mesh_ProvInv\<close>: the shape of the data is kept by
    every step, no PDU makes the receiving side fault, and a run without
    out-of-band data ends with a provisioned node.
  \<^item> \<open>Mesh_Models\<close>: \<^verbatim>\<open>onoff-model.c\<close>, \<^verbatim>\<open>light-level-model.c\<close>, \<^verbatim>\<open>light-lightness-model.c\<close>,
    \<^verbatim>\<open>light-ctl-model.c\<close>, \<^verbatim>\<open>light-hsl-model.c\<close>, \<^verbatim>\<open>time-model.c\<close>. The text of a command line
    reads back, the set messages decode, the shown time is exact, a command
    changes its own client only; what the bind callbacks and \<^verbatim>\<open>node.c\<close> make of a new
    key; the range checks that refuse nothing.
  \<^item> \<open>Mesh_Config\<close>: \<^verbatim>\<open>config-client.c\<close> and \<^verbatim>\<open>config-server.c\<close>, and the receive callbacks
    together (\<open>callbacks\<close>). They call each other at most once, so the fuel of
    two is enough for every message; the default TTL and a publication go from the
    command to the server; status messages that make the client leave its
    memory or use a freed node.
  \<^item> \<open>Mesh_Program\<close>: the callbacks are what the network layer asks for (locale
    \<open>message_receiver\<close>), and the invariant of the network layer holds after every
    sequence of events, commands and registrations (\<open>program_step\<close>).
  \<^item> \<open>Mesh_Json\<close>: the functions of \<^verbatim>\<open>json-c\<close> that \<^verbatim>\<open>prov-db.c\<close> calls are the record \<open>json_c\<close>, an
    argument of the model; its documented behaviour is the locale \<open>json_lib\<close>, interpreted
    on JSON values with a printer and a parser. A pointer into a document is a path.
  \<^item> \<open>Mesh_Db\<close>: \<^verbatim>\<open>prov-db.c\<close>. \<open>Mesh_DbProps\<close>: a change that the configuration models save
    is the change of an abstract configuration and of nothing else (\<open>db_holds\<close>), and what is
    written for a model, a new node and the IV index reads back; key indexes do not.
    \<open>Mesh_DbRead\<close>: reading an entry gives one node or none; the start of \<^verbatim>\<open>main.c\<close>
    (\<open>mesh_start\<close>) gives one node for each entry. \<open>Mesh_DbComp\<close>: composition data survive
    a restart, compared with what \<^verbatim>\<open>node.c\<close> makes of the octets.
  \<^item> \<open>Mesh_Main\<close>: \<^verbatim>\<open>main.c\<close>, with the connection and the lists of devices, services and
    characteristics as the record \<open>app\<close>. \<open>Mesh_MainProps\<close>: the program connects to its own mesh only, and a
    provisioned node is saved, found, connected to and asked for its composition.

  \<^bold>\<open>Modelling.\<close> Machine integers are words of their width. A loop is a recursive
  function with its termination proof, or a \<^verbatim>\<open>while\<close> of the library (\<open>vli_mod_inv\<close>, the
  corrections of \<open>vli_mmod_fast\<close>), for which termination is proved; the writing
  loop of \<^verbatim>\<open>gatt.c\<close>, which need not end, has fuel; more fuel than the message has
  octets is enough for every MTU that leaves room, which is part of its round trip. Random
  octets, uninitialised memory and the answers of D-Bus are arguments. Results that the code ignores are ignored.

  Memory is little endian where the code takes the octets of an integer through
  a pointer. Numbers in the text of a command follow \<^verbatim>\<open>strtol\<close> and \<^verbatim>\<open>sscanf\<close> with a
  64-bit \<^verbatim>\<open>long\<close>. A message lies in a buffer with some octets behind it
  (\<open>cfg_tail\<close>); reading past those is a fault.

  In the models of \<^verbatim>\<open>net.c\<close>, \<^verbatim>\<open>node.c\<close> and the configuration models a call of the database is an
  entry of \<open>log\<close>; \<open>save_call\<close> carries out those of the configuration models on the files.
  A file is its text or cannot be read; a file that cannot be opened for writing stays as it is.

  What the bus says of a proxy is the record \<open>dbus\<close>, an argument of the definitions of \<open>Mesh_Main\<close>; a call of a method
  is an effect with the reply it waits for, and the reply is an operation of its own.

  \<^bold>\<open>Not modelled.\<close> What is printed. Of \<^verbatim>\<open>main.c\<close> the commands that list, show, select or power
  controllers, the set-up of the command line, and the JNI bridge: input and output only. The rest of the BlueZ
  tree is the upstream stack the program is built in.
\<close>

end
